(* ===== verification/Prelude.thy ===== *)
theory Prelude
  imports Main "HOL-Library.Word"
begin

text \<open>
  What every component of the model shares.

  A Rust \<open>char\<close> is a Unicode scalar value and is modelled by its code point (a natural
  number, \<open>is_scalar\<close> says which ones exist); a \<open>String\<close> or \<open>&str\<close> is the list of its
  scalars, and \<open>str::len\<close> (bytes) is the length of its UTF-8 encoding (theory Utf).  Machine
  integers keep their width (\<open>u8\<close> \<dots> \<open>u64\<close>); \<open>usize\<close> values that are only
  lengths or positions of an in-memory list are natural numbers, and \<open>usize\<close> values that
  are stored or transmitted are 64-bit words (the target is Windows 11 x64).

  A \<open>Result\<close> is a sum with the error on the left, an \<open>Option\<close> an option.
\<close>

unbundle bit_operations_syntax

subsection \<open>Names of types\<close>

type_synonym scalar = nat
type_synonym ustr = "scalar list"
type_synonym u8 = "8 word"
type_synonym u16 = "16 word"
type_synonym u32 = "32 word"
type_synonym u64 = "64 word"
type_synonym bytes = "u8 list"

text \<open>An ASCII string literal of the source.\<close>

abbreviation lit :: "string \<Rightarrow> ustr" where
  "lit s \<equiv> map of_char s"

abbreviation chr :: "char \<Rightarrow> scalar" where
  "chr c \<equiv> of_char c"

named_theorems model_simps \<open>equations that evaluate the operations of the model\<close>
named_theorems inv_simps \<open>definitions of invariants and well-formedness predicates\<close>

subsection \<open>Scalars and their ASCII classes\<close>

definition is_scalar :: "scalar \<Rightarrow> bool" where
  "is_scalar c \<longleftrightarrow> c < 0xD800 \<or> (0xE000 \<le> c \<and> c < 0x110000)"

definition valid_str :: "ustr \<Rightarrow> bool" where
  "valid_str s \<longleftrightarrow> list_all is_scalar s"

definition is_ascii :: "scalar \<Rightarrow> bool" where
  "is_ascii c \<longleftrightarrow> c < 128"

definition is_ascii_str :: "ustr \<Rightarrow> bool" where
  "is_ascii_str s \<longleftrightarrow> list_all is_ascii s"

definition is_ascii_lowercase :: "scalar \<Rightarrow> bool" where
  "is_ascii_lowercase c \<longleftrightarrow> 97 \<le> c \<and> c \<le> 122"

definition is_ascii_uppercase :: "scalar \<Rightarrow> bool" where
  "is_ascii_uppercase c \<longleftrightarrow> 65 \<le> c \<and> c \<le> 90"

definition is_ascii_alphabetic :: "scalar \<Rightarrow> bool" where
  "is_ascii_alphabetic c \<longleftrightarrow> is_ascii_lowercase c \<or> is_ascii_uppercase c"

definition is_ascii_digit :: "scalar \<Rightarrow> bool" where
  "is_ascii_digit c \<longleftrightarrow> 48 \<le> c \<and> c \<le> 57"

definition is_ascii_alphanumeric :: "scalar \<Rightarrow> bool" where
  "is_ascii_alphanumeric c \<longleftrightarrow> is_ascii_alphabetic c \<or> is_ascii_digit c"

definition is_ascii_hexdigit :: "scalar \<Rightarrow> bool" where
  "is_ascii_hexdigit c \<longleftrightarrow> is_ascii_digit c \<or> (65 \<le> c \<and> c \<le> 70) \<or> (97 \<le> c \<and> c \<le> 102)"

definition is_ascii_punctuation :: "scalar \<Rightarrow> bool" where
  "is_ascii_punctuation c \<longleftrightarrow> (33 \<le> c \<and> c \<le> 47) \<or> (58 \<le> c \<and> c \<le> 64) \<or>
     (91 \<le> c \<and> c \<le> 96) \<or> (123 \<le> c \<and> c \<le> 126)"

text \<open>\<open>char::is_whitespace\<close>: the code points with the Unicode property White_Space.\<close>

definition is_whitespace :: "scalar \<Rightarrow> bool" where
  "is_whitespace c \<longleftrightarrow> (9 \<le> c \<and> c \<le> 13) \<or> c = 32 \<or> c = 0x85 \<or> c = 0xA0 \<or> c = 0x1680 \<or>
     (0x2000 \<le> c \<and> c \<le> 0x200A) \<or> c = 0x2028 \<or> c = 0x2029 \<or> c = 0x202F \<or> c = 0x205F \<or> c = 0x3000"

definition to_ascii_lowercase :: "scalar \<Rightarrow> scalar" where
  "to_ascii_lowercase c = (if is_ascii_uppercase c then c + 32 else c)"

abbreviation ascii_lower :: "ustr \<Rightarrow> ustr" where
  "ascii_lower s \<equiv> map to_ascii_lowercase s"

definition eq_ignore_ascii_case :: "ustr \<Rightarrow> ustr \<Rightarrow> bool" where
  "eq_ignore_ascii_case a b \<longleftrightarrow> ascii_lower a = ascii_lower b"

lemmas char_class_defs = is_ascii_def is_ascii_lowercase_def is_ascii_uppercase_def
  is_ascii_alphabetic_def is_ascii_digit_def is_ascii_alphanumeric_def is_ascii_hexdigit_def
  is_ascii_punctuation_def is_whitespace_def

lemma valid_str_simps [simp]:
  "valid_str []"
  "valid_str (c # s) \<longleftrightarrow> is_scalar c \<and> valid_str s"
  "valid_str (s @ t) \<longleftrightarrow> valid_str s \<and> valid_str t"
  by (simp_all add: valid_str_def)

lemma is_ascii_str_simps [simp]:
  "is_ascii_str []"
  "is_ascii_str (c # s) \<longleftrightarrow> is_ascii c \<and> is_ascii_str s"
  "is_ascii_str (s @ t) \<longleftrightarrow> is_ascii_str s \<and> is_ascii_str t"
  by (simp_all add: is_ascii_str_def)

lemma ascii_is_scalar: "is_ascii c \<Longrightarrow> is_scalar c"
  by (simp add: is_ascii_def is_scalar_def)

lemma ascii_str_valid: "is_ascii_str s \<Longrightarrow> valid_str s"
  by (induction s) (auto intro: ascii_is_scalar)

lemma is_ascii_str_butlast: "is_ascii_str s \<Longrightarrow> is_ascii_str (butlast s)"
  by (auto simp: is_ascii_str_def list_all_iff dest: in_set_butlastD)

lemma to_ascii_lowercase_idem [simp]:
  "to_ascii_lowercase (to_ascii_lowercase c) = to_ascii_lowercase c"
  by (auto simp: to_ascii_lowercase_def is_ascii_uppercase_def)

lemma alphabetic_ascii: "is_ascii_alphabetic c \<Longrightarrow> is_ascii c"
  by (auto simp: char_class_defs)

subsection \<open>String searches of the standard library\<close>

definition strip_prefix :: "'a list \<Rightarrow> 'a list \<Rightarrow> 'a list option" where
  "strip_prefix p s = (if take (length p) s = p then Some (drop (length p) s) else None)"

definition starts_with :: "'a list \<Rightarrow> 'a list \<Rightarrow> bool" where
  "starts_with p s \<longleftrightarrow> take (length p) s = p"

fun contains_sub :: "'a list \<Rightarrow> 'a list \<Rightarrow> bool" where
  "contains_sub p [] \<longleftrightarrow> p = []"
| "contains_sub p (c # s) \<longleftrightarrow> starts_with p (c # s) \<or> contains_sub p s"

text \<open>\<open>str::split\<close> with a character predicate: one piece more than there are matches.\<close>

fun split_by :: "('a \<Rightarrow> bool) \<Rightarrow> 'a list \<Rightarrow> 'a list list" where
  "split_by p [] = [[]]"
| "split_by p (c # s) =
     (if p c then [] # split_by p s
      else (case split_by p s of [] \<Rightarrow> [[c]] | y # ys \<Rightarrow> (c # y) # ys))"

abbreviation split_on :: "'a \<Rightarrow> 'a list \<Rightarrow> 'a list list" where
  "split_on d \<equiv> split_by (\<lambda>c. c = d)"

text \<open>\<open>str::split_once\<close> with one character.\<close>

fun split_once :: "'a \<Rightarrow> 'a list \<Rightarrow> ('a list \<times> 'a list) option" where
  "split_once d [] = None"
| "split_once d (c # s) =
     (if c = d then Some ([], s)
      else map_option (\<lambda>(l, r). (c # l, r)) (split_once d s))"

text \<open>\<open>str::splitn n\<close>: at most \<open>n\<close> pieces, the last one holds the rest.\<close>

fun splitn :: "nat \<Rightarrow> 'a \<Rightarrow> 'a list \<Rightarrow> 'a list list" where
  "splitn 0 d s = []"
| "splitn (Suc 0) d s = [s]"
| "splitn (Suc (Suc n)) d s =
     (case split_once d s of None \<Rightarrow> [s] | Some (l, r) \<Rightarrow> l # splitn (Suc n) d r)"

text \<open>\<open>[T]::join\<close> with a separator.\<close>

fun join_with :: "'a list \<Rightarrow> 'a list list \<Rightarrow> 'a list" where
  "join_with sep [] = []"
| "join_with sep [x] = x"
| "join_with sep (x # y # ys) = x @ sep @ join_with sep (y # ys)"

lemma split_by_not_Nil [simp]: "split_by p s \<noteq> []"
  by (cases s) (auto split: list.splits)

lemma strip_prefix_append [simp]: "strip_prefix p (p @ s) = Some s"
  by (simp add: strip_prefix_def)

lemma strip_prefix_Some: "strip_prefix p s = Some r \<longleftrightarrow> s = p @ r"
  by (auto simp: strip_prefix_def split: if_splits) (metis append_take_drop_id)

lemma split_once_Some: "split_once d s = Some (l, r) \<Longrightarrow> s = l @ d # r \<and> d \<notin> set l"
  by (induction s arbitrary: l) (auto split: if_splits)

lemma split_once_append: "d \<notin> set l \<Longrightarrow> split_once d (l @ d # r) = Some (l, r)"
  by (induction l) auto

lemma split_once_None: "split_once d s = None \<longleftrightarrow> d \<notin> set s"
  by (induction s) auto

text \<open>Decimal digits, as \<open>format!\<close> prints an unsigned integer and \<open>str::parse\<close> reads it.\<close>

fun show_nat :: "nat \<Rightarrow> ustr" where
  "show_nat n = (if n < 10 then [48 + n] else show_nat (n div 10) @ [48 + n mod 10])"

declare show_nat.simps [simp del]

definition digits_value :: "ustr \<Rightarrow> nat" where
  "digits_value = foldl (\<lambda>acc c. acc * 10 + (c - 48)) 0"

text \<open>\<open>str::parse\<close> to an unsigned type: one optional plus sign, at least one digit, no overflow.\<close>

definition parse_unsigned :: "nat \<Rightarrow> ustr \<Rightarrow> nat option" where
  "parse_unsigned bound s =
     (let ds = (case s of c # r \<Rightarrow> if c = 43 then r else s | [] \<Rightarrow> s)
      in if ds \<noteq> [] \<and> list_all is_ascii_digit ds \<and> digits_value ds < bound
         then Some (digits_value ds) else None)"

lemma show_nat_digits: "list_all is_ascii_digit (show_nat n) \<and> show_nat n \<noteq> []"
proof (induction n rule: show_nat.induct)
  case (1 n)
  then show ?case
    by (cases "n < 10") (auto simp: show_nat.simps [of n] is_ascii_digit_def)
qed

lemma digits_value_snoc [simp]: "digits_value (ds @ [c]) = digits_value ds * 10 + (c - 48)"
  by (simp add: digits_value_def)

lemma digits_value_show_nat [simp]: "digits_value (show_nat n) = n"
proof (induction n rule: show_nat.induct)
  case (1 n)
  show ?case
  proof (cases "n < 10")
    case True
    then show ?thesis by (simp add: show_nat.simps [of n] digits_value_def)
  next
    case False
    with 1 show ?thesis by (simp add: show_nat.simps [of n])
  qed
qed

lemma parse_show_nat: "n < bound \<Longrightarrow> parse_unsigned bound (show_nat n) = Some n"
proof -
  assume n: "n < bound"
  obtain c r where s: "show_nat n = c # r" and c: "is_ascii_digit c"
    using show_nat_digits [of n] by (cases "show_nat n") auto
  have "c \<noteq> 43" using c by (simp add: is_ascii_digit_def)
  then show ?thesis
    using n s show_nat_digits [of n] digits_value_show_nat [of n]
    by (simp add: parse_unsigned_def Let_def)
qed

lemma show_nat_inject: "show_nat a = show_nat b \<longleftrightarrow> a = b"
  by (metis digits_value_show_nat)

lemma set_show_nat: "c \<in> set (show_nat n) \<Longrightarrow> 48 \<le> c \<and> c \<le> 57"
  using show_nat_digits [of n] by (auto simp: list_all_iff is_ascii_digit_def)

subsection \<open>Lists\<close>

text \<open>\<open>Iterator::position\<close>: the index of the first element that satisfies a predicate.\<close>

fun position :: "('a \<Rightarrow> bool) \<Rightarrow> 'a list \<Rightarrow> nat option" where
  "position p [] = None"
| "position p (x # xs) = (if p x then Some 0 else map_option Suc (position p xs))"

definition remove_nth :: "nat \<Rightarrow> 'a list \<Rightarrow> 'a list" where
  "remove_nth i xs = take i xs @ drop (Suc i) xs"

lemma position_None: "position p xs = None \<longleftrightarrow> (\<forall>x \<in> set xs. \<not> p x)"
  by (induction xs) auto

lemma position_Some:
  "position p xs = Some i \<Longrightarrow> i < length xs \<and> p (xs ! i) \<and> (\<forall>j < i. \<not> p (xs ! j))"
proof (induction xs arbitrary: i)
  case (Cons x xs)
  show ?case
  proof (cases "p x")
    case False
    with Cons.prems obtain k where k: "position p xs = Some k" and i: "i = Suc k"
      by auto
    from Cons.IH [OF k] i False show ?thesis
      by (auto simp: nth_Cons split: nat.splits)
  qed (use Cons.prems in auto)
qed simp

lemma length_remove_nth [simp]: "i < length xs \<Longrightarrow> length (remove_nth i xs) = length xs - 1"
  by (simp add: remove_nth_def)

lemma set_remove_nth_subset: "set (remove_nth i xs) \<subseteq> set xs"
  by (auto simp: remove_nth_def dest: in_set_takeD in_set_dropD)

lemma remove_nth_distinct:
  assumes "distinct xs" and "i < length xs"
  shows "distinct (remove_nth i xs) \<and> set (remove_nth i xs) = set xs - {xs ! i}"
proof -
  have xs: "xs = take i xs @ xs ! i # drop (Suc i) xs"
    using assms(2) by (rule id_take_nth_drop)
  have d: "distinct (take i xs @ xs ! i # drop (Suc i) xs)"
    using assms(1) xs by simp
  have "set xs = set (take i xs @ xs ! i # drop (Suc i) xs)" using xs by simp
  with d show ?thesis by (auto simp: remove_nth_def)
qed

subsection \<open>Little-endian integers\<close>

definition byte_of :: "nat \<Rightarrow> u8" where
  "byte_of n = of_nat n"

fun le_bytes :: "nat \<Rightarrow> nat \<Rightarrow> bytes" where
  "le_bytes 0 n = []"
| "le_bytes (Suc k) n = byte_of (n mod 256) # le_bytes k (n div 256)"

fun from_le :: "bytes \<Rightarrow> nat" where
  "from_le [] = 0"
| "from_le (b # bs) = unat b + 256 * from_le bs"

lemma length_le_bytes [simp]: "length (le_bytes k n) = k"
  by (induction k arbitrary: n) auto

lemma unat_byte_lt [simp]: "unat (b :: u8) < 256"
  using unsigned_less [of b, where ?'a = nat] by simp

lemma unat_byte_of [simp]: "n < 256 \<Longrightarrow> unat (byte_of n) = n"
  by (simp add: byte_of_def unat_of_nat take_bit_eq_mod)

lemma byte_of_unat [simp]: "byte_of (unat b) = b"
  by (simp add: byte_of_def)

lemma from_le_bytes: "from_le (le_bytes k n) = n mod 256 ^ k"
proof (induction k arbitrary: n)
  case (Suc k)
  have "n mod 256 ^ Suc k = n mod 256 + 256 * (n div 256 mod 256 ^ k)"
    by (simp add: mod_mult2_eq)
  with Suc show ?case by simp
qed simp

lemma le_bytes_numeral:
  "le_bytes (numeral k) n = byte_of (n mod 256) # le_bytes (pred_numeral k) (n div 256)"
  by (subst numeral_eq_Suc) (rule le_bytes.simps)

lemma from_le_lt: "from_le bs < 256 ^ length bs"
proof (induction bs)
  case (Cons b bs)
  have "unat b + 256 * from_le bs < 256 + 256 * from_le bs" by simp
  also have "\<dots> = 256 * Suc (from_le bs)" by simp
  also have "\<dots> \<le> 256 * 256 ^ length bs"
    using Cons by (intro mult_le_mono2) simp
  finally show ?case by simp
qed simp

lemma le_bytes_from_le: "le_bytes (length bs) (from_le bs) = bs"
proof (induction bs)
  case (Cons b bs)
  have "(unat b + 256 * from_le bs) mod 256 = unat b" by simp
  with Cons show ?case by simp
qed simp

lemma le_bytes_from_le_eq: "length bs = k \<Longrightarrow> le_bytes k (from_le bs) = bs"
  using le_bytes_from_le by blast

end
