(* ===== verification/Utf.thy ===== *)
theory Utf
  imports Prelude
begin

text \<open>
  The text encodings of the Rust standard library that the program relies on:
  \<open>str::as_bytes\<close>/\<open>str::len\<close> (UTF-8), \<open>std::str::from_utf8\<close>,
  \<open>str::encode_utf16\<close>, \<open>char::decode_utf16\<close> and \<open>String::from_utf16\<close>, with the
  round trips that the frame codec, the recovery-file codec and the UTF-16 range checks need.
\<close>

subsection \<open>UTF-8\<close>

definition utf8_char :: "scalar \<Rightarrow> bytes" where
  "utf8_char c =
     (if c < 0x80 then [byte_of c]
      else if c < 0x800 then [byte_of (0xC0 + c div 64), byte_of (0x80 + c mod 64)]
      else if c < 0x10000 then
        [byte_of (0xE0 + c div 4096), byte_of (0x80 + c div 64 mod 64), byte_of (0x80 + c mod 64)]
      else
        [byte_of (0xF0 + c div 262144), byte_of (0x80 + c div 4096 mod 64),
         byte_of (0x80 + c div 64 mod 64), byte_of (0x80 + c mod 64)])"

definition utf8 :: "ustr \<Rightarrow> bytes" where
  "utf8 s = concat (map utf8_char s)"

text \<open>\<open>str::len\<close>.\<close>

definition ulen :: "ustr \<Rightarrow> nat" where
  "ulen s = length (utf8 s)"

definition is_cont :: "u8 \<Rightarrow> bool" where
  "is_cont b \<longleftrightarrow> 0x80 \<le> unat b \<and> unat b < 0xC0"

definition cont_bits :: "u8 \<Rightarrow> nat" where
  "cont_bits b = unat b - 0x80"

text \<open>One scalar from the front, or \<open>None\<close> for an ill-formed, overlong or surrogate sequence.\<close>

fun utf8_next :: "bytes \<Rightarrow> (scalar \<times> bytes) option" where
  "utf8_next [] = None"
| "utf8_next (b0 # r0) =
     (if unat b0 < 0x80 then Some (unat b0, r0)
      else if 0xC2 \<le> unat b0 \<and> unat b0 < 0xE0 then
        (case r0 of
           b1 # r1 \<Rightarrow>
             if is_cont b1 then Some ((unat b0 - 0xC0) * 64 + cont_bits b1, r1) else None
         | _ \<Rightarrow> None)
      else if 0xE0 \<le> unat b0 \<and> unat b0 < 0xF0 then
        (case r0 of
           b1 # b2 # r2 \<Rightarrow>
             let c = (unat b0 - 0xE0) * 4096 + cont_bits b1 * 64 + cont_bits b2
             in if is_cont b1 \<and> is_cont b2 \<and> 0x800 \<le> c \<and> is_scalar c then Some (c, r2) else None
         | _ \<Rightarrow> None)
      else if 0xF0 \<le> unat b0 \<and> unat b0 < 0xF5 then
        (case r0 of
           b1 # b2 # b3 # r3 \<Rightarrow>
             let c = (unat b0 - 0xF0) * 262144 + cont_bits b1 * 4096 + cont_bits b2 * 64 + cont_bits b3
             in if is_cont b1 \<and> is_cont b2 \<and> is_cont b3 \<and> 0x10000 \<le> c \<and> is_scalar c
                then Some (c, r3) else None
         | _ \<Rightarrow> None)
      else None)"

lemma utf8_next_shorter: "utf8_next bs = Some (c, r) \<Longrightarrow> length r < length bs"
  by (cases bs) (auto simp: Let_def split: if_splits list.splits)

function from_utf8 :: "bytes \<Rightarrow> ustr option" where
  "from_utf8 bs =
     (if bs = [] then Some []
      else (case utf8_next bs of
              None \<Rightarrow> None
            | Some (c, r) \<Rightarrow> map_option ((#) c) (from_utf8 r)))"
  by pat_completeness auto
termination
  by (relation "measure length") (auto simp: utf8_next_shorter)

declare from_utf8.simps [simp del]

lemma from_utf8_Nil [simp]: "from_utf8 [] = Some []"
  by (simp add: from_utf8.simps)

lemma from_utf8_step:
  "utf8_next bs = Some (c, r) \<Longrightarrow> from_utf8 bs = map_option ((#) c) (from_utf8 r)"
  by (subst from_utf8.simps) auto

lemma utf8_simps [simp]:
  "utf8 [] = []"
  "utf8 (c # s) = utf8_char c @ utf8 s"
  "utf8 (s @ t) = utf8 s @ utf8 t"
  by (simp_all add: utf8_def)

lemma ulen_simps [simp]:
  "ulen [] = 0"
  "ulen (c # s) = length (utf8_char c) + ulen s"
  "ulen (s @ t) = ulen s + ulen t"
  by (simp_all add: ulen_def)

lemma utf8_char_not_Nil [simp]: "utf8_char c \<noteq> []"
  by (simp add: utf8_char_def)

lemma utf8_eq_Nil [simp]: "utf8 s = [] \<longleftrightarrow> s = []"
  by (cases s) auto

lemma ulen_eq_0 [simp]: "ulen s = 0 \<longleftrightarrow> s = []"
  by (simp add: ulen_def)

lemma utf8_ascii: "is_ascii c \<Longrightarrow> utf8_char c = [byte_of c]"
  by (simp add: utf8_char_def is_ascii_def)

lemma ulen_ascii: "is_ascii_str s \<Longrightarrow> ulen s = length s"
  by (induction s) (auto simp: utf8_ascii)

lemma length_le_ulen: "length s \<le> ulen s"
proof (induction s)
  case (Cons c s)
  have "1 \<le> length (utf8_char c)" by (simp add: utf8_char_def)
  with Cons show ?case by simp
qed simp

text \<open>Encoding then decoding one scalar.\<close>

lemma base64_sum3: "c div 4096 * 4096 + c div 64 mod 64 * 64 + c mod 64 = (c::nat)"
proof -
  have "c div 4096 = c div 64 div 64" by (simp flip: div_mult2_eq)
  then show ?thesis
    using div_mult_mod_eq [of c 64] div_mult_mod_eq [of "c div 64" 64] by linarith
qed

lemma base64_sum4:
  "c div 262144 * 262144 + c div 4096 mod 64 * 4096 + c div 64 mod 64 * 64 + c mod 64 = (c::nat)"
proof -
  have "c div 262144 = c div 4096 div 64" by (simp flip: div_mult2_eq)
  then show ?thesis
    using base64_sum3 [of c] div_mult_mod_eq [of "c div 4096" 64] by linarith
qed

lemma utf8_next_char:
  assumes "is_scalar c"
  shows "utf8_next (utf8_char c @ r) = Some (c, r)"
proof -
  consider "c < 0x80" | "0x80 \<le> c" "c < 0x800" | "0x800 \<le> c" "c < 0x10000"
    | "0x10000 \<le> c" "c < 0x110000"
    using assms unfolding is_scalar_def by linarith
  then show ?thesis
  proof cases
    case 1
    then show ?thesis by (simp add: utf8_char_def)
  next
    case 2
    then have "c div 64 < 32" "2 \<le> c div 64" by linarith+
    with 2 show ?thesis
      by (simp add: utf8_char_def is_cont_def cont_bits_def)
  next
    case 3
    then have "c div 4096 < 16" by linarith
    moreover have "c div 4096 * 4096 + c div 64 mod 64 * 64 + c mod 64 = c" by (rule base64_sum3)
    ultimately show ?thesis using 3 assms
      by (simp add: utf8_char_def is_cont_def cont_bits_def Let_def)
  next
    case 4
    then have "c div 262144 < 5" by linarith
    moreover have "c div 262144 * 262144 + c div 4096 mod 64 * 4096 + c div 64 mod 64 * 64 + c mod 64 = c"
      by (rule base64_sum4)
    ultimately show ?thesis using 4 assms
      by (simp add: utf8_char_def is_cont_def cont_bits_def Let_def)
  qed
qed

theorem from_utf8_utf8: "valid_str s \<Longrightarrow> from_utf8 (utf8 s) = Some s"
  by (induction s) (auto simp: utf8_next_char from_utf8_step)

text \<open>Decoding then encoding one scalar: an accepted sequence is the canonical one.\<close>

lemma base64_digits2:
  assumes "c = a * 64 + x" and "x < (64::nat)"
  shows "c div 64 = a" and "c mod 64 = x"
  using assms by simp_all

lemma base64_digits3:
  assumes "c = a * 4096 + x * 64 + y" and "x < (64::nat)" and "y < 64"
  shows "c div 4096 = a" and "c div 64 mod 64 = x" and "c mod 64 = y"
proof -
  have c: "c = (a * 64 + x) * 64 + y" using assms(1) by simp
  note d = base64_digits2 [OF c assms(3)]
  show "c div 64 mod 64 = x" and "c mod 64 = y" using d assms(2) by simp_all
  have "c div 4096 = c div 64 div 64" by (simp flip: div_mult2_eq)
  then show "c div 4096 = a" using d assms(2) by simp
qed

lemma base64_digits4:
  assumes "c = a * 262144 + w * 4096 + x * 64 + y" and "w < (64::nat)" and "x < 64" and "y < 64"
  shows "c div 262144 = a" and "c div 4096 mod 64 = w" and "c div 64 mod 64 = x" and "c mod 64 = y"
proof -
  have c: "c = (a * 64 + w) * 4096 + x * 64 + y" using assms(1) by simp
  note d = base64_digits3 [OF c assms(3,4)]
  show "c div 4096 mod 64 = w" and "c div 64 mod 64 = x" and "c mod 64 = y"
    using d assms(2) by simp_all
  have "c div 262144 = c div 4096 div 64" by (simp flip: div_mult2_eq)
  then show "c div 262144 = a" using d assms(2) by simp
qed

lemma utf8_next_two:
  assumes "utf8_next (b0 # r0) = Some (c, r)" and "0xC2 \<le> unat b0" and "unat b0 < 0xE0"
  shows "is_scalar c \<and> b0 # r0 = utf8_char c @ r"
proof -
  obtain b1 where r0: "r0 = b1 # r" and b1: "is_cont b1"
    and c: "c = (unat b0 - 0xC0) * 64 + cont_bits b1"
    using assms by (auto split: list.splits if_splits)
  have "cont_bits b1 < 64" and "0x80 + cont_bits b1 = unat b1"
    using b1 by (auto simp: cont_bits_def is_cont_def)
  moreover from this have "0xC0 + c div 64 = unat b0" "0x80 + c mod 64 = unat b1"
    using assms(2,3) base64_digits2 [OF c] by simp_all
  moreover have "0x80 \<le> c" "c < 0x800" using c assms(2,3) calculation by auto
  ultimately show ?thesis
    using r0 by (simp add: utf8_char_def is_scalar_def)
qed

lemma utf8_next_three:
  assumes "utf8_next (b0 # r0) = Some (c, r)" and "0xE0 \<le> unat b0" and "unat b0 < 0xF0"
  shows "is_scalar c \<and> b0 # r0 = utf8_char c @ r"
proof -
  obtain b1 b2 where r0: "r0 = b1 # b2 # r" and b: "is_cont b1" "is_cont b2"
    and c: "c = (unat b0 - 0xE0) * 4096 + cont_bits b1 * 64 + cont_bits b2"
    and lo: "0x800 \<le> c" and sc: "is_scalar c"
    using assms by (auto simp: Let_def split: list.splits if_splits)
  have k: "cont_bits b1 < 64" "cont_bits b2 < 64"
    "0x80 + cont_bits b1 = unat b1" "0x80 + cont_bits b2 = unat b2"
    using b by (auto simp: cont_bits_def is_cont_def)
  have "c < 0x10000" using c k assms(2,3) by linarith
  then have "0xE0 + c div 4096 = unat b0" "0x80 + c div 64 mod 64 = unat b1"
    "0x80 + c mod 64 = unat b2" "c < 0x10000"
    using assms(2,3) k base64_digits3 [OF c k(1,2)] by simp_all
  then show ?thesis
    using r0 lo sc by (simp add: utf8_char_def)
qed

lemma utf8_next_four:
  assumes "utf8_next (b0 # r0) = Some (c, r)" and "0xF0 \<le> unat b0" and "unat b0 < 0xF5"
  shows "is_scalar c \<and> b0 # r0 = utf8_char c @ r"
proof -
  obtain b1 b2 b3 where r0: "r0 = b1 # b2 # b3 # r"
    and b: "is_cont b1" "is_cont b2" "is_cont b3"
    and c: "c = (unat b0 - 0xF0) * 262144 + cont_bits b1 * 4096 + cont_bits b2 * 64 + cont_bits b3"
    and lo: "0x10000 \<le> c" and sc: "is_scalar c"
    using assms by (auto simp: Let_def split: list.splits if_splits)
  have k: "cont_bits b1 < 64" "cont_bits b2 < 64" "cont_bits b3 < 64"
    "0x80 + cont_bits b1 = unat b1" "0x80 + cont_bits b2 = unat b2" "0x80 + cont_bits b3 = unat b3"
    using b by (auto simp: cont_bits_def is_cont_def)
  have "0xF0 + c div 262144 = unat b0" "0x80 + c div 4096 mod 64 = unat b1"
    "0x80 + c div 64 mod 64 = unat b2" "0x80 + c mod 64 = unat b3"
    using assms(2,3) k base64_digits4 [OF c k(1-3)] by simp_all
  then show ?thesis
    using r0 lo sc by (simp add: utf8_char_def)
qed

lemma utf8_next_sound:
  assumes "utf8_next bs = Some (c, r)"
  shows "is_scalar c \<and> bs = utf8_char c @ r"
proof -
  obtain b0 r0 where bs: "bs = b0 # r0" using assms by (cases bs) auto
  consider "unat b0 < 0x80" | "0xC2 \<le> unat b0" "unat b0 < 0xE0"
    | "0xE0 \<le> unat b0" "unat b0 < 0xF0" | "0xF0 \<le> unat b0" "unat b0 < 0xF5"
    using assms bs by (auto split: if_splits)
  then show ?thesis
  proof cases
    case 1
    with assms bs show ?thesis by (auto simp: utf8_char_def is_scalar_def)
  qed (use assms utf8_next_two utf8_next_three utf8_next_four in \<open>simp_all only: bs\<close>)
qed

theorem from_utf8_sound: "from_utf8 bs = Some s \<Longrightarrow> valid_str s \<and> utf8 s = bs"
proof (induction bs arbitrary: s rule: from_utf8.induct)
  case (1 bs)
  show ?case
  proof (cases "bs = []")
    case False
    with "1.prems" obtain c r t where n: "utf8_next bs = Some (c, r)"
      and t: "from_utf8 r = Some t" and s: "s = c # t"
      by (auto simp: from_utf8.simps [of bs] split: option.splits)
    from "1.IH" [OF False n refl t] s utf8_next_sound [OF n] show ?thesis by simp
  qed (use "1.prems" in simp)
qed

lemma utf8_inject: "valid_str s \<Longrightarrow> valid_str t \<Longrightarrow> utf8 s = utf8 t \<longleftrightarrow> s = t"
  by (metis from_utf8_utf8 option.inject)

subsection \<open>UTF-16\<close>

definition unit_of :: "nat \<Rightarrow> u16" where
  "unit_of n = of_nat n"

definition utf16_char :: "scalar \<Rightarrow> u16 list" where
  "utf16_char c =
     (if c < 0x10000 then [unit_of c]
      else [unit_of (0xD800 + (c - 0x10000) div 1024), unit_of (0xDC00 + (c - 0x10000) mod 1024)])"

definition utf16 :: "ustr \<Rightarrow> u16 list" where
  "utf16 s = concat (map utf16_char s)"

definition is_high :: "u16 \<Rightarrow> bool" where
  "is_high u \<longleftrightarrow> 0xD800 \<le> unat u \<and> unat u \<le> 0xDBFF"

definition is_low :: "u16 \<Rightarrow> bool" where
  "is_low u \<longleftrightarrow> 0xDC00 \<le> unat u \<and> unat u \<le> 0xDFFF"

text \<open>\<open>char::decode_utf16\<close>: every item is a scalar or the unpaired surrogate that was met.\<close>

fun decode_utf16 :: "u16 list \<Rightarrow> (u16 + scalar) list" where
  "decode_utf16 [] = []"
| "decode_utf16 [u] = (if is_high u \<or> is_low u then [Inl u] else [Inr (unat u)])"
| "decode_utf16 (u # v # us) =
     (if is_high u then
        (if is_low v
         then Inr (0x10000 + (unat u - 0xD800) * 1024 + (unat v - 0xDC00)) # decode_utf16 us
         else Inl u # decode_utf16 (v # us))
      else if is_low u then Inl u # decode_utf16 (v # us)
      else Inr (unat u) # decode_utf16 (v # us))"

text \<open>\<open>String::from_utf16\<close> fails on an unpaired surrogate, the lossy form replaces it.\<close>

definition from_utf16 :: "u16 list \<Rightarrow> ustr option" where
  "from_utf16 us =
     (if list_all (\<lambda>x. \<not> isl x) (decode_utf16 us) then Some (map projr (decode_utf16 us)) else None)"

definition from_utf16_lossy :: "u16 list \<Rightarrow> ustr" where
  "from_utf16_lossy us = map (case_sum (\<lambda>_. 0xFFFD) id) (decode_utf16 us)"

lemma utf16_simps [simp]:
  "utf16 [] = []"
  "utf16 (c # s) = utf16_char c @ utf16 s"
  "utf16 (s @ t) = utf16 s @ utf16 t"
  by (simp_all add: utf16_def)

lemma unat_unit_of [simp]: "n < 65536 \<Longrightarrow> unat (unit_of n) = n"
  by (simp add: unit_of_def unat_of_nat take_bit_eq_mod)

lemma decode_utf16_bmp:
  "\<not> is_high u \<Longrightarrow> \<not> is_low u \<Longrightarrow> decode_utf16 (u # us) = Inr (unat u) # decode_utf16 us"
  by (cases us) auto

lemma decode_utf16_char:
  assumes "is_scalar c"
  shows "decode_utf16 (utf16_char c @ us) = Inr c # decode_utf16 us"
proof (cases "c < 0x10000")
  case True
  with assms show ?thesis
    by (auto simp: utf16_char_def is_scalar_def is_high_def is_low_def intro!: decode_utf16_bmp [THEN trans])
next
  case False
  with assms have c: "c < 0x110000" by (auto simp: is_scalar_def)
  then have "(c - 0x10000) div 1024 < 1024" by linarith
  with False c show ?thesis
    by (simp add: utf16_char_def is_high_def is_low_def)
qed

theorem decode_utf16_utf16: "valid_str s \<Longrightarrow> decode_utf16 (utf16 s) = map Inr s"
  by (induction s) (auto simp: decode_utf16_char)

lemma from_utf16_utf16: "valid_str s \<Longrightarrow> from_utf16 (utf16 s) = Some s"
  by (simp add: from_utf16_def decode_utf16_utf16 list_all_iff comp_def)

lemma from_utf16_lossy_utf16: "valid_str s \<Longrightarrow> from_utf16_lossy (utf16 s) = s"
  by (simp add: from_utf16_lossy_def decode_utf16_utf16 comp_def)

lemma utf16_inject: "valid_str s \<Longrightarrow> valid_str t \<Longrightarrow> utf16 s = utf16 t \<longleftrightarrow> s = t"
  by (metis from_utf16_utf16 option.inject)

end
