(* ===== verification/Types.thy ===== *)
theory Types
  imports Utf
begin

text \<open>
  The shared domain types of crate zonkey-types (\<open>lib.rs\<close>): token boundaries, contexts,
  recovery decisions, abstract edit plans and the events and actions of the Telex engine.

  Constructors carry a short prefix for their type, since several enums of the source share
  constructor names (\<open>Unknown\<close>, \<open>Space\<close>, \<dots>).  A finite \<open>f32\<close> is an integer multiple of
  $2^{-149}$, the smallest subnormal, so that the constants below are the exact values that
  the literals 0.98 and 0.99 round to; only comparisons are ever made on it.
\<close>

datatype token_boundary =
    TB_Space
  | TB_Enter
  | TB_Tab
  | TB_Punctuation scalar
  | TB_CursorMove
  | TB_FocusLoss
  | TB_Unknown

definition boundary_from_char :: "scalar \<Rightarrow> token_boundary option" where
  "boundary_from_char c =
     (if c = chr CHR '' '' then Some TB_Space
      else if c = 10 \<or> c = 13 then Some TB_Enter
      else if c = 9 then Some TB_Tab
      else if is_ascii_punctuation c then Some (TB_Punctuation c)
      else None)"

datatype input_context =
    IC_Writing
  | IC_TechnicalEditor
  | IC_Terminal
  | IC_Secure
  | IC_Remote
  | IC_Unknown

datatype decision_reason =
    DR_ExactEnglishDictionary
  | DR_ExactTechnicalDictionary
  | DR_ExactProductDictionary
  | DR_UserAllowList
  | DR_NeverTransformPattern
  | DR_VietnameseCandidate
  | DR_ContextBlocked
  | DR_InsufficientConfidence
  | DR_UnsupportedInput

datatype f32 =
    F32_NaN
  | F32_Infinite bool
  | F32_Finite int

definition f32_is_finite :: "f32 \<Rightarrow> bool" where
  "f32_is_finite x = (case x of F32_Finite _ \<Rightarrow> True | _ \<Rightarrow> False)"

definition f32_one :: int where
  "f32_one = 2 ^ 149"

definition f32_in_unit_range :: "f32 \<Rightarrow> bool" where
  "f32_in_unit_range x = (case x of F32_Finite n \<Rightarrow> 0 \<le> n \<and> n \<le> f32_one | _ \<Rightarrow> False)"

datatype confidence = Confidence (confidence_get: f32)

datatype confidence_error = ConfidenceError

definition CONFIDENCE_ZERO :: confidence where
  "CONFIDENCE_ZERO = Confidence (F32_Finite 0)"

definition CONFIDENCE_ENGLISH_EXACT :: confidence where
  "CONFIDENCE_ENGLISH_EXACT = Confidence (F32_Finite (16441672 * 2 ^ 125))"

definition CONFIDENCE_TECHNICAL_EXACT :: confidence where
  "CONFIDENCE_TECHNICAL_EXACT = Confidence (F32_Finite (16609444 * 2 ^ 125))"

definition CONFIDENCE_CERTAIN :: confidence where
  "CONFIDENCE_CERTAIN = Confidence (F32_Finite f32_one)"

definition confidence_new :: "f32 \<Rightarrow> confidence_error + confidence" where
  "confidence_new v =
     (if f32_is_finite v \<and> f32_in_unit_range v then Inr (Confidence v) else Inl ConfidenceError)"

text \<open>The derived \<open>PartialOrd\<close>: comparisons with NaN are false.\<close>

fun f32_le :: "f32 \<Rightarrow> f32 \<Rightarrow> bool" where
  "f32_le (F32_Finite a) (F32_Finite b) = (a \<le> b)"
| "f32_le (F32_Finite a) (F32_Infinite neg) = (\<not> neg)"
| "f32_le (F32_Infinite neg) (F32_Finite b) = neg"
| "f32_le (F32_Infinite n1) (F32_Infinite n2) = (n1 \<or> \<not> n2)"
| "f32_le _ _ = False"

definition confidence_ge :: "confidence \<Rightarrow> confidence \<Rightarrow> bool" where
  "confidence_ge a b = f32_le (confidence_get b) (confidence_get a)"

datatype recovery_decision =
    RD_KeepVietnamese decision_reason
  | RD_RestoreEnglish ustr confidence decision_reason
  | RD_Ambiguous confidence decision_reason

record edit_plan =
  delete_graphemes :: nat
  insert_text :: ustr

definition edit_plan_default :: edit_plan where
  "edit_plan_default = \<lparr>delete_graphemes = 0, insert_text = []\<rparr>"

datatype engine_action =
    EA_Noop
  | EA_Apply edit_plan
  | EA_Commit token_boundary
  | EA_Reset

datatype engine_event =
    EE_Character scalar
  | EE_Backspace
  | EE_Boundary token_boundary

datatype unsupported_behavior = NonAsciiInput scalar

lemmas confidence_defs = CONFIDENCE_ZERO_def CONFIDENCE_ENGLISH_EXACT_def
  CONFIDENCE_TECHNICAL_EXACT_def CONFIDENCE_CERTAIN_def confidence_ge_def f32_one_def

lemma confidence_new_valid:
  "confidence_new v = Inr c \<Longrightarrow>
     confidence_ge c CONFIDENCE_ZERO \<and> confidence_ge CONFIDENCE_CERTAIN c"
  by (cases v)
    (auto simp: confidence_new_def f32_is_finite_def f32_in_unit_range_def confidence_defs
      split: if_splits)

lemma boundary_from_char_ascii: "boundary_from_char c = Some b \<Longrightarrow> is_ascii c"
  by (auto simp: boundary_from_char_def is_ascii_def is_ascii_punctuation_def split: if_splits)

lemma boundary_from_char_commits:
  "boundary_from_char c = Some b \<Longrightarrow>
     b = TB_Space \<or> b = TB_Enter \<or> b = TB_Tab \<or> (\<exists>p. b = TB_Punctuation p)"
  by (auto simp: boundary_from_char_def split: if_splits)

lemma alphanumeric_no_boundary: "is_ascii_alphanumeric c \<Longrightarrow> boundary_from_char c = None"
  by (auto simp: boundary_from_char_def char_class_defs)

end
