(* ===== verification/Observe.thy ===== *)
theory Observe
  imports Types
begin

text \<open>
  The observed-input value types of crate zonkey-types (\<open>observe.rs\<close>): validated keys,
  modifier states, event sequences and foreground snapshots.  \<open>wf_key\<close> and \<open>wf_event\<close> are
  what the private fields and validating constructors of the source guarantee.
\<close>

definition MAX_CONTEXT_LABEL_BYTES :: nat where
  "MAX_CONTEXT_LABEL_BYTES = 64"

datatype key_event_kind =
    KE_KeyDown
  | KE_KeyUp
  | KE_SystemKeyDown
  | KE_SystemKeyUp

datatype modifier_key =
    MK_Shift
  | MK_Control
  | MK_Alt
  | MK_Meta

datatype observed_key_error =
    OKE_InvalidLetter
  | OKE_InvalidDigit
  | OKE_InvalidPunctuation

datatype observed_key =
    OK_Letter scalar
  | OK_Digit u8
  | OK_Space
  | OK_Enter
  | OK_Tab
  | OK_Backspace
  | OK_Escape
  | OK_Punctuation scalar
  | OK_Modifier modifier_key
  | OK_Other

definition key_letter :: "scalar \<Rightarrow> observed_key_error + observed_key" where
  "key_letter v = (if is_ascii_alphabetic v then Inr (OK_Letter v) else Inl OKE_InvalidLetter)"

definition key_digit :: "u8 \<Rightarrow> observed_key_error + observed_key" where
  "key_digit v = (if v \<le> 9 then Inr (OK_Digit v) else Inl OKE_InvalidDigit)"

definition key_punctuation :: "scalar \<Rightarrow> observed_key_error + observed_key" where
  "key_punctuation v =
     (if is_ascii_punctuation v then Inr (OK_Punctuation v) else Inl OKE_InvalidPunctuation)"

definition letter_value :: "observed_key \<Rightarrow> scalar option" where
  "letter_value k = (case k of OK_Letter v \<Rightarrow> Some v | _ \<Rightarrow> None)"

definition digit_value :: "observed_key \<Rightarrow> u8 option" where
  "digit_value k = (case k of OK_Digit v \<Rightarrow> Some v | _ \<Rightarrow> None)"

definition punctuation_value :: "observed_key \<Rightarrow> scalar option" where
  "punctuation_value k = (case k of OK_Punctuation v \<Rightarrow> Some v | _ \<Rightarrow> None)"

definition modifier_value :: "observed_key \<Rightarrow> modifier_key option" where
  "modifier_value k = (case k of OK_Modifier v \<Rightarrow> Some v | _ \<Rightarrow> None)"

definition is_space :: "observed_key \<Rightarrow> bool" where
  "is_space k = (k = OK_Space)"

definition is_enter :: "observed_key \<Rightarrow> bool" where
  "is_enter k = (k = OK_Enter)"

definition is_tab :: "observed_key \<Rightarrow> bool" where
  "is_tab k = (k = OK_Tab)"

definition is_backspace :: "observed_key \<Rightarrow> bool" where
  "is_backspace k = (k = OK_Backspace)"

definition is_escape :: "observed_key \<Rightarrow> bool" where
  "is_escape k = (k = OK_Escape)"

lemmas key_query_defs = letter_value_def digit_value_def punctuation_value_def modifier_value_def
  is_space_def is_enter_def is_tab_def is_backspace_def is_escape_def

record modifier_state =
  ms_shift :: bool
  ms_control :: bool
  ms_alt :: bool
  ms_meta :: bool

definition modifier_state_new :: modifier_state where
  "modifier_state_new = \<lparr>ms_shift = False, ms_control = False, ms_alt = False, ms_meta = False\<rparr>"

definition with_shift :: "modifier_state \<Rightarrow> bool \<Rightarrow> modifier_state" where
  "with_shift m active = m\<lparr>ms_shift := active\<rparr>"

definition with_control :: "modifier_state \<Rightarrow> bool \<Rightarrow> modifier_state" where
  "with_control m active = m\<lparr>ms_control := active\<rparr>"

definition with_alt :: "modifier_state \<Rightarrow> bool \<Rightarrow> modifier_state" where
  "with_alt m active = m\<lparr>ms_alt := active\<rparr>"

definition with_meta :: "modifier_state \<Rightarrow> bool \<Rightarrow> modifier_state" where
  "with_meta m active = m\<lparr>ms_meta := active\<rparr>"

datatype injection_origin =
    IO_Unknown
  | IO_PhysicalOrUnmarked
  | IO_MarkedInjected
  | IO_LowerIntegrityInjected

datatype event_sequence = EventSequence (sequence_get: u64)

datatype event_sequence_error = EventSequenceError

definition event_sequence_new :: "u64 \<Rightarrow> event_sequence_error + event_sequence" where
  "event_sequence_new v = (if v = 0 then Inl EventSequenceError else Inr (EventSequence v))"

text \<open>The derived \<open>Ord\<close> of event sequences.\<close>

instantiation event_sequence :: linorder
begin

definition less_eq_event_sequence :: "event_sequence \<Rightarrow> event_sequence \<Rightarrow> bool" where
  "less_eq_event_sequence a b \<longleftrightarrow> sequence_get a \<le> sequence_get b"

definition less_event_sequence :: "event_sequence \<Rightarrow> event_sequence \<Rightarrow> bool" where
  "less_event_sequence a b \<longleftrightarrow> sequence_get a < sequence_get b"

instance
  by standard
    (auto simp: less_eq_event_sequence_def less_event_sequence_def intro: event_sequence.expand)

end

record observed_input_event =
  oe_key :: observed_key
  oe_kind :: key_event_kind
  oe_modifiers :: modifier_state
  oe_injection_origin :: injection_origin
  oe_sequence :: event_sequence

datatype integrity_relation =
    IR_SameOrUnknown
  | IR_Lower
  | IR_Higher
  | IR_Unavailable

datatype context_snapshot_error = CSE_InvalidLabel

record foreground_context_snapshot =
  fc_input_context :: input_context
  fc_executable_basename :: "ustr option"
  fc_window_class :: "ustr option"
  fc_integrity_relation :: integrity_relation
  fc_secure_desktop :: bool

definition foreground_unknown :: foreground_context_snapshot where
  "foreground_unknown =
     \<lparr>fc_input_context = IC_Unknown, fc_executable_basename = None, fc_window_class = None,
      fc_integrity_relation = IR_SameOrUnknown, fc_secure_desktop = False\<rparr>"

definition sanitize_label :: "ustr option \<Rightarrow> context_snapshot_error + ustr option" where
  "sanitize_label value =
     (case value of
        None \<Rightarrow> Inr None
      | Some v \<Rightarrow>
          if v = [] \<or> ulen v > MAX_CONTEXT_LABEL_BYTES \<or>
             \<not> list_all (\<lambda>c. is_ascii_alphanumeric c \<or> c \<in> {chr CHR ''.'', chr CHR ''_'', chr CHR ''-''}) v
          then Inl CSE_InvalidLabel
          else Inr (Some v))"

definition foreground_new ::
  "input_context \<Rightarrow> ustr option \<Rightarrow> ustr option \<Rightarrow> integrity_relation \<Rightarrow> bool
    \<Rightarrow> context_snapshot_error + foreground_context_snapshot" where
  "foreground_new ctx basename class integrity secure =
     (case sanitize_label basename of
        Inl e \<Rightarrow> Inl e
      | Inr b \<Rightarrow>
         (case sanitize_label class of
            Inl e \<Rightarrow> Inl e
          | Inr w \<Rightarrow>
              Inr \<lparr>fc_input_context = ctx, fc_executable_basename = b, fc_window_class = w,
                   fc_integrity_relation = integrity, fc_secure_desktop = secure\<rparr>))"

definition diagnostics_eligible :: "foreground_context_snapshot \<Rightarrow> bool" where
  "diagnostics_eligible f \<longleftrightarrow> \<not> fc_secure_desktop f \<and> fc_input_context f \<noteq> IC_Secure"

datatype observer_status =
    OS_Starting
  | OS_Running
  | OS_Stopping
  | OS_Stopped
  | OS_Failed

datatype observer_error =
    OE_NotSupported
  | OE_StartupFailed
  | OE_EventSourceClosed
  | OE_QueueOverflow
  | OE_InvalidEvent
  | OE_ShutdownFailed
  | OE_Internal

subsection \<open>What the constructors guarantee\<close>

fun wf_key :: "observed_key \<Rightarrow> bool" where
  "wf_key (OK_Letter c) = is_ascii_alphabetic c"
| "wf_key (OK_Digit d) = (d \<le> 9)"
| "wf_key (OK_Punctuation c) = is_ascii_punctuation c"
| "wf_key _ = True"

definition wf_event :: "observed_input_event \<Rightarrow> bool" where
  "wf_event e \<longleftrightarrow> wf_key (oe_key e) \<and> sequence_get (oe_sequence e) \<noteq> 0"

definition wf_label :: "ustr option \<Rightarrow> bool" where
  "wf_label l = (case l of None \<Rightarrow> True
     | Some v \<Rightarrow> v \<noteq> [] \<and> length v \<le> MAX_CONTEXT_LABEL_BYTES \<and> is_ascii_str v \<and>
         chr CHR ''/'' \<notin> set v \<and> 92 \<notin> set v \<and> chr CHR '' '' \<notin> set v)"

text \<open>One physical key press, for concrete inputs.\<close>

definition sample_event :: observed_input_event where
  "sample_event =
     \<lparr>oe_key = OK_Space, oe_kind = KE_KeyDown, oe_modifiers = modifier_state_new,
      oe_injection_origin = IO_PhysicalOrUnmarked, oe_sequence = EventSequence 1\<rparr>"

lemma key_constructors_wf:
  "key_letter v = Inr k \<Longrightarrow> wf_key k"
  "key_digit d = Inr k \<Longrightarrow> wf_key k"
  "key_punctuation v = Inr k \<Longrightarrow> wf_key k"
  by (auto simp: key_letter_def key_digit_def key_punctuation_def split: if_splits)

lemma event_sequence_new_nonzero: "event_sequence_new v = Inr s \<Longrightarrow> sequence_get s = v \<and> v \<noteq> 0"
  by (auto simp: event_sequence_new_def split: if_splits)

lemma sanitize_label_wf: "sanitize_label l = Inr r \<Longrightarrow> r = l \<and> wf_label r"
proof (cases l)
  case (Some v)
  assume a: "sanitize_label l = Inr r"
  let ?ok = "\<lambda>c. is_ascii_alphanumeric c \<or> c \<in> {chr CHR ''.'', chr CHR ''_'', chr CHR ''-''}"
  have ok: "v \<noteq> []" "ulen v \<le> MAX_CONTEXT_LABEL_BYTES" "list_all ?ok v" "r = Some v"
    using a Some by (auto simp: sanitize_label_def split: if_splits)
  have "is_ascii_str v"
    using ok(3) by (auto simp: is_ascii_str_def list_all_iff char_class_defs)
  moreover have "chr CHR ''/'' \<notin> set v" "92 \<notin> set v" "chr CHR '' '' \<notin> set v"
    using ok(3) by (auto simp: list_all_iff char_class_defs)
  ultimately show ?thesis using ok Some by (simp add: wf_label_def ulen_ascii)
qed (simp add: sanitize_label_def wf_label_def)

end
