(* ===== verification/Token.thy ===== *)
theory Token
  imports Types
begin

text \<open>
  Crate zonkey-token: the token state that keeps raw input and rendered output apart, and the
  grapheme-safe edit plans between two renderings.

  Grapheme segmentation is the third-party crate unicode-segmentation and the Unicode property
  Alphabetic is a table of the standard library; both are parameters of the model, the fields
  of a record \<open>unicode\<close>.  \<open>segmentation U\<close> states what the code relies on: the graphemes
  of a text are non-empty slices that concatenate to the text.
\<close>

record unicode =
  graphemes :: "ustr \<Rightarrow> ustr list"
  other_alphabetic :: "scalar \<Rightarrow> bool"

definition segmentation :: "unicode \<Rightarrow> bool" where
  "segmentation U \<longleftrightarrow> (\<forall>s. concat (graphemes U s) = s \<and> [] \<notin> set (graphemes U s))"

text \<open>A concrete instance for witnesses: every scalar is a grapheme of its own.\<close>

definition scalar_unicode :: unicode where
  "scalar_unicode = \<lparr>graphemes = map (\<lambda>c. [c]), other_alphabetic = (\<lambda>_. False)\<rparr>"

record token_state =
  raw_ascii :: ustr
  rendered :: ustr

definition token_new :: token_state where
  "token_new = \<lparr>raw_ascii = [], rendered = []\<rparr>"

definition token_is_empty :: "token_state \<Rightarrow> bool" where
  "token_is_empty t \<longleftrightarrow> raw_ascii t = [] \<and> rendered t = []"

definition grapheme_count :: "unicode \<Rightarrow> ustr \<Rightarrow> nat" where
  "grapheme_count U text = length (graphemes U text)"

text \<open>The text that is left, and the number of graphemes removed.\<close>

definition delete_last_graphemes :: "unicode \<Rightarrow> ustr \<Rightarrow> nat \<Rightarrow> ustr \<times> nat" where
  "delete_last_graphemes U text count =
     (let total = grapheme_count U text;
          keep = total - count;
          rebuilt = concat (take keep (graphemes U text))
      in (rebuilt, total - keep))"

definition edit_plan_between :: "unicode \<Rightarrow> ustr \<Rightarrow> ustr \<Rightarrow> edit_plan" where
  "edit_plan_between U before_text after_text =
     (let before_graphemes = graphemes U before_text;
          after_graphemes = graphemes U after_text;
          common = length (takeWhile (\<lambda>(l, r). l = r) (zip before_graphemes after_graphemes))
      in \<lparr>delete_graphemes = length before_graphemes - common,
          insert_text = concat (drop common after_graphemes)\<rparr>)"

definition apply_edit_plan :: "unicode \<Rightarrow> ustr \<Rightarrow> edit_plan \<Rightarrow> ustr" where
  "apply_edit_plan U text plan =
     fst (delete_last_graphemes U text (delete_graphemes plan)) @ insert_text plan"

definition push_raw :: "token_state \<Rightarrow> scalar \<Rightarrow> scalar + token_state" where
  "push_raw t c = (if \<not> is_ascii c then Inl c else Inr (t\<lparr>raw_ascii := raw_ascii t @ [c]\<rparr>))"

definition pop_raw :: "token_state \<Rightarrow> scalar option \<times> token_state" where
  "pop_raw t =
     (if raw_ascii t = [] then (None, t)
      else (Some (last (raw_ascii t)), t\<lparr>raw_ascii := butlast (raw_ascii t)\<rparr>))"

definition replace_rendered :: "unicode \<Rightarrow> token_state \<Rightarrow> ustr \<Rightarrow> edit_plan \<times> token_state" where
  "replace_rendered U t text =
     (let plan = edit_plan_between U (rendered t) text
      in (plan, t\<lparr>rendered := text\<rparr>))"

definition token_clear :: "token_state \<Rightarrow> token_state" where
  "token_clear t = t\<lparr>raw_ascii := [], rendered := []\<rparr>"

subsection \<open>Common prefixes\<close>

definition common_length :: "'a list \<Rightarrow> 'a list \<Rightarrow> nat" where
  "common_length xs ys = length (takeWhile (\<lambda>(l, r). l = r) (zip xs ys))"

lemma common_length_simps [simp]:
  "common_length [] ys = 0"
  "common_length xs [] = 0"
  "common_length (x # xs) (y # ys) = (if x = y then Suc (common_length xs ys) else 0)"
  by (simp_all add: common_length_def)

lemma common_length_take: "take (common_length xs ys) xs = take (common_length xs ys) ys"
  by (induction xs ys rule: list_induct2') auto

lemma common_length_le: "common_length xs ys \<le> length xs \<and> common_length xs ys \<le> length ys"
  by (induction xs ys rule: list_induct2') auto

lemma common_length_max:
  "k \<le> length xs \<Longrightarrow> k \<le> length ys \<Longrightarrow> take k xs = take k ys \<Longrightarrow> k \<le> common_length xs ys"
proof (induction xs ys arbitrary: k rule: list_induct2')
  case (4 x xs y ys)
  then show ?case by (cases k) auto
qed auto

lemma common_length_same [simp]: "common_length xs xs = length xs"
  by (induction xs) auto

lemma edit_plan_between_eq:
  "edit_plan_between U before after =
     \<lparr>delete_graphemes =
        length (graphemes U before) - common_length (graphemes U before) (graphemes U after),
      insert_text =
        concat (drop (common_length (graphemes U before) (graphemes U after)) (graphemes U after))\<rparr>"
  by (simp add: edit_plan_between_def common_length_def Let_def)

lemma segmentationD:
  "segmentation U \<Longrightarrow> concat (graphemes U s) = s"
  "segmentation U \<Longrightarrow> [] \<notin> set (graphemes U s)"
  by (auto simp: segmentation_def)

lemma segmentation_scalar_unicode [simp]: "segmentation scalar_unicode"
proof -
  have "concat (map (\<lambda>c. [c]) s) = s" for s :: ustr by (induction s) auto
  then show ?thesis by (auto simp: segmentation_def scalar_unicode_def)
qed

text \<open>The plan takes the old text to the new one, also behind an untouched prefix.\<close>

lemma apply_edit_plan_behind:
  assumes seg: "segmentation U"
    and split: "graphemes U (pre @ before) = graphemes U pre @ graphemes U before"
  shows "apply_edit_plan U (pre @ before) (edit_plan_between U before after) = pre @ after"
proof -
  let ?b = "graphemes U before" and ?a = "graphemes U after" and ?p = "graphemes U pre"
  let ?k = "common_length ?b ?a"
  have k: "?k \<le> length ?b" using common_length_le [of ?b ?a] by simp
  have "concat (take ?k ?a) @ concat (drop ?k ?a) = after"
    by (metis append_take_drop_id concat_append segmentationD(1) [OF seg])
  then have "concat (take ?k ?b) @ concat (drop ?k ?a) = after"
    by (simp only: common_length_take)
  then show ?thesis
    by (simp add: apply_edit_plan_def delete_last_graphemes_def edit_plan_between_eq grapheme_count_def
        Let_def split k segmentationD [OF seg])
qed

lemma graphemes_Nil: "segmentation U \<Longrightarrow> graphemes U [] = []"
  using segmentationD [of U "[]"] by (cases "graphemes U []") auto

lemma apply_edit_plan_between:
  "segmentation U \<Longrightarrow> apply_edit_plan U before (edit_plan_between U before after) = after"
  using apply_edit_plan_behind [of U "[]" before after] by (simp add: graphemes_Nil)

lemma delete_last_graphemes_count:
  "snd (delete_last_graphemes U text n) = min n (grapheme_count U text)"
  by (simp add: delete_last_graphemes_def Let_def min_def)

text \<open>
  C12. Edit plans are correct and minimal: applying the plan between two renderings to the first
  gives the second, the plan never deletes more graphemes than there are, and no plan that keeps
  a common grapheme prefix deletes fewer.
\<close>

theorem edit_plan_correct:
  assumes "segmentation U"
  shows "apply_edit_plan U old (edit_plan_between U old new) = new \<and>
    delete_graphemes (edit_plan_between U old new) \<le> grapheme_count U old \<and>
    (\<forall>k. k \<le> grapheme_count U old \<and> k \<le> grapheme_count U new \<and>
       take k (graphemes U old) = take k (graphemes U new) \<longrightarrow>
       delete_graphemes (edit_plan_between U old new) \<le> grapheme_count U old - k)"
  using apply_edit_plan_between [OF assms]
    common_length_max [of _ "graphemes U old" "graphemes U new"]
  by (auto simp: edit_plan_between_eq grapheme_count_def intro: diff_le_mono2)

lemma edit_plan_correct_witness:
  "apply_edit_plan scalar_unicode [116, 0xE9, 116]
     (edit_plan_between scalar_unicode [116, 0xE9, 116] [116, 101, 115, 116]) = [116, 101, 115, 116]"
  using edit_plan_correct [OF segmentation_scalar_unicode] by blast

end
