(* ===== verification/Telex.thy ===== *)
theory Telex
  imports Token
begin

text \<open>
  Crate zonkey-telex: the Telex composition rules and the stateful engine.

  \<open>compose\<close> rebuilds the rendered text from the raw ASCII keys; the engine keeps the raw keys,
  recomposes after every key and returns the abstract edit.  A panic of the source (the
  \<open>expect\<close> in \<open>process_backspace\<close>) is the result \<open>None\<close> of \<open>engine_process\<close>;
  \<open>engine_inv\<close> is the invariant that rules it out.
\<close>

subsection \<open>Tones, vowel shapes and the vowel table\<close>

datatype tone = T_None | T_Grave | T_Acute | T_Hook | T_Tilde | T_Dot

fun tone_index :: "tone \<Rightarrow> nat" where
  "tone_index T_None = 0"
| "tone_index T_Grave = 1"
| "tone_index T_Acute = 2"
| "tone_index T_Hook = 3"
| "tone_index T_Tilde = 4"
| "tone_index T_Dot = 5"

datatype vowel_shape =
    VS_A | VS_Abreve | VS_Acirc | VS_E | VS_Ecirc | VS_I
  | VS_O | VS_Ocirc | VS_Ohorn | VS_U | VS_Uhorn | VS_Y

datatype shape_transition =
    ST_Replace vowel_shape
  | ST_Undo vowel_shape

definition VOWELS :: "scalar list list" where
  "VOWELS =
    [[0x61, 0xE0, 0xE1, 0x1EA3, 0xE3, 0x1EA1],
     [0x103, 0x1EB1, 0x1EAF, 0x1EB3, 0x1EB5, 0x1EB7],
     [0xE2, 0x1EA7, 0x1EA5, 0x1EA9, 0x1EAB, 0x1EAD],
     [0x65, 0xE8, 0xE9, 0x1EBB, 0x1EBD, 0x1EB9],
     [0xEA, 0x1EC1, 0x1EBF, 0x1EC3, 0x1EC5, 0x1EC7],
     [0x69, 0xEC, 0xED, 0x1EC9, 0x129, 0x1ECB],
     [0x6F, 0xF2, 0xF3, 0x1ECF, 0xF5, 0x1ECD],
     [0xF4, 0x1ED3, 0x1ED1, 0x1ED5, 0x1ED7, 0x1ED9],
     [0x1A1, 0x1EDD, 0x1EDB, 0x1EDF, 0x1EE1, 0x1EE3],
     [0x75, 0xF9, 0xFA, 0x1EE7, 0x169, 0x1EE5],
     [0x1B0, 0x1EEB, 0x1EE9, 0x1EED, 0x1EEF, 0x1EF1],
     [0x79, 0x1EF3, 0xFD, 0x1EF7, 0x1EF9, 0x1EF5]]"

definition SHAPES :: "vowel_shape list" where
  "SHAPES =
    [VS_A, VS_Abreve, VS_Acirc, VS_E, VS_Ecirc, VS_I,
     VS_O, VS_Ocirc, VS_Ohorn, VS_U, VS_Uhorn, VS_Y]"

text \<open>The tone of a column; \<open>None\<close> is the \<open>unreachable!\<close> arm (every row has six columns).\<close>

definition tone_of_column :: "nat \<Rightarrow> tone option" where
  "tone_of_column i =
     (if i = 0 then Some T_None else if i = 1 then Some T_Grave else if i = 2 then Some T_Acute
      else if i = 3 then Some T_Hook else if i = 4 then Some T_Tilde else if i = 5 then Some T_Dot
      else None)"

fun decode_rows :: "nat \<Rightarrow> scalar list list \<Rightarrow> scalar \<Rightarrow> (vowel_shape \<times> tone) option" where
  "decode_rows shape_index [] c = None"
| "decode_rows shape_index (row # rows) c =
     (case position (\<lambda>candidate. candidate = c) row of
        Some column \<Rightarrow> map_option (\<lambda>t. (SHAPES ! shape_index, t)) (tone_of_column column)
      | None \<Rightarrow> decode_rows (Suc shape_index) rows c)"

definition decode_vowel :: "scalar \<Rightarrow> (vowel_shape \<times> tone) option" where
  "decode_vowel c = decode_rows 0 VOWELS c"

definition encode_vowel :: "vowel_shape \<Rightarrow> tone \<Rightarrow> scalar" where
  "encode_vowel shape t =
     VOWELS ! (the (position (\<lambda>candidate. candidate = shape) SHAPES)) ! tone_index t"

subsection \<open>Composition\<close>

definition shape_rule :: "scalar \<Rightarrow> vowel_shape \<Rightarrow> shape_transition option" where
  "shape_rule key shape =
     (if key = chr CHR ''a'' \<and> shape = VS_A then Some (ST_Replace VS_Acirc)
      else if (key = chr CHR ''a'' \<and> shape = VS_Acirc) \<or> (key = chr CHR ''w'' \<and> shape = VS_Abreve)
        then Some (ST_Undo VS_A)
      else if key = chr CHR ''e'' \<and> shape = VS_E then Some (ST_Replace VS_Ecirc)
      else if key = chr CHR ''e'' \<and> shape = VS_Ecirc then Some (ST_Undo VS_E)
      else if key = chr CHR ''o'' \<and> shape = VS_O then Some (ST_Replace VS_Ocirc)
      else if (key = chr CHR ''o'' \<and> shape = VS_Ocirc) \<or> (key = chr CHR ''w'' \<and> shape = VS_Ohorn)
        then Some (ST_Undo VS_O)
      else if key = chr CHR ''w'' \<and> shape = VS_A then Some (ST_Replace VS_Abreve)
      else if key = chr CHR ''w'' \<and> shape = VS_O then Some (ST_Replace VS_Ohorn)
      else if key = chr CHR ''w'' \<and> shape = VS_U then Some (ST_Replace VS_Uhorn)
      else if key = chr CHR ''w'' \<and> shape = VS_Uhorn then Some (ST_Undo VS_U)
      else None)"

text \<open>The code point of the letter d with stroke.\<close>

definition D_STROKE :: scalar where
  "D_STROKE = 0x111"

text \<open>The returned flag is the source's \<open>bool\<close>, the list is the mutated output.\<close>

definition try_shape_transform :: "ustr \<Rightarrow> scalar \<Rightarrow> bool \<times> ustr" where
  "try_shape_transform output key =
     (if output = [] then (False, output)
      else if key = chr CHR ''d'' \<and> last output = chr CHR ''d''
        then (True, butlast output @ [D_STROKE])
      else if key = chr CHR ''d'' \<and> last output = D_STROKE
        then (True, butlast output @ [chr CHR ''d'', chr CHR ''d''])
      else (case decode_vowel (last output) of
              None \<Rightarrow> (False, output)
            | Some (shape, tone) \<Rightarrow>
               (case shape_rule key shape of
                  None \<Rightarrow> (False, output)
                | Some (ST_Replace s) \<Rightarrow> (True, butlast output @ [encode_vowel s tone])
                | Some (ST_Undo s) \<Rightarrow> (True, butlast output @ [encode_vowel s tone, key]))))"

definition requested_tone :: "scalar \<Rightarrow> tone option" where
  "requested_tone key =
     (if key = chr CHR ''f'' then Some T_Grave
      else if key = chr CHR ''s'' then Some T_Acute
      else if key = chr CHR ''r'' then Some T_Hook
      else if key = chr CHR ''x'' then Some T_Tilde
      else if key = chr CHR ''j'' then Some T_Dot
      else None)"

text \<open>\<open>Iterator::rposition\<close>: the last index whose element satisfies a predicate.\<close>

definition rposition :: "('a \<Rightarrow> bool) \<Rightarrow> 'a list \<Rightarrow> nat option" where
  "rposition p xs = map_option (\<lambda>i. length xs - 1 - i) (position p (rev xs))"

definition try_tone :: "ustr \<Rightarrow> scalar \<Rightarrow> bool \<times> ustr" where
  "try_tone output key =
     (case requested_tone key of
        None \<Rightarrow> (False, output)
      | Some requested \<Rightarrow>
         (case rposition (\<lambda>c. decode_vowel c \<noteq> None) output of
            None \<Rightarrow> (False, output)
          | Some index \<Rightarrow>
             (case decode_vowel (output ! index) of
                None \<Rightarrow> (False, output)
              | Some (shape, current) \<Rightarrow>
                 if current = requested
                 then (False, output[index := encode_vowel shape T_None])
                 else (True, output[index := encode_vowel shape requested]))))"

definition compose_step :: "ustr \<Rightarrow> scalar \<Rightarrow> ustr" where
  "compose_step output c =
     (let (shaped, out1) = try_shape_transform output c
      in if shaped then out1
         else let (toned, out2) = try_tone out1 c
              in if toned then out2 else out2 @ [c])"

fun compose_from :: "ustr \<Rightarrow> ustr \<Rightarrow> unsupported_behavior + ustr" where
  "compose_from output [] = Inr output"
| "compose_from output (c # cs) =
     (if \<not> is_ascii c then Inl (NonAsciiInput c) else compose_from (compose_step output c) cs)"

definition compose :: "ustr \<Rightarrow> unsupported_behavior + ustr" where
  "compose raw = compose_from [] raw"

subsection \<open>The engine\<close>

record telex_engine =
  token :: token_state

definition engine_new :: telex_engine where
  "engine_new = \<lparr>token = token_new\<rparr>"

definition process_boundary :: "telex_engine \<Rightarrow> token_boundary \<Rightarrow> engine_action \<times> telex_engine" where
  "process_boundary e b =
     (case b of
        TB_CursorMove \<Rightarrow> (EA_Reset, e\<lparr>token := token_clear (token e)\<rparr>)
      | TB_FocusLoss \<Rightarrow> (EA_Reset, e\<lparr>token := token_clear (token e)\<rparr>)
      | TB_Unknown \<Rightarrow> (EA_Reset, e\<lparr>token := token_clear (token e)\<rparr>)
      | _ \<Rightarrow> (EA_Commit b, e\<lparr>token := token_clear (token e)\<rparr>))"

definition process_character ::
  "unicode \<Rightarrow> telex_engine \<Rightarrow> scalar \<Rightarrow> (unsupported_behavior + engine_action) \<times> telex_engine" where
  "process_character U e c =
     (case boundary_from_char c of
        Some b \<Rightarrow> (let (a, e') = process_boundary e b in (Inr a, e'))
      | None \<Rightarrow>
         if \<not> is_ascii c then (Inl (NonAsciiInput c), e)
         else (case push_raw (token e) c of
                 Inl r \<Rightarrow> (Inl (NonAsciiInput r), e)
               | Inr t \<Rightarrow>
                  (case compose (raw_ascii t) of
                     Inl u \<Rightarrow> (Inl u, e\<lparr>token := t\<rparr>)
                   | Inr text \<Rightarrow>
                      (let (plan, t') = replace_rendered U t text
                       in (Inr (EA_Apply plan), e\<lparr>token := t'\<rparr>)))))"

definition process_backspace :: "unicode \<Rightarrow> telex_engine \<Rightarrow> (engine_action \<times> telex_engine) option" where
  "process_backspace U e =
     (case pop_raw (token e) of
        (None, t) \<Rightarrow> Some (EA_Noop, e\<lparr>token := t\<rparr>)
      | (Some _, t) \<Rightarrow>
         (case compose (raw_ascii t) of
            Inl _ \<Rightarrow> None
          | Inr text \<Rightarrow>
             (let (plan, t') = replace_rendered U t text
              in Some (EA_Apply plan, e\<lparr>token := t'\<rparr>))))"

definition engine_process ::
  "unicode \<Rightarrow> telex_engine \<Rightarrow> engine_event
    \<Rightarrow> ((unsupported_behavior + engine_action) \<times> telex_engine) option" where
  "engine_process U e ev =
     (case ev of
        EE_Character c \<Rightarrow> Some (process_character U e c)
      | EE_Backspace \<Rightarrow> map_option (\<lambda>(a, e'). (Inr a, e')) (process_backspace U e)
      | EE_Boundary b \<Rightarrow> (let (a, e') = process_boundary e b in Some (Inr a, e')))"

subsection \<open>The vowel table\<close>

lemma decode_encode_vowel [simp]: "decode_vowel (encode_vowel s t) = Some (s, t)"
  by (cases s; cases t)
    (simp_all add: encode_vowel_def decode_vowel_def VOWELS_def SHAPES_def tone_of_column_def)

lemma decode_rows_in_table: "decode_rows i rows c = Some v \<Longrightarrow> c \<in> set (concat rows)"
proof (induction rows arbitrary: i)
  case (Cons row rows)
  show ?case
  proof (cases "position (\<lambda>candidate. candidate = c) row")
    case None
    with Cons show ?thesis by simp
  next
    case (Some k)
    from position_Some [OF Some] have "c \<in> set row" by auto
    then show ?thesis by simp
  qed
qed simp

lemma decode_vowel_in_table: "decode_vowel c = Some v \<Longrightarrow> c \<in> set (concat VOWELS)"
  unfolding decode_vowel_def by (rule decode_rows_in_table)

lemma encode_decode_vowel:
  assumes "decode_vowel c = Some (s, t)"
  shows "encode_vowel s t = c"
proof -
  have "c \<in> set (concat VOWELS)"
    using assms by (rule decode_vowel_in_table)
  moreover have "list_all (\<lambda>c. case decode_vowel c of Some (s, t) \<Rightarrow> encode_vowel s t = c | None \<Rightarrow> False)
      (concat VOWELS)"
    by (simp add: decode_vowel_def encode_vowel_def VOWELS_def SHAPES_def tone_of_column_def)
  ultimately have "case decode_vowel c of Some (s, t) \<Rightarrow> encode_vowel s t = c | None \<Rightarrow> False"
    by (simp only: list_all_iff)
  then show ?thesis using assms by simp
qed

text \<open>The arm marked \<open>unreachable!\<close> is: a table row has six columns.\<close>

lemma tone_column_exists:
  "row \<in> set VOWELS \<Longrightarrow> position p row = Some i \<Longrightarrow> tone_of_column i \<noteq> None"
proof -
  assume row: "row \<in> set VOWELS" and p: "position p row = Some i"
  have "length row = 6" using row by (auto simp: VOWELS_def)
  with position_Some [OF p] have "i < 6" by simp
  then show ?thesis by (auto simp: tone_of_column_def)
qed

lemma decode_vowel_d [simp]: "decode_vowel D_STROKE = None" "decode_vowel 100 = None"
  by (simp_all add: decode_vowel_def VOWELS_def D_STROKE_def)

lemma scalar_d [simp]: "is_scalar D_STROKE" "is_scalar 100"
  by (simp_all add: is_scalar_def D_STROKE_def)

lemma encode_vowel_scalar [simp]: "is_scalar (encode_vowel s t)"
  by (cases s; cases t) (simp_all add: encode_vowel_def VOWELS_def SHAPES_def is_scalar_def)

subsection \<open>Composition: totality, length and validity\<close>

lemma length_try_tone: "length (snd (try_tone out c)) = length out"
  by (simp add: try_tone_def split: option.splits prod.splits)

lemma length_try_shape:
  "length (snd (try_shape_transform out c)) \<le> Suc (length out) \<and>
     (\<not> fst (try_shape_transform out c) \<longrightarrow> snd (try_shape_transform out c) = out)"
  by (auto simp: try_shape_transform_def split: option.splits prod.splits shape_transition.splits)

lemma length_compose_step: "length (compose_step out c) \<le> Suc (length out)"
  using length_try_shape [of out c] length_try_tone [of "snd (try_shape_transform out c)" c]
  by (auto simp: compose_step_def split: prod.splits)

lemma compose_step_not_Nil: "compose_step out c \<noteq> []"
  using length_try_tone [of out c]
  by (auto simp: compose_step_def try_shape_transform_def try_tone_def rposition_def
      split: prod.splits option.splits shape_transition.splits if_splits)

lemma valid_str_update: "valid_str s \<Longrightarrow> is_scalar c \<Longrightarrow> valid_str (s[i := c])"
  by (auto simp: valid_str_def list_all_iff dest!: set_update_subset_insert [THEN subsetD])

lemma valid_str_butlast: "valid_str s \<Longrightarrow> valid_str (butlast s)"
  by (auto simp: valid_str_def list_all_iff dest: in_set_butlastD)

lemma valid_try_tone: "valid_str out \<Longrightarrow> valid_str (snd (try_tone out c))"
  by (auto simp: try_tone_def intro!: valid_str_update split: option.splits prod.splits)

lemma valid_try_shape: "valid_str out \<Longrightarrow> is_scalar c \<Longrightarrow> valid_str (snd (try_shape_transform out c))"
  by (auto simp: try_shape_transform_def valid_str_butlast
      split: option.splits prod.splits shape_transition.splits)

lemma valid_compose_step: "valid_str out \<Longrightarrow> is_scalar c \<Longrightarrow> valid_str (compose_step out c)"
  using valid_try_shape [of out c] valid_try_tone [of "snd (try_shape_transform out c)" c]
  by (auto simp: compose_step_def split: prod.splits)

lemma compose_from_ascii: "is_ascii_str cs \<Longrightarrow> compose_from out cs = Inr (foldl compose_step out cs)"
  by (induction cs arbitrary: out) auto

lemma compose_ascii: "is_ascii_str raw \<Longrightarrow> compose raw = Inr (foldl compose_step [] raw)"
  by (simp add: compose_def compose_from_ascii)

lemma compose_Inr_ascii: "compose_from out raw = Inr r \<Longrightarrow> is_ascii_str raw"
  by (induction raw arbitrary: out) (auto split: if_splits)

lemma length_compose_fold: "length (foldl compose_step out cs) \<le> length out + length cs"
proof (induction cs arbitrary: out)
  case (Cons c cs)
  from Cons [of "compose_step out c"] length_compose_step [of out c] show ?case by simp
qed simp

lemma valid_compose_fold:
  "valid_str out \<Longrightarrow> valid_str cs \<Longrightarrow> valid_str (foldl compose_step out cs)"
  by (induction cs arbitrary: out) (auto intro: valid_compose_step)

lemma compose_fold_Nil: "foldl compose_step [] cs = [] \<longleftrightarrow> cs = []"
proof (cases cs rule: rev_cases)
  case (snoc ds d)
  then show ?thesis by (simp add: compose_step_not_Nil)
qed simp

lemma compose_facts:
  assumes "compose raw = Inr r"
  shows "length r \<le> length raw" "valid_str r" "r = [] \<longleftrightarrow> raw = []" "is_ascii_str raw"
proof -
  show a: "is_ascii_str raw" using assms by (auto simp: compose_def dest: compose_Inr_ascii)
  then have r: "r = foldl compose_step [] raw" using assms by (simp add: compose_ascii)
  show "length r \<le> length raw" using length_compose_fold [of "[]" raw] r by simp
  show "valid_str r" using valid_compose_fold [of "[]" raw] ascii_str_valid [OF a] r by simp
  show "r = [] \<longleftrightarrow> raw = []" using compose_fold_Nil [of raw] r by simp
qed

subsection \<open>Undo\<close>

lemma rposition_Some:
  assumes "rposition p xs = Some i"
  shows "i < length xs" "p (xs ! i)" "\<And>j. i < j \<Longrightarrow> j < length xs \<Longrightarrow> \<not> p (xs ! j)"
proof -
  from assms obtain k where k: "position p (rev xs) = Some k" and i: "i = length xs - 1 - k"
    by (auto simp: rposition_def)
  from position_Some [OF k] have kl: "k < length xs" and pk: "p (rev xs ! k)"
    and nk: "\<And>j. j < k \<Longrightarrow> \<not> p (rev xs ! j)" by auto
  show "i < length xs" using kl i by simp
  show "p (xs ! i)" using kl i pk by (simp add: rev_nth)
  show "\<not> p (xs ! j)" if "i < j" "j < length xs" for j
  proof -
    have "length xs - 1 - j < k" using that i kl by simp
    from nk [OF this] show ?thesis using that by (simp add: rev_nth)
  qed
qed

lemma rposition_SomeI:
  assumes "i < length xs" "p (xs ! i)" "\<And>j. i < j \<Longrightarrow> j < length xs \<Longrightarrow> \<not> p (xs ! j)"
  shows "rposition p xs = Some i"
proof (cases "rposition p xs")
  case None
  then show ?thesis using assms(1,2) by (auto simp: rposition_def position_None)
next
  case (Some k)
  from rposition_Some [OF Some] assms have "k = i" by (metis nat_neq_iff)
  with Some show ?thesis by simp
qed

lemma tone_key_no_shape:
  "requested_tone key \<noteq> None \<Longrightarrow> try_shape_transform out key = (False, out)"
  by (auto simp: requested_tone_def try_shape_transform_def shape_rule_def
      split: if_splits option.splits prod.splits)

lemma shape_undo:
  assumes "out \<noteq> []" and "decode_vowel (last out) = Some (shape, tone)"
    and "shape_rule key shape = Some (ST_Replace s)"
  shows "compose_step (compose_step out key) key = out @ [key]"
proof -
  have u: "shape_rule key s = Some (ST_Undo shape)"
    using assms(3) by (auto simp: shape_rule_def split: if_splits)
  have nd: "last out \<noteq> 100" "last out \<noteq> D_STROKE" "key \<noteq> 100"
    using assms(2,3) by (auto simp: shape_rule_def split: if_splits)
  have c: "compose_step out key = butlast out @ [encode_vowel s tone]"
    using assms nd by (simp add: compose_step_def try_shape_transform_def)
  have "compose_step (butlast out @ [encode_vowel s tone]) key = butlast out @ [encode_vowel shape tone, key]"
    using u nd by (simp add: compose_step_def try_shape_transform_def)
  also have "\<dots> = out @ [key]"
    using encode_decode_vowel [OF assms(2)] assms(1) append_butlast_last_id [of out] by simp
  finally show ?thesis using c by simp
qed

lemma stroke_undo:
  assumes "out \<noteq> []" and "last out = chr CHR ''d''"
  shows "compose_step (compose_step out (chr CHR ''d'')) (chr CHR ''d'') = out @ [chr CHR ''d'']"
  using assms append_butlast_last_id [of out]
  by (simp add: compose_step_def try_shape_transform_def D_STROKE_def)

lemma tone_undo:
  assumes "requested_tone key = Some t"
    and "rposition (\<lambda>c. decode_vowel c \<noteq> None) out = Some i"
    and "decode_vowel (out ! i) = Some (shape, T_None)"
  shows "compose_step (compose_step out key) key = out @ [key]"
proof -
  have t: "t \<noteq> T_None" using assms(1) by (auto simp: requested_tone_def split: if_splits)
  note i = rposition_Some [OF assms(2)]
  let ?o = "out[i := encode_vowel shape t]"
  have c: "compose_step out key = ?o"
    using assms t tone_key_no_shape [of key out] by (simp add: compose_step_def try_tone_def)
  have "rposition (\<lambda>c. decode_vowel c \<noteq> None) ?o = Some i"
    by (rule rposition_SomeI) (use i in \<open>auto simp: nth_list_update\<close>)
  then have "compose_step ?o key = ?o[i := encode_vowel shape T_None] @ [key]"
    using assms(1) i(1) tone_key_no_shape [of key ?o] by (simp add: compose_step_def try_tone_def)
  also have "encode_vowel shape T_None = out ! i" by (rule encode_decode_vowel [OF assms(3)])
  finally show ?thesis using c by simp
qed

subsection \<open>Plain words\<close>

text \<open>A word without tone keys and \<open>w\<close> and without a doubled a, d, e or o is left as typed.\<close>

definition plain_key :: "scalar \<Rightarrow> bool" where
  "plain_key c \<longleftrightarrow> requested_tone c = None \<and> c \<noteq> chr CHR ''w''"

fun no_doubles :: "ustr \<Rightarrow> bool" where
  "no_doubles (a # b # s) \<longleftrightarrow> \<not> (a = b \<and> a \<in> set (lit ''adeo'')) \<and> no_doubles (b # s)"
| "no_doubles _ \<longleftrightarrow> True"

lemma decode_ascii_vowel:
  assumes "is_ascii c" and "decode_vowel c = Some (shape, tone)"
  shows "(c, shape) \<in> {(97, VS_A), (101, VS_E), (105, VS_I), (111, VS_O), (117, VS_U), (121, VS_Y)}"
proof -
  have "c \<in> set (filter is_ascii (concat VOWELS))"
    using assms decode_vowel_in_table by auto
  also have "filter is_ascii (concat VOWELS) = [97, 101, 105, 111, 117, 121]"
    by (simp add: VOWELS_def is_ascii_def)
  finally show ?thesis
    using assms(2) by (auto simp: decode_vowel_def VOWELS_def SHAPES_def tone_of_column_def)
qed

lemma compose_step_plain:
  assumes "is_ascii_str out" and "plain_key c"
    and "out \<noteq> [] \<longrightarrow> \<not> (last out = c \<and> c \<in> set (lit ''adeo''))"
  shows "compose_step out c = out @ [c]"
proof (cases "out = []")
  case True
  then show ?thesis using assms(2)
    by (simp add: compose_step_def try_shape_transform_def try_tone_def plain_key_def)
next
  case False
  have a: "is_ascii (last out)" using assms(1) False by (simp add: is_ascii_str_def list_all_iff)
  have "last out \<noteq> D_STROKE" using a by (auto simp: is_ascii_def D_STROKE_def)
  moreover have "shape_rule c shape = None" if "decode_vowel (last out) = Some (shape, tone)" for shape tone
    using decode_ascii_vowel [OF a that] assms(2,3) False
    by (auto simp: shape_rule_def plain_key_def)
  ultimately have "try_shape_transform out c = (False, out)"
    using assms(3) False
    by (auto simp: try_shape_transform_def split: option.splits)
  then show ?thesis using assms(2) by (simp add: compose_step_def try_tone_def plain_key_def)
qed

lemma compose_plain_fold:
  "is_ascii_str out \<Longrightarrow> is_ascii_str cs \<Longrightarrow> list_all plain_key cs \<Longrightarrow>
     no_doubles (case out of [] \<Rightarrow> cs | _ \<Rightarrow> last out # cs) \<Longrightarrow> foldl compose_step out cs = out @ cs"
proof (induction cs arbitrary: out)
  case (Cons c cs)
  have "compose_step out c = out @ [c]"
    using Cons.prems by (intro compose_step_plain) (auto split: list.splits)
  moreover have "no_doubles (c # cs)"
    using Cons.prems(4) by (auto split: list.splits)
  ultimately show ?case
    using Cons.IH [of "out @ [c]"] Cons.prems by (simp split: list.splits)
qed simp

subsection \<open>The engine invariant\<close>

text \<open>
  The rendered text is the composition of the raw keys, which are ASCII and hold no boundary.
\<close>

definition engine_inv :: "telex_engine \<Rightarrow> bool" where
  "engine_inv e \<longleftrightarrow> compose (raw_ascii (token e)) = Inr (rendered (token e)) \<and>
     list_all (\<lambda>c. boundary_from_char c = None) (raw_ascii (token e))"

lemma engine_inv_new: "engine_inv engine_new"
  by (simp add: engine_inv_def engine_new_def token_new_def compose_def)

lemma engine_inv_ascii: "engine_inv e \<Longrightarrow> is_ascii_str (raw_ascii (token e))"
  by (auto simp: engine_inv_def dest: compose_facts(4))

lemma engine_inv_cleared: "engine_inv (e\<lparr>token := token_clear t\<rparr>)"
  by (simp add: engine_inv_def token_clear_def compose_def)

lemma fst_process_boundary:
  "fst (process_boundary e b) =
     (if b \<in> {TB_CursorMove, TB_FocusLoss, TB_Unknown} then EA_Reset else EA_Commit b)"
  by (cases b) (auto simp: process_boundary_def)

lemma process_boundary_clears: "token (snd (process_boundary e b)) = token_clear (token e)"
  by (cases b) (simp_all add: process_boundary_def)

lemma engine_inv_boundary: "engine_inv (snd (process_boundary e b))"
  by (cases b) (simp_all add: process_boundary_def engine_inv_cleared)

lemma process_character_cases:
  assumes "engine_inv e"
  shows "process_character U e c =
    (case boundary_from_char c of
       Some b \<Rightarrow> (Inr (fst (process_boundary e b)), snd (process_boundary e b))
     | None \<Rightarrow>
        if is_ascii c then
          (Inr (EA_Apply (edit_plan_between U (rendered (token e))
              (foldl compose_step [] (raw_ascii (token e) @ [c])))),
           e\<lparr>token := \<lparr>raw_ascii = raw_ascii (token e) @ [c],
              rendered = foldl compose_step [] (raw_ascii (token e) @ [c])\<rparr>\<rparr>)
        else (Inl (NonAsciiInput c), e))"
  using engine_inv_ascii [OF assms]
  by (auto simp: process_character_def push_raw_def compose_ascii replace_rendered_def Let_def
      split: option.splits prod.splits)

lemma engine_inv_character:
  assumes "engine_inv e"
  shows "engine_inv (snd (process_character U e c))"
proof -
  have "is_ascii_str (raw_ascii (token e))" by (rule engine_inv_ascii [OF assms])
  then show ?thesis
    using assms engine_inv_boundary
    by (auto simp: process_character_cases [OF assms] engine_inv_def compose_ascii split: option.splits)
qed

lemma process_backspace_cases:
  assumes "engine_inv e"
  shows "process_backspace U e =
    (if raw_ascii (token e) = [] then Some (EA_Noop, e)
     else Some (EA_Apply (edit_plan_between U (rendered (token e))
              (foldl compose_step [] (butlast (raw_ascii (token e))))),
           e\<lparr>token := \<lparr>raw_ascii = butlast (raw_ascii (token e)),
              rendered = foldl compose_step [] (butlast (raw_ascii (token e)))\<rparr>\<rparr>))"
  using is_ascii_str_butlast [OF engine_inv_ascii [OF assms]]
  by (simp add: process_backspace_def pop_raw_def compose_ascii replace_rendered_def Let_def)

lemma engine_inv_backspace:
  assumes "engine_inv e" and "process_backspace U e = Some (a, e')"
  shows "engine_inv e'"
proof -
  have "is_ascii_str (butlast (raw_ascii (token e)))"
    by (rule is_ascii_str_butlast [OF engine_inv_ascii [OF assms(1)]])
  then show ?thesis
    using assms
    by (auto simp: process_backspace_cases [OF assms(1)] engine_inv_def compose_ascii list_all_iff
        dest!: in_set_butlastD split: if_splits)
qed

lemma engine_process_total: "engine_inv e \<Longrightarrow> engine_process U e ev \<noteq> None"
  by (cases ev) (auto simp: engine_process_def process_backspace_cases split: prod.splits)

lemma engine_inv_steps:
  "engine_inv e \<Longrightarrow> process_character U e c = (r, e') \<Longrightarrow> engine_inv e'"
  "process_boundary e b = (a, e') \<Longrightarrow> engine_inv e'"
  by (metis engine_inv_character snd_conv) (metis engine_inv_boundary snd_conv)

lemma engine_process_inv:
  "engine_inv e \<Longrightarrow> engine_process U e ev = Some (r, e') \<Longrightarrow> engine_inv e'"
  by (cases ev)
    (auto simp: engine_process_def dest: engine_inv_backspace engine_inv_steps split: prod.splits)

text \<open>An applied plan takes what was shown to what the token now renders.\<close>

lemma engine_process_plan:
  assumes "segmentation U" and "engine_inv e"
    and "engine_process U e ev = Some (Inr (EA_Apply plan), e')"
  shows "apply_edit_plan U (rendered (token e)) plan = rendered (token e')"
proof -
  have nb: "process_boundary e b \<noteq> (EA_Apply plan, e'')" for b e''
    by (cases b) (auto simp: process_boundary_def)
  show ?thesis
    using assms(3) nb
    by (cases ev)
      (auto simp: engine_process_def process_character_cases [OF assms(2)] fst_process_boundary
        process_backspace_cases [OF assms(2)] apply_edit_plan_between [OF assms(1)]
        split: option.splits if_splits prod.splits)
qed

subsection \<open>Runs of the engine\<close>

text \<open>The engine over a list of events; \<open>None\<close> when one of them panics.\<close>

fun engine_run ::
  "unicode \<Rightarrow> telex_engine \<Rightarrow> engine_event list
    \<Rightarrow> ((unsupported_behavior + engine_action) list \<times> telex_engine) option" where
  "engine_run U e [] = Some ([], e)"
| "engine_run U e (ev # evs) =
     (case engine_process U e ev of
        None \<Rightarrow> None
      | Some (r, e') \<Rightarrow> map_option (\<lambda>(rs, e''). (r # rs, e'')) (engine_run U e' evs))"

text \<open>A client that shows the token: it applies plans and forgets the token at its end.\<close>

definition show_action :: "unicode \<Rightarrow> ustr \<Rightarrow> unsupported_behavior + engine_action \<Rightarrow> ustr" where
  "show_action U shown r =
     (case r of
        Inr (EA_Apply plan) \<Rightarrow> apply_edit_plan U shown plan
      | Inr (EA_Commit _) \<Rightarrow> []
      | Inr EA_Reset \<Rightarrow> []
      | _ \<Rightarrow> shown)"

lemma show_action_step:
  assumes "segmentation U" and "engine_inv e" and "engine_process U e ev = Some (r, e')"
  shows "show_action U (rendered (token e)) r = rendered (token e')"
proof (cases r)
  case (Inl u)
  with assms(2,3) show ?thesis
    by (cases ev)
      (auto simp: engine_process_def process_character_cases show_action_def
        split: option.splits prod.splits if_splits)
next
  case (Inr a)
  show ?thesis
  proof (cases a)
    case (EA_Apply plan)
    with engine_process_plan [OF assms(1,2)] assms(3) Inr show ?thesis by (simp add: show_action_def)
  next
    case EA_Noop
    with assms(2,3) Inr show ?thesis
      by (cases ev)
        (auto simp: engine_process_def process_character_cases process_backspace_cases show_action_def
          process_boundary_def split: option.splits prod.splits if_splits token_boundary.splits)
  qed (use assms(2,3) Inr in \<open>cases ev;
      auto simp: engine_process_def process_character_cases process_backspace_cases show_action_def
        process_boundary_def token_clear_def
        split: option.splits prod.splits if_splits token_boundary.splits\<close>)+
qed

lemma engine_run_total:
  assumes "segmentation U" and "engine_inv e"
  shows "\<exists>rs e'. engine_run U e evs = Some (rs, e') \<and> engine_inv e' \<and> length rs = length evs \<and>
    foldl (show_action U) (rendered (token e)) rs = rendered (token e')"
  using assms(2)
proof (induction evs arbitrary: e)
  case (Cons ev evs)
  obtain r e1 where p: "engine_process U e ev = Some (r, e1)"
    using engine_process_total [OF Cons.prems, of U ev] by auto
  with Cons.IH [OF engine_process_inv [OF Cons.prems p]] show_action_step [OF assms(1) Cons.prems p]
  show ?case by auto
qed simp

text \<open>
  C7. The Telex engine never panics and its edit plans keep the screen right: over any events, a
  client that applies every plan shows exactly the rendered text, which is the composition of the
  raw keys; the raw keys are ASCII and hold no boundary character.
\<close>

theorem engine_run_correct:
  assumes "segmentation U"
  shows "\<exists>rs e. engine_run U engine_new evs = Some (rs, e) \<and> length rs = length evs \<and>
    foldl (show_action U) [] rs = rendered (token e) \<and>
    compose (raw_ascii (token e)) = Inr (rendered (token e)) \<and>
    is_ascii_str (raw_ascii (token e)) \<and>
    list_all (\<lambda>c. boundary_from_char c = None) (raw_ascii (token e))"
proof -
  obtain rs e where r: "engine_run U engine_new evs = Some (rs, e)" "engine_inv e"
    "length rs = length evs" "foldl (show_action U) (rendered (token engine_new)) rs = rendered (token e)"
    using engine_run_total [OF assms engine_inv_new] by blast
  moreover have "rendered (token engine_new) = []" by (simp add: engine_new_def token_new_def)
  ultimately show ?thesis
    using engine_inv_ascii [OF r(2)] by (auto simp: engine_inv_def)
qed

lemma engine_run_correct_witness:
  "\<exists>rs e. engine_run scalar_unicode engine_new
      [EE_Character (chr CHR ''d''), EE_Character (chr CHR ''d''), EE_Backspace] = Some (rs, e) \<and>
    length rs = 3 \<and> foldl (show_action scalar_unicode) [] rs = rendered (token e)"
  using engine_run_correct [OF segmentation_scalar_unicode,
      of "[EE_Character (chr CHR ''d''), EE_Character (chr CHR ''d''), EE_Backspace]"]
  by auto

text \<open>
  Repeating a Telex key undoes it: where a vowel-shape key, the stroke key or a tone key
  changed the end of the output, the same key again restores the previous output and types
  itself.
\<close>

lemma repeated_key_undoes:
  assumes "(out \<noteq> [] \<and> decode_vowel (last out) = Some (shape, t) \<and>
        shape_rule key shape = Some (ST_Replace s)) \<or>
      (out \<noteq> [] \<and> last out = chr CHR ''d'' \<and> key = chr CHR ''d'') \<or>
      (requested_tone key \<noteq> None \<and> rposition (\<lambda>c. decode_vowel c \<noteq> None) out = Some i \<and>
        decode_vowel (out ! i) = Some (shape, T_None))"
  shows "compose_step (compose_step out key) key = out @ [key]"
  using assms shape_undo stroke_undo tone_undo by blast

lemma repeated_key_undoes_witness:
  "compose_step (compose_step (lit ''d'') (chr CHR ''d'')) (chr CHR ''d'') = lit ''dd''"
  using repeated_key_undoes [of "lit ''d''" VS_A T_None "chr CHR ''d''" VS_A 0] by simp

text \<open>
  Plain words are left as typed: an ASCII word without tone keys and without w, in which no a,
  d, e or o is doubled, composes to itself.
\<close>

lemma compose_plain:
  assumes "is_ascii_str w" and "list_all plain_key w" and "no_doubles w"
  shows "compose w = Inr w"
  using compose_plain_fold [of "[]" w] assms by (simp add: compose_ascii)

lemma compose_plain_witness: "compose (lit ''kinh'') = Inr (lit ''kinh'')"
  by (rule compose_plain) (simp_all add: is_ascii_def plain_key_def requested_tone_def)

text \<open>
  The vowel table is consistent: every shape and tone has a letter that decodes to it, and a
  letter that decodes is the one its shape and tone encode to.
\<close>

lemma vowel_table_roundtrip:
  "decode_vowel (encode_vowel s t) = Some (s, t) \<and>
    (decode_vowel c = Some (s', t') \<longrightarrow> encode_vowel s' t' = c)"
  using encode_decode_vowel by simp

lemma vowel_table_roundtrip_witness:
  "decode_vowel (encode_vowel VS_Ohorn T_Dot) = Some (VS_Ohorn, T_Dot) \<and> encode_vowel VS_A T_None = 97"
  using vowel_table_roundtrip [of VS_Ohorn T_Dot 97 VS_A T_None]
  by (simp add: decode_vowel_def VOWELS_def SHAPES_def tone_of_column_def)

end
