(* ===== verification/Detect.thy ===== *)
theory Detect
  imports Token
begin

text \<open>
  Crate zonkey-detect: protected token patterns (\<open>patterns.rs\<close>), dictionaries
  (\<open>dictionary.rs\<close>), confidences (\<open>scoring.rs\<close>), the Vietnamese letter test
  (\<open>validation.rs\<close>) and the exact-match classifier (\<open>classifier.rs\<close>).

  The trait \<open>DictionaryProvider\<close> is the locale \<open>dictionary_provider\<close>; its law (lookup
  ignores ASCII case) is proved of both providers of the source.
\<close>

subsection \<open>Protected patterns\<close>

datatype never_transform_kind =
    NT_Url | NT_Email | NT_Path | NT_Domain | NT_IpAddress | NT_CommandOption
  | NT_Identifier | NT_SemanticVersion | NT_Uuid | NT_HexOrHash | NT_SecretLike

text \<open>\<open>char::is_alphabetic\<close>: exact on ASCII, the Unicode table is a parameter beyond.\<close>

definition is_alphabetic :: "unicode \<Rightarrow> scalar \<Rightarrow> bool" where
  "is_alphabetic U c = (if is_ascii c then is_ascii_alphabetic c else other_alphabetic U c)"

definition looks_like_domain :: "ustr \<Rightarrow> bool" where
  "looks_like_domain token =
     (let labels = split_on (chr CHR ''.'') token
      in 2 \<le> length labels \<and>
         list_all (\<lambda>label. label \<noteq> [] \<and> hd label \<noteq> chr CHR ''-'' \<and> last label \<noteq> chr CHR ''-'' \<and>
           list_all (\<lambda>c. is_ascii_alphanumeric c \<or> c = chr CHR ''-'') label) labels \<and>
         list_ex is_ascii_alphabetic (last labels))"

definition looks_like_email :: "ustr \<Rightarrow> bool" where
  "looks_like_email token =
     (case split_once (chr CHR ''@'') token of
        None \<Rightarrow> False
      | Some (local, domain) \<Rightarrow> local \<noteq> [] \<and> looks_like_domain domain)"

definition looks_like_windows_path :: "ustr \<Rightarrow> bool" where
  "looks_like_windows_path token =
     (case utf8 token of
        b0 # b1 # b2 # _ \<Rightarrow>
          is_ascii_alphabetic (unat b0) \<and> unat b1 = chr CHR '':'' \<and> (unat b2 = 92 \<or> unat b2 = chr CHR ''/'')
      | _ \<Rightarrow> False)"

definition looks_like_ipv4 :: "ustr \<Rightarrow> bool" where
  "looks_like_ipv4 token =
     (let parts = split_on (chr CHR ''.'') token
      in length parts = 4 \<and> list_all (\<lambda>part. part \<noteq> [] \<and> parse_unsigned 256 part \<noteq> None) parts)"

definition looks_like_ipv6 :: "ustr \<Rightarrow> bool" where
  "looks_like_ipv6 token \<longleftrightarrow>
     chr CHR '':'' \<in> set token \<and>
     list_all (\<lambda>c. is_ascii_hexdigit c \<or> c = chr CHR '':'') token \<and>
     2 \<le> length (filter (\<lambda>c. c = chr CHR '':'') token)"

definition looks_like_semver :: "ustr \<Rightarrow> bool" where
  "looks_like_semver token =
     (let v = (case strip_prefix (lit ''v'') token of Some r \<Rightarrow> r | None \<Rightarrow> token);
          core = hd (split_by (\<lambda>c. c = chr CHR ''-'' \<or> c = chr CHR ''+'') v);
          parts = split_on (chr CHR ''.'') core
      in length parts = 3 \<and> list_all (\<lambda>part. part \<noteq> [] \<and> list_all is_ascii_digit part) parts)"

definition looks_like_uuid :: "ustr \<Rightarrow> bool" where
  "looks_like_uuid token =
     (let parts = split_on (chr CHR ''-'') token
      in map ulen parts = [8, 4, 4, 4, 12] \<and> list_all (list_all is_ascii_hexdigit) parts)"

definition looks_like_hex_or_hash :: "ustr \<Rightarrow> bool" where
  "looks_like_hex_or_hash token =
     (let v = (case strip_prefix (lit ''0x'') token of Some r \<Rightarrow> r | None \<Rightarrow> token)
      in 8 \<le> ulen v \<and> list_all is_ascii_hexdigit v \<and>
         (starts_with (lit ''0x'') token \<or> list_ex is_ascii_digit v))"

definition has_internal_uppercase :: "ustr \<Rightarrow> bool" where
  "has_internal_uppercase token \<longleftrightarrow>
     list_ex is_ascii_lowercase token \<and> list_ex is_ascii_uppercase (drop 1 token)"

definition looks_like_secret :: "ustr \<Rightarrow> bool" where
  "looks_like_secret token =
     (if starts_with (lit ''AKIA'') token \<and> 16 \<le> ulen token then True
      else let classes = [list_ex is_ascii_lowercase token, list_ex is_ascii_uppercase token,
                          list_ex is_ascii_digit token, list_ex (\<lambda>c. \<not> is_ascii_alphanumeric c) token]
           in 24 \<le> ulen token \<and> is_ascii_str token \<and> \<not> list_ex is_whitespace token \<and>
              3 \<le> length (filter id classes))"

definition classify_never_transform :: "unicode \<Rightarrow> ustr \<Rightarrow> never_transform_kind option" where
  "classify_never_transform U token =
     (if token = [] then None
      else let lower = ascii_lower token in
      if contains_sub (lit ''://'') lower \<or> starts_with (lit ''mailto:'') lower \<or> starts_with (lit ''urn:'') lower
        then Some NT_Url
      else if looks_like_email token then Some NT_Email
      else if starts_with (lit ''-'') token \<or>
          (starts_with (lit ''/'') token \<and> chr CHR ''/'' \<notin> set (tl token) \<and> 92 \<notin> set (tl token))
        then Some NT_CommandOption
      else if looks_like_windows_path token \<or> starts_with (lit ''/'') token \<or> starts_with (lit ''./'') token \<or>
          starts_with (lit ''../'') token \<or> starts_with [92, 92] token \<or> 92 \<in> set token
        then Some NT_Path
      else if looks_like_ipv4 token \<or> looks_like_ipv6 token then Some NT_IpAddress
      else if looks_like_semver token then Some NT_SemanticVersion
      else if looks_like_uuid token then Some NT_Uuid
      else if looks_like_hex_or_hash token then Some NT_HexOrHash
      else if looks_like_secret token then Some NT_SecretLike
      else if looks_like_domain token then Some NT_Domain
      else if chr CHR ''_'' \<in> set token \<or>
          (chr CHR ''-'' \<in> set token \<and> list_ex (is_alphabetic U) token) \<or>
          has_internal_uppercase token
        then Some NT_Identifier
      else None)"

subsection \<open>Dictionaries\<close>

datatype dictionary_class = DC_English | DC_Technical | DC_Product | DC_User

fun class_reason :: "dictionary_class \<Rightarrow> decision_reason" where
  "class_reason DC_English = DR_ExactEnglishDictionary"
| "class_reason DC_Technical = DR_ExactTechnicalDictionary"
| "class_reason DC_Product = DR_ExactProductDictionary"
| "class_reason DC_User = DR_UserAllowList"

text \<open>\<open>str::lines\<close> and \<open>str::trim\<close>.\<close>

definition strip_cr :: "ustr \<Rightarrow> ustr" where
  "strip_cr l = (if l \<noteq> [] \<and> last l = 13 then butlast l else l)"

definition lines_of :: "ustr \<Rightarrow> ustr list" where
  "lines_of s =
     (let ps = split_on 10 s
      in map strip_cr (butlast ps) @ (if last ps = [] then [] else [last ps]))"

definition trim_ws :: "ustr \<Rightarrow> ustr" where
  "trim_ws s = rev (dropWhile is_whitespace (rev (dropWhile is_whitespace s)))"

definition contains_entry :: "ustr \<Rightarrow> ustr \<Rightarrow> bool" where
  "contains_entry contents token =
     list_ex (\<lambda>line. let entry = trim_ws line in
        entry \<noteq> [] \<and> \<not> starts_with (lit ''#'') entry \<and> eq_ignore_ascii_case entry token)
       (lines_of contents)"

definition text_of_lines :: "ustr list \<Rightarrow> ustr" where
  "text_of_lines ls = concat (map (\<lambda>l. l @ [10]) ls)"

definition products_lines :: "ustr list" where
  "products_lines = map (map of_char)
     [''# Lowercase product and platform names; input casing is preserved.'',
      ''esxi'', ''firefox'', ''fortigate'', ''pfsense'', ''redis'', ''tauri'', ''vcenter'', ''vmware'']"

definition it_common_lines :: "ustr list" where
  "it_common_lines = map (map of_char)
     [''# Lowercase exact-match technical vocabulary.'',
      ''certificate'', ''cluster'', ''compiler'', ''config'', ''database'', ''dhcp'', ''dns'', ''endpoint'',
      ''firewall'', ''fqdn'', ''hostname'', ''iis'', ''kernel'', ''network'', ''openssl'', ''pki'',
      ''powershell'', ''rdp'', ''registry'', ''router'', ''service'', ''storage'', ''terminal'', ''virtual'',
      ''vlan'', ''xrdp'']"

definition en_common_lines :: "ustr list" where
  "en_common_lines = map (map of_char)
     [''# Lowercase exact-match English recovery vocabulary.'',
      ''browser'', ''buffer'', ''client'', ''custom'', ''default'', ''download'', ''driver'', ''error'',
      ''feature'', ''folder'', ''format'', ''install'', ''inventory'', ''library'', ''logger'', ''memory'',
      ''merge'', ''monitor'', ''parser'', ''password'', ''profile'', ''pull'', ''push'', ''refresh'',
      ''release'', ''request'', ''reset'', ''response'', ''restore'', ''resume'', ''root'', ''secret'',
      ''server'', ''session'', ''settings'', ''source'', ''status'', ''system'', ''target'', ''test'',
      ''testing'', ''upgrade'', ''username'', ''version'', ''warning'']"

definition built_in_classify :: "ustr \<Rightarrow> dictionary_class option" where
  "built_in_classify token =
     (let t = ascii_lower token in
      if contains_entry (text_of_lines products_lines) t then Some DC_Product
      else if contains_entry (text_of_lines it_common_lines) t then Some DC_Technical
      else if contains_entry (text_of_lines en_common_lines) t then Some DC_English
      else None)"

record in_memory_dictionaries =
  im_english :: "ustr set"
  im_technical :: "ustr set"
  im_products :: "ustr set"
  im_user :: "ustr set"

definition in_memory_default :: in_memory_dictionaries where
  "in_memory_default = \<lparr>im_english = {}, im_technical = {}, im_products = {}, im_user = {}\<rparr>"

fun update_set ::
  "dictionary_class \<Rightarrow> (ustr set \<Rightarrow> ustr set) \<Rightarrow> in_memory_dictionaries \<Rightarrow> in_memory_dictionaries" where
  "update_set DC_English f d = d\<lparr>im_english := f (im_english d)\<rparr>"
| "update_set DC_Technical f d = d\<lparr>im_technical := f (im_technical d)\<rparr>"
| "update_set DC_Product f d = d\<lparr>im_products := f (im_products d)\<rparr>"
| "update_set DC_User f d = d\<lparr>im_user := f (im_user d)\<rparr>"

definition with_entries :: "dictionary_class \<Rightarrow> ustr list \<Rightarrow> in_memory_dictionaries" where
  "with_entries class entries =
     update_set class (\<lambda>s. s \<union> set (map (\<lambda>entry. ascii_lower entry) entries)) in_memory_default"

definition dictionary_insert ::
  "in_memory_dictionaries \<Rightarrow> dictionary_class \<Rightarrow> ustr \<Rightarrow> in_memory_dictionaries" where
  "dictionary_insert d class entry = update_set class (insert (ascii_lower entry)) d"

definition in_memory_classify :: "in_memory_dictionaries \<Rightarrow> ustr \<Rightarrow> dictionary_class option" where
  "in_memory_classify d token =
     (let t = ascii_lower token in
      if t \<in> im_user d then Some DC_User
      else if t \<in> im_products d then Some DC_Product
      else if t \<in> im_technical d then Some DC_Technical
      else if t \<in> im_english d then Some DC_English
      else None)"

fun exact_confidence :: "dictionary_class \<Rightarrow> confidence" where
  "exact_confidence DC_English = CONFIDENCE_ENGLISH_EXACT"
| "exact_confidence DC_Technical = CONFIDENCE_TECHNICAL_EXACT"
| "exact_confidence DC_Product = CONFIDENCE_TECHNICAL_EXACT"
| "exact_confidence DC_User = CONFIDENCE_CERTAIN"

subsection \<open>Vietnamese letters\<close>

definition VIETNAMESE_RANGES :: "(scalar \<times> scalar) list" where
  "VIETNAMESE_RANGES =
     [(0xC0, 0xC3), (0xC8, 0xCA), (0xCC, 0xCD), (0xD2, 0xD5), (0xD9, 0xDA), (0xDD, 0xDD),
      (0xE0, 0xE3), (0xE8, 0xEA), (0xEC, 0xED), (0xF2, 0xF5), (0xF9, 0xFA), (0xFD, 0xFD),
      (0x102, 0x103), (0x110, 0x111), (0x128, 0x129), (0x168, 0x169), (0x1A0, 0x1B0), (0x1EA0, 0x1EF9)]"

definition vietnamese_letter :: "scalar \<Rightarrow> bool" where
  "vietnamese_letter c = list_ex (\<lambda>(lo, hi). lo \<le> c \<and> c \<le> hi) VIETNAMESE_RANGES"

definition is_vietnamese_candidate :: "ustr \<Rightarrow> bool" where
  "is_vietnamese_candidate text = list_ex vietnamese_letter text"

subsection \<open>The classifier\<close>

record detection_request =
  rq_raw :: ustr
  rq_rendered :: ustr
  rq_boundary :: token_boundary
  rq_context :: input_context

datatype lexical_evidence =
    LE_Candidate ustr confidence decision_reason
  | LE_NeverTransform
  | LE_VietnameseCandidate
  | LE_Unsupported
  | LE_Unknown

text \<open>The dictionary provider of the classifier is its lookup function.\<close>

definition classifier_classify ::
  "unicode \<Rightarrow> (ustr \<Rightarrow> dictionary_class option) \<Rightarrow> detection_request \<Rightarrow> lexical_evidence" where
  "classifier_classify U dictionaries request =
     (if rq_raw request = [] \<or> \<not> is_ascii_str (rq_raw request) \<or> rq_boundary request = TB_Unknown
        then LE_Unsupported
      else if classify_never_transform U (rq_raw request) \<noteq> None then LE_NeverTransform
      else
        (case (if rq_raw request \<noteq> rq_rendered request then dictionaries (rq_raw request) else None) of
           Some class \<Rightarrow>
             LE_Candidate (rq_raw request) (exact_confidence class) (class_reason class)
         | None \<Rightarrow>
             if is_vietnamese_candidate (rq_rendered request) then LE_VietnameseCandidate
             else LE_Unknown))"

subsection \<open>Properties of the pattern tests\<close>

lemma list_ex_alphabetic_ascii:
  "is_ascii_str s \<Longrightarrow> list_ex (is_alphabetic U) s = list_ex is_ascii_alphabetic s"
  by (induction s) (auto simp: is_alphabetic_def)

text \<open>On the ASCII tokens the classifier asks about, the Unicode table plays no role.\<close>

lemma classify_never_transform_ascii:
  "is_ascii_str token \<Longrightarrow> classify_never_transform U token = classify_never_transform V token"
  by (simp only: classify_never_transform_def list_ex_alphabetic_ascii)

lemma starts_with_hd: "starts_with [c] s \<longleftrightarrow> s \<noteq> [] \<and> hd s = c"
  by (cases s) (auto simp: starts_with_def)

lemma unprotected_guards:
  assumes "classify_never_transform U token = None" and "token \<noteq> []"
  shows "\<not> (contains_sub (lit ''://'') (ascii_lower token) \<or>
      starts_with (lit ''mailto:'') (ascii_lower token) \<or> starts_with (lit ''urn:'') (ascii_lower token)) \<and>
    \<not> looks_like_email token \<and> \<not> starts_with (lit ''-'') token \<and>
    \<not> starts_with (lit ''/'') token \<and> 92 \<notin> set token \<and> \<not> looks_like_secret token \<and>
    \<not> looks_like_domain token \<and> chr CHR ''_'' \<notin> set token \<and>
    \<not> (chr CHR ''-'' \<in> set token \<and> list_ex (is_alphabetic U) token) \<and>
    \<not> has_internal_uppercase token"
proof -
  have step: "\<not> b \<and> r = None" if "(if b then Some x else r) = None" for b r and x :: never_transform_kind
    using that by (cases b) auto
  note g = assms(1) [unfolded classify_never_transform_def Let_def if_not_P [OF assms(2)]]
  note g = step [OF g]
  note g1 = conjunct1 [OF g]  note g = step [OF conjunct2 [OF g]]
  note g2 = conjunct1 [OF g]  note g = step [OF conjunct2 [OF g]]
  note g3 = conjunct1 [OF g]  note g = step [OF conjunct2 [OF g]]
  note g4 = conjunct1 [OF g]  note g = step [OF conjunct2 [OF g]]
  note g = step [OF conjunct2 [OF g]]
  note g = step [OF conjunct2 [OF g]]
  note g = step [OF conjunct2 [OF g]]
  note g = step [OF conjunct2 [OF g]]
  note g9 = conjunct1 [OF g]  note g = step [OF conjunct2 [OF g]]
  note g10 = conjunct1 [OF g]  note g = step [OF conjunct2 [OF g]]
  note g11 = conjunct1 [OF g]
  show ?thesis using g1 g2 g3 g4 g9 g10 g11 by blast
qed

text \<open>What is left unprotected has none of the structures the patterns name.\<close>

lemma unprotected_shape:
  assumes "classify_never_transform U token = None" and "token \<noteq> []"
  shows "chr CHR ''_'' \<notin> set token" "92 \<notin> set token"
    "hd token \<noteq> chr CHR ''-''" "hd token \<noteq> chr CHR ''/''"
    "\<not> has_internal_uppercase token" "\<not> looks_like_domain token" "\<not> looks_like_email token"
    "\<not> contains_sub (lit ''://'') (ascii_lower token)" "\<not> looks_like_secret token"
    "chr CHR ''-'' \<in> set token \<Longrightarrow> \<not> list_ex (is_alphabetic U) token"
  using unprotected_guards [OF assms] assms(2) by (simp_all add: starts_with_hd)

lemma capital_shape:
  assumes "list_all is_ascii_alphabetic w" and "\<not> has_internal_uppercase w"
  shows "w = ascii_lower w \<or> list_all is_ascii_uppercase w \<or>
    (\<exists>c r. w = c # r \<and> is_ascii_uppercase c \<and> list_all is_ascii_lowercase r)"
proof -
  have low: "to_ascii_lowercase c = c" if "is_ascii_lowercase c" for c
    using that by (auto simp: to_ascii_lowercase_def char_class_defs)
  show ?thesis
  proof (cases "list_ex is_ascii_lowercase w")
    case False
    then have "list_all is_ascii_uppercase w"
      using assms(1) by (auto simp: list_all_iff list_ex_iff is_ascii_alphabetic_def)
    then show ?thesis by simp
  next
    case True
    then obtain c r where w: "w = c # r" by (cases w) auto
    with True assms have r: "list_all is_ascii_lowercase r"
      by (auto simp: has_internal_uppercase_def list_all_iff list_ex_iff is_ascii_alphabetic_def)
    show ?thesis
    proof (cases "is_ascii_lowercase c")
      case True
      with r w have "map to_ascii_lowercase w = map id w"
        by (intro map_cong) (auto simp: list_all_iff low)
      then show ?thesis by simp
    next
      case False
      with assms(1) w r show ?thesis by (auto simp: is_ascii_alphabetic_def)
    qed
  qed
qed

subsection \<open>Properties of the dictionaries\<close>

lemma split_on_line:
  "10 \<notin> set l \<Longrightarrow> split_on 10 (l @ 10 # s) = l # split_on 10 s"
  by (induction l) auto

lemma lines_of_text:
  assumes "\<forall>l \<in> set ls. 10 \<notin> set l \<and> (l = [] \<or> last l \<noteq> 13)"
  shows "lines_of (text_of_lines ls) = ls"
proof -
  have "split_on 10 (text_of_lines ls) = ls @ [[]]"
    using assms by (induction ls) (auto simp: text_of_lines_def split_on_line)
  moreover have "map strip_cr ls = ls"
    using assms by (intro map_idI) (auto simp: strip_cr_def)
  ultimately show ?thesis by (simp add: lines_of_def)
qed

definition dictionary_words :: "ustr list \<Rightarrow> ustr list" where
  "dictionary_words ls = drop 1 ls"

definition word_line :: "ustr \<Rightarrow> bool" where
  "word_line w \<longleftrightarrow> w \<noteq> [] \<and> list_all is_ascii_lowercase w"

lemma word_line_facts:
  assumes "word_line w"
  shows "trim_ws w = w" "\<not> starts_with (lit ''#'') w" "ascii_lower w = w" "10 \<notin> set w" "last w \<noteq> 13"
proof -
  have c: "is_ascii_lowercase c" if "c \<in> set w" for c
    using that assms by (auto simp: word_line_def list_all_iff)
  then have ws: "\<not> is_whitespace c" if "c \<in> set w" for c
    using c [OF that] by (auto simp: char_class_defs)
  have "dropWhile is_whitespace w = w" using ws by (cases w) auto
  moreover have "dropWhile is_whitespace (rev w) = rev w"
    using ws by (cases "rev w") (auto dest: arg_cong [where f = set])
  ultimately show "trim_ws w = w" by (simp add: trim_ws_def)
  have ne: "w \<noteq> []" using assms by (simp add: word_line_def)
  show "\<not> starts_with (lit ''#'') w"
    using c [OF hd_in_set [OF ne]] by (auto simp: starts_with_hd is_ascii_lowercase_def)
  show "ascii_lower w = w"
    using c by (intro map_idI) (force simp: to_ascii_lowercase_def is_ascii_uppercase_def is_ascii_lowercase_def)
  show "10 \<notin> set w" using c [of 10] by (auto simp: is_ascii_lowercase_def)
  show "last w \<noteq> 13" using c [OF last_in_set [OF ne]] by (auto simp: is_ascii_lowercase_def)
qed

text \<open>A dictionary file: one comment line, then lowercase words.\<close>

definition wf_dictionary :: "ustr list \<Rightarrow> bool" where
  "wf_dictionary ls \<longleftrightarrow>
     (\<exists>h ws. ls = h # ws \<and> starts_with (lit ''#'') (trim_ws h) \<and> 10 \<notin> set h \<and> last h \<noteq> 13 \<and>
        list_all word_line ws)"

lemma wf_dictionaries:
  "wf_dictionary products_lines" "wf_dictionary it_common_lines" "wf_dictionary en_common_lines"
  by (simp_all add: wf_dictionary_def products_lines_def it_common_lines_def en_common_lines_def
      trim_ws_def starts_with_def is_whitespace_def word_line_def is_ascii_lowercase_def)

lemma contains_entry_words:
  assumes "wf_dictionary ls"
  shows "contains_entry (text_of_lines ls) token \<longleftrightarrow> ascii_lower token \<in> set (dictionary_words ls)"
proof -
  obtain h ws where ls: "ls = h # ws" and h: "starts_with (lit ''#'') (trim_ws h)" "10 \<notin> set h"
      "last h \<noteq> 13" and ws: "\<forall>w \<in> set ws. word_line w"
    using assms by (auto simp: wf_dictionary_def list_all_iff)
  have "lines_of (text_of_lines ls) = ls"
    using h ws word_line_facts(4,5) by (intro lines_of_text) (auto simp: ls)
  then show ?thesis
    using ws word_line_facts(1-3) h(1)
    by (auto simp: contains_entry_def ls dictionary_words_def list_ex_iff Let_def
        eq_ignore_ascii_case_def word_line_def)
qed

lemma ascii_lower_lower [simp]: "ascii_lower (ascii_lower t) = ascii_lower t"
  by (simp add: comp_def)

lemma built_in_classify_words:
  "built_in_classify t =
     (if ascii_lower t \<in> set (dictionary_words products_lines) then Some DC_Product
      else if ascii_lower t \<in> set (dictionary_words it_common_lines) then Some DC_Technical
      else if ascii_lower t \<in> set (dictionary_words en_common_lines) then Some DC_English
      else None)"
  by (simp add: built_in_classify_def contains_entry_words wf_dictionaries comp_def Let_def)

lemma in_memory_insert:
  "in_memory_classify (dictionary_insert d DC_User entry) entry = Some DC_User"
  "in_memory_classify d entry = None \<Longrightarrow>
     in_memory_classify (dictionary_insert d class entry) entry = Some class"
  by (cases "class"; auto simp: in_memory_classify_def dictionary_insert_def Let_def split: if_splits)+

subsection \<open>The dictionary interface\<close>

locale dictionary_provider =
  fixes classify :: "ustr \<Rightarrow> dictionary_class option"
  assumes classify_lower: "classify (ascii_lower token) = classify token"
begin

lemma classify_case:
  "ascii_lower a = ascii_lower b \<Longrightarrow> classify a = classify b"
  by (metis classify_lower)

lemma candidateD:
  assumes "classifier_classify U classify rq = LE_Candidate text conf reason"
  shows "text = rq_raw rq" "rq_raw rq \<noteq> rq_rendered rq" "is_ascii_str (rq_raw rq)"
    "rq_raw rq \<noteq> []" "classify_never_transform U (rq_raw rq) = None"
    "\<exists>class. classify (ascii_lower (rq_raw rq)) = Some class \<and>
       conf = exact_confidence class \<and> reason = class_reason class"
  using assms by (auto simp: classifier_classify_def classify_lower split: if_splits option.splits)

text \<open>The evidence for two spellings of one word differs in the text only.\<close>

lemma candidate_case_insensitive:
  assumes "classifier_classify U classify rq = LE_Candidate text conf reason"
    and "ascii_lower other = ascii_lower (rq_raw rq)" and "is_ascii_str other"
    and "classify_never_transform U other = None" and "other \<noteq> rq_rendered rq"
    and "rq_boundary rq \<noteq> TB_Unknown"
  shows "classifier_classify U classify (rq\<lparr>rq_raw := other\<rparr>) = LE_Candidate other conf reason"
proof -
  have "other \<noteq> []" using assms(2) candidateD(4) [OF assms(1)] by auto
  moreover have "classify other = classify (rq_raw rq)" by (rule classify_case [OF assms(2)])
  ultimately show ?thesis
    using assms by (auto simp: classifier_classify_def split: if_splits option.splits)
qed

end

interpretation built_in: dictionary_provider built_in_classify
  by unfold_locales (simp add: built_in_classify_def comp_def Let_def)

interpretation in_memory: dictionary_provider "in_memory_classify d" for d
  by unfold_locales (simp add: in_memory_classify_def comp_def Let_def)

lemma wf_dictionary_words: "wf_dictionary ls \<Longrightarrow> list_all word_line (dictionary_words ls)"
  by (auto simp: wf_dictionary_def dictionary_words_def)

text \<open>With the embedded dictionaries a candidate is a spelling of a listed word.\<close>

lemma built_in_word:
  assumes "built_in_classify t = Some class"
  shows "list_all is_ascii_alphabetic t"
    "ascii_lower t \<in> set (dictionary_words products_lines @ dictionary_words it_common_lines @
       dictionary_words en_common_lines)"
proof -
  show w: "ascii_lower t \<in> set (dictionary_words products_lines @ dictionary_words it_common_lines @
       dictionary_words en_common_lines)"
    using assms by (auto simp: built_in_classify_words split: if_splits)
  have "list_all word_line (dictionary_words products_lines @ dictionary_words it_common_lines @
       dictionary_words en_common_lines)"
    using wf_dictionaries wf_dictionary_words by simp
  with w have "word_line (ascii_lower t)" by (auto simp: list_all_iff)
  then show "list_all is_ascii_alphabetic t"
    by (auto simp: word_line_def list_all_iff to_ascii_lowercase_def char_class_defs split: if_splits)
qed

text \<open>
  The classifier proposes only what a dictionary lists: a candidate is the raw ASCII token
  itself, its rendering differs, no protected pattern matches it, it is a spelling (all lower, all
  upper or capitalised) of a word of an embedded dictionary, and the evidence is that of its class;
  its classification does not depend on the spelling.
\<close>

lemma candidate_is_listed_word:
  assumes "classifier_classify U built_in_classify rq = LE_Candidate w conf reason"
  shows "w = rq_raw rq \<and> w \<noteq> rq_rendered rq \<and> classify_never_transform U w = None \<and>
    ascii_lower w \<in> set (dictionary_words products_lines @ dictionary_words it_common_lines @
      dictionary_words en_common_lines) \<and>
    (w = ascii_lower w \<or> list_all is_ascii_uppercase w \<or>
      (\<exists>c r. w = c # r \<and> is_ascii_uppercase c \<and> list_all is_ascii_lowercase r)) \<and>
    (\<exists>k. built_in_classify (ascii_lower w) = Some k \<and> conf = exact_confidence k \<and> reason = class_reason k)"
proof -
  note c = built_in.candidateD [OF assms]
  obtain k where k: "built_in_classify (ascii_lower (rq_raw rq)) = Some k"
    using c(6) by blast
  then have k': "built_in_classify (rq_raw rq) = Some k" by (simp add: built_in.classify_lower)
  have "\<not> has_internal_uppercase (rq_raw rq)" by (rule unprotected_shape(5) [OF c(5,4)])
  from capital_shape [OF built_in_word(1) [OF k'] this] built_in_word(2) [OF k'] c
  show ?thesis by auto
qed

lemma candidate_is_listed_word_witness:
  "classifier_classify scalar_unicode built_in_classify
     \<lparr>rq_raw = lit ''DNS'', rq_rendered = [68, 78, 0x15A], rq_boundary = TB_Space, rq_context = IC_Writing\<rparr> =
     LE_Candidate (lit ''DNS'') CONFIDENCE_TECHNICAL_EXACT DR_ExactTechnicalDictionary \<and>
   ascii_lower (lit ''DNS'') \<in> set (dictionary_words products_lines @ dictionary_words it_common_lines @
      dictionary_words en_common_lines)"
proof -
  have n: "classify_never_transform scalar_unicode (lit ''DNS'') = None" by code_simp
  have b: "built_in_classify (lit ''DNS'') = Some DC_Technical"
    by (simp add: built_in_classify_words dictionary_words_def products_lines_def it_common_lines_def
        to_ascii_lowercase_def is_ascii_uppercase_def)
  have c: "classifier_classify scalar_unicode built_in_classify
     \<lparr>rq_raw = lit ''DNS'', rq_rendered = [68, 78, 0x15A], rq_boundary = TB_Space, rq_context = IC_Writing\<rparr> =
     LE_Candidate (lit ''DNS'') CONFIDENCE_TECHNICAL_EXACT DR_ExactTechnicalDictionary"
    using n b by (simp add: classifier_classify_def is_ascii_def)
  from candidate_is_listed_word [OF c] c show ?thesis by blast
qed

subsection \<open>Lower-case words are never protected\<close>

lemma split_by_none: "\<not> list_ex p s \<Longrightarrow> split_by p s = [s]"
  by (induction s) auto

lemma starts_with_char: "starts_with p s \<Longrightarrow> c \<in> set p \<Longrightarrow> c \<in> set s"
  by (metis in_set_takeD starts_with_def)

lemma contains_sub_char: "contains_sub p s \<Longrightarrow> c \<in> set p \<Longrightarrow> c \<in> set s"
proof (induction p s rule: contains_sub.induct)
  case (2 p x s)
  then show ?case using starts_with_char [of p "x # s" c] by auto
qed simp

text \<open>A lower-case word contains no character that any protected pattern asks for.\<close>

lemma lowercase_no: "list_all is_ascii_lowercase w \<Longrightarrow> c < 97 \<or> 122 < c \<Longrightarrow> c \<notin> set w"
  by (auto simp: list_all_iff is_ascii_lowercase_def)

lemma lowercase_split_by:
  "list_all is_ascii_lowercase w \<Longrightarrow> (\<And>c. p c \<Longrightarrow> c < 97 \<or> 122 < c) \<Longrightarrow> split_by p w = [w]"
  using lowercase_no by (intro split_by_none) (fastforce simp: list_ex_iff)

lemma lowercase_starts:
  "list_all is_ascii_lowercase w \<Longrightarrow> c \<in> set p \<Longrightarrow> c < 97 \<or> 122 < c \<Longrightarrow> \<not> starts_with p w"
  using starts_with_char [of p w c] lowercase_no by auto

lemma lowercase_contains:
  "list_all is_ascii_lowercase w \<Longrightarrow> c \<in> set p \<Longrightarrow> c < 97 \<or> 122 < c \<Longrightarrow> \<not> contains_sub p w"
  using contains_sub_char [of p w c] lowercase_no by auto

lemma lowercase_ex:
  "list_all is_ascii_lowercase w \<Longrightarrow> (\<And>c. p c \<Longrightarrow> c < 97 \<or> 122 < c) \<Longrightarrow> \<not> list_ex p w"
  using lowercase_no by (fastforce simp: list_ex_iff)

lemma lowercase_unstructured:
  assumes w: "list_all is_ascii_lowercase w"
  shows "\<not> looks_like_domain w" "\<not> looks_like_ipv4 w" "\<not> looks_like_uuid w" "\<not> looks_like_email w"
    "\<not> looks_like_windows_path w" "\<not> looks_like_ipv6 w"
proof -
  have dots: "split_on 46 w = [w]" "split_on 45 w = [w]" by (auto intro!: lowercase_split_by [OF w])
  show "\<not> looks_like_domain w" "\<not> looks_like_ipv4 w" "\<not> looks_like_uuid w"
    by (simp_all add: looks_like_domain_def looks_like_ipv4_def looks_like_uuid_def dots)
  have "split_once 64 w = None" using lowercase_no [OF w, of 64] by (simp add: split_once_None)
  then show "\<not> looks_like_email w" by (simp add: looks_like_email_def)
  have r: "97 \<le> c \<and> c \<le> 122" if "c \<in> set w" for c
    using that w by (auto simp: list_all_iff is_ascii_lowercase_def)
  then have "is_ascii_str w" by (force simp: is_ascii_str_def list_all_iff is_ascii_def)
  then have "utf8 w = map byte_of w" by (induction w) (auto simp: utf8_ascii)
  then have "unat b \<noteq> 58" if "b \<in> set (utf8 w)" for b
    using that r by force
  then show "\<not> looks_like_windows_path w"
    by (auto simp: looks_like_windows_path_def split: list.splits)
  show "\<not> looks_like_ipv6 w" using lowercase_no [OF w, of 58] by (simp add: looks_like_ipv6_def)
qed

lemma lowercase_unmarked:
  assumes w: "list_all is_ascii_lowercase w"
  shows "\<not> looks_like_semver w" "\<not> looks_like_hex_or_hash w" "\<not> looks_like_secret w" "\<not> has_internal_uppercase w"
proof -
  note no = lowercase_no [OF w]
  define v where "v = (case strip_prefix (lit ''v'') w of Some r \<Rightarrow> r | None \<Rightarrow> w)"
  have "set v \<subseteq> set w" by (auto simp: v_def strip_prefix_Some split: option.splits)
  then have "split_by (\<lambda>c. c = 45 \<or> c = 43) v = [v]" "split_on 46 v = [v]"
    using no [of 45] no [of 43] no [of 46] by (auto intro!: split_by_none simp: list_ex_iff)
  then show "\<not> looks_like_semver w"
    unfolding looks_like_semver_def v_def [symmetric] by simp
  have dig: "\<not> list_ex is_ascii_digit w" by (rule lowercase_ex [OF w]) (auto simp: is_ascii_digit_def)
  have "strip_prefix (lit ''0x'') w = None"
    using lowercase_starts [OF w, of 48 "lit ''0x''"] by (simp add: strip_prefix_def starts_with_def)
  with dig show "\<not> looks_like_hex_or_hash w"
    using lowercase_starts [OF w, of 48 "lit ''0x''"] by (simp add: looks_like_hex_or_hash_def)
  have up: "\<not> list_ex is_ascii_uppercase w" by (rule lowercase_ex [OF w]) (auto simp: is_ascii_uppercase_def)
  have up': "\<not> list_ex is_ascii_uppercase (drop 1 w)"
    using up by (auto simp: list_ex_iff dest: in_set_dropD)
  have an: "\<not> list_ex (\<lambda>c. \<not> is_ascii_alphanumeric c) w"
    using w by (auto simp: list_ex_iff list_all_iff is_ascii_alphanumeric_def is_ascii_alphabetic_def)
  show "\<not> looks_like_secret w" "\<not> has_internal_uppercase w"
    using lowercase_starts [OF w, of 65 "lit ''AKIA''"] up up' an dig
    by (auto simp: looks_like_secret_def has_internal_uppercase_def Let_def)
qed

lemma lowercase_unprotected:
  assumes w: "list_all is_ascii_lowercase w"
  shows "classify_never_transform U w = None"
proof (cases "w = []")
  case False
  have low: "ascii_lower w = w"
    using w by (intro map_idI) (force simp: list_all_iff is_ascii_lowercase_def to_ascii_lowercase_def is_ascii_uppercase_def)
  note starts = lowercase_starts [OF w]
  have 1: "\<not> contains_sub (lit ''://'') w" "\<not> starts_with (lit ''mailto:'') w" "\<not> starts_with (lit ''urn:'') w"
    "\<not> starts_with (lit ''-'') w" "\<not> starts_with (lit ''/'') w" "\<not> starts_with (lit ''./'') w"
    "\<not> starts_with (lit ''../'') w" "\<not> starts_with [92, 92] w"
    using lowercase_contains [OF w, of 58 "lit ''://''"] starts [of 58 "lit ''mailto:''"] starts [of 58 "lit ''urn:''"]
      starts [of 45 "lit ''-''"] starts [of 47 "lit ''/''"] starts [of 47 "lit ''./''"]
      starts [of 47 "lit ''../''"] starts [of 92 "[92, 92]"] by simp_all
  have 2: "92 \<notin> set w" "95 \<notin> set w" "45 \<notin> set w" using lowercase_no [OF w] by auto
  show ?thesis
    unfolding classify_never_transform_def Let_def low
    using lowercase_unstructured [OF w] lowercase_unmarked [OF w] 1 2 False by simp
qed (simp add: classify_never_transform_def)

end
