(* ===== verification/Policy.thy ===== *)
theory Policy
  imports Detect Telex
begin

text \<open>
  Crate zonkey-policy: the default-deny recovery policy, and the pipeline that the service runs
  at a token boundary (Telex rendering, classification, policy).
\<close>

definition DEFAULT_AUTO_RECOVERY_THRESHOLD :: confidence where
  "DEFAULT_AUTO_RECOVERY_THRESHOLD = CONFIDENCE_ENGLISH_EXACT"

definition TECHNICAL_EDITOR_THRESHOLD :: confidence where
  "TECHNICAL_EDITOR_THRESHOLD = CONFIDENCE_TECHNICAL_EXACT"

record policy_outcome =
  po_decision :: recovery_decision
  po_edit_plan :: "edit_plan option"

definition keep :: "decision_reason \<Rightarrow> policy_outcome" where
  "keep reason = \<lparr>po_decision = RD_KeepVietnamese reason, po_edit_plan = None\<rparr>"

definition permits_candidate :: "input_context \<Rightarrow> confidence \<Rightarrow> decision_reason \<Rightarrow> bool" where
  "permits_candidate context confidence reason =
     (case context of
        IC_Writing \<Rightarrow> confidence_ge confidence DEFAULT_AUTO_RECOVERY_THRESHOLD
      | IC_TechnicalEditor \<Rightarrow>
          confidence_ge confidence TECHNICAL_EDITOR_THRESHOLD \<and>
          reason \<in> {DR_ExactTechnicalDictionary, DR_ExactProductDictionary, DR_UserAllowList}
      | _ \<Rightarrow> False)"

definition decide :: "unicode \<Rightarrow> lexical_evidence \<Rightarrow> input_context \<Rightarrow> ustr \<Rightarrow> policy_outcome" where
  "decide U evidence context text_rendered =
     (if context \<in> {IC_Terminal, IC_Secure, IC_Remote, IC_Unknown} then keep DR_ContextBlocked
      else
        (case evidence of
           LE_Candidate text confidence reason \<Rightarrow>
             if permits_candidate context confidence reason then
               \<lparr>po_decision = RD_RestoreEnglish text confidence reason,
                po_edit_plan = Some (edit_plan_between U text_rendered text)\<rparr>
             else
               \<lparr>po_decision = RD_Ambiguous confidence DR_InsufficientConfidence, po_edit_plan = None\<rparr>
         | LE_NeverTransform \<Rightarrow> keep DR_NeverTransformPattern
         | LE_VietnameseCandidate \<Rightarrow> keep DR_VietnameseCandidate
         | LE_Unsupported \<Rightarrow> keep DR_UnsupportedInput
         | LE_Unknown \<Rightarrow>
             \<lparr>po_decision = RD_Ambiguous CONFIDENCE_ZERO DR_InsufficientConfidence,
              po_edit_plan = None\<rparr>))"

lemma decide_restore:
  assumes "po_decision (decide U ev ctx r) = RD_RestoreEnglish text conf reason"
  shows "ev = LE_Candidate text conf reason" "permits_candidate ctx conf reason"
    "ctx = IC_Writing \<or> ctx = IC_TechnicalEditor"
    "po_edit_plan (decide U ev ctx r) = Some (edit_plan_between U r text)"
  using assms
  by (cases ctx; auto simp: decide_def keep_def split: lexical_evidence.splits if_splits)+

lemma decide_edit_plan:
  "po_edit_plan (decide U ev ctx r) \<noteq> None \<longleftrightarrow>
     (\<exists>text conf reason. po_decision (decide U ev ctx r) = RD_RestoreEnglish text conf reason)"
  by (auto simp: decide_def keep_def split: lexical_evidence.splits if_splits)

text \<open>Every listed confidence is good enough for writing, English alone is not for code.\<close>

lemma permits_exact:
  "permits_candidate IC_Writing (exact_confidence class) (class_reason class)"
  "permits_candidate IC_TechnicalEditor (exact_confidence class) (class_reason class) \<longleftrightarrow>
     class \<noteq> DC_English"
  by (cases "class"; simp add: permits_candidate_def DEFAULT_AUTO_RECOVERY_THRESHOLD_def
      TECHNICAL_EDITOR_THRESHOLD_def confidence_defs)+

subsection \<open>Rendered text and the Vietnamese test\<close>

definition telex_letter :: "scalar \<Rightarrow> bool" where
  "telex_letter c \<longleftrightarrow> is_ascii c \<or> c = D_STROKE \<or> c \<in> set (concat VOWELS)"

lemma telex_letter_encode [simp]: "telex_letter (encode_vowel s t)"
  using decode_vowel_in_table [of "encode_vowel s t"] by (simp add: telex_letter_def)

lemma telex_letter_d [simp]: "telex_letter D_STROKE" "telex_letter 100"
  by (simp_all add: telex_letter_def is_ascii_def)

lemma list_all_update: "list_all P xs \<Longrightarrow> P x \<Longrightarrow> list_all P (xs[i := x])"
  by (auto simp: list_all_iff dest!: set_update_subset_insert [THEN subsetD])

lemma list_all_butlast: "list_all P xs \<Longrightarrow> list_all P (butlast xs)"
  by (auto simp: list_all_iff dest: in_set_butlastD)

text \<open>A step only writes letters of the table, the two forms of d and the key itself.\<close>

lemma compose_step_closed:
  assumes "\<And>s t. P (encode_vowel s t)" and d: "P D_STROKE" "P 100" and "list_all P out" and c: "P c"
  shows "list_all P (compose_step out c)"
proof -
  have t: "list_all P (snd (try_tone o' c))" if "list_all P o'" for o'
    using that assms(1) by (auto simp: try_tone_def intro!: list_all_update split: option.splits prod.splits)
  have "list_all P (snd (try_shape_transform out c))"
    using assms by (auto simp: try_shape_transform_def list_all_butlast
        split: option.splits prod.splits shape_transition.splits)
  with t [of "snd (try_shape_transform out c)"] c show ?thesis
    by (auto simp: compose_step_def split: prod.splits)
qed

lemma telex_letters_step:
  assumes "list_all telex_letter out" and "is_ascii c"
  shows "list_all telex_letter (compose_step out c)"
  using assms by (intro compose_step_closed) (auto simp: telex_letter_def [of c])

lemma telex_letters_compose:
  assumes "compose raw = Inr r"
  shows "list_all telex_letter r"
proof -
  have a: "is_ascii_str raw" by (rule compose_facts(4) [OF assms])
  have "list_all telex_letter (foldl compose_step out cs)"
    if "list_all telex_letter out" "is_ascii_str cs" for out cs
    using that by (induction cs arbitrary: out) (auto intro: telex_letters_step)
  from this [of "[]" raw] a assms show ?thesis by (simp add: compose_ascii)
qed

lemma telex_letter_vietnamese: "telex_letter c \<Longrightarrow> \<not> is_ascii c \<Longrightarrow> vietnamese_letter c"
proof -
  assume "telex_letter c" and na: "\<not> is_ascii c"
  then have "c \<in> set (filter (\<lambda>c. \<not> is_ascii c) (D_STROKE # concat VOWELS))"
    by (auto simp: telex_letter_def)
  moreover have "list_all vietnamese_letter (filter (\<lambda>c. \<not> is_ascii c) (D_STROKE # concat VOWELS))"
    by (simp add: VOWELS_def D_STROKE_def is_ascii_def vietnamese_letter_def VIETNAMESE_RANGES_def)
  ultimately show ?thesis by (auto simp: list_all_iff)
qed

lemma compose_vietnamese:
  assumes "compose raw = Inr r"
  shows "is_vietnamese_candidate r \<longleftrightarrow> \<not> is_ascii_str r"
proof -
  have v: "\<not> is_ascii c" if "vietnamese_letter c" for c
    using that by (auto simp: vietnamese_letter_def VIETNAMESE_RANGES_def is_ascii_def)
  show ?thesis
    using telex_letters_compose [OF assms] telex_letter_vietnamese v
    by (auto simp: is_vietnamese_candidate_def is_ascii_str_def list_all_iff list_ex_iff)
qed

text \<open>
  C11. The recovery policy denies by default.  It restores a word exactly when the evidence is a
  dictionary candidate for that word and either the context is writing and the confidence is at
  least the \<open>f32\<close> next to 0.98, or the context is a technical editor, the confidence is at least the one
  next to 0.99 and the reason is a technical term, a product name or the user's own list; an English
  word is never restored in a technical editor.  An edit plan is issued exactly then, and turns the
  rendered text into the word.  Every other context is answered by keeping the text.
\<close>

theorem policy_default_deny:
  assumes "segmentation U"
  shows "(po_decision (decide U ev ctx r) = RD_RestoreEnglish w (Confidence v) d \<longleftrightarrow>
      ev = LE_Candidate w (Confidence v) d \<and>
      (ctx = IC_Writing \<and> f32_le (F32_Finite (16441672 * 2 ^ 125)) v \<or>
       ctx = IC_TechnicalEditor \<and> f32_le (F32_Finite (16609444 * 2 ^ 125)) v \<and>
         d \<noteq> DR_ExactEnglishDictionary \<and>
         (d = DR_ExactTechnicalDictionary \<or> d = DR_ExactProductDictionary \<or> d = DR_UserAllowList))) \<and>
    (po_edit_plan (decide U ev ctx r) \<noteq> None \<longleftrightarrow>
      (\<exists>w c d. po_decision (decide U ev ctx r) = RD_RestoreEnglish w c d)) \<and>
    (po_decision (decide U ev ctx r) = RD_RestoreEnglish w (Confidence v) d \<longrightarrow>
      (\<exists>plan. po_edit_plan (decide U ev ctx r) = Some plan \<and> apply_edit_plan U r plan = w)) \<and>
    (ctx \<noteq> IC_Writing \<and> ctx \<noteq> IC_TechnicalEditor \<longrightarrow>
      po_decision (decide U ev ctx r) = RD_KeepVietnamese DR_ContextBlocked)"
proof (intro conjI impI)
  show "po_decision (decide U ev ctx r) = RD_RestoreEnglish w (Confidence v) d \<longleftrightarrow>
      ev = LE_Candidate w (Confidence v) d \<and>
      (ctx = IC_Writing \<and> f32_le (F32_Finite (16441672 * 2 ^ 125)) v \<or>
       ctx = IC_TechnicalEditor \<and> f32_le (F32_Finite (16609444 * 2 ^ 125)) v \<and>
         d \<noteq> DR_ExactEnglishDictionary \<and>
         (d = DR_ExactTechnicalDictionary \<or> d = DR_ExactProductDictionary \<or> d = DR_UserAllowList))"
    by (cases ev; cases ctx)
      (auto simp: decide_def keep_def permits_candidate_def DEFAULT_AUTO_RECOVERY_THRESHOLD_def
        TECHNICAL_EDITOR_THRESHOLD_def confidence_ge_def CONFIDENCE_ENGLISH_EXACT_def CONFIDENCE_TECHNICAL_EXACT_def)
  show "po_edit_plan (decide U ev ctx r) \<noteq> None \<longleftrightarrow>
      (\<exists>w c d. po_decision (decide U ev ctx r) = RD_RestoreEnglish w c d)"
    by (rule decide_edit_plan)
  show "\<exists>plan. po_edit_plan (decide U ev ctx r) = Some plan \<and> apply_edit_plan U r plan = w"
    if "po_decision (decide U ev ctx r) = RD_RestoreEnglish w (Confidence v) d"
    using decide_restore(4) [OF that] apply_edit_plan_between [OF assms] by auto
  show "po_decision (decide U ev ctx r) = RD_KeepVietnamese DR_ContextBlocked"
    if "ctx \<noteq> IC_Writing \<and> ctx \<noteq> IC_TechnicalEditor"
    using that by (cases ctx) (simp_all add: decide_def keep_def)
qed

lemma policy_default_deny_witness:
  "\<exists>plan. po_edit_plan (decide scalar_unicode
        (LE_Candidate (lit ''dns'') CONFIDENCE_TECHNICAL_EXACT DR_ExactTechnicalDictionary)
        IC_TechnicalEditor [100, 0x144]) = Some plan \<and>
      apply_edit_plan scalar_unicode [100, 0x144] plan = lit ''dns'' \<and>
      po_edit_plan (decide scalar_unicode
        (LE_Candidate (lit ''test'') CONFIDENCE_ENGLISH_EXACT DR_ExactEnglishDictionary)
        IC_TechnicalEditor [116, 0xE9, 116]) = None \<and>
      po_decision (decide scalar_unicode LE_Unknown IC_Terminal []) = RD_KeepVietnamese DR_ContextBlocked"
proof -
  note d = policy_default_deny [OF segmentation_scalar_unicode]
  let ?dns = "decide scalar_unicode (LE_Candidate (lit ''dns'') CONFIDENCE_TECHNICAL_EXACT DR_ExactTechnicalDictionary)
    IC_TechnicalEditor [100, 0x144]"
  let ?test = "decide scalar_unicode (LE_Candidate (lit ''test'') CONFIDENCE_ENGLISH_EXACT DR_ExactEnglishDictionary)
    IC_TechnicalEditor [116, 0xE9, 116]"
  have 1: "po_decision ?dns = RD_RestoreEnglish (lit ''dns'') (Confidence (F32_Finite (16609444 * 2 ^ 125))) DR_ExactTechnicalDictionary"
    unfolding CONFIDENCE_TECHNICAL_EXACT_def by (rule d [THEN conjunct1, THEN iffD2]) simp
  note dns = d [THEN conjunct2, THEN conjunct2, THEN conjunct1, THEN mp, OF 1]
  have "po_decision ?test \<noteq> RD_RestoreEnglish w c x" for w c x
  proof
    assume "po_decision ?test = RD_RestoreEnglish w c x"
    then have "po_decision ?test = RD_RestoreEnglish w (Confidence (confidence_get c)) x" by simp
    from d [THEN conjunct1, THEN iffD1, OF this] show False by auto
  qed
  then have test: "po_edit_plan ?test = None"
    using d [THEN conjunct2, THEN conjunct1] by blast
  have "po_decision (decide scalar_unicode LE_Unknown IC_Terminal []) = RD_KeepVietnamese DR_ContextBlocked"
    by (rule d [THEN conjunct2, THEN conjunct2, THEN conjunct2, THEN mp]) simp
  with dns test show ?thesis by blast
qed

end
