(* ===== verification/Boundary.thy ===== *)
theory Boundary
  imports Utf
begin

text \<open>
  The UTF-16 boundary validator of zonkey-service (\<open>lib.rs\<close>, \<open>validate_boundary\<close>): two
  samples of a standard EDIT control are accepted only when they agree, the control is supported
  and not secure, and the caret is an empty selection directly behind the expected text.
\<close>

subsection \<open>Samples and verdicts\<close>

datatype boundary_sample_status =
    BSS_Available
  | BSS_Failed
  | BSS_TimedOut

record boundary_control_evidence =
  bc_identity :: u64
  bc_supported :: bool
  bc_secure :: bool
  bc_style :: u32

record boundary_sample =
  bs_utf16_text :: "u16 list"
  bs_start :: nat
  bs_end :: nat
  bs_control :: boundary_control_evidence
  bs_status :: boundary_sample_status

datatype boundary_rejection =
    BR_SampleUnavailable
  | BR_SamplesDisagree
  | BR_IdentityChanged
  | BR_StyleChanged
  | BR_UnsupportedControl
  | BR_SecureControl
  | BR_SelectionNotEmpty
  | BR_IndexOutOfBounds
  | BR_InvalidRange
  | BR_MalformedUtf16
  | BR_SurrogateSplit
  | BR_PrefixMismatch

datatype boundary_validation =
    BV_BoundaryValidated
  | BV_Rejected boundary_rejection

definition is_well_formed_utf16 :: "u16 list \<Rightarrow> bool" where
  "is_well_formed_utf16 text = list_all (\<lambda>v. \<not> isl v) (decode_utf16 text)"

definition splits_surrogate :: "u16 list \<Rightarrow> nat \<Rightarrow> bool" where
  "splits_surrogate text index \<longleftrightarrow>
     0 < index \<and> index < length text \<and> is_high (text ! (index - 1)) \<and> is_low (text ! index)"

definition validate_boundary ::
  "boundary_sample \<Rightarrow> boundary_sample \<Rightarrow> ustr \<Rightarrow> boundary_validation" where
  "validate_boundary first second expected =
     (if bs_status first \<noteq> BSS_Available \<or> bs_status second \<noteq> BSS_Available
        then BV_Rejected BR_SampleUnavailable
      else if bc_identity (bs_control first) \<noteq> bc_identity (bs_control second)
        then BV_Rejected BR_IdentityChanged
      else if bc_style (bs_control first) \<noteq> bc_style (bs_control second)
        then BV_Rejected BR_StyleChanged
      else if bs_control first \<noteq> bs_control second \<or> bs_utf16_text first \<noteq> bs_utf16_text second \<or>
          bs_start first \<noteq> bs_start second \<or> bs_end first \<noteq> bs_end second
        then BV_Rejected BR_SamplesDisagree
      else if \<not> bc_supported (bs_control second) then BV_Rejected BR_UnsupportedControl
      else if bc_secure (bs_control second) then BV_Rejected BR_SecureControl
      else if bs_start second > length (bs_utf16_text second) \<or>
          bs_end second > length (bs_utf16_text second)
        then BV_Rejected BR_IndexOutOfBounds
      else if bs_start second > bs_end second then BV_Rejected BR_InvalidRange
      else if bs_start second \<noteq> bs_end second then BV_Rejected BR_SelectionNotEmpty
      else if \<not> is_well_formed_utf16 (bs_utf16_text second) then BV_Rejected BR_MalformedUtf16
      else if splits_surrogate (bs_utf16_text second) (bs_start second) \<or>
          splits_surrogate (bs_utf16_text second) (bs_end second)
        then BV_Rejected BR_SurrogateSplit
      else let expected_units = utf16 expected in
        if length expected_units > bs_start second \<or>
          take (length expected_units)
            (drop (bs_start second - length expected_units) (bs_utf16_text second)) \<noteq> expected_units
        then BV_Rejected BR_PrefixMismatch
        else BV_BoundaryValidated)"

subsection \<open>Well-formed UTF-16\<close>

lemma utf16_char_unit: "\<not> is_high u \<Longrightarrow> \<not> is_low u \<Longrightarrow> is_scalar (unat u) \<and> utf16_char (unat u) = [u]"
proof -
  assume nh: "\<not> is_high u" and nl: "\<not> is_low u"
  have "unat u < 65536" using unsigned_less [of u, where ?'a = nat] by simp
  moreover have "unit_of (unat u) = u" by (simp add: unit_of_def)
  ultimately show ?thesis
    using nh nl by (auto simp: is_scalar_def utf16_char_def is_high_def is_low_def)
qed

lemma utf16_char_pair:
  assumes "is_high u" and "is_low v"
  shows "is_scalar (0x10000 + (unat u - 0xD800) * 1024 + (unat v - 0xDC00)) \<and>
    utf16_char (0x10000 + (unat u - 0xD800) * 1024 + (unat v - 0xDC00)) = [u, v]"
proof -
  define a b where "a = unat u - 0xD800" and "b = unat v - 0xDC00"
  have ab: "a < 1024" "b < 1024" "0xD800 + a = unat u" "0xDC00 + b = unat v"
    using assms by (auto simp: a_def b_def is_high_def is_low_def)
  have "(a * 1024 + b) div 1024 = a" "(a * 1024 + b) mod 1024 = b" using ab by simp_all
  moreover have "unit_of (unat u) = u" "unit_of (unat v) = v" by (simp_all add: unit_of_def)
  ultimately have "is_scalar (0x10000 + a * 1024 + b) \<and> utf16_char (0x10000 + a * 1024 + b) = [u, v]"
    using ab by (auto simp: is_scalar_def utf16_char_def)
  then show ?thesis unfolding a_def b_def .
qed

text \<open>An accepted unit sequence is the encoding of a text.\<close>

lemma well_formed_utf16:
  "is_well_formed_utf16 us \<longleftrightarrow> (\<exists>s. valid_str s \<and> us = utf16 s)"
proof
  assume "is_well_formed_utf16 us"
  then show "\<exists>s. valid_str s \<and> us = utf16 s"
    unfolding is_well_formed_utf16_def
  proof (induction us rule: decode_utf16.induct)
    case 1
    show ?case by (intro exI [of _ "[]"]) simp
  next
    case (2 u)
    then show ?case
      by (intro exI [of _ "[unat u]"]) (auto simp: utf16_char_unit split: if_splits)
  next
    case (3 u v us)
    show ?case
    proof (cases "is_high u")
      case True
      with 3 have l: "is_low v" by (auto split: if_splits)
      with 3 True obtain s where "valid_str s" "us = utf16 s" by auto
      with utf16_char_pair [OF True l] show ?thesis
        by (intro exI [of _ "(0x10000 + (unat u - 0xD800) * 1024 + (unat v - 0xDC00)) # s"]) simp
    next
      case False
      with 3 have l: "\<not> is_low u" by (auto split: if_splits)
      with 3 False obtain s where "valid_str s" "v # us = utf16 s" by auto
      with utf16_char_unit [OF False l] show ?thesis
        by (intro exI [of _ "unat u # s"]) simp
    qed
  qed
qed (auto simp: is_well_formed_utf16_def decode_utf16_utf16 list_all_iff)

text \<open>A position that does not split a pair is a position between two scalars.\<close>

lemma utf16_char_cases:
  assumes "is_scalar c"
  obtains u where "utf16_char c = [u]" "\<not> is_high u" "\<not> is_low u"
  | u v where "utf16_char c = [u, v]" "is_high u" "is_low v"
proof (cases "c < 0x10000")
  case True
  with assms that(1) show thesis
    by (auto simp: utf16_char_def is_scalar_def is_high_def is_low_def)
next
  case False
  with assms have "(c - 0x10000) div 1024 < 1024" by (auto simp: is_scalar_def)
  with False that(2) show thesis
    by (auto simp: utf16_char_def is_high_def is_low_def)
qed

lemma scalar_position:
  assumes "valid_str s" and "i \<le> length (utf16 s)" and "\<not> splits_surrogate (utf16 s) i"
  shows "\<exists>p q. s = p @ q \<and> i = length (utf16 p)"
  using assms
proof (induction s arbitrary: i)
  case (Cons c s)
  show ?case
  proof (cases "i = 0")
    case False
    have len: "length (utf16_char c) \<le> i"
    proof (rule utf16_char_cases [of c])
      show "is_scalar c" using Cons.prems by simp
    next
      fix u v assume "utf16_char c = [u, v]" "is_high u" "is_low v"
      with Cons.prems False show ?thesis by (cases "i = 1") (auto simp: splits_surrogate_def)
    qed (use False in auto)
    have "\<not> splits_surrogate (utf16 s) (i - length (utf16_char c))"
    proof (cases "i - length (utf16_char c)")
      case (Suc k)
      with len have "i = length (utf16_char c) + Suc k" by simp
      with Cons.prems(3) Suc show ?thesis by (auto simp: splits_surrogate_def nth_append)
    qed (simp add: splits_surrogate_def)
    moreover have "i - length (utf16_char c) \<le> length (utf16 s)" using Cons.prems(2) by simp
    ultimately obtain p q where "s = p @ q" "i - length (utf16_char c) = length (utf16 p)"
      using Cons.IH [of "i - length (utf16_char c)"] Cons.prems(1) by auto
    with len show ?thesis by (intro exI [of _ "c # p"] exI [of _ q]) auto
  qed (intro exI [of _ "[]"] exI [of _ "c # s"], simp)
qed simp

lemma utf16_not_Nil: "s \<noteq> [] \<Longrightarrow> utf16 s \<noteq> []"
  by (cases s) (auto simp: utf16_char_def)

lemma hd_utf16_not_low: "valid_str s \<Longrightarrow> s \<noteq> [] \<Longrightarrow> \<not> is_low (hd (utf16 s))"
  by (cases s) (auto elim!: utf16_char_cases simp: is_high_def is_low_def)

lemma validated_facts:
  assumes "validate_boundary first second expected = BV_BoundaryValidated"
  shows "bs_status first = BSS_Available" "first = second\<lparr>bs_status := bs_status first\<rparr>"
    "bs_status second = BSS_Available"
    "bc_supported (bs_control second)" "\<not> bc_secure (bs_control second)"
    "bs_start second = bs_end second" "bs_start second \<le> length (bs_utf16_text second)"
    "is_well_formed_utf16 (bs_utf16_text second)"
    "\<not> splits_surrogate (bs_utf16_text second) (bs_start second)"
    "length (utf16 expected) \<le> bs_start second"
    "take (length (utf16 expected))
       (drop (bs_start second - length (utf16 expected)) (bs_utf16_text second)) = utf16 expected"
proof -
  have step: "\<not> b \<and> r = BV_BoundaryValidated"
    if "(if b then BV_Rejected x else r) = BV_BoundaryValidated" for b r x
    using that by (cases b) auto
  note g = step [OF assms [unfolded validate_boundary_def Let_def]]
  note g1 = conjunct1 [OF g]  note g = step [OF conjunct2 [OF g]]
  note g = step [OF conjunct2 [OF g]]
  note g = step [OF conjunct2 [OF g]]
  note g4 = conjunct1 [OF g]  note g = step [OF conjunct2 [OF g]]
  note g5 = conjunct1 [OF g]  note g = step [OF conjunct2 [OF g]]
  note g6 = conjunct1 [OF g]  note g = step [OF conjunct2 [OF g]]
  note g7 = conjunct1 [OF g]  note g = step [OF conjunct2 [OF g]]
  note g = step [OF conjunct2 [OF g]]
  note g9 = conjunct1 [OF g]  note g = step [OF conjunct2 [OF g]]
  note g10 = conjunct1 [OF g]  note g = step [OF conjunct2 [OF g]]
  note g11 = conjunct1 [OF g]  note g = step [OF conjunct2 [OF g]]
  note g12 = conjunct1 [OF g]
  show "bs_status first = BSS_Available" "bs_status second = BSS_Available"
    "first = second\<lparr>bs_status := bs_status first\<rparr>"
    using g1 g4 by (auto intro: boundary_sample.equality)
  show "bc_supported (bs_control second)" "\<not> bc_secure (bs_control second)"
    "bs_start second = bs_end second" "bs_start second \<le> length (bs_utf16_text second)"
    "is_well_formed_utf16 (bs_utf16_text second)"
    "\<not> splits_surrogate (bs_utf16_text second) (bs_start second)"
    using g5 g6 g7 g9 g10 g11 by auto
  show "length (utf16 expected) \<le> bs_start second"
    "take (length (utf16 expected))
       (drop (bs_start second - length (utf16 expected)) (bs_utf16_text second)) = utf16 expected"
    using g12 by auto
qed

text \<open>A well-formed text whose caret lies directly behind the expected units is cut there by scalars.\<close>

lemma expected_before_caret:
  assumes expected: "valid_str expected" and t: "is_well_formed_utf16 t" and i: "i \<le> length t" "\<not> splits_surrogate t i"
    and e: "length (utf16 expected) \<le> i"
      "take (length (utf16 expected)) (drop (i - length (utf16 expected)) t) = utf16 expected"
  obtains before behind where "valid_str (before @ behind)" "t = utf16 (before @ expected @ behind)"
    "i = length (utf16 (before @ expected))"
proof -
  let ?e = "utf16 expected"
  obtain s where s: "valid_str s" "t = utf16 s" using t well_formed_utf16 by auto
  obtain p q where pq: "s = p @ q" "i = length (utf16 p)"
    using scalar_position [OF s(1), of i] i s(2) by auto
  have "\<not> splits_surrogate (utf16 p) (i - length ?e)"
  proof (cases "expected = []")
    case False
    have "drop (i - length ?e) (utf16 p) = ?e" using e s(2) pq by simp
    moreover have "i - length ?e < length (utf16 p)"
      using e(1) pq(2) False utf16_not_Nil [of expected] by (cases ?e) auto
    ultimately have "hd ?e = utf16 p ! (i - length ?e)"
      using hd_drop_conv_nth [of "i - length ?e" "utf16 p"] by simp
    with hd_utf16_not_low [OF expected False] show ?thesis by (simp add: splits_surrogate_def)
  qed (use pq in \<open>simp add: splits_surrogate_def\<close>)
  then obtain a b where ab: "p = a @ b" "i - length ?e = length (utf16 a)"
    using scalar_position [of p "i - length ?e"] s pq by auto
  have "utf16 b = ?e" using e s(2) pq ab by simp
  then have "b = expected" using utf16_inject s pq ab expected by auto
  then show thesis using that [of a q] s pq ab by auto
qed

text \<open>Conversely, the position behind a text splits no surrogate pair.\<close>

lemma caret_splits_nothing:
  assumes "valid_str behind"
  shows "\<not> splits_surrogate (utf16 (before @ behind)) (length (utf16 before))"
proof (cases behind)
  case (Cons c d)
  then have "\<not> is_low (hd (utf16 behind))" by (intro hd_utf16_not_low) (use assms in simp_all)
  moreover have "utf16 behind \<noteq> []" using Cons by (simp add: utf16_char_def)
  ultimately show ?thesis
    by (auto simp: splits_surrogate_def nth_append hd_conv_nth)
qed (simp add: splits_surrogate_def)

text \<open>
  C5. Boundary validation is sound and complete: two samples pass exactly when they are one and
  the same available sample of a supported, non-secure control whose text is the UTF-16 encoding
  of some text \<open>before @ expected @ behind\<close> and whose empty selection lies directly behind the
  expected text, between two scalars.
\<close>

theorem validate_boundary_iff:
  assumes "valid_str expected"
  shows "validate_boundary first second expected = BV_BoundaryValidated \<longleftrightarrow>
    first = second \<and> bs_status second = BSS_Available \<and>
    bc_supported (bs_control second) \<and> \<not> bc_secure (bs_control second) \<and>
    (\<exists>before behind. valid_str (before @ behind) \<and>
       bs_utf16_text second = utf16 (before @ expected @ behind) \<and>
       bs_start second = length (utf16 (before @ expected)) \<and> bs_end second = bs_start second)"
  (is "?l \<longleftrightarrow> ?r")
proof
  assume l: ?l
  note f = validated_facts [OF l]
  show ?r
    by (rule expected_before_caret [OF assms f(8,7,9,10,11)]) (use f in auto)
next
  assume r: ?r
  then obtain before behind where v: "valid_str (before @ behind)"
    and t: "bs_utf16_text second = utf16 (before @ expected @ behind)"
    and i: "bs_start second = length (utf16 (before @ expected))"
    by auto
  have "\<not> splits_surrogate (bs_utf16_text second) (bs_start second)"
    using caret_splits_nothing [of behind "before @ expected"] v t i by simp
  moreover have "is_well_formed_utf16 (bs_utf16_text second)"
    unfolding t well_formed_utf16 using v assms by (intro exI [of _ "before @ expected @ behind"]) simp
  ultimately show ?l
    using r t i by (auto simp: validate_boundary_def Let_def)
qed

lemma validate_boundary_iff_witness:
  "validate_boundary
     \<lparr>bs_utf16_text = [0xD83D, 0xDE00, 0x61], bs_start = 3, bs_end = 3,
      bs_control = \<lparr>bc_identity = 7, bc_supported = True, bc_secure = False, bc_style = 1\<rparr>,
      bs_status = BSS_Available\<rparr>
     \<lparr>bs_utf16_text = [0xD83D, 0xDE00, 0x61], bs_start = 3, bs_end = 3,
      bs_control = \<lparr>bc_identity = 7, bc_supported = True, bc_secure = False, bc_style = 1\<rparr>,
      bs_status = BSS_Available\<rparr> [0x61] = BV_BoundaryValidated"
proof (rule validate_boundary_iff [THEN iffD2])
  show "valid_str [0x61]" by (simp add: is_scalar_def)
qed (intro conjI exI [of _ "[0x1F600]"] exI [of _ "[]"];
     simp add: is_scalar_def utf16_char_def unit_of_def)

end
