(* ===== verification/Queue.thy ===== *)
theory Queue
  imports Observe
begin

text \<open>
  The bounded observe queue of zonkey-service (\<open>lib.rs\<close>, \<open>ObserveQueue\<close>): a FIFO that drops
  the newest event when it is full and reports the gap once, with the next event it delivers.
  The locale \<open>bounded_queue\<close> is what its client relies on; the queue of the source is an
  instance.
\<close>

definition DEFAULT_OBSERVE_QUEUE_CAPACITY :: nat where
  "DEFAULT_OBSERVE_QUEUE_CAPACITY = 256"

datatype queue_capacity_error = QueueCapacityError

datatype enqueue_outcome = EO_Enqueued | EO_DroppedFull

record dequeued_event =
  de_event :: observed_input_event
  de_discontinuity :: bool

datatype dequeue_outcome = DO_Event dequeued_event | DO_Empty

record queue_stats =
  qs_capacity :: nat
  qs_queued :: nat
  qs_dropped_events :: u64
  qs_discontinuity_pending :: bool

record observe_queue =
  oq_capacity :: nat
  oq_events :: "observed_input_event list"
  oq_dropped_events :: u64
  oq_discontinuity_pending :: bool

text \<open>\<open>u64::saturating_add(1)\<close>.\<close>

definition saturating_inc :: "u64 \<Rightarrow> u64" where
  "saturating_inc n = (if n = - 1 then n else n + 1)"

definition queue_new :: "nat \<Rightarrow> queue_capacity_error + observe_queue" where
  "queue_new capacity =
     (if capacity = 0 then Inl QueueCapacityError
      else Inr \<lparr>oq_capacity = capacity, oq_events = [], oq_dropped_events = 0,
                oq_discontinuity_pending = False\<rparr>)"

definition queue_default :: "observe_queue option" where
  "queue_default =
     (case queue_new DEFAULT_OBSERVE_QUEUE_CAPACITY of Inl _ \<Rightarrow> None | Inr q \<Rightarrow> Some q)"

definition try_enqueue :: "observe_queue \<Rightarrow> observed_input_event \<Rightarrow> enqueue_outcome \<times> observe_queue" where
  "try_enqueue q event =
     (if length (oq_events q) = oq_capacity q then
        (EO_DroppedFull,
         q\<lparr>oq_dropped_events := saturating_inc (oq_dropped_events q), oq_discontinuity_pending := True\<rparr>)
      else (EO_Enqueued, q\<lparr>oq_events := oq_events q @ [event]\<rparr>))"

definition try_dequeue :: "observe_queue \<Rightarrow> dequeue_outcome \<times> observe_queue" where
  "try_dequeue q =
     (case oq_events q of
        [] \<Rightarrow> (DO_Empty, q)
      | event # rest \<Rightarrow>
          (DO_Event \<lparr>de_event = event, de_discontinuity = oq_discontinuity_pending q\<rparr>,
           q\<lparr>oq_events := rest, oq_discontinuity_pending := False\<rparr>))"

definition stats :: "observe_queue \<Rightarrow> queue_stats" where
  "stats q =
     \<lparr>qs_capacity = oq_capacity q, qs_queued = length (oq_events q),
      qs_dropped_events = oq_dropped_events q,
      qs_discontinuity_pending = oq_discontinuity_pending q\<rparr>"

definition queue_inv :: "observe_queue \<Rightarrow> bool" where
  "queue_inv q \<longleftrightarrow> 0 < oq_capacity q \<and> length (oq_events q) \<le> oq_capacity q"

lemma queue_new_inv [simp]: "queue_new c = Inr q \<Longrightarrow> queue_inv q \<and> oq_events q = []"
  by (auto simp: queue_new_def queue_inv_def split: if_splits)

lemma queue_default_exists: "\<exists>q. queue_default = Some q \<and> queue_inv q"
  by (simp add: queue_default_def queue_new_def DEFAULT_OBSERVE_QUEUE_CAPACITY_def queue_inv_def)

subsection \<open>The interface\<close>

datatype queue_op = Enq observed_input_event | Deq

datatype queue_result = Enqueue_Result enqueue_outcome | Dequeue_Result dequeue_outcome

locale bounded_queue =
  fixes inv :: "'q \<Rightarrow> bool"
    and capacity :: "'q \<Rightarrow> nat"
    and contents :: "'q \<Rightarrow> observed_input_event list"
    and gap :: "'q \<Rightarrow> bool"
    and enq :: "'q \<Rightarrow> observed_input_event \<Rightarrow> enqueue_outcome \<times> 'q"
    and deq :: "'q \<Rightarrow> dequeue_outcome \<times> 'q"
  assumes bound: "inv q \<Longrightarrow> 0 < capacity q \<and> length (contents q) \<le> capacity q"
    and enq_full: "inv q \<Longrightarrow> length (contents q) = capacity q \<Longrightarrow> enq q e = (r, q') \<Longrightarrow>
      r = EO_DroppedFull \<and> contents q' = contents q \<and> gap q' \<and> inv q' \<and> capacity q' = capacity q"
    and enq_room: "inv q \<Longrightarrow> length (contents q) < capacity q \<Longrightarrow> enq q e = (r, q') \<Longrightarrow>
      r = EO_Enqueued \<and> contents q' = contents q @ [e] \<and> gap q' = gap q \<and> inv q' \<and>
      capacity q' = capacity q"
    and deq_empty: "inv q \<Longrightarrow> contents q = [] \<Longrightarrow> deq q = (DO_Empty, q)"
    and deq_event: "inv q \<Longrightarrow> contents q = e # es \<Longrightarrow> deq q = (d, q') \<Longrightarrow>
      d = DO_Event \<lparr>de_event = e, de_discontinuity = gap q\<rparr> \<and> contents q' = es \<and> \<not> gap q' \<and>
      inv q' \<and> capacity q' = capacity q"
begin

definition step :: "'q \<Rightarrow> queue_op \<Rightarrow> queue_result \<times> 'q" where
  "step q operation =
     (case operation of
        Enq e \<Rightarrow> (let (r, q') = enq q e in (Enqueue_Result r, q'))
      | Deq \<Rightarrow> (let (r, q') = deq q in (Dequeue_Result r, q')))"

fun steps :: "'q \<Rightarrow> queue_op list \<Rightarrow> (queue_op \<times> queue_result) list \<times> 'q" where
  "steps q [] = ([], q)"
| "steps q (operation # ops) =
     (let (r, q') = step q operation; (rs, q'') = steps q' ops in ((operation, r) # rs, q''))"

lemma step_inv: "inv q \<Longrightarrow> inv (snd (step q operation)) \<and> capacity (snd (step q operation)) = capacity q"
proof (cases operation)
  case (Enq e)
  assume i: "inv q"
  obtain r q' where q': "enq q e = (r, q')" by fastforce
  show ?thesis
    using enq_full [OF i _ q'] enq_room [OF i _ q'] bound [OF i] Enq q'
    by (cases "length (contents q) = capacity q") (auto simp: step_def)
next
  case Deq
  assume i: "inv q"
  obtain r q' where q': "deq q = (r, q')" by fastforce
  show ?thesis
    using deq_empty [OF i] deq_event [OF i _ q'] Deq q' i
    by (cases "contents q") (auto simp: step_def)
qed

text \<open>Nothing that was accepted is lost, duplicated or reordered.\<close>

lemma step_fifo:
  assumes "inv q" and "step q operation = (r, q')"
  shows "(case r of Dequeue_Result (DO_Event d) \<Rightarrow> [de_event d] | _ \<Rightarrow> []) @ contents q' =
    contents q @ (case (operation, r) of (Enq e, Enqueue_Result EO_Enqueued) \<Rightarrow> [e] | _ \<Rightarrow> [])"
proof (cases operation)
  case (Enq e)
  obtain x y where xy: "enq q e = (x, y)" by fastforce
  show ?thesis
    using enq_full [OF assms(1) _ xy] enq_room [OF assms(1) _ xy] bound [OF assms(1)] Enq xy assms(2)
    by (cases "length (contents q) = capacity q") (auto simp: step_def)
next
  case Deq
  obtain x y where xy: "deq q = (x, y)" by fastforce
  show ?thesis
    using deq_empty [OF assms(1)] deq_event [OF assms(1) _ xy] Deq xy assms(2)
    by (cases "contents q") (auto simp: step_def)
qed

definition accepted :: "(queue_op \<times> queue_result) list \<Rightarrow> observed_input_event list" where
  "accepted tr = concat (map
     (\<lambda>x. case x of (Enq e, Enqueue_Result EO_Enqueued) \<Rightarrow> [e] | _ \<Rightarrow> []) tr)"

definition delivered :: "(queue_op \<times> queue_result) list \<Rightarrow> observed_input_event list" where
  "delivered tr = concat (map
     (\<lambda>x. case snd x of Dequeue_Result (DO_Event d) \<Rightarrow> [de_event d] | _ \<Rightarrow> []) tr)"

lemma steps_fifo:
  assumes "inv q" and "steps q ops = (tr, q')"
  shows "inv q' \<and> capacity q' = capacity q \<and> length (contents q') \<le> capacity q \<and>
    delivered tr @ contents q' = contents q @ accepted tr"
  using assms
proof (induction ops arbitrary: q q' tr)
  case (Cons operation ops)
  obtain r q1 where s: "step q operation = (r, q1)" by fastforce
  obtain rs q2 where t: "steps q1 ops = (rs, q2)" by fastforce
  have q': "q' = q2" and tr: "tr = (operation, r) # rs" using Cons.prems(2) s t by auto
  have i1: "inv q1" and c1: "capacity q1 = capacity q" using step_inv [OF Cons.prems(1), of operation] s by auto
  note ih = Cons.IH [OF i1 t]
  have "(case r of Dequeue_Result (DO_Event d) \<Rightarrow> [de_event d] | _ \<Rightarrow> []) @ delivered rs @ contents q2 =
      (case r of Dequeue_Result (DO_Event d) \<Rightarrow> [de_event d] | _ \<Rightarrow> []) @ contents q1 @ accepted rs"
    using ih by simp
  also have "\<dots> = contents q @
      (case (operation, r) of (Enq e, Enqueue_Result EO_Enqueued) \<Rightarrow> [e] | _ \<Rightarrow> []) @ accepted rs"
    using step_fifo [OF Cons.prems(1) s] by (simp flip: append_assoc)
  finally show ?case using ih q' tr c1 by (simp add: accepted_def delivered_def)
qed (auto simp: accepted_def delivered_def bound)

text \<open>Every refused event is followed by exactly one marker, on the next delivery.\<close>

lemma gap_reported:
  assumes "inv q" and "length (contents q) = capacity q" and "contents q = e # es"
    and "enq q x = (r, q1)" and "deq q1 = (d, q2)" and "contents q2 = f # fs" and "deq q2 = (d', q3)"
  shows "d = DO_Event \<lparr>de_event = e, de_discontinuity = True\<rparr> \<and>
    d' = DO_Event \<lparr>de_event = f, de_discontinuity = False\<rparr>"
proof -
  have 1: "contents q1 = e # es" "gap q1" "inv q1" using enq_full [OF assms(1,2,4)] assms(3) by auto
  have 2: "d = DO_Event \<lparr>de_event = e, de_discontinuity = True\<rparr>" "\<not> gap q2" "inv q2"
    using deq_event [OF 1(3) 1(1) assms(5)] 1(2) by auto
  show ?thesis using deq_event [OF 2(3) assms(6,7)] 2 by auto
qed

end

interpretation oq: bounded_queue queue_inv oq_capacity oq_events oq_discontinuity_pending
    try_enqueue try_dequeue
  by unfold_locales (auto simp: queue_inv_def try_enqueue_def try_dequeue_def)

text \<open>A queue trace of the model, operation by operation.\<close>

fun queue_steps :: "observe_queue \<Rightarrow> queue_op list \<Rightarrow> (queue_op \<times> queue_result) list \<times> observe_queue" where
  "queue_steps q [] = ([], q)"
| "queue_steps q (Enq e # ops) =
     (let (r, q') = try_enqueue q e; (rs, q'') = queue_steps q' ops
      in ((Enq e, Enqueue_Result r) # rs, q''))"
| "queue_steps q (Deq # ops) =
     (let (r, q') = try_dequeue q; (rs, q'') = queue_steps q' ops
      in ((Deq, Dequeue_Result r) # rs, q''))"

definition accepted_events :: "(queue_op \<times> queue_result) list \<Rightarrow> observed_input_event list" where
  "accepted_events tr = concat (map
     (\<lambda>x. case x of (Enq e, Enqueue_Result EO_Enqueued) \<Rightarrow> [e] | _ \<Rightarrow> []) tr)"

definition delivered_events :: "(queue_op \<times> queue_result) list \<Rightarrow> observed_input_event list" where
  "delivered_events tr = concat (map
     (\<lambda>x. case snd x of Dequeue_Result (DO_Event d) \<Rightarrow> [de_event d] | _ \<Rightarrow> []) tr)"

lemma queue_steps_eq: "queue_steps q ops = oq.steps q ops"
  by (induction q ops rule: queue_steps.induct) (auto simp: oq.step_def Let_def split: prod.splits)

text \<open>
  C6. The observe queue is a bounded FIFO: whatever operations run on a queue, the events it
  delivered followed by the ones still queued are exactly the ones queued at the start followed
  by the accepted ones, in order, and it never holds more than its capacity.
\<close>

theorem queue_fifo:
  assumes "queue_inv q" and "queue_steps q ops = (tr, q')"
  shows "queue_inv q' \<and> length (oq_events q') \<le> oq_capacity q \<and>
    delivered_events tr @ oq_events q' = oq_events q @ accepted_events tr"
  using oq.steps_fifo [OF assms(1), of ops tr q'] assms(2)
  by (simp add: queue_steps_eq accepted_events_def delivered_events_def oq.accepted_def oq.delivered_def)

lemma queue_fifo_witness:
  "delivered_events (fst (queue_steps (projr (queue_new 1)) [Enq sample_event, Enq sample_event, Deq, Deq])) =
     [sample_event]"
  using queue_fifo [of "projr (queue_new 1)" "[Enq sample_event, Enq sample_event, Deq, Deq]"]
  by (simp add: queue_new_def queue_inv_def try_enqueue_def try_dequeue_def accepted_events_def)

end
