(* ===== verification/Service.thy ===== *)
theory Service
  imports Queue "HOL-Library.Monad_Syntax"
begin

text \<open>
  The synchronous observe service of zonkey-service (\<open>lib.rs\<close>, \<open>ObserveService\<close>).

  The traits are parameters of the service as they are in the source: an event source is its
  \<open>next_event\<close> function over its own state, a processor the record of its two methods over
  its own state.  \<open>None\<close> as the result of \<open>process\<close> is a panic, as the result of \<open>run\<close>
  a panic or a source that never ends.  The report's counters are \<open>u64\<close> with the wrap-around
  of the release profile.
\<close>

datatype processor_classification =
    PC_Ignored
  | PC_Observed
  | PC_BoundaryObserved
  | PC_Unsupported
  | PC_Invalid

type_synonym 's event_source = "'s \<Rightarrow> (observer_error + observed_input_event option) \<times> 's"

record 'p event_processor =
  reset_after_discontinuity :: "'p \<Rightarrow> 'p"
  process_event :: "'p \<Rightarrow> observed_input_event \<Rightarrow> (processor_classification \<times> 'p) option"

record aggregate_report =
  ar_received :: u64
  ar_accepted :: u64
  ar_dropped :: u64
  ar_processed :: u64
  ar_discontinuities :: u64
  ar_source_failures :: u64
  ar_unsupported_events :: u64
  ar_invalid_events :: u64

definition report_default :: aggregate_report where
  "report_default =
     \<lparr>ar_received = 0, ar_accepted = 0, ar_dropped = 0, ar_processed = 0, ar_discontinuities = 0,
      ar_source_failures = 0, ar_unsupported_events = 0, ar_invalid_events = 0\<rparr>"

record observe_service =
  os_queue :: observe_queue
  os_status :: observer_status
  os_stop_requested :: bool
  os_report :: aggregate_report

definition service_new :: "observe_queue \<Rightarrow> observe_service" where
  "service_new queue =
     \<lparr>os_queue = queue, os_status = OS_Starting, os_stop_requested = False,
      os_report = report_default\<rparr>"

definition request_stop :: "observe_service \<Rightarrow> observe_service" where
  "request_stop s =
     (if os_status s \<in> {OS_Stopped, OS_Failed} then s else s\<lparr>os_stop_requested := True\<rparr>)"

definition queue_stats_of :: "observe_service \<Rightarrow> queue_stats" where
  "queue_stats_of s = stats (os_queue s)"

definition map_report :: "(aggregate_report \<Rightarrow> aggregate_report) \<Rightarrow> observe_service \<Rightarrow> observe_service" where
  "map_report f s = s\<lparr>os_report := f (os_report s)\<rparr>"

definition count_class :: "processor_classification \<Rightarrow> aggregate_report \<Rightarrow> aggregate_report" where
  "count_class c r =
     (case c of
        PC_Unsupported \<Rightarrow> r\<lparr>ar_unsupported_events := ar_unsupported_events r + 1\<rparr>
      | PC_Invalid \<Rightarrow> r\<lparr>ar_invalid_events := ar_invalid_events r + 1\<rparr>
      | _ \<Rightarrow> r)"

definition process_one ::
  "'p event_processor \<Rightarrow> observe_service \<Rightarrow> 'p \<Rightarrow> (bool \<times> observe_service \<times> 'p) option" where
  "process_one P s p =
     (case try_dequeue (os_queue s) of
        (DO_Empty, q) \<Rightarrow> Some (False, s\<lparr>os_queue := q\<rparr>, p)
      | (DO_Event d, q) \<Rightarrow>
         (let s0 = s\<lparr>os_queue := q\<rparr>;
              (s1, p1) =
                (if de_discontinuity d then
                   (map_report (\<lambda>r. r\<lparr>ar_discontinuities := ar_discontinuities r + 1\<rparr>) s0,
                    reset_after_discontinuity P p)
                 else (s0, p));
              s2 = map_report (\<lambda>r. r\<lparr>ar_processed := ar_processed r + 1\<rparr>) s1
          in do { (c, p2) \<leftarrow> process_event P p1 (de_event d);
                  Some (True, map_report (count_class c) s2, p2) }))"

lemma process_one_shrinks:
  "process_one P s p = Some (True, s', p') \<Longrightarrow>
     length (oq_events (os_queue s')) < length (oq_events (os_queue s))"
  by (auto simp: process_one_def try_dequeue_def map_report_def Let_def
      split: list.splits if_splits prod.splits dequeue_outcome.splits Option.bind_splits)

text \<open>The loop \<open>while self.process_one(processor) {}\<close>.\<close>

function drain :: "'p event_processor \<Rightarrow> observe_service \<Rightarrow> 'p \<Rightarrow> (observe_service \<times> 'p) option" where
  "drain P s p =
     (case process_one P s p of
        None \<Rightarrow> None
      | Some (progressed, s', p') \<Rightarrow> if progressed then drain P s' p' else Some (s', p'))"
  by pat_completeness auto
termination
  by (relation "measure (\<lambda>(P, s, p). length (oq_events (os_queue s)))")
    (auto simp: process_one_shrinks)

declare drain.simps [simp del]

definition finish_gracefully ::
  "'p event_processor \<Rightarrow> observe_service \<Rightarrow> 'p \<Rightarrow> (observe_service \<times> 'p) option" where
  "finish_gracefully P s p =
     (case drain P (s\<lparr>os_status := OS_Stopping\<rparr>) p of
        None \<Rightarrow> None
      | Some (s', p') \<Rightarrow> Some (s'\<lparr>os_status := OS_Stopped\<rparr>, p'))"

definition receive :: "observe_service \<Rightarrow> observed_input_event \<Rightarrow> observe_service" where
  "receive s event =
     (let s0 = map_report (\<lambda>r. r\<lparr>ar_received := ar_received r + 1\<rparr>) s
      in case try_enqueue (os_queue s0) event of
           (EO_Enqueued, q) \<Rightarrow>
             map_report (\<lambda>r. r\<lparr>ar_accepted := ar_accepted r + 1\<rparr>) (s0\<lparr>os_queue := q\<rparr>)
         | (EO_DroppedFull, q) \<Rightarrow>
             map_report (\<lambda>r. r\<lparr>ar_dropped := ar_dropped r + 1\<rparr>) (s0\<lparr>os_queue := q\<rparr>))"

text \<open>The loop of \<open>run\<close>; \<open>stop_requested\<close> cannot change while the service is borrowed.\<close>

partial_function (option) observe_loop ::
  "'s event_source \<Rightarrow> 'p event_processor \<Rightarrow> observe_service \<Rightarrow> 's \<Rightarrow> 'p
    \<Rightarrow> (observe_service \<times> 's \<times> 'p) option" where
  "observe_loop next_event P s src p =
     (if os_stop_requested s then
        (case finish_gracefully P s p of None \<Rightarrow> None | Some (s', p') \<Rightarrow> Some (s', src, p'))
      else
        (case next_event src of
           (Inr (Some event), src') \<Rightarrow>
             (case process_one P (receive s event) p of
                None \<Rightarrow> None
              | Some (_, s', p') \<Rightarrow> observe_loop next_event P s' src' p')
         | (Inr None, src') \<Rightarrow>
             (case finish_gracefully P s p of None \<Rightarrow> None | Some (s', p') \<Rightarrow> Some (s', src', p'))
         | (Inl _, src') \<Rightarrow>
             Some ((map_report (\<lambda>r. r\<lparr>ar_source_failures := ar_source_failures r + 1\<rparr>) s)
                     \<lparr>os_status := OS_Failed\<rparr>, src', p)))"

definition run ::
  "'s event_source \<Rightarrow> 'p event_processor \<Rightarrow> observe_service \<Rightarrow> 's \<Rightarrow> 'p
    \<Rightarrow> (aggregate_report \<times> observe_service \<times> 's \<times> 'p) option" where
  "run next_event P s src p =
     (if os_status s \<in> {OS_Stopped, OS_Failed} then Some (os_report s, s, src, p)
      else
        (case observe_loop next_event P (s\<lparr>os_status := OS_Running\<rparr>) src p of
           None \<Rightarrow> None
         | Some (s', src', p') \<Rightarrow> Some (os_report s', s', src', p')))"

subsection \<open>Finite sources\<close>

text \<open>The source returns these events and then exhaustion or a failure.\<close>

fun source_yields ::
  "'s event_source \<Rightarrow> 's \<Rightarrow> observed_input_event list \<Rightarrow> observer_error option \<Rightarrow> 's \<Rightarrow> bool" where
  "source_yields next_event s [] failure s' \<longleftrightarrow>
     next_event s = ((case failure of None \<Rightarrow> Inr None | Some e \<Rightarrow> Inl e), s')"
| "source_yields next_event s (e # es) failure s' \<longleftrightarrow>
     (case next_event s of (Inr (Some e'), s1) \<Rightarrow> e' = e \<and> source_yields next_event s1 es failure s'
      | _ \<Rightarrow> False)"

text \<open>A list of events as a source.\<close>

fun list_source :: "observed_input_event list event_source" where
  "list_source [] = (Inr None, [])"
| "list_source (e # es) = (Inr (Some e), es)"

lemma list_source_yields: "source_yields list_source es es None []"
  by (induction es) auto

text \<open>A processor that records what it is given, for concrete inputs.\<close>

definition recording_processor :: "observed_input_event list event_processor" where
  "recording_processor =
     \<lparr>reset_after_discontinuity = id, process_event = (\<lambda>es e. Some (PC_Observed, es @ [e]))\<rparr>"

text \<open>What the processor makes of a list of events that it is given without a gap.\<close>

fun process_all ::
  "'p event_processor \<Rightarrow> 'p \<Rightarrow> observed_input_event list \<Rightarrow> (processor_classification list \<times> 'p) option" where
  "process_all P p [] = Some ([], p)"
| "process_all P p (e # es) =
     do { (c, p1) \<leftarrow> process_event P p e;
          (cs, p2) \<leftarrow> process_all P p1 es;
          Some (c # cs, p2) }"

definition class_count :: "processor_classification \<Rightarrow> processor_classification list \<Rightarrow> u64" where
  "class_count c cs = of_nat (length (filter (\<lambda>d. d = c) cs))"

definition add_counts ::
  "aggregate_report \<Rightarrow> nat \<Rightarrow> processor_classification list \<Rightarrow> aggregate_report" where
  "add_counts r n cs =
     r\<lparr>ar_received := ar_received r + of_nat n, ar_accepted := ar_accepted r + of_nat n,
       ar_processed := ar_processed r + of_nat n,
       ar_unsupported_events := ar_unsupported_events r + class_count PC_Unsupported cs,
       ar_invalid_events := ar_invalid_events r + class_count PC_Invalid cs\<rparr>"

lemma drain_empty: "oq_events (os_queue s) = [] \<Longrightarrow> drain P s p = Some (s, p)"
  by (simp add: drain.simps process_one_def try_dequeue_def)

lemma finish_empty:
  "oq_events (os_queue s) = [] \<Longrightarrow> finish_gracefully P s p = Some (s\<lparr>os_status := OS_Stopped\<rparr>, p)"
  by (simp add: finish_gracefully_def drain_empty)

definition idle :: "observe_service \<Rightarrow> bool" where
  "idle s \<longleftrightarrow> queue_inv (os_queue s) \<and> oq_events (os_queue s) = [] \<and>
     \<not> oq_discontinuity_pending (os_queue s)"

lemma receive_process_idle:
  assumes "idle s" and "process_event P p e = Some (c, p')"
  shows "process_one P (receive s e) p =
    Some (True, map_report (\<lambda>r. add_counts r 1 [c]) s, p')"
  using assms
  by (cases c)
    (auto simp: idle_def queue_inv_def receive_def try_enqueue_def process_one_def try_dequeue_def
      map_report_def add_counts_def class_count_def count_class_def Let_def)

lemma add_counts_add:
  "add_counts (add_counts r m cs) n ds = add_counts r (m + n) (cs @ ds)"
  by (simp add: add_counts_def class_count_def)

lemma map_report_idle [simp]: "idle (map_report f s) = idle s"
  by (simp add: idle_def map_report_def)

lemma map_report_map_report: "map_report f (map_report g s) = map_report (\<lambda>r. f (g r)) s"
  by (simp add: map_report_def)

lemma observe_loop_finite:
  assumes "source_yields next_event src es failure src'"
    and "idle s" and "\<not> os_stop_requested s" and "process_all P p es = Some (cs, p')"
  shows "observe_loop next_event P s src p =
    Some ((map_report (\<lambda>r. case failure of None \<Rightarrow> add_counts r (length es) cs
             | Some _ \<Rightarrow> (add_counts r (length es) cs)
                 \<lparr>ar_source_failures := ar_source_failures r + 1\<rparr>) s)
           \<lparr>os_status := (case failure of None \<Rightarrow> OS_Stopped | Some _ \<Rightarrow> OS_Failed)\<rparr>, src', p')"
  using assms
proof (induction es arbitrary: src s p cs)
  case Nil
  then have "oq_events (os_queue s) = []" by (simp add: idle_def)
  with Nil show ?case
    by (cases failure)
      (simp_all add: observe_loop.simps finish_empty map_report_def add_counts_def class_count_def)
next
  case (Cons e es)
  obtain src1 where n: "next_event src = (Inr (Some e), src1)"
    and y: "source_yields next_event src1 es failure src'"
    using Cons.prems(1) by (auto split: prod.splits sum.splits option.splits)
  obtain c p1 ds where pe: "process_event P p e = Some (c, p1)"
    and pa: "process_all P p1 es = Some (ds, p')" and cs: "cs = c # ds"
    using Cons.prems(4) by (auto split: Option.bind_splits)
  let ?s = "map_report (\<lambda>r. add_counts r 1 [c]) s"
  have "observe_loop next_event P s src p = observe_loop next_event P ?s src1 p1"
    using Cons.prems(3) n receive_process_idle [OF Cons.prems(2) pe]
    by (subst observe_loop.simps) simp
  also have "\<dots> = Some ((map_report (\<lambda>r. case failure of None \<Rightarrow> add_counts r (length es) ds
             | Some _ \<Rightarrow> (add_counts r (length es) ds)
                 \<lparr>ar_source_failures := ar_source_failures r + 1\<rparr>) ?s)
           \<lparr>os_status := (case failure of None \<Rightarrow> OS_Stopped | Some _ \<Rightarrow> OS_Failed)\<rparr>, src', p')"
    using Cons.prems(2,3) by (intro Cons.IH y pa) (simp_all add: map_report_def idle_def)
  finally show ?case
    using cs by (cases failure) (simp_all add: map_report_map_report add_counts_add,
        simp add: add_counts_def)
qed

subsection \<open>Processors that keep an invariant\<close>

locale event_processor_contract =
  fixes P :: "'p event_processor"
    and inv :: "'p \<Rightarrow> bool"
    and admissible :: "observed_input_event \<Rightarrow> bool"
  assumes reset_inv: "inv p \<Longrightarrow> inv (reset_after_discontinuity P p)"
    and process_inv: "inv p \<Longrightarrow> admissible e \<Longrightarrow> \<exists>c p'. process_event P p e = Some (c, p') \<and> inv p'"
begin

lemma process_all_inv:
  "inv p \<Longrightarrow> list_all admissible es \<Longrightarrow>
     \<exists>cs p'. process_all P p es = Some (cs, p') \<and> length cs = length es \<and> inv p'"
proof (induction es arbitrary: p)
  case (Cons e es)
  then obtain c p1 where 1: "process_event P p e = Some (c, p1)" "inv p1"
    using process_inv [of p e] by auto
  obtain cs p' where "process_all P p1 es = Some (cs, p')" "length cs = length es" "inv p'"
    using Cons.IH [OF 1(2)] Cons.prems(2) by auto
  with 1 show ?case by simp
qed simp

lemma process_one_inv:
  assumes "inv p" and "list_all admissible (oq_events (os_queue s))"
  shows "\<exists>b s' p'. process_one P s p = Some (b, s', p') \<and> inv p' \<and>
    os_stop_requested s' = os_stop_requested s \<and> os_status s' = os_status s \<and>
    oq_capacity (os_queue s') = oq_capacity (os_queue s) \<and>
    oq_events (os_queue s') = tl (oq_events (os_queue s)) \<and>
    b = (oq_events (os_queue s) \<noteq> [])"
proof (cases "oq_events (os_queue s)")
  case Nil
  then have "process_one P s p = Some (False, s, p)" by (simp add: process_one_def try_dequeue_def)
  with Nil assms show ?thesis by auto
next
  case (Cons e es)
  let ?p = "if oq_discontinuity_pending (os_queue s) then reset_after_discontinuity P p else p"
  have "inv ?p" using assms(1) reset_inv by simp
  moreover have "admissible e" using assms(2) Cons by simp
  ultimately obtain c p' where "process_event P ?p e = Some (c, p')" "inv p'"
    using process_inv by blast
  with Cons show ?thesis
    by (auto simp: process_one_def try_dequeue_def Let_def map_report_def split: if_splits)
qed

lemma drain_inv:
  assumes "inv p" and "list_all admissible (oq_events (os_queue s))"
  shows "\<exists>s' p'. drain P s p = Some (s', p') \<and> inv p' \<and> oq_events (os_queue s') = []"
  using assms
proof (induction "length (oq_events (os_queue s))" arbitrary: s p rule: less_induct)
  case less
  obtain b s1 p1 where one: "process_one P s p = Some (b, s1, p1)" and i1: "inv p1"
    and t: "oq_events (os_queue s1) = tl (oq_events (os_queue s))"
    and b: "b = (oq_events (os_queue s) \<noteq> [])"
    using process_one_inv [OF less.prems] by blast
  show ?case
  proof (cases b)
    case True
    have "list_all admissible (oq_events (os_queue s1))"
      using less.prems(2) t by (cases "oq_events (os_queue s)") auto
    with less.hyps [of s1 p1] i1 t b True one show ?thesis
      by (subst drain.simps) auto
  next
    case False
    with one i1 t b show ?thesis by (subst drain.simps) auto
  qed
qed

lemma finish_inv:
  assumes "inv p" and "list_all admissible (oq_events (os_queue s))"
  shows "\<exists>s' p'. finish_gracefully P s p = Some (s', p') \<and> inv p' \<and> oq_events (os_queue s') = [] \<and>
    os_status s' = OS_Stopped"
  using drain_inv [OF assms(1), of "s\<lparr>os_status := OS_Stopping\<rparr>"] assms(2)
  by (auto simp: finish_gracefully_def)

text \<open>Over a finite source the service comes to an end, whatever was queued before.\<close>

lemma loop_inv:
  assumes "source_yields next_event src es failure src'" and "list_all admissible es"
    and "inv p" and "list_all admissible (oq_events (os_queue s))"
  shows "\<exists>s' src'' p'. observe_loop next_event P s src p = Some (s', src'', p') \<and> inv p' \<and>
    os_status s' \<in> {OS_Stopped, OS_Failed}"
  using assms
proof (induction es arbitrary: src s p)
  case Nil
  with finish_inv [OF Nil.prems(3,4)] show ?case
    by (cases failure) (auto simp: observe_loop.simps)
next
  case (Cons e es)
  show ?case
  proof (cases "os_stop_requested s")
    case True
    with finish_inv [OF Cons.prems(3,4)] show ?thesis by (auto simp: observe_loop.simps)
  next
    case False
    obtain src1 where n: "next_event src = (Inr (Some e), src1)"
      and y: "source_yields next_event src1 es failure src'"
      using Cons.prems(1) by (auto split: prod.splits sum.splits option.splits)
    have q: "list_all admissible (oq_events (os_queue (receive s e)))"
      using Cons.prems(2,4)
      by (auto simp: receive_def try_enqueue_def map_report_def Let_def)
    obtain b s1 p1 where one: "process_one P (receive s e) p = Some (b, s1, p1)" and i1: "inv p1"
      and t: "oq_events (os_queue s1) = tl (oq_events (os_queue (receive s e)))"
      using process_one_inv [OF Cons.prems(3) q] by blast
    have "list_all admissible (oq_events (os_queue s1))"
      using q t by (cases "oq_events (os_queue (receive s e))") auto
    with Cons.IH [OF y _ i1] Cons.prems(2) False n one show ?thesis
      by (subst observe_loop.simps) auto
  qed
qed

lemma run_returns:
  assumes "source_yields next_event src es failure src'" and "list_all admissible es"
    and "inv p" and "list_all admissible (oq_events (os_queue s))"
  shows "\<exists>r s' src'' p'. run next_event P s src p = Some (r, s', src'', p') \<and> inv p' \<and>
    os_status s' \<in> {OS_Stopped, OS_Failed}"
  using loop_inv [OF assms(1-3), of "s\<lparr>os_status := OS_Running\<rparr>"] assms(3,4)
  by (auto simp: run_def)

end

subsection \<open>The report\<close>

text \<open>What every event does to the report and the queue, as one conserved balance.\<close>

definition balance :: "observe_service \<Rightarrow> u64 \<times> u64" where
  "balance s =
     (ar_accepted (os_report s) + ar_dropped (os_report s) - ar_received (os_report s),
      ar_accepted (os_report s) - ar_processed (os_report s) - of_nat (length (oq_events (os_queue s))))"

lemma balance_map_report:
  "(\<And>r. ar_accepted (f r) = ar_accepted r \<and> ar_dropped (f r) = ar_dropped r \<and>
      ar_received (f r) = ar_received r \<and> ar_processed (f r) = ar_processed r) \<Longrightarrow>
   balance (map_report f s) = balance s"
  by (simp add: balance_def map_report_def)

lemma balance_receive: "balance (receive s e) = balance s"
  by (auto simp: balance_def receive_def try_enqueue_def map_report_def Let_def)

lemma balance_process_one: "process_one P s p = Some (b, s', p') \<Longrightarrow> balance s' = balance s"
  by (cases "oq_events (os_queue s)")
    (auto simp: balance_def process_one_def try_dequeue_def map_report_def count_class_def Let_def
      split: Option.bind_splits processor_classification.splits if_splits)

lemma balance_drain: "drain P s p = Some (s', p') \<Longrightarrow> balance s' = balance s"
proof (induction P s p rule: drain.induct)
  case (1 P s p)
  from "1.prems" "1.IH" show ?case
    by (subst (asm) drain.simps)
      (auto split: option.splits prod.splits if_splits dest: balance_process_one)
qed

lemma balance_status [simp]: "balance (s\<lparr>os_status := st\<rparr>) = balance s"
  by (simp add: balance_def)

lemma balance_finish: "finish_gracefully P s p = Some (s', p') \<Longrightarrow> balance s' = balance s"
  by (auto simp: finish_gracefully_def dest!: balance_drain split: option.splits)

lemma balance_loop:
  "observe_loop next_event P s src p = Some r \<Longrightarrow> balance (fst r) = balance s"
proof -
  let ?Q = "\<lambda>((((n, P), s), src), p) r. balance (fst r) = balance s"
  assume "observe_loop next_event P s src p = Some r"
  then have "?Q ((((next_event, P), s), src), p) r"
  proof (rule observe_loop.raw_induct [where Pa = ?Q, rotated], goal_cases)
    case (1 loop next_event P s src p r)
    note ih = 1(1) [simplified]
    from 1(2) show ?case
      by (auto split: if_splits option.splits prod.splits sum.splits dest!: ih balance_finish
          balance_process_one simp: balance_receive balance_map_report)
  qed
  then show ?thesis by simp
qed

lemma balance_run:
  "run next_event P s src p = Some (r, s', src', p') \<Longrightarrow> balance s' = balance s \<and> r = os_report s'"
  by (auto simp: run_def split: if_splits option.splits dest!: balance_loop)

text \<open>
  Over a source that returns the events \<open>es\<close> and then ends or fails, a started, unstopped and
  idle service returns: the processor has seen exactly \<open>es\<close>, in order and without a reset, no
  event was dropped, the counters grew by what was received and classified, and the status is
  \<open>Stopped\<close> after exhaustion and \<open>Failed\<close> (with one source failure counted) after an error.
\<close>

lemma run_finite_source:
  assumes "source_yields next_event src es failure src'" and "idle s" and "\<not> os_stop_requested s"
    and "os_status s \<notin> {OS_Stopped, OS_Failed}" and "process_all P p es = Some (cs, p')"
  shows "\<exists>s'. run next_event P s src p = Some (os_report s', s', src', p') \<and>
    os_status s' = (if failure = None then OS_Stopped else OS_Failed) \<and>
    os_queue s' = os_queue s \<and>
    os_report s' = (add_counts (os_report s) (length es) cs)
      \<lparr>ar_source_failures := ar_source_failures (os_report s) + (if failure = None then 0 else 1)\<rparr>"
proof -
  have "idle (s\<lparr>os_status := OS_Running\<rparr>)" using assms(2) by (simp add: idle_def)
  from observe_loop_finite [OF assms(1) this _ assms(5)] assms(3,4) show ?thesis
    by (cases failure) (auto simp: run_def map_report_def add_counts_def)
qed

lemma run_finite_source_witness:
  "\<exists>s'. run list_source recording_processor (service_new (projr (queue_new 4)))
       [sample_event, sample_event] []
     = Some (os_report s', s', [], [sample_event, sample_event]) \<and> os_status s' = OS_Stopped"
  using run_finite_source [OF list_source_yields [of "[sample_event, sample_event]"],
      of "service_new (projr (queue_new 4))" recording_processor "[]"]
  by (auto simp: idle_def service_new_def queue_new_def queue_inv_def recording_processor_def)

text \<open>
  C8. The aggregate report accounts for every event: in any run that returns, started with any
  queue and an empty report, received events are accepted or dropped, and accepted events
  together with those queued before are processed or still queued (as \<open>u64\<close> counters).
\<close>

theorem run_accounting:
  assumes "run next_event P s src p = Some (r, s', src', p')" and "os_report s = report_default"
  shows "ar_received r = ar_accepted r + ar_dropped r \<and>
    ar_accepted r + of_nat (length (oq_events (os_queue s))) =
      ar_processed r + of_nat (length (oq_events (os_queue s')))"
  using balance_run [OF assms(1)] assms(2)
  by (auto simp: balance_def report_default_def algebra_simps)

lemma run_accounting_witness:
  "\<exists>r s' src' p'. run list_source recording_processor (service_new (projr (queue_new 4)))
       [sample_event] [] = Some (r, s', src', p') \<and> ar_received r = ar_accepted r + ar_dropped r"
proof -
  let ?s = "service_new (projr (queue_new 4))"
  have "idle (?s\<lparr>os_status := OS_Running\<rparr>)"
    by (simp add: idle_def service_new_def queue_new_def queue_inv_def)
  from observe_loop_finite [OF list_source_yields [of "[sample_event]"] this, of recording_processor "[]"]
  obtain r s' src' p' where r: "run list_source recording_processor ?s [sample_event] [] = Some (r, s', src', p')"
    by (auto simp: run_def service_new_def queue_new_def recording_processor_def)
  show ?thesis
    using r run_accounting [OF r] by (auto simp: service_new_def)
qed

end
