(* ===== verification/Processor.thy ===== *)
theory Processor
  imports Policy Service
begin

text \<open>
  The diagnostic decision processor of zonkey-service (\<open>lib.rs\<close>): it feeds observed keys to
  the Telex engine, evaluates a finished token and keeps at most one restore plan; handoffs are
  snapshots of that plan, and the internal gate compares a handoff with the current plan.

  Diagnostic output (\<open>println!\<close>) is not modelled.  A panic is \<open>None\<close>.
\<close>

subsection \<open>Plans and handoffs\<close>

datatype diagnostic_decision = DD_Keep | DD_RestoreCandidate | DD_Ambiguous | DD_Unsupported

record restore_plan =
  rp_original_token :: ustr
  rp_rendered_token :: ustr
  rp_replacement_token :: ustr
  rp_rendered_units_to_replace :: nat
  rp_replacement_units :: nat
  rp_reason :: decision_reason
  rp_execution_allowed :: bool
  rp_generation :: u64

datatype plan_ineligibility_reason =
    PI_NoCurrentPlan | PI_InternalSpanInconsistent | PI_ExecutionCapabilityPresent

datatype plan_eligibility =
    PE_Eligible
  | PE_Ineligible plan_ineligibility_reason

definition validate_restore_plan :: "restore_plan option \<Rightarrow> plan_eligibility" where
  "validate_restore_plan plan =
     (case plan of
        None \<Rightarrow> PE_Ineligible PI_NoCurrentPlan
      | Some plan \<Rightarrow>
          if rp_execution_allowed plan then PE_Ineligible PI_ExecutionCapabilityPresent
          else if rp_original_token plan = [] \<or> rp_replacement_token plan = [] \<or>
              rp_rendered_units_to_replace plan \<noteq> length (rp_rendered_token plan) \<or>
              rp_replacement_units plan \<noteq> length (rp_replacement_token plan)
            then PE_Ineligible PI_InternalSpanInconsistent
          else PE_Eligible)"

record restore_plan_handoff =
  ho_rendered_token :: ustr
  ho_replacement_token :: ustr
  ho_rendered_units_to_replace :: nat
  ho_replacement_units :: nat
  ho_reason :: decision_reason
  ho_generation :: u64
  ho_simulation_only :: bool

datatype handoff_stale_reason = HS_NoCurrentPlan | HS_DifferentGeneration | HS_MalformedSnapshot

datatype handoff_revalidation = HR_Current | HR_Stale handoff_stale_reason

datatype internal_gate_rejection =
    GR_NoCurrentPlan | GR_PlanIneligible | GR_NoCurrentHandoff | GR_HandoffStale
  | GR_HandoffMalformed | GR_GenerationMismatch | GR_InternalSpanInconsistent
  | GR_SimulationInvariantBroken

datatype internal_execution_gate =
    G_PassedForExternalValidation
  | G_Rejected internal_gate_rejection

subsection \<open>The processor\<close>

record decision_processor =
  dp_telex :: telex_engine
  dp_context :: input_context
  dp_show_token :: bool
  dp_completed_tokens :: u64
  dp_resets :: u64
  dp_injected_events :: u64
  dp_control_down :: bool
  dp_alt_down :: bool
  dp_meta_down :: bool
  dp_last_token_lengths :: "(nat \<times> nat) option"
  dp_last_decision :: "diagnostic_decision option"
  dp_last_restore_plan :: "restore_plan option"
  dp_next_plan_generation :: "u64 option"

definition processor_new :: "bool \<Rightarrow> decision_processor" where
  "processor_new show_token =
     \<lparr>dp_telex = engine_new, dp_context = IC_Writing, dp_show_token = show_token,
      dp_completed_tokens = 0, dp_resets = 0, dp_injected_events = 0,
      dp_control_down = False, dp_alt_down = False, dp_meta_down = False,
      dp_last_token_lengths = None, dp_last_decision = None, dp_last_restore_plan = None,
      dp_next_plan_generation = Some 1\<rparr>"

definition current_plan_eligibility :: "decision_processor \<Rightarrow> plan_eligibility" where
  "current_plan_eligibility p = validate_restore_plan (dp_last_restore_plan p)"

definition current_restore_handoff :: "decision_processor \<Rightarrow> restore_plan_handoff option" where
  "current_restore_handoff p =
     (if current_plan_eligibility p \<noteq> PE_Eligible then None
      else (case dp_last_restore_plan p of
              None \<Rightarrow> None
            | Some plan \<Rightarrow> Some
               \<lparr>ho_rendered_token = rp_rendered_token plan,
                ho_replacement_token = rp_replacement_token plan,
                ho_rendered_units_to_replace = rp_rendered_units_to_replace plan,
                ho_replacement_units = rp_replacement_units plan,
                ho_reason = rp_reason plan, ho_generation = rp_generation plan,
                ho_simulation_only = True\<rparr>))"

definition revalidate_restore_handoff ::
  "decision_processor \<Rightarrow> restore_plan_handoff \<Rightarrow> handoff_revalidation" where
  "revalidate_restore_handoff p h =
     (case dp_last_restore_plan p of
        None \<Rightarrow> HR_Stale HS_NoCurrentPlan
      | Some plan \<Rightarrow>
          if \<not> ho_simulation_only h \<or> ho_rendered_token h = [] \<or> ho_replacement_token h = [] \<or>
              ho_rendered_units_to_replace h \<noteq> length (ho_rendered_token h) \<or>
              ho_replacement_units h \<noteq> length (ho_replacement_token h)
            then HR_Stale HS_MalformedSnapshot
          else if current_plan_eligibility p \<noteq> PE_Eligible then HR_Stale HS_NoCurrentPlan
          else if ho_generation h \<noteq> rp_generation plan \<or>
              ho_rendered_token h \<noteq> rp_rendered_token plan \<or>
              ho_replacement_token h \<noteq> rp_replacement_token plan \<or>
              ho_rendered_units_to_replace h \<noteq> rp_rendered_units_to_replace plan \<or>
              ho_replacement_units h \<noteq> rp_replacement_units plan \<or>
              ho_reason h \<noteq> rp_reason plan
            then HR_Stale HS_DifferentGeneration
          else HR_Current)"

definition evaluate_internal_execution_gate ::
  "decision_processor \<Rightarrow> restore_plan_handoff \<Rightarrow> internal_execution_gate" where
  "evaluate_internal_execution_gate p h =
     (if current_plan_eligibility p \<noteq> PE_Eligible then G_Rejected GR_PlanIneligible
      else (case current_restore_handoff p of
              None \<Rightarrow> G_Rejected GR_NoCurrentHandoff
            | Some current \<Rightarrow>
                if \<not> ho_simulation_only h then G_Rejected GR_SimulationInvariantBroken
                else (case revalidate_restore_handoff p h of
                        HR_Current \<Rightarrow>
                          if ho_generation current = ho_generation h
                          then G_PassedForExternalValidation
                          else G_Rejected GR_GenerationMismatch
                      | HR_Stale HS_NoCurrentPlan \<Rightarrow> G_Rejected GR_NoCurrentPlan
                      | HR_Stale HS_DifferentGeneration \<Rightarrow> G_Rejected GR_GenerationMismatch
                      | HR_Stale HS_MalformedSnapshot \<Rightarrow> G_Rejected GR_HandoffMalformed)))"

definition reset_token :: "decision_processor \<Rightarrow> decision_processor" where
  "reset_token p = p\<lparr>dp_telex := engine_new\<rparr>"

text \<open>\<open>checked_add(1)\<close> on the next generation.\<close>

definition allocate_plan_generation :: "decision_processor \<Rightarrow> u64 option \<times> decision_processor" where
  "allocate_plan_generation p =
     (case dp_next_plan_generation p of
        None \<Rightarrow> (None, p)
      | Some g \<Rightarrow>
          (Some g, p\<lparr>dp_next_plan_generation := (if g = - 1 then None else Some (g + 1))\<rparr>))"

definition invalidate_restore_plan :: "decision_processor \<Rightarrow> decision_processor" where
  "invalidate_restore_plan p = p\<lparr>dp_last_restore_plan := None\<rparr>"

definition is_key_up :: "key_event_kind \<Rightarrow> bool" where
  "is_key_up k \<longleftrightarrow> k = KE_KeyUp \<or> k = KE_SystemKeyUp"

definition update_shortcut_state ::
  "decision_processor \<Rightarrow> observed_input_event \<Rightarrow> bool \<times> decision_processor" where
  "update_shortcut_state p event =
     (case modifier_value (oe_key event) of
        None \<Rightarrow> (False, p)
      | Some modifier \<Rightarrow>
          (let active = \<not> is_key_up (oe_kind event)
           in (True, case modifier of
                 MK_Control \<Rightarrow> p\<lparr>dp_control_down := active\<rparr>
               | MK_Alt \<Rightarrow> p\<lparr>dp_alt_down := active\<rparr>
               | MK_Meta \<Rightarrow> p\<lparr>dp_meta_down := active\<rparr>
               | MK_Shift \<Rightarrow> p)))"

definition boundary_for :: "observed_input_event \<Rightarrow> token_boundary option" where
  "boundary_for event =
     (if is_space (oe_key event) then Some TB_Space
      else if is_enter (oe_key event) then Some TB_Enter
      else if is_tab (oe_key event) then Some TB_Tab
      else map_option TB_Punctuation (punctuation_value (oe_key event)))"

text \<open>\<open>let _ = self.telex.process(event)\<close>.\<close>

definition feed_engine ::
  "unicode \<Rightarrow> decision_processor \<Rightarrow> engine_event
    \<Rightarrow> ((unsupported_behavior + engine_action) \<times> decision_processor) option" where
  "feed_engine U p ev =
     map_option (\<lambda>(r, e). (r, p\<lparr>dp_telex := e\<rparr>)) (engine_process U (dp_telex p) ev)"

definition boundary_processed ::
  "unicode \<Rightarrow> decision_processor \<Rightarrow> token_boundary \<Rightarrow> (processor_classification \<times> decision_processor) option" where
  "boundary_processed U p b =
     map_option (\<lambda>(_, p'). (PC_BoundaryObserved, p')) (feed_engine U p (EE_Boundary b))"

definition evaluate_boundary ::
  "unicode \<Rightarrow> decision_processor \<Rightarrow> token_boundary
    \<Rightarrow> (processor_classification \<times> decision_processor) option" where
  "evaluate_boundary U p boundary =
     (let raw = raw_ascii (token (dp_telex p));
          rend = rendered (token (dp_telex p));
          p = p\<lparr>dp_last_restore_plan := None\<rparr>
      in if raw = [] \<and> rend = [] then boundary_processed U p boundary
      else let
          p = p\<lparr>dp_last_token_lengths := Some (ulen raw, ulen rend)\<rparr>;
          evidence = classifier_classify U built_in_classify
            \<lparr>rq_raw = raw, rq_rendered = rend, rq_boundary = boundary, rq_context = dp_context p\<rparr>;
          outcome = decide U evidence (dp_context p) rend;
          finish = (\<lambda>(decision :: diagnostic_decision) p.
            if decision = DD_RestoreCandidate \<and> dp_last_restore_plan p = None then None
            else boundary_processed U
              (p\<lparr>dp_completed_tokens := saturating_inc (dp_completed_tokens p),
                 dp_last_decision := Some decision\<rparr>) boundary)
        in case po_decision outcome of
             RD_RestoreEnglish text _ reason \<Rightarrow>
               (case allocate_plan_generation p of
                  (None, p) \<Rightarrow>
                    boundary_processed U
                      (p\<lparr>dp_last_restore_plan := None, dp_last_decision := Some DD_Ambiguous\<rparr>) boundary
                | (Some generation, p) \<Rightarrow>
                    finish DD_RestoreCandidate
                      (p\<lparr>dp_last_restore_plan := Some
                         \<lparr>rp_original_token = raw, rp_rendered_token = rend,
                          rp_replacement_token = text,
                          rp_rendered_units_to_replace = length rend,
                          rp_replacement_units = length text, rp_reason = reason,
                          rp_execution_allowed = False, rp_generation = generation\<rparr>\<rparr>))
           | RD_Ambiguous _ _ \<Rightarrow> finish DD_Ambiguous p
           | RD_KeepVietnamese _ \<Rightarrow>
               finish (if evidence = LE_Unsupported then DD_Unsupported else DD_Keep) p)"

definition reset_decision_state :: "decision_processor \<Rightarrow> decision_processor" where
  "reset_decision_state p =
     (reset_token p)\<lparr>dp_last_restore_plan := None, dp_control_down := False, dp_alt_down := False,
        dp_meta_down := False, dp_resets := saturating_inc (dp_resets p)\<rparr>"

definition key_character :: "observed_input_event \<Rightarrow> scalar option" where
  "key_character event =
     (case letter_value (oe_key event) of
        Some v \<Rightarrow> Some (if ms_shift (oe_modifiers event) then v else to_ascii_lowercase v)
      | None \<Rightarrow> map_option (\<lambda>d. unat (48 + d)) (digit_value (oe_key event)))"

definition shortcut_active :: "decision_processor \<Rightarrow> observed_input_event \<Rightarrow> bool" where
  "shortcut_active p event \<longleftrightarrow>
     ms_control (oe_modifiers event) \<or> ms_alt (oe_modifiers event) \<or> ms_meta (oe_modifiers event) \<or>
     dp_control_down p \<or> dp_alt_down p \<or> dp_meta_down p"

definition process_decision ::
  "unicode \<Rightarrow> decision_processor \<Rightarrow> observed_input_event
    \<Rightarrow> (processor_classification \<times> decision_processor) option" where
  "process_decision U p event =
     (if oe_injection_origin event \<in> {IO_MarkedInjected, IO_LowerIntegrityInjected} then
        Some (PC_Ignored, p\<lparr>dp_injected_events := saturating_inc (dp_injected_events p)\<rparr>)
      else case update_shortcut_state p event of (is_modifier, p) \<Rightarrow>
      if is_modifier then Some (PC_Ignored, p)
      else if is_key_up (oe_kind event) then Some (PC_Ignored, p)
      else if shortcut_active p event then Some (PC_Ignored, p)
      else if modifier_value (oe_key event) \<noteq> None then Some (PC_Ignored, p)
      else if is_escape (oe_key event) then
        Some (PC_Ignored, (reset_token p)\<lparr>dp_last_restore_plan := None\<rparr>)
      else if is_backspace (oe_key event) then
        map_option (\<lambda>(_, p'). (PC_Observed, p'))
          (feed_engine U (invalidate_restore_plan p) EE_Backspace)
      else (case boundary_for event of
              Some boundary \<Rightarrow> evaluate_boundary U p boundary
            | None \<Rightarrow>
               (case key_character event of
                  None \<Rightarrow> Some (PC_Unsupported, (reset_token p)\<lparr>dp_last_restore_plan := None\<rparr>)
                | Some c \<Rightarrow>
                    map_option
                      (\<lambda>(r, p'). case r of
                           Inr _ \<Rightarrow> (PC_Observed, p')
                         | Inl _ \<Rightarrow> (PC_Unsupported, (reset_token p')\<lparr>dp_last_restore_plan := None\<rparr>))
                      (feed_engine U (invalidate_restore_plan p) (EE_Character c)))))"

definition decision_event_processor :: "unicode \<Rightarrow> decision_processor event_processor" where
  "decision_event_processor U =
     \<lparr>reset_after_discontinuity = reset_decision_state, process_event = process_decision U\<rparr>"

subsection \<open>The processor invariant\<close>

text \<open>
  A stored plan restores the raw keys of a token whose rendering differs, is a spelling of a
  word of the embedded dictionaries, and carries a generation below the next one.
\<close>

definition plan_ok :: "decision_processor \<Rightarrow> restore_plan \<Rightarrow> bool" where
  "plan_ok p plan \<longleftrightarrow>
     \<not> rp_execution_allowed plan \<and>
     rp_replacement_token plan = rp_original_token plan \<and>
     compose (rp_original_token plan) = Inr (rp_rendered_token plan) \<and>
     rp_original_token plan \<noteq> rp_rendered_token plan \<and>
     rp_rendered_units_to_replace plan = length (rp_rendered_token plan) \<and>
     rp_replacement_units plan = length (rp_replacement_token plan) \<and>
     (\<exists>class. built_in_classify (rp_original_token plan) = Some class \<and>
        rp_reason plan = class_reason class) \<and>
     0 < rp_generation plan \<and>
     (\<forall>g. dp_next_plan_generation p = Some g \<longrightarrow> rp_generation plan < g)"

definition processor_inv :: "decision_processor \<Rightarrow> bool" where
  "processor_inv p \<longleftrightarrow>
     engine_inv (dp_telex p) \<and> dp_context p = IC_Writing \<and>
     dp_next_plan_generation p \<noteq> Some 0 \<and>
     (\<forall>plan. dp_last_restore_plan p = Some plan \<longrightarrow> plan_ok p plan)"

lemma processor_inv_new: "processor_inv (processor_new show_token)"
  by (simp add: processor_inv_def processor_new_def engine_inv_new)

lemma plan_ok_nonempty:
  assumes "plan_ok p plan"
  shows "rp_original_token plan \<noteq> []" "rp_rendered_token plan \<noteq> []"
proof -
  have c: "compose (rp_original_token plan) = Inr (rp_rendered_token plan)"
    and d: "rp_original_token plan \<noteq> rp_rendered_token plan"
    using assms by (auto simp: plan_ok_def)
  show "rp_original_token plan \<noteq> []" "rp_rendered_token plan \<noteq> []"
    using compose_facts(3) [OF c] d by auto
qed

lemma plan_ok_eligible: "plan_ok p plan \<Longrightarrow> validate_restore_plan (Some plan) = PE_Eligible"
  using plan_ok_nonempty [of p plan] by (simp add: validate_restore_plan_def plan_ok_def)

subsection \<open>Steps\<close>

lemma feed_engine_ex:
  "engine_inv (dp_telex p) \<Longrightarrow>
     \<exists>r e. feed_engine U p ev = Some (r, p\<lparr>dp_telex := e\<rparr>) \<and> engine_inv e"
  using engine_process_total [of "dp_telex p" U ev] engine_process_inv [of "dp_telex p" U ev]
  by (auto simp: feed_engine_def)

lemma boundary_processed_ex:
  "engine_inv (dp_telex p) \<Longrightarrow>
     \<exists>e. boundary_processed U p b = Some (PC_BoundaryObserved, p\<lparr>dp_telex := e\<rparr>) \<and> engine_inv e"
  using feed_engine_ex [of p U "EE_Boundary b"] by (auto simp: boundary_processed_def)

text \<open>How a step relates the plans before and after it.\<close>

definition plan_step :: "decision_processor \<Rightarrow> decision_processor \<Rightarrow> bool" where
  "plan_step p p' \<longleftrightarrow>
     (dp_next_plan_generation p' = dp_next_plan_generation p \<and>
        (dp_last_restore_plan p' = dp_last_restore_plan p \<or> dp_last_restore_plan p' = None)) \<or>
     (\<exists>g plan. dp_next_plan_generation p = Some g \<and> dp_last_restore_plan p' = Some plan \<and>
        rp_generation plan = g \<and> dp_next_plan_generation p' = (if g = - 1 then None else Some (g + 1)))"

lemma word_gt_zero: "g \<noteq> (0 :: u64) \<Longrightarrow> 0 < g"
  by (simp add: word_neq_0_conv)

lemma less_plus_one: "g \<noteq> - 1 \<Longrightarrow> g < g + (1 :: u64)"
  by (metis inc_less_eq_self_iff_eq not_le)

lemma less_next: "g < n \<Longrightarrow> n \<noteq> - 1 \<Longrightarrow> g < n + (1 :: u64)"
  using less_plus_one order.strict_trans by blast

text \<open>A step that leaves context and generation alone and stores no new plan keeps the invariant.\<close>

lemma step_no_new_plan:
  assumes "processor_inv p" and "engine_inv (dp_telex p')" and "dp_context p' = dp_context p"
    and "dp_next_plan_generation p' = dp_next_plan_generation p"
    and "dp_last_restore_plan p' = dp_last_restore_plan p \<or> dp_last_restore_plan p' = None"
  shows "processor_inv p' \<and> plan_step p p'"
  using assms by (auto simp: processor_inv_def plan_step_def plan_ok_def)

definition restored_plan ::
  "decision_processor \<Rightarrow> decision_reason \<Rightarrow> u64 \<Rightarrow> restore_plan" where
  "restored_plan p reason g =
     (let raw = raw_ascii (token (dp_telex p)); rend = rendered (token (dp_telex p))
      in \<lparr>rp_original_token = raw, rp_rendered_token = rend, rp_replacement_token = raw,
          rp_rendered_units_to_replace = length rend, rp_replacement_units = length raw,
          rp_reason = reason, rp_execution_allowed = False, rp_generation = g\<rparr>)"

lemma step_new_plan:
  assumes "processor_inv p" and "engine_inv (dp_telex p')" and "dp_context p' = dp_context p"
    and g: "dp_next_plan_generation p = Some g"
    and g': "dp_next_plan_generation p' = (if g = - 1 then None else Some (g + 1))"
    and plan: "dp_last_restore_plan p' = Some (restored_plan p (class_reason k) g)"
    and lk: "built_in_classify (raw_ascii (token (dp_telex p))) = Some k"
    and ne: "raw_ascii (token (dp_telex p)) \<noteq> rendered (token (dp_telex p))"
  shows "processor_inv p' \<and> plan_step p p'"
proof -
  have "0 < g" using assms(1) g by (auto simp: processor_inv_def word_gt_zero)
  moreover have "g < h" if "dp_next_plan_generation p' = Some h" for h
    using that g' less_plus_one by (auto split: if_splits)
  moreover have "dp_next_plan_generation p' \<noteq> Some 0"
    using g' by (auto split: if_splits simp: add_eq_0_iff2)
  moreover have "compose (raw_ascii (token (dp_telex p))) = Inr (rendered (token (dp_telex p)))"
    using assms(1) by (simp add: processor_inv_def engine_inv_def)
  ultimately show ?thesis
    using assms by (auto simp: processor_inv_def plan_step_def plan_ok_def restored_plan_def Let_def)
qed

lemma boundary_without_plan:
  assumes "processor_inv p" and "dp_telex p' = dp_telex p" and "dp_context p' = dp_context p"
    and "dp_next_plan_generation p' = dp_next_plan_generation p" and "dp_last_restore_plan p' = None"
  shows "\<exists>p''. boundary_processed U p' b = Some (PC_BoundaryObserved, p'') \<and> processor_inv p'' \<and>
    plan_step p p'' \<and> dp_last_restore_plan p'' = None"
proof -
  obtain x where "boundary_processed U p' b = Some (PC_BoundaryObserved, p'\<lparr>dp_telex := x\<rparr>)" "engine_inv x"
    using boundary_processed_ex [of p' U b] assms(1,2) by (auto simp: processor_inv_def)
  with step_no_new_plan [OF assms(1), of "p'\<lparr>dp_telex := x\<rparr>"] assms(2-5) show ?thesis by auto
qed

text \<open>The evidence a boundary collects and what the policy makes of it.\<close>

abbreviation boundary_evidence :: "unicode \<Rightarrow> decision_processor \<Rightarrow> token_boundary \<Rightarrow> lexical_evidence" where
  "boundary_evidence U p b \<equiv> classifier_classify U built_in_classify
    \<lparr>rq_raw = raw_ascii (token (dp_telex p)), rq_rendered = rendered (token (dp_telex p)), rq_boundary = b,
     rq_context = dp_context p\<rparr>"

abbreviation boundary_decision :: "unicode \<Rightarrow> decision_processor \<Rightarrow> token_boundary \<Rightarrow> recovery_decision" where
  "boundary_decision U p b \<equiv>
     po_decision (decide U (boundary_evidence U p b) (dp_context p) (rendered (token (dp_telex p))))"

lemma boundary_with_plan:
  assumes inv: "processor_inv p" and g: "dp_next_plan_generation p = Some g"
    and d: "boundary_decision U p b = RD_RestoreEnglish w conf reason"
    and ne: "\<not> (raw_ascii (token (dp_telex p)) = [] \<and> rendered (token (dp_telex p)) = [])"
  shows "\<exists>p'. evaluate_boundary U p b = Some (PC_BoundaryObserved, p') \<and> processor_inv p' \<and> plan_step p p' \<and>
    dp_last_restore_plan p' = Some (restored_plan p reason g)"
proof -
  let ?raw = "raw_ascii (token (dp_telex p))" and ?rend = "rendered (token (dp_telex p))"
  note c = built_in.candidateD [OF decide_restore(1) [OF d], simplified]
  obtain cls where cls: "built_in_classify ?raw = Some cls" "reason = class_reason cls"
    using c(6) by (auto simp: built_in.classify_lower)
  let ?q = "p\<lparr>dp_last_restore_plan := None, dp_last_token_lengths := Some (ulen ?raw, ulen ?rend),
    dp_next_plan_generation := (if g = - 1 then None else Some (g + 1)),
    dp_last_restore_plan := Some (restored_plan p reason g),
    dp_completed_tokens := saturating_inc (dp_completed_tokens p),
    dp_last_decision := Some DD_RestoreCandidate\<rparr>"
  obtain x where x: "boundary_processed U ?q b = Some (PC_BoundaryObserved, ?q\<lparr>dp_telex := x\<rparr>)" "engine_inv x"
    using boundary_processed_ex [of ?q U b] inv by (auto simp: processor_inv_def)
  have "evaluate_boundary U p b = boundary_processed U ?q b"
    using d g ne c(1,4) by (simp add: evaluate_boundary_def Let_def allocate_plan_generation_def restored_plan_def)
  moreover have "processor_inv (?q\<lparr>dp_telex := x\<rparr>) \<and> plan_step p (?q\<lparr>dp_telex := x\<rparr>)"
    using x(2) cls c(2) g by (intro step_new_plan [OF inv, where g = g and k = cls]) auto
  ultimately show ?thesis using x by auto
qed

lemma boundary_keeps:
  assumes "\<And>w conf reason. boundary_decision U p b = RD_RestoreEnglish w conf reason \<Longrightarrow>
      \<not> (raw_ascii (token (dp_telex p)) = [] \<and> rendered (token (dp_telex p)) = []) \<Longrightarrow> dp_next_plan_generation p = None"
  obtains p' where "evaluate_boundary U p b = boundary_processed U p' b" "dp_telex p' = dp_telex p"
    "dp_context p' = dp_context p" "dp_next_plan_generation p' = dp_next_plan_generation p" "dp_last_restore_plan p' = None"
proof (cases "raw_ascii (token (dp_telex p)) = [] \<and> rendered (token (dp_telex p)) = []")
  case True
  then show thesis by (intro that [of "p\<lparr>dp_last_restore_plan := None\<rparr>"]) (auto simp: evaluate_boundary_def)
next
  case False
  let ?p = "p\<lparr>dp_last_restore_plan := None,
    dp_last_token_lengths := Some (ulen (raw_ascii (token (dp_telex p))), ulen (rendered (token (dp_telex p))))\<rparr>"
  show thesis
  proof (cases "boundary_decision U p b")
    case (RD_RestoreEnglish w conf reason)
    with assms False show thesis
      by (intro that [of "?p\<lparr>dp_last_restore_plan := None, dp_last_decision := Some DD_Ambiguous\<rparr>"])
        (auto simp: evaluate_boundary_def Let_def allocate_plan_generation_def)
  next
    case (RD_KeepVietnamese x)
    with False show thesis
      by (intro that [of "?p\<lparr>dp_completed_tokens := saturating_inc (dp_completed_tokens p),
            dp_last_decision := Some (if boundary_evidence U p b = LE_Unsupported then DD_Unsupported else DD_Keep)\<rparr>"])
        (auto simp: evaluate_boundary_def Let_def)
  next
    case (RD_Ambiguous x y)
    with False show thesis
      by (intro that [of "?p\<lparr>dp_completed_tokens := saturating_inc (dp_completed_tokens p), dp_last_decision := Some DD_Ambiguous\<rparr>"])
        (auto simp: evaluate_boundary_def Let_def)
  qed
qed

lemma evaluate_boundary_step:
  assumes inv: "processor_inv p"
  shows "\<exists>p'. evaluate_boundary U p b = Some (PC_BoundaryObserved, p') \<and> processor_inv p' \<and>
    plan_step p p' \<and>
    (dp_last_restore_plan p' = None \<or>
      (\<exists>g reason. dp_next_plan_generation p = Some g \<and>
         dp_last_restore_plan p' = Some (restored_plan p reason g)))"
proof (cases "\<exists>w conf reason g. boundary_decision U p b = RD_RestoreEnglish w conf reason \<and> dp_next_plan_generation p = Some g \<and>
    \<not> (raw_ascii (token (dp_telex p)) = [] \<and> rendered (token (dp_telex p)) = [])")
  case True
  with boundary_with_plan [OF inv] show ?thesis by blast
next
  case False
  then have "dp_next_plan_generation p = None" if "boundary_decision U p b = RD_RestoreEnglish w conf reason"
    "\<not> (raw_ascii (token (dp_telex p)) = [] \<and> rendered (token (dp_telex p)) = [])" for w conf reason
    using that by (cases "dp_next_plan_generation p") blast+
  then obtain p' where p': "evaluate_boundary U p b = boundary_processed U p' b" "dp_telex p' = dp_telex p"
    "dp_context p' = dp_context p" "dp_next_plan_generation p' = dp_next_plan_generation p" "dp_last_restore_plan p' = None"
    by (rule boundary_keeps)
  from boundary_without_plan [OF inv p'(2-5), of U b] p'(1) show ?thesis by auto
qed

text \<open>A step of \<open>process\<close> on any event.\<close>

definition fresh_plan :: "decision_processor \<Rightarrow> decision_processor \<Rightarrow> bool" where
  "fresh_plan p p' \<longleftrightarrow>
     (\<exists>g reason. dp_next_plan_generation p = Some g \<and>
        dp_last_restore_plan p' = Some (restored_plan p reason g))"

lemma feed_step:
  assumes "processor_inv p"
  shows "\<exists>r p'. feed_engine U (invalidate_restore_plan p) ev = Some (r, p') \<and> processor_inv p' \<and>
    plan_step p p' \<and> dp_last_restore_plan p' = None"
proof -
  have "engine_inv (dp_telex (invalidate_restore_plan p))"
    using assms by (simp add: processor_inv_def invalidate_restore_plan_def)
  from feed_engine_ex [OF this, of U ev] obtain r e where
    "feed_engine U (invalidate_restore_plan p) ev = Some (r, (invalidate_restore_plan p)\<lparr>dp_telex := e\<rparr>)"
    "engine_inv e" by auto
  then show ?thesis
    using step_no_new_plan [OF assms, of "(invalidate_restore_plan p)\<lparr>dp_telex := e\<rparr>"]
    by (auto simp: invalidate_restore_plan_def)
qed

lemma reset_step:
  assumes "processor_inv p" and "dp_context p' = dp_context p"
    and "dp_next_plan_generation p' = dp_next_plan_generation p"
  shows "processor_inv ((reset_token p')\<lparr>dp_last_restore_plan := None\<rparr>) \<and>
    plan_step p ((reset_token p')\<lparr>dp_last_restore_plan := None\<rparr>)"
  using assms by (intro step_no_new_plan) (auto simp: reset_token_def engine_inv_new)

lemma update_shortcut_fields:
  assumes "update_shortcut_state p e = (b, p')"
  shows "dp_telex p' = dp_telex p" "dp_context p' = dp_context p"
    "dp_next_plan_generation p' = dp_next_plan_generation p"
    "dp_last_restore_plan p' = dp_last_restore_plan p" "\<not> b \<Longrightarrow> p' = p"
  using assms by (auto simp: update_shortcut_state_def Let_def split: option.splits modifier_key.splits)

definition step_ok ::
  "decision_processor \<Rightarrow> processor_classification \<Rightarrow> decision_processor \<Rightarrow> bool" where
  "step_ok p c p' \<longleftrightarrow> processor_inv p' \<and> plan_step p p' \<and>
     (c = PC_Ignored \<or> dp_last_restore_plan p' = None \<or> fresh_plan p p')"

text \<open>What an event does that is not held back: it comes from the keyboard, is a press and no shortcut.\<close>

definition key_step ::
  "unicode \<Rightarrow> decision_processor \<Rightarrow> observed_input_event \<Rightarrow> (processor_classification \<times> decision_processor) option" where
  "key_step U p event =
     (if is_escape (oe_key event) then Some (PC_Ignored, (reset_token p)\<lparr>dp_last_restore_plan := None\<rparr>)
      else if is_backspace (oe_key event) then
        map_option (\<lambda>(_, p'). (PC_Observed, p')) (feed_engine U (invalidate_restore_plan p) EE_Backspace)
      else (case boundary_for event of
              Some boundary \<Rightarrow> evaluate_boundary U p boundary
            | None \<Rightarrow>
               (case key_character event of
                  None \<Rightarrow> Some (PC_Unsupported, (reset_token p)\<lparr>dp_last_restore_plan := None\<rparr>)
                | Some c \<Rightarrow>
                    map_option
                      (\<lambda>(r, p'). case r of
                           Inr _ \<Rightarrow> (PC_Observed, p')
                         | Inl _ \<Rightarrow> (PC_Unsupported, (reset_token p')\<lparr>dp_last_restore_plan := None\<rparr>))
                      (feed_engine U (invalidate_restore_plan p) (EE_Character c)))))"

lemma process_decision_cases:
  assumes "oe_injection_origin event \<notin> {IO_MarkedInjected, IO_LowerIntegrityInjected}"
    and "update_shortcut_state p event = (b, q)"
  shows "process_decision U p event =
    (if b \<or> is_key_up (oe_kind event) \<or> shortcut_active q event \<or> modifier_value (oe_key event) \<noteq> None
     then Some (PC_Ignored, q) else key_step U q event)"
  using assms by (simp add: process_decision_def key_step_def)

lemma character_step:
  assumes "processor_inv p"
  shows "\<exists>c p'. map_option (\<lambda>(r, p'). case r of
      Inr _ \<Rightarrow> (PC_Observed, p')
    | Inl _ \<Rightarrow> (PC_Unsupported, (reset_token p')\<lparr>dp_last_restore_plan := None\<rparr>))
      (feed_engine U (invalidate_restore_plan p) ev) = Some (c, p') \<and> step_ok p c p'"
proof -
  obtain r p' where f: "feed_engine U (invalidate_restore_plan p) ev = Some (r, p')"
    "processor_inv p'" "plan_step p p'" "dp_last_restore_plan p' = None"
    using feed_step [OF assms] by blast
  have "dp_context p' = dp_context p \<and> dp_next_plan_generation p' = dp_next_plan_generation p"
    using f(1) by (auto simp: feed_engine_def invalidate_restore_plan_def)
  with reset_step [OF assms, of p'] f show ?thesis by (cases r) (auto simp: step_ok_def)
qed

lemma key_step_ok:
  assumes "processor_inv p"
  shows "\<exists>c p'. key_step U p event = Some (c, p') \<and> step_ok p c p'"
proof -
  have "\<exists>p'. map_option (\<lambda>(_, p'). (PC_Observed, p')) (feed_engine U (invalidate_restore_plan p) EE_Backspace) =
      Some (PC_Observed, p') \<and> step_ok p PC_Observed p'"
    using feed_step [OF assms, of U EE_Backspace] by (auto simp: step_ok_def)
  moreover have "\<exists>c p'. evaluate_boundary U p b = Some (c, p') \<and> step_ok p c p'" for b
    using evaluate_boundary_step [OF assms, of U b] by (auto simp: step_ok_def fresh_plan_def)
  ultimately show ?thesis
    using reset_step [OF assms, of p] character_step [OF assms, of U]
    by (auto simp: key_step_def step_ok_def split: option.split)
qed

lemma process_decision_step:
  assumes inv: "processor_inv p"
  shows "\<exists>c p'. process_decision U p event = Some (c, p') \<and> step_ok p c p'"
proof (cases "oe_injection_origin event \<in> {IO_MarkedInjected, IO_LowerIntegrityInjected}")
  case True
  then show ?thesis
    using step_no_new_plan [OF inv, of "p\<lparr>dp_injected_events := saturating_inc (dp_injected_events p)\<rparr>"] inv
    by (auto simp: process_decision_def step_ok_def processor_inv_def)
next
  case False
  obtain b q where u: "update_shortcut_state p event = (b, q)" by fastforce
  have "step_ok p PC_Ignored q"
    using step_no_new_plan [OF inv, of q] update_shortcut_fields [OF u] inv by (auto simp: step_ok_def processor_inv_def)
  moreover have "q = p" if "\<not> b" using update_shortcut_fields(5) [OF u that] .
  ultimately show ?thesis
    using process_decision_cases [OF False u, of U] key_step_ok [OF inv, of U event] by auto
qed

lemma reset_decision_state_step:
  assumes "processor_inv p"
  shows "processor_inv (reset_decision_state p) \<and> plan_step p (reset_decision_state p) \<and>
    dp_last_restore_plan (reset_decision_state p) = None"
proof -
  have "processor_inv (reset_decision_state p) \<and> plan_step p (reset_decision_state p)"
    using assms
    by (intro step_no_new_plan) (auto simp: reset_decision_state_def reset_token_def engine_inv_new)
  then show ?thesis by (simp add: reset_decision_state_def)
qed

interpretation decisions: event_processor_contract "decision_event_processor U" processor_inv "\<lambda>_. True"
  for U
proof unfold_locales
  fix p assume "processor_inv p"
  then show "processor_inv (reset_after_discontinuity (decision_event_processor U) p)"
    by (simp add: decision_event_processor_def reset_decision_state_step)
next
  fix p e assume "processor_inv p"
  from process_decision_step [OF this, of U e]
  show "\<exists>c p'. process_event (decision_event_processor U) p e = Some (c, p') \<and> processor_inv p'"
    by (auto simp: decision_event_processor_def step_ok_def)
qed

subsection \<open>Histories\<close>

datatype decision_input = DI_Gap | DI_Event observed_input_event

text \<open>A run of the processor; a gap counts as \<open>None\<close> among the classifications.\<close>

fun decision_steps ::
  "unicode \<Rightarrow> decision_processor \<Rightarrow> decision_input list
    \<Rightarrow> (processor_classification option list \<times> decision_processor) option" where
  "decision_steps U p [] = Some ([], p)"
| "decision_steps U p (DI_Gap # is) =
     map_option (\<lambda>(cs, p'). (None # cs, p')) (decision_steps U (reset_decision_state p) is)"
| "decision_steps U p (DI_Event e # is) =
     (case process_decision U p e of
        None \<Rightarrow> None
      | Some (c, p1) \<Rightarrow> map_option (\<lambda>(cs, p'). (Some c # cs, p')) (decision_steps U p1 is))"

text \<open>A generation that can no longer be the current one.\<close>

definition expired :: "u64 \<Rightarrow> decision_processor \<Rightarrow> bool" where
  "expired g p \<longleftrightarrow>
     (\<forall>plan. dp_last_restore_plan p = Some plan \<longrightarrow> rp_generation plan \<noteq> g) \<and>
     (\<forall>n. dp_next_plan_generation p = Some n \<longrightarrow> g < n)"

lemma expired_step: "expired g p \<Longrightarrow> plan_step p p' \<Longrightarrow> expired g p'"
  by (auto simp: expired_def plan_step_def less_next split: if_splits)

lemma expired_steps:
  "expired g p \<Longrightarrow> processor_inv p \<Longrightarrow> decision_steps U p is = Some (cs, p') \<Longrightarrow>
     expired g p' \<and> processor_inv p'"
proof (induction U p "is" arbitrary: cs rule: decision_steps.induct)
  case (2 U p "is")
  then show ?case
    using reset_decision_state_step [OF "2.prems"(2)] expired_step by (auto simp: map_option_case split: option.splits)
next
  case (3 U p e "is")
  obtain c p1 where "process_decision U p e = Some (c, p1)" "step_ok p c p1"
    using process_decision_step [OF "3.prems"(2)] by blast
  with 3 show ?case
    using expired_step by (auto simp: step_ok_def)
qed simp

lemma plan_expires:
  assumes "processor_inv p" and "dp_last_restore_plan p = Some plan" and "plan_step p p'"
    and "dp_last_restore_plan p' = None \<or> fresh_plan p p'"
  shows "expired (rp_generation plan) p'"
proof -
  have g: "\<And>n. dp_next_plan_generation p = Some n \<Longrightarrow> rp_generation plan < n"
    using assms(1,2) by (auto simp: processor_inv_def plan_ok_def)
  show ?thesis
    using assms(3,4) g
    by (auto simp: expired_def plan_step_def fresh_plan_def restored_plan_def Let_def less_next
        split: if_splits)
qed

lemma plan_step_same:
  assumes "processor_inv p" and "dp_last_restore_plan p = Some plan" and "plan_step p p'"
  shows "dp_last_restore_plan p' = Some plan \<or> expired (rp_generation plan) p'"
proof -
  have "\<And>n. dp_next_plan_generation p = Some n \<Longrightarrow> rp_generation plan < n"
    using assms(1,2) by (auto simp: processor_inv_def plan_ok_def)
  then show ?thesis
    using assms(2,3) by (auto simp: expired_def plan_step_def less_next split: if_splits)
qed

lemma plan_survives:
  assumes "decision_steps U p is = Some (cs, p')" and "processor_inv p"
    and "dp_last_restore_plan p = Some plan" and "dp_last_restore_plan p' = Some plan'"
    and "rp_generation plan' = rp_generation plan"
  shows "plan' = plan \<and> set cs \<subseteq> {Some PC_Ignored}"
  using assms
proof (induction U p "is" arbitrary: cs rule: decision_steps.induct)
  case (2 U p "is")
  then obtain ds where "decision_steps U (reset_decision_state p) is = Some (ds, p')" by auto
  moreover have "expired (rp_generation plan) (reset_decision_state p)"
    using reset_decision_state_step [OF "2.prems"(2)] plan_expires [OF "2.prems"(2,3)] by simp
  ultimately have "expired (rp_generation plan) p'"
    using expired_steps reset_decision_state_step [OF "2.prems"(2)] by blast
  with "2.prems" show ?case by (simp add: expired_def)
next
  case (3 U p e "is")
  obtain c p1 where c: "process_decision U p e = Some (c, p1)" "step_ok p c p1"
    using process_decision_step [OF "3.prems"(2)] by blast
  then obtain ds where ds: "decision_steps U p1 is = Some (ds, p')" "cs = Some c # ds"
    using "3.prems"(1) by auto
  have ne: "\<not> expired (rp_generation plan) p1"
  proof
    assume x: "expired (rp_generation plan) p1"
    have "expired (rp_generation plan) p'"
      using expired_steps [OF x _ ds(1)] c(2) by (simp add: step_ok_def)
    with "3.prems"(4,5) show False by (simp add: expired_def)
  qed
  moreover have "dp_last_restore_plan p1 = Some plan"
    using plan_step_same [OF "3.prems"(2,3)] c(2) ne by (auto simp: step_ok_def)
  moreover have k: "c = PC_Ignored"
    using plan_expires [OF "3.prems"(2,3)] c(2) ne by (auto simp: step_ok_def)
  ultimately have "plan' = plan \<and> set ds \<subseteq> {Some PC_Ignored}"
    using c(2) by (intro "3.IH" [OF c(1) refl ds(1) _ _ "3.prems"(4,5)]) (simp_all add: step_ok_def)
  then show ?case by (simp add: ds(2) k)
qed simp

subsection \<open>Typing a word\<close>

definition key_press :: "observed_key \<Rightarrow> decision_input" where
  "key_press k = DI_Event (sample_event\<lparr>oe_key := k\<rparr>)"

definition typed_word :: "ustr \<Rightarrow> decision_input list" where
  "typed_word w = map (\<lambda>c. key_press (OK_Letter c)) w"

lemma decision_steps_append:
  "decision_steps U p is = Some (cs, q) \<Longrightarrow>
     decision_steps U p (is @ js) =
       map_option (\<lambda>(ds, p'). (cs @ ds, p')) (decision_steps U q js)"
proof (induction U p "is" arbitrary: cs rule: decision_steps.induct)
  case (1 U p)
  then show ?case by (cases "decision_steps U p js") auto
next
  case (2 U p "is")
  then show ?case by (cases "decision_steps U q js") auto
next
  case (3 U p e "is")
  then show ?case
    by (cases "process_decision U p e"; cases "decision_steps U q js") auto
qed

definition no_shortcut :: "decision_processor \<Rightarrow> bool" where
  "no_shortcut p \<longleftrightarrow> \<not> dp_control_down p \<and> \<not> dp_alt_down p \<and> \<not> dp_meta_down p"

lemma process_letter:
  assumes "engine_inv (dp_telex p)" and "no_shortcut p" and "is_ascii_lowercase c"
  shows "process_decision U p (sample_event\<lparr>oe_key := OK_Letter c\<rparr>) =
    Some (PC_Observed, (invalidate_restore_plan p)\<lparr>dp_telex := (dp_telex p)\<lparr>token :=
      \<lparr>raw_ascii = raw_ascii (token (dp_telex p)) @ [c],
       rendered = foldl compose_step [] (raw_ascii (token (dp_telex p)) @ [c])\<rparr>\<rparr>\<rparr>)"
proof -
  have c: "is_ascii c" "boundary_from_char c = None" "to_ascii_lowercase c = c"
    using assms(3) alphanumeric_no_boundary [of c]
    by (auto simp: char_class_defs to_ascii_lowercase_def)
  show ?thesis
    using assms(1,2) c
    by (simp add: process_decision_def sample_event_def modifier_state_new_def update_shortcut_state_def
        key_query_defs is_key_up_def boundary_for_def shortcut_active_def key_character_def
        feed_engine_def engine_process_def process_character_cases no_shortcut_def
        invalidate_restore_plan_def)
qed

lemma engine_inv_push:
  assumes "engine_inv e" and "is_ascii_lowercase c"
  shows "engine_inv (e\<lparr>token := \<lparr>raw_ascii = raw_ascii (token e) @ [c],
    rendered = foldl compose_step [] (raw_ascii (token e) @ [c])\<rparr>\<rparr>)"
proof -
  have "is_ascii c" "boundary_from_char c = None"
    using assms(2) alphanumeric_no_boundary [of c] by (auto simp: char_class_defs)
  with assms(1) engine_inv_ascii [OF assms(1)] show ?thesis
    by (simp add: engine_inv_def compose_ascii is_ascii_str_def)
qed

lemma typed_word_steps:
  assumes "engine_inv (dp_telex p)" and "no_shortcut p" and "list_all is_ascii_lowercase w" and "w \<noteq> []"
  shows "\<exists>q. decision_steps U p (typed_word w) = Some (map (\<lambda>_. Some PC_Observed) w, q) \<and>
    q = p\<lparr>dp_last_restore_plan := None, dp_telex := (dp_telex p)\<lparr>token :=
      \<lparr>raw_ascii = raw_ascii (token (dp_telex p)) @ w,
       rendered = foldl compose_step [] (raw_ascii (token (dp_telex p)) @ w)\<rparr>\<rparr>\<rparr>"
  using assms
proof (induction w arbitrary: p)
  case (Cons c w)
  let ?q = "(invalidate_restore_plan p)\<lparr>dp_telex := (dp_telex p)\<lparr>token :=
      \<lparr>raw_ascii = raw_ascii (token (dp_telex p)) @ [c],
       rendered = foldl compose_step [] (raw_ascii (token (dp_telex p)) @ [c])\<rparr>\<rparr>\<rparr>"
  have s: "process_decision U p (sample_event\<lparr>oe_key := OK_Letter c\<rparr>) = Some (PC_Observed, ?q)"
    using Cons.prems by (intro process_letter) simp_all
  have i: "engine_inv (dp_telex ?q)" using engine_inv_push [OF Cons.prems(1)] Cons.prems(3) by simp
  show ?case
  proof (cases "w = []")
    case True
    with s show ?thesis by (simp add: typed_word_def key_press_def invalidate_restore_plan_def)
  next
    case False
    have "no_shortcut ?q" using Cons.prems(2) by (simp add: no_shortcut_def invalidate_restore_plan_def)
    with Cons.IH [OF i _ _ False] Cons.prems(3) s show ?thesis
      by (simp add: typed_word_def key_press_def invalidate_restore_plan_def)
  qed
qed simp

lemma space_pressed:
  assumes "no_shortcut p"
  shows "process_decision U p (sample_event\<lparr>oe_key := OK_Space\<rparr>) = evaluate_boundary U p TB_Space"
  using assms
  by (simp add: process_decision_def sample_event_def modifier_state_new_def update_shortcut_state_def
      key_query_defs is_key_up_def boundary_for_def shortcut_active_def no_shortcut_def)

lemma classify_typed_word:
  assumes "list_all is_ascii_lowercase w" and "w \<noteq> []" and "compose w = Inr r" and "b \<noteq> TB_Unknown"
  shows "classifier_classify U built_in_classify
      \<lparr>rq_raw = w, rq_rendered = r, rq_boundary = b, rq_context = ctx\<rparr> =
    (case (if w \<noteq> r then built_in_classify w else None) of
       Some k \<Rightarrow> LE_Candidate w (exact_confidence k) (class_reason k)
     | None \<Rightarrow> if is_ascii_str r then LE_Unknown else LE_VietnameseCandidate)"
proof -
  have "is_ascii_str w" by (rule compose_facts(4) [OF assms(3)])
  then show ?thesis
    using assms lowercase_unprotected [OF assms(1)] compose_vietnamese [OF assms(3)]
    by (simp add: classifier_classify_def split: option.splits)
qed

definition typed_word_plan :: "ustr \<Rightarrow> ustr \<Rightarrow> restore_plan option" where
  "typed_word_plan w r =
     (case (if w \<noteq> r then built_in_classify w else None) of
        Some k \<Rightarrow> Some
          \<lparr>rp_original_token = w, rp_rendered_token = r, rp_replacement_token = w,
           rp_rendered_units_to_replace = length r, rp_replacement_units = length w,
           rp_reason = class_reason k, rp_execution_allowed = False, rp_generation = 1\<rparr>
      | None \<Rightarrow> None)"

definition typed_word_verdict :: "ustr \<Rightarrow> ustr \<Rightarrow> diagnostic_decision" where
  "typed_word_verdict w r =
     (if w \<noteq> r \<and> built_in_classify w \<noteq> None then DD_RestoreCandidate
      else if is_ascii_str r then DD_Ambiguous else DD_Keep)"

text \<open>The processor after a boundary that ends the typed word \<open>w\<close>, with \<open>g\<close> the next generation.\<close>

definition after_word :: "ustr \<Rightarrow> ustr \<Rightarrow> u64 \<Rightarrow> decision_processor \<Rightarrow> decision_processor" where
  "after_word w r g p =
     p\<lparr>dp_telex := engine_new,
       dp_completed_tokens := saturating_inc (dp_completed_tokens p),
       dp_last_token_lengths := Some (ulen w, ulen r),
       dp_last_decision := Some (typed_word_verdict w r),
       dp_last_restore_plan := map_option (rp_generation_update (\<lambda>_. g)) (typed_word_plan w r),
       dp_next_plan_generation :=
         (if typed_word_plan w r = None then Some g else if g = - 1 then None else Some (g + 1))\<rparr>"

lemma boundary_processed_eq:
  "boundary_processed U p b = Some (PC_BoundaryObserved, p\<lparr>dp_telex := engine_new\<rparr>)"
  by (cases "dp_telex p"; cases b)
    (simp_all add: boundary_processed_def feed_engine_def engine_process_def process_boundary_def
      engine_new_def token_clear_def token_new_def)

lemma word_at_boundary:
  assumes "list_all is_ascii_lowercase w" and "w \<noteq> []" and "compose w = Inr r"
    and "dp_telex p = \<lparr>token = \<lparr>raw_ascii = w, rendered = r\<rparr>\<rparr>"
    and "dp_context p = IC_Writing" and "dp_next_plan_generation p = Some g" and "b \<noteq> TB_Unknown"
  shows "evaluate_boundary U p b = Some (PC_BoundaryObserved, after_word w r g p)"
proof -
  have "is_ascii_str w" by (rule compose_facts(4) [OF assms(3)])
  with assms(2,4-6) permits_exact(1) show ?thesis
    by (cases p) (auto simp: evaluate_boundary_def Let_def classify_typed_word [OF assms(1-3,7)]
        decide_def keep_def allocate_plan_generation_def boundary_processed_eq
        typed_word_plan_def typed_word_verdict_def after_word_def split: option.splits)
qed

lemma typed_word_run:
  assumes "list_all is_ascii_lowercase w" and "w \<noteq> []" and "compose w = Inr r"
  shows "\<exists>p. decision_steps U (processor_new b) (typed_word w @ [key_press OK_Space]) =
      Some (map (\<lambda>_. Some PC_Observed) w @ [Some PC_BoundaryObserved], p) \<and>
    token (dp_telex p) = token_new \<and>
    dp_last_restore_plan p = typed_word_plan w r \<and>
    dp_last_decision p = Some (typed_word_verdict w r) \<and> no_shortcut p"
proof -
  let ?p = "processor_new b"
  have "is_ascii_str w" by (rule compose_facts(4) [OF assms(3)])
  then have r: "r = foldl compose_step [] w" using assms(3) by (simp add: compose_ascii)
  obtain q where steps: "decision_steps U ?p (typed_word w) = Some (map (\<lambda>_. Some PC_Observed) w, q)"
    and q: "q = ?p\<lparr>dp_last_restore_plan := None, dp_telex := \<lparr>token = \<lparr>raw_ascii = w, rendered = r\<rparr>\<rparr>\<rparr>"
    using typed_word_steps [OF _ _ assms(1,2), of ?p U]
    by (auto simp: no_shortcut_def processor_new_def engine_inv_new)
      (simp add: engine_new_def token_new_def r)
  have "process_decision U q (sample_event\<lparr>oe_key := OK_Space\<rparr>) = evaluate_boundary U q TB_Space"
    by (rule space_pressed) (simp add: q no_shortcut_def processor_new_def)
  moreover have "evaluate_boundary U q TB_Space = Some (PC_BoundaryObserved, after_word w r 1 q)"
    by (rule word_at_boundary [OF assms]) (simp_all add: q processor_new_def)
  moreover have "map_option (rp_generation_update (\<lambda>_. 1)) (typed_word_plan w r) = typed_word_plan w r"
    by (simp add: typed_word_plan_def split: option.split)
  ultimately show ?thesis
    using decision_steps_append [OF steps, of "[key_press OK_Space]"]
    by (auto simp: key_press_def after_word_def q engine_new_def no_shortcut_def processor_new_def)
qed

text \<open>
  C9. End to end: typing the letters of a lower-case word and a space into a fresh processor ends
  the token with the decision and the plan of the whole pipeline.  A restore plan, of generation
  1 and from the Telex rendering back to the typed word, is stored exactly when the word is in an
  embedded dictionary and Telex changed it; otherwise a Vietnamese rendering is kept and an
  unchanged one is ambiguous.  Nothing panics and the token is empty afterwards.
\<close>

theorem typed_word_decision:
  assumes "list_all is_ascii_lowercase w" and "w \<noteq> []" and "compose w = Inr r"
  shows "\<exists>p. decision_steps U (processor_new b) (typed_word w @ [key_press OK_Space]) =
      Some (map (\<lambda>_. Some PC_Observed) w @ [Some PC_BoundaryObserved], p) \<and>
    token (dp_telex p) = token_new \<and>
    dp_last_restore_plan p = typed_word_plan w r \<and>
    dp_last_decision p = Some (typed_word_verdict w r)"
  using typed_word_run [OF assms] by blast

lemma compose_test: "compose (lit ''test'') = Inr [116, 0xE9, 116]"
  by (simp add: compose_def compose_step_def try_shape_transform_def try_tone_def requested_tone_def
      rposition_def decode_vowel_def encode_vowel_def VOWELS_def SHAPES_def tone_of_column_def
      shape_rule_def is_ascii_def D_STROKE_def)

lemma built_in_test: "built_in_classify (lit ''test'') = Some DC_English"
  by (simp add: built_in_classify_words dictionary_words_def products_lines_def it_common_lines_def
      en_common_lines_def to_ascii_lowercase_def is_ascii_uppercase_def)

lemma typed_test_steps:
  "\<exists>p. decision_steps U (processor_new False) (typed_word (lit ''test'') @ [key_press OK_Space]) =
      Some (replicate 4 (Some PC_Observed) @ [Some PC_BoundaryObserved], p) \<and>
    dp_last_restore_plan p = typed_word_plan (lit ''test'') [116, 0xE9, 116] \<and>
    dp_last_decision p = Some DD_RestoreCandidate \<and> no_shortcut p"
  using typed_word_run [OF _ _ compose_test, of U False] built_in_test
  by (auto simp: typed_word_verdict_def is_ascii_lowercase_def numeral_eq_Suc)

lemma typed_word_decision_witness:
  "\<exists>p. decision_steps scalar_unicode (processor_new False) (typed_word (lit ''test'') @ [key_press OK_Space]) =
      Some (replicate 4 (Some PC_Observed) @ [Some PC_BoundaryObserved], p) \<and>
    map_option rp_replacement_token (dp_last_restore_plan p) = Some (lit ''test'') \<and>
    dp_last_decision p = Some DD_RestoreCandidate"
  using typed_word_decision [OF _ _ compose_test, of scalar_unicode False] built_in_test
  by (auto simp: typed_word_plan_def typed_word_verdict_def is_ascii_lowercase_def numeral_eq_Suc)

subsection \<open>Reachable processors\<close>

lemma decision_steps_total:
  "processor_inv p \<Longrightarrow>
     \<exists>cs p'. decision_steps U p is = Some (cs, p') \<and> length cs = length is \<and> processor_inv p'"
proof (induction U p "is" rule: decision_steps.induct)
  case (2 U p "is")
  then show ?case using reset_decision_state_step by fastforce
next
  case (3 U p e "is")
  obtain c p1 where c: "process_decision U p e = Some (c, p1)" "processor_inv p1"
    using process_decision_step [OF "3.prems", of U e] by (auto simp: step_ok_def)
  from "3.IH" [OF c(1) refl c(2)] c show ?case by auto
qed simp

text \<open>The processors that inputs lead to from the initial one.\<close>

definition reachable :: "unicode \<Rightarrow> decision_processor \<Rightarrow> bool" where
  "reachable U p \<longleftrightarrow> (\<exists>b is cs. decision_steps U (processor_new b) is = Some (cs, p))"

lemma reachable_inv:
  assumes "reachable U p"
  shows "processor_inv p"
proof -
  obtain b "is" cs where "decision_steps U (processor_new b) is = Some (cs, p)"
    using assms by (auto simp: reachable_def)
  with decision_steps_total [OF processor_inv_new, of U b "is"] show ?thesis by simp
qed

subsection \<open>The keys that were typed\<close>

text \<open>
  What a reader of the event log would say was typed, without the processor: the control, alt and
  meta keys that are held, the letters and digits since the last separator with those erased again
  taken back, and the word that the last separator ended, as long as nothing was typed since.
  Injected events, releases, shortcuts and modifier keys type nothing; a gap, escape and any other
  key forget the word.
\<close>

record typed_keys =
  tk_held :: "modifier_key set"
  tk_word :: ustr
  tk_ended :: "ustr option"

definition nothing_typed :: typed_keys where
  "nothing_typed = \<lparr>tk_held = {}, tk_word = [], tk_ended = None\<rparr>"

fun type_key :: "bool \<Rightarrow> observed_key \<Rightarrow> typed_keys \<Rightarrow> typed_keys" where
  "type_key shift (OK_Letter c) k =
     k\<lparr>tk_word := tk_word k @ [if shift then c else to_ascii_lowercase c], tk_ended := None\<rparr>"
| "type_key shift (OK_Digit d) k = k\<lparr>tk_word := tk_word k @ [48 + unat d], tk_ended := None\<rparr>"
| "type_key shift OK_Backspace k = k\<lparr>tk_word := butlast (tk_word k), tk_ended := None\<rparr>"
| "type_key shift OK_Escape k = k\<lparr>tk_word := [], tk_ended := None\<rparr>"
| "type_key shift OK_Other k = k\<lparr>tk_word := [], tk_ended := None\<rparr>"
| "type_key shift (OK_Modifier m) k = k"
| "type_key shift separator k = k\<lparr>tk_word := [], tk_ended := Some (tk_word k)\<rparr>"

fun type_input :: "typed_keys \<Rightarrow> decision_input \<Rightarrow> typed_keys" where
  "type_input k DI_Gap = nothing_typed"
| "type_input k (DI_Event e) =
     (let released = (oe_kind e = KE_KeyUp \<or> oe_kind e = KE_SystemKeyUp);
          m = oe_modifiers e
      in if oe_injection_origin e = IO_MarkedInjected \<or> oe_injection_origin e = IO_LowerIntegrityInjected then k
         else case oe_key e of
                OK_Modifier held \<Rightarrow> k\<lparr>tk_held := if released then tk_held k - {held} else insert held (tk_held k)\<rparr>
              | key \<Rightarrow> if released \<or> ms_control m \<or> ms_alt m \<or> ms_meta m \<or> tk_held k \<inter> {MK_Control, MK_Alt, MK_Meta} \<noteq> {}
                      then k else type_key (ms_shift m) key k)"

definition keys_typed :: "decision_input list \<Rightarrow> typed_keys" where
  "keys_typed = foldl type_input nothing_typed"

text \<open>Keys as their constructors admit them.\<close>

fun wf_input :: "decision_input \<Rightarrow> bool" where
  "wf_input DI_Gap = True"
| "wf_input (DI_Event e) = wf_key (oe_key e)"

definition tracks :: "decision_processor \<Rightarrow> typed_keys \<Rightarrow> bool" where
  "tracks p k \<longleftrightarrow> raw_ascii (token (dp_telex p)) = tk_word k \<and>
     dp_control_down p = (MK_Control \<in> tk_held k) \<and> dp_alt_down p = (MK_Alt \<in> tk_held k) \<and>
     dp_meta_down p = (MK_Meta \<in> tk_held k) \<and>
     (\<forall>plan. dp_last_restore_plan p = Some plan \<longrightarrow> tk_ended k = Some (rp_original_token plan))"

lemma tracks_new: "tracks (processor_new b) nothing_typed"
  by (simp add: tracks_def processor_new_def engine_new_def token_new_def nothing_typed_def)

lemma evaluate_boundary_fields:
  assumes "evaluate_boundary U p b = Some (c, p')"
  shows "dp_telex p' = engine_new \<and> dp_control_down p' = dp_control_down p \<and> dp_alt_down p' = dp_alt_down p \<and>
    dp_meta_down p' = dp_meta_down p"
  using assms
  by (auto simp: evaluate_boundary_def Let_def boundary_processed_eq allocate_plan_generation_def
      split: if_splits recovery_decision.splits option.splits prod.splits)

lemma tracks_boundary:
  assumes "processor_inv p" and "tracks p k" and "evaluate_boundary U p b = Some (c, p')"
  shows "tracks p' (k\<lparr>tk_word := [], tk_ended := Some (tk_word k)\<rparr>)"
  using evaluate_boundary_step [OF assms(1), of U b] evaluate_boundary_fields [OF assms(3)] assms(2,3)
  by (auto simp: tracks_def restored_plan_def Let_def engine_new_def token_new_def)

lemma tracks_character:
  assumes inv: "engine_inv (dp_telex p)" and "tracks p k" and "is_ascii_alphabetic c \<or> is_ascii_digit c"
    and "feed_engine U (invalidate_restore_plan p) (EE_Character c) = Some (r, p')"
  shows "\<not> isl r \<and> tracks p' (k\<lparr>tk_word := tk_word k @ [c], tk_ended := None\<rparr>)"
proof -
  have "boundary_from_char c = None" "is_ascii c"
    using assms(3) alphanumeric_no_boundary [of c] by (auto simp: char_class_defs)
  with assms(2,4) inv show ?thesis
    by (auto simp: feed_engine_def engine_process_def invalidate_restore_plan_def process_character_cases tracks_def)
qed

lemma tracks_backspace:
  assumes inv: "engine_inv (dp_telex p)" and "tracks p k"
    and "feed_engine U (invalidate_restore_plan p) EE_Backspace = Some (r, p')"
  shows "tracks p' (k\<lparr>tk_word := butlast (tk_word k), tk_ended := None\<rparr>)"
  using assms(2,3) inv
  by (auto simp: feed_engine_def engine_process_def invalidate_restore_plan_def process_backspace_cases tracks_def
      split: if_splits)

lemma typed_character:
  assumes "wf_key (oe_key e)" and "key_character e = Some c"
  shows "(is_ascii_alphabetic c \<or> is_ascii_digit c) \<and>
    type_key (ms_shift (oe_modifiers e)) (oe_key e) k = k\<lparr>tk_word := tk_word k @ [c], tk_ended := None\<rparr>"
proof (cases "oe_key e")
  case (OK_Digit d)
  then have "unat d \<le> 9" using assms(1) by (simp add: word_le_nat_alt)
  with OK_Digit assms(2) show ?thesis
    by (auto simp: key_character_def key_query_defs is_ascii_digit_def unat_word_ariths take_bit_eq_mod)
qed (use assms in \<open>auto simp: key_character_def key_query_defs to_ascii_lowercase_def char_class_defs split: if_splits\<close>)

lemma tracks_key_step:
  assumes inv: "processor_inv p" and k: "tracks p k" and "wf_key (oe_key e)" and "\<And>m. oe_key e \<noteq> OK_Modifier m"
    and step: "key_step U p e = Some (c, p')"
  shows "tracks p' (type_key (ms_shift (oe_modifiers e)) (oe_key e) k)"
proof -
  have engine: "engine_inv (dp_telex p)" using inv by (simp add: processor_inv_def)
  have forget: "tracks ((reset_token p)\<lparr>dp_last_restore_plan := None\<rparr>) (k\<lparr>tk_word := [], tk_ended := None\<rparr>)"
    using k by (simp add: tracks_def reset_token_def engine_new_def token_new_def)
  show ?thesis
  proof (cases "key_character e")
    case (Some x)
    note x = typed_character [OF assms(3) Some, of k]
    have "\<not> is_escape (oe_key e)" "\<not> is_backspace (oe_key e)" "boundary_for e = None"
      using Some by (auto simp: key_character_def boundary_for_def key_query_defs split: observed_key.splits)
    then obtain r q where q: "feed_engine U (invalidate_restore_plan p) (EE_Character x) = Some (r, q)"
      and "(c, p') = (case r of Inr _ \<Rightarrow> (PC_Observed, q)
        | Inl _ \<Rightarrow> (PC_Unsupported, (reset_token q)\<lparr>dp_last_restore_plan := None\<rparr>))"
      using step Some by (auto simp: key_step_def)
    with tracks_character [OF engine k _ q] x show ?thesis by (cases r) auto
  next
    case None
    show ?thesis
    proof (cases "oe_key e")
      case OK_Backspace
      with step tracks_backspace [OF engine k] show ?thesis by (auto simp: key_step_def key_query_defs)
    next
      case OK_Escape
      with step forget show ?thesis by (auto simp: key_step_def key_query_defs)
    next
      case OK_Other
      with step forget None show ?thesis by (auto simp: key_step_def key_query_defs boundary_for_def)
    qed (use None assms(4) step tracks_boundary [OF inv k] in
        \<open>auto simp: key_step_def key_query_defs boundary_for_def key_character_def\<close>)
  qed
qed

lemma tracks_event:
  assumes inv: "processor_inv p" and k: "tracks p k" and "wf_key (oe_key e)"
    and step: "process_decision U p e = Some (c, p')"
  shows "tracks p' (type_input k (DI_Event e))"
proof (cases "oe_injection_origin e \<in> {IO_MarkedInjected, IO_LowerIntegrityInjected}")
  case True
  with step k show ?thesis by (auto simp: process_decision_def tracks_def)
next
  case False
  obtain b q where u: "update_shortcut_state p e = (b, q)" by fastforce
  note cases = process_decision_cases [OF False u, of U]
  show ?thesis
  proof (cases "\<exists>m. oe_key e = OK_Modifier m")
    case True
    then obtain m where m: "oe_key e = OK_Modifier m" by blast
    then have "p' = q" using step cases by (auto simp: key_query_defs split: if_splits)
    then show ?thesis
      using u k m False by (cases m) (auto simp: update_shortcut_state_def key_query_defs is_key_up_def tracks_def Let_def)
  next
    case no: False
    then have q: "q = p" "\<not> b" using u by (auto simp: update_shortcut_state_def key_query_defs split: observed_key.splits)
    have m: "modifier_value (oe_key e) = None" using no by (auto simp: key_query_defs split: observed_key.splits)
    define idle where "idle \<longleftrightarrow> is_key_up (oe_kind e) \<or> shortcut_active p e"
    have spec: "type_input k (DI_Event e) = (if idle then k else type_key (ms_shift (oe_modifiers e)) (oe_key e) k)"
      using no False k
      by (cases "oe_key e") (auto simp: idle_def Let_def is_key_up_def shortcut_active_def tracks_def)
    show ?thesis
    proof (cases idle)
      case True
      then have "p' = p" using step cases q m by (auto simp: idle_def)
      with True k spec show ?thesis by simp
    next
      case False
      then have "key_step U p e = Some (c, p')" using step cases q m by (auto simp: idle_def)
      from tracks_key_step [OF inv k assms(3) _ this] no False spec show ?thesis by auto
    qed
  qed
qed

lemma tracks_steps:
  "decision_steps U p is = Some (cs, p') \<Longrightarrow> processor_inv p \<Longrightarrow> tracks p k \<Longrightarrow> list_all wf_input is \<Longrightarrow>
     tracks p' (foldl type_input k is)"
proof (induction U p "is" arbitrary: cs k rule: decision_steps.induct)
  case (2 U p "is")
  have "tracks (reset_decision_state p) nothing_typed"
    by (simp add: tracks_def reset_decision_state_def reset_token_def engine_new_def token_new_def nothing_typed_def)
  with 2 reset_decision_state_step [OF "2.prems"(2)] show ?case by auto
next
  case (3 U p e "is")
  obtain c p1 where c: "process_decision U p e = Some (c, p1)" "processor_inv p1"
    using process_decision_step [OF "3.prems"(2), of U e] by (auto simp: step_ok_def)
  then obtain ds where "decision_steps U p1 is = Some (ds, p')" using "3.prems"(1) by auto
  with "3.IH" [OF c(1) refl _ c(2)] tracks_event [OF "3.prems"(2,3) _ c(1)] "3.prems"(4) show ?case by simp
qed simp

text \<open>
  C4. Default deny: whatever events and gaps reach the processor, it never panics, and a plan it
  holds is eligible but not executable, and replaces the Telex rendering of a word, from which it
  differs, by that word, which is in an embedded dictionary.  When the keys are as their constructors
  admit them, the word is exactly what was typed: the letters and digits before the last separator,
  in the case they were typed in and without those erased again, with nothing typed since; and the
  unfinished token holds exactly the keys typed since.
\<close>

theorem restore_plan_sound:
  "\<exists>cs p. decision_steps U (processor_new b) is = Some (cs, p) \<and> length cs = length is \<and>
    (\<forall>plan. dp_last_restore_plan p = Some plan \<longrightarrow>
       current_plan_eligibility p = PE_Eligible \<and> \<not> rp_execution_allowed plan \<and>
       rp_replacement_token plan = rp_original_token plan \<and>
       compose (rp_original_token plan) = Inr (rp_rendered_token plan) \<and>
       rp_rendered_token plan \<noteq> rp_original_token plan \<and>
       (\<exists>k. built_in_classify (rp_original_token plan) = Some k \<and> rp_reason plan = class_reason k)) \<and>
    (list_all wf_input is \<longrightarrow>
       raw_ascii (token (dp_telex p)) = tk_word (keys_typed is) \<and>
       (\<forall>plan. dp_last_restore_plan p = Some plan \<longrightarrow>
          tk_ended (keys_typed is) = Some (rp_replacement_token plan)))"
proof -
  obtain cs p where s: "decision_steps U (processor_new b) is = Some (cs, p)" "length cs = length is"
    and i: "processor_inv p"
    using decision_steps_total [OF processor_inv_new] by blast
  have ok: "plan_ok p plan" if "dp_last_restore_plan p = Some plan" for plan
    using i that by (simp add: processor_inv_def)
  have "tracks p (keys_typed is)" if "list_all wf_input is"
    unfolding keys_typed_def by (rule tracks_steps [OF s(1) processor_inv_new tracks_new that])
  then have typed: "raw_ascii (token (dp_telex p)) = tk_word (keys_typed is) \<and>
      (\<forall>plan. dp_last_restore_plan p = Some plan \<longrightarrow> tk_ended (keys_typed is) = Some (rp_replacement_token plan))"
    if "list_all wf_input is"
    using that ok by (auto simp: tracks_def plan_ok_def)
  show ?thesis
    using s ok plan_ok_eligible typed
    by (intro exI [of _ cs] exI [of _ p]) (auto simp: plan_ok_def current_plan_eligibility_def)
qed

lemma restore_plan_sound_witness:
  "\<exists>p plan. decision_steps scalar_unicode (processor_new False) (typed_word (lit ''test'') @ [key_press OK_Space]) =
      Some (replicate 4 (Some PC_Observed) @ [Some PC_BoundaryObserved], p) \<and>
    dp_last_restore_plan p = Some plan \<and> current_plan_eligibility p = PE_Eligible \<and>
    tk_ended (keys_typed (typed_word (lit ''test'') @ [key_press OK_Space])) = Some (lit ''test'') \<and>
    rp_replacement_token plan = lit ''test''"
proof -
  let ?is = "typed_word (lit ''test'') @ [key_press OK_Space]"
  obtain p where p: "decision_steps scalar_unicode (processor_new False) ?is =
      Some (replicate 4 (Some PC_Observed) @ [Some PC_BoundaryObserved], p)"
    "dp_last_restore_plan p = typed_word_plan (lit ''test'') [116, 0xE9, 116]"
    using typed_test_steps by blast
  obtain plan where plan: "dp_last_restore_plan p = Some plan"
    using p(2) built_in_test by (auto simp: typed_word_plan_def)
  have "list_all wf_input ?is"
    by (simp add: typed_word_def key_press_def is_ascii_alphabetic_def is_ascii_lowercase_def)
  moreover have "tk_ended (keys_typed ?is) = Some (lit ''test'')"
    by (simp add: keys_typed_def nothing_typed_def typed_word_def key_press_def sample_event_def
        modifier_state_new_def to_ascii_lowercase_def is_ascii_uppercase_def)
  ultimately show ?thesis using restore_plan_sound [of scalar_unicode False ?is] p(1) plan by auto
qed

lemma gate_current:
  assumes "reachable U p"
  shows "evaluate_internal_execution_gate p h = G_PassedForExternalValidation \<longleftrightarrow>
    current_restore_handoff p = Some h"
proof (cases "dp_last_restore_plan p")
  case None
  then show ?thesis
    by (simp add: evaluate_internal_execution_gate_def current_plan_eligibility_def validate_restore_plan_def
        current_restore_handoff_def)
next
  case (Some plan)
  then have ok: "plan_ok p plan" using reachable_inv [OF assms] by (simp add: processor_inv_def)
  note ne = plan_ok_nonempty [OF ok] and el = plan_ok_eligible [OF ok]
  have "rp_replacement_token plan \<noteq> []" "rp_rendered_units_to_replace plan = length (rp_rendered_token plan)"
    "rp_replacement_units plan = length (rp_replacement_token plan)"
    using ok ne by (auto simp: plan_ok_def)
  then show ?thesis
    using Some el ne
    by (cases h)
      (auto simp: evaluate_internal_execution_gate_def current_plan_eligibility_def current_restore_handoff_def
        revalidate_restore_handoff_def split: if_splits)
qed

text \<open>
  The internal gate passes exactly the handoff that would be captured now: any other handoff,
  older or altered in any field, is rejected.
\<close>

lemma gate_passes_iff_current:
  assumes "reachable U p"
  shows "evaluate_internal_execution_gate p h = G_PassedForExternalValidation \<longleftrightarrow>
    current_restore_handoff p = Some h"
  by (rule gate_current [OF assms])

lemma test_reachable:
  "\<exists>p. reachable U p \<and> no_shortcut p \<and>
    dp_last_restore_plan p = typed_word_plan (lit ''test'') [116, 0xE9, 116]"
  using typed_test_steps [of U] unfolding reachable_def by blast

lemma gate_passes_iff_current_witness:
  "\<exists>p h. reachable scalar_unicode p \<and> ho_replacement_token h = lit ''test'' \<and>
    evaluate_internal_execution_gate p h = G_PassedForExternalValidation"
proof -
  obtain p where r: "reachable scalar_unicode p"
    and p: "dp_last_restore_plan p = typed_word_plan (lit ''test'') [116, 0xE9, 116]"
    using test_reachable by blast
  obtain h where "current_restore_handoff p = Some h" "ho_replacement_token h = lit ''test''"
    using p built_in_test
    by (auto simp: current_restore_handoff_def current_plan_eligibility_def validate_restore_plan_def
        typed_word_plan_def)
  with gate_passes_iff_current [OF r] r show ?thesis by blast
qed

text \<open>
  A captured handoff goes stale with the first event that is not ignored: if the gate still
  passes it after further inputs, there was no gap, every event among them was classified as
  ignored, and the plan is still the very plan it was captured from.
\<close>

lemma gate_refuses_stale:
  assumes "reachable U p" and "current_restore_handoff p = Some h"
    and "decision_steps U p is = Some (cs, p')"
    and "evaluate_internal_execution_gate p' h = G_PassedForExternalValidation"
  shows "set cs \<subseteq> {Some PC_Ignored} \<and> dp_last_restore_plan p' = dp_last_restore_plan p"
proof -
  obtain b is0 cs0 where "decision_steps U (processor_new b) is0 = Some (cs0, p)"
    using assms(1) by (auto simp: reachable_def)
  with assms(3) decision_steps_append [OF this, of "is"] have "reachable U p'"
    by (auto simp: reachable_def intro!: exI [of _ "is0 @ is"])
  then have h': "current_restore_handoff p' = Some h"
    using gate_current [of U p' h] assms(4) by simp
  obtain plan where plan: "dp_last_restore_plan p = Some plan" "ho_generation h = rp_generation plan"
    using assms(2) by (auto simp: current_restore_handoff_def split: if_splits option.splits)
  obtain plan' where plan': "dp_last_restore_plan p' = Some plan'" "ho_generation h = rp_generation plan'"
    using h' by (auto simp: current_restore_handoff_def split: if_splits option.splits)
  show ?thesis
    using plan_survives [OF assms(3) reachable_inv [OF assms(1)] plan(1) plan'(1)] plan plan' by auto
qed

lemma gate_refuses_stale_witness:
  "\<exists>p h p'. current_restore_handoff p = Some h \<and>
    decision_steps scalar_unicode p [DI_Event (sample_event\<lparr>oe_injection_origin := IO_MarkedInjected\<rparr>)] =
      Some ([Some PC_Ignored], p') \<and>
    evaluate_internal_execution_gate p' h = G_PassedForExternalValidation \<and>
    dp_last_restore_plan p' = dp_last_restore_plan p"
proof -
  let ?e = "sample_event\<lparr>oe_injection_origin := IO_MarkedInjected\<rparr>"
  obtain p where r: "reachable scalar_unicode p"
    and p: "dp_last_restore_plan p = typed_word_plan (lit ''test'') [116, 0xE9, 116]"
    using test_reachable by blast
  let ?q = "p\<lparr>dp_injected_events := saturating_inc (dp_injected_events p)\<rparr>"
  obtain h where h: "current_restore_handoff p = Some h"
    using p built_in_test
    by (auto simp: current_restore_handoff_def current_plan_eligibility_def validate_restore_plan_def
        typed_word_plan_def)
  have st: "decision_steps scalar_unicode p [DI_Event ?e] = Some ([Some PC_Ignored], ?q)"
    by (simp add: process_decision_def)
  have g: "evaluate_internal_execution_gate ?q h = G_PassedForExternalValidation"
  proof -
    have 1: "current_plan_eligibility ?q = current_plan_eligibility p" by (simp add: current_plan_eligibility_def)
    have "current_restore_handoff ?q = current_restore_handoff p"
      by (simp add: current_restore_handoff_def 1 split: option.split)
    moreover have "revalidate_restore_handoff ?q h = revalidate_restore_handoff p h"
      by (simp add: revalidate_restore_handoff_def 1 split: option.split)
    ultimately have "evaluate_internal_execution_gate ?q h = evaluate_internal_execution_gate p h"
      by (simp only: evaluate_internal_execution_gate_def 1)
    with gate_current [OF r, of h] h show ?thesis by simp
  qed
  from gate_refuses_stale [OF r h st g] h st g show ?thesis by blast
qed

text \<open>Injected input is inert: it changes nothing but the counter of injected events.\<close>

lemma injected_input_inert:
  assumes "oe_injection_origin event \<in> {IO_MarkedInjected, IO_LowerIntegrityInjected}"
  shows "process_decision U p event =
    Some (PC_Ignored, p\<lparr>dp_injected_events := saturating_inc (dp_injected_events p)\<rparr>)"
  using assms by (auto simp: process_decision_def)

lemma injected_input_inert_witness:
  "process_decision scalar_unicode (processor_new False)
      (sample_event\<lparr>oe_injection_origin := IO_MarkedInjected\<rparr>) =
    Some (PC_Ignored, (processor_new False)\<lparr>dp_injected_events := 1\<rparr>)"
  using injected_input_inert [of "sample_event\<lparr>oe_injection_origin := IO_MarkedInjected\<rparr>" scalar_unicode
      "processor_new False"]
  by (simp add: processor_new_def saturating_inc_def)

text \<open>
  C13. The observe service with the decision processor always comes to an end over a finite
  source: whatever events it delivers, whatever was queued and in whatever reachable state, the
  run returns, stopped or failed, and leaves a processor that satisfies its invariant.
\<close>

theorem observe_run_terminates:
  assumes "source_yields next_event src es failure src'" and "reachable U p"
  shows "\<exists>r s' src'' p'. run next_event (decision_event_processor U) s src p = Some (r, s', src'', p') \<and>
    os_status s' \<in> {OS_Stopped, OS_Failed} \<and> processor_inv p'"
proof -
  have "list_all (\<lambda>_. True) es" "list_all (\<lambda>_. True) (oq_events (os_queue s))"
    by (simp_all add: list_all_iff)
  from decisions.run_returns [OF assms(1) this(1) reachable_inv [OF assms(2)] this(2)]
  show ?thesis by blast
qed

lemma reachable_new: "reachable U (processor_new b)"
  unfolding reachable_def by (intro exI [of _ b] exI [of _ "[]"]) simp

lemma observe_run_terminates_witness:
  "\<exists>r s' src'' p'. run list_source (decision_event_processor scalar_unicode)
      (service_new (projr (queue_new 2))) [sample_event] (processor_new False) = Some (r, s', src'', p') \<and>
    os_status s' \<in> {OS_Stopped, OS_Failed}"
  using observe_run_terminates [OF list_source_yields [of "[sample_event]"] reachable_new] by blast

end
