(* ===== verification/Framing.thy ===== *)
theory Framing
  imports Utf
begin

text \<open>
  The length-prefixed framing of the host transport (zonkey-service, \<open>transport.rs\<close>).  The
  decoder consumes one complete frame from the front of the buffer; the model returns the rest.
\<close>

definition TRANSPORT_PROTOCOL_ID :: ustr where
  "TRANSPORT_PROTOCOL_ID = lit ''zonkey.host-transport/1''"

definition MAX_FRAME_BYTES :: nat where
  "MAX_FRAME_BYTES = 64 * 1024"

definition FRAME_HEADER_BYTES :: nat where
  "FRAME_HEADER_BYTES = 4"

datatype frame_error = FE_EmptyFrame | FE_OversizedFrame | FE_InvalidUtf8

definition encode_frame :: "ustr \<Rightarrow> frame_error + bytes" where
  "encode_frame payload =
     (if payload = [] then Inl FE_EmptyFrame
      else if ulen payload > MAX_FRAME_BYTES then Inl FE_OversizedFrame
      else Inr (le_bytes 4 (ulen payload) @ utf8 payload))"

definition decode_frame :: "bytes \<Rightarrow> (frame_error + ustr option) \<times> bytes" where
  "decode_frame buffer =
     (if length buffer < FRAME_HEADER_BYTES then (Inr None, buffer)
      else let len = from_le (take 4 buffer) in
        if len = 0 then (Inl FE_EmptyFrame, buffer)
        else if len > MAX_FRAME_BYTES then (Inl FE_OversizedFrame, buffer)
        else let frame_end = FRAME_HEADER_BYTES + len in
          if length buffer < frame_end then (Inr None, buffer)
          else (case from_utf8 (take len (drop FRAME_HEADER_BYTES buffer)) of
                  None \<Rightarrow> (Inl FE_InvalidUtf8, buffer)
                | Some payload \<Rightarrow> (Inr (Some payload), drop frame_end buffer)))"

lemmas frame_constants = MAX_FRAME_BYTES_def FRAME_HEADER_BYTES_def

lemma encode_frame_Inr:
  "encode_frame s = Inr f \<longleftrightarrow>
     s \<noteq> [] \<and> ulen s \<le> MAX_FRAME_BYTES \<and> f = le_bytes 4 (ulen s) @ utf8 s"
  by (auto simp: encode_frame_def)

lemma frame_header: "n \<le> MAX_FRAME_BYTES \<Longrightarrow> from_le (le_bytes 4 n) = n"
  by (simp add: from_le_bytes MAX_FRAME_BYTES_def)

lemma decode_encode_frame:
  assumes "valid_str s" and "encode_frame s = Inr f"
  shows "decode_frame (f @ rest) = (Inr (Some s), rest)"
  using assms frame_header [of "ulen s"]
  by (auto simp: encode_frame_Inr decode_frame_def FRAME_HEADER_BYTES_def Let_def from_utf8_utf8 ulen_def)

lemma decode_frame_sound:
  assumes "decode_frame buffer = (Inr (Some s), rest)"
  shows "valid_str s \<and> (\<exists>f. encode_frame s = Inr f \<and> buffer = f @ rest)"
proof -
  let ?n = "from_le (take 4 buffer)"
  have n: "4 \<le> length buffer" "?n \<noteq> 0" "?n \<le> MAX_FRAME_BYTES" "4 + ?n \<le> length buffer"
    and u: "from_utf8 (take ?n (drop 4 buffer)) = Some s" and r: "rest = drop (4 + ?n) buffer"
    using assms
    by (auto simp: decode_frame_def FRAME_HEADER_BYTES_def Let_def split: if_splits option.splits)
  have s: "valid_str s" "utf8 s = take ?n (drop 4 buffer)" using from_utf8_sound [OF u] by auto
  then have "ulen s = ?n" using n by (simp add: ulen_def)
  moreover have "le_bytes 4 ?n = take 4 buffer" using n by (intro le_bytes_from_le_eq) simp
  moreover have "buffer = take 4 buffer @ take ?n (drop 4 buffer) @ drop (4 + ?n) buffer"
    by (metis append_take_drop_id add.commute drop_drop)
  ultimately show ?thesis
    using s n r by (auto simp: encode_frame_Inr)
qed

lemma decode_frame_prefix:
  assumes "encode_frame s = Inr f" and "k < length f"
  shows "decode_frame (take k f) = (Inr None, take k f)"
proof (cases "k < 4")
  case False
  have n: "ulen s \<noteq> 0" "ulen s \<le> MAX_FRAME_BYTES" and f: "f = le_bytes 4 (ulen s) @ utf8 s"
    using assms(1) by (auto simp: encode_frame_Inr)
  have "take 4 (take k f) = le_bytes 4 (ulen s)" using False f by (simp add: min_def)
  then show ?thesis
    using assms(2) False n f frame_header [of "ulen s"]
    by (simp add: decode_frame_def FRAME_HEADER_BYTES_def Let_def ulen_def)
qed (simp add: decode_frame_def FRAME_HEADER_BYTES_def min_less_iff_disj)

text \<open>
  Framing round trip and canonicity: the decoder returns a payload and a rest exactly when the
  payload is valid text and the buffer is its encoded frame followed by that rest; and every
  proper prefix of a frame is reported as incomplete, with the buffer untouched.
\<close>

lemma frame_roundtrip:
  "(decode_frame buffer = (Inr (Some s), rest) \<longleftrightarrow>
      valid_str s \<and> (\<exists>f. encode_frame s = Inr f \<and> buffer = f @ rest)) \<and>
   (encode_frame t = Inr g \<and> k < length g \<longrightarrow> decode_frame (take k g) = (Inr None, take k g))"
  by (intro conjI iffI impI) (auto dest: decode_frame_sound simp: decode_encode_frame decode_frame_prefix)

lemma frame_roundtrip_witness:
  "decode_frame [1, 0, 0, 0, 0x61, 2] = (Inr (Some [0x61]), [2]) \<and>
   decode_frame [1, 0, 0, 0] = (Inr None, [1, 0, 0, 0])"
proof -
  have e: "encode_frame [0x61] = Inr [1, 0, 0, 0, 0x61]"
    by (simp add: encode_frame_def utf8_char_def MAX_FRAME_BYTES_def byte_of_def le_bytes_numeral)
  show ?thesis
    using frame_roundtrip [of "[1, 0, 0, 0, 0x61, 2]" "[0x61]" "[2]" "[0x61]" "[1, 0, 0, 0, 0x61]" 4] e
    by (simp add: is_scalar_def)
qed

end
