(* ===== verification/Ledger.thy ===== *)
theory Ledger
  imports Framing "HOL-Library.Monad_Syntax"
begin

text \<open>
  The bounded request ledger and the host endpoint of the transport (zonkey-service,
  \<open>transport.rs\<close>).  The ledger replays recorded outcomes; it evicts the oldest definite or
  recovery-backed entry, never an unbacked ambiguous one.
\<close>

definition DEFAULT_LEDGER_CAPACITY :: nat where
  "DEFAULT_LEDGER_CAPACITY = 256"

datatype ledger_outcome =
    LO_Definite ustr
  | LO_Ambiguous ustr

datatype request_disposition =
    RD_Fresh
  | RD_Duplicate ledger_outcome
  | RD_Conflict

datatype ledger_capacity_error = LedgerCapacityError

datatype record_outcome =
    RO_Inserted
  | RO_Evicted ustr
  | RO_AlreadyPresent
  | RO_RejectedLedgerFull

record ledger_entry =
  le_canonical :: ustr
  le_outcome :: ledger_outcome
  le_recovery_backed :: bool

record request_ledger =
  lg_capacity :: nat
  lg_order :: "ustr list"
  lg_entries :: "ustr \<rightharpoonup> ledger_entry"

definition ledger_new :: "nat \<Rightarrow> ledger_capacity_error + request_ledger" where
  "ledger_new capacity =
     (if capacity = 0 then Inl LedgerCapacityError
      else Inr \<lparr>lg_capacity = capacity, lg_order = [], lg_entries = Map.empty\<rparr>)"

definition ledger_classify :: "request_ledger \<Rightarrow> ustr \<Rightarrow> ustr \<Rightarrow> request_disposition" where
  "ledger_classify l request_id canonical =
     (case lg_entries l request_id of
        None \<Rightarrow> RD_Fresh
      | Some entry \<Rightarrow>
          if le_canonical entry = canonical then RD_Duplicate (le_outcome entry) else RD_Conflict)"

definition is_ambiguous :: "ledger_outcome \<Rightarrow> bool" where
  "is_ambiguous out = (case out of LO_Ambiguous _ \<Rightarrow> True | LO_Definite _ \<Rightarrow> False)"

definition evictable :: "request_ledger \<Rightarrow> ustr \<Rightarrow> bool" where
  "evictable l request_id =
     (case lg_entries l request_id of
        Some entry \<Rightarrow> \<not> is_ambiguous (le_outcome entry) \<or> le_recovery_backed entry
      | None \<Rightarrow> True)"

definition ledger_push :: "request_ledger \<Rightarrow> ustr \<Rightarrow> ledger_entry \<Rightarrow> request_ledger" where
  "ledger_push l request_id entry =
     l\<lparr>lg_order := lg_order l @ [request_id], lg_entries := (lg_entries l)(request_id \<mapsto> entry)\<rparr>"

definition record_inner ::
  "request_ledger \<Rightarrow> ustr \<Rightarrow> ustr \<Rightarrow> ledger_outcome \<Rightarrow> bool \<Rightarrow> record_outcome \<times> request_ledger" where
  "record_inner l request_id canonical out recovery_backed =
     (let entry = \<lparr>le_canonical = canonical, le_outcome = out, le_recovery_backed = recovery_backed\<rparr>
      in if lg_entries l request_id \<noteq> None then (RO_AlreadyPresent, l)
      else if length (lg_order l) < lg_capacity l then
        (RO_Inserted, ledger_push l request_id entry)
      else (case position (evictable l) (lg_order l) of
              None \<Rightarrow> (RO_RejectedLedgerFull, l)
            | Some index \<Rightarrow>
               (let oldest = lg_order l ! index;
                    l' = l\<lparr>lg_order := remove_nth index (lg_order l),
                           lg_entries := (lg_entries l)(oldest := None)\<rparr>
                in (RO_Evicted oldest, ledger_push l' request_id entry))))"

definition ledger_record ::
  "request_ledger \<Rightarrow> ustr \<Rightarrow> ustr \<Rightarrow> ledger_outcome \<Rightarrow> record_outcome \<times> request_ledger" where
  "ledger_record l request_id canonical out = record_inner l request_id canonical out False"

definition ledger_record_with_recovery ::
  "request_ledger \<Rightarrow> ustr \<Rightarrow> ustr \<Rightarrow> ledger_outcome \<Rightarrow> record_outcome \<times> request_ledger" where
  "ledger_record_with_recovery l request_id canonical out = record_inner l request_id canonical out True"

definition invalidate_all :: "request_ledger \<Rightarrow> request_ledger" where
  "invalidate_all l = l\<lparr>lg_order := [], lg_entries := Map.empty\<rparr>"

text \<open>\<open>len\<close> counts the map's entries.\<close>

definition ledger_len :: "request_ledger \<Rightarrow> nat" where
  "ledger_len l = card (dom (lg_entries l))"

subsection \<open>The host endpoint\<close>

datatype transport_error =
    TE_NotEstablished
  | TE_ProtocolMismatch
  | TE_InvalidHello
  | TE_SessionMismatch

record host_endpoint =
  he_protocol_id :: ustr
  he_session_id :: "ustr option"
  he_ledger :: request_ledger

definition endpoint_new :: "nat \<Rightarrow> ledger_capacity_error + host_endpoint" where
  "endpoint_new ledger_capacity =
     (case ledger_new ledger_capacity of
        Inl e \<Rightarrow> Inl e
      | Inr l \<Rightarrow> Inr \<lparr>he_protocol_id = TRANSPORT_PROTOCOL_ID, he_session_id = None, he_ledger = l\<rparr>)"

definition accept_hello ::
  "host_endpoint \<Rightarrow> ustr \<Rightarrow> ustr \<Rightarrow> (transport_error + bool) \<times> host_endpoint" where
  "accept_hello h protocol_id session_id =
     (if protocol_id = [] \<or> session_id = [] then (Inl TE_InvalidHello, h)
      else if protocol_id \<noteq> he_protocol_id h then (Inl TE_ProtocolMismatch, h)
      else let restart = (case he_session_id h of None \<Rightarrow> False | Some current \<Rightarrow> current \<noteq> session_id);
               l = (if restart then invalidate_all (he_ledger h) else he_ledger h)
           in (Inr restart, h\<lparr>he_ledger := l, he_session_id := Some session_id\<rparr>))"

definition check_session :: "host_endpoint \<Rightarrow> ustr \<Rightarrow> transport_error + unit" where
  "check_session h session_id =
     (case he_session_id h of
        None \<Rightarrow> Inl TE_NotEstablished
      | Some current \<Rightarrow> if current = session_id then Inr () else Inl TE_SessionMismatch)"

definition classify_request :: "host_endpoint \<Rightarrow> ustr \<Rightarrow> ustr \<Rightarrow> request_disposition" where
  "classify_request h request_id canonical = ledger_classify (he_ledger h) request_id canonical"

definition endpoint_record ::
  "host_endpoint \<Rightarrow> ustr \<Rightarrow> ustr \<Rightarrow> ledger_outcome \<Rightarrow> record_outcome \<times> host_endpoint" where
  "endpoint_record h request_id canonical out =
     (let (r, l) = ledger_record (he_ledger h) request_id canonical out in (r, h\<lparr>he_ledger := l\<rparr>))"

definition endpoint_record_with_recovery ::
  "host_endpoint \<Rightarrow> ustr \<Rightarrow> ustr \<Rightarrow> ledger_outcome \<Rightarrow> record_outcome \<times> host_endpoint" where
  "endpoint_record_with_recovery h request_id canonical out =
     (let (r, l) = ledger_record_with_recovery (he_ledger h) request_id canonical out
      in (r, h\<lparr>he_ledger := l\<rparr>))"

definition ambiguous_loss_outcome :: ledger_outcome where
  "ambiguous_loss_outcome = LO_Ambiguous (lit ''connection_lost_before_result'')"

definition composition_gate_outcome :: "ustr \<Rightarrow> ledger_outcome" where
  "composition_gate_outcome composition =
     (if composition = lit ''Inactive'' then LO_Definite (lit ''rejected:ExecutionNotImplemented'')
      else if composition = lit ''Active'' then LO_Definite (lit ''rejected:CompositionActive'')
      else LO_Definite (lit ''rejected:CompositionUnknown''))"

subsection \<open>The ledger invariant\<close>

definition ledger_inv :: "request_ledger \<Rightarrow> bool" where
  "ledger_inv l \<longleftrightarrow> 0 < lg_capacity l \<and> length (lg_order l) \<le> lg_capacity l \<and>
     distinct (lg_order l) \<and> set (lg_order l) = dom (lg_entries l)"

lemma ledger_new_inv: "ledger_new c = Inr l \<Longrightarrow> ledger_inv l \<and> lg_entries l = Map.empty"
  by (auto simp: ledger_new_def ledger_inv_def split: if_splits)

lemma invalidate_all_inv: "ledger_inv l \<Longrightarrow> ledger_inv (invalidate_all l)"
  by (simp add: ledger_inv_def invalidate_all_def)

lemma ledger_len_le: "ledger_inv l \<Longrightarrow> ledger_len l \<le> lg_capacity l"
  by (metis distinct_card ledger_inv_def ledger_len_def)

lemma record_cases:
  assumes "ledger_inv l"
  obtains
    (present) e where "lg_entries l rid = Some e" "record_inner l rid c out b = (RO_AlreadyPresent, l)"
  | (inserted) "lg_entries l rid = None" "length (lg_order l) < lg_capacity l"
      "record_inner l rid c out b =
        (RO_Inserted, ledger_push l rid \<lparr>le_canonical = c, le_outcome = out, le_recovery_backed = b\<rparr>)"
  | (evicted) i old where "lg_entries l rid = None" "i < length (lg_order l)" "lg_order l ! i = old"
      "length (lg_order l) = lg_capacity l" "evictable l old" "\<forall>j < i. \<not> evictable l (lg_order l ! j)"
      "record_inner l rid c out b = (RO_Evicted old,
         ledger_push (l\<lparr>lg_order := remove_nth i (lg_order l), lg_entries := (lg_entries l)(old := None)\<rparr>)
           rid \<lparr>le_canonical = c, le_outcome = out, le_recovery_backed = b\<rparr>)"
  | (full) "lg_entries l rid = None" "length (lg_order l) = lg_capacity l"
      "\<forall>x \<in> set (lg_order l). \<not> evictable l x" "record_inner l rid c out b = (RO_RejectedLedgerFull, l)"
proof (cases "lg_entries l rid")
  case (Some e)
  then show thesis by (intro present) (auto simp: record_inner_def)
next
  case None
  show thesis
  proof (cases "length (lg_order l) < lg_capacity l")
    case True
    with None show thesis by (intro inserted) (auto simp: record_inner_def)
  next
    case False
    then have len: "length (lg_order l) = lg_capacity l" using assms by (simp add: ledger_inv_def)
    show thesis
    proof (cases "position (evictable l) (lg_order l)")
      case none: None
      then have "\<forall>x \<in> set (lg_order l). \<not> evictable l x" by (simp add: position_None)
      with None False len none show thesis
        by (intro full) (simp_all add: record_inner_def)
    next
      case (Some i)
      with None False len position_Some [OF Some] show thesis
        by (intro evicted [of i "lg_order l ! i"]) (auto simp: record_inner_def Let_def)
    qed
  qed
qed

lemma record_inv:
  assumes inv: "ledger_inv l" and rec: "record_inner l rid c out b = (r, l')"
  shows "ledger_inv l' \<and> lg_capacity l' = lg_capacity l"
proof (rule record_cases [OF inv, of rid c out b])
  fix i old
  assume e: "lg_entries l rid = None" "i < length (lg_order l)" "lg_order l ! i = old"
    "length (lg_order l) = lg_capacity l"
    "record_inner l rid c out b = (RO_Evicted old,
         ledger_push (l\<lparr>lg_order := remove_nth i (lg_order l), lg_entries := (lg_entries l)(old := None)\<rparr>)
           rid \<lparr>le_canonical = c, le_outcome = out, le_recovery_backed = b\<rparr>)"
  have d: "distinct (lg_order l)" "set (lg_order l) = dom (lg_entries l)" "0 < lg_capacity l"
    using inv by (auto simp: ledger_inv_def)
  have "rid \<notin> set (lg_order l)" using d e(1) by auto
  then show ?thesis
    using remove_nth_distinct [OF d(1) e(2)] e rec d
    by (auto simp: ledger_inv_def ledger_push_def)
qed (use inv rec in \<open>auto simp: ledger_inv_def ledger_push_def\<close>)

text \<open>What a record does to a lookup: the new entry is found, an evictable one may be lost.\<close>

lemma record_lookup:
  assumes inv: "ledger_inv l" and rec: "record_inner l rid c out b = (r, l')"
  shows "(r = RO_Inserted \<or> (\<exists>old. r = RO_Evicted old) \<longrightarrow>
       lg_entries l' rid = Some \<lparr>le_canonical = c, le_outcome = out, le_recovery_backed = b\<rparr>) \<and>
     (r = RO_AlreadyPresent \<or> r = RO_RejectedLedgerFull \<longrightarrow> l' = l) \<and>
     (r = RO_AlreadyPresent \<longleftrightarrow> lg_entries l rid \<noteq> None) \<and>
     (\<forall>x. x \<noteq> rid \<longrightarrow> lg_entries l' x = lg_entries l x \<or>
        (r = RO_Evicted x \<and> lg_entries l' x = None \<and> evictable l x))"
  by (rule record_cases [OF inv, of rid c out b]) (use rec in \<open>auto simp: ledger_push_def\<close>)

subsection \<open>The interface: replay of recorded outcomes\<close>

text \<open>What a client did with one request.\<close>

datatype request_result =
    RR_Executed record_outcome ledger_outcome
  | RR_Replayed ledger_outcome
  | RR_Refused

record ledger_request =
  lq_request_id :: ustr
  lq_canonical :: ustr
  lq_outcome :: ledger_outcome
  lq_backed :: bool

locale replay_ledger =
  fixes inv :: "'l \<Rightarrow> bool"
    and classify :: "'l \<Rightarrow> ustr \<Rightarrow> ustr \<Rightarrow> request_disposition"
    and rec_outcome :: "'l \<Rightarrow> ustr \<Rightarrow> ustr \<Rightarrow> ledger_outcome \<Rightarrow> bool \<Rightarrow> record_outcome \<times> 'l"
    and pinned :: "'l \<Rightarrow> ustr \<Rightarrow> ustr \<Rightarrow> ledger_outcome \<Rightarrow> bool"
  assumes rec_inv: "inv l \<Longrightarrow> rec_outcome l rid c out b = (r, l') \<Longrightarrow> inv l'"
    and rec_found: "inv l \<Longrightarrow> rec_outcome l rid c out b = (r, l') \<Longrightarrow>
      r = RO_Inserted \<or> r = RO_Evicted old \<Longrightarrow> classify l' rid c = RD_Duplicate out"
    and rec_pins: "inv l \<Longrightarrow> rec_outcome l rid c out False = (r, l') \<Longrightarrow> is_ambiguous out \<Longrightarrow>
      r = RO_Inserted \<or> r = RO_Evicted old \<Longrightarrow> pinned l' rid c out"
    and pinned_kept: "inv l \<Longrightarrow> pinned l rid c out \<Longrightarrow> rec_outcome l x c' out' b = (r, l') \<Longrightarrow>
      pinned l' rid c out"
    and pinned_found: "pinned l rid c out \<Longrightarrow> classify l rid c = RD_Duplicate out"
    and fresh_rec: "inv l \<Longrightarrow> rec_outcome l rid c out b = (r, l') \<Longrightarrow> r = RO_AlreadyPresent \<Longrightarrow>
      classify l rid c \<noteq> RD_Fresh"
begin

text \<open>A client executes a fresh request, records its outcome and replays a duplicate.\<close>

definition handle :: "'l \<Rightarrow> ledger_request \<Rightarrow> request_result \<times> 'l" where
  "handle l q =
     (case classify l (lq_request_id q) (lq_canonical q) of
        RD_Fresh \<Rightarrow>
          (let (r, l') = rec_outcome l (lq_request_id q) (lq_canonical q) (lq_outcome q) (lq_backed q)
           in (RR_Executed r (lq_outcome q), l'))
      | RD_Duplicate out \<Rightarrow> (RR_Replayed out, l)
      | RD_Conflict \<Rightarrow> (RR_Refused, l))"

fun handle_all :: "'l \<Rightarrow> ledger_request list \<Rightarrow> request_result list \<times> 'l" where
  "handle_all l [] = ([], l)"
| "handle_all l (q # qs) =
     (let (r, l') = handle l q; (rs, l'') = handle_all l' qs in (r # rs, l''))"

lemma handle_inv: "inv l \<Longrightarrow> inv (snd (handle l q))"
  using rec_inv by (auto simp: handle_def split: request_disposition.splits prod.splits)

lemma handle_pinned: "inv l \<Longrightarrow> pinned l rid c out \<Longrightarrow> pinned (snd (handle l q)) rid c out"
  using pinned_kept by (auto simp: handle_def split: request_disposition.splits prod.splits)

lemma handle_all_pinned:
  assumes "inv l" and "pinned l rid c out" and "handle_all l qs = (rs, l')" and "i < length qs"
    and "lq_request_id (qs ! i) = rid" and "lq_canonical (qs ! i) = c"
  shows "rs ! i = RR_Replayed out"
  using assms
proof (induction qs arbitrary: l rs i)
  case (Cons q qs)
  obtain r l1 where h: "handle l q = (r, l1)" by fastforce
  obtain rs1 where t: "handle_all l1 qs = (rs1, l')" and rs: "rs = r # rs1"
    using Cons.prems(3) h by (auto split: prod.splits)
  show ?case
  proof (cases i)
    case 0
    with Cons.prems(2,5,6) h rs pinned_found [OF Cons.prems(2)] show ?thesis
      by (auto simp: handle_def)
  next
    case (Suc j)
    with Cons.IH [OF _ _ t, of j] Cons.prems handle_inv [OF Cons.prems(1), of q]
      handle_pinned [OF Cons.prems(1,2), of q] h rs
    show ?thesis by simp
  qed
qed simp

text \<open>At most once: an unbacked ambiguous outcome that was recorded is replayed for ever.\<close>

lemma ambiguous_at_most_once:
  assumes "inv l" and "handle_all l qs = (rs, l')" and "i < j" and "j < length qs"
    and "rs ! i = RR_Executed r out" and "r \<noteq> RO_RejectedLedgerFull" and "is_ambiguous out"
    and "\<not> lq_backed (qs ! i)"
    and "lq_request_id (qs ! j) = lq_request_id (qs ! i)" and "lq_canonical (qs ! j) = lq_canonical (qs ! i)"
  shows "rs ! j = RR_Replayed out"
  using assms
proof (induction qs arbitrary: l rs i j)
  case (Cons q qs)
  obtain x l1 where h: "handle l q = (x, l1)" by fastforce
  obtain rs1 where t: "handle_all l1 qs = (rs1, l')" and rs: "rs = x # rs1"
    using Cons.prems(2) h by (auto split: prod.splits)
  have i1: "inv l1" using handle_inv [OF Cons.prems(1), of q] h by simp
  obtain k where j: "j = Suc k" using Cons.prems(3) by (cases j) auto
  show ?case
  proof (cases i)
    case 0
    then have x: "x = RR_Executed r out" using Cons.prems(5) rs by simp
    then have fresh: "classify l (lq_request_id q) (lq_canonical q) = RD_Fresh"
      using h by (auto simp: handle_def split: request_disposition.splits)
    then have rec: "rec_outcome l (lq_request_id q) (lq_canonical q) out False = (r, l1)"
      using x h Cons.prems(8) 0 by (auto simp: handle_def split: prod.splits)
    have "r \<noteq> RO_AlreadyPresent" using fresh_rec [OF Cons.prems(1) rec] fresh by blast
    with Cons.prems(6) have "r = RO_Inserted \<or> (\<exists>old. r = RO_Evicted old)" by (cases r) auto
    then have "pinned l1 (lq_request_id q) (lq_canonical q) out"
      using rec_pins [OF Cons.prems(1) rec Cons.prems(7)] by blast
    from handle_all_pinned [OF i1 this t, of k] Cons.prems j 0 rs show ?thesis by simp
  next
    case (Suc i')
    with Cons.IH [OF i1 t, of i' k] Cons.prems j rs show ?thesis by simp
  qed
qed simp

end

definition ledger_pinned :: "request_ledger \<Rightarrow> ustr \<Rightarrow> ustr \<Rightarrow> ledger_outcome \<Rightarrow> bool" where
  "ledger_pinned l rid c out \<longleftrightarrow> is_ambiguous out \<and>
     lg_entries l rid = Some \<lparr>le_canonical = c, le_outcome = out, le_recovery_backed = False\<rparr>"

lemma ledger_laws:
  assumes "ledger_inv l" and "record_inner l rid c out b = (r, l')"
  shows "r = RO_Inserted \<or> r = RO_Evicted old \<Longrightarrow>
      lg_entries l' rid = Some \<lparr>le_canonical = c, le_outcome = out, le_recovery_backed = b\<rparr>"
    "r = RO_AlreadyPresent \<Longrightarrow> lg_entries l rid \<noteq> None"
    "ledger_pinned l x c' out' \<Longrightarrow> ledger_pinned l' x c' out'"
proof -
  note k = record_lookup [OF assms]
  show "r = RO_Inserted \<or> r = RO_Evicted old \<Longrightarrow>
      lg_entries l' rid = Some \<lparr>le_canonical = c, le_outcome = out, le_recovery_backed = b\<rparr>"
    using k by blast
  show "r = RO_AlreadyPresent \<Longrightarrow> lg_entries l rid \<noteq> None" using k by blast
  assume p: "ledger_pinned l x c' out'"
  then have "\<not> evictable l x" by (simp add: ledger_pinned_def evictable_def)
  moreover have "r = RO_AlreadyPresent" if "x = rid" using p that k by (auto simp: ledger_pinned_def)
  ultimately have "lg_entries l' x = lg_entries l x" using k by metis
  with p show "ledger_pinned l' x c' out'" by (simp add: ledger_pinned_def)
qed

interpretation ledger: replay_ledger ledger_inv ledger_classify record_inner ledger_pinned
proof unfold_locales
  fix l rid c out b r l' old
  assume a: "ledger_inv l" "record_inner l rid c out b = (r, l')"
  show "ledger_inv l'" using record_inv [OF a] by simp
  show "r = RO_Inserted \<or> r = RO_Evicted old \<Longrightarrow> ledger_classify l' rid c = RD_Duplicate out"
    using ledger_laws(1) [OF a] by (simp add: ledger_classify_def)
  show "r = RO_AlreadyPresent \<Longrightarrow> ledger_classify l rid c \<noteq> RD_Fresh"
    using ledger_laws(2) [OF a] by (auto simp: ledger_classify_def split: if_splits)
  show "ledger_pinned l x c' out' \<Longrightarrow> ledger_pinned l' x c' out'" for x c' out'
    by (rule ledger_laws(3) [OF a])
next
  fix l rid c out r l' old
  assume a: "ledger_inv l" "record_inner l rid c out False = (r, l')" "is_ambiguous out"
    "r = RO_Inserted \<or> r = RO_Evicted old"
  show "ledger_pinned l' rid c out"
    using ledger_laws(1) [OF a(1,2,4)] a(3) by (simp add: ledger_pinned_def)
next
  fix l rid c out
  assume "ledger_pinned l rid c out"
  then show "ledger_classify l rid c = RD_Duplicate out"
    by (simp add: ledger_pinned_def ledger_classify_def)
qed

subsection \<open>Requests over one endpoint\<close>

definition endpoint_inv :: "host_endpoint \<Rightarrow> bool" where
  "endpoint_inv h \<longleftrightarrow> ledger_inv (he_ledger h)"

definition endpoint_record_for ::
  "host_endpoint \<Rightarrow> ustr \<Rightarrow> ustr \<Rightarrow> ledger_outcome \<Rightarrow> bool \<Rightarrow> record_outcome \<times> host_endpoint" where
  "endpoint_record_for h rid c out backed =
     (if backed then endpoint_record_with_recovery h rid c out else endpoint_record h rid c out)"

lemma endpoint_record_for_eq:
  "endpoint_record_for h rid c out b =
     (let (r, l) = record_inner (he_ledger h) rid c out b in (r, h\<lparr>he_ledger := l\<rparr>))"
  by (simp add: endpoint_record_for_def endpoint_record_def endpoint_record_with_recovery_def
      ledger_record_def ledger_record_with_recovery_def)

definition endpoint_handle :: "host_endpoint \<Rightarrow> ledger_request \<Rightarrow> request_result \<times> host_endpoint" where
  "endpoint_handle h q =
     (case classify_request h (lq_request_id q) (lq_canonical q) of
        RD_Fresh \<Rightarrow>
          (let (r, h') =
             endpoint_record_for h (lq_request_id q) (lq_canonical q) (lq_outcome q) (lq_backed q)
           in (RR_Executed r (lq_outcome q), h'))
      | RD_Duplicate out \<Rightarrow> (RR_Replayed out, h)
      | RD_Conflict \<Rightarrow> (RR_Refused, h))"

fun endpoint_serve :: "host_endpoint \<Rightarrow> ledger_request list \<Rightarrow> request_result list \<times> host_endpoint" where
  "endpoint_serve h [] = ([], h)"
| "endpoint_serve h (q # qs) =
     (let (r, h') = endpoint_handle h q; (rs, h'') = endpoint_serve h' qs in (r # rs, h''))"

interpretation endpoint: replay_ledger endpoint_inv classify_request endpoint_record_for
    "\<lambda>h. ledger_pinned (he_ledger h)"
proof unfold_locales
  fix h h' :: host_endpoint and rid c out b r old
  assume a: "endpoint_inv h" "endpoint_record_for h rid c out b = (r, h')"
  then obtain l' where l: "ledger_inv (he_ledger h)" "record_inner (he_ledger h) rid c out b = (r, l')"
    "h' = h\<lparr>he_ledger := l'\<rparr>"
    by (auto simp: endpoint_inv_def endpoint_record_for_eq split: prod.splits)
  show "endpoint_inv h'" using ledger.rec_inv [OF l(1,2)] l(3) by (simp add: endpoint_inv_def)
  show "r = RO_Inserted \<or> r = RO_Evicted old \<Longrightarrow> classify_request h' rid c = RD_Duplicate out"
    using ledger.rec_found [OF l(1,2)] l(3) by (simp add: classify_request_def)
  show "r = RO_AlreadyPresent \<Longrightarrow> classify_request h rid c \<noteq> RD_Fresh"
    using ledger.fresh_rec [OF l(1,2)] by (simp add: classify_request_def)
  show "ledger_pinned (he_ledger h) x c' out' \<Longrightarrow> ledger_pinned (he_ledger h') x c' out'" for x c' out'
    using ledger.pinned_kept [OF l(1) _ l(2)] l(3) by simp
next
  fix h h' :: host_endpoint and rid c out r old
  assume a: "endpoint_inv h" "endpoint_record_for h rid c out False = (r, h')" "is_ambiguous out"
    "r = RO_Inserted \<or> r = RO_Evicted old"
  then obtain l' where l: "ledger_inv (he_ledger h)" "record_inner (he_ledger h) rid c out False = (r, l')"
    "h' = h\<lparr>he_ledger := l'\<rparr>"
    by (auto simp: endpoint_inv_def endpoint_record_for_eq split: prod.splits)
  show "ledger_pinned (he_ledger h') rid c out"
    using ledger.rec_pins [OF l(1,2) a(3,4)] l(3) by simp
next
  fix h :: host_endpoint and rid c out
  assume "ledger_pinned (he_ledger h) rid c out"
  from ledger.pinned_found [OF this] show "classify_request h rid c = RD_Duplicate out"
    by (simp add: classify_request_def)
qed

lemma endpoint_serve_eq: "endpoint_serve h qs = endpoint.handle_all h qs"
  by (induction qs arbitrary: h) (simp_all add: endpoint_handle_def endpoint.handle_def)

lemma endpoint_new_inv: "endpoint_new c = Inr h \<Longrightarrow> endpoint_inv h"
  by (auto simp: endpoint_new_def endpoint_inv_def split: sum.splits dest: ledger_new_inv)

text \<open>
  C3. At most once: within a session, once an endpoint has recorded an unbacked ambiguous outcome
  for a request, every later identical request is answered with that very outcome and never
  executed again, whatever other requests come in between and whatever they evict.
\<close>

theorem ambiguous_never_reexecuted:
  assumes "endpoint_inv h" and "endpoint_serve h qs = (rs, h')" and "i < j" and "j < length qs"
    and "rs ! i = RR_Executed r out" and "r \<noteq> RO_RejectedLedgerFull" and "is_ambiguous out"
    and "\<not> lq_backed (qs ! i)"
    and "lq_request_id (qs ! j) = lq_request_id (qs ! i)" and "lq_canonical (qs ! j) = lq_canonical (qs ! i)"
  shows "rs ! j = RR_Replayed out"
  using endpoint.ambiguous_at_most_once [OF assms(1) assms(2) [unfolded endpoint_serve_eq] assms(3-10)] .

lemma ambiguous_never_reexecuted_witness:
  "fst (endpoint_serve (projr (endpoint_new 1))
     [\<lparr>lq_request_id = [1], lq_canonical = [7], lq_outcome = LO_Ambiguous [9], lq_backed = False\<rparr>,
      \<lparr>lq_request_id = [2], lq_canonical = [7], lq_outcome = LO_Definite [8], lq_backed = False\<rparr>,
      \<lparr>lq_request_id = [1], lq_canonical = [7], lq_outcome = LO_Definite [5], lq_backed = False\<rparr>]) ! 2 =
   RR_Replayed (LO_Ambiguous [9])"
proof -
  let ?qs = "[\<lparr>lq_request_id = [1], lq_canonical = [7], lq_outcome = LO_Ambiguous [9], lq_backed = False\<rparr>,
      \<lparr>lq_request_id = [2], lq_canonical = [7], lq_outcome = LO_Definite [8], lq_backed = False\<rparr>,
      \<lparr>lq_request_id = [1], lq_canonical = [7], lq_outcome = LO_Definite [5], lq_backed = False\<rparr>]"
  obtain rs h' where s: "endpoint_serve (projr (endpoint_new 1)) ?qs = (rs, h')" by fastforce
  then have 0: "rs ! 0 = RR_Executed RO_Inserted (LO_Ambiguous [9])"
    by (auto simp: endpoint_new_def ledger_new_def endpoint_handle_def classify_request_def
        ledger_classify_def endpoint_record_for_eq record_inner_def split: prod.splits)
  have "endpoint_inv (projr (endpoint_new 1))"
    by (rule endpoint_new_inv [of 1]) (simp add: endpoint_new_def ledger_new_def)
  from ambiguous_never_reexecuted [OF this s _ _ 0, of 2] s show ?thesis
    by (simp add: is_ambiguous_def)
qed

text \<open>
  The ledger is bounded and evicts deterministically: recording keeps the invariant and the
  bound; it changes nothing for a known id or when every retained entry is an unbacked ambiguous
  outcome at capacity; otherwise the new entry is found afterwards and at most one other entry,
  the oldest evictable one, is gone.
\<close>

lemma ledger_record_correct:
  assumes "ledger_inv l" and "record_inner l rid c out b = (r, l')"
  shows "ledger_inv l' \<and> ledger_len l' \<le> lg_capacity l \<and>
    (r = RO_AlreadyPresent \<longleftrightarrow> lg_entries l rid \<noteq> None) \<and>
    (r = RO_RejectedLedgerFull \<longleftrightarrow> lg_entries l rid = None \<and> length (lg_order l) = lg_capacity l \<and>
       list_all (\<lambda>x. \<not> evictable l x) (lg_order l)) \<and>
    (if r \<in> {RO_AlreadyPresent, RO_RejectedLedgerFull} then l' = l
     else ledger_classify l' rid c = RD_Duplicate out \<and>
       (\<forall>x. x \<noteq> rid \<and> r \<noteq> RO_Evicted x \<longrightarrow> lg_entries l' x = lg_entries l x)) \<and>
    (\<forall>x. r = RO_Evicted x \<longrightarrow> (\<exists>i < length (lg_order l). lg_order l ! i = x \<and> evictable l x \<and>
       (\<forall>j < i. \<not> evictable l (lg_order l ! j))))"
proof -
  have i: "ledger_inv l'" "lg_capacity l' = lg_capacity l" using record_inv [OF assms] by auto
  have "set (lg_order l) = dom (lg_entries l)" using assms(1) by (simp add: ledger_inv_def)
  show ?thesis
    by (rule record_cases [OF assms(1), of rid c out b])
      (use assms(2) i ledger_len_le [OF i(1)] in
        \<open>auto simp: ledger_push_def ledger_classify_def list_all_iff\<close>)
qed

lemma ledger_record_correct_witness:
  "\<exists>l. record_inner \<lparr>lg_capacity = 1, lg_order = [[1]],
      lg_entries = [[1] \<mapsto> \<lparr>le_canonical = [7], le_outcome = LO_Definite [8], le_recovery_backed = False\<rparr>]\<rparr>
      [2] [7] (LO_Ambiguous [9]) False = (RO_Evicted [1], l) \<and> ledger_len l \<le> 1"
proof -
  let ?l = "\<lparr>lg_capacity = 1, lg_order = [[1]],
      lg_entries = [[1] \<mapsto> \<lparr>le_canonical = [7], le_outcome = LO_Definite [8], le_recovery_backed = False\<rparr>]\<rparr>"
  obtain l' where l': "record_inner ?l [2] [7] (LO_Ambiguous [9]) False = (RO_Evicted [1], l')"
    by (simp add: record_inner_def evictable_def is_ambiguous_def Let_def)
  have "ledger_inv ?l" by (auto simp: ledger_inv_def)
  from ledger_record_correct [OF this l'] l' show ?thesis by auto
qed

text \<open>
  A hello with a new session id is a restart: it forgets every recorded outcome. A hello for
  the current session, and a refused hello, keep the ledger; afterwards exactly the accepted
  session id passes the session check.
\<close>

lemma accept_hello_correct:
  assumes "endpoint_inv h" and "accept_hello h pid sid = (r, h')"
  shows "endpoint_inv h' \<and>
    (case r of
       Inl e \<Rightarrow> h' = h
     | Inr restart \<Rightarrow>
         pid = he_protocol_id h \<and> (\<forall>x. check_session h' x = Inr () \<longleftrightarrow> x = sid) \<and>
         (restart \<longleftrightarrow> (\<exists>old. he_session_id h = Some old \<and> old \<noteq> sid)) \<and>
         (if restart then \<forall>x c. classify_request h' x c = RD_Fresh else he_ledger h' = he_ledger h))"
  using assms
  by (cases "he_session_id h")
    (auto simp: accept_hello_def endpoint_inv_def invalidate_all_inv check_session_def
      classify_request_def ledger_classify_def invalidate_all_def ledger_inv_def Let_def
      split: if_splits)

lemma accept_hello_correct_witness:
  "\<exists>h. accept_hello (projr (endpoint_new 4)) TRANSPORT_PROTOCOL_ID [5] = (Inr False, h) \<and>
    check_session h [5] = Inr ()"
proof -
  let ?h = "projr (endpoint_new 4)"
  obtain h where h: "accept_hello ?h TRANSPORT_PROTOCOL_ID [5] = (Inr False, h)"
    by (simp add: accept_hello_def endpoint_new_def ledger_new_def TRANSPORT_PROTOCOL_ID_def)
  have "endpoint_inv ?h" by (rule endpoint_new_inv [of 4]) (simp add: endpoint_new_def ledger_new_def)
  from accept_hello_correct [OF this h] h show ?thesis by auto
qed

end
