(* ===== verification/Handoff.thy ===== *)
theory Handoff
  imports Processor
begin

text \<open>
  From the decision processor to a host request (zonkey-service, \<open>transport.rs\<close>):
  \<open>build_host_request\<close>, the token feeder of the validation endpoint and the decision state
  shared between the observer loop and a pipe endpoint.
\<close>

record handoff_request =
  hr_request_id :: ustr
  hr_rendered_token :: ustr
  hr_replacement_token :: ustr
  hr_rendered_units :: nat
  hr_replacement_units :: nat
  hr_generation :: u64

datatype handoff_request_error =
    HE_NoCurrentPlan
  | HE_StaleHandoff
  | HE_GenerationMismatch
  | HE_MalformedSpan
  | HE_InternalGateFailed

text \<open>The \<open>match\<close> on the gate's rejection.\<close>

fun gate_error :: "internal_gate_rejection \<Rightarrow> handoff_request_error" where
  "gate_error GR_NoCurrentPlan = HE_NoCurrentPlan"
| "gate_error GR_PlanIneligible = HE_NoCurrentPlan"
| "gate_error GR_NoCurrentHandoff = HE_StaleHandoff"
| "gate_error GR_HandoffStale = HE_StaleHandoff"
| "gate_error GR_GenerationMismatch = HE_GenerationMismatch"
| "gate_error GR_HandoffMalformed = HE_MalformedSpan"
| "gate_error GR_InternalSpanInconsistent = HE_MalformedSpan"
| "gate_error GR_SimulationInvariantBroken = HE_InternalGateFailed"

definition host_request :: "restore_plan_handoff \<Rightarrow> handoff_request" where
  "host_request h =
     \<lparr>hr_request_id = lit ''handoff-'' @ show_nat (unat (ho_generation h)),
      hr_rendered_token = ho_rendered_token h, hr_replacement_token = ho_replacement_token h,
      hr_rendered_units = ho_rendered_units_to_replace h,
      hr_replacement_units = ho_replacement_units h, hr_generation = ho_generation h\<rparr>"

definition build_host_request ::
  "decision_processor \<Rightarrow> restore_plan_handoff \<Rightarrow> handoff_request_error + handoff_request" where
  "build_host_request p h =
     (if current_restore_handoff p = None then Inl HE_NoCurrentPlan
      else (case evaluate_internal_execution_gate p h of
              G_Rejected reason \<Rightarrow> Inl (gate_error reason)
            | G_PassedForExternalValidation \<Rightarrow>
                if ho_rendered_token h = [] \<or> ho_replacement_token h = [] \<or>
                   ho_rendered_units_to_replace h \<noteq> length (ho_rendered_token h) \<or>
                   ho_replacement_units h \<noteq> length (ho_replacement_token h)
                then Inl HE_MalformedSpan
                else Inr (host_request h)))"

subsection \<open>Feeding a token\<close>

definition fed_event :: "observed_key \<Rightarrow> event_sequence \<Rightarrow> observed_input_event" where
  "fed_event key seq =
     \<lparr>oe_key = key, oe_kind = KE_KeyDown, oe_modifiers = modifier_state_new,
      oe_injection_origin = IO_PhysicalOrUnmarked, oe_sequence = seq\<rparr>"

text \<open>\<open>None\<close> is a panic: a character that is not an ASCII letter, or sequence number zero.\<close>

fun feed_letters ::
  "unicode \<Rightarrow> decision_processor \<Rightarrow> ustr \<Rightarrow> u64 \<Rightarrow> (decision_processor \<times> u64) option" where
  "feed_letters U p [] seq = Some (p, seq)"
| "feed_letters U p (c # cs) seq =
     (case (key_letter c, event_sequence_new seq) of
        (Inr key, Inr s) \<Rightarrow>
          (case process_decision U p (fed_event key s) of
             None \<Rightarrow> None
           | Some (_, p') \<Rightarrow> feed_letters U p' cs (seq + 1))
      | _ \<Rightarrow> None)"

definition feed_token ::
  "unicode \<Rightarrow> decision_processor \<Rightarrow> ustr \<Rightarrow> u64 \<Rightarrow> decision_processor option" where
  "feed_token U p word start_sequence =
     (case feed_letters U p word start_sequence of
        None \<Rightarrow> None
      | Some (p', seq) \<Rightarrow>
         (case event_sequence_new seq of
            Inl _ \<Rightarrow> None
          | Inr s \<Rightarrow> map_option snd (process_decision U p' (fed_event OK_Space s))))"

subsection \<open>Shared decision state\<close>

text \<open>The mutex is poisoned when a thread panics while it holds the lock.\<close>

record shared_decision_state =
  sd_processor :: decision_processor
  sd_poisoned :: bool

definition shared_new :: shared_decision_state where
  "shared_new = \<lparr>sd_processor = processor_new False, sd_poisoned = False\<rparr>"

text \<open>The first component is \<open>None\<close> when the call panics.\<close>

definition shared_process ::
  "unicode \<Rightarrow> shared_decision_state \<Rightarrow> observed_input_event
    \<Rightarrow> processor_classification option \<times> shared_decision_state" where
  "shared_process U s event =
     (if sd_poisoned s then (Some PC_Invalid, s)
      else (case process_decision U (sd_processor s) event of
              None \<Rightarrow> (None, s\<lparr>sd_poisoned := True\<rparr>)
            | Some (c, p) \<Rightarrow> (Some c, s\<lparr>sd_processor := p\<rparr>)))"

definition shared_reset :: "shared_decision_state \<Rightarrow> shared_decision_state" where
  "shared_reset s =
     (if sd_poisoned s then s else s\<lparr>sd_processor := reset_decision_state (sd_processor s)\<rparr>)"

definition current_handoff_request ::
  "shared_decision_state \<Rightarrow> handoff_request_error + handoff_request" where
  "current_handoff_request s =
     (if sd_poisoned s then Inl HE_InternalGateFailed
      else (case current_restore_handoff (sd_processor s) of
              None \<Rightarrow> Inl HE_NoCurrentPlan
            | Some h \<Rightarrow> build_host_request (sd_processor s) h))"

definition shared_event_processor :: "unicode \<Rightarrow> shared_decision_state event_processor" where
  "shared_event_processor U =
     \<lparr>reset_after_discontinuity = shared_reset,
      process_event = (\<lambda>s e. case shared_process U s e of
         (None, _) \<Rightarrow> None | (Some c, s') \<Rightarrow> Some (c, s'))\<rparr>"

subsection \<open>Properties\<close>

lemma current_handoff_facts:
  assumes "reachable U p" and "current_restore_handoff p = Some h"
  shows "ho_rendered_token h \<noteq> []" "ho_replacement_token h \<noteq> []"
    "ho_rendered_units_to_replace h = length (ho_rendered_token h)"
    "ho_replacement_units h = length (ho_replacement_token h)"
    "evaluate_internal_execution_gate p h = G_PassedForExternalValidation"
proof -
  obtain plan where plan: "dp_last_restore_plan p = Some plan"
    and h: "h = \<lparr>ho_rendered_token = rp_rendered_token plan,
                ho_replacement_token = rp_replacement_token plan,
                ho_rendered_units_to_replace = rp_rendered_units_to_replace plan,
                ho_replacement_units = rp_replacement_units plan,
                ho_reason = rp_reason plan, ho_generation = rp_generation plan,
                ho_simulation_only = True\<rparr>"
    using assms(2) by (auto simp: current_restore_handoff_def split: if_splits option.splits)
  then have ok: "plan_ok p plan" using reachable_inv [OF assms(1)] by (simp add: processor_inv_def)
  show "ho_rendered_token h \<noteq> []" "ho_replacement_token h \<noteq> []"
    "ho_rendered_units_to_replace h = length (ho_rendered_token h)"
    "ho_replacement_units h = length (ho_replacement_token h)"
    using ok plan_ok_nonempty [OF ok] by (auto simp: h plan_ok_def)
  show "evaluate_internal_execution_gate p h = G_PassedForExternalValidation"
    using gate_current [OF assms(1)] assms(2) by simp
qed

lemma build_host_request_iff:
  assumes "reachable U p"
  shows "build_host_request p h = Inr r \<longleftrightarrow> current_restore_handoff p = Some h \<and> r = host_request h"
proof (cases "current_restore_handoff p = Some h")
  case True
  then show ?thesis
    using current_handoff_facts [OF assms True] by (auto simp: build_host_request_def)
next
  case False
  then have "evaluate_internal_execution_gate p h \<noteq> G_PassedForExternalValidation"
    using gate_current [OF assms] by simp
  with False show ?thesis
    by (auto simp: build_host_request_def split: internal_execution_gate.splits)
qed

text \<open>The request for the plan of generation \<open>g\<close> that replaces \<open>shown\<close> by \<open>replacement\<close>, written out.\<close>

lemma host_request_of_plan:
  assumes "reachable U p" and "current_restore_handoff p = Some h" and "dp_last_restore_plan p = Some plan"
  shows "host_request h =
    \<lparr>hr_request_id = lit ''handoff-'' @ show_nat (unat (rp_generation plan)),
     hr_rendered_token = rp_rendered_token plan, hr_replacement_token = rp_replacement_token plan,
     hr_rendered_units = length (rp_rendered_token plan), hr_replacement_units = length (rp_replacement_token plan),
     hr_generation = rp_generation plan\<rparr>"
proof -
  have "plan_ok p plan" using reachable_inv [OF assms(1)] assms(3) by (simp add: processor_inv_def)
  with assms(2,3) show ?thesis
    by (auto simp: current_restore_handoff_def host_request_def plan_ok_def split: if_splits)
qed

lemma current_handoff_plan:
  "current_restore_handoff p = Some h \<Longrightarrow> \<exists>plan. dp_last_restore_plan p = Some plan"
  by (auto simp: current_restore_handoff_def split: if_splits option.splits)

lemma reachable_steps:
  assumes "reachable U p" and "decision_steps U p is = Some (cs, p')"
  shows "reachable U p'"
proof -
  obtain b js ds where "decision_steps U (processor_new b) js = Some (ds, p)"
    using assms(1) by (auto simp: reachable_def)
  from decision_steps_append [OF this, of "is"] assms(2)
  have "decision_steps U (processor_new b) (js @ is) = Some (ds @ cs, p')" by simp
  then show ?thesis unfolding reachable_def by blast
qed

text \<open>
  C10. A host request exists exactly for the handoff that is current in the processor, whatever
  events led to it, and asks for what the stored plan says: its rendering, its replacement, their
  lengths and its generation, which also makes the request id.  Two requests that one processor
  builds, with any events and gaps between them, have the same id only when they come from the
  same plan: the requests are then equal, and everything between them was ignored.
\<close>

theorem host_request_only_for_current:
  assumes "reachable U p"
  shows "(build_host_request p h = Inr r \<longleftrightarrow>
      current_restore_handoff p = Some h \<and>
      (\<exists>plan. dp_last_restore_plan p = Some plan \<and>
         r = \<lparr>hr_request_id = lit ''handoff-'' @ show_nat (unat (rp_generation plan)),
              hr_rendered_token = rp_rendered_token plan, hr_replacement_token = rp_replacement_token plan,
              hr_rendered_units = length (rp_rendered_token plan),
              hr_replacement_units = length (rp_replacement_token plan), hr_generation = rp_generation plan\<rparr>)) \<and>
    (build_host_request p h = Inr r \<and> decision_steps U p is = Some (cs, p') \<and> build_host_request p' h' = Inr r' \<and>
       hr_request_id r' = hr_request_id r \<longrightarrow>
     dp_last_restore_plan p' = dp_last_restore_plan p \<and> r' = r \<and> set cs \<subseteq> {Some PC_Ignored})"
proof (intro conjI impI; (elim conjE)?)
  show "build_host_request p h = Inr r \<longleftrightarrow>
      current_restore_handoff p = Some h \<and>
      (\<exists>plan. dp_last_restore_plan p = Some plan \<and>
         r = \<lparr>hr_request_id = lit ''handoff-'' @ show_nat (unat (rp_generation plan)),
              hr_rendered_token = rp_rendered_token plan, hr_replacement_token = rp_replacement_token plan,
              hr_rendered_units = length (rp_rendered_token plan),
              hr_replacement_units = length (rp_replacement_token plan), hr_generation = rp_generation plan\<rparr>)"
    using build_host_request_iff [OF assms, of h r] host_request_of_plan [OF assms] current_handoff_plan [of p h]
    by auto
next
  assume r: "build_host_request p h = Inr r" and steps: "decision_steps U p is = Some (cs, p')"
    and r': "build_host_request p' h' = Inr r'" and eq: "hr_request_id r' = hr_request_id r"
  note p' = reachable_steps [OF assms steps]
  obtain plan where plan: "current_restore_handoff p = Some h" "r = host_request h" "dp_last_restore_plan p = Some plan"
    using r build_host_request_iff [OF assms] current_handoff_plan by blast
  obtain plan' where plan': "current_restore_handoff p' = Some h'" "r' = host_request h'"
    "dp_last_restore_plan p' = Some plan'"
    using r' build_host_request_iff [OF p'] current_handoff_plan by blast
  note h = host_request_of_plan [OF assms plan(1,3)] host_request_of_plan [OF p' plan'(1,3)]
  have "rp_generation plan' = rp_generation plan"
    using eq unfolding plan(2) plan'(2) h by (simp add: show_nat_inject flip: word_unat_eq_iff)
  note same = plan_survives [OF steps reachable_inv [OF assms] plan(3) plan'(3) this]
  with plan(3) plan'(3) show "dp_last_restore_plan p' = dp_last_restore_plan p" "set cs \<subseteq> {Some PC_Ignored}"
    by simp_all
  show "r' = r" using same unfolding plan(2) plan'(2) h by simp
qed

lemma host_request_only_for_current_witness:
  "\<exists>p q h r. build_host_request p h = Inr r \<and> hr_request_id r = lit ''handoff-1'' \<and>
    hr_rendered_token r = [116, 0xE9, 116] \<and> hr_replacement_token r = lit ''test'' \<and>
    decision_steps scalar_unicode p [DI_Event (sample_event\<lparr>oe_injection_origin := IO_MarkedInjected\<rparr>)] =
      Some ([Some PC_Ignored], q) \<and>
    build_host_request q h = Inr r \<and> dp_last_restore_plan q = dp_last_restore_plan p"
proof -
  obtain p where p: "reachable scalar_unicode p"
    and last: "dp_last_restore_plan p = typed_word_plan (lit ''test'') [116, 0xE9, 116]"
    using test_reachable by blast
  obtain plan where plan: "dp_last_restore_plan p = Some plan" "rp_generation plan = 1"
    "rp_rendered_token plan = [116, 0xE9, 116]" "rp_replacement_token plan = lit ''test''"
    using last built_in_test by (auto simp: typed_word_plan_def)
  obtain h where h: "current_restore_handoff p = Some h"
    using last built_in_test
    by (auto simp: current_restore_handoff_def current_plan_eligibility_def validate_restore_plan_def
        typed_word_plan_def)
  let ?e = "sample_event\<lparr>oe_injection_origin := IO_MarkedInjected\<rparr>"
  let ?q = "p\<lparr>dp_injected_events := saturating_inc (dp_injected_events p)\<rparr>"
  have step: "decision_steps scalar_unicode p [DI_Event ?e] = Some ([Some PC_Ignored], ?q)"
    by (simp add: process_decision_def)
  have "current_plan_eligibility ?q = current_plan_eligibility p" by (simp add: current_plan_eligibility_def)
  then have "current_restore_handoff ?q = Some h" using h by (simp add: current_restore_handoff_def split: if_splits)
  then have q: "build_host_request ?q h = Inr (host_request h)"
    using build_host_request_iff [OF reachable_steps [OF p step]] by simp
  have one: "show_nat (unat (1 :: u64)) = lit ''1''" by (simp add: show_nat.simps)
  note current = host_request_only_for_current [OF p, of h]
  obtain r where r: "build_host_request p h = Inr r" "hr_request_id r = lit ''handoff-1''"
    "hr_rendered_token r = [116, 0xE9, 116]" "hr_replacement_token r = lit ''test''"
    using current plan h one by auto
  then have "r = host_request h" using build_host_request_iff [OF p] by simp
  with q r current [of r "[DI_Event ?e]" "[Some PC_Ignored]" ?q h r] step
  have "build_host_request ?q h = Inr r \<and> dp_last_restore_plan ?q = dp_last_restore_plan p" by simp
  with r step show ?thesis by blast
qed

text \<open>The processor does not look at sequence numbers.\<close>

lemma process_decision_sequence:
  "process_decision U p (e\<lparr>oe_sequence := s\<rparr>) = process_decision U p e"
proof -
  have 1: "update_shortcut_state p (e\<lparr>oe_sequence := s\<rparr>) = update_shortcut_state p e"
    "boundary_for (e\<lparr>oe_sequence := s\<rparr>) = boundary_for e"
    "key_character (e\<lparr>oe_sequence := s\<rparr>) = key_character e"
    by (simp_all add: update_shortcut_state_def boundary_for_def key_character_def split: option.split)
  have 2: "shortcut_active q (e\<lparr>oe_sequence := s\<rparr>) = shortcut_active q e" for q
    by (simp add: shortcut_active_def)
  show ?thesis
    by (cases "update_shortcut_state p e"; cases "boundary_for e")
      (simp_all add: process_decision_def 1 2)
qed

lemma process_fed_event: "process_decision U p (fed_event k s) = process_decision U p (sample_event\<lparr>oe_key := k\<rparr>)"
proof -
  have "fed_event k s = (sample_event\<lparr>oe_key := k\<rparr>)\<lparr>oe_sequence := s\<rparr>"
    by (simp add: fed_event_def sample_event_def)
  then show ?thesis by (simp only: process_decision_sequence)
qed

lemma next_sequence:
  "unat seq + Suc n < 2 ^ 64 \<Longrightarrow> unat (seq + 1 :: u64) = unat seq + 1"
  by (subst unat_add_lem [THEN iffD1]) simp_all

lemma feed_letters_steps:
  assumes "list_all is_ascii_alphabetic w" and "seq \<noteq> 0" and "unat seq + length w < 2 ^ 64"
  shows "feed_letters U p w seq =
    map_option (\<lambda>(cs, p'). (p', seq + of_nat (length w))) (decision_steps U p (typed_word w))"
  using assms
proof (induction w arbitrary: p seq)
  case (Cons c w)
  have n: "unat (seq + 1) = unat seq + 1" using Cons.prems(3) by (intro next_sequence) simp
  then have "seq + 1 \<noteq> 0" by (metis add_is_0 one_neq_zero unat_0)
  moreover have "unat (seq + 1) + length w < 2 ^ 64" using Cons.prems(3) n by simp
  ultimately have ih: "feed_letters U q w (seq + 1) =
      map_option (\<lambda>(cs, p'). (p', seq + 1 + of_nat (length w))) (decision_steps U q (typed_word w))" for q
    using Cons.IH Cons.prems(1) by simp
  have k: "key_letter c = Inr (OK_Letter c)" "event_sequence_new seq = Inr (EventSequence seq)"
    using Cons.prems(1,2) by (simp_all add: key_letter_def event_sequence_new_def)
  show ?case
    by (simp add: k process_fed_event ih typed_word_def key_press_def option.map_comp comp_def
        split: option.split prod.split)
      (simp add: algebra_simps option.map_comp comp_def case_prod_unfold)
qed (simp add: typed_word_def)

lemma feed_token_steps:
  assumes "list_all is_ascii_alphabetic w" and "seq \<noteq> 0" and "unat seq + length w < 2 ^ 64"
  shows "feed_token U p w seq =
    map_option snd (decision_steps U p (typed_word w @ [key_press OK_Space]))"
proof (cases "decision_steps U p (typed_word w)")
  case None
  moreover have "decision_steps U p (is @ js) = None" if "decision_steps U p is = None" for "is" js
    using that by (induction U p "is" rule: decision_steps.induct) (auto split: option.splits)
  ultimately show ?thesis
    by (simp add: feed_token_def feed_letters_steps [OF assms])
next
  case (Some x)
  obtain cs q where x: "x = (cs, q)" by fastforce
  have "unat (seq + of_nat (length w)) = unat seq + length w"
    using assms(3) by (simp add: unat_word_ariths take_bit_eq_mod unat_of_nat)
  then have "seq + of_nat (length w) \<noteq> 0"
    using assms(2) by (metis add_is_0 unat_0 unat_0_iff)
  with Some x decision_steps_append [OF Some [unfolded x], of "[key_press OK_Space]"]
  show ?thesis
    by (cases "process_decision U q (sample_event\<lparr>oe_key := OK_Space\<rparr>)")
      (auto simp: feed_token_def feed_letters_steps [OF assms] event_sequence_new_def process_fed_event
        key_press_def)
qed

text \<open>
  From typed text to a host request: feeding a lower-case word into a fresh decision state does
  not panic, and a request to replace the Telex rendering by the typed word exists afterwards
  exactly when the word is in an embedded dictionary and Telex changed it; in every other case
  there is no current plan.
\<close>

lemma fed_word_request:
  assumes "list_all is_ascii_lowercase w" and "w \<noteq> []" and "compose w = Inr r"
    and "seq \<noteq> 0" and "unat seq + length w < 2 ^ 64"
  shows "\<exists>p. feed_token U (processor_new b) w seq = Some p \<and>
    current_handoff_request \<lparr>sd_processor = p, sd_poisoned = False\<rparr> =
      (if w \<noteq> r \<and> built_in_classify w \<noteq> None then
         Inr \<lparr>hr_request_id = lit ''handoff-1'', hr_rendered_token = r, hr_replacement_token = w,
              hr_rendered_units = length r, hr_replacement_units = length w, hr_generation = 1\<rparr>
       else Inl HE_NoCurrentPlan)"
proof -
  have a: "list_all is_ascii_alphabetic w"
    using assms(1) by (auto simp: list_all_iff is_ascii_alphabetic_def)
  obtain p where s: "decision_steps U (processor_new b) (typed_word w @ [key_press OK_Space]) =
      Some (map (\<lambda>_. Some PC_Observed) w @ [Some PC_BoundaryObserved], p)"
    and plan: "dp_last_restore_plan p = typed_word_plan w r"
    using typed_word_run [OF assms(1-3)] by blast
  then have r: "reachable U p" unfolding reachable_def by blast
  have "r \<noteq> []" using compose_facts(3) [OF assms(3)] assms(2) by simp
  then have h: "current_restore_handoff p =
      (if w \<noteq> r \<and> built_in_classify w \<noteq> None then
         Some \<lparr>ho_rendered_token = r, ho_replacement_token = w,
           ho_rendered_units_to_replace = length r, ho_replacement_units = length w,
           ho_reason = class_reason (the (built_in_classify w)), ho_generation = 1,
           ho_simulation_only = True\<rparr>
       else None)"
    using plan assms(2)
    by (auto simp: current_restore_handoff_def current_plan_eligibility_def validate_restore_plan_def
        typed_word_plan_def split: option.splits)
  have d: "show_nat (unat (1 :: u64)) = lit ''1''" by (simp add: show_nat.simps)
  show ?thesis
    using feed_token_steps [OF a assms(4,5), of U "processor_new b"] s h
      build_host_request_iff [OF r] d
    by (auto simp: current_handoff_request_def host_request_def)
qed

lemma fed_word_request_witness:
  "\<exists>p r. feed_token scalar_unicode (processor_new False) (lit ''test'') 1 = Some p \<and>
    current_handoff_request \<lparr>sd_processor = p, sd_poisoned = False\<rparr> = Inr r \<and>
    hr_replacement_token r = lit ''test''"
  using fed_word_request [OF _ _ compose_test, of 1 scalar_unicode False] built_in_test
  by (auto simp: is_ascii_lowercase_def)

text \<open>
  The shared state is never poisoned, since the processor does not panic: it behaves as the
  processor it wraps.
\<close>

definition shared_inv :: "shared_decision_state \<Rightarrow> bool" where
  "shared_inv s \<longleftrightarrow> \<not> sd_poisoned s \<and> processor_inv (sd_processor s)"

lemma shared_process_inv:
  assumes "shared_inv s"
  shows "\<exists>c p. process_decision U (sd_processor s) e = Some (c, p) \<and>
    shared_process U s e = (Some c, s\<lparr>sd_processor := p\<rparr>) \<and> shared_inv (s\<lparr>sd_processor := p\<rparr>)"
  using assms process_decision_step [of "sd_processor s" U e]
  by (auto simp: shared_inv_def shared_process_def step_ok_def)

interpretation shared: event_processor_contract "shared_event_processor U" shared_inv "\<lambda>_. True"
  for U
proof unfold_locales
  fix s assume "shared_inv s"
  then show "shared_inv (reset_after_discontinuity (shared_event_processor U) s)"
    by (simp add: shared_event_processor_def shared_reset_def shared_inv_def reset_decision_state_step)
next
  fix s e assume "shared_inv s"
  from shared_process_inv [OF this, of U e]
  show "\<exists>c s'. process_event (shared_event_processor U) s e = Some (c, s') \<and> shared_inv s'"
    by (auto simp: shared_event_processor_def)
qed

lemma shared_new_inv: "shared_inv shared_new"
  by (simp add: shared_inv_def shared_new_def processor_inv_new)

end
