(* ===== verification/Hashing.thy ===== *)
theory Hashing
  imports Utf
begin

text \<open>
  The checksums of the durable recovery state (zonkey-service, \<open>recovery_codec.rs\<close>): SHA-256
  as the salted token hash, CRC-32 as the integrity check of the file, and the hexadecimal form
  that keys restored targets (\<open>transport.rs\<close>, \<open>hex\<close>).
\<close>

unbundle bit_operations_syntax

definition SALT_BYTES :: nat where
  "SALT_BYTES = 16"

subsection \<open>SHA-256\<close>

definition rotr :: "nat \<Rightarrow> u32 \<Rightarrow> u32" where
  "rotr n w = (drop_bit n w OR push_bit (32 - n) w)"

text \<open>The constants are written with the source's grouping, as in \<open>0x428a_2f98\<close>.\<close>

definition grouped :: "(u32 \<times> u32) list \<Rightarrow> u32 list" where
  "grouped = map (\<lambda>(hi, lo). push_bit 16 hi OR lo)"

definition sha_K :: "u32 list" where
  "sha_K = grouped
     [(0x428a, 0x2f98), (0x7137, 0x4491), (0xb5c0, 0xfbcf), (0xe9b5, 0xdba5), (0x3956, 0xc25b), (0x59f1, 0x11f1),
      (0x923f, 0x82a4), (0xab1c, 0x5ed5), (0xd807, 0xaa98), (0x1283, 0x5b01), (0x2431, 0x85be), (0x550c, 0x7dc3),
      (0x72be, 0x5d74), (0x80de, 0xb1fe), (0x9bdc, 0x06a7), (0xc19b, 0xf174), (0xe49b, 0x69c1), (0xefbe, 0x4786),
      (0x0fc1, 0x9dc6), (0x240c, 0xa1cc), (0x2de9, 0x2c6f), (0x4a74, 0x84aa), (0x5cb0, 0xa9dc), (0x76f9, 0x88da),
      (0x983e, 0x5152), (0xa831, 0xc66d), (0xb003, 0x27c8), (0xbf59, 0x7fc7), (0xc6e0, 0x0bf3), (0xd5a7, 0x9147),
      (0x06ca, 0x6351), (0x1429, 0x2967), (0x27b7, 0x0a85), (0x2e1b, 0x2138), (0x4d2c, 0x6dfc), (0x5338, 0x0d13),
      (0x650a, 0x7354), (0x766a, 0x0abb), (0x81c2, 0xc92e), (0x9272, 0x2c85), (0xa2bf, 0xe8a1), (0xa81a, 0x664b),
      (0xc24b, 0x8b70), (0xc76c, 0x51a3), (0xd192, 0xe819), (0xd699, 0x0624), (0xf40e, 0x3585), (0x106a, 0xa070),
      (0x19a4, 0xc116), (0x1e37, 0x6c08), (0x2748, 0x774c), (0x34b0, 0xbcb5), (0x391c, 0x0cb3), (0x4ed8, 0xaa4a),
      (0x5b9c, 0xca4f), (0x682e, 0x6ff3), (0x748f, 0x82ee), (0x78a5, 0x636f), (0x84c8, 0x7814), (0x8cc7, 0x0208),
      (0x90be, 0xfffa), (0xa450, 0x6ceb), (0xbef9, 0xa3f7), (0xc671, 0x78f2)]"

definition sha_init :: "u32 list" where
  "sha_init = grouped
     [(0x6a09, 0xe667), (0xbb67, 0xae85), (0x3c6e, 0xf372), (0xa54f, 0xf53a),
      (0x510e, 0x527f), (0x9b05, 0x688c), (0x1f83, 0xd9ab), (0x5be0, 0xcd19)]"

text \<open>Big-endian bytes of a 32-bit or 64-bit word.\<close>

definition be_bytes32 :: "u32 \<Rightarrow> bytes" where
  "be_bytes32 w = [ucast (drop_bit 24 w), ucast (drop_bit 16 w), ucast (drop_bit 8 w), ucast w]"

definition be_bytes64 :: "u64 \<Rightarrow> bytes" where
  "be_bytes64 w = map (\<lambda>i. ucast (drop_bit (8 * (7 - i)) w)) [0..<8]"

definition from_be32 :: "bytes \<Rightarrow> u32" where
  "from_be32 bs = foldl (\<lambda>acc b. push_bit 8 acc OR ucast b) 0 bs"

text \<open>The padding loop \<open>while message.len() % 64 != 56\<close>.\<close>

function pad_zeros :: "bytes \<Rightarrow> bytes" where
  "pad_zeros m = (if length m mod 64 = 56 then m else pad_zeros (m @ [0]))"
  by pat_completeness auto
termination
  by (relation "measure (\<lambda>m. if length m mod 64 \<le> 56 then 56 - length m mod 64 else 120 - length m mod 64)")
    (auto simp: mod_Suc)

declare pad_zeros.simps [simp del]

definition sha_pad :: "bytes \<Rightarrow> bytes" where
  "sha_pad data = pad_zeros (data @ [0x80]) @ be_bytes64 (of_nat (length data) * 8)"

text \<open>\<open>chunks_exact\<close>: a remainder shorter than the chunk is dropped.\<close>

function chunks_exact :: "nat \<Rightarrow> 'a list \<Rightarrow> 'a list list" where
  "chunks_exact n xs =
     (if n = 0 \<or> length xs < n then [] else take n xs # chunks_exact n (drop n xs))"
  by pat_completeness auto
termination
  by (relation "measure (\<lambda>(n, xs). length xs)") auto

declare chunks_exact.simps [simp del]

definition schedule_word :: "u32 list \<Rightarrow> nat \<Rightarrow> u32" where
  "schedule_word w i =
     (let s0 = rotr 7 (w ! (i - 15)) XOR rotr 18 (w ! (i - 15)) XOR drop_bit 3 (w ! (i - 15));
          s1 = rotr 17 (w ! (i - 2)) XOR rotr 19 (w ! (i - 2)) XOR drop_bit 10 (w ! (i - 2))
      in w ! (i - 16) + s0 + w ! (i - 7) + s1)"

text \<open>The array \<open>w\<close> is filled from index 16 on; here it grows.\<close>

definition message_schedule :: "bytes \<Rightarrow> u32 list" where
  "message_schedule block =
     foldl (\<lambda>w i. w @ [schedule_word w i]) (map from_be32 (chunks_exact 4 block)) [16..<64]"

datatype sha_regs = Regs u32 u32 u32 u32 u32 u32 u32 u32

fun sha_round :: "u32 list \<Rightarrow> sha_regs \<Rightarrow> nat \<Rightarrow> sha_regs" where
  "sha_round w (Regs a b c d e f g h) i =
     (let s1 = rotr 6 e XOR rotr 11 e XOR rotr 25 e;
          chosen = (e AND f) XOR (NOT e AND g);
          temp1 = h + s1 + chosen + sha_K ! i + w ! i;
          s0 = rotr 2 a XOR rotr 13 a XOR rotr 22 a;
          majority = (a AND b) XOR (a AND c) XOR (b AND c);
          temp2 = s0 + majority
      in Regs (temp1 + temp2) a b c (d + temp1) e f g)"

fun regs_list :: "sha_regs \<Rightarrow> u32 list" where
  "regs_list (Regs a b c d e f g h) = [a, b, c, d, e, f, g, h]"

definition regs_of :: "u32 list \<Rightarrow> sha_regs" where
  "regs_of s = Regs (s ! 0) (s ! 1) (s ! 2) (s ! 3) (s ! 4) (s ! 5) (s ! 6) (s ! 7)"

definition sha_block :: "u32 list \<Rightarrow> bytes \<Rightarrow> u32 list" where
  "sha_block state block =
     (let w = message_schedule block
      in map2 (+) state (regs_list (foldl (sha_round w) (regs_of state) [0..<64])))"

definition sha256 :: "bytes \<Rightarrow> bytes" where
  "sha256 data =
     concat (map be_bytes32 (foldl sha_block sha_init (chunks_exact 64 (sha_pad data))))"

definition salted_hash :: "bytes \<Rightarrow> ustr \<Rightarrow> bytes" where
  "salted_hash salt s = sha256 (salt @ utf8 s)"

lemma length_regs_list [simp]: "length (regs_list r) = 8"
  by (cases r) simp

lemma length_sha_block: "length s = 8 \<Longrightarrow> length (sha_block s b) = 8"
  by (simp add: sha_block_def Let_def)

lemma length_sha_fold: "length s = 8 \<Longrightarrow> length (foldl sha_block s bs) = 8"
  by (induction bs arbitrary: s) (auto simp: length_sha_block)

lemma length_concat_be32: "length (concat (map be_bytes32 ws)) = 4 * length ws"
  by (induction ws) (auto simp: be_bytes32_def)

lemma length_sha256 [simp]: "length (sha256 data) = 32"
proof -
  have "length (foldl sha_block sha_init (chunks_exact 64 (sha_pad data))) = 8"
    by (rule length_sha_fold) (simp add: sha_init_def grouped_def)
  then show ?thesis by (simp add: sha256_def length_concat_be32)
qed

lemma length_salted_hash [simp]: "length (salted_hash salt s) = 32"
  by (simp add: salted_hash_def)

lemma pad_zeros_spec: "\<exists>k < 64. pad_zeros m = m @ replicate k 0 \<and> length (pad_zeros m) mod 64 = 56"
proof (induction m rule: pad_zeros.induct)
  case (1 m)
  show ?case
  proof (cases "length m mod 64 = 56")
    case True
    then show ?thesis by (intro exI [of _ 0]) (simp add: pad_zeros.simps)
  next
    case False
    with 1 obtain k where k: "k < 64" "pad_zeros (m @ [0]) = (m @ [0]) @ replicate k 0"
      "length (pad_zeros (m @ [0])) mod 64 = 56" by auto
    have p: "pad_zeros m = pad_zeros (m @ [0])" using False by (subst pad_zeros.simps) simp
    have "k \<noteq> 63"
    proof
      assume "k = 63"
      then have "length (pad_zeros (m @ [0])) = length m + 64" using k(2) by simp
      then show False using k(3) False by simp
    qed
    then show ?thesis
      using k p by (intro exI [of _ "Suc k"]) (simp add: replicate_app_Cons_same)
  qed
qed

text \<open>The padded message is a whole number of blocks, none of which is dropped.\<close>

lemma length_sha_pad: "64 dvd length (sha_pad data)"
proof -
  have "length (pad_zeros (data @ [0x80])) mod 64 = 56" using pad_zeros_spec by blast
  then show ?thesis by (simp add: sha_pad_def be_bytes64_def) presburger
qed

lemma concat_chunks_exact: "0 < n \<Longrightarrow> n dvd length xs \<Longrightarrow> concat (chunks_exact n xs) = xs"
proof (induction n xs rule: chunks_exact.induct)
  case (1 n xs)
  show ?case
  proof (cases "length xs < n")
    case True
    with 1 have "xs = []" by (auto dest: dvd_imp_le)
    with True show ?thesis by (simp add: chunks_exact.simps)
  next
    case False
    with 1 have "n dvd length (drop n xs)" by (simp add: dvd_diff_nat)
    with 1 False show ?thesis by (subst chunks_exact.simps) simp
  qed
qed

subsection \<open>CRC-32\<close>

definition crc_poly :: u32 where
  "crc_poly = 0xEDB88320"

definition crc_bit :: "u32 \<Rightarrow> u32" where
  "crc_bit crc = drop_bit 1 crc XOR (crc_poly AND - (if crc AND 1 \<noteq> 0 then 1 else 0))"

definition crc_byte :: "u32 \<Rightarrow> u8 \<Rightarrow> u32" where
  "crc_byte crc b = (crc_bit ^^ 8) (crc XOR ucast b)"

definition crc32 :: "bytes \<Rightarrow> u32" where
  "crc32 data = NOT (foldl crc_byte 0xFFFFFFFF data)"

text \<open>One step of the division is invertible: the top bit of the result is the bit shifted out.\<close>

lemma crc_bit_cases:
  "crc_bit c = (if bit c 0 then drop_bit 1 c XOR crc_poly else drop_bit 1 c)"
proof -
  have "(c AND 1 \<noteq> 0) = bit c 0" by (simp add: bit_0 and_one_eq odd_iff_mod_2_eq_one)
  then show ?thesis by (simp add: crc_bit_def xor.commute)
qed

lemma bit_crc_poly_31: "bit crc_poly 31"
  by (simp add: crc_poly_def bit_numeral_rec)

lemma bit_crc_bit:
  assumes "n < 32"
  shows "bit (crc_bit c) n = (bit c (Suc n) \<noteq> (bit c 0 \<and> bit crc_poly n))"
  using assms by (auto simp: crc_bit_cases bit_xor_iff bit_drop_bit_eq)

lemma crc_bit_inject: "crc_bit a = crc_bit b \<longleftrightarrow> a = b"
proof
  assume eq: "crc_bit a = crc_bit b"
  have out: "\<not> bit w (Suc 31)" for w :: u32 by (rule impossible_bit) simp
  have b: "bit (crc_bit a) n = bit (crc_bit b) n" for n by (simp add: eq)
  have 0: "bit a 0 = bit b 0"
    using b [of 31] bit_crc_bit [of 31 a] bit_crc_bit [of 31 b] out [of a] out [of b] bit_crc_poly_31
    by simp
  show "a = b"
  proof (rule bit_word_eqI)
    fix n assume "n < LENGTH(32)"
    then show "bit a n = bit b n"
    proof (cases n)
      case (Suc k)
      with \<open>n < LENGTH(32)\<close> have "k < 32" by simp
      with b [of k] 0 Suc show ?thesis by (auto simp: bit_crc_bit)
    qed (simp add: 0)
  qed
qed simp

lemma crc_bits_inject: "(crc_bit ^^ n) a = (crc_bit ^^ n) b \<longleftrightarrow> a = b"
  by (induction n) (simp_all add: crc_bit_inject)

lemma xor_left_inject: "a XOR x = a XOR y \<longleftrightarrow> x = (y :: u32)"
proof
  assume "a XOR x = a XOR y"
  then have "a XOR (a XOR x) = a XOR (a XOR y)" by simp
  then show "x = y" by (simp flip: xor.assoc)
qed simp

lemma crc_byte_state_inject: "crc_byte a x = crc_byte b x \<longleftrightarrow> a = b"
  by (simp add: crc_byte_def crc_bits_inject xor.commute [of _ "ucast x"] xor_left_inject)

lemma ucast_u8_inject: "(ucast (x :: u8) :: u32) = ucast y \<longleftrightarrow> x = y"
proof
  assume "(ucast x :: u32) = ucast y"
  then have "(ucast (ucast x :: u32) :: u8) = ucast (ucast y :: u32)" by simp
  moreover have "(ucast (ucast z :: u32) :: u8) = z" for z :: u8
    by (rule bit_word_eqI) (simp add: bit_ucast_iff)
  ultimately show "x = y" by simp
qed simp

lemma crc_byte_inject: "crc_byte a x = crc_byte a y \<longleftrightarrow> x = y"
  by (simp add: crc_byte_def crc_bits_inject ucast_u8_inject xor_left_inject)

lemma crc_fold_inject: "foldl crc_byte a xs = foldl crc_byte b xs \<longleftrightarrow> a = b"
  by (induction xs arbitrary: a b) (simp_all add: crc_byte_state_inject)

text \<open>A single changed byte changes the checksum.\<close>

lemma crc32_single_byte:
  assumes "i < length xs" and "x \<noteq> xs ! i"
  shows "crc32 (xs[i := x]) \<noteq> crc32 xs"
proof -
  have xs: "xs = take i xs @ xs ! i # drop (Suc i) xs" by (rule id_take_nth_drop [OF assms(1)])
  have up: "xs[i := x] = take i xs @ x # drop (Suc i) xs" by (rule upd_conv_take_nth_drop [OF assms(1)])
  let ?s = "foldl crc_byte 0xFFFFFFFF (take i xs)"
  have "foldl crc_byte (crc_byte ?s x) (drop (Suc i) xs) \<noteq>
      foldl crc_byte (crc_byte ?s (xs ! i)) (drop (Suc i) xs)"
    using assms(2) by (simp add: crc_fold_inject crc_byte_inject)
  moreover have "foldl crc_byte 0xFFFFFFFF xs = foldl crc_byte (crc_byte ?s (xs ! i)) (drop (Suc i) xs)"
    by (metis foldl_append foldl_Cons xs)
  ultimately have "foldl crc_byte 0xFFFFFFFF (xs[i := x]) \<noteq> foldl crc_byte 0xFFFFFFFF xs"
    by (simp add: up)
  then show ?thesis by (simp add: crc32_def bit.compl_eq_compl_iff)
qed

subsection \<open>Hexadecimal form\<close>

definition hex_digit :: "nat \<Rightarrow> scalar" where
  "hex_digit n = (if n < 10 then 48 + n else 87 + n)"

definition hex :: "bytes \<Rightarrow> ustr" where
  "hex bs = concat (map (\<lambda>b. [hex_digit (unat b div 16), hex_digit (unat b mod 16)]) bs)"

lemma hex_digit_inject: "m < 16 \<Longrightarrow> n < 16 \<Longrightarrow> hex_digit m = hex_digit n \<longleftrightarrow> m = n"
  by (auto simp: hex_digit_def split: if_splits)

lemma hex_simps [simp]:
  "hex [] = []"
  "hex (b # bs) = hex_digit (unat b div 16) # hex_digit (unat b mod 16) # hex bs"
  by (simp_all add: hex_def)

lemma length_hex [simp]: "length (hex bs) = 2 * length bs"
  by (induction bs) auto

lemma hex_inject: "hex a = hex b \<longleftrightarrow> a = b"
proof (induction a arbitrary: b)
  case Nil
  then show ?case by (cases b) auto
next
  case (Cons x a)
  show ?case
  proof (cases b)
    case (Cons y b')
    have "unat x div 16 < 16" "unat y div 16 < 16"
      using unat_byte_lt [of x] unat_byte_lt [of y] by (simp_all add: less_mult_imp_div_less)
    moreover have "unat x = unat y" if "unat x div 16 = unat y div 16" "unat x mod 16 = unat y mod 16"
      using that by (metis div_mult_mod_eq)
    ultimately show ?thesis
      using Cons Cons.IH [of b'] by (auto simp: hex_digit_inject word_unat_eq_iff)
  qed simp
qed

lemma hex_ascii: "c \<in> set (hex bs) \<Longrightarrow> 48 \<le> c \<and> c < 128"
proof (induction bs)
  case (Cons b bs)
  have "unat b div 16 < 16" using unat_byte_lt [of b] by linarith
  with Cons show ?case by (auto simp: hex_digit_def split: if_splits)
qed simp

end
