(* ===== verification/Codec.thy ===== *)
theory Codec
  imports Hashing
begin

text \<open>
  The durable recovery-state codec of zonkey-service (\<open>recovery_codec.rs\<close>): encoder and
  decoder of the bounded, versioned state file.  The readers work on the whole input and an offset,
  as the source does; \<open>checked_add\<close> on an offset never overflows, since an offset is at most
  the input's length and a declared length is below $2^{32}$.
\<close>

definition RECOVERY_STATE_MAGIC :: bytes where
  "RECOVERY_STATE_MAGIC = map (\<lambda>c. byte_of (of_char c)) ''ZNKYREC1''"

definition RECOVERY_STATE_VERSION :: u32 where
  "RECOVERY_STATE_VERSION = 2"

definition MAX_RECOVERY_ENTRIES :: nat where
  "MAX_RECOVERY_ENTRIES = 128"

definition MAX_RECOVERY_STATE_BYTES :: nat where
  "MAX_RECOVERY_STATE_BYTES = 256 * 1024"

definition MAX_URI_BYTES :: nat where
  "MAX_URI_BYTES = 1024"

definition MAX_REQUEST_ID_BYTES :: nat where
  "MAX_REQUEST_ID_BYTES = 256"

text \<open>The verdict of a reconciliation readback (\<open>transport.rs\<close>).\<close>

datatype recovery_verdict =
    RV_AppliedAcknowledged
  | RV_NotApplied
  | RV_ConflictHumanReview

datatype persisted_kind =
    PK_Blocked "recovery_verdict option"
  | PK_Pending

datatype codec_error =
    CE_Truncated
  | CE_BadMagic
  | CE_UnknownVersion
  | CE_TooManyEntries
  | CE_OversizedFile
  | CE_OversizedRecord
  | CE_Malformed
  | CE_ChecksumMismatch
  | CE_EncodeOverflow

record persisted_target =
  pt_uri :: ustr
  pt_range :: "u64 \<times> u64"
  pt_expected_hash :: bytes
  pt_replacement_hash :: bytes
  pt_kind :: persisted_kind
  pt_generation :: u64
  pt_document_epoch :: u64
  pt_request_id :: ustr

text \<open>The operator \<open>?\<close>.\<close>

definition and_then :: "'e + 'a \<Rightarrow> ('a \<Rightarrow> 'e + 'b) \<Rightarrow> 'e + 'b" where
  "and_then r f = (case r of Inl e \<Rightarrow> Inl e | Inr x \<Rightarrow> f x)"

lemma and_then_simps [simp]:
  "and_then (Inl e) f = Inl e"
  "and_then (Inr x) f = f x"
  by (simp_all add: and_then_def)

lemma and_then_Inr: "and_then r f = Inr y \<longleftrightarrow> (\<exists>x. r = Inr x \<and> f x = Inr y)"
  by (cases r) auto

subsection \<open>Encoding\<close>

definition verdict_code :: "recovery_verdict \<Rightarrow> u8" where
  "verdict_code v = (case v of RV_AppliedAcknowledged \<Rightarrow> 0 | RV_NotApplied \<Rightarrow> 1 | RV_ConflictHumanReview \<Rightarrow> 2)"

definition kind_bytes :: "persisted_kind \<Rightarrow> bytes" where
  "kind_bytes k =
     (case k of PK_Blocked None \<Rightarrow> [0] | PK_Blocked (Some v) \<Rightarrow> [1, verdict_code v] | PK_Pending \<Rightarrow> [2])"

text \<open>The little-endian pushes.\<close>

definition push_u16 :: "nat \<Rightarrow> bytes" where
  "push_u16 n = le_bytes 2 n"

definition push_u32 :: "u32 \<Rightarrow> bytes" where
  "push_u32 w = le_bytes 4 (unat w)"

definition push_u64 :: "u64 \<Rightarrow> bytes" where
  "push_u64 w = le_bytes 8 (unat w)"

definition encode_record :: "persisted_target \<Rightarrow> codec_error + bytes" where
  "encode_record r =
     (if pt_uri r = [] \<or> ulen (pt_uri r) > MAX_URI_BYTES then Inl CE_EncodeOverflow
      else if pt_request_id r = [] \<or> ulen (pt_request_id r) > MAX_REQUEST_ID_BYTES
        then Inl CE_EncodeOverflow
      else if fst (pt_range r) > snd (pt_range r) then Inl CE_EncodeOverflow
      else Inr (push_u16 (ulen (pt_uri r)) @ utf8 (pt_uri r) @
        push_u64 (fst (pt_range r)) @ push_u64 (snd (pt_range r)) @
        pt_expected_hash r @ pt_replacement_hash r @ kind_bytes (pt_kind r) @
        push_u64 (pt_generation r) @ push_u64 (pt_document_epoch r) @
        push_u16 (ulen (pt_request_id r)) @ utf8 (pt_request_id r)))"

fun encode_records :: "persisted_target list \<Rightarrow> codec_error + bytes" where
  "encode_records [] = Inr []"
| "encode_records (r # rs) =
     and_then (encode_record r) (\<lambda>b. and_then (encode_records rs) (\<lambda>bs. Inr (b @ bs)))"

definition encode_state :: "bytes \<Rightarrow> persisted_target list \<Rightarrow> codec_error + bytes" where
  "encode_state salt records =
     (if length records > MAX_RECOVERY_ENTRIES then Inl CE_EncodeOverflow
      else and_then (encode_records records) (\<lambda>payload.
        if length payload \<ge> 2 ^ 32 then Inl CE_EncodeOverflow
        else let file = RECOVERY_STATE_MAGIC @ push_u32 RECOVERY_STATE_VERSION @ salt @
                   push_u32 (of_nat (length records)) @ push_u32 (of_nat (length payload)) @ payload
             in if length file + 4 > MAX_RECOVERY_STATE_BYTES then Inl CE_EncodeOverflow
                else Inr (file @ push_u32 (crc32 file))))"

subsection \<open>Decoding\<close>

definition read_fixed :: "nat \<Rightarrow> bytes \<Rightarrow> nat \<Rightarrow> codec_error + bytes \<times> nat" where
  "read_fixed n bs offset =
     (if offset + n \<le> length bs then Inr (take n (drop offset bs), offset + n) else Inl CE_Truncated)"

definition read_u16 :: "bytes \<Rightarrow> nat \<Rightarrow> codec_error + nat \<times> nat" where
  "read_u16 bs offset = and_then (read_fixed 2 bs offset) (\<lambda>(s, off). Inr (from_le s, off))"

definition read_u32 :: "bytes \<Rightarrow> nat \<Rightarrow> codec_error + u32 \<times> nat" where
  "read_u32 bs offset = and_then (read_fixed 4 bs offset) (\<lambda>(s, off). Inr (of_nat (from_le s), off))"

definition read_u64 :: "bytes \<Rightarrow> nat \<Rightarrow> codec_error + u64 \<times> nat" where
  "read_u64 bs offset = and_then (read_fixed 8 bs offset) (\<lambda>(s, off). Inr (of_nat (from_le s), off))"

definition read_byte :: "bytes \<Rightarrow> nat \<Rightarrow> codec_error + u8 \<times> nat" where
  "read_byte bs cursor = (if cursor < length bs then Inr (bs ! cursor, cursor + 1) else Inl CE_Truncated)"

text \<open>A length-prefixed string with its bound, as the URI and the request id are read.\<close>

definition read_text :: "nat \<Rightarrow> bytes \<Rightarrow> nat \<Rightarrow> codec_error + ustr \<times> nat" where
  "read_text max_bytes payload cursor =
     and_then (read_u16 payload cursor) (\<lambda>(len, cursor).
       if len = 0 \<or> len > max_bytes then Inl CE_OversizedRecord
       else and_then (read_fixed len payload cursor) (\<lambda>(slice, text_end).
         case from_utf8 slice of None \<Rightarrow> Inl CE_Malformed | Some s \<Rightarrow> Inr (s, text_end)))"

definition read_kind :: "bytes \<Rightarrow> nat \<Rightarrow> codec_error + persisted_kind \<times> nat" where
  "read_kind payload cursor =
     and_then (read_byte payload cursor) (\<lambda>(state, cursor).
       if state = 0 then Inr (PK_Blocked None, cursor)
       else if state = 1 then
         and_then (read_byte payload cursor) (\<lambda>(code, cursor).
           if code = 0 then Inr (PK_Blocked (Some RV_AppliedAcknowledged), cursor)
           else if code = 1 then Inr (PK_Blocked (Some RV_NotApplied), cursor)
           else if code = 2 then Inr (PK_Blocked (Some RV_ConflictHumanReview), cursor)
           else Inl CE_Malformed)
       else if state = 2 then Inr (PK_Pending, cursor)
       else Inl CE_Malformed)"

definition decode_record :: "bytes \<Rightarrow> nat \<Rightarrow> codec_error + persisted_target \<times> nat" where
  "decode_record payload cursor =
     and_then (read_text MAX_URI_BYTES payload cursor) (\<lambda>(uri, cursor).
     and_then (read_u64 payload cursor) (\<lambda>(range_start, cursor).
     and_then (read_u64 payload cursor) (\<lambda>(range_end, cursor).
     and_then (read_fixed 32 payload cursor) (\<lambda>(expected_hash, cursor).
     and_then (read_fixed 32 payload cursor) (\<lambda>(replacement_hash, cursor).
     and_then (read_kind payload cursor) (\<lambda>(kind, cursor).
     and_then (read_u64 payload cursor) (\<lambda>(generation, cursor).
     and_then (read_u64 payload cursor) (\<lambda>(document_epoch, cursor).
     and_then (read_text MAX_REQUEST_ID_BYTES payload cursor) (\<lambda>(request_id, cursor).
       Inr (\<lparr>pt_uri = uri, pt_range = (range_start, range_end), pt_expected_hash = expected_hash,
             pt_replacement_hash = replacement_hash, pt_kind = kind, pt_generation = generation,
             pt_document_epoch = document_epoch, pt_request_id = request_id\<rparr>, cursor))))))))))"

fun decode_records :: "nat \<Rightarrow> bytes \<Rightarrow> nat \<Rightarrow> codec_error + persisted_target list \<times> nat" where
  "decode_records 0 payload cursor = Inr ([], cursor)"
| "decode_records (Suc n) payload cursor =
     and_then (decode_record payload cursor) (\<lambda>(r, cursor).
     and_then (decode_records n payload cursor) (\<lambda>(rs, cursor). Inr (r # rs, cursor)))"

definition decode_state :: "bytes \<Rightarrow> codec_error + bytes \<times> persisted_target list" where
  "decode_state bs =
     (if length bs > MAX_RECOVERY_STATE_BYTES then Inl CE_OversizedFile
      else and_then (read_fixed 8 bs 0) (\<lambda>(magic, offset).
        if magic \<noteq> RECOVERY_STATE_MAGIC then Inl CE_BadMagic
        else and_then (read_u32 bs offset) (\<lambda>(version, offset).
        if version \<noteq> RECOVERY_STATE_VERSION then Inl CE_UnknownVersion
        else and_then (read_fixed SALT_BYTES bs offset) (\<lambda>(salt, offset).
        and_then (read_u32 bs offset) (\<lambda>(count, offset).
        if unat count > MAX_RECOVERY_ENTRIES then Inl CE_TooManyEntries
        else and_then (read_u32 bs offset) (\<lambda>(payload_len, offset).
        let payload_end = offset + unat payload_len
        in if length bs \<noteq> payload_end + 4 then Inl CE_Malformed
        else and_then (read_u32 bs payload_end) (\<lambda>(stored_crc, _).
        if crc32 (take (length bs - 4) bs) \<noteq> stored_crc then Inl CE_ChecksumMismatch
        else let payload = take (unat payload_len) (drop offset bs)
        in and_then (decode_records (unat count) payload 0) (\<lambda>(records, cursor).
        if cursor \<noteq> unat payload_len then Inl CE_Malformed
        else Inr (salt, records)))))))))"

subsection \<open>Readers behind a prefix\<close>

text \<open>What a persisted target of the program always satisfies.\<close>

definition wf_target :: "persisted_target \<Rightarrow> bool" where
  "wf_target r \<longleftrightarrow> valid_str (pt_uri r) \<and> valid_str (pt_request_id r) \<and>
     length (pt_expected_hash r) = 32 \<and> length (pt_replacement_hash r) = 32"

lemma read_fixed_at:
  "length s = n \<Longrightarrow> read_fixed n (pre @ s @ rest) (length pre) = Inr (s, length (pre @ s))"
  by (simp add: read_fixed_def)

lemma read_fixed_sound:
  assumes "read_fixed n bs off = Inr (s, off')"
  shows "length s = n \<and> off' = off + n \<and> off' \<le> length bs \<and> drop off bs = s @ drop off' bs"
  using assms
  by (auto simp: read_fixed_def split: if_splits) (metis add.commute append_take_drop_id drop_drop)

lemma push_lengths [simp]:
  "length (push_u16 n) = 2" "length (push_u32 w) = 4" "length (push_u64 v) = 8"
  by (simp_all add: push_u16_def push_u32_def push_u64_def)

lemma unat_u32_lt: "unat (w :: u32) < 4294967296"
  using unsigned_less [of w, where ?'a = nat] by simp

lemma unat_u64_lt: "unat (w :: u64) < 18446744073709551616"
  using unsigned_less [of w, where ?'a = nat] by simp

lemma from_le_push:
  "n < 65536 \<Longrightarrow> from_le (push_u16 n) = n"
  "of_nat (from_le (push_u32 w)) = w"
  "of_nat (from_le (push_u64 v)) = v"
  using unat_u32_lt [of w] unat_u64_lt [of v]
  by (simp_all add: push_u16_def push_u32_def push_u64_def from_le_bytes)

lemma push_from_le:
  "length s = 2 \<Longrightarrow> push_u16 (from_le s) = s"
  "length s = 4 \<Longrightarrow> push_u32 (of_nat (from_le s)) = s"
  "length s = 8 \<Longrightarrow> push_u64 (of_nat (from_le s)) = s"
proof -
  show "length s = 2 \<Longrightarrow> push_u16 (from_le s) = s"
    by (simp add: push_u16_def le_bytes_from_le_eq)
  assume l: "length s = 4"
  have "unat (of_nat (from_le s) :: u32) = from_le s"
    using from_le_lt [of s] l by (simp add: unat_of_nat take_bit_eq_mod)
  then show "push_u32 (of_nat (from_le s)) = s"
    by (simp add: push_u32_def le_bytes_from_le_eq l)
next
  assume l: "length s = 8"
  have "unat (of_nat (from_le s) :: u64) = from_le s"
    using from_le_lt [of s] l by (simp add: unat_of_nat take_bit_eq_mod)
  then show "push_u64 (of_nat (from_le s)) = s"
    by (simp add: push_u64_def le_bytes_from_le_eq l)
qed

lemma read_words_at:
  "n < 65536 \<Longrightarrow> read_u16 (pre @ push_u16 n @ rest) (length pre) = Inr (n, length pre + 2)"
  "read_u32 (pre @ push_u32 w @ rest) (length pre) = Inr (w, length pre + 4)"
  "read_u64 (pre @ push_u64 v @ rest) (length pre) = Inr (v, length pre + 8)"
  by (simp_all add: read_u16_def read_u32_def read_u64_def read_fixed_at from_le_push)

lemma read_u16_sound:
  assumes "read_u16 bs off = Inr (n, off')"
  shows "off' = off + 2 \<and> off' \<le> length bs \<and> n < 65536 \<and> drop off bs = push_u16 n @ drop off' bs"
proof -
  obtain s where s: "read_fixed 2 bs off = Inr (s, off')" and n: "n = from_le s"
    using assms by (auto simp: read_u16_def and_then_Inr)
  note f = read_fixed_sound [OF s]
  have "from_le s < 256 ^ 2" using from_le_lt [of s] f by simp
  then show ?thesis using f n by (simp add: push_from_le)
qed

lemma read_u32_sound:
  assumes "read_u32 bs off = Inr (w, off')"
  shows "off' = off + 4 \<and> off' \<le> length bs \<and> drop off bs = push_u32 w @ drop off' bs"
proof -
  obtain s where s: "read_fixed 4 bs off = Inr (s, off')" and w: "w = of_nat (from_le s)"
    using assms by (auto simp: read_u32_def and_then_Inr)
  show ?thesis using read_fixed_sound [OF s] w by (simp add: push_from_le)
qed

lemma read_u64_sound:
  assumes "read_u64 bs off = Inr (w, off')"
  shows "off' = off + 8 \<and> off' \<le> length bs \<and> drop off bs = push_u64 w @ drop off' bs"
proof -
  obtain s where s: "read_fixed 8 bs off = Inr (s, off')" and w: "w = of_nat (from_le s)"
    using assms by (auto simp: read_u64_def and_then_Inr)
  show ?thesis using read_fixed_sound [OF s] w by (simp add: push_from_le)
qed

lemma read_text_at:
  assumes "valid_str t" and "t \<noteq> []" and "ulen t \<le> m" and "m < 65536"
  shows "read_text m (pre @ push_u16 (ulen t) @ utf8 t @ rest) (length pre) =
    Inr (t, length pre + 2 + ulen t)"
proof -
  have "read_fixed (ulen t) ((pre @ push_u16 (ulen t)) @ utf8 t @ rest) (length (pre @ push_u16 (ulen t))) =
      Inr (utf8 t, length ((pre @ push_u16 (ulen t)) @ utf8 t))"
    by (rule read_fixed_at) (simp add: ulen_def)
  then show ?thesis
    using assms by (simp add: read_text_def read_words_at from_utf8_utf8 flip: ulen_def)
qed

lemma read_text_sound:
  assumes "read_text m bs off = Inr (t, off')"
  shows "valid_str t \<and> t \<noteq> [] \<and> ulen t \<le> m \<and> off' \<le> length bs \<and>
    drop off bs = push_u16 (ulen t) @ utf8 t @ drop off' bs"
proof -
  obtain n o1 where n: "read_u16 bs off = Inr (n, o1)" "n \<noteq> 0" "n \<le> m"
    and r: "\<exists>s. read_fixed n bs o1 = Inr (s, off') \<and> from_utf8 s = Some t"
    using assms by (auto simp: read_text_def and_then_Inr split: if_splits option.splits)
  obtain s where s: "read_fixed n bs o1 = Inr (s, off')" "from_utf8 s = Some t" using r by blast
  have t: "valid_str t" "utf8 t = s" using from_utf8_sound [OF s(2)] by auto
  then have "ulen t = n" using read_fixed_sound [OF s(1)] by (simp add: ulen_def)
  then show ?thesis
    using t read_fixed_sound [OF s(1)] read_u16_sound [OF n(1)] n by auto
qed

lemma read_byte_at: "read_byte (pre @ b # rest) (length pre) = Inr (b, length pre + 1)"
  by (simp add: read_byte_def)

lemma read_byte_sound:
  "read_byte bs off = Inr (b, off') \<Longrightarrow> off' = off + 1 \<and> off' \<le> length bs \<and> drop off bs = b # drop off' bs"
  by (auto simp: read_byte_def Cons_nth_drop_Suc split: if_splits)

lemma read_kind_at:
  "read_kind (pre @ kind_bytes k @ rest) (length pre) = Inr (k, length pre + length (kind_bytes k))"
proof -
  have 2: "read_byte (pre @ a # b # rest) (Suc (length pre)) = Inr (b, length pre + 2)" for a b
    using read_byte_at [of "pre @ [a]" b rest] by simp
  show ?thesis
    by (auto simp: read_kind_def kind_bytes_def read_byte_at 2 verdict_code_def
        split: persisted_kind.split option.split recovery_verdict.split)
qed

lemma read_kind_sound:
  assumes "read_kind bs off = Inr (k, off')"
  shows "off' \<le> length bs \<and> drop off bs = kind_bytes k @ drop off' bs"
proof -
  obtain b o1 where b: "read_byte bs off = Inr (b, o1)"
    using assms by (auto simp: read_kind_def and_then_Inr)
  note f = read_byte_sound [OF b]
  show ?thesis
  proof (cases "b = 1")
    case True
    then obtain c where c: "read_byte bs o1 = Inr (c, off')"
      and k: "(c = 0 \<and> k = PK_Blocked (Some RV_AppliedAcknowledged)) \<or>
        (c = 1 \<and> k = PK_Blocked (Some RV_NotApplied)) \<or> (c = 2 \<and> k = PK_Blocked (Some RV_ConflictHumanReview))"
      using assms b by (auto simp: read_kind_def and_then_Inr split: if_splits)
    show ?thesis
      using read_byte_sound [OF c] f k True by (auto simp: kind_bytes_def verdict_code_def)
  next
    case False
    with assms b f show ?thesis
      by (auto simp: read_kind_def and_then_Inr kind_bytes_def split: if_splits)
  qed
qed

subsection \<open>Records\<close>

lemma read_in:
  "length s = n \<Longrightarrow> \<exists>rest. bs = pre @ s @ rest \<Longrightarrow> read_fixed n bs (length pre) = Inr (s, length pre + n)"
  "\<exists>rest. bs = pre @ push_u64 v @ rest \<Longrightarrow> read_u64 bs (length pre) = Inr (v, length pre + 8)"
  "\<exists>rest. bs = pre @ kind_bytes k @ rest \<Longrightarrow>
     read_kind bs (length pre) = Inr (k, length pre + length (kind_bytes k))"
  "valid_str t \<Longrightarrow> t \<noteq> [] \<Longrightarrow> ulen t \<le> m \<Longrightarrow> m < 65536 \<Longrightarrow>
     \<exists>rest. bs = pre @ push_u16 (ulen t) @ utf8 t @ rest \<Longrightarrow>
     read_text m bs (length pre) = Inr (t, length pre + 2 + ulen t)"
  by (auto simp: read_fixed_at read_words_at(3) read_kind_at read_text_at)

lemma decode_encode_record:
  assumes "wf_target r" and "encode_record r = Inr b"
  shows "decode_record (pre @ b @ rest) (length pre) = Inr (r, length (pre @ b))"
proof -
  let ?uri = "pt_uri r" and ?id = "pt_request_id r"
  have u: "?uri \<noteq> []" "ulen ?uri \<le> 1024" and i: "?id \<noteq> []" "ulen ?id \<le> 256"
    and b: "b = push_u16 (ulen ?uri) @ utf8 ?uri @ push_u64 (fst (pt_range r)) @ push_u64 (snd (pt_range r)) @
        pt_expected_hash r @ pt_replacement_hash r @ kind_bytes (pt_kind r) @
        push_u64 (pt_generation r) @ push_u64 (pt_document_epoch r) @ push_u16 (ulen ?id) @ utf8 ?id"
    using assms(2) by (auto simp: encode_record_def MAX_URI_BYTES_def MAX_REQUEST_ID_BYTES_def split: if_splits)
  have w: "valid_str ?uri" "valid_str ?id" "length (pt_expected_hash r) = 32" "length (pt_replacement_hash r) = 32"
    using assms(1) by (auto simp: wf_target_def)
  define p1 where "p1 = pre @ push_u16 (ulen ?uri) @ utf8 ?uri"
  define p2 where "p2 = p1 @ push_u64 (fst (pt_range r))"
  define p3 where "p3 = p2 @ push_u64 (snd (pt_range r))"
  define p4 where "p4 = p3 @ pt_expected_hash r"
  define p5 where "p5 = p4 @ pt_replacement_hash r"
  define p6 where "p6 = p5 @ kind_bytes (pt_kind r)"
  define p7 where "p7 = p6 @ push_u64 (pt_generation r)"
  define p8 where "p8 = p7 @ push_u64 (pt_document_epoch r)"
  define bs where "bs = pre @ b @ rest"
  note p = p8_def p7_def p6_def p5_def p4_def p3_def p2_def p1_def
  have l: "length p1 = length pre + 2 + ulen ?uri" "length p2 = length p1 + 8" "length p3 = length p2 + 8"
    "length p4 = length p3 + 32" "length p5 = length p4 + 32"
    "length p6 = length p5 + length (kind_bytes (pt_kind r))"
    "length p7 = length p6 + 8" "length p8 = length p7 + 8"
    using w by (simp_all add: p ulen_def)
  note at = bs_def b p
  have r1: "read_text MAX_URI_BYTES bs (length pre) = Inr (?uri, length p1)"
    unfolding l by (rule read_in(4)) (simp_all add: w u MAX_URI_BYTES_def at)
  have r2: "read_u64 bs (length p1) = Inr (fst (pt_range r), length p2)"
    unfolding l(2) by (rule read_in(2)) (simp add: at)
  have r3: "read_u64 bs (length p2) = Inr (snd (pt_range r), length p3)"
    unfolding l(3) by (rule read_in(2)) (simp add: at)
  have r4: "read_fixed 32 bs (length p3) = Inr (pt_expected_hash r, length p4)"
    unfolding l(4) by (rule read_in(1) [OF w(3)]) (simp add: at)
  have r5: "read_fixed 32 bs (length p4) = Inr (pt_replacement_hash r, length p5)"
    unfolding l(5) by (rule read_in(1) [OF w(4)]) (simp add: at)
  have r6: "read_kind bs (length p5) = Inr (pt_kind r, length p6)"
    unfolding l(6) by (rule read_in(3)) (simp add: at)
  have r7: "read_u64 bs (length p6) = Inr (pt_generation r, length p7)"
    unfolding l(7) by (rule read_in(2)) (simp add: at)
  have r8: "read_u64 bs (length p7) = Inr (pt_document_epoch r, length p8)"
    unfolding l(8) by (rule read_in(2)) (simp add: at)
  have r9: "read_text MAX_REQUEST_ID_BYTES bs (length p8) = Inr (?id, length p8 + 2 + ulen ?id)"
    by (rule read_in(4)) (simp_all add: w i MAX_REQUEST_ID_BYTES_def at)
  have "length (pre @ b) = length p8 + 2 + ulen ?id" by (simp add: b p ulen_def)
  then show ?thesis
    unfolding decode_record_def bs_def [symmetric] by (simp add: r1 r2 r3 r4 r5 r6 r7 r8 r9)
qed

lemma decode_record_sound:
  assumes "decode_record bs off = Inr (r, off')"
  shows "wf_target r \<and> off' \<le> length bs \<and>
    (fst (pt_range r) \<le> snd (pt_range r) \<longrightarrow> (\<exists>b. encode_record r = Inr b \<and> drop off bs = b @ drop off' bs))"
proof -
  obtain uri o1 rs o2 re o3 eh o4 rh o5 k o6 g o7 d o8 rid where
    1: "read_text MAX_URI_BYTES bs off = Inr (uri, o1)" and
    2: "read_u64 bs o1 = Inr (rs, o2)" and 3: "read_u64 bs o2 = Inr (re, o3)" and
    4: "read_fixed 32 bs o3 = Inr (eh, o4)" and 5: "read_fixed 32 bs o4 = Inr (rh, o5)" and
    6: "read_kind bs o5 = Inr (k, o6)" and 7: "read_u64 bs o6 = Inr (g, o7)" and
    8: "read_u64 bs o7 = Inr (d, o8)" and 9: "read_text MAX_REQUEST_ID_BYTES bs o8 = Inr (rid, off')" and
    r: "r = \<lparr>pt_uri = uri, pt_range = (rs, re), pt_expected_hash = eh, pt_replacement_hash = rh,
      pt_kind = k, pt_generation = g, pt_document_epoch = d, pt_request_id = rid\<rparr>"
    using assms by (auto simp: decode_record_def and_then_Inr)
  note f1 = read_text_sound [OF 1] and f4 = read_fixed_sound [OF 4] and f5 = read_fixed_sound [OF 5]
    and f9 = read_text_sound [OF 9]
  have d: "drop off bs = push_u16 (ulen uri) @ utf8 uri @ drop o1 bs" "drop o1 bs = push_u64 rs @ drop o2 bs"
    "drop o2 bs = push_u64 re @ drop o3 bs" "drop o3 bs = eh @ drop o4 bs" "drop o4 bs = rh @ drop o5 bs"
    "drop o5 bs = kind_bytes k @ drop o6 bs" "drop o6 bs = push_u64 g @ drop o7 bs"
    "drop o7 bs = push_u64 d @ drop o8 bs" "drop o8 bs = push_u16 (ulen rid) @ utf8 rid @ drop off' bs"
    using f1 read_u64_sound [OF 2] read_u64_sound [OF 3] f4 f5 read_kind_sound [OF 6] read_u64_sound [OF 7]
      read_u64_sound [OF 8] f9 by blast+
  have w: "wf_target r" using f1 f4 f5 f9 by (simp add: wf_target_def r)
  have all: "drop off bs = push_u16 (ulen uri) @ utf8 uri @ push_u64 rs @ push_u64 re @ eh @ rh @ kind_bytes k @
      push_u64 g @ push_u64 d @ push_u16 (ulen rid) @ utf8 rid @ drop off' bs"
    by (simp only: d append_assoc)
  have "uri \<noteq> []" "ulen uri \<le> MAX_URI_BYTES" "rid \<noteq> []" "ulen rid \<le> MAX_REQUEST_ID_BYTES" "off' \<le> length bs"
    using f1 f9 by blast+
  with w all show ?thesis by (auto simp: encode_record_def r)
qed

lemma decode_encode_records:
  assumes "list_all wf_target rs" and "encode_records rs = Inr b"
  shows "decode_records (length rs) (pre @ b @ rest) (length pre) = Inr (rs, length (pre @ b))"
  using assms
proof (induction rs arbitrary: b pre)
  case (Cons r rs)
  obtain b1 b2 where b: "encode_record r = Inr b1" "encode_records rs = Inr b2" "b = b1 @ b2"
    using Cons.prems(2) by (auto simp: and_then_Inr)
  have "decode_record (pre @ b1 @ (b2 @ rest)) (length pre) = Inr (r, length (pre @ b1))"
    using Cons.prems(1) b(1) by (intro decode_encode_record) simp_all
  moreover have "decode_records (length rs) ((pre @ b1) @ b2 @ rest) (length (pre @ b1)) =
      Inr (rs, length ((pre @ b1) @ b2))"
    using Cons.prems(1) b(2) by (intro Cons.IH) simp_all
  ultimately show ?case using b(3) by simp
qed simp

definition ranges_ordered :: "persisted_target list \<Rightarrow> bool" where
  "ranges_ordered rs = list_all (\<lambda>r. fst (pt_range r) \<le> snd (pt_range r)) rs"

lemma decode_records_sound:
  assumes "decode_records n bs off = Inr (rs, off')" and "off \<le> length bs"
  shows "length rs = n \<and> list_all wf_target rs \<and> off' \<le> length bs \<and>
    (ranges_ordered rs \<longrightarrow> (\<exists>b. encode_records rs = Inr b \<and> drop off bs = b @ drop off' bs))"
  using assms
proof (induction n arbitrary: off rs)
  case (Suc n)
  obtain r o1 rs1 where 1: "decode_record bs off = Inr (r, o1)" "decode_records n bs o1 = Inr (rs1, off')"
    and rs: "rs = r # rs1"
    using Suc.prems(1) by (auto simp: and_then_Inr)
  note s = decode_record_sound [OF 1(1)]
  from Suc.IH [OF 1(2)] s rs show ?case by (auto simp: ranges_ordered_def)
qed (auto simp: ranges_ordered_def)

subsection \<open>Whole files\<close>

definition file_header :: "bytes \<Rightarrow> nat \<Rightarrow> nat \<Rightarrow> bytes" where
  "file_header salt count len =
     RECOVERY_STATE_MAGIC @ push_u32 RECOVERY_STATE_VERSION @ salt @ push_u32 (of_nat count) @
       push_u32 (of_nat len)"

lemma length_magic [simp]: "length RECOVERY_STATE_MAGIC = 8"
  by (simp add: RECOVERY_STATE_MAGIC_def)

lemma length_file_header: "length salt = SALT_BYTES \<Longrightarrow> length (file_header salt n m) = 36"
  by (simp add: file_header_def SALT_BYTES_def)

lemma encode_state_Inr:
  "encode_state salt rs = Inr file \<longleftrightarrow>
     length rs \<le> MAX_RECOVERY_ENTRIES \<and>
     (\<exists>payload. encode_records rs = Inr payload \<and> length payload < 2 ^ 32 \<and>
       file = file_header salt (length rs) (length payload) @ payload @
         push_u32 (crc32 (file_header salt (length rs) (length payload) @ payload)) \<and>
       length file \<le> MAX_RECOVERY_STATE_BYTES)"
  by (cases "encode_records rs") (auto simp: encode_state_def file_header_def Let_def)

lemma read_u32_in:
  "\<exists>rest. bs = pre @ push_u32 v @ rest \<Longrightarrow> read_u32 bs (length pre) = Inr (v, length pre + 4)"
  by (auto simp: read_words_at(2))

lemma unat_of_nat_u32: "n < 2 ^ 32 \<Longrightarrow> unat (of_nat n :: u32) = n"
  by (simp add: unat_of_nat take_bit_eq_mod)

text \<open>The decoder on a file that has the layout.\<close>

lemma decode_layout:
  assumes salt: "length salt = SALT_BYTES" and n: "n \<le> MAX_RECOVERY_ENTRIES"
    and len: "length payload < 2 ^ 32"
    and bs: "bs = file_header salt n (length payload) @ payload @ push_u32 c"
    and max: "length bs \<le> MAX_RECOVERY_STATE_BYTES"
  shows "decode_state bs =
    (if crc32 (file_header salt n (length payload) @ payload) \<noteq> c then Inl CE_ChecksumMismatch
     else and_then (decode_records n payload 0) (\<lambda>(records, cursor).
       if cursor \<noteq> length payload then Inl CE_Malformed else Inr (salt, records)))"
proof -
  let ?m = RECOVERY_STATE_MAGIC and ?v = "push_u32 RECOVERY_STATE_VERSION"
  have un: "unat (of_nat n :: u32) = n" "unat (of_nat (length payload) :: u32) = length payload"
    using n len by (simp_all add: unat_of_nat_u32 MAX_RECOVERY_ENTRIES_def)
  have l: "length (file_header salt n (length payload)) = 36" by (rule length_file_header [OF salt])
  have r1: "read_fixed 8 bs 0 = Inr (?m, 8)"
    using read_in(1) [of ?m 8 bs "[]"] by (simp add: bs file_header_def)
  have r2: "read_u32 bs 8 = Inr (RECOVERY_STATE_VERSION, 12)"
    using read_u32_in [of bs ?m RECOVERY_STATE_VERSION] by (simp add: bs file_header_def)
  have r3: "read_fixed SALT_BYTES bs 12 = Inr (salt, 28)"
    using read_in(1) [OF salt, of bs "?m @ ?v"] by (simp add: bs file_header_def SALT_BYTES_def)
  have r4: "read_u32 bs 28 = Inr (of_nat n, 32)"
    using read_u32_in [of bs "?m @ ?v @ salt" "of_nat n"] salt by (simp add: bs file_header_def SALT_BYTES_def)
  have r5: "read_u32 bs 32 = Inr (of_nat (length payload), 36)"
    using read_u32_in [of bs "?m @ ?v @ salt @ push_u32 (of_nat n)" "of_nat (length payload)"] salt
    by (simp add: bs file_header_def SALT_BYTES_def)
  have r6: "read_u32 bs (36 + length payload) = Inr (c, 40 + length payload)"
    using read_u32_in [of bs "file_header salt n (length payload) @ payload" c] l by (simp add: bs)
  have t: "take (36 + length payload) bs = file_header salt n (length payload) @ payload"
    "length bs = 40 + length payload" "take (length payload) (drop 36 bs) = payload"
    using l by (simp_all add: bs)
  show ?thesis
    using max n by (simp add: decode_state_def r1 r2 r3 r4 r5 r6 un t Let_def)
qed

lemma decode_encode_state:
  assumes "length salt = SALT_BYTES" and "list_all wf_target rs" and "encode_state salt rs = Inr file"
  shows "decode_state file = Inr (salt, rs)"
proof -
  obtain payload where p: "length rs \<le> MAX_RECOVERY_ENTRIES" "encode_records rs = Inr payload"
    "length payload < 2 ^ 32" "length file \<le> MAX_RECOVERY_STATE_BYTES"
    "file = file_header salt (length rs) (length payload) @ payload @
       push_u32 (crc32 (file_header salt (length rs) (length payload) @ payload))"
    using assms(3) by (auto simp: encode_state_Inr)
  have "decode_records (length rs) ([] @ payload @ []) (length ([] :: bytes)) = Inr (rs, length ([] @ payload))"
    by (rule decode_encode_records [OF assms(2) p(2)])
  then show ?thesis
    using decode_layout [OF assms(1) p(1,3,5,4)] by simp
qed

text \<open>An accepted input has the layout.\<close>

text \<open>An accepted file is a header, a payload that the record decoder reads to its end, and their checksum.\<close>

lemma decode_state_frame:
  assumes "decode_state bs = Inr (salt, rs)"
  obtains n p where "length salt = SALT_BYTES" "n \<le> MAX_RECOVERY_ENTRIES" "length bs \<le> MAX_RECOVERY_STATE_BYTES"
    "length p < 2 ^ 32" "decode_records n p 0 = Inr (rs, length p)"
    "bs = file_header salt n (length p) @ p @ push_u32 (crc32 (file_header salt n (length p) @ p))"
proof -
  obtain o1 o2 o3 n o4 m o5 crc o6 cursor where max: "length bs \<le> MAX_RECOVERY_STATE_BYTES"
    and 1: "read_fixed 8 bs 0 = Inr (RECOVERY_STATE_MAGIC, o1)"
    and 2: "read_u32 bs o1 = Inr (RECOVERY_STATE_VERSION, o2)"
    and 3: "read_fixed SALT_BYTES bs o2 = Inr (salt, o3)"
    and 4: "read_u32 bs o3 = Inr (n, o4)" and n: "unat n \<le> MAX_RECOVERY_ENTRIES"
    and 5: "read_u32 bs o4 = Inr (m, o5)" and len: "length bs = o5 + unat m + 4"
    and 6: "read_u32 bs (o5 + unat m) = Inr (crc, o6)"
    and crc: "crc32 (take (length bs - 4) bs) = crc"
    and 7: "decode_records (unat n) (take (unat m) (drop o5 bs)) 0 = Inr (rs, cursor)"
    and cursor: "cursor = unat m"
    using assms by (auto simp: decode_state_def and_then_Inr Let_def split: if_splits)
  note f = read_fixed_sound [OF 1] read_u32_sound [OF 2] read_fixed_sound [OF 3]
    read_u32_sound [OF 4] read_u32_sound [OF 5] read_u32_sound [OF 6]
  have o5: "o5 = 36" using f by (simp add: SALT_BYTES_def)
  define p where "p = take (unat m) (drop 36 bs)"
  have lp: "length p = unat m" using len o5 by (simp add: p_def)
  have d: "drop 0 bs = RECOVERY_STATE_MAGIC @ drop o1 bs"
    "drop o1 bs = push_u32 RECOVERY_STATE_VERSION @ drop o2 bs"
    "drop o2 bs = salt @ drop o3 bs" "drop o3 bs = push_u32 n @ drop o4 bs"
    "drop o4 bs = push_u32 m @ drop o5 bs" "drop (o5 + unat m) bs = push_u32 crc @ drop o6 bs"
    using f by blast+
  have "drop (unat m) (drop 36 bs) = push_u32 crc"
    using d(6) f(6) len o5 by (simp add: add.commute)
  then have "drop 36 bs = p @ push_u32 crc"
    by (metis append_take_drop_id p_def)
  moreover have "of_nat (unat n) = n" "of_nat (unat m) = m" by simp_all
  ultimately have "bs = file_header salt (unat n) (unat m) @ p @ push_u32 crc"
    using d(1-5) o5 unfolding file_header_def by (simp only: drop_0 append_assoc)
  then have bs: "bs = file_header salt (unat n) (length p) @ p @ push_u32 crc"
    by (simp only: lp)
  have ls: "length salt = SALT_BYTES" using f(3) by blast
  have "take (length bs - 4) bs = file_header salt (unat n) (length p) @ p"
    using length_file_header [OF ls] by (subst (2) bs) (simp add: len o5 lp)
  with bs crc have "bs = file_header salt (unat n) (length p) @ p @ push_u32 (crc32 (file_header salt (unat n) (length p) @ p))"
    by simp
  moreover have "decode_records (unat n) p 0 = Inr (rs, length p)" using 7 cursor o5 lp by (simp add: p_def)
  moreover have "length p < 2 ^ 32" using lp unat_u32_lt [of m] by simp
  ultimately show thesis by (intro that [OF ls n max])
qed

lemma decode_state_sound:
  assumes "decode_state bs = Inr (salt, rs)"
  shows "length salt = SALT_BYTES \<and> length rs \<le> MAX_RECOVERY_ENTRIES \<and> list_all wf_target rs \<and>
    length bs \<le> MAX_RECOVERY_STATE_BYTES \<and>
    push_u32 (crc32 (take (length bs - 4) bs)) = drop (length bs - 4) bs \<and>
    (ranges_ordered rs \<longrightarrow> encode_state salt rs = Inr bs)"
proof -
  obtain n p where f: "length salt = SALT_BYTES" "n \<le> MAX_RECOVERY_ENTRIES" "length bs \<le> MAX_RECOVERY_STATE_BYTES"
    "length p < 2 ^ 32" "decode_records n p 0 = Inr (rs, length p)"
    and bs: "bs = file_header salt n (length p) @ p @ push_u32 (crc32 (file_header salt n (length p) @ p))"
    by (rule decode_state_frame [OF assms])
  have s: "length rs = n" "list_all wf_target rs" "ranges_ordered rs \<Longrightarrow> encode_records rs = Inr p"
    using decode_records_sound [OF f(5)] by auto
  have "length (push_u32 crc) = 4" for crc by simp
  then have "push_u32 (crc32 (take (length bs - 4) bs)) = drop (length bs - 4) bs"
    by (subst (1 2 3 4) bs) simp
  moreover have "encode_state salt rs = Inr bs" if "ranges_ordered rs"
    unfolding encode_state_Inr
    by (intro conjI exI [of _ p]) (use f s s(3) [OF that] bs in simp_all)
  ultimately show ?thesis using f s by simp
qed

subsection \<open>The interface\<close>

text \<open>
  What the durable store relies on: a file that was written is read back, and whatever is read
  satisfies the record invariant.
\<close>

locale state_codec =
  fixes enc :: "'s \<Rightarrow> 'r list \<Rightarrow> 'e + bytes"
    and dec :: "bytes \<Rightarrow> 'e + 's \<times> 'r list"
    and salt_ok :: "'s \<Rightarrow> bool"
    and rec_ok :: "'r \<Rightarrow> bool"
    and max_records :: nat
  assumes dec_enc: "salt_ok s \<Longrightarrow> list_all rec_ok rs \<Longrightarrow> enc s rs = Inr b \<Longrightarrow> dec b = Inr (s, rs)"
    and enc_max: "enc s rs = Inr b \<Longrightarrow> length rs \<le> max_records"
    and dec_ok: "dec b = Inr (s, rs) \<Longrightarrow> salt_ok s \<and> list_all rec_ok rs \<and> length rs \<le> max_records"
begin

lemma enc_inject:
  "salt_ok s \<Longrightarrow> list_all rec_ok rs \<Longrightarrow> salt_ok s' \<Longrightarrow> list_all rec_ok rs' \<Longrightarrow>
     enc s rs = Inr b \<Longrightarrow> enc s' rs' = Inr b \<Longrightarrow> s = s' \<and> rs = rs'"
proof -
  assume "salt_ok s" "list_all rec_ok rs" "salt_ok s'" "list_all rec_ok rs'" "enc s rs = Inr b"
    "enc s' rs' = Inr b"
  then have "dec b = Inr (s, rs)" "dec b = Inr (s', rs')" by (auto intro: dec_enc)
  then show "s = s' \<and> rs = rs'" by simp
qed

text \<open>The last of a sequence of successful writes is what a restart finds.\<close>

fun write_sequence :: "'e + bytes \<Rightarrow> ('s \<times> 'r list) list \<Rightarrow> 'e + bytes" where
  "write_sequence old [] = old"
| "write_sequence old ((s, rs) # ws) =
     write_sequence (case enc s rs of Inl _ \<Rightarrow> old | Inr b \<Rightarrow> Inr b) ws"

lemma write_sequence_last:
  assumes "salt_ok s" and "list_all rec_ok rs" and "enc s rs = Inr b"
  shows "\<exists>c. write_sequence old (ws @ [(s, rs)]) = Inr c \<and> dec c = Inr (s, rs)"
  using assms(3) dec_enc [OF assms]
  by (induction ws arbitrary: old) (auto split: sum.splits)

end

interpretation codec: state_codec encode_state decode_state "\<lambda>s. length s = SALT_BYTES" wf_target
    MAX_RECOVERY_ENTRIES
proof unfold_locales
  fix s rs b
  show "length s = SALT_BYTES \<Longrightarrow> list_all wf_target rs \<Longrightarrow> encode_state s rs = Inr b \<Longrightarrow>
      decode_state b = Inr (s, rs)"
    by (rule decode_encode_state)
  show "encode_state s rs = Inr b \<Longrightarrow> length rs \<le> MAX_RECOVERY_ENTRIES"
    by (simp only: encode_state_Inr)
  show "decode_state b = Inr (s, rs) \<Longrightarrow>
      length s = SALT_BYTES \<and> list_all wf_target rs \<and> length rs \<le> MAX_RECOVERY_ENTRIES"
    using decode_state_sound by blast
qed

subsection \<open>Properties\<close>

text \<open>
  C2. The state file round-trips and is canonical: decoding what was encoded gives back the salt
  and the records, and an input that decodes, with no record's range reversed, is exactly the
  encoding of what it decodes to.
\<close>

theorem state_file_roundtrip:
  "(length salt = SALT_BYTES \<and> list_all wf_target rs \<and> encode_state salt rs = Inr file \<longrightarrow>
      decode_state file = Inr (salt, rs)) \<and>
   (decode_state input = Inr (salt', rs') \<longrightarrow>
      length salt' = SALT_BYTES \<and> list_all wf_target rs' \<and> length rs' \<le> MAX_RECOVERY_ENTRIES \<and>
      (ranges_ordered rs' \<longrightarrow> encode_state salt' rs' = Inr input))"
  using decode_encode_state decode_state_sound by blast

definition sample_target :: persisted_target where
  "sample_target =
     \<lparr>pt_uri = [0x61], pt_range = (1, 2), pt_expected_hash = replicate 32 0,
      pt_replacement_hash = replicate 32 1, pt_kind = PK_Pending, pt_generation = 3,
      pt_document_epoch = 4, pt_request_id = [0x62]\<rparr>"

lemma wf_sample_target: "wf_target sample_target"
  by (simp add: wf_target_def sample_target_def is_scalar_def)

lemma encode_sample: "\<exists>file. encode_state (replicate 16 7) [sample_target] = Inr file"
  by (simp add: encode_state_def encode_record_def sample_target_def utf8_char_def MAX_URI_BYTES_def
      MAX_REQUEST_ID_BYTES_def MAX_RECOVERY_ENTRIES_def MAX_RECOVERY_STATE_BYTES_def kind_bytes_def Let_def)

lemma state_file_roundtrip_witness:
  "\<exists>file. encode_state (replicate 16 7) [sample_target] = Inr file \<and>
    decode_state file = Inr (replicate 16 7, [sample_target])"
proof -
  obtain image where f: "encode_state (replicate 16 7) [sample_target] = Inr image"
    using encode_sample by blast
  show ?thesis
    using state_file_roundtrip [of "replicate 16 7" "[sample_target]" image] f wf_sample_target
    by (auto simp: SALT_BYTES_def)
qed

text \<open>
  Corruption is detected: changing any single byte of an accepted state file, in the header,
  the records or the checksum, makes the decoder refuse it.
\<close>

lemma single_byte_corruption_rejected:
  assumes "decode_state file = Inr x" and "i < length file" and "b \<noteq> file ! i"
  shows "\<exists>e. decode_state (file[i := b]) = Inl e"
proof (rule ccontr)
  assume "\<nexists>e. decode_state (file[i := b]) = Inl e"
  then obtain y where y: "decode_state (file[i := b]) = Inr y" by (cases "decode_state (file[i := b])") auto
  obtain s rs where "x = (s, rs)" by fastforce
  with decode_state_sound assms(1)
  have c: "push_u32 (crc32 (take (length file - 4) file)) = drop (length file - 4) file" by blast
  obtain s' rs' where "y = (s', rs')" by fastforce
  with decode_state_sound y
  have c': "push_u32 (crc32 (take (length file - 4) (file[i := b]))) = drop (length file - 4) (file[i := b])"
    by fastforce
  show False
  proof (cases "i < length file - 4")
    case True
    have "crc32 ((take (length file - 4) file)[i := b]) \<noteq> crc32 (take (length file - 4) file)"
      using assms(3) True by (intro crc32_single_byte) simp_all
    moreover have "push_u32 (crc32 (take (length file - 4) (file[i := b]))) = push_u32 (crc32 (take (length file - 4) file))"
      using c c' True by simp
    then have "crc32 (take (length file - 4) (file[i := b])) = crc32 (take (length file - 4) file)"
      using from_le_push(2) by metis
    ultimately show False by (simp add: take_update_swap)
  next
    case False
    have "drop (length file - 4) (file[i := b]) = drop (length file - 4) file"
      using c c' False by (simp add: take_update_cancel)
    then have "drop (length file - 4) (file[i := b]) ! (i - (length file - 4)) =
        drop (length file - 4) file ! (i - (length file - 4))" by simp
    then show False using False assms(2,3) by simp
  qed
qed

lemma single_byte_corruption_rejected_witness:
  "\<exists>file e. encode_state (replicate 16 7) [sample_target] = Inr file \<and> decode_state (file[0 := 1]) = Inl e"
proof -
  obtain image where f: "encode_state (replicate 16 7) [sample_target] = Inr image"
    using encode_sample by blast
  have d: "decode_state image = Inr (replicate 16 7, [sample_target])"
    by (rule decode_encode_state [OF _ _ f]) (simp_all add: wf_sample_target SALT_BYTES_def)
  have h: "image ! 0 = 90" "0 < length image"
    using f by (auto simp: encode_state_Inr file_header_def RECOVERY_STATE_MAGIC_def byte_of_def)
  show ?thesis using single_byte_corruption_rejected [OF d h(2), of 1] f h(1) by auto
qed

end
