(* ===== verification/Registry.thy ===== *)
theory Registry
  imports Codec Ledger
begin

text \<open>
  The bounded recovery registry of zonkey-service (\<open>transport.rs\<close>): an indeterminate outcome
  blocks a logical target, and only a reconciliation readback followed by an acknowledgement of the
  same session unblocks it.
\<close>

datatype recovery_text =
    RT_Plain ustr
  | RT_Hashed bytes

definition text_matches :: "recovery_text \<Rightarrow> bytes option \<Rightarrow> ustr \<Rightarrow> bool" where
  "text_matches t salt live =
     (case t of
        RT_Plain s \<Rightarrow> s = live
      | RT_Hashed h \<Rightarrow> (case salt of Some salt \<Rightarrow> salted_hash salt live = h | None \<Rightarrow> False))"

definition text_display :: "recovery_text \<Rightarrow> ustr" where
  "text_display t = (case t of RT_Plain s \<Rightarrow> s | RT_Hashed _ \<Rightarrow> lit ''<hashed>'')"

record recovery_descriptor =
  rd_request_id :: ustr
  rd_uri :: ustr
  rd_range :: "u64 \<times> u64"
  rd_expected :: ustr
  rd_replacement :: ustr
  rd_generation :: u64
  rd_document_epoch :: u64

record blocked_target =
  bt_session_id :: ustr
  bt_uri :: ustr
  bt_expected :: recovery_text
  bt_replacement :: recovery_text
  bt_range :: "u64 \<times> u64"
  bt_state :: "(recovery_verdict \<times> bool) option"
  bt_generation :: u64
  bt_document_epoch :: u64

datatype recovery_error =
    RE_UnknownTarget
  | RE_SessionMismatch
  | RE_AckBeforeReconcile
  | RE_RegistryFull
  | RE_EpochMismatch

record recovery_registry =
  rg_capacity :: nat
  rg_order :: "ustr list"
  rg_entries :: "ustr \<rightharpoonup> blocked_target"
  rg_salt :: "bytes option"

definition registry_new :: "nat \<Rightarrow> ledger_capacity_error + recovery_registry" where
  "registry_new capacity =
     (if capacity = 0 then Inl LedgerCapacityError
      else Inr \<lparr>rg_capacity = capacity, rg_order = [], rg_entries = Map.empty, rg_salt = None\<rparr>)"

definition registry_key :: "ustr \<Rightarrow> ustr \<Rightarrow> ustr" where
  "registry_key uri expected = uri @ [0] @ expected"

definition resolve_key :: "recovery_registry \<Rightarrow> ustr \<Rightarrow> ustr \<Rightarrow> ustr" where
  "resolve_key g uri expected =
     (let plain = registry_key uri expected
      in if rg_entries g plain \<noteq> None then plain
         else (case rg_salt g of
                 Some salt \<Rightarrow> registry_key uri (hex (salted_hash salt expected))
               | None \<Rightarrow> plain))"

text \<open>A pending intent that survived a restart reloads as a blocked target.\<close>

definition restored_target :: "persisted_target \<Rightarrow> blocked_target" where
  "restored_target r =
     \<lparr>bt_session_id = [], bt_uri = pt_uri r, bt_expected = RT_Hashed (pt_expected_hash r),
      bt_replacement = RT_Hashed (pt_replacement_hash r), bt_range = pt_range r,
      bt_state = map_option (\<lambda>v. (v, False))
        (case pt_kind r of PK_Blocked verdict \<Rightarrow> verdict | PK_Pending \<Rightarrow> None),
      bt_generation = pt_generation r, bt_document_epoch = pt_document_epoch r\<rparr>"

definition restored_key :: "persisted_target \<Rightarrow> ustr" where
  "restored_key r = registry_key (pt_uri r) (hex (pt_expected_hash r))"

definition restore_record :: "recovery_registry \<Rightarrow> persisted_target \<Rightarrow> recovery_registry" where
  "restore_record g r =
     g\<lparr>rg_order := rg_order g @ [restored_key r],
       rg_entries := (rg_entries g)(restored_key r \<mapsto> restored_target r)\<rparr>"

definition registry_restore ::
  "nat \<Rightarrow> bytes \<Rightarrow> persisted_target list \<Rightarrow> ledger_capacity_error + recovery_registry" where
  "registry_restore capacity salt records =
     (if capacity = 0 \<or> length records > capacity then Inl LedgerCapacityError
      else (case registry_new capacity of
              Inl e \<Rightarrow> Inl e
            | Inr g \<Rightarrow> Inr (foldl restore_record (g\<lparr>rg_salt := Some salt\<rparr>) records)))"

definition is_blocked :: "recovery_registry \<Rightarrow> ustr \<Rightarrow> ustr \<Rightarrow> bool" where
  "is_blocked g uri expected \<longleftrightarrow> rg_entries g (resolve_key g uri expected) \<noteq> None"

text \<open>\<open>block\<close> returns \<open>Ok(None)\<close>; the model's success value is unit.\<close>

definition registry_block ::
  "recovery_registry \<Rightarrow> ustr \<Rightarrow> ustr \<Rightarrow> ustr \<Rightarrow> ustr \<Rightarrow> u64 \<times> u64 \<Rightarrow> u64
    \<Rightarrow> (recovery_error + unit) \<times> recovery_registry" where
  "registry_block g session_id uri expected replacement rng document_epoch =
     (let key = resolve_key g uri expected
      in if rg_entries g key = None \<and> length (rg_order g) = rg_capacity g then (Inl RE_RegistryFull, g)
         else (Inr (),
           g\<lparr>rg_order := (if rg_entries g key = None then rg_order g @ [key] else rg_order g),
             rg_entries := (rg_entries g)(key \<mapsto>
               \<lparr>bt_session_id = session_id, bt_uri = uri, bt_expected = RT_Plain expected,
                bt_replacement = RT_Plain replacement, bt_range = rng, bt_state = None,
                bt_generation = 0, bt_document_epoch = document_epoch\<rparr>)\<rparr>))"

definition registry_list :: "recovery_registry \<Rightarrow> blocked_target list" where
  "registry_list g = List.map_filter (rg_entries g) (rg_order g)"

definition rebind_allowed :: "blocked_target \<Rightarrow> u64 \<Rightarrow> bool" where
  "rebind_allowed t document_epoch \<longleftrightarrow> bt_document_epoch t = 0 \<or> bt_document_epoch t = document_epoch"

text \<open>The session and epoch gate at the start of \<open>reconcile\<close> and \<open>acknowledge\<close>.\<close>

definition bind_target :: "blocked_target \<Rightarrow> ustr \<Rightarrow> u64 \<Rightarrow> recovery_error + blocked_target" where
  "bind_target t session_id document_epoch =
     (if bt_session_id t = [] then
        if \<not> rebind_allowed t document_epoch then Inl RE_EpochMismatch
        else Inr (t\<lparr>bt_session_id := session_id\<rparr>)
      else if bt_session_id t \<noteq> session_id then Inl RE_SessionMismatch
      else Inr t)"

definition readback_verdict :: "bytes option \<Rightarrow> blocked_target \<Rightarrow> ustr \<Rightarrow> recovery_verdict" where
  "readback_verdict salt t live =
     (if text_matches (bt_replacement t) salt live then RV_AppliedAcknowledged
      else if text_matches (bt_expected t) salt live then RV_NotApplied
      else RV_ConflictHumanReview)"

definition registry_reconcile ::
  "recovery_registry \<Rightarrow> ustr \<Rightarrow> ustr \<Rightarrow> ustr \<Rightarrow> u64 \<Rightarrow> ustr
    \<Rightarrow> (recovery_error + recovery_verdict) \<times> recovery_registry" where
  "registry_reconcile g session_id uri expected document_epoch live =
     (let key = resolve_key g uri expected
      in case rg_entries g key of
           None \<Rightarrow> (Inl RE_UnknownTarget, g)
         | Some t \<Rightarrow>
            (case bind_target t session_id document_epoch of
               Inl e \<Rightarrow> (Inl e, g)
             | Inr t' \<Rightarrow>
                (case bt_state t' of
                   Some (verdict, _) \<Rightarrow>
                     (Inr verdict, g\<lparr>rg_entries := (rg_entries g)(key \<mapsto> t')\<rparr>)
                 | None \<Rightarrow>
                     (let verdict = readback_verdict (rg_salt g) t' live
                      in (Inr verdict,
                          g\<lparr>rg_entries := (rg_entries g)(key \<mapsto> t'\<lparr>bt_state := Some (verdict, False)\<rparr>)\<rparr>)))))"

definition registry_acknowledge ::
  "recovery_registry \<Rightarrow> ustr \<Rightarrow> ustr \<Rightarrow> ustr \<Rightarrow> u64 \<Rightarrow> (recovery_error + unit) \<times> recovery_registry" where
  "registry_acknowledge g session_id uri expected document_epoch =
     (let key = resolve_key g uri expected
      in case rg_entries g key of
           None \<Rightarrow> (Inl RE_UnknownTarget, g)
         | Some t \<Rightarrow>
            (case bind_target t session_id document_epoch of
               Inl e \<Rightarrow> (Inl e, g)
             | Inr t' \<Rightarrow>
                (case bt_state t' of
                   None \<Rightarrow> (Inl RE_AckBeforeReconcile, g\<lparr>rg_entries := (rg_entries g)(key \<mapsto> t')\<rparr>)
                 | Some _ \<Rightarrow>
                     (Inr (), g\<lparr>rg_entries := (rg_entries g)(key := None),
                                rg_order := filter (\<lambda>entry. entry \<noteq> key) (rg_order g)\<rparr>))))"

subsection \<open>The registry invariant\<close>

definition registry_inv :: "recovery_registry \<Rightarrow> bool" where
  "registry_inv g \<longleftrightarrow> 0 < rg_capacity g \<and> length (rg_order g) \<le> rg_capacity g \<and>
     set (rg_order g) = dom (rg_entries g)"

lemma registry_new_inv: "registry_new c = Inr g \<Longrightarrow> registry_inv g"
  by (auto simp: registry_new_def registry_inv_def split: if_splits)

lemma registry_block_inv:
  "registry_inv g \<Longrightarrow> registry_inv (snd (registry_block g sid uri e r rng ep))"
  by (auto simp: registry_inv_def registry_block_def Let_def)

lemma registry_update_inv:
  "registry_inv g \<Longrightarrow> rg_entries g k = Some t \<Longrightarrow> registry_inv (g\<lparr>rg_entries := (rg_entries g)(k \<mapsto> t')\<rparr>)"
  by (auto simp: registry_inv_def)

lemma registry_reconcile_inv:
  "registry_inv g \<Longrightarrow> registry_inv (snd (registry_reconcile g sid uri e ep live))"
  by (auto simp: registry_reconcile_def Let_def registry_update_inv split: option.splits sum.splits)

lemma registry_acknowledge_inv:
  assumes "registry_inv g"
  shows "registry_inv (snd (registry_acknowledge g sid uri e ep))"
proof -
  have "registry_inv (g\<lparr>rg_entries := (rg_entries g)(k := None), rg_order := filter (\<lambda>x. x \<noteq> k) (rg_order g)\<rparr>)" for k
    using assms by (auto simp: registry_inv_def intro: le_trans [OF length_filter_le])
  then show ?thesis
    using assms
    by (auto simp: registry_acknowledge_def Let_def registry_update_inv split: option.splits sum.splits)
qed

subsection \<open>What unblocks a target\<close>

datatype registry_op =
    Block ustr ustr ustr ustr "u64 \<times> u64" u64
  | Reconcile ustr ustr ustr u64 ustr
  | Acknowledge ustr ustr ustr u64

fun registry_step :: "recovery_registry \<Rightarrow> registry_op \<Rightarrow> recovery_registry" where
  "registry_step g (Block sid uri e r rng ep) = snd (registry_block g sid uri e r rng ep)"
| "registry_step g (Reconcile sid uri e ep live) = snd (registry_reconcile g sid uri e ep live)"
| "registry_step g (Acknowledge sid uri e ep) = snd (registry_acknowledge g sid uri e ep)"

lemma registry_step_inv: "registry_inv g \<Longrightarrow> registry_inv (registry_step g op')"
  by (cases op') (simp_all add: registry_block_inv registry_reconcile_inv registry_acknowledge_inv)

lemma registry_step_fixed:
  "rg_salt (registry_step g op') = rg_salt g \<and> rg_capacity (registry_step g op') = rg_capacity g"
  by (cases op')
    (auto simp: registry_block_def registry_reconcile_def registry_acknowledge_def Let_def
      split: option.splits sum.splits)

text \<open>An entry disappears only by an acknowledgement that passed the gate with a verdict.\<close>

lemma bind_target_Inr:
  "bind_target t sid ep = Inr t' \<Longrightarrow>
     t' = t\<lparr>bt_session_id := sid\<rparr> \<and>
     (bt_session_id t = sid \<or> (bt_session_id t = [] \<and> rebind_allowed t ep))"
  by (auto simp: bind_target_def split: if_splits)

lemma registry_step_removes:
  assumes "rg_entries g k = Some t" and "rg_entries (registry_step g op') k = None"
  shows "\<exists>sid uri e ep v. op' = Acknowledge sid uri e ep \<and> k = resolve_key g uri e \<and>
    bt_state t = Some v \<and> (bt_session_id t = sid \<or> (bt_session_id t = [] \<and> rebind_allowed t ep))"
proof (cases op')
  case (Acknowledge sid uri e ep)
  with assms have k: "k = resolve_key g uri e"
    by (auto simp: registry_acknowledge_def Let_def split: option.splits sum.splits if_splits)
  then obtain t' v where "bind_target t sid ep = Inr t'" "bt_state t' = Some v"
    using assms Acknowledge
    by (auto simp: registry_acknowledge_def Let_def split: option.splits sum.splits)
  with bind_target_Inr [OF this(1)] k Acknowledge show ?thesis by auto
qed (use assms in \<open>auto simp: registry_block_def registry_reconcile_def Let_def
      split: option.splits sum.splits if_splits\<close>)

text \<open>A verdict appears only by a reconciliation that passed the gate.\<close>

lemma registry_step_verdict:
  assumes "rg_entries g k = Some t" and "bt_state t = None"
    and "rg_entries (registry_step g op') k = Some t'" and "bt_state t' = Some v"
  shows "\<exists>sid uri e ep live. op' = Reconcile sid uri e ep live \<and> k = resolve_key g uri e \<and>
    v = (readback_verdict (rg_salt g) t live, False) \<and> bt_session_id t' = sid \<and>
    (bt_session_id t = sid \<or> (bt_session_id t = [] \<and> rebind_allowed t ep))"
proof (cases op')
  case (Reconcile sid uri e ep live)
  with assms have k: "k = resolve_key g uri e"
    by (auto simp: registry_reconcile_def Let_def split: option.splits sum.splits if_splits)
  then obtain u where u: "bind_target t sid ep = Inr u"
    using assms Reconcile
    by (auto simp: registry_reconcile_def Let_def split: option.splits sum.splits)
  note b = bind_target_Inr [OF u]
  then have "readback_verdict (rg_salt g) u live = readback_verdict (rg_salt g) t live"
    by (simp add: readback_verdict_def)
  with b k u assms Reconcile show ?thesis
    by (auto simp: registry_reconcile_def Let_def)
next
  case (Acknowledge sid uri e ep)
  with assms show ?thesis
    by (auto simp: registry_acknowledge_def Let_def split: option.splits sum.splits if_splits
        dest!: bind_target_Inr)
qed (use assms in \<open>auto simp: registry_block_def Let_def split: if_splits\<close>)

text \<open>An entry that is there and later gone was acknowledged in between.\<close>

lemma removed_acknowledged:
  assumes "rg_entries g k \<noteq> None" and "rg_entries (foldl registry_step g ops) k = None"
  shows "\<exists>j < length ops. \<exists>sid uri e ep t v. ops ! j = Acknowledge sid uri e ep \<and>
    k = resolve_key (foldl registry_step g (take j ops)) uri e \<and>
    rg_entries (foldl registry_step g (take j ops)) k = Some t \<and> bt_state t = Some v \<and>
    (bt_session_id t = sid \<or> (bt_session_id t = [] \<and> rebind_allowed t ep))"
  using assms
proof (induction ops arbitrary: g)
  case (Cons op' ops)
  obtain t where t: "rg_entries g k = Some t" using Cons.prems(1) by auto
  show ?case
  proof (cases "rg_entries (registry_step g op') k")
    case None
    from registry_step_removes [OF t None] t show ?thesis
      by (intro exI [of _ 0]) auto
  next
    case (Some t')
    then obtain j where "j < length ops" "\<exists>sid uri e ep t v. ops ! j = Acknowledge sid uri e ep \<and>
      k = resolve_key (foldl registry_step (registry_step g op') (take j ops)) uri e \<and>
      rg_entries (foldl registry_step (registry_step g op') (take j ops)) k = Some t \<and> bt_state t = Some v \<and>
      (bt_session_id t = sid \<or> (bt_session_id t = [] \<and> rebind_allowed t ep))"
      using Cons.IH [of "registry_step g op'"] Cons.prems(2) by auto
    then show ?thesis by (intro exI [of _ "Suc j"]) simp
  qed
qed simp

text \<open>
  C1. A blocked target is unblocked only on purpose: if a target without a verdict is blocked and
  after any operations no longer is, then some reconciliation for it was run, and later an
  acknowledgement for it, which found a recorded verdict and came from the session that owns the
  target or, for a restored one, passed the document-epoch gate.
\<close>

theorem unblocked_only_after_reconcile_and_ack:
  assumes "rg_entries g k = Some t" and "bt_state t = None"
    and "rg_entries (foldl registry_step g ops) k = None"
  shows "\<exists>i j. i < j \<and> j < length ops \<and>
    (\<exists>sid uri e ep live. ops ! i = Reconcile sid uri e ep live \<and>
       k = resolve_key (foldl registry_step g (take i ops)) uri e) \<and>
    (\<exists>sid uri e ep t' v. ops ! j = Acknowledge sid uri e ep \<and>
       k = resolve_key (foldl registry_step g (take j ops)) uri e \<and>
       rg_entries (foldl registry_step g (take j ops)) k = Some t' \<and> bt_state t' = Some v \<and>
       (bt_session_id t' = sid \<or> (bt_session_id t' = [] \<and> rebind_allowed t' ep)))"
  using assms
proof (induction ops arbitrary: g t)
  case (Cons op' ops)
  let ?g = "registry_step g op'"
  obtain t' where t': "rg_entries ?g k = Some t'"
    using registry_step_removes [OF Cons.prems(1), of op'] Cons.prems(2) by fastforce
  show ?case
  proof (cases "bt_state t'")
    case None
    from Cons.IH [OF t' None] Cons.prems(3) obtain i j where "i < j" "j < length ops"
      "\<exists>sid uri e ep live. ops ! i = Reconcile sid uri e ep live \<and>
         k = resolve_key (foldl registry_step ?g (take i ops)) uri e"
      "\<exists>sid uri e ep t' v. ops ! j = Acknowledge sid uri e ep \<and>
         k = resolve_key (foldl registry_step ?g (take j ops)) uri e \<and>
         rg_entries (foldl registry_step ?g (take j ops)) k = Some t' \<and> bt_state t' = Some v \<and>
         (bt_session_id t' = sid \<or> (bt_session_id t' = [] \<and> rebind_allowed t' ep))"
      by auto
    then show ?thesis by (intro exI [of _ "Suc i"] exI [of _ "Suc j"]) simp
  next
    case (Some v)
    have r: "\<exists>sid uri e ep live. op' = Reconcile sid uri e ep live \<and> k = resolve_key g uri e"
      using registry_step_verdict [OF Cons.prems(1,2) t' Some] by blast
    obtain j where "j < length ops" "\<exists>sid uri e ep t v. ops ! j = Acknowledge sid uri e ep \<and>
        k = resolve_key (foldl registry_step ?g (take j ops)) uri e \<and>
        rg_entries (foldl registry_step ?g (take j ops)) k = Some t \<and> bt_state t = Some v \<and>
        (bt_session_id t = sid \<or> (bt_session_id t = [] \<and> rebind_allowed t ep))"
      using removed_acknowledged [of ?g k ops] t' Cons.prems(3) by auto
    with r show ?thesis by (intro exI [of _ 0] exI [of _ "Suc j"]) simp
  qed
qed simp

text \<open>A registry with one target that a session blocked.\<close>

definition sample_registry :: recovery_registry where
  "sample_registry = snd (registry_block (projr (registry_new 2)) [5] [1] [2] [3] (0, 1) 0)"

lemma sample_registry_eq:
  "sample_registry = \<lparr>rg_capacity = 2, rg_order = [[1, 0, 2]],
     rg_entries = [[1, 0, 2] \<mapsto> \<lparr>bt_session_id = [5], bt_uri = [1], bt_expected = RT_Plain [2],
       bt_replacement = RT_Plain [3], bt_range = (0, 1), bt_state = None, bt_generation = 0,
       bt_document_epoch = 0\<rparr>], rg_salt = None\<rparr>"
  by (simp add: sample_registry_def registry_new_def registry_block_def resolve_key_def registry_key_def Let_def)

lemma unblocked_only_after_reconcile_and_ack_witness:
  "\<exists>i < 2. \<exists>sid uri e ep live.
    [Reconcile [5] [1] [2] 0 [3], Acknowledge [5] [1] [2] 0] ! i = Reconcile sid uri e ep live"
proof -
  let ?ops = "[Reconcile [5] [1] [2] 0 [3], Acknowledge [5] [1] [2] 0]"
  have k: "rg_entries sample_registry [1, 0, 2] = Some
      \<lparr>bt_session_id = [5], bt_uri = [1], bt_expected = RT_Plain [2], bt_replacement = RT_Plain [3],
       bt_range = (0, 1), bt_state = None, bt_generation = 0, bt_document_epoch = 0\<rparr>"
    by (simp add: sample_registry_eq)
  have f: "rg_entries (foldl registry_step sample_registry ?ops) [1, 0, 2] = None"
    by (simp add: sample_registry_eq resolve_key_def registry_key_def Let_def
        registry_reconcile_def registry_acknowledge_def bind_target_def readback_verdict_def text_matches_def)
  from unblocked_only_after_reconcile_and_ack [OF k _ f] obtain i j where "i < j" "j < length ?ops"
    "\<exists>sid uri e ep live. ?ops ! i = Reconcile sid uri e ep live" by auto
  then show ?thesis by (intro exI [of _ i]) simp
qed

lemma is_blocked_after_block:
  assumes "registry_block g sid uri e r rng ep = (Inr (), g')"
  shows "is_blocked g' uri e"
proof -
  let ?k = "resolve_key g uri e"
  have g': "rg_entries g' ?k \<noteq> None" "rg_salt g' = rg_salt g"
    using assms by (auto simp: registry_block_def Let_def split: if_splits)
  have "resolve_key g' uri e = ?k \<or> resolve_key g' uri e = registry_key uri e \<and> rg_entries g' (registry_key uri e) \<noteq> None"
    using g' by (auto simp: resolve_key_def Let_def split: option.splits)
  with g' show ?thesis by (auto simp: is_blocked_def)
qed

lemma block_never_evicts:
  assumes "registry_inv g" and "registry_block g sid uri e r rng ep = (res, g')"
  shows "registry_inv g' \<and> dom (rg_entries g) \<subseteq> dom (rg_entries g') \<and>
    (res = Inl RE_RegistryFull \<longleftrightarrow>
       \<not> is_blocked g uri e \<and> length (rg_order g) = rg_capacity g) \<and>
    (case res of Inl x \<Rightarrow> x = RE_RegistryFull \<and> g' = g
     | Inr _ \<Rightarrow> is_blocked g' uri e \<and>
         (\<exists>t. rg_entries g' (resolve_key g uri e) = Some t \<and> bt_state t = None \<and> bt_session_id t = sid \<and>
            bt_expected t = RT_Plain e) \<and>
         (\<forall>k. k \<noteq> resolve_key g uri e \<longrightarrow> rg_entries g' k = rg_entries g k))"
proof -
  have "registry_inv g'" using registry_block_inv [OF assms(1), of sid uri e r rng ep] assms(2) by simp
  moreover have "is_blocked g' uri e" if "res = Inr ()"
    using is_blocked_after_block assms(2) that by simp
  ultimately show ?thesis
    using assms(2) by (auto simp: registry_block_def is_blocked_def Let_def split: if_splits)
qed

text \<open>
  Blocking never evicts: every target that was blocked stays an entry, a full registry refuses
  a new target without changing, and a successful call leaves its target blocked, unreconciled and
  owned by the calling session.
\<close>

lemma block_refuses_instead_of_evicting:
  assumes "registry_inv g" and "registry_block g sid uri e r rng ep = (res, g')"
  shows "registry_inv g' \<and> dom (rg_entries g) \<subseteq> dom (rg_entries g') \<and>
    (res = Inl RE_RegistryFull \<longleftrightarrow>
       \<not> is_blocked g uri e \<and> length (rg_order g) = rg_capacity g) \<and>
    (case res of Inl x \<Rightarrow> x = RE_RegistryFull \<and> g' = g
     | Inr _ \<Rightarrow> is_blocked g' uri e \<and>
         (\<exists>t. rg_entries g' (resolve_key g uri e) = Some t \<and> bt_state t = None \<and> bt_session_id t = sid \<and>
            bt_expected t = RT_Plain e) \<and>
         (\<forall>k. k \<noteq> resolve_key g uri e \<longrightarrow> rg_entries g' k = rg_entries g k))"
  by (rule block_never_evicts [OF assms])

lemma block_refuses_instead_of_evicting_witness:
  "\<exists>g. registry_block (projr (registry_new 1)) [5] [1] [2] [3] (0, 1) 0 = (Inr (), g) \<and> is_blocked g [1] [2]"
proof -
  obtain g where g: "registry_block (projr (registry_new 1)) [5] [1] [2] [3] (0, 1) 0 = (Inr (), g)"
    by (simp add: registry_new_def registry_block_def Let_def)
  have "registry_inv (projr (registry_new 1))"
    by (rule registry_new_inv [of 1]) (simp add: registry_new_def)
  from block_refuses_instead_of_evicting [OF this g] g show ?thesis by auto
qed

lemma resolve_same_key:
  assumes "rg_entries g (resolve_key g uri e) = Some t"
  shows "resolve_key (g\<lparr>rg_entries := (rg_entries g)(resolve_key g uri e \<mapsto> t')\<rparr>) uri e = resolve_key g uri e"
  using assms by (auto simp: resolve_key_def Let_def split: option.splits)

text \<open>
  The reconciliation verdict is decided once and by exact comparison: for a target without a
  verdict whose session and epoch gate the call passes, the verdict is Applied exactly when the
  live text is the intended replacement, else NotApplied exactly when it is the original, else a
  conflict for a human, and any later reconciliation by the same session returns the same verdict
  whatever the live text is then.  A failed gate changes nothing.
\<close>

lemma reconcile_verdict_correct:
  assumes "rg_entries g (resolve_key g uri e) = Some t" and "bt_state t = None"
    and "registry_reconcile g sid uri e ep live = (res, g')"
  shows "case res of
      Inl x \<Rightarrow> g' = g \<and> bind_target t sid ep = Inl x
    | Inr v \<Rightarrow>
        (v = RV_AppliedAcknowledged \<longleftrightarrow> text_matches (bt_replacement t) (rg_salt g) live) \<and>
        (v = RV_NotApplied \<longleftrightarrow> \<not> text_matches (bt_replacement t) (rg_salt g) live \<and>
           text_matches (bt_expected t) (rg_salt g) live) \<and>
        is_blocked g' uri e \<and>
        (sid \<noteq> [] \<longrightarrow> fst (registry_reconcile g' sid uri e ep' live') = Inr v)"
proof (cases "bind_target t sid ep")
  case (Inl x)
  with assms show ?thesis by (auto simp: registry_reconcile_def Let_def)
next
  case (Inr t')
  note b = bind_target_Inr [OF Inr]
  have t': "bt_state t' = None" "bt_replacement t' = bt_replacement t" "bt_expected t' = bt_expected t"
    using b assms(2) by simp_all
  let ?v = "readback_verdict (rg_salt g) t' live"
  let ?g = "g\<lparr>rg_entries := (rg_entries g)(resolve_key g uri e \<mapsto> t'\<lparr>bt_state := Some (?v, False)\<rparr>)\<rparr>"
  have r: "res = Inr ?v" "g' = ?g"
    using assms(1,3) Inr t'(1) by (simp_all add: registry_reconcile_def Let_def)
  have k: "resolve_key ?g uri e = resolve_key g uri e" by (rule resolve_same_key [OF assms(1)])
  let ?u = "t'\<lparr>bt_state := Some (?v, False)\<rparr>"
  have entry: "rg_entries ?g (resolve_key ?g uri e) = Some ?u" unfolding k by simp
  have st: "bt_state ?u = Some (?v, False)" by simp
  have again: "fst (registry_reconcile ?g sid uri e ep' live') = Inr ?v" if "sid \<noteq> []"
  proof -
    have bd: "bind_target ?u sid ep' = Inr ?u" using b that by (simp add: bind_target_def)
    show ?thesis
      by (simp only: registry_reconcile_def Let_def entry option.case bd sum.case st prod.case fst_conv)
  qed
  have bl: "is_blocked ?g uri e" unfolding is_blocked_def entry by simp
  have v: "(?v = RV_AppliedAcknowledged) = text_matches (bt_replacement t) (rg_salt g) live"
    "(?v = RV_NotApplied) = (\<not> text_matches (bt_replacement t) (rg_salt g) live \<and>
       text_matches (bt_expected t) (rg_salt g) live)"
    by (simp_all add: readback_verdict_def t')
  show ?thesis
    unfolding r sum.case using v bl again by blast
qed

lemma reconcile_verdict_correct_witness:
  "fst (registry_reconcile sample_registry [5] [1] [2] 0 [3]) = Inr RV_AppliedAcknowledged"
proof -
  have k: "resolve_key sample_registry [1] [2] = [1, 0, 2]"
    by (simp add: sample_registry_eq resolve_key_def registry_key_def Let_def)
  let ?t = "\<lparr>bt_session_id = [5], bt_uri = [1], bt_expected = RT_Plain [2], bt_replacement = RT_Plain [3],
       bt_range = (0, 1), bt_state = None, bt_generation = 0, bt_document_epoch = 0\<rparr>"
  have t: "rg_entries sample_registry (resolve_key sample_registry [1] [2]) = Some ?t"
    unfolding k by (simp add: sample_registry_eq)
  obtain v g where r: "registry_reconcile sample_registry [5] [1] [2] 0 [3] = (Inr v, g)"
    using t by (simp add: registry_reconcile_def bind_target_def Let_def)
  from reconcile_verdict_correct [OF t _ r] r show ?thesis by (simp add: text_matches_def)
qed

end
