(* ===== verification/Store.thy ===== *)
theory Store
  imports Registry
begin

text \<open>
  The durable recovery store of zonkey-win (\<open>recovery_store.rs\<close>): an in-memory registry and
  the pending preflight intents, both mirrored to one state file by write-through.

  The disk is the content of the state file and of the temporary file of the replace flow.  What
  the operating system answers is a parameter of each call: which system calls succeed, how many
  bytes each \<open>WriteFile\<close> transfers and the random bytes; \<open>MoveFileExW\<close> replaces the
  state file as a whole or not at all.
\<close>

subsection \<open>The replace flow\<close>

record disk =
  dk_state :: "bytes option"
  dk_temp :: "bytes option"

record write_io =
  wi_security :: bool
  wi_create :: bool
  wi_chunks :: "nat option list"
  wi_flush :: bool
  wi_close :: bool
  wi_move :: bool

text \<open>
  The loop of \<open>write_all\<close>: each \<open>WriteFile\<close> fails, transfers nothing, or transfers a
  number of bytes.  A list of answers that is too short stands for a further failing call.
\<close>

fun write_chunks :: "nat option list \<Rightarrow> bytes \<Rightarrow> bytes \<Rightarrow> bool \<times> bytes" where
  "write_chunks answers [] temp = (True, temp)"
| "write_chunks [] (b # bs) temp = (False, temp)"
| "write_chunks (None # answers) (b # bs) temp = (False, temp)"
| "write_chunks (Some transferred # answers) (b # bs) temp =
     (if transferred = 0 then (False, temp)
      else write_chunks answers (drop transferred (b # bs)) (temp @ take transferred (b # bs)))"

definition write_all :: "write_io \<Rightarrow> bytes \<Rightarrow> bool \<times> bytes" where
  "write_all io bs =
     (let (ok, temp) = write_chunks (wi_chunks io) bs [] in (ok \<and> wi_flush io, temp))"

definition durable_write_user_only :: "write_io \<Rightarrow> disk \<Rightarrow> bytes \<Rightarrow> bool \<times> disk" where
  "durable_write_user_only io d bs =
     (if \<not> wi_security io then (False, d)
      else if \<not> wi_create io then (False, d)
      else let (written, temp) = write_all io bs;
               d1 = d\<lparr>dk_temp := Some temp\<rparr>
           in if \<not> written \<or> \<not> wi_close io then (False, d1)
              else if wi_move io then (True, d1\<lparr>dk_state := Some temp, dk_temp := None\<rparr>)
              else (False, d1))"

definition ensure_directory :: "bool \<Rightarrow> bool \<Rightarrow> bool \<Rightarrow> bool \<Rightarrow> bool" where
  "ensure_directory exists security created exists_after \<longleftrightarrow>
     exists \<or> (security \<and> (created \<or> exists_after))"

text \<open>The result and the disk after \<open>DeleteFileW\<close> on the temporary file.\<close>

definition cleanup_temp_file :: "bool \<Rightarrow> disk \<Rightarrow> bool \<times> disk" where
  "cleanup_temp_file deletable d =
     (let removed = (deletable \<and> dk_temp d \<noteq> None);
          d' = (if removed then d\<lparr>dk_temp := None\<rparr> else d)
      in (removed \<or> dk_temp d' = None, d'))"

lemma write_chunks_complete: "write_chunks answers bs temp = (True, t) \<Longrightarrow> t = temp @ bs"
  by (induction answers bs temp rule: write_chunks.induct) (auto split: if_splits)

lemma durable_write_cases:
  assumes "durable_write_user_only io d bs = (ok, d')"
  shows "dk_state d' = (if ok then Some bs else dk_state d)"
  using assms write_chunks_complete [of "wi_chunks io" bs "[]"]
  by (auto simp: durable_write_user_only_def write_all_def Let_def split: if_splits prod.splits)

subsection \<open>The store\<close>

datatype store_error =
    SE_StateUnreadable codec_error
  | SE_Unavailable
  | SE_WriteFailed
  | SE_Registry recovery_error

record recovery_store =
  rs_registry :: recovery_registry
  rs_pending :: "recovery_descriptor list"
  rs_salt :: bytes
  rs_poison :: "store_error option"

record open_env =
  oe_exists :: bool
  oe_security :: bool
  oe_created :: bool
  oe_exists_after :: bool
  oe_readable :: bool
  oe_random :: "bytes option"
  oe_write :: write_io

text \<open>\<open>expect("non-zero capacity")\<close> panics on the error.\<close>

definition poisoned_store :: "nat \<Rightarrow> store_error \<Rightarrow> recovery_store option" where
  "poisoned_store capacity reason =
     (case registry_new (max capacity 1) of
        Inl _ \<Rightarrow> None
      | Inr g \<Rightarrow> Some \<lparr>rs_registry = g, rs_pending = [], rs_salt = replicate SALT_BYTES 0,
                       rs_poison = Some reason\<rparr>)"

definition fresh_salt :: "open_env \<Rightarrow> bytes option" where
  "fresh_salt env =
     (case oe_random env of
        None \<Rightarrow> None
      | Some bs \<Rightarrow> if length bs = SALT_BYTES then Some bs else None)"

definition open_fresh :: "nat \<Rightarrow> open_env \<Rightarrow> disk \<Rightarrow> recovery_store option \<times> disk" where
  "open_fresh capacity env d =
     (case fresh_salt env of
        None \<Rightarrow> (poisoned_store capacity SE_Unavailable, d)
      | Some salt \<Rightarrow>
         (case registry_new capacity of
            Inl _ \<Rightarrow> (None, d)
          | Inr g \<Rightarrow>
             (let store = \<lparr>rs_registry = g, rs_pending = [], rs_salt = salt, rs_poison = None\<rparr>
              in case encode_state salt [] of
                   Inl _ \<Rightarrow> (Some (store\<lparr>rs_poison := Some SE_Unavailable\<rparr>), d)
                 | Inr bs \<Rightarrow>
                    (let (ok, d') = durable_write_user_only (oe_write env) d bs
                     in (Some (if ok then store else store\<lparr>rs_poison := Some SE_Unavailable\<rparr>), d')))))"

definition open_existing :: "nat \<Rightarrow> bytes \<Rightarrow> recovery_store option" where
  "open_existing capacity bs =
     (if length bs > MAX_RECOVERY_STATE_BYTES
        then poisoned_store capacity (SE_StateUnreadable CE_OversizedFile)
      else (case decode_state bs of
              Inl e \<Rightarrow> poisoned_store capacity (SE_StateUnreadable e)
            | Inr (salt, records) \<Rightarrow>
               (case registry_restore capacity salt records of
                  Inl _ \<Rightarrow> poisoned_store capacity (SE_StateUnreadable CE_TooManyEntries)
                | Inr g \<Rightarrow>
                    Some \<lparr>rs_registry = g, rs_pending = [], rs_salt = salt, rs_poison = None\<rparr>)))"

text \<open>\<open>fs::read\<close> fails on a missing file and on one that cannot be read.\<close>

definition open_in :: "nat \<Rightarrow> open_env \<Rightarrow> disk \<Rightarrow> recovery_store option \<times> disk" where
  "open_in capacity env d =
     (if \<not> ensure_directory (oe_exists env) (oe_security env) (oe_created env) (oe_exists_after env)
        then (poisoned_store capacity SE_Unavailable, d)
      else (case (if oe_readable env then dk_state d else None) of
              None \<Rightarrow> open_fresh capacity env d
            | Some bs \<Rightarrow> (open_existing capacity bs, d)))"

definition open_default :: "open_env \<Rightarrow> disk \<Rightarrow> recovery_store option \<times> disk" where
  "open_default env d = open_in MAX_RECOVERY_ENTRIES env d"

subsection \<open>Snapshots\<close>

definition OPERATOR_REQUEST_ID :: ustr where
  "OPERATOR_REQUEST_ID = lit ''operator''"

definition persisted_hash :: "bytes \<Rightarrow> recovery_text \<Rightarrow> bytes" where
  "persisted_hash salt t = (case t of RT_Plain s \<Rightarrow> salted_hash salt s | RT_Hashed h \<Rightarrow> h)"

definition into_persisted :: "blocked_target \<Rightarrow> bytes \<Rightarrow> ustr \<Rightarrow> persisted_target" where
  "into_persisted target salt request_id =
     \<lparr>pt_uri = bt_uri target, pt_range = bt_range target,
      pt_expected_hash = persisted_hash salt (bt_expected target),
      pt_replacement_hash = persisted_hash salt (bt_replacement target),
      pt_kind = PK_Blocked (map_option fst (bt_state target)),
      pt_generation = bt_generation target, pt_document_epoch = bt_document_epoch target,
      pt_request_id = request_id\<rparr>"

definition pending_record :: "bytes \<Rightarrow> recovery_descriptor \<Rightarrow> persisted_target" where
  "pending_record salt d =
     \<lparr>pt_uri = rd_uri d, pt_range = rd_range d,
      pt_expected_hash = salted_hash salt (rd_expected d),
      pt_replacement_hash = salted_hash salt (rd_replacement d),
      pt_kind = PK_Pending, pt_generation = rd_generation d,
      pt_document_epoch = rd_document_epoch d, pt_request_id = rd_request_id d\<rparr>"

definition snapshot_records ::
  "recovery_registry \<Rightarrow> recovery_descriptor list \<Rightarrow> bytes \<Rightarrow> persisted_target list" where
  "snapshot_records g pending salt =
     map (\<lambda>t. into_persisted t salt OPERATOR_REQUEST_ID) (registry_list g) @
     map (pending_record salt) pending"

subsection \<open>Operations\<close>

type_synonym 'a store_operation =
  "recovery_registry \<Rightarrow> recovery_descriptor list
    \<Rightarrow> (recovery_error + 'a) \<times> recovery_registry \<times> recovery_descriptor list"

text \<open>Clone, mutate, encode, durable replace, commit.\<close>

definition mutate_state ::
  "write_io \<Rightarrow> 'a store_operation \<Rightarrow> recovery_store \<Rightarrow> disk
    \<Rightarrow> (store_error + 'a) \<times> recovery_store \<times> disk" where
  "mutate_state io operation s d =
     (case rs_poison s of
        Some poison \<Rightarrow> (Inl poison, s, d)
      | None \<Rightarrow>
         (case operation (rs_registry s) (rs_pending s) of
            (Inl e, _) \<Rightarrow> (Inl (SE_Registry e), s, d)
          | (Inr result, g, pending) \<Rightarrow>
             (case encode_state (rs_salt s) (snapshot_records g pending (rs_salt s)) of
                Inl _ \<Rightarrow> (Inl SE_WriteFailed, s, d)
              | Inr bs \<Rightarrow>
                 (let (ok, d') = durable_write_user_only io d bs
                  in if \<not> ok then (Inl SE_WriteFailed, s, d')
                     else (Inr result, s\<lparr>rs_registry := g, rs_pending := pending\<rparr>, d')))))"

definition store_list :: "recovery_store \<Rightarrow> store_error + blocked_target list" where
  "store_list s =
     (case rs_poison s of Some poison \<Rightarrow> Inl poison | None \<Rightarrow> Inr (registry_list (rs_registry s)))"

definition target_blocked :: "recovery_store \<Rightarrow> ustr \<Rightarrow> ustr \<Rightarrow> bool" where
  "target_blocked s uri expected =
     (case rs_poison s of Some _ \<Rightarrow> True | None \<Rightarrow> is_blocked (rs_registry s) uri expected)"

definition begin_operation :: "recovery_descriptor \<Rightarrow> unit store_operation" where
  "begin_operation descriptor g pending =
     (if list_ex (\<lambda>d. rd_request_id d = rd_request_id descriptor) pending then (Inr (), g, pending)
      else if length pending + length (registry_list g) \<ge> rg_capacity g
        then (Inl RE_RegistryFull, g, pending)
      else (Inr (), g, pending @ [descriptor]))"

definition clear_operation :: "ustr \<Rightarrow> bool store_operation" where
  "clear_operation request_id g pending =
     (let kept = filter (\<lambda>d. rd_request_id d \<noteq> request_id) pending
      in (Inr (length pending \<noteq> length kept), g, kept))"

definition promote_operation :: "ustr \<Rightarrow> ustr \<Rightarrow> bool store_operation" where
  "promote_operation session_id request_id g pending =
     (case position (\<lambda>d. rd_request_id d = request_id) pending of
        None \<Rightarrow> (Inr False, g, pending)
      | Some index \<Rightarrow>
         (let d = pending ! index;
              (blocked, g') = registry_block g session_id (rd_uri d) (rd_expected d)
                (rd_replacement d) (rd_range d) (rd_document_epoch d)
          in (Inr (\<not> isl blocked), g', remove_nth index pending)))"

definition begin_pending where
  "begin_pending io s d descriptor = mutate_state io (begin_operation descriptor) s d"

definition clear_pending where
  "clear_pending io s d request_id = mutate_state io (clear_operation request_id) s d"

definition promote_pending where
  "promote_pending io s d session_id request_id =
     mutate_state io (promote_operation session_id request_id) s d"

definition store_block where
  "store_block io s d session_id uri expected replacement rng =
     mutate_state io (\<lambda>g pending.
       let (r, g') = registry_block g session_id uri expected replacement rng 0 in (r, g', pending)) s d"

definition store_reconcile where
  "store_reconcile io s d session_id uri expected document_epoch live =
     mutate_state io (\<lambda>g pending.
       let (r, g') = registry_reconcile g session_id uri expected document_epoch live
       in (r, g', pending)) s d"

definition store_acknowledge where
  "store_acknowledge io s d session_id uri expected document_epoch =
     mutate_state io (\<lambda>g pending.
       let (r, g') = registry_acknowledge g session_id uri expected document_epoch
       in (r, g', pending)) s d"

subsection \<open>The store as a step function\<close>

datatype store_op =
    SO_Begin recovery_descriptor
  | SO_Clear ustr
  | SO_Promote ustr ustr
  | SO_Block ustr ustr ustr ustr "u64 \<times> u64"
  | SO_Reconcile ustr ustr ustr u64 ustr
  | SO_Acknowledge ustr ustr ustr u64

definition forget :: "('e + 'a) \<times> 's \<times> 'd \<Rightarrow> bool \<times> 's \<times> 'd" where
  "forget x = (case x of (r, s, d) \<Rightarrow> (\<not> isl r, s, d))"

fun store_step :: "write_io \<Rightarrow> store_op \<Rightarrow> recovery_store \<Rightarrow> disk \<Rightarrow> bool \<times> recovery_store \<times> disk" where
  "store_step io (SO_Begin rd) s d = forget (begin_pending io s d rd)"
| "store_step io (SO_Clear request_id) s d = forget (clear_pending io s d request_id)"
| "store_step io (SO_Promote sid request_id) s d = forget (promote_pending io s d sid request_id)"
| "store_step io (SO_Block sid uri e r rng) s d = forget (store_block io s d sid uri e r rng)"
| "store_step io (SO_Reconcile sid uri e ep live) s d = forget (store_reconcile io s d sid uri e ep live)"
| "store_step io (SO_Acknowledge sid uri e ep) s d = forget (store_acknowledge io s d sid uri e ep)"

fun store_steps :: "(write_io \<times> store_op) list \<Rightarrow> recovery_store \<Rightarrow> disk \<Rightarrow> recovery_store \<times> disk" where
  "store_steps [] s d = (s, d)"
| "store_steps ((io, op') # ops) s d = (case store_step io op' s d of (_, s', d') \<Rightarrow> store_steps ops s' d')"

text \<open>Rust strings are valid UTF-8, hashes have 32 bytes.\<close>

definition wf_text :: "recovery_text \<Rightarrow> bool" where
  "wf_text t = (case t of RT_Plain _ \<Rightarrow> True | RT_Hashed h \<Rightarrow> length h = 32)"

definition wf_blocked :: "blocked_target \<Rightarrow> bool" where
  "wf_blocked t \<longleftrightarrow> valid_str (bt_uri t) \<and> wf_text (bt_expected t) \<and> wf_text (bt_replacement t)"

definition wf_descriptor :: "recovery_descriptor \<Rightarrow> bool" where
  "wf_descriptor d \<longleftrightarrow> valid_str (rd_uri d) \<and> valid_str (rd_request_id d)"

fun wf_store_op :: "store_op \<Rightarrow> bool" where
  "wf_store_op (SO_Begin rd) = wf_descriptor rd"
| "wf_store_op (SO_Block sid uri e r rng) = valid_str uri"
| "wf_store_op _ = True"

definition wf_memory :: "recovery_registry \<times> recovery_descriptor list \<Rightarrow> bool" where
  "wf_memory m \<longleftrightarrow> registry_inv (fst m) \<and> (\<forall>t \<in> ran (rg_entries (fst m)). wf_blocked t) \<and>
     (\<forall>rd \<in> set (snd m). wf_descriptor rd)"

definition ident :: "persisted_target \<Rightarrow> ustr \<times> bytes" where
  "ident r = (pt_uri r, pt_expected_hash r)"

definition store_records :: "recovery_store \<Rightarrow> persisted_target list" where
  "store_records s = snapshot_records (rs_registry s) (rs_pending s) (rs_salt s)"

text \<open>An unpoisoned store: its memory is well-formed and the file records the same targets.\<close>

definition mirrored :: "recovery_store \<Rightarrow> disk \<Rightarrow> bool" where
  "mirrored s d \<longleftrightarrow>
     (\<exists>f recs. dk_state d = Some f \<and> decode_state f = Inr (rs_salt s, recs) \<and>
        ident ` set recs = ident ` set (store_records s))"

definition store_inv :: "recovery_store \<Rightarrow> disk \<Rightarrow> bool" where
  "store_inv s d \<longleftrightarrow> (rs_poison s = None \<longrightarrow>
     wf_memory (rs_registry s, rs_pending s) \<and> length (rs_salt s) = SALT_BYTES \<and>
     length (store_records s) \<le> MAX_RECOVERY_ENTRIES \<and> mirrored s d)"

subsection \<open>The codec contract used by the write-through step\<close>

locale write_through = state_codec enc dec salt_ok rec_ok max_records
  for enc :: "'s \<Rightarrow> 'r list \<Rightarrow> 'e + bytes" and dec salt_ok rec_ok max_records +
  fixes snap :: "'m \<Rightarrow> 's \<Rightarrow> 'r list"
    and memory_ok :: "'m \<Rightarrow> bool"
  assumes snap_ok: "memory_ok m \<Longrightarrow> list_all rec_ok (snap m s)"
begin

text \<open>What was committed is what a restart reads.\<close>

lemma committed:
  "salt_ok s \<Longrightarrow> memory_ok m \<Longrightarrow> enc s (snap m s) = Inr b \<Longrightarrow>
     dec b = Inr (s, snap m s) \<and> length (snap m s) \<le> max_records"
  using dec_enc [OF _ snap_ok] enc_max by blast

text \<open>The last write that succeeded wins, whatever was on the disk.\<close>

lemma last_commit_read:
  "salt_ok s \<Longrightarrow> memory_ok m \<Longrightarrow> enc s (snap m s) = Inr b \<Longrightarrow>
     \<exists>c. write_sequence old (ws @ [(s, snap m s)]) = Inr c \<and> dec c = Inr (s, snap m s)"
  using write_sequence_last [OF _ snap_ok] by blast

end

lemma registry_list_set: "registry_inv g \<Longrightarrow> set (registry_list g) = ran (rg_entries g)"
  by (auto simp: registry_inv_def registry_list_def List.map_filter_def ran_def) (force simp: image_iff)+

lemma length_registry_list: "registry_inv g \<Longrightarrow> length (registry_list g) = length (rg_order g)"
proof -
  assume "registry_inv g"
  then have "\<forall>k \<in> set (rg_order g). rg_entries g k \<noteq> None" by (auto simp: registry_inv_def)
  then show ?thesis
    unfolding registry_list_def List.map_filter_def by (induction "rg_order g") (auto simp: filter_id_conv)
qed

lemma valid_operator: "valid_str OPERATOR_REQUEST_ID"
  by (simp add: OPERATOR_REQUEST_ID_def valid_str_def is_scalar_def)

lemma length_persisted_hash: "wf_text t \<Longrightarrow> length (persisted_hash salt t) = 32"
  by (auto simp: wf_text_def persisted_hash_def split: recovery_text.splits)

lemma wf_into_persisted: "wf_blocked t \<Longrightarrow> wf_target (into_persisted t salt OPERATOR_REQUEST_ID)"
  by (simp add: wf_blocked_def wf_target_def into_persisted_def length_persisted_hash valid_operator)

lemma wf_pending_record: "wf_descriptor rd \<Longrightarrow> wf_target (pending_record salt rd)"
  by (simp add: wf_descriptor_def wf_target_def pending_record_def)

lemma wf_snapshot:
  "wf_memory (g, pending) \<Longrightarrow> list_all wf_target (snapshot_records g pending salt)"
  by (auto simp: wf_memory_def snapshot_records_def list_all_iff registry_list_set wf_into_persisted
      wf_pending_record)

interpretation store: write_through encode_state decode_state "\<lambda>s. length s = SALT_BYTES" wf_target
    MAX_RECOVERY_ENTRIES "\<lambda>m salt. snapshot_records (fst m) (snd m) salt" wf_memory
  by unfold_locales (metis prod.collapse wf_snapshot)

subsection \<open>Every operation keeps the memory well-formed\<close>

lemma ran_upd_subset: "ran (m(k \<mapsto> v)) \<subseteq> insert v (ran m)"
  by (auto simp: ran_def)

lemma ran_del_subset: "ran (m(k := None)) \<subseteq> ran m"
  by (auto simp: ran_def)

lemma wf_registry_block:
  assumes "wf_memory (g, p)" and "valid_str uri"
  shows "wf_memory (snd (registry_block g sid uri e r rng ep), p)"
  using assms registry_block_inv [of g sid uri e r rng ep]
    ran_upd_subset [of "rg_entries g" "resolve_key g uri e"]
  by (fastforce simp: wf_memory_def registry_block_def Let_def wf_blocked_def wf_text_def)

lemma wf_bound: "bind_target t sid ep = Inr t' \<Longrightarrow> wf_blocked t \<Longrightarrow> wf_blocked t'"
  by (auto simp: wf_blocked_def dest: bind_target_Inr)

lemma wf_registry_reconcile:
  assumes "wf_memory (g, p)"
  shows "wf_memory (snd (registry_reconcile g sid uri e ep live), p)"
proof -
  let ?k = "resolve_key g uri e"
  have "wf_blocked u" if "u \<in> ran ((rg_entries g)(?k \<mapsto> t'))" "wf_blocked t'" for u t'
    using that assms ran_upd_subset [of "rg_entries g" ?k t'] by (auto simp: wf_memory_def)
  moreover have "wf_blocked t" if "rg_entries g ?k = Some t" for t
    using that assms by (auto simp: wf_memory_def ran_def)
  moreover have "wf_blocked (t\<lparr>bt_state := x\<rparr>) = wf_blocked t" for t x by (simp add: wf_blocked_def)
  ultimately show ?thesis
    using assms registry_reconcile_inv [of g sid uri e ep live] wf_bound
    by (auto simp: wf_memory_def registry_reconcile_def Let_def split: option.splits sum.splits)
qed

lemma wf_registry_acknowledge:
  assumes "wf_memory (g, p)"
  shows "wf_memory (snd (registry_acknowledge g sid uri e ep), p)"
proof -
  let ?k = "resolve_key g uri e"
  have "wf_blocked u" if "u \<in> ran ((rg_entries g)(?k \<mapsto> t'))" "wf_blocked t'" for u t'
    using that assms ran_upd_subset [of "rg_entries g" ?k t'] by (auto simp: wf_memory_def)
  moreover have "wf_blocked t" if "rg_entries g ?k = Some t" for t
    using that assms by (auto simp: wf_memory_def ran_def)
  moreover have "wf_blocked u" if "u \<in> ran ((rg_entries g)(?k := None))" for u
    using that assms ran_del_subset [of "rg_entries g" ?k] by (auto simp: wf_memory_def)
  ultimately show ?thesis
    using assms registry_acknowledge_inv [of g sid uri e ep] wf_bound
    by (auto simp: wf_memory_def registry_acknowledge_def Let_def split: option.splits sum.splits)
qed

definition preserving :: "'a store_operation \<Rightarrow> bool" where
  "preserving operation \<longleftrightarrow>
     (\<forall>g p x g' p'. wf_memory (g, p) \<longrightarrow> operation g p = (Inr x, g', p') \<longrightarrow>
        wf_memory (g', p') \<and> rg_capacity g' = rg_capacity g \<and> rg_salt g' = rg_salt g)"

text \<open>What one write-through mutation does, whatever the disk answers.\<close>

lemma mutate_state_cases:
  assumes "mutate_state io operation s d = (res, s', d')" and "store_inv s d" and "preserving operation"
  shows "store_inv s' d' \<and> rs_salt s' = rs_salt s \<and> rs_poison s' = rs_poison s \<and>
    (case res of
       Inl _ \<Rightarrow> s' = s \<and> dk_state d' = dk_state d
     | Inr x \<Rightarrow> rs_poison s = None \<and>
         operation (rs_registry s) (rs_pending s) = (Inr x, rs_registry s', rs_pending s') \<and>
         dk_state d' = Some (projr (encode_state (rs_salt s') (store_records s'))) \<and>
         decode_state (the (dk_state d')) = Inr (rs_salt s', store_records s'))"
proof (cases res)
  case (Inl e)
  with assms show ?thesis
    by (auto simp: mutate_state_def store_inv_def mirrored_def Let_def durable_write_cases
        split: option.splits prod.splits sum.splits if_splits)
next
  case (Inr x)
  have np: "rs_poison s = None"
    using assms(1) Inr by (auto simp: mutate_state_def split: option.splits)
  obtain g p where op': "operation (rs_registry s) (rs_pending s) = (Inr x, g, p)"
    using assms(1) Inr np
    by (auto simp: mutate_state_def Let_def split: prod.splits sum.splits if_splits)
  obtain bs where bs: "encode_state (rs_salt s) (snapshot_records g p (rs_salt s)) = Inr bs"
    and w: "durable_write_user_only io d bs = (True, d')"
    and s': "s' = s\<lparr>rs_registry := g, rs_pending := p\<rparr>"
    using assms(1) Inr np op' by (auto simp: mutate_state_def Let_def split: prod.splits sum.splits if_splits)
  have inv: "wf_memory (rs_registry s, rs_pending s)" "length (rs_salt s) = SALT_BYTES"
    using assms(2) np by (simp_all add: store_inv_def)
  have wf: "wf_memory (g, p)" using assms(3) inv(1) op' unfolding preserving_def by blast
  have c: "decode_state bs = Inr (rs_salt s, snapshot_records g p (rs_salt s)) \<and>
      length (snapshot_records g p (rs_salt s)) \<le> MAX_RECOVERY_ENTRIES"
    using store.committed [of "rs_salt s" "(g, p)" bs] inv(2) wf bs by simp
  have st: "dk_state d' = Some bs" using durable_write_cases [OF w] by simp
  have r: "store_records s' = snapshot_records g p (rs_salt s)" by (simp add: store_records_def s')
  have fields: "rs_registry s' = g" "rs_pending s' = p" "rs_salt s' = rs_salt s" "rs_poison s' = rs_poison s"
    by (simp_all add: s')
  have m: "mirrored s' d'" unfolding mirrored_def using st c r fields by auto
  have "store_inv s' d'" unfolding store_inv_def using m wf inv(2) c r fields by simp
  then show ?thesis
    unfolding Inr sum.case fields r st bs using np op' c by simp
qed

lemma preserving_registry:
  assumes "\<And>g p. wf_memory (g, p) \<Longrightarrow> wf_memory (snd (f g), p)"
    and "\<And>g. rg_capacity (snd (f g)) = rg_capacity g \<and> rg_salt (snd (f g)) = rg_salt g"
  shows "preserving (\<lambda>g pending. let (r, g') = f g in (r, g', pending))"
proof -
  have "wf_memory (g', p') \<and> rg_capacity g' = rg_capacity g \<and> rg_salt g' = rg_salt g"
    if "wf_memory (g, p)" "(case f g of (r, g') \<Rightarrow> (r, g', p)) = (Inr x, g', p')" for g p x g' p'
  proof -
    have "g' = snd (f g)" "p' = p" using that(2) by (auto split: prod.splits)
    with that(1) assms show ?thesis by simp
  qed
  then show ?thesis unfolding preserving_def Let_def by blast
qed

lemma preserving_begin: "wf_descriptor rd \<Longrightarrow> preserving (begin_operation rd)"
  by (auto simp: preserving_def begin_operation_def wf_memory_def split: if_splits)

lemma preserving_clear: "preserving (clear_operation request_id)"
  by (auto simp: preserving_def clear_operation_def wf_memory_def Let_def)

lemma set_remove_nth: "set (remove_nth i xs) \<subseteq> set xs"
  by (auto simp: remove_nth_def dest: in_set_takeD in_set_dropD)

lemma promote_operation_Inr:
  assumes "promote_operation sid request_id g p = (Inr x, g', p')"
  obtains (absent) "g' = g" "p' = p" "\<not> x" "\<forall>d \<in> set p. rd_request_id d \<noteq> request_id"
  | (found) i where "i < length p" "rd_request_id (p ! i) = request_id" "p' = remove_nth i p"
      "registry_block g sid (rd_uri (p ! i)) (rd_expected (p ! i)) (rd_replacement (p ! i))
         (rd_range (p ! i)) (rd_document_epoch (p ! i)) = (if x then Inr () else Inl RE_RegistryFull, g')"
proof (cases "position (\<lambda>d. rd_request_id d = request_id) p")
  case None
  with assms show thesis by (intro absent) (auto simp: promote_operation_def position_None)
next
  case (Some i)
  let ?b = "registry_block g sid (rd_uri (p ! i)) (rd_expected (p ! i)) (rd_replacement (p ! i))
         (rd_range (p ! i)) (rd_document_epoch (p ! i))"
  have x: "x = (\<not> isl (fst ?b))" and g': "g' = snd ?b" and p': "p' = remove_nth i p"
    using assms Some by (auto simp: promote_operation_def Let_def split: prod.splits)
  have "fst ?b = (if x then Inr () else Inl RE_RegistryFull)"
    unfolding x by (simp add: registry_block_def Let_def)
  with g' have "?b = (if x then Inr () else Inl RE_RegistryFull, g')" by (metis prod.collapse)
  with p' position_Some [OF Some] show thesis by (intro found [of i]) simp_all
qed

lemma preserving_promote: "preserving (promote_operation sid request_id)"
  unfolding preserving_def
proof (intro allI impI)
  fix g p x g' p'
  assume wf: "wf_memory (g, p)" and op': "promote_operation sid request_id g p = (Inr x, g', p')"
  from op' show "wf_memory (g', p') \<and> rg_capacity g' = rg_capacity g \<and> rg_salt g' = rg_salt g"
  proof (cases rule: promote_operation_Inr)
    case (found i)
    let ?b = "registry_block g sid (rd_uri (p ! i)) (rd_expected (p ! i)) (rd_replacement (p ! i))
         (rd_range (p ! i)) (rd_document_epoch (p ! i))"
    have g': "g' = snd ?b" using found(4) by simp
    have u: "valid_str (rd_uri (p ! i))" using wf found(1) by (simp add: wf_memory_def wf_descriptor_def)
    have "wf_memory (g', p)" unfolding g' by (rule wf_registry_block [OF wf u])
    then have "wf_memory (g', p')" using set_remove_nth [of i p] found(3) by (auto simp: wf_memory_def)
    moreover have "rg_capacity g' = rg_capacity g \<and> rg_salt g' = rg_salt g"
      using registry_step_fixed [of g "Block sid (rd_uri (p ! i)) (rd_expected (p ! i))
        (rd_replacement (p ! i)) (rd_range (p ! i)) (rd_document_epoch (p ! i))"] g' by simp
    ultimately show ?thesis by simp
  qed (use wf in simp)
qed

lemma preserving_block:
  "valid_str uri \<Longrightarrow> preserving (\<lambda>g pending. let (r, g') = registry_block g sid uri e rp rng ep in (r, g', pending))"
  using registry_step_fixed [of _ "Block sid uri e rp rng ep"]
  by (intro preserving_registry) (simp_all add: wf_registry_block)

lemma preserving_reconcile:
  "preserving (\<lambda>g pending. let (r, g') = registry_reconcile g sid uri e ep live in (r, g', pending))"
  using registry_step_fixed [of _ "Reconcile sid uri e ep live"]
  by (intro preserving_registry) (simp_all add: wf_registry_reconcile)

lemma preserving_acknowledge:
  "preserving (\<lambda>g pending. let (r, g') = registry_acknowledge g sid uri e ep in (r, g', pending))"
  using registry_step_fixed [of _ "Acknowledge sid uri e ep"]
  by (intro preserving_registry) (simp_all add: wf_registry_acknowledge)

lemmas preserving_operations =
  preserving_begin preserving_clear preserving_promote preserving_block preserving_reconcile
  preserving_acknowledge

lemma store_step_inv:
  assumes "store_inv s d" and "wf_store_op op'" and "store_step io op' s d = (ok, s', d')"
  shows "store_inv s' d' \<and> rs_salt s' = rs_salt s \<and> rs_poison s' = rs_poison s \<and>
    (if ok then rs_poison s = None \<and> decode_state (the (dk_state d')) = Inr (rs_salt s', store_records s')
     else s' = s \<and> dk_state d' = dk_state d)"
proof -
  have *: "store_inv s' d' \<and> rs_salt s' = rs_salt s \<and> rs_poison s' = rs_poison s \<and>
    (if ok then rs_poison s = None \<and> decode_state (the (dk_state d')) = Inr (rs_salt s', store_records s')
     else s' = s \<and> dk_state d' = dk_state d)"
    if "forget (mutate_state io operation s d) = (ok, s', d')" "preserving operation"
    for operation :: "'a store_operation"
  proof -
    obtain res s1 d1 where m: "mutate_state io operation s d = (res, s1, d1)" by (rule prod_cases3)
    have m: "mutate_state io operation s d = (res, s', d')" "ok = (\<not> isl res)"
      using that(1) m by (simp_all add: forget_def)
    with mutate_state_cases [OF m(1) assms(1) that(2)] show ?thesis
      by (auto split: sum.splits)
  qed
  note defs = begin_pending_def clear_pending_def promote_pending_def store_block_def
    store_reconcile_def store_acknowledge_def
  show ?thesis
  proof (cases op')
    case (SO_Begin rd)
    show ?thesis
      by (rule * [OF _ preserving_begin]) (use assms SO_Begin in \<open>simp_all add: defs\<close>)
  next
    case (SO_Clear rid)
    show ?thesis
      by (rule * [OF _ preserving_clear]) (use assms SO_Clear in \<open>simp_all add: defs\<close>)
  next
    case (SO_Promote sid rid)
    show ?thesis
      by (rule * [OF _ preserving_promote]) (use assms SO_Promote in \<open>simp_all add: defs\<close>)
  next
    case (SO_Block sid uri e r rng)
    show ?thesis
      by (rule * [OF _ preserving_block]) (use assms SO_Block in \<open>simp_all add: defs\<close>)
  next
    case (SO_Reconcile sid uri e ep live)
    show ?thesis
      by (rule * [OF _ preserving_reconcile]) (use assms SO_Reconcile in \<open>simp_all add: defs\<close>)
  next
    case (SO_Acknowledge sid uri e ep)
    show ?thesis
      by (rule * [OF _ preserving_acknowledge]) (use assms SO_Acknowledge in \<open>simp_all add: defs\<close>)
  qed
qed

lemma store_steps_inv:
  "store_inv s d \<Longrightarrow> list_all (\<lambda>x. wf_store_op (snd x)) ops \<Longrightarrow> store_steps ops s d = (s', d') \<Longrightarrow>
     store_inv s' d' \<and> rs_salt s' = rs_salt s \<and> rs_poison s' = rs_poison s"
proof (induction ops arbitrary: s d)
  case (Cons x ops)
  obtain io op' where x: "x = (io, op')" by (cases x)
  obtain ok s1 d1 where st: "store_step io op' s d = (ok, s1, d1)" by (rule prod_cases3)
  have "store_inv s1 d1 \<and> rs_salt s1 = rs_salt s \<and> rs_poison s1 = rs_poison s"
    using store_step_inv [OF Cons.prems(1) _ st] Cons.prems(2) by (simp add: x)
  with Cons.IH [of s1 d1] Cons.prems(2,3) show ?case by (simp add: x st)
qed simp

subsection \<open>Opening\<close>

lemma restore_records:
  "rg_order (foldl restore_record g recs) = rg_order g @ map restored_key recs \<and>
   rg_capacity (foldl restore_record g recs) = rg_capacity g \<and>
   rg_salt (foldl restore_record g recs) = rg_salt g \<and>
   dom (rg_entries (foldl restore_record g recs)) = dom (rg_entries g) \<union> restored_key ` set recs"
  by (induction recs arbitrary: g) (auto simp: restore_record_def)

lemma restore_entries:
  "rg_entries (foldl restore_record g recs) k = Some t \<Longrightarrow>
     (\<exists>r \<in> set recs. k = restored_key r \<and> t = restored_target r) \<or>
     (rg_entries g k = Some t \<and> k \<notin> restored_key ` set recs)"
  by (induction recs rule: rev_induct) (auto simp: restore_record_def split: if_splits)

lemma restored_key_ident:
  assumes "restored_key r = restored_key r'" and "wf_target r" and "wf_target r'"
  shows "ident r = ident r'"
proof -
  have "length (hex (pt_expected_hash r)) = length (hex (pt_expected_hash r'))"
    using assms(2,3) by (simp add: wf_target_def)
  then have "pt_uri r = pt_uri r' \<and> hex (pt_expected_hash r) = hex (pt_expected_hash r')"
    using assms(1) by (simp add: restored_key_def registry_key_def)
  then show ?thesis by (simp add: ident_def hex_inject)
qed

lemma ident_restored: "ident (into_persisted (restored_target r) salt request_id) = ident r"
  by (simp add: ident_def into_persisted_def restored_target_def persisted_hash_def)

lemma registry_restore_Inr:
  assumes "registry_restore c salt recs = Inr g" and "list_all wf_target recs"
  shows "wf_memory (g, []) \<and> rg_salt g = Some salt \<and> length (rg_order g) = length recs \<and>
    ident ` set (snapshot_records g [] salt) = ident ` set recs"
proof -
  define g0 where "g0 = \<lparr>rg_capacity = c, rg_order = [], rg_entries = Map.empty, rg_salt = Some salt\<rparr>"
  have c: "0 < c" "length recs \<le> c" and g: "g = foldl restore_record g0 recs"
    using assms(1) by (auto simp: registry_restore_def registry_new_def g0_def split: if_splits)
  note facts = restore_records [of g0 recs, folded g]
  have inv: "registry_inv g"
    unfolding registry_inv_def using facts c by (simp add: g0_def)
  have entries: "\<exists>r \<in> set recs. k = restored_key r \<and> t = restored_target r"
    if "rg_entries g k = Some t" for k t
    using restore_entries [of g0 recs k t, folded g] that by (simp add: g0_def)
  have wf: "wf_memory (g, [])"
    using entries assms(2) inv
    by (fastforce simp: wf_memory_def ran_def restored_target_def wf_blocked_def wf_text_def
        wf_target_def list_all_iff)
  have "ident ` set (snapshot_records g [] salt) = ident ` set recs"
  proof (intro equalityI subsetI)
    fix x assume "x \<in> ident ` set (snapshot_records g [] salt)"
    then obtain t k where "rg_entries g k = Some t" "x = ident (into_persisted t salt OPERATOR_REQUEST_ID)"
      using inv by (auto simp: snapshot_records_def registry_list_set ran_def)
    then show "x \<in> ident ` set recs" using entries by (fastforce simp: ident_restored)
  next
    fix x assume "x \<in> ident ` set recs"
    then obtain r where r: "r \<in> set recs" "x = ident r" by blast
    then have "restored_key r \<in> dom (rg_entries g)" using facts by (simp add: g0_def)
    then obtain t where t: "rg_entries g (restored_key r) = Some t" by blast
    with entries obtain r' where r': "r' \<in> set recs" "restored_key r = restored_key r'" "t = restored_target r'"
      by blast
    with r assms(2) have "ident r = ident r'" by (auto simp: list_all_iff intro: restored_key_ident)
    with r r' t inv show "x \<in> ident ` set (snapshot_records g [] salt)"
      by (auto simp: snapshot_records_def registry_list_set ran_def image_iff ident_restored
          intro!: exI [of _ t] exI [of _ "restored_key r"])
  qed
  with wf facts show ?thesis by (simp add: g0_def)
qed

lemma poisoned_store_poison: "poisoned_store c reason = Some s \<Longrightarrow> rs_poison s = Some reason"
  by (auto simp: poisoned_store_def registry_new_def split: if_splits)

lemma wf_memory_new: "registry_new c = Inr g \<Longrightarrow> wf_memory (g, [])"
  by (auto simp: wf_memory_def registry_new_inv) (auto simp: registry_new_def split: if_splits)

lemma open_existing_inv:
  assumes "open_existing c bs = Some s" and "dk_state d = Some bs"
  shows "store_inv s d"
proof (cases "rs_poison s")
  case None
  then obtain salt recs g where dec: "decode_state bs = Inr (salt, recs)"
    and g: "registry_restore c salt recs = Inr g"
    and s: "s = \<lparr>rs_registry = g, rs_pending = [], rs_salt = salt, rs_poison = None\<rparr>"
    using assms(1)
    by (auto simp: open_existing_def dest: poisoned_store_poison split: if_splits sum.splits prod.splits)
  have ok: "length salt = SALT_BYTES" "list_all wf_target recs" "length recs \<le> MAX_RECOVERY_ENTRIES"
    using codec.dec_ok [OF dec] by auto
  note r = registry_restore_Inr [OF g ok(2)]
  then have "length (registry_list g) = length recs"
    using length_registry_list [of g] by (simp add: wf_memory_def)
  then show ?thesis
    using r ok dec assms(2) by (simp add: store_inv_def mirrored_def s store_records_def) (simp add: snapshot_records_def)
qed (simp add: store_inv_def)

lemma open_fresh_inv:
  assumes "open_fresh c env d = (Some s, d')"
  shows "store_inv s d'"
proof (cases "rs_poison s")
  case None
  then obtain salt g bs where salt: "fresh_salt env = Some salt" and g: "registry_new c = Inr g"
    and enc: "encode_state salt [] = Inr bs"
    and w: "durable_write_user_only (oe_write env) d bs = (True, d')"
    and s: "s = \<lparr>rs_registry = g, rs_pending = [], rs_salt = salt, rs_poison = None\<rparr>"
    using assms
    by (auto simp: open_fresh_def Let_def dest: poisoned_store_poison
        split: option.splits sum.splits prod.splits if_splits)
  have len: "length salt = SALT_BYTES" using salt by (auto simp: fresh_salt_def split: option.splits if_splits)
  have none: "snapshot_records g [] salt = []"
    using g by (auto simp: registry_new_def snapshot_records_def registry_list_def map_filter_simps split: if_splits)
  have "decode_state bs = Inr (salt, [])" by (rule codec.dec_enc [OF len _ enc]) simp
  then show ?thesis
    using len none wf_memory_new [OF g] durable_write_cases [OF w]
    by (simp add: store_inv_def mirrored_def s store_records_def)
qed (simp add: store_inv_def)

lemma open_in_inv: "open_in c env d = (Some s, d') \<Longrightarrow> store_inv s d'"
  by (auto simp: open_in_def store_inv_def poisoned_store_poison
      dest: poisoned_store_poison dest!: open_existing_inv [of _ _ _ d] open_fresh_inv
      split: if_splits option.splits)

subsection \<open>What the file says after a restart\<close>

text \<open>The targets a store knows: blocked ones by their recorded text, pending ones by their token.\<close>

definition store_knows :: "recovery_store \<Rightarrow> ustr \<Rightarrow> ustr \<Rightarrow> bool" where
  "store_knows s uri expected \<longleftrightarrow>
     (\<exists>t \<in> set (registry_list (rs_registry s)).
        bt_uri t = uri \<and> text_matches (bt_expected t) (Some (rs_salt s)) expected) \<or>
     (\<exists>rd \<in> set (rs_pending s). rd_uri rd = uri \<and> rd_expected rd = expected)"

lemma store_knows_ident:
  assumes "store_knows s uri e"
  shows "(uri, salted_hash (rs_salt s) e) \<in> ident ` set (store_records s)"
proof -
  have "persisted_hash salt t = salted_hash salt e" if "text_matches t (Some salt) e" for t salt
    using that by (auto simp: text_matches_def persisted_hash_def split: recovery_text.splits)
  with assms show ?thesis
    by (fastforce simp: store_knows_def store_records_def snapshot_records_def image_Un image_image
        ident_def into_persisted_def pending_record_def)
qed

lemma restored_blocks:
  assumes "registry_restore c salt recs = Inr g" and "(uri, salted_hash salt e) \<in> ident ` set recs"
    and "list_all wf_target recs"
  shows "is_blocked g uri e"
proof -
  define g0 where "g0 = \<lparr>rg_capacity = c, rg_order = [], rg_entries = Map.empty, rg_salt = Some salt\<rparr>"
  have g: "g = foldl restore_record g0 recs"
    using assms(1) by (auto simp: registry_restore_def registry_new_def g0_def split: if_splits)
  obtain r where r: "r \<in> set recs" "pt_uri r = uri" "pt_expected_hash r = salted_hash salt e"
    using assms(2) by (auto simp: ident_def)
  have "restored_key r \<in> dom (rg_entries g)" "rg_salt g = Some salt"
    using restore_records [of g0 recs, folded g] r(1) by (auto simp: g0_def)
  then show ?thesis using r(2,3) by (auto simp: is_blocked_def resolve_key_def Let_def restored_key_def)
qed

lemma poisoned_blocks: "rs_poison s = Some x \<Longrightarrow> target_blocked s uri e"
  by (simp add: target_blocked_def)

lemma reopen_blocks:
  assumes "store_inv s d" and "rs_poison s = None" and "store_knows s uri e"
    and "oe_readable env" and "open_in c env d = (Some s', d')"
  shows "target_blocked s' uri e \<and> d' = d"
proof -
  obtain f recs where f: "dk_state d = Some f" "decode_state f = Inr (rs_salt s, recs)"
    "ident ` set recs = ident ` set (store_records s)"
    using assms(1,2) by (auto simp: store_inv_def mirrored_def)
  have wf: "list_all wf_target recs" using codec.dec_ok [OF f(2)] by blast
  have known: "(uri, salted_hash (rs_salt s) e) \<in> ident ` set recs"
    using store_knows_ident [OF assms(3)] f(3) by simp
  show ?thesis
  proof (cases "rs_poison s'")
    case (Some x)
    then show ?thesis using assms(4,5) f(1) by (auto simp: open_in_def poisoned_blocks split: if_splits)
  next
    case None
    then obtain g where "registry_restore c (rs_salt s) recs = Inr g" "rs_registry s' = g" "d' = d"
      using assms(4,5) f
      by (auto simp: open_in_def open_existing_def dest: poisoned_store_poison split: if_splits sum.splits)
    with restored_blocks [OF _ known wf] None show ?thesis by (simp add: target_blocked_def)
  qed
qed

text \<open>
  A restart is never clean: whatever operations ran on a store since it was opened, and whatever
  each disk write did, every target that is blocked or has a pending intent then is blocked in any
  store later opened on the readable state file, with whatever capacity; a store that cannot be
  restored is poisoned and blocks every target, and opening leaves the file as it was.
\<close>

lemma restart_never_clean:
  assumes "open_in c env d0 = (Some s0, d1)" and "list_all (\<lambda>x. wf_store_op (snd x)) ops"
    and "store_steps ops s0 d1 = (s, d)" and "rs_poison s = None" and "store_knows s uri e"
    and "oe_readable env'" and "open_in c' env' d = (Some s', d')"
  shows "target_blocked s' uri e \<and> d' = d"
  using store_steps_inv [OF open_in_inv [OF assms(1)] assms(2,3)] assms(4-7) reopen_blocks by blast

definition good_io :: write_io where
  "good_io = \<lparr>wi_security = True, wi_create = True, wi_chunks = [Some 300000], wi_flush = True,
     wi_close = True, wi_move = True\<rparr>"

definition good_env :: open_env where
  "good_env = \<lparr>oe_exists = True, oe_security = True, oe_created = True, oe_exists_after = True,
     oe_readable = True, oe_random = Some (replicate 16 7), oe_write = good_io\<rparr>"

definition no_disk :: disk where
  "no_disk = \<lparr>dk_state = None, dk_temp = None\<rparr>"

definition sample_descriptor :: recovery_descriptor where
  "sample_descriptor = \<lparr>rd_request_id = lit ''r1'', rd_uri = lit ''doc'', rd_range = (0, 4),
     rd_expected = lit ''test'', rd_replacement = lit ''rest'', rd_generation = 1,
     rd_document_epoch = 5\<rparr>"

lemma good_write:
  "bs \<noteq> [] \<Longrightarrow> length bs \<le> 300000 \<Longrightarrow>
     durable_write_user_only good_io d bs = (True, d\<lparr>dk_state := Some bs, dk_temp := None\<rparr>)"
  by (cases bs) (auto simp: durable_write_user_only_def good_io_def write_all_def Let_def)

lemma encoded_size: "encode_state salt rs = Inr bs \<Longrightarrow> bs \<noteq> [] \<and> length bs \<le> 262144"
  by (auto simp: encode_state_Inr MAX_RECOVERY_STATE_BYTES_def file_header_def RECOVERY_STATE_MAGIC_def)

lemma encode_empty: "\<exists>bs. encode_state (replicate 16 7) [] = Inr bs"
  by (simp add: encode_state_def MAX_RECOVERY_STATE_BYTES_def SALT_BYTES_def Let_def)

definition fresh_store :: "nat \<Rightarrow> recovery_store" where
  "fresh_store c = \<lparr>rs_registry = \<lparr>rg_capacity = c, rg_order = [], rg_entries = Map.empty, rg_salt = None\<rparr>,
     rs_pending = [], rs_salt = replicate 16 7, rs_poison = None\<rparr>"

lemma open_good:
  assumes "0 < c"
  obtains bs where "encode_state (replicate 16 7) [] = Inr bs"
    "open_in c good_env no_disk = (Some (fresh_store c), \<lparr>dk_state = Some bs, dk_temp = None\<rparr>)"
proof -
  obtain bs where bs: "encode_state (replicate 16 7) [] = Inr bs" using encode_empty by blast
  have w: "durable_write_user_only (oe_write good_env) no_disk bs =
      (True, no_disk\<lparr>dk_state := Some bs, dk_temp := None\<rparr>)"
    using good_write [of bs no_disk] encoded_size [OF bs] by (simp add: good_env_def)
  have "open_fresh c good_env no_disk = (Some (fresh_store c), \<lparr>dk_state = Some bs, dk_temp = None\<rparr>)"
    using assms bs w
    by (simp add: open_fresh_def good_env_def fresh_salt_def SALT_BYTES_def registry_new_def fresh_store_def no_disk_def)
  then have "open_in c good_env no_disk = (Some (fresh_store c), \<lparr>dk_state = Some bs, dk_temp = None\<rparr>)"
    by (simp add: open_in_def ensure_directory_def no_disk_def good_env_def)
  with bs show thesis by (rule that)
qed

lemma begin_good:
  assumes "0 < c"
  obtains d' where "begin_pending good_io (fresh_store c) d sample_descriptor =
      (Inr (), fresh_store c\<lparr>rs_pending := [sample_descriptor]\<rparr>, d')"
proof -
  obtain bs where bs: "encode_state (replicate 16 7) [pending_record (replicate 16 7) sample_descriptor] = Inr bs"
    by (simp add: encode_state_def encode_record_def sample_descriptor_def pending_record_def MAX_URI_BYTES_def
        MAX_REQUEST_ID_BYTES_def MAX_RECOVERY_ENTRIES_def MAX_RECOVERY_STATE_BYTES_def kind_bytes_def
        SALT_BYTES_def utf8_char_def Let_def)
  show thesis
    by (rule that) (use assms bs good_write [of bs d] encoded_size [OF bs] in
      \<open>auto simp: begin_pending_def mutate_state_def begin_operation_def fresh_store_def snapshot_records_def
         registry_list_def map_filter_simps\<close>)
qed

lemma poisoned_store_total: "\<exists>s. poisoned_store c r = Some s"
  by (simp add: poisoned_store_def registry_new_def)

lemma open_existing_total: "\<exists>s. open_existing c bs = Some s"
  by (simp add: open_existing_def poisoned_store_total split: sum.split prod.split)

lemma restart_never_clean_witness:
  "\<exists>s' d. open_in 128 good_env d = (Some s', d) \<and> target_blocked s' (lit ''doc'') (lit ''test'')"
proof -
  obtain bs where o: "open_in 128 good_env no_disk =
      (Some (fresh_store 128), \<lparr>dk_state = Some bs, dk_temp = None\<rparr>)"
    using open_good [of 128] by auto
  let ?s = "fresh_store 128\<lparr>rs_pending := [sample_descriptor]\<rparr>"
  obtain d where b: "begin_pending good_io (fresh_store 128) \<lparr>dk_state = Some bs, dk_temp = None\<rparr>
      sample_descriptor = (Inr (), ?s, d)"
    using begin_good [of 128] by auto
  have st: "store_steps [(good_io, SO_Begin sample_descriptor)] (fresh_store 128)
      \<lparr>dk_state = Some bs, dk_temp = None\<rparr> = (?s, d)"
    by (simp add: b forget_def)
  have wf: "list_all (\<lambda>x. wf_store_op (snd x)) [(good_io, SO_Begin sample_descriptor)]"
    by (simp add: wf_descriptor_def sample_descriptor_def is_scalar_def)
  have p: "rs_poison ?s = None" by (simp add: fresh_store_def)
  have k: "store_knows ?s (lit ''doc'') (lit ''test'')"
    by (simp add: store_knows_def sample_descriptor_def)
  have inv: "store_inv ?s d" using store_steps_inv [OF open_in_inv [OF o] wf st] by simp
  then obtain f where f: "dk_state d = Some f" using p by (auto simp: store_inv_def mirrored_def)
  obtain s' where s': "open_existing 128 f = Some s'" using open_existing_total by blast
  then have o': "open_in 128 good_env d = (Some s', d)"
    using f by (simp add: open_in_def good_env_def ensure_directory_def)
  have "oe_readable good_env" by (simp add: good_env_def)
  from restart_never_clean [OF o wf st p k this o'] o' show ?thesis by blast
qed

text \<open>
  C14. Write-through before commit: an operation that fails, for whatever reason, leaves the memory
  and the state file as they were; one that succeeds leaves a state file that decodes to exactly
  the records of the new memory.  In both cases the file still records every target the memory
  knows, and a poisoned store refuses every operation.
\<close>

theorem write_through_before_commit:
  assumes "store_inv s d" and "wf_store_op op'" and "store_step io op' s d = (ok, s', d')"
  shows "store_inv s' d' \<and>
    (if ok then rs_poison s = None \<and> decode_state (the (dk_state d')) = Inr (rs_salt s', store_records s')
     else s' = s \<and> dk_state d' = dk_state d)"
  using store_step_inv [OF assms] by blast

lemma write_through_before_commit_witness:
  "\<exists>s d. store_step good_io (SO_Begin sample_descriptor) (fresh_store 2)
     (snd (open_in 2 good_env no_disk)) = (True, s, d) \<and>
   decode_state (the (dk_state d)) = Inr (replicate 16 7, [pending_record (replicate 16 7) sample_descriptor])"
proof -
  obtain bs where o: "open_in 2 good_env no_disk =
      (Some (fresh_store 2), \<lparr>dk_state = Some bs, dk_temp = None\<rparr>)"
    using open_good [of 2] by auto
  let ?d = "\<lparr>dk_state = Some bs, dk_temp = None\<rparr>"
  obtain d where b: "begin_pending good_io (fresh_store 2) ?d sample_descriptor =
      (Inr (), fresh_store 2\<lparr>rs_pending := [sample_descriptor]\<rparr>, d)"
    using begin_good [of 2] by auto
  have st: "store_step good_io (SO_Begin sample_descriptor) (fresh_store 2) ?d =
      (True, fresh_store 2\<lparr>rs_pending := [sample_descriptor]\<rparr>, d)"
    by (simp add: b forget_def)
  have wf: "wf_store_op (SO_Begin sample_descriptor)"
    by (simp add: wf_descriptor_def sample_descriptor_def is_scalar_def)
  from write_through_before_commit [OF open_in_inv [OF o] wf st] show ?thesis
    using o st by (simp add: fresh_store_def store_records_def snapshot_records_def registry_list_def map_filter_simps)
qed

text \<open>
  The replace flow is atomic: it reports success exactly when every system call succeeded and
  every byte was written, and the state file then holds exactly the new bytes; in every other case
  the state file is untouched.
\<close>

lemma durable_write_atomic:
  "durable_write_user_only io d bs =
     (wi_security io \<and> wi_create io \<and> fst (write_all io bs) \<and> wi_close io \<and> wi_move io,
      snd (durable_write_user_only io d bs)) \<and>
   (fst (write_all io bs) \<longrightarrow> wi_flush io \<and> snd (write_all io bs) = bs) \<and>
   dk_state (snd (durable_write_user_only io d bs)) =
     (if fst (durable_write_user_only io d bs) then Some bs else dk_state d)"
proof -
  have "dk_state (snd (durable_write_user_only io d bs)) =
     (if fst (durable_write_user_only io d bs) then Some bs else dk_state d)"
    using durable_write_cases [of io d bs] by (metis prod.collapse)
  moreover have "fst (write_all io bs) \<longrightarrow> wi_flush io \<and> snd (write_all io bs) = bs"
    using write_chunks_complete [of "wi_chunks io" bs "[]"]
    by (auto simp: write_all_def split: prod.splits)
  moreover have "fst (durable_write_user_only io d bs) =
      (wi_security io \<and> wi_create io \<and> fst (write_all io bs) \<and> wi_close io \<and> wi_move io)"
    by (auto simp: durable_write_user_only_def Let_def split: prod.splits)
  ultimately show ?thesis by (simp add: prod_eq_iff)
qed

lemma durable_write_atomic_witness:
  "snd (durable_write_user_only good_io no_disk [1, 2, 3]) = \<lparr>dk_state = Some [1, 2, 3], dk_temp = None\<rparr>"
proof -
  have "fst (write_all good_io [1, 2, 3])" by (simp add: write_all_def good_io_def)
  with durable_write_atomic [of good_io no_disk "[1, 2, 3]"]
  have "fst (durable_write_user_only good_io no_disk [1, 2, 3])"
    by (simp add: prod_eq_iff) (simp add: good_io_def)
  then show ?thesis using good_write [of "[1, 2, 3]" no_disk] by (simp add: no_disk_def)
qed

lemma block_entry:
  "registry_block g sid uri e r rng ep = (Inr (), g') \<Longrightarrow>
     \<exists>t. rg_entries g' (resolve_key g uri e) = Some t \<and> bt_uri t = uri \<and> bt_expected t = RT_Plain e"
  by (auto simp: registry_block_def Let_def split: if_splits)

lemma promote_keeps_intent:
  assumes "store_inv s d" and "MAX_RECOVERY_ENTRIES \<le> rg_capacity (rs_registry s)"
    and "promote_pending io s d sid rid = (Inr promoted, s', d')"
  shows "promoted = (\<exists>rd \<in> set (rs_pending s). rd_request_id rd = rid) \<and>
    (promoted \<longrightarrow> (\<exists>rd \<in> set (rs_pending s). rd_request_id rd = rid \<and>
       target_blocked s' (rd_uri rd) (rd_expected rd) \<and> store_knows s' (rd_uri rd) (rd_expected rd)))"
proof -
  from mutate_state_cases [OF assms(3) [unfolded promote_pending_def] assms(1) preserving_promote]
  have np: "rs_poison s = None" and
    op': "promote_operation sid rid (rs_registry s) (rs_pending s) = (Inr promoted, rs_registry s', rs_pending s')"
    and np': "rs_poison s' = None" by auto
  from op' show ?thesis
  proof (cases rule: promote_operation_Inr)
    case (found i)
    let ?rd = "rs_pending s ! i"
    have inv: "registry_inv (rs_registry s)" and len: "length (store_records s) \<le> MAX_RECOVERY_ENTRIES"
      using assms(1) np by (simp_all add: store_inv_def wf_memory_def)
    then have "length (rg_order (rs_registry s)) < rg_capacity (rs_registry s)"
      using assms(2) found(1) length_registry_list [OF inv]
      by (simp add: store_records_def snapshot_records_def)
    then have p: "promoted"
      using found(4) by (auto simp: registry_block_def Let_def split: if_splits)
    then have b: "registry_block (rs_registry s) sid (rd_uri ?rd) (rd_expected ?rd) (rd_replacement ?rd)
         (rd_range ?rd) (rd_document_epoch ?rd) = (Inr (), rs_registry s')"
      using found(4) by simp
    have blocked: "is_blocked (rs_registry s') (rd_uri ?rd) (rd_expected ?rd)"
      by (rule is_blocked_after_block [OF b])
    have inv': "registry_inv (rs_registry s')"
      using registry_block_inv [OF inv] b by (metis snd_conv)
    have "\<exists>t \<in> ran (rg_entries (rs_registry s')). bt_uri t = rd_uri ?rd \<and> bt_expected t = RT_Plain (rd_expected ?rd)"
      using block_entry [OF b] by (auto intro: ranI)
    then have "store_knows s' (rd_uri ?rd) (rd_expected ?rd)"
      using registry_list_set [OF inv'] by (auto simp: store_knows_def text_matches_def)
    with blocked np' found(1,2) p show ?thesis by (force simp: target_blocked_def)
  qed simp
qed

text \<open>
  Promotion never loses an intent in a store of the default capacity: if the promotion is
  written, it reports whether the intent existed, and an intent that existed is now a blocked
  target that the memory and so the file know.
\<close>

lemma promote_never_loses_intent:
  assumes "store_inv s d" and "MAX_RECOVERY_ENTRIES \<le> rg_capacity (rs_registry s)"
    and "promote_pending io s d sid rid = (Inr promoted, s', d')"
  shows "promoted = (\<exists>rd \<in> set (rs_pending s). rd_request_id rd = rid) \<and>
    (promoted \<longrightarrow> (\<exists>rd \<in> set (rs_pending s). rd_request_id rd = rid \<and>
       target_blocked s' (rd_uri rd) (rd_expected rd) \<and> store_knows s' (rd_uri rd) (rd_expected rd)))"
  by (rule promote_keeps_intent [OF assms])

lemma promote_never_loses_intent_witness:
  "\<exists>s d d'. promote_pending good_io (fresh_store 128\<lparr>rs_pending := [sample_descriptor]\<rparr>) d (lit ''s'') (lit ''r1'')
     = (Inr True, s, d') \<and> target_blocked s (lit ''doc'') (lit ''test'')"
proof -
  let ?s = "fresh_store 128\<lparr>rs_pending := [sample_descriptor]\<rparr>"
  obtain bs where o: "open_in 128 good_env no_disk =
      (Some (fresh_store 128), \<lparr>dk_state = Some bs, dk_temp = None\<rparr>)"
    using open_good [of 128] by auto
  obtain d where b: "begin_pending good_io (fresh_store 128) \<lparr>dk_state = Some bs, dk_temp = None\<rparr>
      sample_descriptor = (Inr (), ?s, d)"
    using begin_good [of 128] by auto
  have inv: "store_inv ?s d"
    using store_step_inv [OF open_in_inv [OF o], of "SO_Begin sample_descriptor" good_io True ?s d] b
    by (simp add: forget_def wf_descriptor_def sample_descriptor_def is_scalar_def)
  let ?t = "\<lparr>bt_session_id = lit ''s'', bt_uri = lit ''doc'', bt_expected = RT_Plain (lit ''test''),
    bt_replacement = RT_Plain (lit ''rest''), bt_range = (0, 4), bt_state = None, bt_generation = 0,
    bt_document_epoch = 5\<rparr>"
  obtain f where f: "encode_state (replicate 16 7) [into_persisted ?t (replicate 16 7) OPERATOR_REQUEST_ID] = Inr f"
    by (simp add: encode_state_def encode_record_def into_persisted_def persisted_hash_def OPERATOR_REQUEST_ID_def
        MAX_URI_BYTES_def MAX_REQUEST_ID_BYTES_def MAX_RECOVERY_ENTRIES_def MAX_RECOVERY_STATE_BYTES_def
        kind_bytes_def SALT_BYTES_def utf8_char_def Let_def)
  obtain s' d' where p: "promote_pending good_io ?s d (lit ''s'') (lit ''r1'') = (Inr True, s', d')"
    using f good_write [of f d] encoded_size [OF f]
    by (simp add: promote_pending_def mutate_state_def promote_operation_def fresh_store_def sample_descriptor_def
        registry_block_def resolve_key_def Let_def snapshot_records_def registry_list_def map_filter_simps remove_nth_def)
  have cap: "MAX_RECOVERY_ENTRIES \<le> rg_capacity (rs_registry ?s)"
    by (simp add: MAX_RECOVERY_ENTRIES_def fresh_store_def)
  from promote_never_loses_intent [OF inv cap p] p show ?thesis
    by (auto simp: sample_descriptor_def)
qed

text \<open>
  Opening forgets an unreadable file: whenever the read of the state file fails, for any reason
  and whatever the file records, an unpoisoned store that results blocks nothing, and the file has
  been replaced by an empty one.
\<close>

lemma open_unreadable_forgets:
  assumes "\<not> oe_readable env" and "open_in c env d = (Some s', d')" and "rs_poison s' = None"
  shows "\<not> target_blocked s' uri e \<and> store_records s' = [] \<and>
    (\<exists>bs. dk_state d' = Some bs \<and> decode_state bs = Inr (rs_salt s', []))"
proof -
  have o: "open_fresh c env d = (Some s', d')"
    using assms by (auto simp: open_in_def dest: poisoned_store_poison split: if_splits)
  have rg: "rg_entries (rs_registry s') = Map.empty" "rg_order (rs_registry s') = []" "rs_pending s' = []"
    using o assms(3)
    by (auto simp: open_fresh_def registry_new_def Let_def dest: poisoned_store_poison
        split: option.splits sum.splits prod.splits if_splits)
  then have recs: "store_records s' = []"
    by (simp add: store_records_def snapshot_records_def registry_list_def map_filter_simps)
  obtain f recs' where "dk_state d' = Some f" "decode_state f = Inr (rs_salt s', recs')" "ident ` set recs' = {}"
    using open_in_inv [OF assms(2)] assms(3) recs by (auto simp: store_inv_def mirrored_def)
  with recs rg assms(3) show ?thesis by (auto simp: target_blocked_def is_blocked_def)
qed

lemma open_unreadable_forgets_witness:
  "\<exists>f s' d'. decode_state f = Inr (replicate 16 7, [sample_target]) \<and>
     open_in 2 (good_env\<lparr>oe_readable := False\<rparr>) \<lparr>dk_state = Some f, dk_temp = None\<rparr> = (Some s', d') \<and>
     \<not> target_blocked s' (pt_uri sample_target) (lit ''test'') \<and> dk_state d' \<noteq> Some f"
proof -
  obtain bs where bs: "encode_state (replicate 16 7) [] = Inr bs" using encode_empty by blast
  obtain f where f: "encode_state (replicate 16 7) [sample_target] = Inr f" using encode_sample by blast
  have dec: "decode_state f = Inr (replicate 16 7, [sample_target])"
    using codec.dec_enc [OF _ _ f] wf_sample_target by (simp add: SALT_BYTES_def)
  let ?d = "\<lparr>dk_state = Some f, dk_temp = None\<rparr>"
  let ?d' = "?d\<lparr>dk_state := Some bs, dk_temp := None\<rparr>"
  have w: "durable_write_user_only good_io ?d bs = (True, ?d')"
    using good_write [of bs ?d] encoded_size [OF bs] by simp
  have o: "open_in 2 (good_env\<lparr>oe_readable := False\<rparr>) ?d = (Some (fresh_store 2), ?d')"
    using bs w by (simp add: open_in_def ensure_directory_def good_env_def open_fresh_def fresh_salt_def
        SALT_BYTES_def registry_new_def fresh_store_def)
  have "\<not> oe_readable (good_env\<lparr>oe_readable := False\<rparr>)" "rs_poison (fresh_store 2) = None"
    by (simp_all add: fresh_store_def)
  note t = open_unreadable_forgets [OF this(1) o this(2)]
  have "dk_state ?d' \<noteq> Some f" using t [of "[]" "[]"] dec by auto
  with t o dec show ?thesis by blast
qed

text \<open>
  In a store of capacity one a promotion can lose an intent: when another target is blocked
  while the intent is pending, the promotion writes a file without the intent, reports that nothing
  was promoted, and the target is neither pending nor blocked.
\<close>

lemma promote_drops_intent_when_full:
  "\<exists>s d s' d'. store_inv s d \<and> rg_capacity (rs_registry s) = 1 \<and>
     store_knows s (lit ''doc'') (lit ''test'') \<and>
     promote_pending good_io s d (lit ''s'') (lit ''r1'') = (Inr False, s', d') \<and>
     \<not> store_knows s' (lit ''doc'') (lit ''test'') \<and> \<not> target_blocked s' (lit ''doc'') (lit ''test'')"
proof -
  let ?s1 = "fresh_store 1\<lparr>rs_pending := [sample_descriptor]\<rparr>"
  let ?k = "registry_key (lit ''log'') (lit ''pull'')"
  let ?t = "\<lparr>bt_session_id = lit ''s'', bt_uri = lit ''log'', bt_expected = RT_Plain (lit ''pull''),
    bt_replacement = RT_Plain (lit ''push''), bt_range = (0, 4), bt_state = None, bt_generation = 0,
    bt_document_epoch = 0\<rparr>"
  let ?g = "\<lparr>rg_capacity = 1, rg_order = [?k], rg_entries = [?k \<mapsto> ?t], rg_salt = None\<rparr>"
  let ?s2 = "?s1\<lparr>rs_registry := ?g\<rparr>"
  let ?s3 = "fresh_store 1\<lparr>rs_registry := ?g\<rparr>"
  note small = encode_state_def encode_record_def into_persisted_def persisted_hash_def OPERATOR_REQUEST_ID_def
    pending_record_def sample_descriptor_def MAX_URI_BYTES_def MAX_REQUEST_ID_BYTES_def
    MAX_RECOVERY_ENTRIES_def MAX_RECOVERY_STATE_BYTES_def kind_bytes_def SALT_BYTES_def utf8_char_def Let_def
  note run = mutate_state_def fresh_store_def snapshot_records_def registry_list_def map_filter_simps
  obtain bs where o: "open_in 1 good_env no_disk = (Some (fresh_store 1), \<lparr>dk_state = Some bs, dk_temp = None\<rparr>)"
    using open_good [of 1] by auto
  obtain d1 where b: "begin_pending good_io (fresh_store 1) \<lparr>dk_state = Some bs, dk_temp = None\<rparr>
      sample_descriptor = (Inr (), ?s1, d1)"
    using begin_good [of 1] by auto
  have inv1: "store_inv ?s1 d1"
    using store_step_inv [OF open_in_inv [OF o], of "SO_Begin sample_descriptor" good_io True ?s1 d1] b
    by (simp add: forget_def wf_descriptor_def sample_descriptor_def is_scalar_def)
  obtain f where f: "encode_state (replicate 16 7) [into_persisted ?t (replicate 16 7) OPERATOR_REQUEST_ID,
      pending_record (replicate 16 7) sample_descriptor] = Inr f"
    by (simp add: small)
  obtain d2 where b2: "store_block good_io ?s1 d1 (lit ''s'') (lit ''log'') (lit ''pull'') (lit ''push'') (0, 4) =
      (Inr (), ?s2, d2)"
    using f good_write [of f d1] encoded_size [OF f]
    by (simp add: store_block_def run registry_block_def resolve_key_def Let_def)
  have inv2: "store_inv ?s2 d2"
    using store_step_inv [OF inv1, of "SO_Block (lit ''s'') (lit ''log'') (lit ''pull'') (lit ''push'') (0, 4)"
        good_io True ?s2 d2] b2
    by (simp add: forget_def is_scalar_def)
  obtain f' where f': "encode_state (replicate 16 7) [into_persisted ?t (replicate 16 7) OPERATOR_REQUEST_ID] = Inr f'"
    by (simp add: small)
  have "registry_block ?g (lit ''s'') (lit ''doc'') (lit ''test'') (lit ''rest'') (0, 4) 5 = (Inl RE_RegistryFull, ?g)"
    by (simp add: registry_block_def resolve_key_def registry_key_def Let_def)
  then obtain d3 where p: "promote_pending good_io ?s2 d2 (lit ''s'') (lit ''r1'') = (Inr False, ?s3, d3)"
    using f' good_write [of f' d2] encoded_size [OF f']
    by (simp add: promote_pending_def run promote_operation_def sample_descriptor_def Let_def remove_nth_def)
  have "store_knows ?s2 (lit ''doc'') (lit ''test'')" by (simp add: store_knows_def sample_descriptor_def)
  moreover have "\<not> store_knows ?s3 (lit ''doc'') (lit ''test'')"
    by (simp add: store_knows_def run)
  moreover have "\<not> target_blocked ?s3 (lit ''doc'') (lit ''test'')"
    by (simp add: target_blocked_def fresh_store_def is_blocked_def resolve_key_def registry_key_def Let_def)
  moreover have "rg_capacity (rs_registry ?s2) = 1" by simp
  ultimately show ?thesis using inv2 p by blast
qed

lemma begin_pending_Inr:
  assumes "begin_pending io s d rd = (Inr (), s1, d1)"
    and "\<forall>x \<in> set (rs_pending s). rd_request_id x \<noteq> rd_request_id rd"
  shows "s1 = s\<lparr>rs_pending := rs_pending s @ [rd]\<rparr> \<and> rs_poison s = None \<and>
    length (rs_pending s1) + length (registry_list (rs_registry s1)) \<le> rg_capacity (rs_registry s1)"
proof -
  have "\<not> list_ex (\<lambda>x. rd_request_id x = rd_request_id rd) (rs_pending s)"
    using assms(2) by (auto simp: list_ex_iff)
  with assms(1) show ?thesis
    by (auto simp: begin_pending_def mutate_state_def begin_operation_def
        split: option.splits sum.splits prod.splits if_splits)
qed

text \<open>
  The preflight bracket: beginning an intent with a new request id adds exactly that intent and
  keeps the shared bound, it is refused with \<open>RegistryFull\<close> exactly when blocked and pending
  targets fill the capacity, and clearing it afterwards gives back the memory from before.
\<close>

lemma preflight_bracket:
  assumes "store_inv s d" and "rs_poison s = None" and "wf_descriptor rd"
    and "\<forall>x \<in> set (rs_pending s). rd_request_id x \<noteq> rd_request_id rd"
    and "begin_pending io s d rd = (res, s1, d1)"
  shows "(res = Inl (SE_Registry RE_RegistryFull) \<longleftrightarrow>
       rg_capacity (rs_registry s) \<le> length (rs_pending s) + length (registry_list (rs_registry s))) \<and>
    (res = Inr () \<longrightarrow> s1 = s\<lparr>rs_pending := rs_pending s @ [rd]\<rparr> \<and>
       length (rs_pending s1) + length (registry_list (rs_registry s1)) \<le> rg_capacity (rs_registry s1) \<and>
       (\<forall>io' x s2 d2. clear_pending io' s1 d1 (rd_request_id rd) = (Inr x, s2, d2) \<longrightarrow> x \<and> s2 = s))"
proof -
  have new: "\<not> list_ex (\<lambda>x. rd_request_id x = rd_request_id rd) (rs_pending s)"
    using assms(4) by (auto simp: list_ex_iff)
  have full: "res = Inl (SE_Registry RE_RegistryFull) \<longleftrightarrow>
       rg_capacity (rs_registry s) \<le> length (rs_pending s) + length (registry_list (rs_registry s))"
    using assms(2,5) new
    by (auto simp: begin_pending_def mutate_state_def begin_operation_def split: sum.splits prod.splits if_splits)
  have filt: "filter (\<lambda>x. rd_request_id x \<noteq> rd_request_id rd) (rs_pending s) = rs_pending s"
    using assms(4) by (simp add: filter_id_conv)
  note added = begin_pending_Inr [OF _ assms(4), of io d s1 d1]
  have s1: "s1 = s\<lparr>rs_pending := rs_pending s @ [rd]\<rparr>" if "res = Inr ()"
    using added assms(5) that by simp
  moreover have "x \<and> s2 = s" if "res = Inr ()" "clear_pending io' s1 d1 (rd_request_id rd) = (Inr x, s2, d2)" for io' x s2 d2
    using that(2) assms(2) filt unfolding s1 [OF that(1)]
    by (auto simp: clear_pending_def mutate_state_def clear_operation_def Let_def split: sum.splits prod.splits if_splits)
  ultimately show ?thesis using full added assms(5) by auto
qed

lemma preflight_bracket_witness:
  "\<exists>d d1 s2 d2. begin_pending good_io (fresh_store 2) d sample_descriptor =
     (Inr (), fresh_store 2\<lparr>rs_pending := [sample_descriptor]\<rparr>, d1) \<and>
   clear_pending good_io (fresh_store 2\<lparr>rs_pending := [sample_descriptor]\<rparr>) d1 (lit ''r1'') =
     (Inr True, s2, d2) \<and> s2 = fresh_store 2"
proof -
  obtain bs where enc: "encode_state (replicate 16 7) [] = Inr bs"
    and o: "open_in 2 good_env no_disk = (Some (fresh_store 2), \<lparr>dk_state = Some bs, dk_temp = None\<rparr>)"
    using open_good [of 2] by auto
  let ?d = "\<lparr>dk_state = Some bs, dk_temp = None\<rparr>"
  let ?s1 = "fresh_store 2\<lparr>rs_pending := [sample_descriptor]\<rparr>"
  obtain d1 where b: "begin_pending good_io (fresh_store 2) ?d sample_descriptor = (Inr (), ?s1, d1)"
    using begin_good [of 2] by auto
  have "rs_poison (fresh_store 2) = None" "wf_descriptor sample_descriptor"
    "\<forall>x \<in> set (rs_pending (fresh_store 2)). rd_request_id x \<noteq> rd_request_id sample_descriptor"
    by (simp_all add: fresh_store_def wf_descriptor_def sample_descriptor_def is_scalar_def)
  note t = preflight_bracket [OF open_in_inv [OF o] this b]
  have id: "rd_request_id sample_descriptor = lit ''r1''" by (simp add: sample_descriptor_def)
  obtain x s2 d2 where c: "clear_pending good_io ?s1 d1 (lit ''r1'') = (Inr x, s2, d2)"
    using enc good_write [of bs d1] encoded_size [OF enc]
    by (simp add: clear_pending_def mutate_state_def clear_operation_def fresh_store_def
        snapshot_records_def registry_list_def map_filter_simps id)
  with t have "x \<and> s2 = fresh_store 2" unfolding id by (simp add: fresh_store_def) blast
  with b c show ?thesis by auto
qed

end
