(* ===== verification/Wire.thy ===== *)
theory Wire
  imports Store Handoff
begin

text \<open>
  The textual payloads of the named-pipe transport (zonkey-win, \<open>pipe_transport.rs\<close>): the
  parsers of the server, the formatters of the client, and the stop-aware frame reader.

  What the pipe answers is a list of answers: the reader consumes one per loop iteration, and a
  list that has run out stands for a reader that is still waiting (result \<open>None\<close>).
\<close>

subsection \<open>Requests\<close>

abbreviation bar :: scalar where
  "bar \<equiv> chr CHR ''|''"

definition USIZE_BOUND :: nat where
  "USIZE_BOUND = 2 ^ 64"

definition parse_u64 :: "ustr \<Rightarrow> u64 option" where
  "parse_u64 s = map_option of_nat (parse_unsigned USIZE_BOUND s)"

definition show_u64 :: "u64 \<Rightarrow> ustr" where
  "show_u64 w = show_nat (unat w)"

definition parse_request :: "ustr \<Rightarrow> (ustr \<times> ustr \<times> ustr \<times> ustr) option" where
  "parse_request payload =
     (case splitn 4 bar payload of
        [session, request_id, composition, canonical] \<Rightarrow>
          if session = [] \<or> request_id = [] \<or> canonical = [] then None
          else Some (session, request_id, composition, canonical)
      | _ \<Rightarrow> None)"

definition parse_descriptor_request ::
  "ustr \<Rightarrow> (ustr \<times> recovery_descriptor \<times> ustr \<times> ustr) option" where
  "parse_descriptor_request payload =
     (case splitn 11 bar payload of
        [session, request_id, composition, uri, range_start, range_end, expected, replacement,
         generation, document_epoch, canonical] \<Rightarrow>
          (case (parse_u64 range_start, parse_u64 range_end, parse_u64 generation, parse_u64 document_epoch) of
             (Some s, Some e, Some g, Some ep) \<Rightarrow>
               if session = [] \<or> request_id = [] \<or> composition = [] \<or> uri = [] \<or> expected = [] \<or>
                  replacement = [] \<or> canonical = [] \<or> s > e
               then None
               else Some (session,
                 \<lparr>rd_request_id = request_id, rd_uri = uri, rd_range = (s, e), rd_expected = expected,
                  rd_replacement = replacement, rd_generation = g, rd_document_epoch = ep\<rparr>,
                 composition, canonical)
           | _ \<Rightarrow> None)
      | _ \<Rightarrow> None)"

text \<open>The tail of RECONCILE: the live text may contain the separator and is rejoined.\<close>

definition parse_reconcile :: "ustr list \<Rightarrow> (ustr \<times> ustr \<times> u64 \<times> ustr) option" where
  "parse_reconcile parts =
     (case parts of
        uri # expected # epoch # live # tail \<Rightarrow>
          (case parse_u64 epoch of
             None \<Rightarrow> None
           | Some document_epoch \<Rightarrow>
               if uri = [] \<or> expected = [] \<or> live = [] then None
               else Some (uri, expected, document_epoch,
                 if tail = [] then live else live @ [bar] @ join_with [bar] tail))
      | _ \<Rightarrow> None)"

subsection \<open>Results\<close>

definition outcome_payload :: "ledger_outcome \<Rightarrow> ustr" where
  "outcome_payload out =
     (case out of
        LO_Definite s \<Rightarrow> lit ''RESULT|DEFINITE|'' @ s
      | LO_Ambiguous s \<Rightarrow> lit ''RESULT|AMBIGUOUS|'' @ s)"

datatype pipe_error =
    PI_ConnectTimeout
  | PI_PipeSecurity ustr
  | PI_HandshakeRefused ustr
  | PI_ProtocolMismatch
  | PI_SessionMismatch
  | PI_Timeout
  | PI_ConnectionLost
  | PI_Frame frame_error
  | PI_InvalidPayload ustr

definition parse_outcome :: "ustr \<Rightarrow> pipe_error + ledger_outcome" where
  "parse_outcome payload =
     (case splitn 3 bar payload of
        [a, b, s] \<Rightarrow>
          if a = lit ''RESULT'' \<and> b = lit ''DEFINITE'' then Inr (LO_Definite s)
          else if a = lit ''RESULT'' \<and> b = lit ''AMBIGUOUS'' then Inr (LO_Ambiguous s)
          else Inl (PI_InvalidPayload (lit ''malformed result''))
      | _ \<Rightarrow> Inl (PI_InvalidPayload (lit ''malformed result'')))"

definition handoff_payload :: "handoff_request \<Rightarrow> ustr" where
  "handoff_payload r =
     lit ''handoff:'' @ join_with [bar]
       [hr_request_id r, hr_rendered_token r, hr_replacement_token r, show_nat (hr_rendered_units r),
        show_nat (hr_replacement_units r), show_nat (unat (hr_generation r))]"

subsection \<open>Formatting of the client\<close>

definition request_payload :: "ustr \<Rightarrow> ustr \<Rightarrow> ustr \<Rightarrow> ustr \<Rightarrow> ustr" where
  "request_payload session request_id composition canonical =
     lit ''REQ|'' @ join_with [bar] [session, request_id, composition, canonical]"

definition descriptor_payload :: "ustr \<Rightarrow> recovery_descriptor \<Rightarrow> ustr \<Rightarrow> ustr \<Rightarrow> ustr" where
  "descriptor_payload session d composition canonical =
     lit ''REQX|'' @ join_with [bar]
       [session, rd_request_id d, composition, rd_uri d, show_u64 (fst (rd_range d)),
        show_u64 (snd (rd_range d)), rd_expected d, rd_replacement d, show_u64 (rd_generation d),
        show_u64 (rd_document_epoch d), canonical]"

text \<open>
  \<open>generate_pipe_name\<close> and \<open>next_session_id\<close>; the nonce is the hexadecimal form of the
  system's random bytes, if it has any.
\<close>

definition prefix_ok :: "ustr \<Rightarrow> bool" where
  "prefix_ok prefix \<longleftrightarrow>
     prefix \<noteq> [] \<and> list_all (\<lambda>c. is_ascii_alphanumeric c \<or> c = chr CHR ''-'') prefix"

definition generate_pipe_name :: "ustr + bytes \<Rightarrow> ustr \<Rightarrow> pipe_error + ustr" where
  "generate_pipe_name random prefix =
     (if \<not> prefix_ok prefix then
        Inl (PI_InvalidPayload (lit ''pipe name prefix must be non-empty ASCII alphanumerics or dashes''))
      else (case random of
              Inl e \<Rightarrow> Inl (PI_PipeSecurity e)
            | Inr nonce \<Rightarrow>
                Inr ([92, 92, chr CHR ''.'', 92] @ lit ''pipe'' @ [92] @ lit ''zonkey-'' @ prefix @
                  lit ''-'' @ hex nonce)))"

definition next_session_id :: "ustr + bytes \<Rightarrow> u64 \<Rightarrow> (pipe_error + ustr) \<times> u64" where
  "next_session_id random counter =
     (case random of
        Inl e \<Rightarrow> (Inl (PI_PipeSecurity e), counter)
      | Inr nonce \<Rightarrow>
          (Inr (lit ''sess-'' @ show_nat (unat counter) @ lit ''-'' @ hex nonce), counter + 1))"

subsection \<open>Reading frames\<close>

datatype serve_read = SR_Frame ustr | SR_Stopped | SR_Closed

text \<open>
  One iteration of the read loop: the peek fails, finds nothing (with the value of the stop flag
  then loaded), or finds data and \<open>ReadFile\<close> fails or yields a chunk.
\<close>

datatype pipe_answer = PA_PeekFailed | PA_Idle bool | PA_ReadFailed | PA_Chunk bytes

fun read_frame_stop_aware ::
  "pipe_answer list \<Rightarrow> bytes \<Rightarrow> (serve_read \<times> bytes \<times> pipe_answer list) option" where
  "read_frame_stop_aware answers buffer =
     (case decode_frame buffer of
        (Inr (Some payload), rest) \<Rightarrow> Some (SR_Frame payload, rest, answers)
      | (Inl _, _) \<Rightarrow> Some (SR_Closed, buffer, answers)
      | (Inr None, _) \<Rightarrow>
         (case answers of
            [] \<Rightarrow> None
          | PA_PeekFailed # later \<Rightarrow> Some (SR_Closed, buffer, later)
          | PA_Idle stop # later \<Rightarrow>
              if stop then Some (SR_Stopped, buffer, later) else read_frame_stop_aware later buffer
          | PA_ReadFailed # later \<Rightarrow> Some (SR_Closed, buffer, later)
          | PA_Chunk chunk # later \<Rightarrow>
              if chunk = [] then Some (SR_Closed, buffer, later)
              else read_frame_stop_aware later (buffer @ chunk)))"

text \<open>The blocking reader of the client, on the chunks that \<open>ReadFile\<close> yields.\<close>

fun read_frame_blocking :: "bytes option list \<Rightarrow> bytes \<Rightarrow> ((pipe_error + ustr) \<times> bytes) option" where
  "read_frame_blocking chunks buffer =
     (case decode_frame buffer of
        (Inr (Some payload), rest) \<Rightarrow> Some (Inr payload, rest)
      | (Inl e, _) \<Rightarrow> Some (Inl (PI_Frame e), buffer)
      | (Inr None, _) \<Rightarrow>
         (case chunks of
            [] \<Rightarrow> None
          | None # later \<Rightarrow> Some (Inl PI_ConnectionLost, buffer)
          | Some chunk # later \<Rightarrow>
              if chunk = [] then Some (Inl PI_ConnectionLost, buffer)
              else read_frame_blocking later (buffer @ chunk)))"

declare read_frame_stop_aware.simps [simp del] read_frame_blocking.simps [simp del]

subsection \<open>Round trips\<close>

lemma splitn_join:
  "xs \<noteq> [] \<Longrightarrow> \<forall>x \<in> set (butlast xs). d \<notin> set x \<Longrightarrow> splitn (length xs) d (join_with [d] xs) = xs"
proof (induction xs)
  case (Cons x xs)
  show ?case
  proof (cases xs)
    case (Cons y ys)
    then have "split_once d (x @ d # join_with [d] xs) = Some (x, join_with [d] xs)"
      using Cons.prems by (intro split_once_append) auto
    with Cons Cons.IH Cons.prems show ?thesis by simp
  qed simp
qed simp

lemma splitn_join_eq:
  "n = length xs \<Longrightarrow> xs \<noteq> [] \<Longrightarrow> \<forall>x \<in> set (butlast xs). d \<notin> set x \<Longrightarrow> splitn n d (join_with [d] xs) = xs"
  by (erule ssubst) (rule splitn_join)

lemma parse_show_u64 [simp]: "parse_u64 (show_u64 w) = Some w"
proof -
  have "unat w < USIZE_BOUND" using unat_u64_lt [of w] by (simp add: USIZE_BOUND_def)
  then show ?thesis by (simp add: parse_u64_def show_u64_def parse_show_nat)
qed

lemma bar_not_in_show [simp]: "124 \<notin> set (show_u64 w)"
  unfolding show_u64_def using set_show_nat [of 124 "unat w"] by auto

definition no_bar :: "ustr list \<Rightarrow> bool" where
  "no_bar pieces \<longleftrightarrow> (\<forall>x \<in> set pieces. bar \<notin> set x)"

lemma parse_outcome_payload: "parse_outcome (outcome_payload out) = Inr out"
proof -
  have "splitn 3 bar (join_with [bar] [a, b, s]) = [a, b, s]" if "no_bar [a, b]" for a b s
    using that by (intro splitn_join_eq) (auto simp: no_bar_def)
  from this [of "lit ''RESULT''" "lit ''DEFINITE''"] this [of "lit ''RESULT''" "lit ''AMBIGUOUS''"]
  show ?thesis by (cases out) (simp_all add: parse_outcome_def outcome_payload_def no_bar_def)
qed

lemma parse_request_payload:
  assumes "no_bar [session, request_id, composition]"
    and "session \<noteq> []" and "request_id \<noteq> []" and "canonical \<noteq> []"
  shows "strip_prefix (lit ''REQ|'') (request_payload session request_id composition canonical) =
      Some (join_with [bar] [session, request_id, composition, canonical])"
    and "parse_request (join_with [bar] [session, request_id, composition, canonical]) =
      Some (session, request_id, composition, canonical)"
proof -
  show "strip_prefix (lit ''REQ|'') (request_payload session request_id composition canonical) =
      Some (join_with [bar] [session, request_id, composition, canonical])"
    unfolding request_payload_def by (rule strip_prefix_append)
  have "splitn 4 bar (join_with [bar] [session, request_id, composition, canonical]) =
      [session, request_id, composition, canonical]"
    by (rule splitn_join_eq) (use assms(1) in \<open>auto simp: no_bar_def\<close>)
  then show "parse_request (join_with [bar] [session, request_id, composition, canonical]) =
      Some (session, request_id, composition, canonical)"
    unfolding parse_request_def using assms(2-4) by simp
qed

definition descriptor_fields :: "ustr \<Rightarrow> recovery_descriptor \<Rightarrow> ustr \<Rightarrow> ustr list" where
  "descriptor_fields session d composition =
     [session, rd_request_id d, composition, rd_uri d, rd_expected d, rd_replacement d]"

lemma parse_descriptor_payload:
  assumes "no_bar (descriptor_fields session d composition)"
    and "\<forall>x \<in> set (canonical # descriptor_fields session d composition). x \<noteq> []"
    and "fst (rd_range d) \<le> snd (rd_range d)"
  shows "case strip_prefix (lit ''REQX|'') (descriptor_payload session d composition canonical) of
     None \<Rightarrow> False | Some body \<Rightarrow> parse_descriptor_request body = Some (session, d, composition, canonical)"
proof -
  let ?fields = "[session, rd_request_id d, composition, rd_uri d, show_u64 (fst (rd_range d)),
        show_u64 (snd (rd_range d)), rd_expected d, rd_replacement d, show_u64 (rd_generation d),
        show_u64 (rd_document_epoch d), canonical]"
  have "splitn 11 bar (join_with [bar] ?fields) = ?fields"
    by (rule splitn_join_eq) (use assms(1) in \<open>auto simp: no_bar_def descriptor_fields_def\<close>)
  then have "parse_descriptor_request (join_with [bar] ?fields) = Some (session, d, composition, canonical)"
    unfolding parse_descriptor_request_def using assms(2,3) by (simp add: descriptor_fields_def)
  then show ?thesis
    unfolding descriptor_payload_def strip_prefix_append option.case .
qed

text \<open>
  C18. The wire format round-trips: a result payload parses to the outcome it was built from
  whatever text it carries, and a request or a descriptor request that the client formats parses on
  the server to the same fields, provided no field before the last contains the separator, the
  required fields are non-empty and the range is ordered.
\<close>

theorem wire_roundtrip:
  "parse_outcome (outcome_payload out) = Inr out \<and>
   (no_bar [session, rid, composition] \<and> session \<noteq> [] \<and> rid \<noteq> [] \<and> canonical \<noteq> [] \<longrightarrow>
     map_option parse_request (strip_prefix (lit ''REQ|'') (request_payload session rid composition canonical)) =
       Some (Some (session, rid, composition, canonical))) \<and>
   (no_bar (descriptor_fields session d composition) \<and>
     (\<forall>x \<in> set (canonical # descriptor_fields session d composition). x \<noteq> []) \<and>
     fst (rd_range d) \<le> snd (rd_range d) \<longrightarrow>
     map_option parse_descriptor_request
       (strip_prefix (lit ''REQX|'') (descriptor_payload session d composition canonical)) =
       Some (Some (session, d, composition, canonical)))"
  using parse_outcome_payload [of out] parse_request_payload [of session rid composition canonical]
    parse_descriptor_payload [of session d composition canonical]
  by (fastforce split: option.splits)

lemma wire_roundtrip_witness:
  "map_option parse_descriptor_request
     (strip_prefix (lit ''REQX|'') (descriptor_payload (lit ''s'') sample_descriptor (lit ''Inactive'') (lit ''a|b''))) =
     Some (Some (lit ''s'', sample_descriptor, lit ''Inactive'', lit ''a|b'')) \<and>
   parse_outcome (outcome_payload (LO_Definite (lit ''a|b''))) = Inr (LO_Definite (lit ''a|b''))"
  using wire_roundtrip [of "LO_Definite (lit ''a|b'')" "lit ''s''" "lit ''r''" "lit ''Inactive''" "lit ''a|b''"
      sample_descriptor]
  by (simp add: no_bar_def descriptor_fields_def sample_descriptor_def)

subsection \<open>The reader does not depend on how the bytes arrive\<close>

fun answers_data :: "pipe_answer list \<Rightarrow> bytes" where
  "answers_data [] = []"
| "answers_data (PA_Chunk chunk # answers) = chunk @ answers_data answers"
| "answers_data (_ # answers) = answers_data answers"

definition delivering :: "pipe_answer list \<Rightarrow> bool" where
  "delivering = list_all (\<lambda>a. case a of PA_Idle stop \<Rightarrow> \<not> stop | PA_Chunk chunk \<Rightarrow> chunk \<noteq> [] | _ \<Rightarrow> False)"

fun read_frames :: "nat \<Rightarrow> pipe_answer list \<Rightarrow> bytes \<Rightarrow> ustr list \<times> bytes \<times> pipe_answer list" where
  "read_frames 0 answers buffer = ([], buffer, answers)"
| "read_frames (Suc n) answers buffer =
     (case read_frame_stop_aware answers buffer of
        Some (SR_Frame payload, buffer', answers') \<Rightarrow>
          (case read_frames n answers' buffer' of (ps, r) \<Rightarrow> (payload # ps, r))
      | _ \<Rightarrow> ([], buffer, answers))"

lemma read_one_frame:
  assumes "valid_str s" and "encode_frame s = Inr f"
    and "buffer @ answers_data answers = f @ rest" and "delivering answers"
  shows "\<exists>b as. read_frame_stop_aware answers buffer = Some (SR_Frame s, b, as) \<and>
    b @ answers_data as = rest \<and> delivering as"
  using assms(3,4)
proof (induction answers arbitrary: buffer)
  case Nil
  then show ?case
    using decode_encode_frame [OF assms(1,2)] by (simp add: read_frame_stop_aware.simps)
next
  case (Cons a answers)
  show ?case
  proof (cases "length buffer < length f")
    case True
    then have buf: "buffer = take (length buffer) f"
      using Cons.prems(1) by (metis append_eq_conv_conj append_take_drop_id take_all_iff take_append
          diff_is_0_eq less_imp_le_nat take_0 append_Nil2)
    have none: "fst (decode_frame buffer) = Inr None"
      using decode_frame_prefix [OF assms(2) True] buf by simp
    have d: "delivering answers" using Cons.prems(2) by (simp add: delivering_def)
    show ?thesis
    proof (cases a)
      case (PA_Idle stop)
      with Cons.IH [of buffer] Cons.prems d none show ?thesis
        by (cases "decode_frame buffer")
          (simp add: read_frame_stop_aware.simps [of "_ # _"] delivering_def)
    next
      case (PA_Chunk chunk)
      with Cons.IH [of "buffer @ chunk"] Cons.prems d none show ?thesis
        by (cases "decode_frame buffer")
          (simp add: read_frame_stop_aware.simps [of "_ # _"] delivering_def)
    qed (use Cons.prems(2) in \<open>simp_all add: delivering_def\<close>)
  next
    case False
    then obtain b where b: "buffer = f @ b" "b @ answers_data (a # answers) = rest"
      using Cons.prems(1) by (auto simp: append_eq_append_conv2)
    then show ?thesis
      using decode_encode_frame [OF assms(1,2), of b] Cons.prems(2)
      by (simp add: read_frame_stop_aware.simps [of "_ # _"])
  qed
qed

text \<open>
  C19. Framing survives any fragmentation: if the bytes on the pipe are the frames of some payloads
  and then more, the server's reader returns exactly these payloads in order, however the bytes are
  cut into reads and however often the pipe is empty in between, and the rest stays unread.
\<close>

theorem fragmentation_irrelevant:
  assumes "list_all2 (\<lambda>s f. valid_str s \<and> encode_frame s = Inr f) payloads frames"
    and "buffer @ answers_data answers = concat frames @ rest" and "delivering answers"
  shows "\<exists>b as. read_frames (length payloads) answers buffer = (payloads, b, as) \<and>
    b @ answers_data as = rest \<and> delivering as"
  using assms
proof (induction arbitrary: buffer answers rule: list_all2_induct)
  case (Cons s ss f fs)
  have "buffer @ answers_data answers = f @ concat fs @ rest" using Cons.prems(1) by simp
  from read_one_frame [OF _ _ this Cons.prems(2)] Cons.hyps
  obtain b as where r: "read_frame_stop_aware answers buffer = Some (SR_Frame s, b, as)"
    and b: "b @ answers_data as = concat fs @ rest" "delivering as" by blast
  from Cons.IH [OF b] r show ?case by auto
qed simp

lemma fragmentation_irrelevant_witness:
  "\<exists>b as. read_frames 2 [PA_Chunk [1, 0], PA_Idle False, PA_Chunk [0, 0, 0x61, 1, 0, 0, 0], PA_Chunk [0x62, 9]] [] =
     ([[0x61], [0x62]], b, as) \<and> b @ answers_data as = [9]"
proof -
  have e: "encode_frame [0x61] = Inr [1, 0, 0, 0, 0x61]" "encode_frame [0x62] = Inr [1, 0, 0, 0, 0x62]"
    by (simp_all add: encode_frame_def utf8_char_def MAX_FRAME_BYTES_def byte_of_def le_bytes_numeral)
  have "list_all2 (\<lambda>s f. valid_str s \<and> encode_frame s = Inr f) [[0x61], [0x62]]
      [[1, 0, 0, 0, 0x61], [1, 0, 0, 0, 0x62]]"
    by (simp add: e is_scalar_def)
  from fragmentation_irrelevant [OF this, of "[]"
      "[PA_Chunk [1, 0], PA_Idle False, PA_Chunk [0, 0, 0x61, 1, 0, 0, 0], PA_Chunk [0x62, 9]]" "[9]"]
  show ?thesis by (simp add: delivering_def numeral_2_eq_2) blast
qed

end
