(* ===== verification/Server.thy ===== *)
theory Server
  imports Wire
begin

text \<open>
  The connection handler of the named-pipe endpoint (zonkey-win, \<open>pipe_transport.rs\<close>): the
  handshake, plain and descriptor-carrying requests with the durable preflight, handoff queries and
  the operator's recovery commands.

  The environment of one frame is a record: whether the reply can be written, what the request
  handler and the handoff provider answer, and what the disk does.  What the handler executed and
  what was sent are collected as effects.
\<close>

record server =
  sv_endpoint :: host_endpoint
  sv_store :: "recovery_store option"
  sv_lock_poisoned :: bool
  sv_disk :: disk

record frame_env =
  fe_write_ok :: bool
  fe_handler :: "ustr \<Rightarrow> ustr \<Rightarrow> ustr \<Rightarrow> ledger_outcome"
  fe_handoff :: "(ustr + handoff_request) option"
  fe_io_first :: write_io
  fe_io_second :: write_io

datatype server_effect =
    EF_Sent ustr
  | EF_Lost ustr
  | EF_Executed ustr ustr ustr

text \<open>The read-only request handler of the validation endpoint.\<close>

definition composition_gate_handler :: "ustr \<Rightarrow> ustr \<Rightarrow> ustr \<Rightarrow> ledger_outcome" where
  "composition_gate_handler request_id composition canonical = composition_gate_outcome composition"

definition write_frame :: "frame_env \<Rightarrow> ustr \<Rightarrow> bool" where
  "write_frame env s = (case encode_frame s of Inl _ \<Rightarrow> False | Inr _ \<Rightarrow> fe_write_ok env)"

definition reply :: "frame_env \<Rightarrow> ustr \<Rightarrow> server_effect" where
  "reply env s = (if write_frame env s then EF_Sent s else EF_Lost s)"

subsection \<open>Recovery commands\<close>

text \<open>The names that \<open>{:?}\<close> prints.\<close>

fun debug_codec_error :: "codec_error \<Rightarrow> ustr" where
  "debug_codec_error CE_Truncated = lit ''Truncated''"
| "debug_codec_error CE_BadMagic = lit ''BadMagic''"
| "debug_codec_error CE_UnknownVersion = lit ''UnknownVersion''"
| "debug_codec_error CE_TooManyEntries = lit ''TooManyEntries''"
| "debug_codec_error CE_OversizedFile = lit ''OversizedFile''"
| "debug_codec_error CE_OversizedRecord = lit ''OversizedRecord''"
| "debug_codec_error CE_Malformed = lit ''Malformed''"
| "debug_codec_error CE_ChecksumMismatch = lit ''ChecksumMismatch''"
| "debug_codec_error CE_EncodeOverflow = lit ''EncodeOverflow''"

fun debug_recovery_error :: "recovery_error \<Rightarrow> ustr" where
  "debug_recovery_error RE_UnknownTarget = lit ''UnknownTarget''"
| "debug_recovery_error RE_SessionMismatch = lit ''SessionMismatch''"
| "debug_recovery_error RE_AckBeforeReconcile = lit ''AckBeforeReconcile''"
| "debug_recovery_error RE_RegistryFull = lit ''RegistryFull''"
| "debug_recovery_error RE_EpochMismatch = lit ''EpochMismatch''"

fun debug_verdict :: "recovery_verdict \<Rightarrow> ustr" where
  "debug_verdict RV_AppliedAcknowledged = lit ''AppliedAcknowledged''"
| "debug_verdict RV_NotApplied = lit ''NotApplied''"
| "debug_verdict RV_ConflictHumanReview = lit ''ConflictHumanReview''"

fun map_store_error :: "store_error \<Rightarrow> ustr" where
  "map_store_error (SE_StateUnreadable code) = lit ''recovery-error:StateUnreadable:'' @ debug_codec_error code"
| "map_store_error SE_Unavailable = lit ''recovery-error:StateUnavailable''"
| "map_store_error SE_WriteFailed = lit ''recovery-error:StateWriteFailed''"
| "map_store_error (SE_Registry reason) = lit ''recovery-error:'' @ debug_recovery_error reason"

definition malformed_command :: ustr where
  "malformed_command = lit ''recovery-error:MalformedCommand''"

definition list_answer :: "recovery_store \<Rightarrow> ustr" where
  "list_answer s =
     (case store_list s of
        Inl e \<Rightarrow> map_store_error e
      | Inr targets \<Rightarrow>
          if targets = [] then lit ''recovery-list|0''
          else let awaiting = length (filter (\<lambda>t. bt_state t = None) targets);
                   resolved = length (filter (\<lambda>t. bt_state t \<noteq> None) targets)
               in lit ''recovery-list|'' @ show_nat (awaiting + resolved) @ lit ''|awaiting='' @ show_nat awaiting @
                  lit ''|resolved='' @ show_nat resolved)"

definition block_command ::
  "write_io \<Rightarrow> recovery_store \<Rightarrow> disk \<Rightarrow> ustr \<Rightarrow> ustr list \<Rightarrow> ustr \<times> recovery_store \<times> disk" where
  "block_command io s d session args =
     (case args of
        uri # expected # replacement # range_start # range_end # _ \<Rightarrow>
          (case (parse_u64 range_start, parse_u64 range_end) of
             (Some b, Some e) \<Rightarrow>
               (case store_block io s d session uri expected replacement (b, e) of
                  (Inl err, s', d') \<Rightarrow> (map_store_error err, s', d')
                | (Inr _, s', d') \<Rightarrow> (lit ''recovery-blocked'', s', d'))
           | _ \<Rightarrow> (malformed_command, s, d))
      | _ \<Rightarrow> (malformed_command, s, d))"

definition reconcile_command ::
  "write_io \<Rightarrow> recovery_store \<Rightarrow> disk \<Rightarrow> ustr \<Rightarrow> ustr list \<Rightarrow> ustr \<times> recovery_store \<times> disk" where
  "reconcile_command io s d session args =
     (case parse_reconcile args of
        None \<Rightarrow> (malformed_command, s, d)
      | Some (uri, expected, document_epoch, live) \<Rightarrow>
         (case store_reconcile io s d session uri expected document_epoch live of
            (Inl err, s', d') \<Rightarrow> (map_store_error err, s', d')
          | (Inr verdict, s', d') \<Rightarrow> (lit ''recovery-verdict:'' @ debug_verdict verdict, s', d')))"

definition ack_command ::
  "write_io \<Rightarrow> recovery_store \<Rightarrow> disk \<Rightarrow> ustr \<Rightarrow> ustr list \<Rightarrow> ustr \<times> recovery_store \<times> disk" where
  "ack_command io s d session args =
     (case args of
        uri # expected # epoch # _ \<Rightarrow>
          (case parse_u64 epoch of
             None \<Rightarrow> (malformed_command, s, d)
           | Some document_epoch \<Rightarrow>
              (case store_acknowledge io s d session uri expected document_epoch of
                 (Inl err, s', d') \<Rightarrow> (map_store_error err, s', d')
               | (Inr _, s', d') \<Rightarrow> (lit ''recovery-acked'', s', d')))
      | _ \<Rightarrow> (malformed_command, s, d))"

definition handle_recovery_command :: "write_io \<Rightarrow> server \<Rightarrow> ustr \<Rightarrow> ustr \<times> server" where
  "handle_recovery_command io sv command =
     (case split_on bar command of
        [] \<Rightarrow> (malformed_command, sv)
      | command_session # rest \<Rightarrow>
         (if isl (check_session (sv_endpoint sv) command_session)
            then (lit ''recovery-error:SessionMismatch'', sv)
          else (case sv_store sv of
                  None \<Rightarrow> (lit ''recovery-error:RecoveryUnavailable'', sv)
                | Some s \<Rightarrow>
                   if sv_lock_poisoned sv then (lit ''recovery-error:RegistryLocked'', sv)
                   else (case rest of
                           [] \<Rightarrow> (malformed_command, sv)
                         | verb # args \<Rightarrow>
                            if verb = lit ''LIST'' then (list_answer s, sv)
                            else (let run = (if verb = lit ''BLOCK'' then block_command
                                             else if verb = lit ''RECONCILE'' then reconcile_command
                                             else if verb = lit ''ACK'' then ack_command
                                             else (\<lambda>io s d session args. (malformed_command, s, d)));
                                      (answer, s', d') = run io s (sv_disk sv) command_session args
                                  in (answer, sv\<lparr>sv_store := Some s', sv_disk := d'\<rparr>))))))"

subsection \<open>Descriptor-carrying requests\<close>

definition execute_descriptor_request ::
  "frame_env \<Rightarrow> server \<Rightarrow> recovery_descriptor \<Rightarrow> ustr \<Rightarrow> ustr
    \<Rightarrow> ledger_outcome \<times> server \<times> server_effect list" where
  "execute_descriptor_request env sv descriptor composition canonical =
     (case sv_store sv of
        None \<Rightarrow> (LO_Definite (lit ''rejected:RecoveryUnavailable''), sv, [])
      | Some s \<Rightarrow>
          if sv_lock_poisoned sv then (LO_Definite (lit ''rejected:RecoveryUnavailable''), sv, [])
          else if target_blocked s (rd_uri descriptor) (rd_expected descriptor)
            then (LO_Definite (lit ''rejected:TargetBlocked''), sv, [])
          else (case begin_pending (fe_io_first env) s (sv_disk sv) descriptor of
                  (Inl _, s', d') \<Rightarrow>
                    (LO_Definite (lit ''rejected:RecoveryPreflightFailed''),
                     sv\<lparr>sv_store := Some s', sv_disk := d'\<rparr>, [])
                | (Inr _, s', d') \<Rightarrow>
                   (let out = fe_handler env (rd_request_id descriptor) composition canonical;
                        (_, endpoint) = endpoint_record_with_recovery (sv_endpoint sv)
                          (rd_request_id descriptor) canonical out
                    in (out, sv\<lparr>sv_endpoint := endpoint, sv_store := Some s', sv_disk := d'\<rparr>,
                        [EF_Executed (rd_request_id descriptor) composition canonical]))))"

definition uncertain_outcome :: "ledger_outcome \<Rightarrow> bool" where
  "uncertain_outcome out =
     (case out of LO_Ambiguous _ \<Rightarrow> True | LO_Definite s \<Rightarrow> \<not> starts_with (lit ''rejected:'') s)"

definition promote_after_loss :: "write_io \<Rightarrow> server \<Rightarrow> ustr \<Rightarrow> ustr \<Rightarrow> server" where
  "promote_after_loss io sv session_id request_id =
     (case sv_store sv of
        None \<Rightarrow> sv
      | Some s \<Rightarrow>
          if sv_lock_poisoned sv then sv
          else (case promote_pending io s (sv_disk sv) session_id request_id of
                  (_, s', d') \<Rightarrow> sv\<lparr>sv_store := Some s', sv_disk := d'\<rparr>))"

definition resolve_pending :: "write_io \<Rightarrow> server \<Rightarrow> ustr \<Rightarrow> ustr \<Rightarrow> ledger_outcome \<Rightarrow> server" where
  "resolve_pending io sv session_id request_id out =
     (if uncertain_outcome out then promote_after_loss io sv session_id request_id
      else (case sv_store sv of
              None \<Rightarrow> sv
            | Some s \<Rightarrow>
                if sv_lock_poisoned sv then sv
                else (case clear_pending io s (sv_disk sv) request_id of
                        (_, s', d') \<Rightarrow> sv\<lparr>sv_store := Some s', sv_disk := d'\<rparr>)))"

definition request_id_reuse :: ledger_outcome where
  "request_id_reuse = LO_Definite (lit ''request_id_reuse'')"

definition serve_descriptor_request ::
  "frame_env \<Rightarrow> server \<Rightarrow> ustr \<Rightarrow> bool \<times> server \<times> server_effect list" where
  "serve_descriptor_request env sv request =
     (case parse_descriptor_request request of
        None \<Rightarrow> (False, sv, [])
      | Some (session, descriptor, composition, canonical) \<Rightarrow>
          if isl (check_session (sv_endpoint sv) session)
          then (write_frame env (lit ''ERROR|session_mismatch''), sv, [reply env (lit ''ERROR|session_mismatch'')])
          else
            (let request_id = rd_request_id descriptor;
                 (executed_fresh, out, sv1, effects) =
                   (case classify_request (sv_endpoint sv) request_id canonical of
                      RD_Duplicate recorded \<Rightarrow> (False, recorded, sv, [])
                    | RD_Conflict \<Rightarrow> (False, request_id_reuse, sv, [])
                    | RD_Fresh \<Rightarrow> (True, execute_descriptor_request env sv descriptor composition canonical));
                 sent = effects @ [reply env (outcome_payload out)]
             in if write_frame env (outcome_payload out)
                then (True, if executed_fresh then resolve_pending (fe_io_second env) sv1 session request_id out else sv1,
                      sent)
                else (False, if executed_fresh then promote_after_loss (fe_io_second env) sv1 session request_id else sv1,
                      sent)))"

subsection \<open>One frame, one connection, the listener\<close>

definition answered :: "frame_env \<Rightarrow> server \<Rightarrow> ustr \<Rightarrow> bool \<times> server \<times> server_effect list" where
  "answered env sv s = (write_frame env s, sv, [reply env s])"

definition serve_hello :: "frame_env \<Rightarrow> ustr \<Rightarrow> server \<Rightarrow> ustr \<Rightarrow> bool \<times> server \<times> server_effect list" where
  "serve_hello env session_id sv protocol =
     (case accept_hello (sv_endpoint sv) protocol session_id of
        (Inr _, endpoint) \<Rightarrow>
          answered env (sv\<lparr>sv_endpoint := endpoint\<rparr>) (lit ''WELCOME|'' @ session_id)
      | (Inl _, endpoint) \<Rightarrow> (False, sv\<lparr>sv_endpoint := endpoint\<rparr>, [reply env (lit ''ERROR|protocol_mismatch'')]))"

definition serve_handoff :: "frame_env \<Rightarrow> server \<Rightarrow> ustr \<Rightarrow> bool \<times> server \<times> server_effect list" where
  "serve_handoff env sv query_session =
     (if isl (check_session (sv_endpoint sv) query_session) then answered env sv (lit ''ERROR|session_mismatch'')
      else answered env sv (lit ''RESULT|DEFINITE|'' @
        (case fe_handoff env of
           None \<Rightarrow> lit ''handoff-unavailable''
         | Some (Inl e) \<Rightarrow> lit ''handoff-rejected:'' @ e
         | Some (Inr request) \<Rightarrow> handoff_payload request)))"

definition serve_request :: "frame_env \<Rightarrow> server \<Rightarrow> ustr \<Rightarrow> bool \<times> server \<times> server_effect list" where
  "serve_request env sv request =
     (case parse_request request of
        None \<Rightarrow> (False, sv, [])
      | Some (session, request_id, composition, canonical) \<Rightarrow>
          if isl (check_session (sv_endpoint sv) session) then answered env sv (lit ''ERROR|session_mismatch'')
          else (case classify_request (sv_endpoint sv) request_id canonical of
                  RD_Duplicate recorded \<Rightarrow> answered env sv (outcome_payload recorded)
                | RD_Conflict \<Rightarrow> answered env sv (outcome_payload request_id_reuse)
                | RD_Fresh \<Rightarrow>
                   (let out = fe_handler env request_id composition canonical;
                        (_, endpoint) = endpoint_record (sv_endpoint sv) request_id canonical out;
                        (continue, sv', effects) =
                          answered env (sv\<lparr>sv_endpoint := endpoint\<rparr>) (outcome_payload out)
                    in (continue, sv', EF_Executed request_id composition canonical # effects))))"

text \<open>The flag says whether the connection goes on.\<close>

definition serve_frame ::
  "frame_env \<Rightarrow> ustr \<Rightarrow> server \<Rightarrow> ustr \<Rightarrow> bool \<times> server \<times> server_effect list" where
  "serve_frame env session_id sv payload =
     (case strip_prefix (lit ''HELLO|'') payload of
        Some protocol \<Rightarrow> serve_hello env session_id sv protocol
      | None \<Rightarrow>
     (case strip_prefix (lit ''RECOVERY|'') payload of
        Some command \<Rightarrow>
          (let (answer, sv') = handle_recovery_command (fe_io_first env) sv command
           in answered env sv' (lit ''RESULT|DEFINITE|'' @ answer))
      | None \<Rightarrow>
     (case strip_prefix (lit ''HANDOFF|'') payload of
        Some query_session \<Rightarrow> serve_handoff env sv query_session
      | None \<Rightarrow>
     (case strip_prefix (lit ''REQ|'') payload of
        Some request \<Rightarrow> serve_request env sv request
      | None \<Rightarrow>
     (case strip_prefix (lit ''REQX|'') payload of
        Some request \<Rightarrow> serve_descriptor_request env sv request
      | None \<Rightarrow> (False, sv, []))))))"

fun serve_connection ::
  "ustr \<Rightarrow> frame_env list \<Rightarrow> pipe_answer list \<Rightarrow> bytes \<Rightarrow> server \<Rightarrow> server \<times> server_effect list" where
  "serve_connection session_id [] answers buffer sv = (sv, [])"
| "serve_connection session_id (env # envs) answers buffer sv =
     (case read_frame_stop_aware answers buffer of
        Some (SR_Frame payload, buffer', answers') \<Rightarrow>
          (case serve_frame env session_id sv payload of
             (continue, sv', effects) \<Rightarrow>
               if continue
               then (case serve_connection session_id envs answers' buffer' sv' of
                       (sv'', later) \<Rightarrow> (sv'', effects @ later))
               else (sv', effects))
      | _ \<Rightarrow> (sv, []))"

text \<open>
  The listener: each connection comes with the verdict of the peer check; a connection that fails
  it is dropped unserved.  The stop flag is loaded after each connection.
\<close>

record connection =
  cn_peer_ok :: bool
  cn_envs :: "frame_env list"
  cn_answers :: "pipe_answer list"
  cn_stop_after :: bool

fun listener :: "ustr \<Rightarrow> connection list \<Rightarrow> server \<Rightarrow> server \<times> server_effect list" where
  "listener session_id [] sv = (sv, [])"
| "listener session_id (c # cs) sv =
     (case (if cn_peer_ok c then serve_connection session_id (cn_envs c) (cn_answers c) [] sv else (sv, [])) of
        (sv', effects) \<Rightarrow>
          if cn_stop_after c then (sv', effects)
          else (case listener session_id cs sv' of (sv'', later) \<Rightarrow> (sv'', effects @ later)))"

definition spawn_server ::
  "nat \<Rightarrow> recovery_store option \<Rightarrow> disk \<Rightarrow> ledger_capacity_error + server" where
  "spawn_server ledger_capacity recovery d =
     map_sum id (\<lambda>endpoint. \<lparr>sv_endpoint = endpoint, sv_store = recovery, sv_lock_poisoned = False, sv_disk = d\<rparr>)
       (endpoint_new ledger_capacity)"

subsection \<open>How a frame moves the endpoint\<close>

text \<open>The server hands out its own session id only, so a handshake never restarts the ledger.\<close>

definition endpoint_moves :: "ustr \<Rightarrow> host_endpoint \<Rightarrow> host_endpoint \<Rightarrow> bool" where
  "endpoint_moves session_id h h' \<longleftrightarrow> h' = h \<or> h' = h\<lparr>he_session_id := Some session_id\<rparr> \<or>
     (\<exists>rid c out b. h' = snd (endpoint_record_for h rid c out b))"

definition own_session :: "ustr \<Rightarrow> host_endpoint \<Rightarrow> bool" where
  "own_session session_id h \<longleftrightarrow> he_session_id h = None \<or> he_session_id h = Some session_id"

lemma endpoint_moves_refl [simp]: "endpoint_moves session_id h h"
  by (simp add: endpoint_moves_def)

lemma moves_record:
  "endpoint_moves session_id h (snd (endpoint_record h rid c out))"
  "endpoint_moves session_id h (snd (endpoint_record_with_recovery h rid c out))"
  by (metis endpoint_moves_def endpoint_record_for_def)+

lemma moves_hello:
  "own_session session_id h \<Longrightarrow> accept_hello h protocol session_id = (r, h') \<Longrightarrow> endpoint_moves session_id h h'"
  by (auto simp: accept_hello_def own_session_def endpoint_moves_def split: if_splits option.splits)

lemma moves_own_session:
  "endpoint_moves session_id h h' \<Longrightarrow> own_session session_id h \<Longrightarrow> own_session session_id h'"
proof -
  have "he_session_id (snd (endpoint_record_for h rid c out b)) = he_session_id h" for rid c out b
    by (simp add: endpoint_record_for_eq split: prod.split)
  then show "endpoint_moves session_id h h' \<Longrightarrow> own_session session_id h \<Longrightarrow> own_session session_id h'"
    by (auto simp: endpoint_moves_def own_session_def)
qed

lemma moves_pinned:
  assumes "endpoint_moves session_id h h'" and "endpoint_inv h"
  shows "endpoint_inv h' \<and> (ledger_pinned (he_ledger h) rid c out \<longrightarrow> ledger_pinned (he_ledger h') rid c out)"
proof -
  have "endpoint_inv h' \<and> (ledger_pinned (he_ledger h) rid c out \<longrightarrow> ledger_pinned (he_ledger h') rid c out)"
    if "h' = snd (endpoint_record_for h x c' out' b)" for x c' out' b
    using that endpoint.rec_inv [OF assms(2), of x c' out' b] endpoint.pinned_kept [OF assms(2), of rid c out x c' out' b]
    by (cases "endpoint_record_for h x c' out' b") auto
  with assms show ?thesis by (auto simp: endpoint_moves_def endpoint_inv_def)
qed

lemma answered_simps [simp]:
  "fst (snd (answered env sv s)) = sv"
  "snd (snd (answered env sv s)) = [reply env s]"
  by (simp_all add: answered_def)

lemma reply_not_executed [simp]: "reply env s \<noteq> EF_Executed rid mode c" "EF_Executed rid mode c \<noteq> reply env s"
  by (auto simp: reply_def)

lemma recovery_keeps_endpoint [simp]:
  "sv_endpoint (snd (handle_recovery_command io sv command)) = sv_endpoint sv"
  by (auto simp: handle_recovery_command_def Let_def split: list.splits option.splits prod.splits)

lemma promote_keeps_endpoint [simp]: "sv_endpoint (promote_after_loss io sv sid rid) = sv_endpoint sv"
  by (auto simp: promote_after_loss_def split: option.splits prod.splits)

lemma resolve_keeps_endpoint [simp]: "sv_endpoint (resolve_pending io sv sid rid out) = sv_endpoint sv"
  by (auto simp: resolve_pending_def split: option.splits prod.splits)

lemma execute_moves:
  "execute_descriptor_request env sv rd mode c = (out, sv', effects) \<Longrightarrow>
     endpoint_moves sid (sv_endpoint sv) (sv_endpoint sv')"
  using moves_record(2) [of sid "sv_endpoint sv" "rd_request_id rd" c]
  by (auto simp: execute_descriptor_request_def Let_def split: option.splits if_splits prod.splits sum.splits)
    (metis snd_conv)+

lemma descriptor_moves:
  "serve_descriptor_request env sv request = (k, sv', effects) \<Longrightarrow>
     endpoint_moves sid (sv_endpoint sv) (sv_endpoint sv')"
  by (auto simp: serve_descriptor_request_def Let_def dest!: execute_moves [where sid = sid]
      split: option.splits prod.splits if_splits request_disposition.splits)

lemma request_moves:
  "serve_request env sv request = (k, sv', effects) \<Longrightarrow>
     endpoint_moves sid (sv_endpoint sv) (sv_endpoint sv')"
proof -
  assume r: "serve_request env sv request = (k, sv', effects)"
  have "sv_endpoint sv' = sv_endpoint sv \<or>
      (\<exists>rid c out. sv_endpoint sv' = snd (endpoint_record (sv_endpoint sv) rid c out))"
    using r by (auto simp: serve_request_def answered_def Let_def
        split: option.splits prod.splits if_splits request_disposition.splits) (metis snd_conv)+
  then show ?thesis using moves_record(1) by auto
qed

lemma serve_frame_moves:
  assumes "own_session sid (sv_endpoint sv)" and "serve_frame env sid sv payload = (k, sv', effects)"
  shows "endpoint_moves sid (sv_endpoint sv) (sv_endpoint sv')"
proof -
  have hello: "endpoint_moves sid (sv_endpoint sv) (sv_endpoint sv')"
    if "serve_hello env sid sv protocol = (k, sv', effects)" for protocol
    using that moves_hello [OF assms(1)]
    by (auto simp: serve_hello_def answered_def split: prod.splits sum.splits)
  have rec: "endpoint_moves sid (sv_endpoint sv) (sv_endpoint sv')"
    if "(case handle_recovery_command io sv command of (answer, sv') \<Rightarrow> answered env sv' (f answer)) = (k, sv', effects)"
    for io command and f :: "ustr \<Rightarrow> ustr"
    using that recovery_keeps_endpoint [of io sv command]
    by (cases "handle_recovery_command io sv command") (auto simp: answered_def)
  have handoff: "endpoint_moves sid (sv_endpoint sv) (sv_endpoint sv')"
    if "serve_handoff env sv q = (k, sv', effects)" for q
    using that by (auto simp: serve_handoff_def answered_def split: if_splits)
  show ?thesis
    using assms(2) hello rec handoff request_moves descriptor_moves
    by (auto simp: serve_frame_def split: option.splits)
qed

text \<open>What was executed had been unknown to the ledger.\<close>

lemma serve_request_fresh:
  assumes "parse_request request = Some (session, rid, mode, c)"
    and "check_session (sv_endpoint sv) session = Inr ()"
    and "classify_request (sv_endpoint sv) rid c = RD_Fresh"
    and "outcome_payload (fe_handler env rid mode c) = answer"
    and "snd (endpoint_record (sv_endpoint sv) rid c (fe_handler env rid mode c)) = endpoint"
  shows "serve_request env sv request =
    (write_frame env answer, sv\<lparr>sv_endpoint := endpoint\<rparr>, [EF_Executed rid mode c, reply env answer])"
  using assms by (auto simp: serve_request_def answered_def split: prod.split)

lemma serve_descriptor_fresh:
  assumes "parse_descriptor_request request = Some (session, rd, mode, c)"
    and "\<not> isl (check_session (sv_endpoint sv) session)"
    and "classify_request (sv_endpoint sv) (rd_request_id rd) c = RD_Fresh"
    and "execute_descriptor_request env sv rd mode c = (out, sv1, e1)"
  shows "serve_descriptor_request env sv request =
     (if write_frame env (outcome_payload out)
      then (True, resolve_pending (fe_io_second env) sv1 session (rd_request_id rd) out, e1 @ [reply env (outcome_payload out)])
      else (False, promote_after_loss (fe_io_second env) sv1 session (rd_request_id rd), e1 @ [reply env (outcome_payload out)]))"
  using assms by (simp add: serve_descriptor_request_def Let_def)

lemma request_executed:
  assumes "serve_request env sv request = (k, sv', effects)" and "EF_Executed rid mode c \<in> set effects"
  shows "classify_request (sv_endpoint sv) rid c = RD_Fresh \<and>
    sv_endpoint sv' = snd (endpoint_record (sv_endpoint sv) rid c (fe_handler env rid mode c))"
  using assms
  by (auto simp: serve_request_def answered_def Let_def
      split: option.splits prod.splits if_splits request_disposition.splits)

lemma descriptor_executed:
  assumes "serve_descriptor_request env sv request = (k, sv', effects)" and "EF_Executed rid mode c \<in> set effects"
  shows "\<exists>session rd. parse_descriptor_request request = Some (session, rd, mode, c) \<and> rid = rd_request_id rd \<and>
    check_session (sv_endpoint sv) session = Inr () \<and> classify_request (sv_endpoint sv) rid c = RD_Fresh"
proof -
  obtain session rd mode' c' where p: "parse_descriptor_request request = Some (session, rd, mode', c')"
    "\<not> isl (check_session (sv_endpoint sv) session)"
    using assms by (auto simp: serve_descriptor_request_def split: option.splits if_splits)
  have e: "rid = rd_request_id rd \<and> mode = mode' \<and> c = c'"
    if "execute_descriptor_request env sv rd mode' c' = (out, sv1, es)" "EF_Executed rid mode c \<in> set es" for out sv1 es
    using that by (auto simp: execute_descriptor_request_def Let_def
        split: option.splits if_splits prod.splits sum.splits)
  have "classify_request (sv_endpoint sv) (rd_request_id rd) c' = RD_Fresh \<and> rid = rd_request_id rd \<and> mode = mode' \<and> c = c'"
    using assms p e by (auto simp: serve_descriptor_request_def Let_def
        split: prod.splits if_splits request_disposition.splits)
  with p show ?thesis by (cases "check_session (sv_endpoint sv) session") auto
qed

lemma serve_frame_executed:
  assumes "serve_frame env sid sv payload = (k, sv', effects)" and "EF_Executed rid mode c \<in> set effects"
  shows "classify_request (sv_endpoint sv) rid c = RD_Fresh"
  using assms request_executed descriptor_executed
  by (fastforce simp: serve_frame_def serve_hello_def serve_handoff_def answered_def
      split: option.splits prod.splits sum.splits if_splits)

subsection \<open>Runs of frames\<close>

fun serve_frames :: "ustr \<Rightarrow> (frame_env \<times> ustr) list \<Rightarrow> server \<Rightarrow> server \<times> server_effect list" where
  "serve_frames session_id [] sv = (sv, [])"
| "serve_frames session_id ((env, payload) # fs) sv =
     (case serve_frame env session_id sv payload of (_, sv', effects) \<Rightarrow>
       (case serve_frames session_id fs sv' of (sv'', later) \<Rightarrow> (sv'', effects @ later)))"

lemma serve_frames_append:
  "serve_frames sid (fs @ gs) sv =
     (case serve_frames sid fs sv of (sv', e) \<Rightarrow> (case serve_frames sid gs sv' of (sv'', e') \<Rightarrow> (sv'', e @ e')))"
  by (induction fs arbitrary: sv) (auto split: prod.splits)

lemma connection_frames:
  "serve_connection sid envs answers buffer sv = (sv', effects) \<Longrightarrow> \<exists>fs. serve_frames sid fs sv = (sv', effects)"
proof (induction sid envs answers buffer sv arbitrary: effects rule: serve_connection.induct)
  case (1 sid answers buffer sv)
  then show ?case by (auto intro: exI [of _ "[]"])
next
  case (2 sid env envs answers buffer sv)
  show ?case
  proof (cases "\<exists>payload b as. read_frame_stop_aware answers buffer = Some (SR_Frame payload, b, as)")
    case True
    then obtain payload b as where r: "read_frame_stop_aware answers buffer = Some (SR_Frame payload, b, as)" by blast
    obtain k sv1 e where f: "serve_frame env sid sv payload = (k, sv1, e)" by (rule prod_cases3)
    show ?thesis
    proof (cases k)
      case False
      with 2(2) r f have "serve_frames sid [(env, payload)] sv = (sv', effects)" by simp
      then show ?thesis by blast
    next
      case True
      obtain sv2 later where l: "serve_connection sid envs as b sv1 = (sv2, later)" by (rule prod.exhaust)
      with 2(2) r f True have e: "sv' = sv2" "effects = e @ later" by auto
      from 2(1) [OF r refl refl refl f [symmetric] refl True, of later] l e(1)
      obtain fs where "serve_frames sid fs sv1 = (sv2, later)" by auto
      with f e have "serve_frames sid ((env, payload) # fs) sv = (sv', effects)" by simp
      then show ?thesis by blast
    qed
  next
    case False
    with 2(2) have "serve_frames sid [] sv = (sv', effects)"
      by (auto split: option.splits prod.splits serve_read.splits)
    then show ?thesis by blast
  qed
qed

lemma listener_frames:
  "listener sid cs sv = (sv', effects) \<Longrightarrow> \<exists>fs. serve_frames sid fs sv = (sv', effects)"
proof (induction cs arbitrary: sv effects)
  case (Cons c cs)
  obtain sv1 e where s: "(if cn_peer_ok c then serve_connection sid (cn_envs c) (cn_answers c) [] sv else (sv, [])) = (sv1, e)"
    by (rule prod.exhaust)
  obtain fs where fs: "serve_frames sid fs sv = (sv1, e)"
    using s connection_frames [of sid "cn_envs c" "cn_answers c" "[]" sv sv1 e]
    by (cases "cn_peer_ok c") (auto intro: that [of "[]"])
  show ?case
  proof (cases "cn_stop_after c")
    case True
    with Cons.prems s fs show ?thesis by auto
  next
    case False
    obtain sv2 later where l: "listener sid cs sv1 = (sv2, later)" by (rule prod.exhaust)
    with Cons.prems s False have e: "sv' = sv2" "effects = e @ later" by auto
    from Cons.IH [of sv1 later] l e(1) obtain gs where "serve_frames sid gs sv1 = (sv', later)" by auto
    with fs e have "serve_frames sid (fs @ gs) sv = (sv', effects)" by (simp add: serve_frames_append)
    then show ?thesis by blast
  qed
qed (auto intro: exI [of _ "[]"])

lemma serve_frames_pinned:
  assumes "own_session sid (sv_endpoint sv)" and "endpoint_inv (sv_endpoint sv)"
    and "serve_frames sid fs sv = (sv', effects)"
  shows "own_session sid (sv_endpoint sv') \<and> endpoint_inv (sv_endpoint sv') \<and>
    (ledger_pinned (he_ledger (sv_endpoint sv)) rid c out \<longrightarrow>
       ledger_pinned (he_ledger (sv_endpoint sv')) rid c out \<and> (\<forall>mode. EF_Executed rid mode c \<notin> set effects))"
  using assms
proof (induction fs arbitrary: sv effects)
  case (Cons x fs)
  obtain env payload where x: "x = (env, payload)" by (rule prod.exhaust)
  obtain k sv1 e where f: "serve_frame env sid sv payload = (k, sv1, e)" by (rule prod_cases3)
  obtain later where l: "serve_frames sid fs sv1 = (sv', later)" "effects = e @ later"
    using Cons.prems(3) x f by (auto split: prod.splits)
  note m = serve_frame_moves [OF Cons.prems(1) f]
  note p = moves_pinned [OF m Cons.prems(2), of rid c out]
  have "EF_Executed rid mode c \<notin> set e" if "ledger_pinned (he_ledger (sv_endpoint sv)) rid c out" for mode
    using serve_frame_executed [OF f] endpoint.pinned_found [OF that] by auto
  with Cons.IH [OF moves_own_session [OF m Cons.prems(1)] conjunct1 [OF p] l(1)] p l(2)
  show ?case by auto
qed simp

text \<open>
  C16. At most once through the pipe: when a plain request is executed with an ambiguous outcome and
  the ledger takes the record, then no connection that the listener serves later executes a request
  with that id and content again, through a plain or a descriptor request, whatever frames,
  handshakes and reconnects come in between.
\<close>

theorem server_at_most_once:
  assumes "spawn_server capacity recovery d = Inr sv0" and "listener sid cs1 sv0 = (sv1, e1)"
    and "serve_request env sv1 request = (k, sv2, e2)" and "EF_Executed rid mode c \<in> set e2"
    and "is_ambiguous (fe_handler env rid mode c)"
    and "fst (endpoint_record (sv_endpoint sv1) rid c (fe_handler env rid mode c)) \<noteq> RO_RejectedLedgerFull"
    and "listener sid cs2 sv2 = (sv3, e3)"
  shows "EF_Executed rid mode' c \<notin> set e3"
proof -
  obtain fs1 where f1: "serve_frames sid fs1 sv0 = (sv1, e1)" using listener_frames [OF assms(2)] by blast
  obtain fs2 where f2: "serve_frames sid fs2 sv2 = (sv3, e3)" using listener_frames [OF assms(7)] by blast
  have "endpoint_inv (sv_endpoint sv0)" "own_session sid (sv_endpoint sv0)"
    using assms(1) by (auto simp: spawn_server_def own_session_def endpoint_new_def ledger_new_def
        endpoint_inv_def ledger_inv_def split: sum.splits if_splits)
  then have i1: "own_session sid (sv_endpoint sv1)" "endpoint_inv (sv_endpoint sv1)"
    using serve_frames_pinned [OF _ _ f1] by blast+
  let ?out = "fe_handler env rid mode c"
  note ex = request_executed [OF assms(3,4)]
  obtain r h where r: "endpoint_record (sv_endpoint sv1) rid c ?out = (r, h)" by (rule prod.exhaust)
  then have rec: "endpoint_record_for (sv_endpoint sv1) rid c ?out False = (r, sv_endpoint sv2)"
    using ex by (simp add: endpoint_record_for_def)
  have "r \<noteq> RO_AlreadyPresent" using endpoint.fresh_rec [OF i1(2) rec] ex by blast
  with assms(6) r have "r = RO_Inserted \<or> (\<exists>old. r = RO_Evicted old)" by (cases r) auto
  then have p: "ledger_pinned (he_ledger (sv_endpoint sv2)) rid c ?out"
    using endpoint.rec_pins [OF i1(2) rec assms(5)] by blast
  note m = request_moves [OF assms(3), of sid]
  from serve_frames_pinned [OF moves_own_session [OF m i1(1)] conjunct1 [OF moves_pinned [OF m i1(2)]] f2] p
  show ?thesis by blast
qed

definition quiet_env :: "ledger_outcome \<Rightarrow> frame_env" where
  "quiet_env out = \<lparr>fe_write_ok = True, fe_handler = (\<lambda>_ _ _. out), fe_handoff = None,
     fe_io_first = good_io, fe_io_second = good_io\<rparr>"

definition welcomed :: "nat \<Rightarrow> recovery_store option \<Rightarrow> disk \<Rightarrow> server" where
  "welcomed capacity store d =
     \<lparr>sv_endpoint = \<lparr>he_protocol_id = TRANSPORT_PROTOCOL_ID, he_session_id = Some (lit ''s''),
        he_ledger = \<lparr>lg_capacity = capacity, lg_order = [], lg_entries = Map.empty\<rparr>\<rparr>,
      sv_store = store, sv_lock_poisoned = False, sv_disk = d\<rparr>"

definition one_frame :: "frame_env \<Rightarrow> ustr \<Rightarrow> connection" where
  "one_frame env s = \<lparr>cn_peer_ok = True, cn_envs = [env], cn_answers = [PA_Chunk (projr (encode_frame s))],
     cn_stop_after = False\<rparr>"

definition hello_connection :: connection where
  "hello_connection = one_frame (quiet_env (LO_Definite [])) (lit ''HELLO|'' @ TRANSPORT_PROTOCOL_ID)"

lemma one_frame_served:
  assumes "valid_str s" and "encode_frame s = Inr f" and "serve_frame env sid sv s = (k, sv', effects)"
  shows "listener sid [one_frame env s] sv = (sv', effects)"
proof -
  have ne: "f \<noteq> []" using assms(2) by (auto simp: encode_frame_Inr)
  have d: "[] @ answers_data [PA_Chunk f] = f @ []" "delivering [PA_Chunk f]"
    using ne by (simp_all add: delivering_def)
  obtain b as where r: "read_frame_stop_aware [PA_Chunk f] [] = Some (SR_Frame s, b, as)"
    using read_one_frame [OF assms(1,2) d] by blast
  show ?thesis by (cases k) (simp_all add: one_frame_def assms(2,3) r)
qed

lemma hello_served:
  assumes "0 < capacity"
  shows "\<exists>sv0. spawn_server capacity store d = Inr sv0 \<and>
    listener (lit ''s'') [hello_connection] sv0 = (welcomed capacity store d, [EF_Sent (lit ''WELCOME|s'')])"
proof -
  let ?s = "lit ''HELLO|'' @ TRANSPORT_PROTOCOL_ID"
  let ?sv0 = "welcomed capacity store d\<lparr>sv_endpoint :=
    (sv_endpoint (welcomed capacity store d))\<lparr>he_session_id := None\<rparr>\<rparr>"
  have valid: "valid_str ?s" by (simp add: TRANSPORT_PROTOCOL_ID_def is_scalar_def)
  have "encode_frame ?s = Inr (le_bytes 4 (ulen ?s) @ utf8 ?s)"
    by (simp add: encode_frame_def TRANSPORT_PROTOCOL_ID_def MAX_FRAME_BYTES_def utf8_char_def)
  moreover have w: "write_frame (quiet_env (LO_Definite [])) (lit ''WELCOME|s'')"
    by (simp add: write_frame_def encode_frame_def utf8_char_def MAX_FRAME_BYTES_def quiet_env_def)
  have "serve_frame (quiet_env (LO_Definite [])) (lit ''s'') ?sv0 ?s =
      (True, welcomed capacity store d, [EF_Sent (lit ''WELCOME|s'')])"
    unfolding serve_frame_def strip_prefix_append option.case
    using w by (simp add: serve_hello_def accept_hello_def welcomed_def TRANSPORT_PROTOCOL_ID_def answered_def reply_def)
  ultimately have "listener (lit ''s'') [hello_connection] ?sv0 = (welcomed capacity store d, [EF_Sent (lit ''WELCOME|s'')])"
    unfolding hello_connection_def by (intro one_frame_served [OF valid])
  moreover have "spawn_server capacity store d = Inr ?sv0"
    using assms by (simp add: spawn_server_def endpoint_new_def ledger_new_def welcomed_def)
  ultimately show ?thesis by blast
qed

lemma parse_sample_request: "parse_request (lit ''s|r|m|c'') = Some (lit ''s'', lit ''r'', lit ''m'', lit ''c'')"
  by (simp add: parse_request_def numeral_eq_Suc)

lemma server_at_most_once_witness:
  "\<exists>sv e. listener (lit ''s'') [hello_connection] (fst (snd (serve_request (quiet_env (LO_Ambiguous (lit ''lost'')))
     (welcomed 1 None no_disk) (lit ''s|r|m|c'')))) = (sv, e) \<and> EF_Executed (lit ''r'') (lit ''m'') (lit ''c'') \<notin> set e"
proof -
  let ?env = "quiet_env (LO_Ambiguous (lit ''lost''))"
  obtain sv0 where 1: "spawn_server 1 None no_disk = Inr sv0"
    "listener (lit ''s'') [hello_connection] sv0 = (welcomed 1 None no_disk, [EF_Sent (lit ''WELCOME|s'')])"
    using hello_served [of 1 None no_disk] by auto
  obtain k sv2 e2 where 2: "serve_request ?env (welcomed 1 None no_disk) (lit ''s|r|m|c'') = (k, sv2, e2)"
    by (rule prod_cases3)
  have "classify_request (sv_endpoint (welcomed 1 None no_disk)) (lit ''r'') (lit ''c'') = RD_Fresh"
    by (simp add: classify_request_def ledger_classify_def welcomed_def)
  moreover have "check_session (sv_endpoint (welcomed 1 None no_disk)) (lit ''s'') = Inr ()"
    by (simp add: check_session_def welcomed_def)
  ultimately have "serve_request ?env (welcomed 1 None no_disk) (lit ''s|r|m|c'') =
      (k, sv2, e2) \<longrightarrow> EF_Executed (lit ''r'') (lit ''m'') (lit ''c'') \<in> set e2"
    using serve_request_fresh [OF parse_sample_request _ _ refl refl, of "welcomed 1 None no_disk" ?env] by auto
  with 2 have 3: "EF_Executed (lit ''r'') (lit ''m'') (lit ''c'') \<in> set e2" by blast
  have 4: "is_ambiguous (fe_handler ?env (lit ''r'') (lit ''m'') (lit ''c''))"
    by (simp add: quiet_env_def is_ambiguous_def)
  have 5: "fst (endpoint_record (sv_endpoint (welcomed 1 None no_disk)) (lit ''r'') (lit ''c'')
      (fe_handler ?env (lit ''r'') (lit ''m'') (lit ''c''))) \<noteq> RO_RejectedLedgerFull"
    by (simp add: endpoint_record_def ledger_record_def record_inner_def welcomed_def)
  obtain sv3 e3 where 6: "listener (lit ''s'') [hello_connection] sv2 = (sv3, e3)" by (rule prod.exhaust)
  from server_at_most_once [OF 1 2 3 4 5 6] 2 6 show ?thesis by auto
qed

text \<open>
  A saturated ledger loses the guarantee: with room for one unbacked ambiguous outcome, the
  outcome of a second request is not recorded, the client is answered as if it were, and the same
  request sent again is executed a second time.
\<close>

lemma saturated_ledger_reexecutes:
  "\<exists>sv1 sv2 sv3 e1 e2 e3.
     serve_request (quiet_env (LO_Ambiguous (lit ''lost''))) (welcomed 1 None no_disk) (lit ''s|r|m|c'') = (True, sv1, e1) \<and>
     serve_request (quiet_env (LO_Ambiguous (lit ''lost''))) sv1 (lit ''s|q|m|c'') = (True, sv2, e2) \<and>
     serve_request (quiet_env (LO_Ambiguous (lit ''lost''))) sv2 (lit ''s|q|m|c'') = (True, sv3, e3) \<and>
     e2 = [EF_Executed (lit ''q'') (lit ''m'') (lit ''c''), EF_Sent (lit ''RESULT|AMBIGUOUS|lost'')] \<and> e3 = e2"
proof -
  let ?env = "quiet_env (LO_Ambiguous (lit ''lost''))"
  let ?entry = "\<lparr>le_canonical = lit ''c'', le_outcome = LO_Ambiguous (lit ''lost''), le_recovery_backed = False\<rparr>"
  let ?sv1 = "welcomed 1 None no_disk\<lparr>sv_endpoint := (sv_endpoint (welcomed 1 None no_disk))
    \<lparr>he_ledger := \<lparr>lg_capacity = 1, lg_order = [lit ''r''], lg_entries = [lit ''r'' \<mapsto> ?entry]\<rparr>\<rparr>\<rparr>"
  have q: "parse_request (lit ''s|q|m|c'') = Some (lit ''s'', lit ''q'', lit ''m'', lit ''c'')"
    by (simp add: parse_request_def numeral_eq_Suc)
  have w: "write_frame ?env (lit ''RESULT|AMBIGUOUS|lost'')"
    by (simp add: write_frame_def encode_frame_def utf8_char_def MAX_FRAME_BYTES_def quiet_env_def)
  note defs = check_session_def classify_request_def ledger_classify_def endpoint_record_def ledger_record_def
    record_inner_def ledger_push_def evictable_def is_ambiguous_def welcomed_def
  have h: "fe_handler ?env rid mode c = LO_Ambiguous (lit ''lost'')" for rid mode c by (simp add: quiet_env_def)
  have a: "outcome_payload (fe_handler ?env rid mode c) = lit ''RESULT|AMBIGUOUS|lost''" for rid mode c
    unfolding h by (simp add: outcome_payload_def)
  have r1: "snd (endpoint_record (sv_endpoint (welcomed 1 None no_disk)) (lit ''r'') (lit ''c'') (fe_handler ?env (lit ''r'') (lit ''m'') (lit ''c''))) =
      sv_endpoint ?sv1"
    unfolding h by (simp add: defs)
  have r2: "snd (endpoint_record (sv_endpoint ?sv1) (lit ''q'') (lit ''c'') (fe_handler ?env (lit ''q'') (lit ''m'') (lit ''c''))) =
      sv_endpoint ?sv1"
    unfolding h by (simp add: defs)
  have 1: "serve_request ?env (welcomed 1 None no_disk) (lit ''s|r|m|c'') =
      (True, ?sv1, [EF_Executed (lit ''r'') (lit ''m'') (lit ''c''), EF_Sent (lit ''RESULT|AMBIGUOUS|lost'')])"
    using w by (subst serve_request_fresh [OF parse_sample_request _ _ a r1]) (simp_all add: reply_def defs)
  have 2: "serve_request ?env ?sv1 (lit ''s|q|m|c'') =
      (True, ?sv1, [EF_Executed (lit ''q'') (lit ''m'') (lit ''c''), EF_Sent (lit ''RESULT|AMBIGUOUS|lost'')])"
    using w by (subst serve_request_fresh [OF q _ _ a r2]) (simp_all add: reply_def defs)
  from 1 2 show ?thesis by blast
qed

end
