(* ===== verification/Endpoint.thy ===== *)
theory Endpoint
  imports Server
begin

text \<open>
  The pipe endpoint together with its durable store: whatever frames arrive, the state file keeps
  recording every target the store knows, so what the service executed under a descriptor is either
  definitely rejected or still blocked after a restart.
\<close>

subsection \<open>Frames carry valid text\<close>

lemma read_frame_valid:
  "read_frame_stop_aware answers buffer = Some (SR_Frame payload, b, as) \<Longrightarrow> valid_str payload"
proof (induction answers buffer rule: read_frame_stop_aware.induct)
  case (1 answers buffer)
  obtain r rest where d: "decode_frame buffer = (r, rest)" by (rule prod.exhaust)
  show ?case
  proof (cases "r = Inr None")
    case True
    with 1 d show ?thesis
      by (subst (asm) read_frame_stop_aware.simps) (auto split: list.splits pipe_answer.splits if_splits)
  next
    case False
    with 1(3) d show ?thesis
      by (subst (asm) read_frame_stop_aware.simps)
        (auto split: sum.splits option.splits dest: decode_frame_sound)
  qed
qed

lemma split_by_valid: "x \<in> set (split_by p s) \<Longrightarrow> valid_str s \<Longrightarrow> valid_str x"
  by (induction s arbitrary: x) (auto split: if_splits list.splits)

lemma splitn_valid: "x \<in> set (splitn n d s) \<Longrightarrow> valid_str s \<Longrightarrow> valid_str x"
  by (induction n d s arbitrary: x rule: splitn.induct)
    (auto dest: split_once_Some split: option.splits prod.splits)

lemma strip_prefix_valid: "strip_prefix p s = Some r \<Longrightarrow> valid_str s \<Longrightarrow> valid_str r"
  by (simp add: strip_prefix_Some)

lemma parse_descriptor_wf:
  assumes "parse_descriptor_request request = Some (session, rd, mode, c)" and "valid_str request"
  shows "wf_descriptor rd"
proof -
  have "rd_uri rd \<in> set (splitn 11 bar request) \<and> rd_request_id rd \<in> set (splitn 11 bar request)"
    using assms(1) by (auto simp: parse_descriptor_request_def split: list.splits option.splits if_splits)
  with splitn_valid [OF _ assms(2)] show ?thesis by (auto simp: wf_descriptor_def)
qed

subsection \<open>The store behind the endpoint\<close>

definition server_store_ok :: "server \<Rightarrow> bool" where
  "server_store_ok sv \<longleftrightarrow> (case sv_store sv of None \<Rightarrow> True | Some s \<Rightarrow> store_inv s (sv_disk sv))"

lemma server_store_ok_endpoint [simp]:
  "server_store_ok (sv\<lparr>sv_endpoint := h\<rparr>) = server_store_ok sv"
  by (simp add: server_store_ok_def split: option.split)

lemma forgotten:
  assumes "store_inv s d" and "wf_store_op op'" and "store_step io op' s d = forget r"
    and "r = (x, s', d')"
  shows "store_inv s' d'"
  using store_step_inv [OF assms(1,2), of io "\<not> isl x" s' d'] assms(3,4) by (simp add: forget_def)

lemma store_call_inv:
  assumes "store_inv s d"
  shows "begin_pending io s d rd = (b, s', d') \<Longrightarrow> wf_descriptor rd \<Longrightarrow> store_inv s' d'"
    and "clear_pending io s d rid = (x, s', d') \<Longrightarrow> store_inv s' d'"
    and "promote_pending io s d sid rid = (x, s', d') \<Longrightarrow> store_inv s' d'"
    and "store_block io s d sid uri e r rng = (u, s', d') \<Longrightarrow> valid_str uri \<Longrightarrow> store_inv s' d'"
    and "store_reconcile io s d sid uri e ep live = (v, s', d') \<Longrightarrow> store_inv s' d'"
    and "store_acknowledge io s d sid uri e ep = (w, s', d') \<Longrightarrow> store_inv s' d'"
proof -
  note keeps = forgotten [OF assms _ _ refl, of _ io]
  show "begin_pending io s d rd = (b, s', d') \<Longrightarrow> wf_descriptor rd \<Longrightarrow> store_inv s' d'"
    using keeps [of "SO_Begin rd" b] by simp
  show "clear_pending io s d rid = (x, s', d') \<Longrightarrow> store_inv s' d'"
    using keeps [of "SO_Clear rid" x] by simp
  show "promote_pending io s d sid rid = (x, s', d') \<Longrightarrow> store_inv s' d'"
    using keeps [of "SO_Promote sid rid" x] by simp
  show "store_block io s d sid uri e r rng = (u, s', d') \<Longrightarrow> valid_str uri \<Longrightarrow> store_inv s' d'"
    using keeps [of "SO_Block sid uri e r rng" u] by simp
  show "store_reconcile io s d sid uri e ep live = (v, s', d') \<Longrightarrow> store_inv s' d'"
    using keeps [of "SO_Reconcile sid uri e ep live" v] by simp
  show "store_acknowledge io s d sid uri e ep = (w, s', d') \<Longrightarrow> store_inv s' d'"
    using keeps [of "SO_Acknowledge sid uri e ep" w] by simp
qed

lemma promote_after_loss_ok: "server_store_ok sv \<Longrightarrow> server_store_ok (promote_after_loss io sv sid rid)"
  by (auto simp: promote_after_loss_def server_store_ok_def split: option.splits prod.splits
      intro: store_call_inv(3))

lemma resolve_pending_ok: "server_store_ok sv \<Longrightarrow> server_store_ok (resolve_pending io sv sid rid out)"
  by (auto simp: resolve_pending_def promote_after_loss_ok)
    (auto simp: server_store_ok_def split: option.splits prod.splits intro: store_call_inv(2))

lemma execute_descriptor_ok:
  assumes "server_store_ok sv" and "wf_descriptor rd"
    and "execute_descriptor_request env sv rd mode c = (out, sv', effects)"
  shows "server_store_ok sv'"
  using assms
  by (auto simp: execute_descriptor_request_def server_store_ok_def Let_def
      split: option.splits if_splits prod.splits sum.splits intro: store_call_inv(1))

lemma descriptor_request_ok:
  assumes "server_store_ok sv" and "valid_str request"
    and "serve_descriptor_request env sv request = (k, sv', effects)"
  shows "server_store_ok sv'"
  using assms parse_descriptor_wf [OF _ assms(2)] execute_descriptor_ok [OF assms(1)]
  by (auto simp: serve_descriptor_request_def Let_def resolve_pending_ok promote_after_loss_ok
      split: option.splits prod.splits if_splits request_disposition.splits)

lemma recovery_command_ok:
  assumes "server_store_ok sv" and "valid_str command"
  shows "server_store_ok (snd (handle_recovery_command io sv command))"
proof (cases "sv_store sv")
  case (Some s)
  have inv: "store_inv s (sv_disk sv)" using assms(1) Some by (simp add: server_store_ok_def)
  have block: "store_inv s' d'"
    if "block_command io s (sv_disk sv) session args = (answer, s', d')" "\<forall>x \<in> set args. valid_str x"
    for session args answer s' d'
    using that inv
    by (auto simp: block_command_def split: list.splits option.splits prod.splits sum.splits
        intro: store_call_inv(4))
  have reconcile: "store_inv s' d'"
    if "reconcile_command io s (sv_disk sv) session args = (answer, s', d')" for session args answer s' d'
    using that inv
    by (auto simp: reconcile_command_def split: option.splits prod.splits sum.splits
        intro: store_call_inv(5))
  have ack: "store_inv s' d'"
    if "ack_command io s (sv_disk sv) session args = (answer, s', d')" for session args answer s' d'
    using that inv
    by (auto simp: ack_command_def split: list.splits option.splits prod.splits sum.splits
        intro: store_call_inv(6))
  have valid: "\<forall>x \<in> set args. valid_str x" if "split_on bar command = session # verb # args" for session verb args
    using split_by_valid [OF _ assms(2)] that by (metis list.set_intros(2))
  show ?thesis
    using Some inv block [OF _ valid] reconcile ack
    by (auto simp: handle_recovery_command_def Let_def server_store_ok_def
        split: list.splits prod.splits)
qed (simp add: handle_recovery_command_def server_store_ok_def split: list.split)

lemma serve_frame_ok:
  assumes "server_store_ok sv" and "valid_str payload"
    and "serve_frame env sid sv payload = (k, sv', effects)"
  shows "server_store_ok sv'"
proof -
  have hello: "server_store_ok sv'" if "serve_hello env sid sv protocol = (k, sv', effects)" for protocol
    using that assms(1) by (auto simp: serve_hello_def answered_def split: prod.splits sum.splits)
  have rec: "server_store_ok sv'"
    if "strip_prefix p payload = Some command"
      "(case handle_recovery_command io sv command of (answer, sv') \<Rightarrow> answered env sv' (f answer)) = (k, sv', effects)"
    for p io command and f :: "ustr \<Rightarrow> ustr"
    using that(2) recovery_command_ok [OF assms(1) strip_prefix_valid [OF that(1) assms(2)], of io]
    by (cases "handle_recovery_command io sv command") (auto simp: answered_def)
  have handoff: "server_store_ok sv'" if "serve_handoff env sv q = (k, sv', effects)" for q
    using that assms(1) by (auto simp: serve_handoff_def answered_def split: if_splits)
  have req: "server_store_ok sv'" if "serve_request env sv request = (k, sv', effects)" for request
    using that assms(1) by (auto simp: serve_request_def answered_def Let_def
        split: option.splits prod.splits if_splits request_disposition.splits)
  have reqx: "server_store_ok sv'"
    if "strip_prefix p payload = Some request" "serve_descriptor_request env sv request = (k, sv', effects)" for p request
    using that(2) descriptor_request_ok [OF assms(1) strip_prefix_valid [OF that(1) assms(2)]] by blast
  show ?thesis
    using assms(1,3) hello rec handoff req reqx by (auto simp: serve_frame_def split: option.splits)
qed

lemma serve_connection_ok:
  "serve_connection sid envs answers buffer sv = (sv', effects) \<Longrightarrow> server_store_ok sv \<Longrightarrow> server_store_ok sv'"
proof (induction sid envs answers buffer sv arbitrary: effects rule: serve_connection.induct)
  case (2 sid env envs answers buffer sv)
  show ?case
  proof (cases "\<exists>payload b as. read_frame_stop_aware answers buffer = Some (SR_Frame payload, b, as)")
    case True
    then obtain payload b as where r: "read_frame_stop_aware answers buffer = Some (SR_Frame payload, b, as)" by blast
    obtain k sv1 e where f: "serve_frame env sid sv payload = (k, sv1, e)" by (rule prod_cases3)
    have ok: "server_store_ok sv1" by (rule serve_frame_ok [OF 2(3) read_frame_valid [OF r] f])
    obtain sv2 later where l: "serve_connection sid envs as b sv1 = (sv2, later)" by (rule prod.exhaust)
    show ?thesis
    proof (cases k)
      case True
      then have "sv' = sv2" using 2(2) r f l by simp
      with 2(1) [OF r refl refl refl f [symmetric] refl True, of later] l ok show ?thesis by simp
    next
      case False
      with 2(2) r f ok show ?thesis by simp
    qed
  next
    case False
    with 2(2,3) show ?thesis by (auto split: option.splits prod.splits serve_read.splits)
  qed
qed simp

lemma listener_ok:
  "listener sid cs sv = (sv', effects) \<Longrightarrow> server_store_ok sv \<Longrightarrow> server_store_ok sv'"
proof (induction cs arbitrary: sv effects)
  case (Cons c cs)
  then show ?case
    by (auto split: prod.splits if_splits dest: serve_connection_ok)
qed simp

lemma reopen_exists:
  assumes "server_store_ok sv" and "sv_store sv = Some s" and "rs_poison s = None"
  shows "\<exists>s' d'. open_in c good_env (sv_disk sv) = (Some s', d')"
proof -
  obtain f where "dk_state (sv_disk sv) = Some f"
    using assms by (auto simp: server_store_ok_def store_inv_def mirrored_def)
  with open_existing_total [of c f] show ?thesis by (auto simp: open_in_def good_env_def ensure_directory_def)
qed

subsection \<open>An executed descriptor is covered\<close>

definition definitely_rejected :: "ledger_outcome \<Rightarrow> bool" where
  "definitely_rejected out \<longleftrightarrow> (\<exists>t. out = LO_Definite t \<and> starts_with (lit ''rejected:'') t)"

lemma uncertain_not_rejected: "uncertain_outcome out = (\<not> definitely_rejected out)"
  by (auto simp: uncertain_outcome_def definitely_rejected_def split: ledger_outcome.split)

text \<open>
  The intent that stands for a descriptor in the store: the descriptor itself, or the intent that is
  pending under its request id already, since \<open>begin_pending\<close> then adds nothing.
\<close>

definition stands_for :: "recovery_store \<Rightarrow> recovery_descriptor \<Rightarrow> recovery_descriptor \<Rightarrow> bool" where
  "stands_for s rd intent \<longleftrightarrow>
     (if \<exists>x \<in> set (rs_pending s). rd_request_id x = rd_request_id rd
      then intent \<in> set (rs_pending s) \<and> rd_request_id intent = rd_request_id rd
      else intent = rd)"

lemma begun_pending:
  assumes "begin_pending io s d rd = (Inr (), s1, d1)"
  shows "rs_poison s = None \<and> rs_registry s1 = rs_registry s \<and> rs_poison s1 = None \<and> rs_salt s1 = rs_salt s \<and>
    rs_pending s1 = (if \<exists>x \<in> set (rs_pending s). rd_request_id x = rd_request_id rd then rs_pending s
      else rs_pending s @ [rd])"
  using assms
  by (auto simp: begin_pending_def mutate_state_def begin_operation_def list_ex_iff Let_def
      split: option.splits sum.splits prod.splits if_splits)

lemma begun_then_promoted:
  assumes "store_inv s d" and "wf_descriptor rd" and "MAX_RECOVERY_ENTRIES \<le> rg_capacity (rs_registry s)"
    and "begin_pending io s d rd = (Inr (), s1, d1)"
    and "promote_pending io' s1 d1 sid (rd_request_id rd) = (res, s2, d2)"
  shows "store_inv s2 d2 \<and> rs_poison s2 = None \<and>
    (\<exists>intent. stands_for s rd intent \<and> store_knows s2 (rd_uri intent) (rd_expected intent))"
proof -
  note b = begun_pending [OF assms(4)]
  have i1: "store_inv s1 d1" by (rule store_call_inv(1) [OF assms(1,4,2)])
  have intent: "stands_for s rd x \<longleftrightarrow> x \<in> set (rs_pending s1) \<and> rd_request_id x = rd_request_id rd" for x
    using b by (auto simp: stands_for_def)
  have "\<exists>x \<in> set (rs_pending s1). rd_request_id x = rd_request_id rd" using b by auto
  moreover note m = mutate_state_cases [OF assms(5) [unfolded promote_pending_def] i1 preserving_promote]
  ultimately have "\<exists>x. stands_for s rd x \<and> store_knows s2 (rd_uri x) (rd_expected x)"
  proof (cases res)
    case (Inl err)
    with m have "s2 = s1" by simp
    with \<open>\<exists>x \<in> set (rs_pending s1). _ x\<close> intent show ?thesis by (auto simp: store_knows_def)
  next
    case (Inr x)
    have cap: "MAX_RECOVERY_ENTRIES \<le> rg_capacity (rs_registry s1)" using assms(3) b by simp
    from promote_keeps_intent [OF i1 cap assms(5) [unfolded Inr]] \<open>\<exists>x \<in> set (rs_pending s1). _ x\<close> intent
    show ?thesis by blast
  qed
  with m b show ?thesis by simp
qed

text \<open>A target the store does not know is not made known by promoting or clearing another intent.\<close>

lemma promote_operation_knows:
  assumes "promote_operation sid rid g p = (Inr x, g', p')" and "registry_inv g"
  shows "set p' \<subseteq> set p \<and>
    (\<forall>t \<in> set (registry_list g'). t \<in> set (registry_list g) \<or>
       (\<exists>rd \<in> set p. rd_request_id rd = rid \<and> bt_uri t = rd_uri rd \<and> bt_expected t = RT_Plain (rd_expected rd)))"
  using assms(1)
proof (cases rule: promote_operation_Inr)
  case (found i)
  let ?rd = "p ! i"
  obtain r where r: "registry_block g sid (rd_uri ?rd) (rd_expected ?rd) (rd_replacement ?rd) (rd_range ?rd)
      (rd_document_epoch ?rd) = (r, g')"
    using found by (metis prod.collapse)
  have inv': "registry_inv g'" using registry_block_inv [OF assms(2)] r by (metis snd_conv)
  have "t \<in> ran (rg_entries g) \<or> (bt_uri t = rd_uri ?rd \<and> bt_expected t = RT_Plain (rd_expected ?rd))"
    if "t \<in> ran (rg_entries g')" for t
    using that r by (auto simp: registry_block_def Let_def ran_def split: if_splits)
  moreover have "set p' \<subseteq> set p"
    using found(3) by (auto simp: remove_nth_def dest: in_set_takeD in_set_dropD)
  ultimately show ?thesis
    using registry_list_set [OF assms(2)] registry_list_set [OF inv'] nth_mem [OF found(1)] found(2) by blast
qed (use assms(1) in auto)

lemma settled_knows:
  assumes "store_inv s d" and "store_knows s' u e"
  shows "promote_pending io s d sid rid = (res, s', d') \<Longrightarrow> store_knows s u e"
    and "clear_pending io s d rid = (res', s', d'') \<Longrightarrow> store_knows s u e"
proof -
  show "store_knows s u e" if p: "promote_pending io s d sid rid = (res, s', d')"
  proof -
    note m = mutate_state_cases [OF p [unfolded promote_pending_def] assms(1) preserving_promote]
    show ?thesis
    proof (cases res)
      case (Inr x)
      with m assms(1) have "registry_inv (rs_registry s)" by (auto simp: store_inv_def wf_memory_def)
      with m Inr promote_operation_knows [of sid rid "rs_registry s" "rs_pending s" x "rs_registry s'" "rs_pending s'"]
      have "set (rs_pending s') \<subseteq> set (rs_pending s)" "rs_salt s' = rs_salt s"
        "\<forall>t \<in> set (registry_list (rs_registry s')). t \<in> set (registry_list (rs_registry s)) \<or>
          (\<exists>rd \<in> set (rs_pending s). rd_request_id rd = rid \<and> bt_uri t = rd_uri rd \<and> bt_expected t = RT_Plain (rd_expected rd))"
        by auto
      with assms(2) show ?thesis by (fastforce simp: store_knows_def text_matches_def)
    qed (use m assms(2) in simp)
  qed
  show "store_knows s u e" if p: "clear_pending io s d rid = (res', s', d'')"
    using assms(2) p
    by (auto simp: clear_pending_def mutate_state_def clear_operation_def store_knows_def Let_def
        split: option.splits sum.splits prod.splits if_splits)
qed

text \<open>What happened when a descriptor-carrying request reached the handler.\<close>

lemma executed_descriptor_facts:
  assumes "sv_store sv = Some s" and "parse_descriptor_request request = Some (session, rd, mode, c)"
    and "serve_descriptor_request env sv request = (k, sv', effects)" and "EF_Executed rid mode c \<in> set effects"
  obtains s1 d1 h where "rid = rd_request_id rd" "check_session (sv_endpoint sv) session = Inr ()"
    "h = snd (endpoint_record_with_recovery (sv_endpoint sv) rid c (fe_handler env rid mode c))"
    "begin_pending (fe_io_first env) s (sv_disk sv) rd = (Inr (), s1, d1)"
    "\<not> target_blocked s (rd_uri rd) (rd_expected rd)" "\<not> sv_lock_poisoned sv"
    "k \<and> definitely_rejected (fe_handler env rid mode c) \<and>
       sv_store sv' = Some (fst (snd (clear_pending (fe_io_second env) s1 d1 rid))) \<or>
     (case promote_pending (fe_io_second env) s1 d1 session rid of (_, s2, d2) \<Rightarrow>
       sv' = sv\<lparr>sv_endpoint := h, sv_store := Some s2, sv_disk := d2\<rparr>) \<and>
       (\<not> k \<or> \<not> definitely_rejected (fe_handler env rid mode c))"
proof -
  from descriptor_executed [OF assms(3,4)] assms(2)
  have id: "rid = rd_request_id rd" and session: "check_session (sv_endpoint sv) session = Inr ()"
    and fresh: "classify_request (sv_endpoint sv) (rd_request_id rd) c = RD_Fresh" by auto
  obtain out sv1 e1 where x: "execute_descriptor_request env sv rd mode c = (out, sv1, e1)" by (rule prod_cases3)
  have d: "serve_descriptor_request env sv request =
     (if write_frame env (outcome_payload out)
      then (True, resolve_pending (fe_io_second env) sv1 session (rd_request_id rd) out, e1 @ [reply env (outcome_payload out)])
      else (False, promote_after_loss (fe_io_second env) sv1 session (rd_request_id rd), e1 @ [reply env (outcome_payload out)]))"
    using session by (intro serve_descriptor_fresh [OF assms(2) _ fresh x]) simp
  have "EF_Executed rid mode c \<in> set e1" using assms(3,4) d by (auto split: if_splits)
  then obtain s1 d1 where b: "begin_pending (fe_io_first env) s (sv_disk sv) rd = (Inr (), s1, d1)"
    and nb: "\<not> target_blocked s (rd_uri rd) (rd_expected rd)" and lock: "\<not> sv_lock_poisoned sv"
    and o: "out = fe_handler env rid mode c"
    and sv1: "sv1 = sv\<lparr>sv_endpoint := snd (endpoint_record_with_recovery (sv_endpoint sv) rid c (fe_handler env rid mode c)),
      sv_store := Some s1, sv_disk := d1\<rparr>"
    using x assms(1) id
    by (auto simp: execute_descriptor_request_def Let_def split: if_splits prod.splits sum.splits)
  have promoted: "promote_after_loss (fe_io_second env) sv1 session rid =
      (case promote_pending (fe_io_second env) s1 d1 session rid of
         (_, s2, d2) \<Rightarrow> sv1\<lparr>sv_store := Some s2, sv_disk := d2\<rparr>)"
    using lock by (simp add: promote_after_loss_def sv1)
  have cleared: "sv_store (case clear_pending (fe_io_second env) s1 d1 rid of
      (_, s', d') \<Rightarrow> sv1\<lparr>sv_store := Some s', sv_disk := d'\<rparr>) = Some (fst (snd (clear_pending (fe_io_second env) s1 d1 rid)))"
    by (simp split: prod.split)
  have "k \<and> definitely_rejected (fe_handler env rid mode c) \<and>
       sv_store sv' = Some (fst (snd (clear_pending (fe_io_second env) s1 d1 rid))) \<or>
     sv' = promote_after_loss (fe_io_second env) sv1 session rid \<and>
       (\<not> k \<or> \<not> definitely_rejected (fe_handler env rid mode c))"
    using assms(3) d o lock cleared unfolding id [symmetric]
    by (auto simp: resolve_pending_def uncertain_not_rejected sv1 split: if_splits)
  then show thesis
    unfolding promoted by (intro that [OF id session refl b nb lock]) (auto simp: sv1 split: prod.splits)
qed

subsection \<open>A sample exchange\<close>

definition lost_env :: frame_env where
  "lost_env = quiet_env (LO_Ambiguous (lit ''lost''))"

definition sample_body :: "ustr \<Rightarrow> ustr" where
  "sample_body rid = lit ''s|'' @ rid @ lit ''|m|doc|0|4|test|rest|1|5|c''"

lemma sample_body_parses:
  assumes "bar \<notin> set rid" and "rid \<noteq> []"
  shows "parse_descriptor_request (sample_body rid) =
    Some (lit ''s'', sample_descriptor\<lparr>rd_request_id := rid\<rparr>, lit ''m'', lit ''c'')"
proof -
  let ?d = "sample_descriptor\<lparr>rd_request_id := rid\<rparr>"
  have digits: "show_u64 0 = lit ''0''" "show_u64 4 = lit ''4''" "show_u64 1 = lit ''1''" "show_u64 5 = lit ''5''"
    by (simp_all add: show_u64_def show_nat.simps)
  have "descriptor_payload (lit ''s'') ?d (lit ''m'') (lit ''c'') = lit ''REQX|'' @ sample_body rid"
    by (simp add: descriptor_payload_def sample_descriptor_def sample_body_def digits [simplified])
  moreover have "no_bar (descriptor_fields (lit ''s'') ?d (lit ''m''))"
    "\<forall>x \<in> set (lit ''c'' # descriptor_fields (lit ''s'') ?d (lit ''m'')). x \<noteq> []"
    using assms by (simp_all add: no_bar_def descriptor_fields_def sample_descriptor_def)
  ultimately show ?thesis
    using parse_descriptor_payload [of "lit ''s''" ?d "lit ''m''" "lit ''c''"]
    unfolding strip_prefix_append by (simp add: sample_descriptor_def strip_prefix_def)
qed

lemma sample_descriptor_r1: "sample_descriptor\<lparr>rd_request_id := lit ''r1''\<rparr> = sample_descriptor"
  by (simp add: sample_descriptor_def)

lemma sample_body_r1:
  "parse_descriptor_request (sample_body (lit ''r1'')) = Some (lit ''s'', sample_descriptor, lit ''m'', lit ''c'')"
  using sample_body_parses [of "lit ''r1''"] unfolding sample_descriptor_r1 by simp

lemma sample_body_valid: "valid_str rid \<Longrightarrow> valid_str (sample_body rid)"
  by (simp add: sample_body_def is_scalar_def)

lemma sample_body_r1_valid: "valid_str (sample_body (lit ''r1''))"
  by (rule sample_body_valid) (simp add: is_scalar_def)

lemma descriptor_executes:
  assumes "parse_descriptor_request request = Some (session, rd, mode, c)"
    and "\<not> isl (check_session (sv_endpoint sv) session)"
    and "classify_request (sv_endpoint sv) (rd_request_id rd) c = RD_Fresh"
    and "sv_store sv = Some s" and "\<not> sv_lock_poisoned sv" and "\<not> target_blocked s (rd_uri rd) (rd_expected rd)"
    and "begin_pending (fe_io_first env) s (sv_disk sv) rd = (Inr (), s1, d1)"
    and "fe_handler env (rd_request_id rd) mode c = out" and "write_frame env (outcome_payload out)"
    and "snd (endpoint_record_with_recovery (sv_endpoint sv) (rd_request_id rd) c out) = h"
  shows "serve_descriptor_request env sv request =
     (True, resolve_pending (fe_io_second env) (sv\<lparr>sv_endpoint := h, sv_store := Some s1, sv_disk := d1\<rparr>)
        session (rd_request_id rd) out, [EF_Executed (rd_request_id rd) mode c, EF_Sent (outcome_payload out)])"
proof -
  obtain r where h: "endpoint_record_with_recovery (sv_endpoint sv) (rd_request_id rd) c out = (r, h)"
    using assms(10) by (metis prod.collapse)
  have x: "execute_descriptor_request env sv rd mode c =
      (out, sv\<lparr>sv_endpoint := h, sv_store := Some s1, sv_disk := d1\<rparr>, [EF_Executed (rd_request_id rd) mode c])"
    using assms(4-8) h by (simp add: execute_descriptor_request_def)
  show ?thesis
    unfolding serve_descriptor_fresh [OF assms(1-3) x] using assms(9) h by (simp add: reply_def)
qed

lemma sample_served:
  assumes "store_inv (fresh_store 128) d"
  shows "\<exists>sv' s effects.
    serve_descriptor_request lost_env (welcomed 1 (Some (fresh_store 128)) d) (sample_body (lit ''r1'')) = (True, sv', effects) \<and>
    EF_Executed (lit ''r1'') (lit ''m'') (lit ''c'') \<in> set effects \<and> sv_store sv' = Some s \<and> rs_poison s = None \<and>
    store_knows s (lit ''doc'') (lit ''test'')"
proof -
  let ?sv = "welcomed 1 (Some (fresh_store 128)) d"
  let ?s1 = "fresh_store 128\<lparr>rs_pending := [sample_descriptor]\<rparr>"
  have rd: "rd_request_id sample_descriptor = lit ''r1''" "rd_uri sample_descriptor = lit ''doc''"
    "rd_expected sample_descriptor = lit ''test''" "wf_descriptor sample_descriptor"
    by (simp_all add: sample_descriptor_def wf_descriptor_def is_scalar_def)
  have fresh: "\<not> isl (check_session (sv_endpoint ?sv) (lit ''s''))"
    "classify_request (sv_endpoint ?sv) (rd_request_id sample_descriptor) (lit ''c'') = RD_Fresh"
    by (simp_all add: check_session_def classify_request_def ledger_classify_def welcomed_def)
  obtain d1 where b: "begin_pending good_io (fresh_store 128) d sample_descriptor = (Inr (), ?s1, d1)"
    using begin_good [of 128] by auto
  have env: "fe_io_first lost_env = good_io" "fe_io_second lost_env = good_io"
    "fe_handler lost_env rid mode c = LO_Ambiguous (lit ''lost'')" for rid mode c
    by (simp_all add: lost_env_def quiet_env_def)
  have sv: "sv_store ?sv = Some (fresh_store 128)" "\<not> sv_lock_poisoned ?sv" "sv_disk ?sv = d"
    "\<not> target_blocked (fresh_store 128) u e" for u e
    by (simp_all add: welcomed_def target_blocked_def fresh_store_def is_blocked_def resolve_key_def)
  obtain res s2 d2 where p: "promote_pending good_io ?s1 d1 (lit ''s'') (rd_request_id sample_descriptor) = (res, s2, d2)"
    by (rule prod_cases3)
  have cap: "MAX_RECOVERY_ENTRIES \<le> rg_capacity (rs_registry (fresh_store 128))"
    by (simp add: fresh_store_def MAX_RECOVERY_ENTRIES_def)
  have own: "stands_for (fresh_store 128) sample_descriptor x \<longleftrightarrow> x = sample_descriptor" for x
    by (simp add: stands_for_def fresh_store_def)
  note t = begun_then_promoted [OF assms rd(4) cap b p, unfolded own]
  have w: "write_frame lost_env (outcome_payload (LO_Ambiguous (lit ''lost'')))"
    by (simp add: write_frame_def encode_frame_def utf8_char_def MAX_FRAME_BYTES_def quiet_env_def lost_env_def
        outcome_payload_def)
  have b': "begin_pending (fe_io_first lost_env) (fresh_store 128) (sv_disk ?sv) sample_descriptor = (Inr (), ?s1, d1)"
    using b env(1) sv(3) by simp
  from descriptor_executes [OF sample_body_r1 fresh sv(1,2,4) b' env(3) w refl] t p sv(2)
  show ?thesis
    by (auto simp: resolve_pending_def promote_after_loss_def uncertain_outcome_def env rd)
qed

text \<open>
  C15. The preflight and the intent it stores.  Take a store opened with at least the default
  capacity, and a descriptor-carrying request that reached the handler.  Then the store was usable
  and the target not blocked, and afterwards either a definite rejection was delivered to the
  client, or the intent that stands for the descriptor is covered: the store knows its target and
  any store opened on the state file blocks it, whether or not the reply arrived and whether or not
  the promotion could be written.  That intent is the descriptor itself unless an earlier intent is
  still pending under the same request id; then the earlier one stands for it, and a new target
  that the store did not know stays unknown: the request was executed uncovered.
\<close>

theorem executed_descriptor_covered:
  assumes "server_store_ok sv" and "sv_store sv = Some s" and "MAX_RECOVERY_ENTRIES \<le> rg_capacity (rs_registry s)"
    and "valid_str request" and "parse_descriptor_request request = Some (session, rd, mode, c)"
    and "serve_descriptor_request env sv request = (k, sv', effects)"
    and "EF_Executed rid mode c \<in> set effects"
  shows "rs_poison s = None \<and> \<not> target_blocked s (rd_uri rd) (rd_expected rd) \<and>
    (k \<and> definitely_rejected (fe_handler env rid mode c) \<or>
     (\<exists>s' intent. sv_store sv' = Some s' \<and> stands_for s rd intent \<and> store_knows s' (rd_uri intent) (rd_expected intent) \<and>
        (\<forall>c' env' s'' d''. oe_readable env' \<longrightarrow> open_in c' env' (sv_disk sv') = (Some s'', d'') \<longrightarrow>
           target_blocked s'' (rd_uri intent) (rd_expected intent)))) \<and>
    ((\<exists>x \<in> set (rs_pending s). rd_request_id x = rd_request_id rd) \<and> \<not> store_knows s (rd_uri rd) (rd_expected rd) \<longrightarrow>
     (\<exists>s'. sv_store sv' = Some s' \<and> \<not> store_knows s' (rd_uri rd) (rd_expected rd)))"
proof -
  obtain s1 d1 h where id: "rid = rd_request_id rd"
    and b: "begin_pending (fe_io_first env) s (sv_disk sv) rd = (Inr (), s1, d1)"
    and nb: "\<not> target_blocked s (rd_uri rd) (rd_expected rd)"
    and after: "k \<and> definitely_rejected (fe_handler env rid mode c) \<and>
       sv_store sv' = Some (fst (snd (clear_pending (fe_io_second env) s1 d1 rid))) \<or>
     (case promote_pending (fe_io_second env) s1 d1 session rid of (_, s2, d2) \<Rightarrow>
       sv' = sv\<lparr>sv_endpoint := h, sv_store := Some s2, sv_disk := d2\<rparr>) \<and>
       (\<not> k \<or> \<not> definitely_rejected (fe_handler env rid mode c))"
    by (rule executed_descriptor_facts [OF assms(2,5-7)])
  have inv: "store_inv s (sv_disk sv)" using assms(1,2) by (simp add: server_store_ok_def)
  have wf: "wf_descriptor rd" by (rule parse_descriptor_wf [OF assms(5,4)])
  have i1: "store_inv s1 d1" by (rule store_call_inv(1) [OF inv b wf])
  obtain res s2 d2 where p: "promote_pending (fe_io_second env) s1 d1 session (rd_request_id rd) = (res, s2, d2)"
    by (rule prod_cases3)
  obtain x3 s3 d3 where cl: "clear_pending (fe_io_second env) s1 d1 (rd_request_id rd) = (x3, s3, d3)"
    by (rule prod_cases3)
  have settled: "k \<and> definitely_rejected (fe_handler env rid mode c) \<and> sv_store sv' = Some s3 \<or>
      sv_store sv' = Some s2 \<and> sv_disk sv' = d2"
    using after p cl by (auto simp: id)
  note t = begun_then_promoted [OF inv wf assms(3) b p]
  obtain intent where intent: "stands_for s rd intent" "store_knows s2 (rd_uri intent) (rd_expected intent)"
    using t by blast
  note blocks = reopen_blocks [of s2 d2 "rd_uri intent" "rd_expected intent"]
  have "rs_poison s = None" using begun_pending [OF b] by simp
  moreover have "k \<and> definitely_rejected (fe_handler env rid mode c) \<or>
     (\<exists>s' intent. sv_store sv' = Some s' \<and> stands_for s rd intent \<and> store_knows s' (rd_uri intent) (rd_expected intent) \<and>
        (\<forall>c' env' s'' d''. oe_readable env' \<longrightarrow> open_in c' env' (sv_disk sv') = (Some s'', d'') \<longrightarrow>
           target_blocked s'' (rd_uri intent) (rd_expected intent)))"
    using settled
  proof
    assume sv': "sv_store sv' = Some s2 \<and> sv_disk sv' = d2"
    have "\<forall>c' env' s'' d''. oe_readable env' \<longrightarrow> open_in c' env' (sv_disk sv') = (Some s'', d'') \<longrightarrow>
           target_blocked s'' (rd_uri intent) (rd_expected intent)"
      using blocks t intent(2) sv' by auto
    with intent sv' show ?thesis by (intro disjI2 exI [of _ s2] exI [of _ intent]) simp
  qed blast
  moreover have "\<exists>s'. sv_store sv' = Some s' \<and> \<not> store_knows s' (rd_uri rd) (rd_expected rd)"
    if reused: "\<exists>x \<in> set (rs_pending s). rd_request_id x = rd_request_id rd" and un: "\<not> store_knows s (rd_uri rd) (rd_expected rd)"
  proof -
    have "\<not> store_knows s1 (rd_uri rd) (rd_expected rd)"
      using begun_pending [OF b] reused un by (simp add: store_knows_def)
    then have "\<not> store_knows s2 (rd_uri rd) (rd_expected rd)" "\<not> store_knows s3 (rd_uri rd) (rd_expected rd)"
      using settled_knows(1) [OF i1 _ p] settled_knows(2) [OF i1 _ cl] by blast+
    with settled show ?thesis by auto
  qed
  ultimately show ?thesis using nb by blast
qed

lemma executed_descriptor_covered_witness:
  "\<exists>d sv' s' s'' d'' effects.
    serve_descriptor_request lost_env (welcomed 1 (Some (fresh_store 128)) d) (sample_body (lit ''r1'')) = (True, sv', effects) \<and>
    sv_store sv' = Some s' \<and> store_knows s' (lit ''doc'') (lit ''test'') \<and>
    open_in 128 good_env (sv_disk sv') = (Some s'', d'') \<and> target_blocked s'' (lit ''doc'') (lit ''test'')"
proof -
  obtain bs where o: "open_in 128 good_env no_disk = (Some (fresh_store 128), \<lparr>dk_state = Some bs, dk_temp = None\<rparr>)"
    using open_good [of 128] by auto
  let ?d = "\<lparr>dk_state = Some bs, dk_temp = None\<rparr>"
  let ?sv = "welcomed 1 (Some (fresh_store 128)) ?d"
  note inv = open_in_inv [OF o]
  obtain sv' s effects where x: "serve_descriptor_request lost_env ?sv (sample_body (lit ''r1'')) = (True, sv', effects)"
    "EF_Executed (lit ''r1'') (lit ''m'') (lit ''c'') \<in> set effects" "sv_store sv' = Some s" "rs_poison s = None"
    using sample_served [OF inv] by blast
  have ok: "server_store_ok ?sv" "sv_store ?sv = Some (fresh_store 128)"
    using inv by (simp_all add: server_store_ok_def welcomed_def)
  have cap: "MAX_RECOVERY_ENTRIES \<le> rg_capacity (rs_registry (fresh_store 128))"
    by (simp add: fresh_store_def MAX_RECOVERY_ENTRIES_def)
  have own: "stands_for (fresh_store 128) sample_descriptor x \<longleftrightarrow> x = sample_descriptor" for x
    by (simp add: stands_for_def fresh_store_def)
  have "\<not> definitely_rejected (fe_handler lost_env (lit ''r1'') (lit ''m'') (lit ''c''))"
    by (simp add: lost_env_def quiet_env_def definitely_rejected_def)
  then obtain s' intent where i: "sv_store sv' = Some s'" "stands_for (fresh_store 128) sample_descriptor intent"
      "store_knows s' (rd_uri intent) (rd_expected intent)"
      "\<forall>c' env' s'' d''. oe_readable env' \<longrightarrow> open_in c' env' (sv_disk sv') = (Some s'', d'') \<longrightarrow>
        target_blocked s'' (rd_uri intent) (rd_expected intent)"
    using executed_descriptor_covered [OF ok cap sample_body_r1_valid sample_body_r1 x(1,2)] by blast
  have target: "rd_uri intent = lit ''doc''" "rd_expected intent = lit ''test''" "s' = s"
    using i(1,2) own x(3) by (simp_all add: sample_descriptor_def)
  have k: "store_knows s (lit ''doc'') (lit ''test'')"
    and blocks: "\<And>c' env' s'' d''. oe_readable env' \<Longrightarrow> open_in c' env' (sv_disk sv') = (Some s'', d'') \<Longrightarrow>
      target_blocked s'' (lit ''doc'') (lit ''test'')"
    using i(3,4) unfolding target by blast+
  obtain s'' d'' where o': "open_in 128 good_env (sv_disk sv') = (Some s'', d'')"
    using reopen_exists [OF descriptor_request_ok [OF ok(1) sample_body_r1_valid x(1)] x(3,4)] by blast
  have "oe_readable good_env" by (simp add: good_env_def)
  from blocks [OF this o'] x(1,3) k o' show ?thesis by blast
qed

text \<open>
  C17. A restart of the endpoint is never clean: open the store, start the server on it and serve any
  connections with any frames, any disk answers and any losses.  If the store is usable, then every
  target that it knows as blocked or pending at the end is blocked in whatever store is opened on
  the readable state file afterwards.
\<close>

theorem endpoint_restart_never_clean:
  assumes "open_in c env d0 = (Some s0, d1)" and "spawn_server capacity (Some s0) d1 = Inr sv0"
    and "listener sid cs sv0 = (sv, effects)"
    and "sv_store sv = Some s" and "rs_poison s = None" and "store_knows s uri e"
    and "oe_readable env'" and "open_in c' env' (sv_disk sv) = (Some s', d')"
  shows "target_blocked s' uri e \<and> d' = sv_disk sv"
proof -
  have "server_store_ok sv0"
    using assms(2) open_in_inv [OF assms(1)]
    by (cases "endpoint_new capacity") (auto simp: spawn_server_def server_store_ok_def)
  from listener_ok [OF assms(3) this] assms(4) have "store_inv s (sv_disk sv)" by (simp add: server_store_ok_def)
  from reopen_blocks [OF this assms(5-8)] show ?thesis .
qed

lemma endpoint_restart_never_clean_witness:
  "\<exists>d0 s0 d1 sv0 sv effects s' d'. open_in 128 good_env d0 = (Some s0, d1) \<and> spawn_server 1 (Some s0) d1 = Inr sv0 \<and>
     listener (lit ''s'') [hello_connection, one_frame lost_env (lit ''REQX|'' @ sample_body (lit ''r1''))] sv0 = (sv, effects) \<and>
     open_in 128 good_env (sv_disk sv) = (Some s', d') \<and> target_blocked s' (lit ''doc'') (lit ''test'')"
proof -
  obtain bs where o: "open_in 128 good_env no_disk = (Some (fresh_store 128), \<lparr>dk_state = Some bs, dk_temp = None\<rparr>)"
    using open_good [of 128] by auto
  let ?d = "\<lparr>dk_state = Some bs, dk_temp = None\<rparr>"
  let ?sv = "welcomed 1 (Some (fresh_store 128)) ?d"
  obtain sv0 where 1: "spawn_server 1 (Some (fresh_store 128)) ?d = Inr sv0"
    "listener (lit ''s'') [hello_connection] sv0 = (?sv, [EF_Sent (lit ''WELCOME|s'')])"
    using hello_served [of 1] by auto
  note inv = open_in_inv [OF o]
  obtain sv s effects where x: "serve_descriptor_request lost_env ?sv (sample_body (lit ''r1'')) = (True, sv, effects)"
    "sv_store sv = Some s" "rs_poison s = None" "store_knows s (lit ''doc'') (lit ''test'')"
    using sample_served [OF inv] by blast
  have "serve_frame lost_env (lit ''s'') ?sv (lit ''REQX|'' @ sample_body (lit ''r1'')) = (True, sv, effects)"
    unfolding serve_frame_def strip_prefix_append option.case x(1) by (simp add: strip_prefix_def)
  then have "listener (lit ''s'') [one_frame lost_env (lit ''REQX|'' @ sample_body (lit ''r1''))] ?sv = (sv, effects)"
    by (intro one_frame_served)
      (simp_all add: sample_body_def is_scalar_def encode_frame_def utf8_char_def MAX_FRAME_BYTES_def)
  then have l: "listener (lit ''s'') [hello_connection, one_frame lost_env (lit ''REQX|'' @ sample_body (lit ''r1''))] sv0 =
      (sv, EF_Sent (lit ''WELCOME|s'') # effects)"
    using 1(2) by (auto simp: hello_connection_def one_frame_def split: prod.splits if_splits)
  have ok: "server_store_ok ?sv" using inv by (simp add: server_store_ok_def welcomed_def)
  obtain s' d' where o': "open_in 128 good_env (sv_disk sv) = (Some s', d')"
    using reopen_exists [OF descriptor_request_ok [OF ok sample_body_r1_valid x(1)] x(2,3)] by blast
  have "oe_readable good_env" by (simp add: good_env_def)
  from endpoint_restart_never_clean [OF o 1(1) l x(2-4) this o'] o 1 l o' show ?thesis by blast
qed

subsection \<open>When the promotion cannot be written\<close>

definition failing_io :: write_io where
  "failing_io = good_io\<lparr>wi_security := False\<rparr>"

lemma failing_write:
  assumes "\<forall>d bs. \<not> fst (durable_write_user_only io d bs)" and "mutate_state io operation s d = (res, s', d')"
  shows "s' = s"
proof -
  have "\<not> ok" if "durable_write_user_only io d bs = (ok, d'')" for bs ok d''
    using assms(1) that by (metis fst_conv)
  with assms(2) show ?thesis
    by (auto simp: mutate_state_def Let_def split: option.splits sum.splits prod.splits if_splits)
qed

lemma failing_io_write: "durable_write_user_only failing_io d bs = (False, d)"
  by (simp add: durable_write_user_only_def failing_io_def)

lemma failing_io_mutates: "mutate_state failing_io operation s d = (res, s', d') \<Longrightarrow> s' = s \<and> d' = d"
  by (auto simp: mutate_state_def failing_io_write split: option.splits sum.splits prod.splits)

text \<open>The server after an uncertain outcome whose promotion could not be written.\<close>

definition lost_outcome :: ledger_outcome where
  "lost_outcome = LO_Ambiguous (lit ''lost'')"

definition lost_server :: "disk \<Rightarrow> server" where
  "lost_server d =
     (welcomed 1 (Some (fresh_store 128)) no_disk)
       \<lparr>sv_endpoint := snd (endpoint_record_with_recovery (sv_endpoint (welcomed 1 (Some (fresh_store 128)) no_disk))
          (lit ''r1'') (lit ''c'') lost_outcome),
        sv_store := Some (fresh_store 128\<lparr>rs_pending := [sample_descriptor]\<rparr>), sv_disk := d\<rparr>"

lemmas lost_ledger = check_session_def classify_request_def ledger_classify_def endpoint_record_with_recovery_def
  ledger_record_with_recovery_def record_inner_def ledger_push_def evictable_def is_ambiguous_def welcomed_def

lemma lost_facts:
  "outcome_payload lost_outcome = lit ''RESULT|AMBIGUOUS|lost''"
  "write_frame lost_env (outcome_payload lost_outcome)"
  "write_frame (lost_env\<lparr>fe_io_second := failing_io\<rparr>) (outcome_payload lost_outcome)"
  "fe_handler lost_env rid mode c = lost_outcome"
  "fe_io_first lost_env = good_io"
  "rd_request_id sample_descriptor = lit ''r1''"
proof -
  have p: "outcome_payload lost_outcome = lit ''RESULT|AMBIGUOUS|lost''"
    by (simp add: outcome_payload_def lost_outcome_def)
  then show "outcome_payload lost_outcome = lit ''RESULT|AMBIGUOUS|lost''" .
  show "write_frame lost_env (outcome_payload lost_outcome)"
    "write_frame (lost_env\<lparr>fe_io_second := failing_io\<rparr>) (outcome_payload lost_outcome)"
    unfolding p by (simp_all add: write_frame_def encode_frame_def utf8_char_def MAX_FRAME_BYTES_def quiet_env_def lost_env_def)
qed (simp_all add: lost_env_def quiet_env_def lost_outcome_def sample_descriptor_def)

lemma open_target:
  "s = fresh_store 128 \<or> s = fresh_store 128\<lparr>rs_pending := pending\<rparr> \<Longrightarrow> \<not> target_blocked s uri expected"
  by (auto simp: target_blocked_def fresh_store_def is_blocked_def resolve_key_def)

lemma lost_request_stays_pending:
  "\<exists>d. serve_descriptor_request (lost_env\<lparr>fe_io_second := failing_io\<rparr>) (welcomed 1 (Some (fresh_store 128)) no_disk)
      (sample_body (lit ''r1'')) =
    (True, lost_server d, [EF_Executed (lit ''r1'') (lit ''m'') (lit ''c''), EF_Sent (lit ''RESULT|AMBIGUOUS|lost'')])"
proof -
  let ?env = "lost_env\<lparr>fe_io_second := failing_io\<rparr>"
  let ?sv = "welcomed 1 (Some (fresh_store 128)) no_disk"
  let ?s1 = "fresh_store 128\<lparr>rs_pending := [sample_descriptor]\<rparr>"
  have env: "fe_io_second ?env = failing_io" "fe_handler ?env rid mode c = lost_outcome" for rid mode c
    using lost_facts(4) by simp_all
  obtain d where "begin_pending good_io (fresh_store 128) (sv_disk ?sv) sample_descriptor = (Inr (), ?s1, d)"
    using begin_good [of 128] by auto
  then have b: "begin_pending (fe_io_first ?env) (fresh_store 128) (sv_disk ?sv) sample_descriptor = (Inr (), ?s1, d)"
    using lost_facts(5) by simp
  have first: "\<not> isl (check_session (sv_endpoint ?sv) (lit ''s''))"
    "classify_request (sv_endpoint ?sv) (rd_request_id sample_descriptor) (lit ''c'') = RD_Fresh"
    "sv_store ?sv = Some (fresh_store 128)" "\<not> sv_lock_poisoned ?sv"
    by (simp_all add: lost_ledger)
  obtain res s' d' where p: "promote_pending failing_io ?s1 d (lit ''s'') (lit ''r1'') = (res, s', d')"
    by (rule prod_cases3)
  then have "s' = ?s1 \<and> d' = d" unfolding promote_pending_def by (rule failing_io_mutates)
  then have kept: "resolve_pending failing_io (lost_server d) (lit ''s'') (lit ''r1'') lost_outcome = lost_server d"
    using p first(4) by (simp add: lost_server_def lost_outcome_def resolve_pending_def uncertain_outcome_def promote_after_loss_def)
  show ?thesis
    using descriptor_executes [OF sample_body_r1 first open_target [OF disjI1 [OF refl]] b env(2) lost_facts(3) refl]
    unfolding env(1) lost_facts(1,6) kept [unfolded lost_server_def] lost_server_def by blast
qed

lemma retried_begins:
  "\<exists>d'. begin_pending (fe_io_first lost_env) (fresh_store 128\<lparr>rs_pending := [sample_descriptor]\<rparr>) (sv_disk (lost_server d))
      (sample_descriptor\<lparr>rd_request_id := lit ''r2''\<rparr>) =
    (Inr (), fresh_store 128\<lparr>rs_pending := [sample_descriptor, sample_descriptor\<lparr>rd_request_id := lit ''r2''\<rparr>]\<rparr>, d')"
proof -
  let ?rd = "sample_descriptor\<lparr>rd_request_id := lit ''r2''\<rparr>"
  obtain bs where bs: "encode_state (replicate 16 7)
      [pending_record (replicate 16 7) sample_descriptor, pending_record (replicate 16 7) ?rd] = Inr bs"
    by (simp add: encode_state_def encode_record_def sample_descriptor_def pending_record_def MAX_URI_BYTES_def
        MAX_REQUEST_ID_BYTES_def MAX_RECOVERY_ENTRIES_def MAX_RECOVERY_STATE_BYTES_def kind_bytes_def
        SALT_BYTES_def utf8_char_def Let_def)
  show ?thesis
    unfolding lost_facts(5) using bs good_write [of bs d] encoded_size [OF bs] lost_facts(6)
    by (auto simp: begin_pending_def mutate_state_def begin_operation_def fresh_store_def snapshot_records_def
        registry_list_def map_filter_simps lost_server_def)
qed

lemma retried_request_executes:
  "\<exists>sv'. serve_descriptor_request lost_env (lost_server d) (sample_body (lit ''r2'')) =
    (True, sv', [EF_Executed (lit ''r2'') (lit ''m'') (lit ''c''), EF_Sent (lit ''RESULT|AMBIGUOUS|lost'')])"
proof -
  let ?rd = "sample_descriptor\<lparr>rd_request_id := lit ''r2''\<rparr>"
  let ?s1 = "fresh_store 128\<lparr>rs_pending := [sample_descriptor]\<rparr>"
  have id: "rd_request_id ?rd = lit ''r2''" by simp
  have parse: "parse_descriptor_request (sample_body (lit ''r2'')) = Some (lit ''s'', ?rd, lit ''m'', lit ''c'')"
    by (rule sample_body_parses) simp_all
  have second: "\<not> isl (check_session (sv_endpoint (lost_server d)) (lit ''s''))"
    "classify_request (sv_endpoint (lost_server d)) (rd_request_id ?rd) (lit ''c'') = RD_Fresh"
    "sv_store (lost_server d) = Some ?s1" "\<not> sv_lock_poisoned (lost_server d)"
    unfolding id by (simp_all add: lost_ledger lost_server_def lost_outcome_def)
  obtain d' where b: "begin_pending (fe_io_first lost_env) ?s1 (sv_disk (lost_server d)) ?rd =
      (Inr (), ?s1\<lparr>rs_pending := [sample_descriptor, ?rd]\<rparr>, d')"
    using retried_begins [of d] by auto
  show ?thesis
    using descriptor_executes [OF parse second open_target [OF disjI2 [OF refl]] b lost_facts(4,2) refl]
    unfolding id lost_facts(1) by blast
qed

text \<open>
  C20. A failed promotion leaves the target open.  Suppose a descriptor-carrying request was executed, its
  outcome is uncertain or its answer was lost, and the promotion cannot be written.  Then the intent
  that stands for it is still pending, but its target is not blocked; and every further request of
  the session for the same target that is new to the ledger and passes the preflight is executed
  as well, although the outcome of the first one is unknown.
\<close>

theorem failed_promotion_reexecutes_target:
  assumes "sv_store sv = Some s" and "parse_descriptor_request request = Some (session, rd, mode, c)"
    and "serve_descriptor_request env sv request = (k, sv1, effects)" and "EF_Executed rid mode c \<in> set effects"
    and "uncertain_outcome (fe_handler env rid mode c) \<or> \<not> k"
    and "\<forall>d bs. \<not> fst (durable_write_user_only (fe_io_second env) d bs)"
  shows "\<exists>s1 intent. sv_store sv1 = Some s1 \<and> stands_for s rd intent \<and> intent \<in> set (rs_pending s1) \<and>
    \<not> target_blocked s1 (rd_uri rd) (rd_expected rd) \<and>
    (\<forall>request' rd' mode' c' env' k' sv' effects'.
       parse_descriptor_request request' = Some (session, rd', mode', c') \<and>
       rd_uri rd' = rd_uri rd \<and> rd_expected rd' = rd_expected rd \<and>
       classify_request (sv_endpoint sv1) (rd_request_id rd') c' = RD_Fresh \<and>
       fst (begin_pending (fe_io_first env') s1 (sv_disk sv1) rd') = Inr () \<and>
       serve_descriptor_request env' sv1 request' = (k', sv', effects') \<longrightarrow>
       EF_Executed (rd_request_id rd') mode' c' \<in> set effects')"
proof -
  obtain s1 d1 h where id: "rid = rd_request_id rd" and session: "check_session (sv_endpoint sv) session = Inr ()"
    and h: "h = snd (endpoint_record_with_recovery (sv_endpoint sv) rid c (fe_handler env rid mode c))"
    and b: "begin_pending (fe_io_first env) s (sv_disk sv) rd = (Inr (), s1, d1)"
    and nb: "\<not> target_blocked s (rd_uri rd) (rd_expected rd)" and lock: "\<not> sv_lock_poisoned sv"
    and after: "k \<and> definitely_rejected (fe_handler env rid mode c) \<and>
       sv_store sv1 = Some (fst (snd (clear_pending (fe_io_second env) s1 d1 rid))) \<or>
     (case promote_pending (fe_io_second env) s1 d1 session rid of (_, s2, d2) \<Rightarrow>
       sv1 = sv\<lparr>sv_endpoint := h, sv_store := Some s2, sv_disk := d2\<rparr>) \<and>
       (\<not> k \<or> \<not> definitely_rejected (fe_handler env rid mode c))"
    by (rule executed_descriptor_facts [OF assms(1-4)])
  obtain res s2 d2 where p: "promote_pending (fe_io_second env) s1 d1 session rid = (res, s2, d2)" by (rule prod_cases3)
  with assms(6) have "s2 = s1" unfolding promote_pending_def by (rule failing_write)
  then have sv1: "sv1 = sv\<lparr>sv_endpoint := h, sv_store := Some s1, sv_disk := d2\<rparr>"
    using after assms(5) p uncertain_not_rejected by auto
  note begun = begun_pending [OF b]
  have open1: "\<not> target_blocked s1 (rd_uri rd) (rd_expected rd)"
    using begun nb by (auto simp: target_blocked_def split: option.splits)
  obtain intent where intent: "stands_for s rd intent" "intent \<in> set (rs_pending s1)"
    using begun by (auto simp: stands_for_def split: if_splits)
  have same_session: "check_session h session = Inr ()"
    using session unfolding h
    by (simp add: check_session_def endpoint_record_with_recovery_def split: option.splits if_splits prod.split)
  have "EF_Executed (rd_request_id rd') mode' c' \<in> set effects'"
    if p': "parse_descriptor_request request' = Some (session, rd', mode', c')"
      and t: "rd_uri rd' = rd_uri rd" "rd_expected rd' = rd_expected rd"
      and fresh: "classify_request (sv_endpoint sv1) (rd_request_id rd') c' = RD_Fresh"
      and b': "fst (begin_pending (fe_io_first env') s1 (sv_disk sv1) rd') = Inr ()"
      and serve: "serve_descriptor_request env' sv1 request' = (k', sv', effects')"
    for request' rd' mode' c' env' k' sv' effects'
  proof -
    obtain s3 d3 where b3: "begin_pending (fe_io_first env') s1 (sv_disk sv1) rd' = (Inr (), s3, d3)"
      using b' by (metis prod.collapse)
    obtain out sv3 where x: "execute_descriptor_request env' sv1 rd' mode' c' =
        (out, sv3, [EF_Executed (rd_request_id rd') mode' c'])"
      using b3 lock open1 t
      by (cases "endpoint_record_with_recovery h (rd_request_id rd') c' (fe_handler env' (rd_request_id rd') mode' c')")
        (auto simp: execute_descriptor_request_def sv1)
    have "\<not> isl (check_session (sv_endpoint sv1) session)" using same_session by (simp add: sv1)
    from serve_descriptor_fresh [OF p' this fresh x] serve show ?thesis by (auto split: if_splits)
  qed
  then show ?thesis using intent open1 by (intro exI [of _ s1] exI [of _ intent]) (auto simp: sv1)
qed

lemma failed_promotion_reexecutes_target_witness:
  "\<exists>d sv1 s1 sv2 e2. serve_descriptor_request (lost_env\<lparr>fe_io_second := failing_io\<rparr>)
       (welcomed 1 (Some (fresh_store 128)) no_disk) (sample_body (lit ''r1'')) = (True, sv1, d) \<and>
     sv_store sv1 = Some s1 \<and> sample_descriptor \<in> set (rs_pending s1) \<and>
     \<not> target_blocked s1 (lit ''doc'') (lit ''test'') \<and>
     serve_descriptor_request lost_env sv1 (sample_body (lit ''r2'')) = (True, sv2, e2) \<and>
     EF_Executed (lit ''r2'') (lit ''m'') (lit ''c'') \<in> set e2"
proof -
  let ?env = "lost_env\<lparr>fe_io_second := failing_io\<rparr>" and ?sv = "welcomed 1 (Some (fresh_store 128)) no_disk"
  obtain d where first: "serve_descriptor_request ?env ?sv (sample_body (lit ''r1'')) =
    (True, lost_server d, [EF_Executed (lit ''r1'') (lit ''m'') (lit ''c''), EF_Sent (lit ''RESULT|AMBIGUOUS|lost'')])"
    using lost_request_stays_pending by blast
  have store: "sv_store ?sv = Some (fresh_store 128)" by (simp add: welcomed_def)
  have own: "stands_for (fresh_store 128) sample_descriptor x \<longleftrightarrow> x = sample_descriptor" for x
    by (simp add: stands_for_def fresh_store_def)
  have "uncertain_outcome (fe_handler ?env (lit ''r1'') (lit ''m'') (lit ''c''))"
    using lost_facts(4) by (simp add: uncertain_outcome_def lost_outcome_def)
  moreover have "\<forall>d bs. \<not> fst (durable_write_user_only (fe_io_second ?env) d bs)"
    by (simp add: durable_write_user_only_def failing_io_def)
  ultimately obtain s1 where s1: "sv_store (lost_server d) = Some s1" "sample_descriptor \<in> set (rs_pending s1)"
      "\<not> target_blocked s1 (lit ''doc'') (lit ''test'')"
    and again: "\<And>request' rd' mode' c' env' k' sv' effects'.
       parse_descriptor_request request' = Some (lit ''s'', rd', mode', c') \<and>
       rd_uri rd' = rd_uri sample_descriptor \<and> rd_expected rd' = rd_expected sample_descriptor \<and>
       classify_request (sv_endpoint (lost_server d)) (rd_request_id rd') c' = RD_Fresh \<and>
       fst (begin_pending (fe_io_first env') s1 (sv_disk (lost_server d)) rd') = Inr () \<and>
       serve_descriptor_request env' (lost_server d) request' = (k', sv', effects') \<Longrightarrow>
       EF_Executed (rd_request_id rd') mode' c' \<in> set effects'"
    using failed_promotion_reexecutes_target [OF store sample_body_r1 first] unfolding own
    by (auto simp: sample_descriptor_def)
  let ?rd = "sample_descriptor\<lparr>rd_request_id := lit ''r2''\<rparr>"
  have rd: "rd_request_id ?rd = lit ''r2''" "rd_uri ?rd = rd_uri sample_descriptor"
    "rd_expected ?rd = rd_expected sample_descriptor" by simp_all
  have parse: "parse_descriptor_request (sample_body (lit ''r2'')) = Some (lit ''s'', ?rd, lit ''m'', lit ''c'')"
    by (rule sample_body_parses) simp_all
  have fresh: "classify_request (sv_endpoint (lost_server d)) (rd_request_id ?rd) (lit ''c'') = RD_Fresh"
    unfolding rd by (simp add: lost_ledger lost_server_def lost_outcome_def)
  obtain s2 d2 where b: "begin_pending (fe_io_first lost_env) (fresh_store 128\<lparr>rs_pending := [sample_descriptor]\<rparr>)
      (sv_disk (lost_server d)) ?rd = (Inr (), s2, d2)"
    using retried_begins [of d] by blast
  moreover have "s1 = fresh_store 128\<lparr>rs_pending := [sample_descriptor]\<rparr>" using s1(1) by (simp add: lost_server_def)
  ultimately have b1: "fst (begin_pending (fe_io_first lost_env) s1 (sv_disk (lost_server d)) ?rd) = Inr ()" by simp
  obtain k sv2 e2 where serve: "serve_descriptor_request lost_env (lost_server d) (sample_body (lit ''r2'')) = (k, sv2, e2)"
    by (rule prod_cases3)
  have "EF_Executed (rd_request_id ?rd) (lit ''m'') (lit ''c'') \<in> set e2"
    by (rule again [of _ ?rd]) (use parse fresh b1 serve rd in blast)
  moreover have "serve_descriptor_request lost_env (lost_server d) (sample_body (lit ''r2'')) = (True, sv2, e2)"
    using serve retried_request_executes [of d] by auto
  ultimately show ?thesis using first s1 unfolding rd by blast
qed

end
