(* ===== verification/Client.thy ===== *)
theory Client
  imports Server
begin

text \<open>
  The client of the named pipe (zonkey-win, \<open>pipe_transport.rs\<close>, \<open>PipeClient\<close>): connecting with the
  handshake, requests, queries and recovery commands, and the flag that makes a lost connection
  final.  The environment of one call says whether the frame could be written and what the reader
  thread saw.
\<close>

subsection \<open>Connecting\<close>

text \<open>One attempt to open the pipe: opened, busy or missing, with whether the deadline has passed by then.\<close>

datatype open_answer = OA_Opened | OA_Busy bool | OA_Missing bool

fun open_raw_handle :: "open_answer list \<Rightarrow> (pipe_error + unit) option" where
  "open_raw_handle [] = None"
| "open_raw_handle (OA_Opened # later) = Some (Inr ())"
| "open_raw_handle (OA_Busy late # later) = (if late then Some (Inl PI_ConnectTimeout) else open_raw_handle later)"
| "open_raw_handle (OA_Missing late # later) = (if late then Some (Inl PI_ConnectTimeout) else open_raw_handle later)"

text \<open>
  The reader thread: it gives up when it cannot register itself for cancellation.  The caller sees
  its message in time, gives up after the timeout, or finds that the thread died without a message.
  A call that never returns is not possible: the caller's wait is bounded.
\<close>

datatype reader_wait = RW_InTime | RW_TimedOut | RW_Disconnected

record client_env =
  ce_write_ok :: bool
  ce_registered :: bool
  ce_chunks :: "bytes option list"
  ce_wait :: reader_wait

fun reader_message :: "pipe_error + ustr \<Rightarrow> pipe_error + ustr" where
  "reader_message (Inr payload) = Inr payload"
| "reader_message (Inl (PI_Frame e)) = Inl (PI_Frame e)"
| "reader_message (Inl e) = Inl PI_ConnectionLost"

definition run_frame_reader :: "client_env \<Rightarrow> (pipe_error + ustr) option" where
  "run_frame_reader env =
     (if \<not> ce_registered env then Some (Inl PI_ConnectionLost)
      else map_option (\<lambda>(outcome, buffer). reader_message outcome) (read_frame_blocking (ce_chunks env) []))"

definition read_frame_with_timeout :: "client_env \<Rightarrow> pipe_error + ustr" where
  "read_frame_with_timeout env =
     (case ce_wait env of
        RW_TimedOut \<Rightarrow> Inl PI_Timeout
      | RW_Disconnected \<Rightarrow> Inl PI_ConnectionLost
      | RW_InTime \<Rightarrow> (case run_frame_reader env of None \<Rightarrow> Inl PI_Timeout | Some result \<Rightarrow> result))"

definition client_write_frame :: "client_env \<Rightarrow> ustr \<Rightarrow> pipe_error + unit" where
  "client_write_frame env payload =
     (case encode_frame payload of
        Inl e \<Rightarrow> Inl (PI_Frame e)
      | Inr _ \<Rightarrow> if ce_write_ok env then Inr () else Inl PI_ConnectionLost)"

record pipe_client =
  pc_handle :: bool
  pc_session_id :: ustr
  pc_broken :: bool

definition connect :: "open_answer list \<Rightarrow> client_env \<Rightarrow> (pipe_error + pipe_client) option" where
  "connect answers env =
     (case open_raw_handle answers of
        None \<Rightarrow> None
      | Some (Inl e) \<Rightarrow> Some (Inl e)
      | Some (Inr _) \<Rightarrow> Some
         (case client_write_frame env (lit ''HELLO|'' @ TRANSPORT_PROTOCOL_ID) of
            Inl e \<Rightarrow> Inl e
          | Inr _ \<Rightarrow>
             (case read_frame_with_timeout env of
                Inl e \<Rightarrow> Inl e
              | Inr received \<Rightarrow>
                 (case strip_prefix (lit ''ERROR|'') received of
                    Some reason \<Rightarrow>
                      Inl (if reason = lit ''protocol_mismatch'' then PI_ProtocolMismatch
                           else PI_HandshakeRefused reason)
                  | None \<Rightarrow>
                     (case strip_prefix (lit ''WELCOME|'') received of
                        None \<Rightarrow> Inl (PI_InvalidPayload (lit ''expected welcome''))
                      | Some session \<Rightarrow>
                          Inr \<lparr>pc_handle = True, pc_session_id = session, pc_broken = False\<rparr>)))))"

subsection \<open>Calls\<close>

text \<open>
  One exchange on a usable connection, with the parser of the answer.  The four calls of the
  source share its shape.
\<close>

definition exchange ::
  "client_env \<Rightarrow> pipe_client \<Rightarrow> ustr \<Rightarrow> (ustr \<Rightarrow> pipe_error + 'a) \<Rightarrow> (pipe_error + 'a) \<times> pipe_client" where
  "exchange env client payload parse =
     (let broken = client\<lparr>pc_broken := True\<rparr> in
      case client_write_frame env payload of
        Inl _ \<Rightarrow> (Inl PI_ConnectionLost, broken)
      | Inr _ \<Rightarrow>
         (case read_frame_with_timeout env of
            Inr received \<Rightarrow>
              (case strip_prefix (lit ''ERROR|'') received of
                 Some reason \<Rightarrow>
                   (Inl (if reason = lit ''session_mismatch'' then PI_SessionMismatch
                         else PI_HandshakeRefused reason), client)
               | None \<Rightarrow>
                  (case parse received of
                     Inr answer \<Rightarrow> (Inr answer, client)
                   | Inl e \<Rightarrow> (Inl e, broken)))
          | Inl e \<Rightarrow>
              (Inl (if e = PI_Timeout \<or> e = PI_ConnectionLost then PI_Timeout else e), broken)))"

definition usable :: "pipe_client \<Rightarrow> bool" where
  "usable client \<longleftrightarrow> \<not> pc_broken client \<and> pc_handle client"

definition request_on where
  "request_on env client session request_id composition canonical =
     exchange env client (request_payload session request_id composition canonical) parse_outcome"

definition request ::
  "client_env \<Rightarrow> pipe_client \<Rightarrow> ustr \<Rightarrow> ustr \<Rightarrow> ustr \<Rightarrow> (pipe_error + ledger_outcome) \<times> pipe_client" where
  "request env client request_id composition canonical =
     (if \<not> usable client then (Inl PI_ConnectionLost, client)
      else request_on env client (pc_session_id client) request_id composition canonical)"

definition descriptor_request_on where
  "descriptor_request_on env client payload = exchange env client payload parse_outcome"

definition request_with_descriptor ::
  "client_env \<Rightarrow> pipe_client \<Rightarrow> recovery_descriptor \<Rightarrow> ustr \<Rightarrow> ustr
    \<Rightarrow> (pipe_error + ledger_outcome) \<times> pipe_client" where
  "request_with_descriptor env client descriptor composition canonical =
     (if \<not> usable client then (Inl PI_ConnectionLost, client)
      else descriptor_request_on env client
        (descriptor_payload (pc_session_id client) descriptor composition canonical))"

definition parse_definite :: "ustr \<Rightarrow> ustr \<Rightarrow> pipe_error + ustr" where
  "parse_definite complaint received =
     (case strip_prefix (lit ''RESULT|DEFINITE|'') received of
        Some answer \<Rightarrow> Inr answer
      | None \<Rightarrow> Inl (PI_InvalidPayload complaint))"

definition handoff_query :: "client_env \<Rightarrow> pipe_client \<Rightarrow> (pipe_error + ustr) \<times> pipe_client" where
  "handoff_query env client =
     (if \<not> usable client then (Inl PI_ConnectionLost, client)
      else exchange env client (lit ''HANDOFF|'' @ pc_session_id client)
        (parse_definite (lit ''expected handoff result'')))"

definition recovery_command :: "client_env \<Rightarrow> pipe_client \<Rightarrow> ustr \<Rightarrow> (pipe_error + ustr) \<times> pipe_client" where
  "recovery_command env client command =
     (if \<not> usable client then (Inl PI_ConnectionLost, client)
      else exchange env client (lit ''RECOVERY|'' @ pc_session_id client @ lit ''|'' @ command)
        (parse_definite (lit ''expected recovery result'')))"

text \<open>\<open>close\<close> and \<open>drop\<close> take the handle.\<close>

definition close :: "pipe_client \<Rightarrow> pipe_client" where
  "close client = client\<lparr>pc_handle := False\<rparr>"

subsection \<open>A lost call is final\<close>

datatype client_call =
    CC_Request ustr ustr ustr
  | CC_Descriptor recovery_descriptor ustr ustr
  | CC_Handoff
  | CC_Recovery ustr

definition failure :: "(pipe_error + 'a) \<times> pipe_client \<Rightarrow> pipe_error option \<times> pipe_client" where
  "failure r = (case r of (Inl e, client) \<Rightarrow> (Some e, client) | (Inr _, client) \<Rightarrow> (None, client))"

fun client_step :: "client_env \<Rightarrow> client_call \<Rightarrow> pipe_client \<Rightarrow> pipe_error option \<times> pipe_client" where
  "client_step env (CC_Request rid mode c) client = failure (request env client rid mode c)"
| "client_step env (CC_Descriptor d mode c) client = failure (request_with_descriptor env client d mode c)"
| "client_step env CC_Handoff client = failure (handoff_query env client)"
| "client_step env (CC_Recovery command) client = failure (recovery_command env client command)"

fun client_run :: "(client_env \<times> client_call) list \<Rightarrow> pipe_client \<Rightarrow> pipe_error option list \<times> pipe_client" where
  "client_run [] client = ([], client)"
| "client_run ((env, call) # calls) client =
     (case client_step env call client of (e, client') \<Rightarrow>
       (case client_run calls client' of (es, client'') \<Rightarrow> (e # es, client'')))"

definition server_level :: "pipe_error \<Rightarrow> bool" where
  "server_level e \<longleftrightarrow> e = PI_SessionMismatch \<or> (\<exists>reason. e = PI_HandshakeRefused reason)"

lemmas client_defs = request_def request_on_def request_with_descriptor_def descriptor_request_on_def
  handoff_query_def recovery_command_def

lemma unusable_step: "\<not> usable client \<Longrightarrow> client_step env call client = (Some PI_ConnectionLost, client)"
  by (cases call) (simp_all add: client_defs failure_def)

lemma unusable_run:
  "\<not> usable client \<Longrightarrow> client_run calls client = (replicate (length calls) (Some PI_ConnectionLost), client)"
  by (induction calls) (auto simp: unusable_step)

definition answered_call :: "pipe_error option \<Rightarrow> bool" where
  "answered_call e \<longleftrightarrow> e = None \<or> (\<exists>x. e = Some x \<and> server_level x)"

lemma exchange_cases:
  assumes "failure (exchange env client payload parse) = (e, client')"
    and "\<And>s x. parse s = Inl x \<Longrightarrow> \<not> server_level x"
  shows "if answered_call e then client' = client else client' = client\<lparr>pc_broken := True\<rparr>"
proof -
  have "\<not> server_level x" if "read_frame_with_timeout env = Inl x" for x
    using that by (auto simp: read_frame_with_timeout_def run_frame_reader_def server_level_def
        split: reader_wait.splits option.splits if_splits elim!: reader_message.elims)
  with assms show ?thesis
    by (auto simp: exchange_def failure_def answered_call_def Let_def split: sum.splits option.splits if_splits)
      (auto simp: server_level_def)
qed

lemma step_cases:
  assumes "client_step env call client = (e, client')"
  shows "if answered_call e then client' = client else \<not> usable client'"
proof (cases "usable client")
  case True
  have p: "parse_outcome s = Inl x \<Longrightarrow> \<not> server_level x" for s x
    by (auto simp: parse_outcome_def server_level_def split: list.splits if_splits)
  have q: "parse_definite c s = Inl x \<Longrightarrow> \<not> server_level x" for s c x
    by (auto simp: parse_definite_def server_level_def split: option.splits)
  have r: "if answered_call e then client' = client else \<not> usable client'"
    if "failure (exchange env client payload parse_outcome) = (e, client')" for payload
    using exchange_cases [OF that p] by (simp add: usable_def split: if_splits)
  have d: "if answered_call e then client' = client else \<not> usable client'"
    if "failure (exchange env client payload (parse_definite complaint)) = (e, client')" for payload complaint
    using exchange_cases [OF that q] by (simp add: usable_def split: if_splits)
  show ?thesis
  proof (cases call)
    case (CC_Request rid mode c)
    show ?thesis by (rule r) (use assms True CC_Request in \<open>simp add: client_defs\<close>)
  next
    case (CC_Descriptor rd mode c)
    show ?thesis by (rule r) (use assms True CC_Descriptor in \<open>simp add: client_defs\<close>)
  next
    case CC_Handoff
    show ?thesis by (rule d) (use assms True CC_Handoff in \<open>simp add: client_defs\<close>)
  next
    case (CC_Recovery command)
    show ?thesis by (rule d) (use assms True CC_Recovery in \<open>simp add: client_defs\<close>)
  qed
next
  case False
  then have "e = Some PI_ConnectionLost \<and> client' = client"
    using unusable_step [OF False, of env call] assms by simp
  with False show ?thesis by (simp add: answered_call_def server_level_def)
qed

text \<open>
  C23. A lost call is final: an answered call of any kind (a result, or an error that the server
  reported) leaves the client as it was; after any other failure every later call on that connection
  returns \<open>ConnectionLost\<close> whatever the pipe would do, so nothing is sent again without a new
  connection.
\<close>

theorem lost_call_is_final:
  assumes "client_step env call client = (e, client')"
  shows "if answered_call e then client' = client
    else client_run later client' = (replicate (length later) (Some PI_ConnectionLost), client')"
  using step_cases [OF assms] unusable_run [of client' later] by auto

definition prompt_env :: "bytes option list \<Rightarrow> client_env" where
  "prompt_env chunks = \<lparr>ce_write_ok = True, ce_registered = True, ce_chunks = chunks, ce_wait = RW_InTime\<rparr>"

lemma lost_call_is_final_witness:
  "client_run [(prompt_env [None], CC_Handoff), (prompt_env [Some [1, 0, 0, 0, 0x61]], CC_Handoff)]
     \<lparr>pc_handle = True, pc_session_id = lit ''s'', pc_broken = False\<rparr> =
   ([Some PI_Timeout, Some PI_ConnectionLost], \<lparr>pc_handle = True, pc_session_id = lit ''s'', pc_broken = True\<rparr>)"
proof -
  let ?c = "\<lparr>pc_handle = True, pc_session_id = lit ''s'', pc_broken = False\<rparr>"
  have s: "client_step (prompt_env [None]) CC_Handoff ?c = (Some PI_Timeout, ?c\<lparr>pc_broken := True\<rparr>)"
    by (simp add: handoff_query_def usable_def exchange_def client_write_frame_def encode_frame_def utf8_char_def
        MAX_FRAME_BYTES_def prompt_env_def read_frame_with_timeout_def run_frame_reader_def
        read_frame_blocking.simps decode_frame_def FRAME_HEADER_BYTES_def failure_def)
  have "\<not> answered_call (Some PI_Timeout)" by (simp add: answered_call_def server_level_def)
  with lost_call_is_final [OF s, of "[(prompt_env [Some [1, 0, 0, 0, 0x61]], CC_Handoff)]"] s
  show ?thesis by simp
qed

subsection \<open>The client and the server together\<close>

lemma read_frame_blocking_one:
  assumes "valid_str s" and "encode_frame s = Inr f"
    and "buffer @ concat cs = f @ rest" and "[] \<notin> set cs"
  shows "\<exists>b. read_frame_blocking (map Some cs) buffer = Some (Inr s, b)"
  using assms(3,4)
proof (induction cs arbitrary: buffer)
  case Nil
  then show ?case using decode_encode_frame [OF assms(1,2), of rest] by (simp add: read_frame_blocking.simps)
next
  case (Cons c cs)
  show ?case
  proof (cases "length buffer < length f")
    case True
    have buf: "buffer = take (length buffer) f"
      using Cons.prems(1) True by (auto simp: append_eq_append_conv2)
    have "decode_frame buffer = (Inr None, buffer)"
      using decode_frame_prefix [OF assms(2) True] buf by simp
    moreover have "\<exists>b. read_frame_blocking (map Some cs) (buffer @ c) = Some (Inr s, b)"
      by (rule Cons.IH) (use Cons.prems in auto)
    ultimately show ?thesis using Cons.prems(2) by (auto simp: read_frame_blocking.simps [of "_ # _"])
  next
    case False
    then obtain r where "buffer = f @ r"
      using Cons.prems(1) by (auto simp: append_eq_append_conv2)
    then show ?thesis
      using decode_encode_frame [OF assms(1,2), of r] by (simp add: read_frame_blocking.simps)
  qed
qed

text \<open>The pipe delivers the bytes to the client in time, in whatever pieces.\<close>

definition delivers :: "client_env \<Rightarrow> bytes \<Rightarrow> bool" where
  "delivers env f \<longleftrightarrow> ce_write_ok env \<and> ce_registered env \<and> ce_wait env = RW_InTime \<and>
     (\<exists>cs rest. ce_chunks env = map Some cs \<and> [] \<notin> set cs \<and> concat cs = f @ rest)"

lemma delivers_read:
  assumes "delivers env f" and "valid_str s" and "encode_frame s = Inr f"
  shows "read_frame_with_timeout env = Inr s"
proof -
  obtain cs rest where cs: "ce_chunks env = map Some cs" "[] \<notin> set cs" "concat cs = f @ rest"
    using assms(1) by (auto simp: delivers_def)
  obtain b where "read_frame_blocking (map Some cs) [] = Some (Inr s, b)"
    using read_frame_blocking_one [OF assms(2,3), of "[]" cs rest] cs by auto
  with assms(1) cs(1) show ?thesis by (simp add: read_frame_with_timeout_def run_frame_reader_def delivers_def)
qed

text \<open>The answer that the server decides on, and what the client makes of it.\<close>

definition answer_of :: "frame_env \<Rightarrow> host_endpoint \<Rightarrow> ustr \<Rightarrow> ustr \<Rightarrow> ustr \<Rightarrow> ledger_outcome" where
  "answer_of env h rid mode canonical =
     (case classify_request h rid canonical of
        RD_Duplicate recorded \<Rightarrow> recorded
      | RD_Conflict \<Rightarrow> request_id_reuse
      | RD_Fresh \<Rightarrow> fe_handler env rid mode canonical)"

lemma request_frame_served:
  assumes "no_bar [session, rid, mode]" and "session \<noteq> []" and "rid \<noteq> []" and "canonical \<noteq> []"
    and "serve_frame env sid sv (request_payload session rid mode canonical) = (k, sv', effects)"
    and "EF_Sent answer \<in> set effects"
  shows "answer = (if isl (check_session (sv_endpoint sv) session) then lit ''ERROR|session_mismatch''
      else outcome_payload (answer_of env (sv_endpoint sv) rid mode canonical)) \<and> write_frame env answer"
proof -
  let ?body = "join_with [bar] [session, rid, mode, canonical]"
  note p = parse_request_payload [OF assms(1-4)]
  have none: "strip_prefix (lit x) (request_payload session rid mode canonical) = None"
    if "x = ''HELLO|'' \<or> x = ''RECOVERY|'' \<or> x = ''HANDOFF|''" for x
    using that by (auto simp: strip_prefix_def request_payload_def)
  have "serve_request env sv ?body = (k, sv', effects)"
    using assms(5) unfolding serve_frame_def p(1) none [OF disjI1 [OF refl]]
      none [OF disjI2 [OF disjI1 [OF refl]]] none [OF disjI2 [OF disjI2 [OF refl]]] by simp
  with assms(6) show ?thesis
    unfolding serve_request_def p(2)
    by (auto simp: answered_def reply_def answer_of_def Let_def split: if_splits request_disposition.splits prod.splits)
qed

text \<open>
  C21. A request is a remote call of the ledger-protected handler: when the client sends a request on
  a usable connection, the server serves that frame and its reply arrives, in whatever pieces, then
  the client gets exactly the recorded outcome of a duplicate, the reuse refusal of a conflict or
  the handler's outcome of a fresh request, and a session mismatch exactly when the session is not
  the server's; the connection stays usable.
\<close>

theorem remote_call_correct:
  assumes "usable client" and "no_bar [pc_session_id client, rid, mode]" and "pc_session_id client \<noteq> []"
    and "rid \<noteq> []" and "canonical \<noteq> []"
    and "encode_frame (request_payload (pc_session_id client) rid mode canonical) = Inr sent"
    and "serve_frame env sid sv (request_payload (pc_session_id client) rid mode canonical) = (k, sv', effects)"
    and "EF_Sent answer \<in> set effects" and "valid_str answer" and "delivers cenv (projr (encode_frame answer))"
  shows "request cenv client rid mode canonical =
    (if isl (check_session (sv_endpoint sv) (pc_session_id client)) then Inl PI_SessionMismatch
     else Inr (answer_of env (sv_endpoint sv) rid mode canonical), client)"
proof -
  note a = request_frame_served [OF assms(2-5,7,8)]
  then obtain f where f: "encode_frame answer = Inr f" by (auto simp: write_frame_def split: sum.splits)
  have "read_frame_with_timeout cenv = Inr answer" using delivers_read [OF _ assms(9) f] assms(10) f by simp
  moreover have "client_write_frame cenv (request_payload (pc_session_id client) rid mode canonical) = Inr ()"
    using assms(6,10) by (simp add: client_write_frame_def delivers_def)
  moreover have "strip_prefix (lit ''ERROR|'') (outcome_payload out) = None" for out
    by (cases out) (simp_all add: outcome_payload_def strip_prefix_def)
  moreover have "strip_prefix (lit ''ERROR|'') (lit ''ERROR|session_mismatch'') = Some (lit ''session_mismatch'')"
    by (simp add: strip_prefix_def)
  ultimately show ?thesis
    using a assms(1) parse_outcome_payload [of "answer_of env (sv_endpoint sv) rid mode canonical"]
    by (cases "isl (check_session (sv_endpoint sv) (pc_session_id client))")
      (simp_all only: request_def request_on_def exchange_def Let_def sum.case option.case if_True if_False simp_thms)
qed

lemma remote_call_correct_witness:
  "request (prompt_env [Some [21, 0], Some ([0, 0] @ utf8 (lit ''RESULT|AMBIGUOUS|lost''))])
     \<lparr>pc_handle = True, pc_session_id = lit ''s'', pc_broken = False\<rparr> (lit ''r'') (lit ''m'') (lit ''c'') =
   (Inr (LO_Ambiguous (lit ''lost'')), \<lparr>pc_handle = True, pc_session_id = lit ''s'', pc_broken = False\<rparr>)"
proof -
  let ?c = "\<lparr>pc_handle = True, pc_session_id = lit ''s'', pc_broken = False\<rparr>"
  let ?env = "quiet_env (LO_Ambiguous (lit ''lost''))" and ?sv = "welcomed 1 None no_disk"
  let ?p = "request_payload (lit ''s'') (lit ''r'') (lit ''m'') (lit ''c'')"
  let ?a = "lit ''RESULT|AMBIGUOUS|lost''"
  let ?cenv = "prompt_env [Some [21, 0], Some ([0, 0] @ utf8 ?a)]"
  obtain k sv' effects where f: "serve_frame ?env (lit ''s'') ?sv ?p = (k, sv', effects)" by (rule prod_cases3)
  have fields: "usable ?c" "no_bar [pc_session_id ?c, lit ''r'', lit ''m'']" "pc_session_id ?c \<noteq> []"
    "lit ''r'' \<noteq> []" "lit ''c'' \<noteq> []"
    by (simp_all add: usable_def no_bar_def)
  obtain sent where sent: "encode_frame ?p = Inr sent"
    by (simp add: encode_frame_def request_payload_def utf8_char_def MAX_FRAME_BYTES_def)
  have ok: "check_session (sv_endpoint ?sv) (lit ''s'') = Inr ()"
    "classify_request (sv_endpoint ?sv) (lit ''r'') (lit ''c'') = RD_Fresh"
    by (simp_all add: check_session_def welcomed_def classify_request_def ledger_classify_def)
  have out: "outcome_payload (fe_handler ?env rid mode c) = ?a" for rid mode c
    by (simp add: quiet_env_def outcome_payload_def)
  have w: "write_frame ?env ?a"
    by (simp add: write_frame_def encode_frame_def utf8_char_def MAX_FRAME_BYTES_def quiet_env_def)
  have "request_payload (lit ''s'') (lit ''r'') (lit ''m'') (lit ''c'') = lit ''REQ|'' @ lit ''s|r|m|c''"
    by (simp add: request_payload_def)
  then have "serve_frame ?env (lit ''s'') ?sv ?p = serve_request ?env ?sv (lit ''s|r|m|c'')"
    by (simp add: serve_frame_def strip_prefix_def)
  with f serve_request_fresh [OF parse_sample_request ok out refl] w
  have sends: "EF_Sent ?a \<in> set effects" by (auto simp: reply_def)
  have enc: "projr (encode_frame ?a) = [21, 0] @ [0, 0] @ utf8 ?a"
    by (simp add: encode_frame_def utf8_char_def MAX_FRAME_BYTES_def le_bytes_numeral byte_of_def)
  have "valid_str ?a" by (simp add: is_scalar_def)
  moreover have "delivers ?cenv (projr (encode_frame ?a))"
    unfolding enc delivers_def prompt_env_def client_env.simps
    by (intro conjI refl TrueI exI [of _ "[[21, 0], [0, 0] @ utf8 ?a]"] exI [of _ "[]"]) simp_all
  ultimately have "request ?cenv ?c (lit ''r'') (lit ''m'') (lit ''c'') =
    (if isl (check_session (sv_endpoint ?sv) (pc_session_id ?c)) then Inl PI_SessionMismatch
     else Inr (answer_of ?env (sv_endpoint ?sv) (lit ''r'') (lit ''m'') (lit ''c'')), ?c)"
    using remote_call_correct [OF fields _ _ sends] sent f by simp
  moreover have "answer_of ?env (sv_endpoint ?sv) (lit ''r'') (lit ''m'') (lit ''c'') = LO_Ambiguous (lit ''lost'')"
    unfolding answer_of_def ok by (simp add: quiet_env_def)
  ultimately show ?thesis using ok by simp
qed

end
