(* ===== verification/Native.thy ===== *)
theory Native
  imports Observe
begin

text \<open>
  The pure part of the Windows adapter (zonkey-win, \<open>lib.rs\<close> and \<open>native_edit.rs\<close>): the mapping
  of native keyboard messages to observed events, the modifier tracker, and the two-sample reading
  of a standard edit control.
\<close>

definition result_ok :: "'e + 'a \<Rightarrow> 'a option" where
  "result_ok r = (case r of Inl _ \<Rightarrow> None | Inr x \<Rightarrow> Some x)"

lemma result_ok_simps [simp]: "result_ok (Inl e) = None" "result_ok (Inr x) = Some x"
  by (simp_all add: result_ok_def)

definition validate_plan :: "edit_plan \<Rightarrow> ustr + unit" where
  "validate_plan plan =
     (if 0 \<in> set (insert_text plan) then Inl (lit ''insert_text must not contain NUL'') else Inr ())"

subsection \<open>Keyboard events\<close>

record native_keyboard_event =
  nk_message :: u32
  nk_virtual_key :: u32
  nk_flags :: u32
  nk_sequence :: u64

record raw_keyboard_event =
  rk_virtual_key :: u32
  rk_flags :: u32
  rk_message :: u32
  rk_sequence :: u64

definition is_supported_message :: "u32 \<Rightarrow> bool" where
  "is_supported_message message \<longleftrightarrow> message \<in> {0x0100, 0x0101, 0x0104, 0x0105}"

record modifier_tracker =
  mt_shift_generic :: bool
  mt_shift_left :: bool
  mt_shift_right :: bool
  mt_control_generic :: bool
  mt_control_left :: bool
  mt_control_right :: bool
  mt_alt_generic :: bool
  mt_alt_left :: bool
  mt_alt_right :: bool
  mt_meta_left :: bool
  mt_meta_right :: bool

definition tracker_default :: modifier_tracker where
  "tracker_default =
     \<lparr>mt_shift_generic = False, mt_shift_left = False, mt_shift_right = False,
      mt_control_generic = False, mt_control_left = False, mt_control_right = False,
      mt_alt_generic = False, mt_alt_left = False, mt_alt_right = False,
      mt_meta_left = False, mt_meta_right = False\<rparr>"

definition tracker_observe :: "modifier_tracker \<Rightarrow> u32 \<Rightarrow> key_event_kind \<Rightarrow> modifier_tracker" where
  "tracker_observe t virtual_key kind =
     (let active = (kind \<noteq> KE_KeyUp \<and> kind \<noteq> KE_SystemKeyUp) in
      if virtual_key = 0x10 then t\<lparr>mt_shift_generic := active\<rparr>
      else if virtual_key = 0xa0 then t\<lparr>mt_shift_left := active\<rparr>
      else if virtual_key = 0xa1 then t\<lparr>mt_shift_right := active\<rparr>
      else if virtual_key = 0x11 then t\<lparr>mt_control_generic := active\<rparr>
      else if virtual_key = 0xa2 then t\<lparr>mt_control_left := active\<rparr>
      else if virtual_key = 0xa3 then t\<lparr>mt_control_right := active\<rparr>
      else if virtual_key = 0x12 then t\<lparr>mt_alt_generic := active\<rparr>
      else if virtual_key = 0xa4 then t\<lparr>mt_alt_left := active\<rparr>
      else if virtual_key = 0xa5 then t\<lparr>mt_alt_right := active\<rparr>
      else if virtual_key = 0x5b then t\<lparr>mt_meta_left := active\<rparr>
      else if virtual_key = 0x5c then t\<lparr>mt_meta_right := active\<rparr>
      else t)"

definition tracker_state :: "modifier_tracker \<Rightarrow> modifier_state" where
  "tracker_state t =
     with_meta
       (with_alt
         (with_control
           (with_shift modifier_state_new (mt_shift_generic t \<or> mt_shift_left t \<or> mt_shift_right t))
           (mt_control_generic t \<or> mt_control_left t \<or> mt_control_right t))
         (mt_alt_generic t \<or> mt_alt_left t \<or> mt_alt_right t))
       (mt_meta_left t \<or> mt_meta_right t)"

text \<open>\<open>char::from_u32\<close> of an upper-case letter's code is that letter.\<close>

definition map_key :: "u32 \<Rightarrow> observed_key option" where
  "map_key vk =
     (if 0x41 \<le> vk \<and> vk \<le> 0x5a then result_ok (key_letter (unat vk))
      else if 0x30 \<le> vk \<and> vk \<le> 0x39 then result_ok (key_digit (ucast (vk - 0x30)))
      else if vk = 0x20 then Some OK_Space
      else if vk = 0x0d then Some OK_Enter
      else if vk = 0x09 then Some OK_Tab
      else if vk = 0x08 then Some OK_Backspace
      else if vk = 0x1b then Some OK_Escape
      else if vk \<in> {0x10, 0xa0, 0xa1} then Some (OK_Modifier MK_Shift)
      else if vk \<in> {0x11, 0xa2, 0xa3} then Some (OK_Modifier MK_Control)
      else if vk \<in> {0x12, 0xa4, 0xa5} then Some (OK_Modifier MK_Alt)
      else if vk \<in> {0x5b, 0x5c} then Some (OK_Modifier MK_Meta)
      else if vk = 0xba then result_ok (key_punctuation (chr CHR '';''))
      else if vk = 0xbb then result_ok (key_punctuation (chr CHR ''=''))
      else if vk = 0xbc then result_ok (key_punctuation (chr CHR '',''))
      else if vk = 0xbd then result_ok (key_punctuation (chr CHR ''-''))
      else if vk = 0xbe then result_ok (key_punctuation (chr CHR ''.''))
      else if vk = 0xbf then result_ok (key_punctuation (chr CHR ''/''))
      else if vk = 0xc0 then result_ok (key_punctuation 96)
      else if vk = 0xdb then result_ok (key_punctuation (chr CHR ''[''))
      else if vk = 0xdc then result_ok (key_punctuation 92)
      else if vk = 0xdd then result_ok (key_punctuation (chr CHR '']''))
      else if vk = 0xde then result_ok (key_punctuation 39)
      else Some OK_Other)"

definition message_kind :: "u32 \<Rightarrow> key_event_kind option" where
  "message_kind message =
     (if message = 0x0100 then Some KE_KeyDown
      else if message = 0x0101 then Some KE_KeyUp
      else if message = 0x0104 then Some KE_SystemKeyDown
      else if message = 0x0105 then Some KE_SystemKeyUp
      else None)"

definition flags_origin :: "u32 \<Rightarrow> injection_origin" where
  "flags_origin flags =
     (if flags AND 0x02 \<noteq> 0 then IO_LowerIntegrityInjected
      else if flags AND 0x10 \<noteq> 0 then IO_MarkedInjected
      else IO_PhysicalOrUnmarked)"

definition map_native_event ::
  "native_keyboard_event \<Rightarrow> modifier_tracker \<Rightarrow> (observed_input_event \<times> modifier_tracker) option" where
  "map_native_event native tracker =
     (case message_kind (nk_message native) of
        None \<Rightarrow> None
      | Some kind \<Rightarrow>
         (let next_tracker = tracker_observe tracker (nk_virtual_key native) kind in
          case map_key (nk_virtual_key native) of
            None \<Rightarrow> None
          | Some key \<Rightarrow>
             (case result_ok (event_sequence_new (nk_sequence native)) of
                None \<Rightarrow> None
              | Some sequence \<Rightarrow>
                  Some (\<lparr>oe_key = key, oe_kind = kind, oe_modifiers = tracker_state next_tracker,
                         oe_injection_origin = flags_origin (nk_flags native), oe_sequence = sequence\<rparr>,
                        next_tracker))))"

definition map_raw_event ::
  "raw_keyboard_event \<Rightarrow> modifier_tracker \<Rightarrow> (observed_input_event \<times> modifier_tracker) option" where
  "map_raw_event raw tracker =
     map_native_event \<lparr>nk_message = rk_message raw, nk_virtual_key = rk_virtual_key raw, nk_flags = 0,
       nk_sequence = rk_sequence raw\<rparr> tracker"

subsection \<open>Every supported message maps to a well-formed event\<close>

lemma map_key_total: "\<exists>k. map_key vk = Some k \<and> wf_key k"
proof -
  have letter: "is_ascii_alphabetic (unat vk)" if "0x41 \<le> vk" "vk \<le> 0x5a"
  proof -
    have "unat (0x41 :: u32) \<le> unat vk" "unat vk \<le> unat (0x5a :: u32)" using that by (simp_all add: word_le_nat_alt)
    then show ?thesis by (simp add: char_class_defs is_ascii_alphabetic_def is_ascii_uppercase_def)
  qed
  have digit: "ucast (vk - 0x30) \<le> (9 :: u8)" if "0x30 \<le> vk" "vk \<le> 0x39"
  proof -
    have "unat (0x30 :: u32) \<le> unat vk" "unat vk \<le> unat (0x39 :: u32)" using that by (simp_all add: word_le_nat_alt)
    then have "unat (vk - 0x30) \<le> 9" using that(1) by (simp add: unat_sub)
    moreover have "unat (ucast (vk - 0x30) :: u8) = unat (vk - 0x30) mod 256"
      by (simp add: unsigned_ucast_eq take_bit_eq_mod unat_mod_distrib)
    ultimately have "unat (ucast (vk - 0x30) :: u8) \<le> unat (9 :: u8)" by simp
    then show ?thesis by (simp add: word_le_nat_alt)
  qed
  show ?thesis
    unfolding map_key_def
    using letter digit
    by (auto simp: key_letter_def key_digit_def key_punctuation_def is_ascii_punctuation_def)
qed

lemma message_kind_supported: "message_kind m \<noteq> None \<longleftrightarrow> is_supported_message m"
  by (auto simp: message_kind_def is_supported_message_def)

text \<open>
  C24. The native mapper produces well-typed events: it accepts exactly the supported keyboard
  messages with a non-zero sequence number, and what it then returns satisfies the constructors'
  guarantees, carries that sequence number and the modifiers after the key, and is marked as
  injected exactly when one of the two injection flags is set; a raw packet is never marked.
\<close>

theorem native_event_well_typed:
  "(map_native_event native t \<noteq> None \<longleftrightarrow> is_supported_message (nk_message native) \<and> nk_sequence native \<noteq> 0) \<and>
   (\<forall>event t'. map_native_event native t = Some (event, t') \<longrightarrow>
      wf_event event \<and> sequence_get (oe_sequence event) = nk_sequence native \<and>
      oe_modifiers event = tracker_state t' \<and>
      (oe_injection_origin event = IO_PhysicalOrUnmarked \<longleftrightarrow>
         \<not> bit (nk_flags native) 1 \<and> \<not> bit (nk_flags native) 4)) \<and>
   (\<forall>event t'. map_raw_event raw t = Some (event, t') \<longrightarrow> oe_injection_origin event = IO_PhysicalOrUnmarked)"
proof -
  obtain k where k: "map_key (nk_virtual_key native) = Some k" "wf_key k" using map_key_total by blast
  have bits: "flags AND 0x02 \<noteq> 0 \<longleftrightarrow> bit flags 1" "flags AND 0x10 \<noteq> 0 \<longleftrightarrow> bit flags 4" for flags :: u32
    using and_exp_eq_0_iff_not_bit [of flags 1] and_exp_eq_0_iff_not_bit [of flags 4] by simp_all
  show ?thesis
    using k message_kind_supported [of "nk_message native"]
    by (auto simp: map_native_event_def map_raw_event_def event_sequence_new_def wf_event_def flags_origin_def bits
        Let_def split: option.splits if_splits)
qed

definition shift_a :: native_keyboard_event where
  "shift_a = \<lparr>nk_message = 0x0104, nk_virtual_key = 0xa1, nk_flags = 0x12, nk_sequence = 7\<rparr>"

lemma native_event_well_typed_witness:
  "\<exists>event t'. map_native_event shift_a tracker_default = Some (event, t') \<and> wf_event event \<and>
     sequence_get (oe_sequence event) = 7 \<and> oe_injection_origin event \<noteq> IO_PhysicalOrUnmarked"
proof -
  note t = native_event_well_typed [of shift_a tracker_default]
  have "map_native_event shift_a tracker_default \<noteq> None"
    using t by (simp add: shift_a_def is_supported_message_def)
  then obtain event t' where m: "map_native_event shift_a tracker_default = Some (event, t')" by auto
  have "bit (0x12 :: u32) 1" by (simp add: bit_numeral_rec)
  with t m show ?thesis by (auto simp: shift_a_def)
qed

subsection \<open>The tracker refines the set of held keys\<close>

definition is_down :: "key_event_kind \<Rightarrow> bool" where
  "is_down kind \<longleftrightarrow> kind = KE_KeyDown \<or> kind = KE_SystemKeyDown"

text \<open>The abstract keyboard: the virtual keys that are held down.\<close>

definition press :: "u32 set \<Rightarrow> u32 \<times> key_event_kind \<Rightarrow> u32 set" where
  "press held x = (if is_down (snd x) then insert (fst x) held else held - {fst x})"

definition held_modifiers :: "u32 set \<Rightarrow> modifier_state" where
  "held_modifiers held =
     \<lparr>ms_shift = (held \<inter> {0x10, 0xa0, 0xa1} \<noteq> {}), ms_control = (held \<inter> {0x11, 0xa2, 0xa3} \<noteq> {}),
      ms_alt = (held \<inter> {0x12, 0xa4, 0xa5} \<noteq> {}), ms_meta = (held \<inter> {0x5b, 0x5c} \<noteq> {})\<rparr>"

definition tracks :: "modifier_tracker \<Rightarrow> u32 set \<Rightarrow> bool" where
  "tracks t held \<longleftrightarrow>
     mt_shift_generic t = (0x10 \<in> held) \<and> mt_shift_left t = (0xa0 \<in> held) \<and> mt_shift_right t = (0xa1 \<in> held) \<and>
     mt_control_generic t = (0x11 \<in> held) \<and> mt_control_left t = (0xa2 \<in> held) \<and>
     mt_control_right t = (0xa3 \<in> held) \<and>
     mt_alt_generic t = (0x12 \<in> held) \<and> mt_alt_left t = (0xa4 \<in> held) \<and> mt_alt_right t = (0xa5 \<in> held) \<and>
     mt_meta_left t = (0x5b \<in> held) \<and> mt_meta_right t = (0x5c \<in> held)"

lemma tracks_default: "tracks tracker_default {}"
  by (simp add: tracks_def tracker_default_def)

lemma tracks_observe: "tracks t held \<Longrightarrow> tracks (tracker_observe t vk kind) (press held (vk, kind))"
  by (cases kind) (auto simp: tracks_def tracker_observe_def press_def is_down_def Let_def)

lemma tracks_state: "tracks t held \<Longrightarrow> tracker_state t = held_modifiers held"
  by (auto simp: tracks_def tracker_state_def held_modifiers_def with_meta_def with_alt_def with_control_def
      with_shift_def modifier_state_new_def)

text \<open>
  The modifier tracker refines the set of held keys: after any sequence of key transitions, a
  modifier is reported exactly when one of its virtual keys (generic, left or right) is held, so
  releasing the left key while the right one is down keeps the modifier.
\<close>

lemma tracker_refines_held_keys:
  "tracker_state (foldl (\<lambda>t (vk, kind). tracker_observe t vk kind) tracker_default transitions) =
     held_modifiers (foldl press {} transitions)"
proof -
  have "tracks (foldl (\<lambda>t (vk, kind). tracker_observe t vk kind) t transitions) (foldl press held transitions)"
    if "tracks t held" for t held
    using that by (induction transitions arbitrary: t held) (auto intro: tracks_observe)
  from tracks_state [OF this [OF tracks_default]] show ?thesis .
qed

end
