(* ===== verification/NativeEdit.thy ===== *)
theory NativeEdit
  imports Utf
begin

text \<open>
  The diagnostic reading of a standard edit control (zonkey-win, \<open>native_edit.rs\<close>): two samples
  that must agree, and the check that the expected text ends exactly at the caret.  What the window
  system answers is a record; a slice out of range is \<open>None\<close>.
\<close>

datatype native_edit_probe_error =
    NE_UnsupportedControl
  | NE_SecureControl
  | NE_ReadFailed
  | NE_ReadTimeout
  | NE_ContradictorySelection
  | NE_EvidenceChanged
  | NE_TextMismatch

record native_edit_evidence =
  nv_candidate_text_units :: nat
  nv_selection_empty :: bool
  nv_exact_preceding_text :: bool

record native_edit_sample =
  ns_class_name :: "u16 list"
  ns_style :: u32
  ns_text :: "u16 list"
  ns_start :: u32
  ns_end :: u32

text \<open>
  The answers to one reading: the lengths are the signed results of the calls, the units are what
  was written to the buffer, the selection is missing when the message timed out.
\<close>

record edit_answers =
  ea_thread_id :: u32
  ea_class_len :: int
  ea_class_units :: "u16 list"
  ea_style :: int
  ea_text_len :: int
  ea_copied :: int
  ea_text_units :: "u16 list"
  ea_selection :: "(u32 \<times> u32) option"

definition ES_PASSWORD :: u32 where
  "ES_PASSWORD = 0x20"

text \<open>A zeroed buffer of \<open>n\<close> units after a call wrote to its front.\<close>

definition filled :: "nat \<Rightarrow> u16 list \<Rightarrow> u16 list" where
  "filled n units = take n (units @ replicate n 0)"

definition read_window_text :: "edit_answers \<Rightarrow> native_edit_probe_error + u16 list" where
  "read_window_text os =
     (if ea_text_len os < 0 then Inl NE_ReadFailed
      else if ea_copied os < 0 then Inl NE_ReadFailed
      else if ea_copied os > ea_text_len os then Inl NE_ReadFailed
      else Inr (take (nat (ea_copied os)) (filled (nat (ea_text_len os) + 1) (ea_text_units os))))"

definition read_sample :: "edit_answers \<Rightarrow> (native_edit_probe_error + native_edit_sample) option" where
  "read_sample os =
     (if ea_thread_id os = 0 then Some (Inl NE_ReadFailed)
      else if ea_class_len os < 0 then Some (Inl NE_ReadFailed)
      else if ea_class_len os = 0 then Some (Inl NE_UnsupportedControl)
      else if ea_class_len os > 32 then None
      else (let class_name = take (nat (ea_class_len os)) (filled 32 (ea_class_units os)) in
            if from_utf16_lossy class_name \<noteq> lit ''Edit'' then Some (Inl NE_UnsupportedControl)
            else if ea_style os < 0 \<or> ea_style os \<ge> 2 ^ 32 then Some (Inl NE_ReadFailed)
            else if of_int (ea_style os) AND ES_PASSWORD \<noteq> 0 then Some (Inl NE_SecureControl)
            else (case read_window_text os of
                    Inl e \<Rightarrow> Some (Inl e)
                  | Inr units \<Rightarrow>
                     (case ea_selection os of
                        None \<Rightarrow> Some (Inl NE_ReadTimeout)
                      | Some (b, e) \<Rightarrow>
                          if b > e \<or> unat e > length units then Some (Inl NE_ContradictorySelection)
                          else Some (Inr
                            \<lparr>ns_class_name = class_name, ns_style = of_int (ea_style os), ns_text = units,
                             ns_start = b, ns_end = e\<rparr>)))))"

definition ensure_stable ::
  "native_edit_sample \<Rightarrow> native_edit_sample \<Rightarrow> native_edit_probe_error + native_edit_sample" where
  "ensure_stable a b = (if a = b then Inr b else Inl NE_EvidenceChanged)"

definition slice :: "'a list \<Rightarrow> nat \<Rightarrow> nat \<Rightarrow> 'a list option" where
  "slice xs b e = (if b \<le> e \<and> e \<le> length xs then Some (take (e - b) (drop b xs)) else None)"

definition validate_sample ::
  "native_edit_sample \<Rightarrow> ustr \<Rightarrow> (native_edit_probe_error + native_edit_evidence) option" where
  "validate_sample sample expected =
     (if ns_start sample \<noteq> ns_end sample then Some (Inl NE_ContradictorySelection)
      else (let expected_units = utf16 expected; n = length expected_units; p = unat (ns_start sample) in
            if n > p then Some (Inl NE_TextMismatch)
            else (case slice (ns_text sample) (p - n) p of
                    None \<Rightarrow> None
                  | Some candidate \<Rightarrow>
                      if candidate \<noteq> expected_units then Some (Inl NE_TextMismatch)
                      else Some (Inr \<lparr>nv_candidate_text_units = n, nv_selection_empty = True,
                                     nv_exact_preceding_text = True\<rparr>))))"

definition probe_standard_edit ::
  "edit_answers \<Rightarrow> edit_answers \<Rightarrow> ustr \<Rightarrow> (native_edit_probe_error + native_edit_evidence) option" where
  "probe_standard_edit os1 os2 expected =
     (if expected = [] then Some (Inl NE_TextMismatch)
      else (case read_sample os1 of
              None \<Rightarrow> None
            | Some (Inl e) \<Rightarrow> Some (Inl e)
            | Some (Inr a) \<Rightarrow>
               (case read_sample os2 of
                  None \<Rightarrow> None
                | Some (Inl e) \<Rightarrow> Some (Inl e)
                | Some (Inr b) \<Rightarrow>
                   (case ensure_stable a b of
                      Inl e \<Rightarrow> Some (Inl e)
                    | Inr sample \<Rightarrow> validate_sample sample expected))))"

subsection \<open>What a positive answer means\<close>

definition wf_sample :: "native_edit_sample \<Rightarrow> bool" where
  "wf_sample s \<longleftrightarrow> ns_start s \<le> ns_end s \<and> unat (ns_end s) \<le> length (ns_text s) \<and>
     from_utf16_lossy (ns_class_name s) = lit ''Edit'' \<and> ns_style s AND ES_PASSWORD = 0"

lemma read_sample_wf: "read_sample os = Some (Inr s) \<Longrightarrow> wf_sample s"
  by (auto simp: read_sample_def wf_sample_def Let_def not_less split: if_splits sum.splits option.splits prod.splits)

lemma read_sample_total: "ea_class_len os \<le> 32 \<Longrightarrow> read_sample os \<noteq> None"
  by (auto simp: read_sample_def Let_def split: sum.splits option.splits)

text \<open>The expected text stands directly before the caret.\<close>

definition text_before_caret :: "native_edit_sample \<Rightarrow> ustr \<Rightarrow> bool" where
  "text_before_caret s expected \<longleftrightarrow>
     (\<exists>front back. ns_text s = front @ utf16 expected @ back \<and>
        length (front @ utf16 expected) = unat (ns_start s))"

lemma slice_before:
  assumes "p \<le> length xs"
  shows "(n \<le> p \<and> slice xs (p - n) p = Some ys \<and> length ys = n) \<longleftrightarrow>
    (\<exists>front back. xs = front @ ys @ back \<and> length (front @ ys) = p \<and> length ys = n)"
proof
  assume "n \<le> p \<and> slice xs (p - n) p = Some ys \<and> length ys = n"
  then have a: "n \<le> p" "ys = take n (drop (p - n) xs)" "length ys = n"
    by (auto simp: slice_def split: if_splits)
  then have "xs = take (p - n) xs @ ys @ drop p xs"
    by (metis append_take_drop_id drop_drop le_add_diff_inverse2 add.commute)
  with a assms show "\<exists>front back. xs = front @ ys @ back \<and> length (front @ ys) = p \<and> length ys = n"
    by (intro exI [of _ "take (p - n) xs"] exI [of _ "drop p xs"]) simp
next
  assume "\<exists>front back. xs = front @ ys @ back \<and> length (front @ ys) = p \<and> length ys = n"
  then show "n \<le> p \<and> slice xs (p - n) p = Some ys \<and> length ys = n" by (auto simp: slice_def)
qed

lemma validate_sample_iff:
  assumes "wf_sample s"
  shows "validate_sample s expected \<noteq> None \<and>
    ((\<exists>v. validate_sample s expected = Some (Inr v)) \<longleftrightarrow> ns_start s = ns_end s \<and> text_before_caret s expected)"
proof -
  let ?u = "utf16 expected" and ?p = "unat (ns_start s)"
  have p: "?p \<le> length (ns_text s)"
    using assms by (simp add: wf_sample_def word_le_nat_alt)
  have "slice (ns_text s) (?p - length ?u) ?p \<noteq> None" using p by (simp add: slice_def)
  with slice_before [OF p, of "length ?u" ?u] show ?thesis
    by (auto simp: validate_sample_def text_before_caret_def Let_def split: option.splits if_splits)
qed

text \<open>
  The edit probe is exact: with class names as long as the documentation allows it never goes
  out of range, and it answers positively exactly when the expected text is not empty, both readings
  gave the same sample, the selection is empty and the text directly before the caret is the
  expected text, unit for unit; the sample is then a plain edit control without the password style.
\<close>

lemma edit_probe_exact:
  assumes "ea_class_len os1 \<le> 32" and "ea_class_len os2 \<le> 32"
  shows "probe_standard_edit os1 os2 expected \<noteq> None \<and>
    ((\<exists>v. probe_standard_edit os1 os2 expected = Some (Inr v)) \<longleftrightarrow>
      expected \<noteq> [] \<and> (\<exists>s. read_sample os1 = Some (Inr s) \<and> read_sample os2 = Some (Inr s) \<and> wf_sample s \<and>
        ns_start s = ns_end s \<and> text_before_caret s expected))"
proof -
  obtain r1 r2 where r: "read_sample os1 = Some r1" "read_sample os2 = Some r2"
    using read_sample_total assms by blast
  show ?thesis
  proof (cases r1)
    case (Inl e)
    with r show ?thesis by (simp add: probe_standard_edit_def)
  next
    case a: (Inr a)
    show ?thesis
    proof (cases r2)
      case (Inl e)
      with r a show ?thesis by (simp add: probe_standard_edit_def)
    next
      case (Inr b)
      with r a validate_sample_iff [of a expected] read_sample_wf [of os1 a] show ?thesis
        by (auto simp: probe_standard_edit_def ensure_stable_def)
    qed
  qed
qed

definition sample_answers :: edit_answers where
  "sample_answers = \<lparr>ea_thread_id = 1, ea_class_len = 4, ea_class_units = utf16 (lit ''Edit''), ea_style = 0,
     ea_text_len = 6, ea_copied = 6, ea_text_units = utf16 (lit ''a test''), ea_selection = Some (6, 6)\<rparr>"

lemma edit_probe_exact_witness:
  "\<exists>v. probe_standard_edit sample_answers sample_answers (lit ''test'') = Some (Inr v)"
proof -
  let ?s = "\<lparr>ns_class_name = utf16 (lit ''Edit''), ns_style = 0, ns_text = utf16 (lit ''a test''), ns_start = 6, ns_end = 6\<rparr>"
  have "from_utf16_lossy (utf16 (lit ''Edit'')) = lit ''Edit''"
    by (rule from_utf16_lossy_utf16) (simp add: is_scalar_def)
  then have r: "read_sample sample_answers = Some (Inr ?s)"
    by (simp add: read_sample_def sample_answers_def read_window_text_def filled_def utf16_def utf16_char_def)
  have "text_before_caret ?s (lit ''test'')"
    unfolding text_before_caret_def
    by (rule exI [of _ "utf16 (lit ''a '')"], rule exI [of _ "[]"]) (simp add: utf16_def utf16_char_def)
  moreover have "ea_class_len sample_answers \<le> 32" by (simp add: sample_answers_def)
  moreover have "lit ''test'' \<noteq> []" "ns_start ?s = ns_end ?s" by simp_all
  ultimately show ?thesis
    using r read_sample_wf [OF r] edit_probe_exact [of sample_answers sample_answers "lit ''test''"] by blast
qed

end
