(* ===== verification/Hook.thy ===== *)
theory Hook
  imports Native Processor
begin

text \<open>
  The keyboard hook of zonkey-win (\<open>native.rs\<close>): the callback writes to a bounded bridge, the
  observe source reads from it between the messages of its thread, maps the events and tracks the
  modifiers.  The callbacks interleave with the source, so the steps are a relation; the function
  \<open>next_event\<close> is one of its schedules.
\<close>

subsection \<open>Bridges in general\<close>

text \<open>
  A bridge is fed by \<open>capture\<close> and read by \<open>take_event\<close> (whose flag says whether the lock was
  free); other moves close it or forget what is queued.  A run collects what was taken.
\<close>

inductive bridge_run ::
  "('c \<Rightarrow> 's \<Rightarrow> 's) \<Rightarrow> (bool \<Rightarrow> 's \<Rightarrow> observed_input_event option \<times> 's) \<Rightarrow> ('m \<Rightarrow> 's \<Rightarrow> 's)
    \<Rightarrow> 's \<Rightarrow> observed_input_event list \<Rightarrow> 's \<Rightarrow> bool"
  for capture and take_event and other and s0 where
  started: "bridge_run capture take_event other s0 [] s0"
| captured: "bridge_run capture take_event other s0 es s \<Longrightarrow> bridge_run capture take_event other s0 es (capture c s)"
| taken: "bridge_run capture take_event other s0 es s \<Longrightarrow> take_event lock_free s = (Some e, s') \<Longrightarrow>
    bridge_run capture take_event other s0 (es @ [e]) s'"
| missed: "bridge_run capture take_event other s0 es s \<Longrightarrow> take_event lock_free s = (None, s') \<Longrightarrow>
    bridge_run capture take_event other s0 es s'"
| moved: "bridge_run capture take_event other s0 es s \<Longrightarrow> bridge_run capture take_event other s0 es (other m s)"

definition event_number :: "observed_input_event \<Rightarrow> u64" where
  "event_number e = sequence_get (oe_sequence e)"

locale numbered_bridge =
  fixes capture :: "'c \<Rightarrow> 's \<Rightarrow> 's"
    and take_event :: "bool \<Rightarrow> 's \<Rightarrow> observed_input_event option \<times> 's"
    and other :: "'m \<Rightarrow> 's \<Rightarrow> 's"
    and queued :: "'s \<Rightarrow> u64 list"
    and top :: "'s \<Rightarrow> u64"
    and bound :: nat
  assumes capture_law: "queued (capture c s) = queued s \<and> top s \<le> top (capture c s) \<or>
      top s < top (capture c s) \<and> queued (capture c s) = queued s @ [top (capture c s)] \<and> length (queued s) < bound"
    and take_some: "take_event lock_free s = (Some e, s') \<Longrightarrow>
      top s' = top s \<and> queued s = event_number e # queued s' \<and> wf_event e"
    and take_none: "take_event lock_free s = (None, s') \<Longrightarrow>
      top s' = top s \<and> (queued s' = queued s \<or> queued s' = tl (queued s))"
    and other_law: "top (other m s) = top s \<and> (queued (other m s) = queued s \<or> queued (other m s) = [])"
begin

definition in_order :: "observed_input_event list \<Rightarrow> 's \<Rightarrow> bool" where
  "in_order es s \<longleftrightarrow> sorted_wrt (<) (map event_number es @ queued s) \<and>
     (\<forall>n \<in> set (map event_number es @ queued s). n \<le> top s) \<and> length (queued s) \<le> bound \<and> list_all wf_event es"

lemma in_order_drop:
  "in_order es s \<Longrightarrow> top s' = top s \<Longrightarrow> queued s' = queued s \<or> queued s' = tl (queued s) \<Longrightarrow> in_order es s'"
  by (cases "queued s") (auto simp: in_order_def sorted_wrt_append)

lemma run_in_order:
  assumes "bridge_run capture take_event other s0 es s" and "queued s0 = []"
  shows "in_order es s"
  using assms(1)
proof (induction rule: bridge_run.induct)
  case started
  then show ?case using assms(2) by (simp add: in_order_def)
next
  case (captured es s c)
  from capture_law [of c s] show ?case
  proof
    assume "queued (capture c s) = queued s \<and> top s \<le> top (capture c s)"
    with captured.IH show ?thesis by (auto simp: in_order_def intro: order_trans)
  next
    assume a: "top s < top (capture c s) \<and> queued (capture c s) = queued s @ [top (capture c s)] \<and> length (queued s) < bound"
    then have "n \<le> top s \<Longrightarrow> n < top (capture c s)" for n by (blast intro: order_le_less_trans)
    with a captured.IH show ?thesis by (force simp: in_order_def sorted_wrt_append)
  qed
next
  case (taken es s lock_free e s')
  from take_some [OF taken.hyps(2)] taken.IH show ?case by (auto simp: in_order_def)
next
  case (missed es s lock_free s')
  from take_none [OF missed.hyps(2)] missed.IH show ?case by (auto intro: in_order_drop)
next
  case (moved es s m)
  with other_law [of m s] show ?case by (auto simp: in_order_def sorted_wrt_append)
qed

end

subsection \<open>The hook's bridge\<close>

definition BRIDGE_CAPACITY :: nat where
  "BRIDGE_CAPACITY = 256"

record bridge_state =
  br_events :: "native_keyboard_event list"
  br_sequence :: u64
  br_dropped :: u64
  br_active :: bool

definition bridge_new :: bridge_state where
  "bridge_new = \<lparr>br_events = [], br_sequence = 0, br_dropped = 0, br_active = False\<rparr>"

definition bridge_push :: "bridge_state \<Rightarrow> native_keyboard_event \<Rightarrow> bool \<times> bridge_state" where
  "bridge_push b event =
     (if length (br_events b) \<ge> BRIDGE_CAPACITY then (False, b\<lparr>br_dropped := saturating_inc (br_dropped b)\<rparr>)
      else (True, b\<lparr>br_events := br_events b @ [event]\<rparr>))"

record hook_counters =
  hc_callback_invocations :: u64
  hc_supported_messages :: u64
  hc_mapping_attempts :: u64
  hc_mapping_success :: u64
  hc_mapping_rejected :: u64
  hc_bridge_enqueued :: u64
  hc_bridge_full_drops :: u64
  hc_bridge_lock_drops :: u64

definition counters_zero :: hook_counters where
  "counters_zero =
     \<lparr>hc_callback_invocations = 0, hc_supported_messages = 0, hc_mapping_attempts = 0, hc_mapping_success = 0,
      hc_mapping_rejected = 0, hc_bridge_enqueued = 0, hc_bridge_full_drops = 0, hc_bridge_lock_drops = 0\<rparr>"

record windows_observe_source =
  ws_tracker :: modifier_tracker
  ws_stopped :: bool
  ws_shutdown_requested :: bool

text \<open>The statics of the module and the source that owns the hook.\<close>

record hook =
  hk_bridge :: bridge_state
  hk_counters :: hook_counters
  hk_source :: windows_observe_source

text \<open>
  One callback: the code, whether a structure came with it, the message (if it fits 32 bits), the
  key and its flags, and whether the lock was free.  The posted wake message is a flag of the result.
\<close>

record hook_call =
  ca_code :: int
  ca_has_data :: bool
  ca_message :: "u32 option"
  ca_virtual_key :: u32
  ca_flags :: u32
  ca_lock_free :: bool

definition count_message :: "u32 \<Rightarrow> hook_counters \<Rightarrow> hook_counters" where
  "count_message message n =
     (if is_supported_message message then n\<lparr>hc_supported_messages := hc_supported_messages n + 1\<rparr>
      else n\<lparr>hc_mapping_rejected := hc_mapping_rejected n + 1\<rparr>)"

definition capture_event :: "u32 \<Rightarrow> u32 \<Rightarrow> u32 \<Rightarrow> bridge_state \<Rightarrow> hook_counters \<Rightarrow> bridge_state \<times> hook_counters \<times> bool" where
  "capture_event message virtual_key flags b n =
     (if br_sequence b = - 1 then
        (b\<lparr>br_dropped := saturating_inc (br_dropped b)\<rparr>, n\<lparr>hc_bridge_full_drops := hc_bridge_full_drops n + 1\<rparr>, False)
      else
        (let sequence = br_sequence b + 1;
             (pushed, b') = bridge_push (b\<lparr>br_sequence := sequence\<rparr>)
               \<lparr>nk_message = message, nk_virtual_key = virtual_key, nk_flags = flags, nk_sequence = sequence\<rparr>
         in if pushed then (b', n\<lparr>hc_bridge_enqueued := hc_bridge_enqueued n + 1\<rparr>, True)
            else (b', n\<lparr>hc_bridge_full_drops := hc_bridge_full_drops n + 1\<rparr>, False)))"

definition low_level_keyboard_proc :: "hook_call \<Rightarrow> hook \<Rightarrow> hook \<times> bool" where
  "low_level_keyboard_proc call hk =
     (let n0 = hk_counters hk;
          n1 = (if ca_code call \<ge> 0 then n0\<lparr>hc_callback_invocations := hc_callback_invocations n0 + 1\<rparr> else n0)
      in if \<not> (ca_code call \<ge> 0 \<and> ca_has_data call) then (hk\<lparr>hk_counters := n1\<rparr>, False)
         else (case ca_message call of
                 None \<Rightarrow> (hk\<lparr>hk_counters := n1\<rparr>, False)
               | Some message \<Rightarrow>
                  (let n2 = count_message message n1 in
                   if \<not> ca_lock_free call then
                     (hk\<lparr>hk_counters := n2\<lparr>hc_bridge_lock_drops := hc_bridge_lock_drops n2 + 1\<rparr>\<rparr>, False)
                   else if \<not> br_active (hk_bridge hk) then (hk\<lparr>hk_counters := n2\<rparr>, False)
                   else (case capture_event message (ca_virtual_key call) (ca_flags call) (hk_bridge hk) n2 of
                           (b, n3, woken) \<Rightarrow> (hk\<lparr>hk_bridge := b, hk_counters := n3\<rparr>, woken)))))"

subsection \<open>The source\<close>

text \<open>\<open>WindowsObserveSource::new\<close>: the lock, the module handle and the hook may fail.\<close>

definition source_new :: "bool \<Rightarrow> bool \<Rightarrow> bool \<Rightarrow> hook \<Rightarrow> (observer_error + unit) \<times> hook" where
  "source_new lock_ok module_ok hook_ok hk =
     (if \<not> lock_ok then (Inl OE_Internal, hk)
      else if br_active (hk_bridge hk) then (Inl OE_StartupFailed, hk)
      else (let hk1 = hk\<lparr>hk_bridge := bridge_new, hk_counters := counters_zero\<rparr> in
            if \<not> module_ok \<or> \<not> hook_ok then (Inl OE_StartupFailed, hk1)
            else (Inr (), hk1\<lparr>hk_bridge := bridge_new\<lparr>br_active := True\<rparr>,
                    hk_source := \<lparr>ws_tracker = tracker_default, ws_stopped = False, ws_shutdown_requested = False\<rparr>\<rparr>)))"

definition next_mapped_event :: "bool \<Rightarrow> hook \<Rightarrow> observed_input_event option \<times> hook" where
  "next_mapped_event lock_free hk =
     (let n = hk_counters hk in
      if \<not> lock_free then (None, hk\<lparr>hk_counters := n\<lparr>hc_bridge_lock_drops := hc_bridge_lock_drops n + 1\<rparr>\<rparr>)
      else (case br_events (hk_bridge hk) of
              [] \<Rightarrow> (None, hk)
            | native # rest \<Rightarrow>
               (let b = (hk_bridge hk)\<lparr>br_events := rest\<rparr>;
                    n1 = n\<lparr>hc_mapping_attempts := hc_mapping_attempts n + 1\<rparr>
                in case map_native_event native (ws_tracker (hk_source hk)) of
                     None \<Rightarrow>
                       (None, hk\<lparr>hk_bridge := b,
                                 hk_counters := n1\<lparr>hc_mapping_rejected := hc_mapping_rejected n1 + 1\<rparr>\<rparr>)
                   | Some (event, tracker) \<Rightarrow>
                       (Some event, hk\<lparr>hk_bridge := b,
                          hk_counters := n1\<lparr>hc_mapping_success := hc_mapping_success n1 + 1\<rparr>,
                          hk_source := (hk_source hk)\<lparr>ws_tracker := tracker\<rparr>\<rparr>))))"

definition stop_accepting_events :: "hook \<Rightarrow> hook" where
  "stop_accepting_events hk = hk\<lparr>hk_bridge := (hk_bridge hk)\<lparr>br_active := False\<rparr>\<rparr>"

text \<open>
  One iteration of the read loop: whether the lock was free, the callbacks that ran while the
  message was awaited, and the message.
\<close>

datatype thread_message = TM_Failed | TM_Quit | TM_Other

record source_turn =
  st_lock_free :: bool
  st_calls :: "hook_call list"
  st_message :: thread_message

definition run_calls :: "hook_call list \<Rightarrow> hook \<Rightarrow> hook" where
  "run_calls calls hk = foldl (\<lambda>hk call. fst (low_level_keyboard_proc call hk)) hk calls"

fun next_event_loop ::
  "source_turn list \<Rightarrow> hook \<Rightarrow> ((observer_error + observed_input_event option) \<times> hook \<times> source_turn list) option" where
  "next_event_loop [] hk = None"
| "next_event_loop (turn # turns) hk =
     (case next_mapped_event (st_lock_free turn) hk of
        (Some event, hk1) \<Rightarrow> Some (Inr (Some event), hk1, turns)
      | (None, hk1) \<Rightarrow>
          if ws_shutdown_requested (hk_source hk1)
          then Some (Inr None, hk1\<lparr>hk_source := (hk_source hk1)\<lparr>ws_stopped := True\<rparr>\<rparr>, turns)
          else (let hk2 = run_calls (st_calls turn) hk1 in
                case st_message turn of
                  TM_Failed \<Rightarrow>
                    Some (Inl OE_EventSourceClosed,
                          stop_accepting_events (hk2\<lparr>hk_source := (hk_source hk2)\<lparr>ws_stopped := True\<rparr>\<rparr>), turns)
                | TM_Quit \<Rightarrow>
                    next_event_loop turns
                      ((stop_accepting_events hk2)\<lparr>hk_source := (hk_source hk2)\<lparr>ws_shutdown_requested := True\<rparr>\<rparr>)
                | TM_Other \<Rightarrow> next_event_loop turns hk2))"

definition next_event ::
  "source_turn list \<Rightarrow> hook \<Rightarrow> ((observer_error + observed_input_event option) \<times> hook \<times> source_turn list) option" where
  "next_event turns hk = (if ws_stopped (hk_source hk) then Some (Inr None, hk, turns) else next_event_loop turns hk)"

text \<open>The source is dropped.\<close>

definition source_drop :: "hook \<Rightarrow> hook" where
  "source_drop hk =
     hk\<lparr>hk_bridge := (hk_bridge hk)\<lparr>br_active := False, br_events := []\<rparr>,
        hk_source := (hk_source hk)\<lparr>ws_stopped := True\<rparr>\<rparr>"

definition dropped_events :: "bool \<Rightarrow> hook \<Rightarrow> u64" where
  "dropped_events lock_ok hk = (if lock_ok then br_dropped (hk_bridge hk) else - 1)"

subsection \<open>What the source delivers\<close>

datatype hook_move = HM_Stop | HM_Stopped | HM_Shutdown

fun hook_other :: "hook_move \<Rightarrow> hook \<Rightarrow> hook" where
  "hook_other HM_Stop hk = stop_accepting_events hk"
| "hook_other HM_Stopped hk = hk\<lparr>hk_source := (hk_source hk)\<lparr>ws_stopped := True\<rparr>\<rparr>"
| "hook_other HM_Shutdown hk = hk\<lparr>hk_source := (hk_source hk)\<lparr>ws_shutdown_requested := True\<rparr>\<rparr>"

abbreviation hook_run :: "hook \<Rightarrow> observed_input_event list \<Rightarrow> hook \<Rightarrow> bool" where
  "hook_run \<equiv> bridge_run (\<lambda>call hk. fst (low_level_keyboard_proc call hk)) next_mapped_event hook_other"

definition queued_numbers :: "hook \<Rightarrow> u64 list" where
  "queued_numbers hk = map nk_sequence (br_events (hk_bridge hk))"

lemma next_number: "n \<noteq> - 1 \<Longrightarrow> n < n + (1 :: u64)"
  by (metis add.commute add_eq_0_iff lessI unatSuc word_less_nat_alt)

lemma capture_cases:
  "queued_numbers (fst (low_level_keyboard_proc call hk)) = queued_numbers hk \<and>
     br_sequence (hk_bridge hk) \<le> br_sequence (hk_bridge (fst (low_level_keyboard_proc call hk))) \<or>
   br_sequence (hk_bridge hk) < br_sequence (hk_bridge (fst (low_level_keyboard_proc call hk))) \<and>
     queued_numbers (fst (low_level_keyboard_proc call hk)) =
       queued_numbers hk @ [br_sequence (hk_bridge (fst (low_level_keyboard_proc call hk)))] \<and>
     length (queued_numbers hk) < BRIDGE_CAPACITY"
  using next_number [of "br_sequence (hk_bridge hk)"]
  by (auto simp: low_level_keyboard_proc_def capture_event_def bridge_push_def queued_numbers_def Let_def
      split: option.split prod.splits if_splits)

lemma map_native_event_number:
  "map_native_event native t = Some (e, t') \<Longrightarrow> event_number e = nk_sequence native \<and> wf_event e"
  using map_key_total [of "nk_virtual_key native"]
  by (auto simp: map_native_event_def event_sequence_new_def wf_event_def event_number_def Let_def
      split: option.splits if_splits)

lemma hook_other_law:
  "br_sequence (hk_bridge (hook_other m hk)) = br_sequence (hk_bridge hk) \<and>
    (queued_numbers (hook_other m hk) = queued_numbers hk \<or> queued_numbers (hook_other m hk) = [])"
  by (cases m) (simp_all add: stop_accepting_events_def queued_numbers_def)

interpretation hook_bridge: numbered_bridge "\<lambda>call hk. fst (low_level_keyboard_proc call hk)" next_mapped_event
  hook_other queued_numbers "\<lambda>hk. br_sequence (hk_bridge hk)" BRIDGE_CAPACITY
proof (unfold_locales, goal_cases)
  case (1 c s)
  show ?case by (rule capture_cases)
next
  case (2 lock_free s e s')
  then show ?case
    by (auto simp: next_mapped_event_def queued_numbers_def Let_def dest: map_native_event_number
        split: if_splits list.splits option.splits)
next
  case (3 lock_free s s')
  then show ?case
    by (auto simp: next_mapped_event_def queued_numbers_def Let_def split: if_splits list.splits option.splits)
next
  case (4 m s)
  show ?case by (rule hook_other_law)
qed

lemma run_calls_run: "hook_run hk0 es hk \<Longrightarrow> hook_run hk0 es (run_calls calls hk)"
proof (induction calls arbitrary: hk)
  case (Cons c calls)
  from Cons.IH [OF bridge_run.captured [OF Cons.prems, of c]] show ?case by (simp add: run_calls_def)
qed (simp add: run_calls_def)

lemma next_event_loop_run:
  "next_event_loop turns hk = Some (r, hk', later) \<Longrightarrow> hook_run hk0 es hk \<Longrightarrow>
     hook_run hk0 (es @ (case r of Inr (Some e) \<Rightarrow> [e] | _ \<Rightarrow> [])) hk'"
proof (induction turns hk arbitrary: es rule: next_event_loop.induct)
  case (2 turn turns hk)
  obtain x hk1 where x: "next_mapped_event (st_lock_free turn) hk = (x, hk1)" by (rule prod.exhaust)
  show ?case
  proof (cases x)
    case (Some e)
    with 2(3) x bridge_run.taken [OF 2(4), of "st_lock_free turn" e hk1] show ?thesis by auto
  next
    case None
    note m = bridge_run.missed [OF 2(4) x [unfolded None]]
    note c = run_calls_run [OF m, of "st_calls turn"]
    let ?hk2 = "run_calls (st_calls turn) hk1"
    show ?thesis
    proof (cases "ws_shutdown_requested (hk_source hk1)")
      case True
      with 2(3) x None bridge_run.moved [OF m, of HM_Stopped] show ?thesis by auto
    next
      case False
      note more = False x None
      show ?thesis
      proof (cases "st_message turn")
        case TM_Failed
        with 2(3) more bridge_run.moved [OF bridge_run.moved [OF c, of HM_Stopped], of HM_Stop]
        show ?thesis by (auto simp: Let_def)
      next
        case TM_Quit
        let ?hk3 = "(stop_accepting_events ?hk2)\<lparr>hk_source := (hk_source ?hk2)\<lparr>ws_shutdown_requested := True\<rparr>\<rparr>"
        have l: "next_event_loop turns ?hk3 = Some (r, hk', later)" using 2(3) more TM_Quit by (simp add: Let_def)
        from bridge_run.moved [OF bridge_run.moved [OF c, of HM_Stop], of HM_Shutdown]
        have "hook_run hk0 es ?hk3" by (simp add: stop_accepting_events_def)
        from 2(1) [OF x [symmetric] None False refl TM_Quit l this] show ?thesis .
      next
        case TM_Other
        have l: "next_event_loop turns ?hk2 = Some (r, hk', later)" using 2(3) more TM_Other by (simp add: Let_def)
        from 2(2) [OF x [symmetric] None False refl TM_Other l c] show ?thesis .
      qed
    qed
  qed
qed simp

lemma next_event_run:
  "next_event turns hk = Some (r, hk', later) \<Longrightarrow> hook_run hk0 es hk \<Longrightarrow>
     hook_run hk0 (es @ (case r of Inr (Some e) \<Rightarrow> [e] | _ \<Rightarrow> [])) hk'"
  using next_event_loop_run by (auto simp: next_event_def split: if_splits)

text \<open>
  C22. The hook source delivers what was pressed, in order: however callbacks, readings and stops
  interleave after the source was installed, the delivered events carry strictly increasing
  sequence numbers, all below those still queued, they are well typed, and the bridge never holds
  more than 256 events; the read loop of the source is one such interleaving.
\<close>

theorem hook_delivers_in_order:
  assumes "source_new lock_ok module_ok hook_ok hk = (Inr (), hk0)" and "hook_run hk0 es hk1"
  shows "sorted_wrt (<) (map event_number es @ queued_numbers hk1) \<and> list_all wf_event es \<and>
    length (br_events (hk_bridge hk1)) \<le> 256 \<and>
    (\<forall>turns r hk2 later. next_event turns hk1 = Some (r, hk2, later) \<longrightarrow>
       hook_run hk0 (es @ (case r of Inr (Some e) \<Rightarrow> [e] | _ \<Rightarrow> [])) hk2)"
proof -
  have "queued_numbers hk0 = []"
    using assms(1) by (auto simp: source_new_def queued_numbers_def bridge_new_def Let_def split: if_splits)
  from hook_bridge.run_in_order [OF assms(2) this] next_event_run [OF _ assms(2)] show ?thesis
    unfolding hook_bridge.in_order_def by (simp add: queued_numbers_def BRIDGE_CAPACITY_def)
qed

definition idle_hook :: hook where
  "idle_hook = \<lparr>hk_bridge = bridge_new, hk_counters = counters_zero,
     hk_source = \<lparr>ws_tracker = tracker_default, ws_stopped = True, ws_shutdown_requested = False\<rparr>\<rparr>"

definition key_call :: "u32 \<Rightarrow> u32 \<Rightarrow> hook_call" where
  "key_call message vk = \<lparr>ca_code = 0, ca_has_data = True, ca_message = Some message, ca_virtual_key = vk,
     ca_flags = 0, ca_lock_free = True\<rparr>"

lemma hook_delivers_in_order_witness:
  "\<exists>hk0 hk2. source_new True True True idle_hook = (Inr (), hk0) \<and>
     hook_run hk0 [] (run_calls [key_call 0x100 0x41, key_call 0x101 0x41] hk0) \<and>
     queued_numbers (run_calls [key_call 0x100 0x41, key_call 0x101 0x41] hk0) = [1, 2] \<and>
     (\<exists>e. next_event [\<lparr>st_lock_free = True, st_calls = [], st_message = TM_Other\<rparr>]
       (run_calls [key_call 0x100 0x41, key_call 0x101 0x41] hk0) = Some (Inr (Some e), hk2, []) \<and> hook_run hk0 [e] hk2)"
proof -
  obtain hk0 where n: "source_new True True True idle_hook = (Inr (), hk0)"
    by (simp add: source_new_def idle_hook_def bridge_new_def Let_def)
  let ?hk1 = "run_calls [key_call 0x100 0x41, key_call 0x101 0x41] hk0"
  let ?turn = "\<lparr>st_lock_free = True, st_calls = [], st_message = TM_Other\<rparr>"
  have r: "hook_run hk0 [] ?hk1" by (rule run_calls_run [OF bridge_run.started])
  have hk0: "br_events (hk_bridge hk0) = []" "br_sequence (hk_bridge hk0) = 0" "br_active (hk_bridge hk0)"
    "\<not> ws_stopped (hk_source hk0)"
    using n by (auto simp: source_new_def idle_hook_def bridge_new_def Let_def)
  note run = run_calls_def key_call_def low_level_keyboard_proc_def capture_event_def bridge_push_def Let_def
    BRIDGE_CAPACITY_def
  have b: "map nk_sequence (br_events (hk_bridge ?hk1)) = [1, 2]" "\<not> ws_stopped (hk_source ?hk1)"
    "nk_message (hd (br_events (hk_bridge ?hk1))) = 0x100"
    using hk0 by (simp_all add: run)
  then obtain native rest where q: "br_events (hk_bridge ?hk1) = native # rest" "nk_sequence native = 1"
    "nk_message native = 0x100" by auto
  have "map_native_event native (ws_tracker (hk_source ?hk1)) \<noteq> None"
    using map_key_total [of "nk_virtual_key native"] q
    by (auto simp: map_native_event_def message_kind_def event_sequence_new_def Let_def split: option.split)
  then obtain e t where "map_native_event native (ws_tracker (hk_source ?hk1)) = Some (e, t)" by auto
  then obtain hk2 where e: "next_event [?turn] ?hk1 = Some (Inr (Some e), hk2, [])"
    using q b(2) by (simp add: next_event_def next_mapped_event_def Let_def)
  from hook_delivers_in_order [OF n r] e have "hook_run hk0 [e] hk2" by fastforce
  with n r b(1) e show ?thesis unfolding queued_numbers_def by (intro exI conjI) assumption+
qed

subsection \<open>Accounting and losses\<close>

text \<open>Until the sequence is exhausted, every captured event is counted once and every read once.\<close>

definition accounted :: "observed_input_event list \<Rightarrow> hook \<Rightarrow> bool" where
  "accounted es hk \<longleftrightarrow> br_sequence (hk_bridge hk) = - 1 \<or>
     hc_bridge_enqueued (hk_counters hk) + hc_bridge_full_drops (hk_counters hk) = br_sequence (hk_bridge hk) \<and>
     br_dropped (hk_bridge hk) = hc_bridge_full_drops (hk_counters hk) \<and>
     br_dropped (hk_bridge hk) \<le> br_sequence (hk_bridge hk) \<and>
     hc_mapping_attempts (hk_counters hk) + of_nat (length (br_events (hk_bridge hk))) =
       hc_bridge_enqueued (hk_counters hk) \<and>
     hc_mapping_success (hk_counters hk) = of_nat (length es)"

lemma callback_accounted: "accounted es hk \<Longrightarrow> accounted es (fst (low_level_keyboard_proc call hk))"
proof -
  assume a: "accounted es hk"
  let ?b = "hk_bridge hk"
  have le: "br_dropped ?b \<noteq> - 1 \<and> br_dropped ?b + 1 \<le> br_sequence ?b + 1 \<and> br_dropped ?b \<le> br_sequence ?b + 1"
    if "br_dropped ?b \<le> br_sequence ?b" "br_sequence ?b \<noteq> - 1"
    using that next_number [OF that(2)]
    by (metis (no_types, lifting) inc_le max_word_max order.trans order_le_less order_less_le_trans antisym_conv)
  show ?thesis
    using a le
    by (auto simp: accounted_def low_level_keyboard_proc_def capture_event_def bridge_push_def count_message_def
        saturating_inc_def Let_def algebra_simps split: option.split)
qed

lemma take_accounted:
  "accounted es hk \<Longrightarrow> next_mapped_event lock_free hk = (r, hk') \<Longrightarrow>
     accounted (es @ (case r of None \<Rightarrow> [] | Some e \<Rightarrow> [e])) hk'"
  by (auto simp: accounted_def next_mapped_event_def Let_def algebra_simps
      split: if_splits list.splits option.splits)

lemma run_accounted: "hook_run hk0 es hk \<Longrightarrow> accounted [] hk0 \<Longrightarrow> accounted es hk"
proof (induction rule: bridge_run.induct)
  case (captured es s c)
  then show ?case by (simp add: callback_accounted)
next
  case (taken es s lock_free e s')
  from take_accounted [OF taken.IH [OF taken.prems] taken.hyps(2)] show ?case by simp
next
  case (missed es s lock_free s')
  from take_accounted [OF missed.IH [OF missed.prems] missed.hyps(2)] show ?case by simp
next
  case (moved es s m)
  then show ?case by (cases m) (simp_all add: accounted_def stop_accepting_events_def)
qed

text \<open>
  The hook's counters account for every captured event: until the sequence numbers are
  exhausted, the events that were queued and those dropped because the bridge was full add up to
  the last sequence number, each queued event was read or is still queued, and the successful
  mappings are the delivered events; the bridge's own drop counter is the full-bridge counter.
\<close>

lemma hook_accounting:
  assumes "source_new lock_ok module_ok hook_ok hk = (Inr (), hk0)" and "hook_run hk0 es hk1"
    and "br_sequence (hk_bridge hk1) \<noteq> - 1"
  shows "hc_bridge_enqueued (hk_counters hk1) + br_dropped (hk_bridge hk1) = br_sequence (hk_bridge hk1) \<and>
    br_dropped (hk_bridge hk1) = hc_bridge_full_drops (hk_counters hk1) \<and>
    hc_mapping_attempts (hk_counters hk1) + of_nat (length (br_events (hk_bridge hk1))) =
      hc_bridge_enqueued (hk_counters hk1) \<and>
    hc_mapping_success (hk_counters hk1) = of_nat (length es)"
proof -
  have "accounted [] hk0"
    using assms(1)
    by (auto simp: source_new_def accounted_def bridge_new_def counters_zero_def Let_def split: if_splits)
  from run_accounted [OF assms(2) this] assms(3) show ?thesis by (simp add: accounted_def)
qed

lemma hook_accounting_witness:
  "\<exists>hk0. source_new True True True idle_hook = (Inr (), hk0) \<and>
     hc_bridge_enqueued (hk_counters (run_calls [key_call 0x100 0x41] hk0)) = 1 \<and>
     br_dropped (hk_bridge (run_calls [key_call 0x100 0x41] hk0)) = 0"
proof -
  obtain hk0 where n: "source_new True True True idle_hook = (Inr (), hk0)"
    by (simp add: source_new_def idle_hook_def bridge_new_def Let_def)
  let ?hk1 = "run_calls [key_call 0x100 0x41] hk0"
  have r: "hook_run hk0 [] ?hk1" by (rule run_calls_run [OF bridge_run.started])
  have "br_sequence (hk_bridge ?hk1) = 1" "br_events (hk_bridge ?hk1) \<noteq> []" "br_dropped (hk_bridge ?hk1) = 0"
    using n by (auto simp: source_new_def idle_hook_def bridge_new_def run_calls_def key_call_def
        low_level_keyboard_proc_def capture_event_def bridge_push_def BRIDGE_CAPACITY_def Let_def)
  with hook_accounting [OF n r] n show ?thesis by simp
qed

text \<open>The processor never looks at the sequence number.\<close>

lemma processor_ignores_number:
  "process_decision U p (e\<lparr>oe_sequence := n\<rparr>) = process_decision U p e"
proof -
  have parts: "update_shortcut_state p (e\<lparr>oe_sequence := n\<rparr>) = update_shortcut_state p e"
    "shortcut_active q (e\<lparr>oe_sequence := n\<rparr>) = shortcut_active q e"
    "boundary_for (e\<lparr>oe_sequence := n\<rparr>) = boundary_for e" "key_character (e\<lparr>oe_sequence := n\<rparr>) = key_character e" for q
    by (simp_all add: update_shortcut_state_def shortcut_active_def boundary_for_def key_character_def
        split: option.split)
  have kept: "oe_kind (e\<lparr>oe_sequence := n\<rparr>) = oe_kind e" "oe_key (e\<lparr>oe_sequence := n\<rparr>) = oe_key e"
    "oe_injection_origin (e\<lparr>oe_sequence := n\<rparr>) = oe_injection_origin e"
    by simp_all
  show ?thesis unfolding process_decision_def parts kept by (rule refl)
qed

text \<open>
  A key lost at the bridge leaves no mark: when the bridge is full, a callback only advances the
  sequence number and the drop counter, the queued events are those from before, and the gap in the
  numbers is the only trace in what the source delivers; the decision processor does the same
  whatever the number is, so it continues the word as if the key had not been pressed.
\<close>

lemma bridge_loss_unseen:
  assumes "BRIDGE_CAPACITY \<le> length (br_events (hk_bridge hk))" and "br_active (hk_bridge hk)"
    and "br_sequence (hk_bridge hk) \<noteq> - 1"
  shows "hk_bridge (fst (low_level_keyboard_proc (key_call message vk) hk)) =
      (hk_bridge hk)\<lparr>br_sequence := br_sequence (hk_bridge hk) + 1, br_dropped := saturating_inc (br_dropped (hk_bridge hk))\<rparr> \<and>
    hk_source (fst (low_level_keyboard_proc (key_call message vk) hk)) = hk_source hk \<and>
    process_decision U p (e\<lparr>oe_sequence := n\<rparr>) = process_decision U p e"
  using assms
  by (auto simp: low_level_keyboard_proc_def key_call_def capture_event_def bridge_push_def Let_def
      processor_ignores_number split: prod.split)

lemma bridge_loss_unseen_witness:
  "\<exists>hk. length (br_events (hk_bridge hk)) = 256 \<and>
     br_events (hk_bridge (fst (low_level_keyboard_proc (key_call 0x100 0x41) hk))) = br_events (hk_bridge hk) \<and>
     br_dropped (hk_bridge (fst (low_level_keyboard_proc (key_call 0x100 0x41) hk))) = 1"
proof -
  let ?b = "\<lparr>br_events = replicate 256 shift_a, br_sequence = 256, br_dropped = 0, br_active = True\<rparr>"
  let ?hk = "idle_hook\<lparr>hk_bridge := ?b\<rparr>"
  have "BRIDGE_CAPACITY \<le> length (br_events (hk_bridge ?hk))" "br_active (hk_bridge ?hk)" "br_sequence (hk_bridge ?hk) \<noteq> - 1"
    by (simp_all add: BRIDGE_CAPACITY_def)
  from bridge_loss_unseen [OF this] have
    "hk_bridge (fst (low_level_keyboard_proc (key_call 0x100 0x41) ?hk)) = ?b\<lparr>br_sequence := 256 + 1, br_dropped := saturating_inc 0\<rparr>"
    by simp
  then show ?thesis by (intro exI [of _ ?hk]) (simp add: saturating_inc_def)
qed

end
