(* ===== verification/RawInput.thy ===== *)
theory RawInput
  imports Hook
begin

text \<open>
  The Raw Input observer of zonkey-win (\<open>raw.rs\<close>): the same bridge discipline behind a message-only
  window.  It satisfies the bridge contract of the hook, so what is proved of bridges holds for it.
\<close>

record raw_bridge_state =
  rb_events :: "raw_keyboard_event list"
  rb_sequence :: u64
  rb_active :: bool

definition raw_bridge_new :: raw_bridge_state where
  "raw_bridge_new = \<lparr>rb_events = [], rb_sequence = 0, rb_active = False\<rparr>"

definition raw_push :: "raw_bridge_state \<Rightarrow> raw_keyboard_event \<Rightarrow> bool \<times> raw_bridge_state" where
  "raw_push b event =
     (if length (rb_events b) \<ge> BRIDGE_CAPACITY then (False, b)
      else (True, b\<lparr>rb_events := rb_events b @ [event]\<rparr>))"

record raw_counters =
  rc_messages :: u64
  rc_keyboard_packets :: u64
  rc_mapping_attempts :: u64
  rc_mapping_success :: u64
  rc_mapping_rejected :: u64
  rc_bridge_enqueued :: u64
  rc_bridge_full_drops :: u64

record raw_input_source =
  ri_tracker :: modifier_tracker
  ri_stopped :: bool
  ri_shutdown_requested :: bool

record raw_observer =
  ro_bridge :: raw_bridge_state
  ro_counters :: raw_counters
  ro_source :: raw_input_source

text \<open>
  A window message: whether it is \<open>WM_INPUT\<close>, whether the size query gave a usable size, whether the
  packet was copied and is a keyboard packet, its fields, and whether the lock was free.
\<close>

record window_message =
  wm_is_input :: bool
  wm_size_ok :: bool
  wm_is_keyboard :: bool
  wm_virtual_key :: u16
  wm_flags :: u16
  wm_keyboard_message :: u32
  wm_lock_free :: bool

definition raw_capture :: "window_message \<Rightarrow> raw_bridge_state \<Rightarrow> raw_counters \<Rightarrow> raw_bridge_state \<times> raw_counters" where
  "raw_capture m b n =
     (if rb_sequence b = - 1 then (b, n\<lparr>rc_bridge_full_drops := rc_bridge_full_drops n + 1\<rparr>)
      else (let sequence = rb_sequence b + 1;
                (pushed, b') = raw_push (b\<lparr>rb_sequence := sequence\<rparr>)
                  \<lparr>rk_virtual_key = ucast (wm_virtual_key m), rk_flags = ucast (wm_flags m),
                   rk_message = wm_keyboard_message m, rk_sequence = sequence\<rparr>
            in if pushed then (b', n\<lparr>rc_bridge_enqueued := rc_bridge_enqueued n + 1\<rparr>)
               else (b', n\<lparr>rc_bridge_full_drops := rc_bridge_full_drops n + 1\<rparr>)))"

definition raw_window_proc :: "window_message \<Rightarrow> raw_observer \<Rightarrow> raw_observer" where
  "raw_window_proc m ob =
     (if \<not> wm_is_input m then ob
      else (let n0 = ro_counters ob; n1 = n0\<lparr>rc_messages := rc_messages n0 + 1\<rparr> in
            if \<not> (wm_size_ok m \<and> wm_is_keyboard m) then ob\<lparr>ro_counters := n1\<rparr>
            else (let n2 = n1\<lparr>rc_keyboard_packets := rc_keyboard_packets n1 + 1\<rparr> in
                  if \<not> (wm_lock_free m \<and> rb_active (ro_bridge ob)) then ob\<lparr>ro_counters := n2\<rparr>
                  else (case raw_capture m (ro_bridge ob) n2 of
                          (b, n3) \<Rightarrow> ob\<lparr>ro_bridge := b, ro_counters := n3\<rparr>))))"

definition raw_next_mapped_event :: "bool \<Rightarrow> raw_observer \<Rightarrow> observed_input_event option \<times> raw_observer" where
  "raw_next_mapped_event lock_free ob =
     (if \<not> lock_free then (None, ob)
      else (case rb_events (ro_bridge ob) of
              [] \<Rightarrow> (None, ob)
            | raw # rest \<Rightarrow>
               (let b = (ro_bridge ob)\<lparr>rb_events := rest\<rparr>;
                    n = ro_counters ob;
                    n1 = n\<lparr>rc_mapping_attempts := rc_mapping_attempts n + 1\<rparr>
                in case map_raw_event raw (ri_tracker (ro_source ob)) of
                     None \<Rightarrow>
                       (None, ob\<lparr>ro_bridge := b,
                                 ro_counters := n1\<lparr>rc_mapping_rejected := rc_mapping_rejected n1 + 1\<rparr>\<rparr>)
                   | Some (event, tracker) \<Rightarrow>
                       (Some event, ob\<lparr>ro_bridge := b,
                          ro_counters := n1\<lparr>rc_mapping_success := rc_mapping_success n1 + 1\<rparr>,
                          ro_source := (ro_source ob)\<lparr>ri_tracker := tracker\<rparr>\<rparr>))))"

definition raw_stop_accepting_events :: "raw_observer \<Rightarrow> raw_observer" where
  "raw_stop_accepting_events ob = ob\<lparr>ro_bridge := (ro_bridge ob)\<lparr>rb_active := False\<rparr>\<rparr>"

text \<open>
  \<open>RawInputSource::new\<close>: the module, the window and the registration may fail; a poisoned lock leaves
  the bridge as it was.
\<close>

definition raw_source_new :: "bool \<Rightarrow> bool \<Rightarrow> raw_observer \<Rightarrow> (observer_error + unit) \<times> raw_observer" where
  "raw_source_new window_ok lock_ok ob =
     (if \<not> window_ok then (Inl OE_StartupFailed, ob)
      else (Inr (), ob\<lparr>ro_bridge := (if lock_ok then raw_bridge_new\<lparr>rb_active := True\<rparr> else ro_bridge ob),
              ro_source := \<lparr>ri_tracker = tracker_default, ri_stopped = False, ri_shutdown_requested = False\<rparr>\<rparr>))"

text \<open>One iteration of the read loop; a message other than a quit is dispatched to the window.\<close>

datatype raw_thread_message = RM_Failed | RM_Quit | RM_Dispatched window_message

fun raw_next_event_loop ::
  "(bool \<times> raw_thread_message) list \<Rightarrow> raw_observer
    \<Rightarrow> ((observer_error + observed_input_event option) \<times> raw_observer \<times> (bool \<times> raw_thread_message) list) option" where
  "raw_next_event_loop [] ob = None"
| "raw_next_event_loop ((lock_free, message) # turns) ob =
     (case raw_next_mapped_event lock_free ob of
        (Some event, ob1) \<Rightarrow> Some (Inr (Some event), ob1, turns)
      | (None, ob1) \<Rightarrow>
          if ri_shutdown_requested (ro_source ob1)
          then Some (Inr None, ob1\<lparr>ro_source := (ro_source ob1)\<lparr>ri_stopped := True\<rparr>\<rparr>, turns)
          else (case message of
                  RM_Failed \<Rightarrow>
                    Some (Inl OE_EventSourceClosed,
                          raw_stop_accepting_events (ob1\<lparr>ro_source := (ro_source ob1)\<lparr>ri_stopped := True\<rparr>\<rparr>), turns)
                | RM_Quit \<Rightarrow>
                    raw_next_event_loop turns
                      ((raw_stop_accepting_events ob1)\<lparr>ro_source := (ro_source ob1)\<lparr>ri_shutdown_requested := True\<rparr>\<rparr>)
                | RM_Dispatched m \<Rightarrow> raw_next_event_loop turns (raw_window_proc m ob1)))"

definition raw_next_event where
  "raw_next_event turns ob =
     (if ri_stopped (ro_source ob) then Some (Inr None, ob, turns) else raw_next_event_loop turns ob)"

subsection \<open>The bridge contract\<close>

datatype raw_move = RW_Stop | RW_Stopped | RW_Shutdown

fun raw_other :: "raw_move \<Rightarrow> raw_observer \<Rightarrow> raw_observer" where
  "raw_other RW_Stop ob = raw_stop_accepting_events ob"
| "raw_other RW_Stopped ob = ob\<lparr>ro_source := (ro_source ob)\<lparr>ri_stopped := True\<rparr>\<rparr>"
| "raw_other RW_Shutdown ob = ob\<lparr>ro_source := (ro_source ob)\<lparr>ri_shutdown_requested := True\<rparr>\<rparr>"

definition raw_queued_numbers :: "raw_observer \<Rightarrow> u64 list" where
  "raw_queued_numbers ob = map rk_sequence (rb_events (ro_bridge ob))"

lemma map_raw_event_number:
  "map_raw_event raw t = Some (e, t') \<Longrightarrow> event_number e = rk_sequence raw \<and> wf_event e"
  using map_native_event_number by (fastforce simp: map_raw_event_def)

interpretation raw_bridge: numbered_bridge raw_window_proc raw_next_mapped_event raw_other raw_queued_numbers
  "\<lambda>ob. rb_sequence (ro_bridge ob)" BRIDGE_CAPACITY
proof (unfold_locales, goal_cases)
  case (1 c s)
  show ?case
    using next_number [of "rb_sequence (ro_bridge s)"]
    by (auto simp: raw_window_proc_def raw_capture_def raw_push_def raw_queued_numbers_def Let_def
        split: prod.splits if_splits)
next
  case (2 lock_free s e s')
  then show ?case
    by (auto simp: raw_next_mapped_event_def raw_queued_numbers_def Let_def dest: map_raw_event_number
        split: if_splits list.splits option.splits)
next
  case (3 lock_free s s')
  then show ?case
    by (auto simp: raw_next_mapped_event_def raw_queued_numbers_def Let_def
        split: if_splits list.splits option.splits)
next
  case (4 m s)
  show ?case by (cases m) (simp_all add: raw_stop_accepting_events_def raw_queued_numbers_def)
qed

abbreviation raw_run :: "raw_observer \<Rightarrow> observed_input_event list \<Rightarrow> raw_observer \<Rightarrow> bool" where
  "raw_run \<equiv> bridge_run raw_window_proc raw_next_mapped_event raw_other"

text \<open>What the raw observer delivers is in order, well typed and never marked as injected.\<close>

lemma raw_run_unmarked:
  "raw_run ob0 es ob \<Longrightarrow> list_all (\<lambda>e. oe_injection_origin e = IO_PhysicalOrUnmarked) es"
proof (induction rule: bridge_run.induct)
  case (taken es s lock_free e s')
  from taken.hyps(2) have "oe_injection_origin e = IO_PhysicalOrUnmarked"
    by (auto simp: raw_next_mapped_event_def map_raw_event_def map_native_event_def flags_origin_def Let_def
        split: if_splits list.splits option.splits)
  with taken.IH show ?case by simp
qed simp_all

lemma raw_delivers_in_order:
  assumes "raw_source_new True True ob = (Inr (), ob0)" and "raw_run ob0 es ob1"
  shows "sorted_wrt (<) (map event_number es @ raw_queued_numbers ob1) \<and>
    length (rb_events (ro_bridge ob1)) \<le> 256 \<and>
    list_all (\<lambda>e. wf_event e \<and> oe_injection_origin e = IO_PhysicalOrUnmarked) es"
proof -
  have "raw_queued_numbers ob0 = []"
    using assms(1) by (auto simp: raw_source_new_def raw_queued_numbers_def raw_bridge_new_def)
  from raw_bridge.run_in_order [OF assms(2) this] raw_run_unmarked [OF assms(2)] show ?thesis
    unfolding raw_bridge.in_order_def
    by (auto simp: raw_queued_numbers_def BRIDGE_CAPACITY_def list_all_iff)
qed

end
