(* ===== verification/Discovery.thy ===== *)
theory Discovery
  imports Wire
begin

text \<open>
  The discovery record of the endpoint (zonkey-win, \<open>endpoint_discovery.rs\<close>) and the choice of the
  pipe name (\<open>lib.rs\<close>, \<open>resolve_endpoint_pipe\<close>).  The discovery file lives on a disk of its own and is
  written with the durable replace flow of the store.
\<close>

definition ENDPOINT_PROTOCOL :: ustr where
  "ENDPOINT_PROTOCOL = lit ''zonkey.host-transport/1''"

record discovery_record =
  er_protocol :: ustr
  er_pipe :: ustr
  er_pid :: u32
  er_started_unix_ms :: u64

text \<open>The directory as its path components, from the two environment variables.\<close>

definition discovery_dir :: "ustr option \<Rightarrow> ustr option \<Rightarrow> ustr list option" where
  "discovery_dir override_dir local_app_data =
     (case override_dir of
        Some dir \<Rightarrow> Some [dir]
      | None \<Rightarrow> map_option (\<lambda>base. [base, lit ''ZonKey'']) local_app_data)"

definition crlf :: ustr where
  "crlf = [13, 10]"

definition endpoint_render :: "discovery_record \<Rightarrow> ustr" where
  "endpoint_render r =
     lit ''protocol='' @ er_protocol r @ crlf @ lit ''pipe='' @ er_pipe r @ crlf @
     lit ''pid='' @ show_nat (unat (er_pid r)) @ crlf @
     lit ''started_unix_ms='' @ show_u64 (er_started_unix_ms r) @ crlf"

record partial_record =
  pr_protocol :: "ustr option"
  pr_pipe :: "ustr option"
  pr_pid :: "u32 option"
  pr_started :: "u64 option"

definition parse_u32 :: "ustr \<Rightarrow> u32 option" where
  "parse_u32 s = map_option of_nat (parse_unsigned (2 ^ 32) s)"

definition parse_line :: "ustr \<Rightarrow> partial_record \<Rightarrow> partial_record option" where
  "parse_line line p =
     (case split_once (chr CHR ''='') line of
        None \<Rightarrow> None
      | Some (key, v) \<Rightarrow>
          if key = lit ''protocol'' then Some (p\<lparr>pr_protocol := Some v\<rparr>)
          else if key = lit ''pipe'' then Some (p\<lparr>pr_pipe := Some v\<rparr>)
          else if key = lit ''pid'' then Some (p\<lparr>pr_pid := parse_u32 v\<rparr>)
          else if key = lit ''started_unix_ms'' then Some (p\<lparr>pr_started := parse_u64 v\<rparr>)
          else None)"

fun parse_lines :: "ustr list \<Rightarrow> partial_record \<Rightarrow> partial_record option" where
  "parse_lines [] p = Some p"
| "parse_lines (line # lines) p = (case parse_line line p of None \<Rightarrow> None | Some p' \<Rightarrow> parse_lines lines p')"

definition endpoint_parse :: "ustr \<Rightarrow> discovery_record option" where
  "endpoint_parse s =
     (case parse_lines (lines_of s) \<lparr>pr_protocol = None, pr_pipe = None, pr_pid = None, pr_started = None\<rparr> of
        None \<Rightarrow> None
      | Some p \<Rightarrow>
         (case (pr_protocol p, pr_pipe p, pr_pid p, pr_started p) of
            (Some protocol, Some pipe, Some pid, Some started) \<Rightarrow>
              if protocol = ENDPOINT_PROTOCOL
              then Some \<lparr>er_protocol = protocol, er_pipe = pipe, er_pid = pid, er_started_unix_ms = started\<rparr>
              else None
          | _ \<Rightarrow> None))"

definition write_record_in :: "write_io \<Rightarrow> disk \<Rightarrow> discovery_record \<Rightarrow> bool \<times> disk" where
  "write_record_in io d r = durable_write_user_only io d (utf8 (endpoint_render r))"

definition write_record :: "ustr list option \<Rightarrow> write_io \<Rightarrow> disk \<Rightarrow> discovery_record \<Rightarrow> bool \<times> disk" where
  "write_record dir io d r = (case dir of None \<Rightarrow> (False, d) | Some _ \<Rightarrow> write_record_in io d r)"

definition read_record_in :: "disk \<Rightarrow> discovery_record option" where
  "read_record_in d =
     (case dk_state d of
        None \<Rightarrow> None
      | Some bs \<Rightarrow> (case from_utf8 bs of None \<Rightarrow> None | Some s \<Rightarrow> endpoint_parse s))"

definition read_record :: "ustr list option \<Rightarrow> disk \<Rightarrow> discovery_record option" where
  "read_record dir d = (case dir of None \<Rightarrow> None | Some _ \<Rightarrow> read_record_in d)"

definition remove_record_in :: "bool \<Rightarrow> disk \<Rightarrow> ustr \<Rightarrow> bool \<times> disk" where
  "remove_record_in removable d pipe =
     (case read_record_in d of
        Some r \<Rightarrow> if er_pipe r = pipe then (removable, if removable then d\<lparr>dk_state := None\<rparr> else d) else (True, d)
      | None \<Rightarrow> (True, d))"

definition remove_record :: "ustr list option \<Rightarrow> bool \<Rightarrow> disk \<Rightarrow> ustr \<Rightarrow> bool \<times> disk" where
  "remove_record dir removable d pipe =
     (case dir of None \<Rightarrow> (False, d) | Some _ \<Rightarrow> remove_record_in removable d pipe)"

text \<open>
  \<open>resolve_endpoint_pipe\<close>: the random bytes, the process id and the clock come from the system; the
  debug form of an error is a parameter.
\<close>

definition resolve_endpoint_pipe ::
  "(pipe_error \<Rightarrow> ustr) \<Rightarrow> ustr list option \<Rightarrow> write_io \<Rightarrow> disk \<Rightarrow> ustr + bytes \<Rightarrow> u32 \<Rightarrow> u64 \<Rightarrow> ustr \<Rightarrow> (ustr + ustr \<times> bool) \<times> disk" where
  "resolve_endpoint_pipe debug dir io d random pid started requested =
     (if requested \<noteq> lit ''auto'' then
        (if \<not> starts_with ([92, 92, 46, 92] @ lit ''pipe'' @ [92]) requested
         then (Inl (lit ''pipe name must be a local named pipe path''), d)
         else (Inr (requested, False), d))
      else (case generate_pipe_name random (lit ''svc'') of
              Inl e \<Rightarrow> (Inl (lit ''pipe name generation failed: '' @ debug e), d)
            | Inr generated \<Rightarrow>
               (case write_record dir io d \<lparr>er_protocol = ENDPOINT_PROTOCOL, er_pipe = generated, er_pid = pid,
                       er_started_unix_ms = started\<rparr> of
                  (False, d') \<Rightarrow> (Inl (lit ''endpoint discovery record could not be written''), d')
                | (True, d') \<Rightarrow> (Inr (generated, True), d'))))"

subsection \<open>Round trip\<close>

definition printable_line :: "ustr \<Rightarrow> bool" where
  "printable_line s \<longleftrightarrow> valid_str s \<and> 10 \<notin> set s"

lemma lines_crlf:
  "\<forall>l \<in> set ls. 10 \<notin> set l \<Longrightarrow> lines_of (concat (map (\<lambda>l. l @ crlf) ls)) = ls"
proof -
  assume a: "\<forall>l \<in> set ls. 10 \<notin> set l"
  have "split_on 10 (concat (map (\<lambda>l. l @ crlf) ls)) = map (\<lambda>l. l @ [13]) ls @ [[]]"
    using a
  proof (induction ls)
    case (Cons l ls)
    with split_on_line [of "l @ [13]" "concat (map (\<lambda>l. l @ crlf) ls)"] show ?case by (simp add: crlf_def)
  qed simp
  then show ?thesis by (simp add: lines_of_def strip_cr_def comp_def)
qed

lemma render_lines:
  "endpoint_render r = concat (map (\<lambda>l. l @ crlf)
     [lit ''protocol='' @ er_protocol r, lit ''pipe='' @ er_pipe r, lit ''pid='' @ show_nat (unat (er_pid r)),
      lit ''started_unix_ms='' @ show_u64 (er_started_unix_ms r)])"
  by (simp add: endpoint_render_def)

lemma parse_show_u32 [simp]: "parse_u32 (show_nat (unat (w :: u32))) = Some w"
  using unat_u32_lt [of w] by (simp add: parse_u32_def parse_show_nat)

lemma parse_line_key:
  "parse_line (lit ''protocol='' @ v) p = Some (p\<lparr>pr_protocol := Some v\<rparr>)"
  "parse_line (lit ''pipe='' @ v) p = Some (p\<lparr>pr_pipe := Some v\<rparr>)"
  "parse_line (lit ''pid='' @ v) p = Some (p\<lparr>pr_pid := parse_u32 v\<rparr>)"
  "parse_line (lit ''started_unix_ms='' @ v) p = Some (p\<lparr>pr_started := parse_u64 v\<rparr>)"
  by (simp_all add: parse_line_def)

lemma parse_render:
  assumes "10 \<notin> set (er_protocol r)" and "10 \<notin> set (er_pipe r)"
  shows "endpoint_parse (endpoint_render r) = (if er_protocol r = ENDPOINT_PROTOCOL then Some r else None)"
proof -
  have "10 \<notin> set (show_nat n)" for n using set_show_nat [of 10 n] by auto
  then have "\<forall>l \<in> set [lit ''protocol='' @ er_protocol r, lit ''pipe='' @ er_pipe r,
      lit ''pid='' @ show_nat (unat (er_pid r)), lit ''started_unix_ms='' @ show_u64 (er_started_unix_ms r)]. 10 \<notin> set l"
    using assms by (simp add: show_u64_def)
  from lines_crlf [OF this] show ?thesis
    unfolding endpoint_parse_def render_lines by (simp add: parse_line_key del: list.map)
qed

subsection \<open>The life of a record\<close>

lemma written_record_read:
  assumes "write_record_in io d r = (True, d')" and "printable_line (er_pipe r)"
    and "er_protocol r = ENDPOINT_PROTOCOL"
  shows "read_record_in d' = Some r"
proof -
  have "valid_str (show_nat n)" for n
    using show_nat_digits [of n] by (auto simp: valid_str_def list_all_iff is_ascii_digit_def is_scalar_def)
  then have "valid_str (endpoint_render r)"
    using assms(2,3) by (simp add: endpoint_render_def ENDPOINT_PROTOCOL_def printable_line_def crlf_def show_u64_def is_scalar_def)
  moreover have "10 \<notin> set (er_protocol r)" "10 \<notin> set (er_pipe r)"
    using assms(2,3) by (simp_all add: ENDPOINT_PROTOCOL_def printable_line_def)
  moreover have "dk_state d' = Some (utf8 (endpoint_render r))"
    using durable_write_cases assms(1) unfolding write_record_in_def by fastforce
  ultimately show ?thesis
    using parse_render [of r] assms(3) by (simp add: read_record_in_def from_utf8_utf8)
qed

definition local_pipe_prefix :: ustr where
  "local_pipe_prefix = [92, 92, 46, 92] @ lit ''pipe'' @ [92]"

lemma generated_name:
  assumes "generate_pipe_name random prefix = Inr name"
  shows "starts_with local_pipe_prefix name \<and> printable_line name"
proof -
  obtain nonce where n: "prefix_ok prefix" "name = local_pipe_prefix @ lit ''zonkey-'' @ prefix @ lit ''-'' @ hex nonce"
    using assms by (auto simp: generate_pipe_name_def local_pipe_prefix_def split: if_splits sum.splits)
  have "c < 128 \<and> c \<noteq> 10" if "c \<in> set prefix \<or> c \<in> set (hex nonce)" for c
    using that n(1) hex_ascii [of c nonce] by (auto simp: prefix_ok_def list_all_iff char_class_defs)
  then have "printable_line name"
    unfolding printable_line_def n(2) local_pipe_prefix_def
    by (fastforce simp: valid_str_def list_all_iff is_scalar_def)
  then show ?thesis by (simp add: n(2) starts_with_def)
qed

lemma resolved_auto:
  assumes "resolve_endpoint_pipe debug dir io d random pid started requested = (Inr (name, True), d')"
  shows "dir \<noteq> None \<and> starts_with local_pipe_prefix name \<and>
    read_record_in d' = Some \<lparr>er_protocol = ENDPOINT_PROTOCOL, er_pipe = name, er_pid = pid, er_started_unix_ms = started\<rparr>"
proof -
  let ?r = "\<lparr>er_protocol = ENDPOINT_PROTOCOL, er_pipe = name, er_pid = pid, er_started_unix_ms = started\<rparr>"
  have g: "generate_pipe_name random (lit ''svc'') = Inr name" and w: "write_record dir io d ?r = (True, d')"
    using assms by (auto simp: resolve_endpoint_pipe_def split: if_splits sum.splits prod.splits bool.splits)
  have "dir \<noteq> None" and "write_record_in io d ?r = (True, d')"
    using w by (auto simp: write_record_def split: option.splits)
  with written_record_read [of io d ?r d'] generated_name [OF g] show ?thesis by simp
qed

lemma resolved_record:
  assumes "resolve_endpoint_pipe debug dir io d random pid started requested = (Inr (name, True), d')"
  shows "read_record dir d' = Some \<lparr>er_protocol = ENDPOINT_PROTOCOL, er_pipe = name, er_pid = pid, er_started_unix_ms = started\<rparr>"
  using resolved_auto [OF assms] by (auto simp: read_record_def)

lemma sample_resolution:
  "\<exists>d'. resolve_endpoint_pipe debug (Some []) good_io no_disk (Inr [0xab]) 7 9 (lit ''auto'') =
     (Inr (local_pipe_prefix @ lit ''zonkey-svc-ab'', True), d')"
proof -
  let ?name = "local_pipe_prefix @ lit ''zonkey-svc-ab''"
  let ?r = "\<lparr>er_protocol = ENDPOINT_PROTOCOL, er_pipe = ?name, er_pid = 7, er_started_unix_ms = 9\<rparr>"
  have g: "generate_pipe_name (Inr [0xab]) (lit ''svc'') = Inr ?name"
    by (simp add: generate_pipe_name_def prefix_ok_def char_class_defs local_pipe_prefix_def hex_digit_def)
  have "utf8 (endpoint_render ?r) \<noteq> []" by (simp add: endpoint_render_def utf8_char_def)
  moreover have "length (utf8 (endpoint_render ?r)) \<le> 300000"
    by (simp add: endpoint_render_def utf8_char_def ENDPOINT_PROTOCOL_def local_pipe_prefix_def crlf_def show_u64_def show_nat.simps)
  ultimately obtain d' where w: "write_record_in good_io no_disk ?r = (True, d')"
    unfolding write_record_in_def using good_write by blast
  show ?thesis
    unfolding resolve_endpoint_pipe_def g write_record_def option.case sum.case w prod.case by simp
qed

text \<open>
  An endpoint that registered itself is discoverable until it shuts down: after \<open>auto\<close> resolves,
  the discovery file reads back as its record with a local pipe name; the shutdown of an endpoint
  with another name leaves the record, its own shutdown removes it; and a resolution that fails, or
  a name given explicitly, leaves the file as it was.
\<close>

lemma endpoint_lifecycle:
  assumes "resolve_endpoint_pipe debug dir io d random pid started requested = (res, d')"
  shows "case res of
      Inr (name, True) \<Rightarrow> starts_with local_pipe_prefix name \<and>
        read_record dir d' = Some \<lparr>er_protocol = ENDPOINT_PROTOCOL, er_pipe = name, er_pid = pid, er_started_unix_ms = started\<rparr> \<and>
        (\<forall>removable other. other \<noteq> name \<longrightarrow> remove_record dir removable d' other = (True, d')) \<and>
        read_record dir (snd (remove_record dir True d' name)) = None
    | Inr (name, False) \<Rightarrow> starts_with local_pipe_prefix name \<and> name = requested \<and> d' = d
    | Inl _ \<Rightarrow> dk_state d' = dk_state d"
proof (cases "requested = lit ''auto''")
  case False
  with assms show ?thesis by (auto simp: resolve_endpoint_pipe_def local_pipe_prefix_def split: if_splits)
next
  case auto: True
  show ?thesis
  proof (cases "generate_pipe_name random (lit ''svc'')")
    case (Inl e)
    with assms auto show ?thesis by (auto simp: resolve_endpoint_pipe_def)
  next
    case (Inr name)
    let ?r = "\<lparr>er_protocol = ENDPOINT_PROTOCOL, er_pipe = name, er_pid = pid, er_started_unix_ms = started\<rparr>"
    obtain ok d1 where w: "write_record dir io d ?r = (ok, d1)" by (rule prod.exhaust)
    note name = generated_name [OF Inr]
    show ?thesis
    proof (cases ok)
      case False
      then have "dk_state d1 = dk_state d"
        using w durable_write_cases by (fastforce simp: write_record_def write_record_in_def split: option.splits)
      with assms auto Inr w False show ?thesis by (auto simp: resolve_endpoint_pipe_def)
    next
      case True
      with assms auto Inr w have r: "res = Inr (name, True)" by (auto simp: resolve_endpoint_pipe_def)
      with resolved_auto [OF assms [unfolded r]] show ?thesis
        by (auto simp: read_record_def remove_record_def remove_record_in_def read_record_in_def)
    qed
  qed
qed

lemma endpoint_lifecycle_witness:
  "\<exists>name d'. resolve_endpoint_pipe (\<lambda>_. []) (Some []) good_io no_disk (Inr [0xab]) 7 9 (lit ''auto'') = (Inr (name, True), d') \<and>
     name = local_pipe_prefix @ lit ''zonkey-svc-ab'' \<and>
     read_record (Some []) d' = Some \<lparr>er_protocol = ENDPOINT_PROTOCOL, er_pipe = name, er_pid = 7, er_started_unix_ms = 9\<rparr>"
proof -
  obtain d' where r: "resolve_endpoint_pipe (\<lambda>_. []) (Some []) good_io no_disk (Inr [0xab]) 7 9 (lit ''auto'') =
      (Inr (local_pipe_prefix @ lit ''zonkey-svc-ab'', True), d')"
    using sample_resolution by blast
  from endpoint_lifecycle [OF r] r show ?thesis by simp
qed

end
