(* ===== verification/Guard.thy ===== *)
theory Guard
  imports Prelude
begin

text \<open>
  The interface of a revision-guarded editor: a request names the revision it was made for, and an
  operation that touches the document advances the revision.  The clients' lemmas follow from the
  laws alone; the mutation harness, the in-process host and the controlled surface provide them.
\<close>

lemma u64_less_next: "(v :: u64) \<noteq> - 1 \<Longrightarrow> v < v + 1"
  by (metis add.commute add_eq_0_iff lessI unatSuc word_less_nat_alt)

text \<open>A chain of checks that found nothing.\<close>

lemma if_Some_None: "(if P then Some a else b) = None \<longleftrightarrow> \<not> P \<and> b = None"
  by simp

locale revision_guard =
  fixes document :: "'s \<Rightarrow> 'd"
    and revision :: "'s \<Rightarrow> u64"
    and guard :: "'r \<Rightarrow> u64"
    and submit :: "'r \<Rightarrow> 's \<Rightarrow> 's"
    and step :: "'s \<Rightarrow> 's \<Rightarrow> bool"
  assumes guarded: "document (submit r s) \<noteq> document s \<Longrightarrow> guard r = revision s \<and> revision s < revision (submit r s)"
    and monotone: "step s s' \<Longrightarrow> revision s \<le> revision s'"
begin

lemma steps_monotone: "step\<^sup>*\<^sup>* s s' \<Longrightarrow> revision s \<le> revision s'"
  by (induction rule: rtranclp_induct) (auto dest: monotone)

lemma stale_refused: "guard r < revision s \<Longrightarrow> document (submit r s) = document s"
  using guarded by fastforce

lemma at_most_once:
  assumes "document (submit r s) \<noteq> document s" and "step\<^sup>*\<^sup>* (submit r s) s'"
  shows "document (submit r s') = document s'"
  using guarded [OF assms(1)] steps_monotone [OF assms(2)] by (intro stale_refused) auto

end

text \<open>When every step that changes anything advances the revision, an unchanged revision means no change.\<close>

locale strict_revision_guard = revision_guard +
  assumes strict: "step s s' \<Longrightarrow> s' = s \<or> revision s < revision s'"
begin

lemma steps_strict: "step\<^sup>*\<^sup>* s s' \<Longrightarrow> s' = s \<or> revision s < revision s'"
proof (induction rule: rtranclp_induct)
  case (step s' s'')
  with strict [OF step(2)] show ?case by auto
qed simp

lemma same_revision: "step\<^sup>*\<^sup>* s s' \<Longrightarrow> revision s' = revision s \<Longrightarrow> s' = s"
  using steps_strict by fastforce

end

end
