(* ===== verification/Harness.thy ===== *)
theory Harness
  imports Wire Boundary Guard
begin

text \<open>
  The controlled-mutation harness (zonkey-service, \<open>mutation_harness.rs\<close>): a cooperating host that
  validates a compare-and-replace request in a fixed order, runs it as one transaction with injected
  races, records the outcome in a request ledger, and blocks a target with an indeterminate outcome
  until it is reconciled and acknowledged.
\<close>

definition CAP_SNAPSHOT :: u8 where
  "CAP_SNAPSHOT = 1"

definition CAP_COMPARE_AND_REPLACE :: u8 where
  "CAP_COMPARE_AND_REPLACE = 2"

definition CAP_UTF16_UNITS :: u8 where
  "CAP_UTF16_UNITS = 4"

definition CAP_IDEMPOTENT_REQUESTS :: u8 where
  "CAP_IDEMPOTENT_REQUESTS = 8"

definition CAP_COMPOSITION_PROOF :: u8 where
  "CAP_COMPOSITION_PROOF = 16"

definition CAP_ALL_WITH_COMPOSITION :: u8 where
  "CAP_ALL_WITH_COMPOSITION =
     CAP_SNAPSHOT OR CAP_COMPARE_AND_REPLACE OR CAP_UTF16_UNITS OR CAP_IDEMPOTENT_REQUESTS OR CAP_COMPOSITION_PROOF"

definition MUTATION_PROTOCOL_ID :: ustr where
  "MUTATION_PROTOCOL_ID = lit ''zonkey.mutation-harness/1''"

datatype harness_composition = HC_Inactive | HC_Active | HC_Unknown

datatype harness_secure = HS_KnownNonSecure | HS_Secure | HS_Unknown

datatype harness_session = HN_SupportedLocal | HN_UnsupportedRemote | HN_Unknown

datatype transaction_mode = TX_Normal | TX_Refuse | TX_Lost | TX_LostAfterCommit

record harness_host =
  hh_host_id :: ustr
  hh_session_id :: ustr
  hh_uri :: ustr
  hh_epoch :: u64
  hh_editor_id :: u64
  hh_version :: u64
  hh_caret :: nat
  hh_selection_span :: nat
  hh_secure :: harness_secure
  hh_session_state :: harness_session
  hh_composition :: harness_composition
  hh_capabilities :: u8
  hh_transaction_mode :: transaction_mode
  hh_pre_transaction_change :: "(nat \<times> nat \<times> ustr) option"
  hh_post_commit_change :: "(nat \<times> nat \<times> ustr) option"
  hh_contents :: ustr

definition harness_host_new :: "ustr \<Rightarrow> harness_host" where
  "harness_host_new s =
     \<lparr>hh_host_id = lit ''harness-host'', hh_session_id = lit ''harness-session'',
      hh_uri = lit ''file:///harness/doc.txt'', hh_epoch = 1, hh_editor_id = 1, hh_version = 1,
      hh_caret = length (utf16 s), hh_selection_span = 0, hh_secure = HS_KnownNonSecure,
      hh_session_state = HN_SupportedLocal, hh_composition = HC_Inactive,
      hh_capabilities = CAP_ALL_WITH_COMPOSITION, hh_transaction_mode = TX_Normal,
      hh_pre_transaction_change = None, hh_post_commit_change = None, hh_contents = s\<rparr>"

definition host_units :: "harness_host \<Rightarrow> u16 list" where
  "host_units h = utf16 (hh_contents h)"

definition utf16_length :: "harness_host \<Rightarrow> nat" where
  "utf16_length h = length (host_units h)"

definition utf16_slice :: "harness_host \<Rightarrow> nat \<Rightarrow> nat \<Rightarrow> ustr" where
  "utf16_slice h b e = from_utf16_lossy (take (e - b) (drop b (host_units h)))"

definition replace_utf16 :: "nat \<Rightarrow> nat \<Rightarrow> ustr \<Rightarrow> harness_host \<Rightarrow> bool \<times> harness_host" where
  "replace_utf16 b e replacement h =
     (if b > e \<or> e > length (host_units h) then (False, h)
      else (case from_utf16 (take b (host_units h) @ utf16 replacement @ drop e (host_units h)) of
              Some s \<Rightarrow> (True, h\<lparr>hh_contents := s\<rparr>)
            | None \<Rightarrow> (False, h)))"

definition saturating_next :: "u64 \<Rightarrow> u64" where
  "saturating_next v = (if v = - 1 then v else v + 1)"

definition inject_change :: "(nat \<times> nat \<times> ustr) option \<Rightarrow> harness_host \<Rightarrow> harness_host" where
  "inject_change change h =
     (case change of
        None \<Rightarrow> h
      | Some (b, e, s) \<Rightarrow>
         (case replace_utf16 b e s h of
            (True, h') \<Rightarrow> h'\<lparr>hh_version := saturating_next (hh_version h')\<rparr>
          | (False, h') \<Rightarrow> h'))"

record mutation_request =
  mr_protocol_id :: ustr
  mr_host_id :: ustr
  mr_session_id :: ustr
  mr_request_id :: ustr
  mr_uri :: ustr
  mr_epoch :: u64
  mr_editor_id :: u64
  mr_revision :: u64
  mr_range_start :: nat
  mr_range_end :: nat
  mr_expected :: ustr
  mr_replacement :: ustr
  mr_caret :: nat
  mr_composition :: harness_composition
  mr_capabilities :: u8

text \<open>\<open>matching\<close> underflows when the expected text is longer than what precedes the caret.\<close>

definition matching :: "harness_host \<Rightarrow> ustr \<Rightarrow> ustr \<Rightarrow> mutation_request option" where
  "matching h expected replacement =
     (if length (utf16 expected) > hh_caret h then None
      else Some \<lparr>mr_protocol_id = MUTATION_PROTOCOL_ID, mr_host_id = hh_host_id h, mr_session_id = hh_session_id h,
             mr_request_id = lit ''req-1'', mr_uri = hh_uri h, mr_epoch = hh_epoch h,
             mr_editor_id = hh_editor_id h, mr_revision = hh_version h,
             mr_range_start = hh_caret h - length (utf16 expected), mr_range_end = hh_caret h,
             mr_expected = expected, mr_replacement = replacement, mr_caret = hh_caret h,
             mr_composition = HC_Inactive, mr_capabilities = hh_capabilities h\<rparr>)"

datatype reject_reason =
    RR_ProtocolMismatch
  | RR_HostIdentityMismatch
  | RR_SessionMismatch
  | RR_TargetIdentityMismatch
  | RR_RangeMismatch
  | RR_CaretMismatch
  | RR_SelectionNotEmpty
  | RR_TextMismatch
  | RR_RevisionMismatch
  | RR_SecureTarget
  | RR_SecureUnknown
  | RR_CompositionActive
  | RR_CompositionUnknown
  | RR_UnsupportedSession
  | RR_SessionUnknown
  | RR_CapabilityMismatch
  | RR_RequestIdInvalid
  | RR_RequestIdReuse
  | RR_EditTransactionRefused
  | RR_RevisionOverflow

datatype indeterminate_reason = IR_EditOutcomeLost | IR_AmbiguousCommit

datatype mutation_outcome =
    MO_Applied u64
  | MO_Rejected reject_reason
  | MO_Indeterminate indeterminate_reason
  | MO_BlockedPendingReconciliation

datatype reconciliation_verdict = HV_AppliedAcknowledged | HV_NotApplied | HV_ConflictHumanReview

datatype target_state = TS_Indeterminate | TS_Reconciled bool

record mutation_harness =
  mh_host :: harness_host
  mh_ledger :: request_ledger
  mh_targets :: "ustr \<Rightarrow> target_state option"

definition logical_target :: "ustr \<Rightarrow> ustr \<Rightarrow> ustr" where
  "logical_target uri expected = uri @ [0] @ expected"

fun debug_composition :: "harness_composition \<Rightarrow> ustr" where
  "debug_composition HC_Inactive = lit ''Inactive''"
| "debug_composition HC_Active = lit ''Active''"
| "debug_composition HC_Unknown = lit ''Unknown''"

definition canonical_request :: "mutation_request \<Rightarrow> ustr" where
  "canonical_request r =
     join_with [1]
       [mr_protocol_id r, mr_host_id r, mr_session_id r, mr_request_id r, mr_uri r, show_u64 (mr_epoch r),
        show_u64 (mr_editor_id r), show_u64 (mr_revision r), show_nat (mr_range_start r), show_nat (mr_range_end r),
        mr_expected r, mr_replacement r, show_nat (mr_caret r), debug_composition (mr_composition r),
        show_nat (unat (mr_capabilities r))]"

fun debug_reject :: "reject_reason \<Rightarrow> ustr" where
  "debug_reject RR_ProtocolMismatch = lit ''ProtocolMismatch''"
| "debug_reject RR_HostIdentityMismatch = lit ''HostIdentityMismatch''"
| "debug_reject RR_SessionMismatch = lit ''SessionMismatch''"
| "debug_reject RR_TargetIdentityMismatch = lit ''TargetIdentityMismatch''"
| "debug_reject RR_RangeMismatch = lit ''RangeMismatch''"
| "debug_reject RR_CaretMismatch = lit ''CaretMismatch''"
| "debug_reject RR_SelectionNotEmpty = lit ''SelectionNotEmpty''"
| "debug_reject RR_TextMismatch = lit ''TextMismatch''"
| "debug_reject RR_RevisionMismatch = lit ''RevisionMismatch''"
| "debug_reject RR_SecureTarget = lit ''SecureTarget''"
| "debug_reject RR_SecureUnknown = lit ''SecureUnknown''"
| "debug_reject RR_CompositionActive = lit ''CompositionActive''"
| "debug_reject RR_CompositionUnknown = lit ''CompositionUnknown''"
| "debug_reject RR_UnsupportedSession = lit ''UnsupportedSession''"
| "debug_reject RR_SessionUnknown = lit ''SessionUnknown''"
| "debug_reject RR_CapabilityMismatch = lit ''CapabilityMismatch''"
| "debug_reject RR_RequestIdInvalid = lit ''RequestIdInvalid''"
| "debug_reject RR_RequestIdReuse = lit ''RequestIdReuse''"
| "debug_reject RR_EditTransactionRefused = lit ''EditTransactionRefused''"
| "debug_reject RR_RevisionOverflow = lit ''RevisionOverflow''"

fun debug_indeterminate :: "indeterminate_reason \<Rightarrow> ustr" where
  "debug_indeterminate IR_EditOutcomeLost = lit ''EditOutcomeLost''"
| "debug_indeterminate IR_AmbiguousCommit = lit ''AmbiguousCommit''"

fun encode_mutation :: "mutation_outcome \<Rightarrow> ledger_outcome" where
  "encode_mutation (MO_Applied new_revision) = LO_Definite (lit ''applied:'' @ show_u64 new_revision)"
| "encode_mutation (MO_Rejected reason) = LO_Definite (lit ''rejected:'' @ debug_reject reason)"
| "encode_mutation (MO_Indeterminate reason) = LO_Ambiguous (lit ''indeterminate:'' @ debug_indeterminate reason)"
| "encode_mutation MO_BlockedPendingReconciliation = LO_Definite (lit ''blocked'')"

text \<open>The reasons in the order of the match; an unknown encoding is a text mismatch.\<close>

definition named_reasons :: "reject_reason list" where
  "named_reasons =
     [RR_ProtocolMismatch, RR_HostIdentityMismatch, RR_SessionMismatch, RR_TargetIdentityMismatch, RR_RangeMismatch,
      RR_CaretMismatch, RR_SelectionNotEmpty, RR_RevisionMismatch, RR_SecureTarget, RR_SecureUnknown,
      RR_CompositionActive, RR_CompositionUnknown, RR_UnsupportedSession, RR_SessionUnknown, RR_CapabilityMismatch,
      RR_RequestIdInvalid, RR_RequestIdReuse, RR_EditTransactionRefused, RR_RevisionOverflow]"

definition decode_reason :: "ustr \<Rightarrow> reject_reason" where
  "decode_reason v = (case find (\<lambda>r. debug_reject r = v) named_reasons of Some r \<Rightarrow> r | None \<Rightarrow> RR_TextMismatch)"

fun decode_mutation :: "ledger_outcome \<Rightarrow> mutation_outcome" where
  "decode_mutation (LO_Definite s) =
     (case strip_prefix (lit ''applied:'') s of
        Some v \<Rightarrow> MO_Applied (case parse_u64 v of Some n \<Rightarrow> n | None \<Rightarrow> - 1)
      | None \<Rightarrow>
         (case strip_prefix (lit ''rejected:'') s of
            Some v \<Rightarrow> MO_Rejected (decode_reason v)
          | None \<Rightarrow>
              if s = lit ''blocked'' then MO_BlockedPendingReconciliation else MO_Rejected RR_TextMismatch))"
| "decode_mutation (LO_Ambiguous s) =
     MO_Indeterminate
       (if strip_prefix (lit ''indeterminate:'') s = Some (lit ''EditOutcomeLost'') then IR_EditOutcomeLost
        else IR_AmbiguousCommit)"

lemma decode_encode_mutation: "decode_mutation (encode_mutation out) = out"
proof (cases out)
  case (MO_Rejected r)
  then show ?thesis by (cases r) (simp_all add: decode_reason_def named_reasons_def strip_prefix_def)
next
  case (MO_Indeterminate r)
  then show ?thesis by (cases r) (simp_all add: strip_prefix_def)
qed (simp_all add: strip_prefix_def)

subsection \<open>Eligibility and the transaction\<close>

definition eligibility :: "harness_host \<Rightarrow> mutation_request \<Rightarrow> reject_reason option" where
  "eligibility h r =
     (if mr_protocol_id r \<noteq> MUTATION_PROTOCOL_ID then Some RR_ProtocolMismatch
      else if mr_host_id r \<noteq> hh_host_id h then Some RR_HostIdentityMismatch
      else if mr_session_id r \<noteq> hh_session_id h then Some RR_SessionMismatch
      else if mr_uri r \<noteq> hh_uri h \<or> mr_epoch r \<noteq> hh_epoch h \<or> mr_editor_id r \<noteq> hh_editor_id h
        then Some RR_TargetIdentityMismatch
      else if mr_caret r \<noteq> hh_caret h \<or> mr_range_end r \<noteq> mr_caret r then Some RR_CaretMismatch
      else if hh_selection_span h \<noteq> 0 then Some RR_SelectionNotEmpty
      else if mr_range_start r > mr_range_end r \<or> mr_range_end r > utf16_length h \<or>
              splits_surrogate (host_units h) (mr_range_start r) \<or> splits_surrogate (host_units h) (mr_range_end r)
        then Some RR_RangeMismatch
      else if utf16_slice h (mr_range_start r) (mr_range_end r) \<noteq> mr_expected r then Some RR_TextMismatch
      else if mr_revision r \<noteq> hh_version h then Some RR_RevisionMismatch
      else if mr_revision r = - 1 then Some RR_RevisionOverflow
      else if hh_secure h = HS_Secure then Some RR_SecureTarget
      else if hh_secure h = HS_Unknown then Some RR_SecureUnknown
      else if hh_session_state h = HN_UnsupportedRemote then Some RR_UnsupportedSession
      else if hh_session_state h = HN_Unknown then Some RR_SessionUnknown
      else if hh_composition h = HC_Active then Some RR_CompositionActive
      else if hh_composition h = HC_Unknown then Some RR_CompositionUnknown
      else if hh_capabilities h AND CAP_COMPOSITION_PROOF = 0 then Some RR_CompositionUnknown
      else if mr_composition r \<noteq> HC_Inactive then Some RR_CompositionActive
      else if mr_capabilities r \<noteq> hh_capabilities h then Some RR_CapabilityMismatch
      else None)"

text \<open>After the commit: the second race, then the exact verification.\<close>

definition verify_commit ::
  "u64 \<Rightarrow> ustr \<Rightarrow> ustr \<Rightarrow> mutation_request \<Rightarrow> harness_host \<Rightarrow> mutation_outcome \<times> harness_host" where
  "verify_commit revision_before prefix suffix r committed =
     (let h = inject_change (hh_post_commit_change committed) committed;
          applied = (hh_version h = revision_before + 1 \<and> hh_contents h = prefix @ mr_replacement r @ suffix)
      in (if \<not> applied then MO_Indeterminate IR_AmbiguousCommit
          else if hh_transaction_mode h = TX_LostAfterCommit then MO_Indeterminate IR_EditOutcomeLost
          else MO_Applied (hh_version h), h))"

definition transaction :: "harness_host \<Rightarrow> mutation_request \<Rightarrow> mutation_outcome \<times> harness_host" where
  "transaction h r =
     (let revision_before = hh_version h;
          prefix = utf16_slice h 0 (mr_range_start r);
          suffix = utf16_slice h (mr_range_end r) (utf16_length h);
          h1 = inject_change (hh_pre_transaction_change h) h
      in if utf16_slice h1 (mr_range_start r) (mr_range_end r) \<noteq> mr_expected r then
           (if hh_version h1 \<noteq> revision_before then MO_Indeterminate IR_AmbiguousCommit
            else MO_Rejected RR_TextMismatch, h1)
         else if hh_transaction_mode h1 = TX_Refuse then (MO_Rejected RR_EditTransactionRefused, h1)
         else if hh_transaction_mode h1 = TX_Lost then (MO_Indeterminate IR_EditOutcomeLost, h1)
         else (case replace_utf16 (mr_range_start r) (mr_range_end r) (mr_replacement r) h1 of
                 (False, h2) \<Rightarrow> (MO_Rejected RR_RangeMismatch, h2)
               | (True, h2) \<Rightarrow>
                   verify_commit revision_before prefix suffix r
                     (h2\<lparr>hh_version := saturating_next (hh_version h2)\<rparr>)))"

definition validate_and_mutate :: "harness_host \<Rightarrow> mutation_request \<Rightarrow> mutation_outcome \<times> harness_host" where
  "validate_and_mutate h r =
     (case eligibility h r of Some reason \<Rightarrow> (MO_Rejected reason, h) | None \<Rightarrow> transaction h r)"

subsection \<open>The harness\<close>

definition harness_new :: "harness_host \<Rightarrow> mutation_harness option" where
  "harness_new h =
     (case ledger_new 64 of
        Inl _ \<Rightarrow> None
      | Inr l \<Rightarrow> Some \<lparr>mh_host = h, mh_ledger = l, mh_targets = Map.empty\<rparr>)"

definition harness_blocked :: "mutation_harness \<Rightarrow> ustr \<Rightarrow> bool" where
  "harness_blocked m target \<longleftrightarrow>
     mh_targets m target = Some TS_Indeterminate \<or> mh_targets m target = Some (TS_Reconciled False)"

definition is_indeterminate :: "mutation_outcome \<Rightarrow> bool" where
  "is_indeterminate out = (case out of MO_Indeterminate _ \<Rightarrow> True | _ \<Rightarrow> False)"

definition submit :: "mutation_harness \<Rightarrow> mutation_request \<Rightarrow> mutation_outcome \<times> mutation_harness" where
  "submit m r =
     (if mr_request_id r = [] then (MO_Rejected RR_RequestIdInvalid, m)
      else (case ledger_classify (mh_ledger m) (mr_request_id r) (canonical_request r) of
              RD_Duplicate recorded \<Rightarrow> (decode_mutation recorded, m)
            | RD_Conflict \<Rightarrow> (MO_Rejected RR_RequestIdReuse, m)
            | RD_Fresh \<Rightarrow>
               (let target = logical_target (mr_uri r) (mr_expected r) in
                if harness_blocked m target then (MO_BlockedPendingReconciliation, m)
                else (let (out, h) = validate_and_mutate (mh_host m) r;
                          targets = (if is_indeterminate out then (mh_targets m)(target \<mapsto> TS_Indeterminate)
                                     else mh_targets m);
                          (_, l) = ledger_record (mh_ledger m) (mr_request_id r) (canonical_request r)
                            (encode_mutation out)
                      in (out, m\<lparr>mh_host := h, mh_ledger := l, mh_targets := targets\<rparr>)))))"

definition harness_reconcile ::
  "mutation_harness \<Rightarrow> ustr \<Rightarrow> ustr \<Rightarrow> ustr \<Rightarrow> nat \<times> nat \<Rightarrow> reconciliation_verdict option \<times> mutation_harness" where
  "harness_reconcile m uri expected replacement rng =
     (let target = logical_target uri expected in
      if mh_targets m target \<noteq> Some TS_Indeterminate then (None, m)
      else (let live = utf16_slice (mh_host m) (fst rng) (snd rng);
                verdict = (if live = replacement then HV_AppliedAcknowledged
                           else if live = expected then HV_NotApplied
                           else HV_ConflictHumanReview)
            in (Some verdict, m\<lparr>mh_targets := (mh_targets m)(target \<mapsto> TS_Reconciled False)\<rparr>)))"

definition owner_ack :: "mutation_harness \<Rightarrow> ustr \<Rightarrow> ustr \<Rightarrow> bool \<times> mutation_harness" where
  "owner_ack m uri expected =
     (let target = logical_target uri expected in
      case mh_targets m target of
        Some (TS_Reconciled _) \<Rightarrow> (True, m\<lparr>mh_targets := (mh_targets m)(target \<mapsto> TS_Reconciled True)\<rparr>)
      | _ \<Rightarrow> (False, m))"

subsection \<open>What the host can do to the text\<close>

lemma slice_exact:
  assumes "valid_str (hh_contents h)" and "b \<le> e" and "e \<le> utf16_length h"
    and "\<not> splits_surrogate (host_units h) b" and "\<not> splits_surrogate (host_units h) e"
  shows "\<exists>p q. hh_contents h = p @ utf16_slice h b e @ q \<and> length (utf16 p) = b \<and>
    length (utf16 (p @ utf16_slice h b e)) = e"
proof -
  let ?s = "hh_contents h"
  obtain pe q where pe: "?s = pe @ q" "e = length (utf16 pe)"
    using scalar_position [OF assms(1), of e] assms(3,5) by (auto simp: utf16_length_def host_units_def)
  obtain p r where p: "?s = p @ r" "b = length (utf16 p)"
    using scalar_position [OF assms(1), of b] assms(2-4) by (auto simp: utf16_length_def host_units_def)
  have "length p \<le> length pe"
  proof (rule ccontr)
    assume "\<not> length p \<le> length pe"
    then obtain x where x: "p = pe @ x" "x \<noteq> []" using pe(1) p(1) by (auto simp: append_eq_append_conv2)
    then show False using utf16_not_Nil [of x] pe(2) p(2) assms(2) by simp
  qed
  then obtain x where x: "pe = p @ x" using pe(1) p(1) by (auto simp: append_eq_append_conv2)
  have "utf16_slice h b e = x"
    using assms(1) pe p x by (simp add: utf16_slice_def host_units_def from_utf16_lossy_utf16)
  with pe p x show ?thesis by auto
qed

lemma inject_change_cases:
  "inject_change change h = h \<or>
   hh_version (inject_change change h) = saturating_next (hh_version h)"
  by (auto simp: inject_change_def replace_utf16_def split: option.split prod.split)

lemma saturating_next_le: "v \<le> saturating_next v" "v \<noteq> - 1 \<Longrightarrow> v < saturating_next v"
  using u64_less_next [of v] by (auto simp: saturating_next_def order_less_imp_le)

lemma inject_change_version:
  "hh_version h \<le> hh_version (inject_change change h)"
  "hh_version h \<noteq> - 1 \<Longrightarrow> inject_change change h = h \<or> hh_version h < hh_version (inject_change change h)"
  using inject_change_cases [of change h] saturating_next_le [of "hh_version h"] by auto

lemma replace_version: "replace_utf16 b e x h = (ok, h') \<Longrightarrow> hh_version h' = hh_version h \<and> (\<not> ok \<longrightarrow> h' = h)"
  by (auto simp: replace_utf16_def split: if_splits option.splits)

lemma transaction_version:
  assumes "transaction h r = (out, h')" and "hh_version h \<noteq> - 1"
  shows "h' = h \<or> hh_version h < hh_version h'"
proof -
  let ?h1 = "inject_change (hh_pre_transaction_change h) h"
  note i = inject_change_version [of h "hh_pre_transaction_change h"]
  obtain ok h2 where r: "replace_utf16 (mr_range_start r) (mr_range_end r) (mr_replacement r) ?h1 = (ok, h2)"
    by (rule prod.exhaust)
  note v = replace_version [OF r]
  have "h' = ?h1 \<or> ok \<and> (\<exists>x. h' = inject_change x (h2\<lparr>hh_version := saturating_next (hh_version h2)\<rparr>))"
    using assms(1) r v
    by (cases ok) (auto simp: transaction_def verify_commit_def Let_def split: if_splits)
  then show ?thesis
  proof
    assume "h' = ?h1"
    with i(2) assms(2) show ?thesis by auto
  next
    assume "ok \<and> (\<exists>x. h' = inject_change x (h2\<lparr>hh_version := saturating_next (hh_version h2)\<rparr>))"
    then obtain x where x: "h' = inject_change x (h2\<lparr>hh_version := saturating_next (hh_version h2)\<rparr>)" by blast
    have "saturating_next (hh_version h2) \<le> hh_version h'"
      unfolding x using inject_change_version(1) [of "h2\<lparr>hh_version := saturating_next (hh_version h2)\<rparr>" x] by simp
    moreover have "hh_version h < saturating_next (hh_version h2)"
      using i(1) v saturating_next_le [of "hh_version h2"] saturating_next_le(2) [OF assms(2)]
      by (cases "hh_version h2 = - 1") (auto simp: saturating_next_def intro: order_le_less_trans order_less_le_trans)
    ultimately show ?thesis by (auto intro: order_less_le_trans)
  qed
qed

lemma eligibility_None:
  "eligibility h r = None \<Longrightarrow>
     mr_revision r = hh_version h \<and> hh_version h \<noteq> - 1 \<and> mr_range_end r = hh_caret h \<and>
     mr_range_start r \<le> mr_range_end r \<and> mr_range_end r \<le> utf16_length h \<and>
     \<not> splits_surrogate (host_units h) (mr_range_start r) \<and> \<not> splits_surrogate (host_units h) (mr_range_end r) \<and>
     utf16_slice h (mr_range_start r) (mr_range_end r) = mr_expected r \<and> hh_selection_span h = 0 \<and>
     hh_secure h \<notin> {HS_Secure, HS_Unknown} \<and> hh_session_state h \<notin> {HN_UnsupportedRemote, HN_Unknown} \<and>
     hh_composition h \<notin> {HC_Active, HC_Unknown} \<and> hh_capabilities h AND CAP_COMPOSITION_PROOF \<noteq> 0"
  unfolding eligibility_def if_Some_None by auto

lemma eligible:
  assumes "eligibility h r = None"
  shows "mr_revision r = hh_version h" "hh_version h \<noteq> - 1"
    "mr_range_end r = hh_caret h" "mr_range_start r \<le> mr_range_end r" "mr_range_end r \<le> utf16_length h"
    "\<not> splits_surrogate (host_units h) (mr_range_start r)" "\<not> splits_surrogate (host_units h) (mr_range_end r)"
    "utf16_slice h (mr_range_start r) (mr_range_end r) = mr_expected r" "hh_selection_span h = 0"
    "hh_secure h = HS_KnownNonSecure" "hh_session_state h = HN_SupportedLocal" "hh_composition h = HC_Inactive"
    "hh_capabilities h AND CAP_COMPOSITION_PROOF \<noteq> 0"
  using eligibility_None [OF assms] harness_secure.exhaust [of "hh_secure h"]
    harness_session.exhaust [of "hh_session_state h"] harness_composition.exhaust [of "hh_composition h"]
  by blast+

lemma validate_version:
  assumes "validate_and_mutate h r = (out, h')"
  shows "h' = h \<or> mr_revision r = hh_version h \<and> hh_version h < hh_version h'"
  using assms transaction_version eligible(1,2) by (auto simp: validate_and_mutate_def split: option.splits)

text \<open>A submission either leaves the host alone or ran the transaction of a fresh, unblocked request.\<close>

lemma submit_cases:
  assumes "submit m r = (out, m')"
  shows "mh_host m' = mh_host m \<or>
    (mr_revision r = hh_version (mh_host m) \<and> hh_version (mh_host m) < hh_version (mh_host m') \<and>
     \<not> harness_blocked m (logical_target (mr_uri r) (mr_expected r)))"
  using assms validate_version [of "mh_host m" r]
  by (auto simp: submit_def Let_def split: if_splits request_disposition.splits prod.splits)

subsection \<open>Applied exactly, and at most once\<close>

text \<open>
  An applied request is exactly one splice: when a fresh submission answers \<open>Applied\<close>, the text
  before the caret was the expected text, the new text differs from the old one in just that piece,
  the revision was current and has advanced by one, and the target was known to be safe (not
  secure, local, no selection, no composition, with the proof capability).
\<close>

lemma applied_is_exact_splice:
  assumes "valid_str (hh_contents (mh_host m))" and "submit m r = (MO_Applied v, m')"
    and "ledger_classify (mh_ledger m) (mr_request_id r) (canonical_request r) = RD_Fresh"
  shows "(\<exists>p q. hh_contents (mh_host m) = p @ mr_expected r @ q \<and>
      length (utf16 (p @ mr_expected r)) = hh_caret (mh_host m) \<and>
      hh_contents (mh_host m') = p @ mr_replacement r @ q) \<and>
    mr_revision r = hh_version (mh_host m) \<and> v = hh_version (mh_host m) + 1 \<and> hh_version (mh_host m') = v \<and>
    hh_secure (mh_host m) = HS_KnownNonSecure \<and> hh_session_state (mh_host m) = HN_SupportedLocal \<and>
    hh_selection_span (mh_host m) = 0 \<and> hh_composition (mh_host m) = HC_Inactive \<and>
    hh_capabilities (mh_host m) AND CAP_COMPOSITION_PROOF \<noteq> 0"
proof -
  let ?h = "mh_host m" and ?b = "mr_range_start r" and ?e = "mr_range_end r"
  have t: "validate_and_mutate ?h r = (MO_Applied v, mh_host m')"
    using assms(2,3) by (auto simp: submit_def Let_def split: if_splits prod.splits)
  then have el: "eligibility ?h r = None" and tr: "transaction ?h r = (MO_Applied v, mh_host m')"
    by (auto simp: validate_and_mutate_def split: option.splits)
  note e = eligible [OF el]
  obtain p q where pq: "hh_contents ?h = p @ mr_expected r @ q" "length (utf16 p) = ?b" "length (utf16 (p @ mr_expected r)) = ?e"
    using slice_exact [OF assms(1) e(4-7)] e(8) by auto
  have slices: "utf16_slice ?h 0 ?b = p" "utf16_slice ?h ?e (utf16_length ?h) = q"
    using assms(1) pq by (auto simp: utf16_slice_def utf16_length_def host_units_def from_utf16_lossy_utf16)
  have "v = hh_version (mh_host m') \<and> hh_version (mh_host m') = hh_version ?h + 1 \<and>
      hh_contents (mh_host m') = p @ mr_replacement r @ q"
    using tr unfolding transaction_def verify_commit_def Let_def slices
    by (auto split: if_splits prod.splits bool.splits)
  moreover have "\<exists>p q. hh_contents ?h = p @ mr_expected r @ q \<and> length (utf16 (p @ mr_expected r)) = hh_caret ?h \<and>
      hh_contents (mh_host m') = p @ mr_replacement r @ q"
    using pq e(3) calculation by (intro exI [of _ p] exI [of _ q]) simp
  ultimately show ?thesis using e by simp
qed

text \<open>Whatever happens to the harness: its operations, and edits by others that advance the version.\<close>

inductive harness_run :: "mutation_harness \<Rightarrow> mutation_harness \<Rightarrow> bool" for m0 where
  none: "harness_run m0 m0"
| submitted: "harness_run m0 m \<Longrightarrow> harness_run m0 (snd (submit m r))"
| reconciled: "harness_run m0 m \<Longrightarrow> harness_run m0 (snd (harness_reconcile m uri expected replacement rng))"
| acknowledged: "harness_run m0 m \<Longrightarrow> harness_run m0 (snd (owner_ack m uri expected))"
| edited: "harness_run m0 m \<Longrightarrow> hh_version (mh_host m) \<le> hh_version h \<Longrightarrow> harness_run m0 (m\<lparr>mh_host := h\<rparr>)"

lemma run_version: "harness_run m0 m \<Longrightarrow> hh_version (mh_host m0) \<le> hh_version (mh_host m)"
proof (induction rule: harness_run.induct)
  case (submitted m r)
  obtain out m' where "submit m r = (out, m')" by (rule prod.exhaust)
  with submit_cases [OF this] submitted.IH show ?case by (auto intro: order_trans)
next
  case (reconciled m uri expected replacement rng)
  then show ?case by (auto simp: harness_reconcile_def Let_def)
next
  case (acknowledged m uri expected)
  then show ?case by (auto simp: owner_ack_def Let_def split: option.splits target_state.splits)
next
  case (edited m h)
  then show ?case by auto
qed simp

definition harness_moves :: "mutation_harness \<Rightarrow> mutation_harness \<Rightarrow> bool" where
  "harness_moves m m' \<longleftrightarrow> harness_run m m'"

interpretation harness: revision_guard mh_host "\<lambda>m. hh_version (mh_host m)" mr_revision "\<lambda>r m. snd (submit m r)" harness_moves
proof unfold_locales
  fix r m assume "mh_host (snd (submit m r)) \<noteq> mh_host m"
  then show "mr_revision r = hh_version (mh_host m) \<and> hh_version (mh_host m) < hh_version (mh_host (snd (submit m r)))"
    using submit_cases [of m r "fst (submit m r)" "snd (submit m r)"] by auto
qed (simp add: harness_moves_def run_version)

text \<open>
  C25. A request changes the document at most once: after a submission that touched the host, whether
  its outcome was applied, indeterminate or rejected behind a race, the same request never touches
  the host again, whatever is submitted, reconciled, acknowledged or edited in between and whether or
  not the ledger still remembers it.
\<close>

theorem harness_at_most_once:
  assumes "submit m r = (out, m1)" and "mh_host m1 \<noteq> mh_host m" and "harness_run m1 m2"
    and "submit m2 r = (out2, m3)"
  shows "mh_host m3 = mh_host m2"
  using harness.at_most_once [where r = r and s = m and s' = m2] r_into_rtranclp [of harness_moves m1 m2] assms
  by (simp add: harness_moves_def)

text \<open>
  Everything but the owner's acknowledgement of a reconciled target: the harness serves requests and
  readbacks, the document is edited, and other targets are acknowledged.
\<close>

inductive held_run :: "ustr \<Rightarrow> mutation_harness \<Rightarrow> mutation_harness \<Rightarrow> bool" for target m0 where
  held: "held_run target m0 m0"
| held_submitted: "held_run target m0 m \<Longrightarrow> held_run target m0 (snd (submit m r))"
| held_reconciled: "held_run target m0 m \<Longrightarrow> held_run target m0 (snd (harness_reconcile m uri expected replacement rng))"
| held_acknowledged: "held_run target m0 m \<Longrightarrow>
    logical_target uri expected \<noteq> target \<or> mh_targets m target = Some TS_Indeterminate \<Longrightarrow>
    held_run target m0 (snd (owner_ack m uri expected))"
| held_edited: "held_run target m0 m \<Longrightarrow> held_run target m0 (m\<lparr>mh_host := h\<rparr>)"

lemma submit_keeps_block: "harness_blocked m t \<Longrightarrow> harness_blocked (snd (submit m r)) t"
  by (auto simp: submit_def harness_blocked_def Let_def split: request_disposition.split prod.split)

lemma reconcile_keeps_block:
  "harness_blocked m t \<Longrightarrow> harness_blocked (snd (harness_reconcile m uri expected replacement rng)) t"
  by (auto simp: harness_reconcile_def harness_blocked_def Let_def)

lemma held_run_blocked: "held_run t m0 m \<Longrightarrow> harness_blocked m0 t \<Longrightarrow> harness_blocked m t"
proof (induction rule: held_run.induct)
  case (held_acknowledged m uri expected)
  then show ?case
    by (auto simp: owner_ack_def harness_blocked_def Let_def split: option.split target_state.split)
next
  case (held_edited m h)
  then show ?case by (simp add: harness_blocked_def)
qed (simp_all add: submit_keeps_block reconcile_keeps_block)

lemma submit_blocked:
  "harness_blocked m (logical_target (mr_uri r) (mr_expected r)) \<Longrightarrow>
    \<exists>out. submit m r = (out, m) \<and>
      (mr_request_id r \<noteq> [] \<and> ledger_classify (mh_ledger m) (mr_request_id r) (canonical_request r) = RD_Fresh \<longrightarrow>
       out = MO_BlockedPendingReconciliation)"
  by (auto simp: submit_def Let_def split: request_disposition.split)

text \<open>
  C26. An indeterminate outcome holds its target: once a fresh request has answered
  \<open>Indeterminate\<close>, every later request for the same document and expected text leaves the whole
  harness as it is, and a fresh one is told it is blocked, through any further requests, readbacks,
  edits and acknowledgements until the owner acknowledges that target after its reconciliation.
\<close>

theorem indeterminate_holds_target:
  assumes "submit m r = (MO_Indeterminate reason, m1)"
    and "ledger_classify (mh_ledger m) (mr_request_id r) (canonical_request r) = RD_Fresh"
    and "held_run (logical_target (mr_uri r) (mr_expected r)) m1 m2"
    and "mr_uri r2 = mr_uri r" and "mr_expected r2 = mr_expected r"
  shows "\<exists>out. submit m2 r2 = (out, m2) \<and>
    (mr_request_id r2 \<noteq> [] \<and> ledger_classify (mh_ledger m2) (mr_request_id r2) (canonical_request r2) = RD_Fresh \<longrightarrow>
     out = MO_BlockedPendingReconciliation)"
proof -
  have "harness_blocked m1 (logical_target (mr_uri r) (mr_expected r))"
    using assms(1,2) by (auto simp: submit_def harness_blocked_def is_indeterminate_def Let_def split: if_splits prod.splits)
  from submit_blocked [of m2 r2] held_run_blocked [OF assms(3) this] assms(4,5) show ?thesis by simp
qed

subsection \<open>A sample host\<close>

definition sample_request :: mutation_request where
  "sample_request = the (matching (harness_host_new (lit ''a test'')) (lit ''test'') (lit ''rest''))"

definition lost_harness :: mutation_harness where
  "lost_harness = the (harness_new (harness_host_new (lit ''a test'')\<lparr>hh_transaction_mode := TX_Lost\<rparr>))"

definition sample_harness :: mutation_harness where
  "sample_harness = the (harness_new (harness_host_new (lit ''a test'')\<lparr>hh_transaction_mode := TX_Normal\<rparr>))"

abbreviation sample_host :: "transaction_mode \<Rightarrow> harness_host" where
  "sample_host mode \<equiv> harness_host_new (lit ''a test'')\<lparr>hh_transaction_mode := mode\<rparr>"

lemma sample_request:
  "sample_request = \<lparr>mr_protocol_id = MUTATION_PROTOCOL_ID, mr_host_id = hh_host_id (sample_host mode),
    mr_session_id = hh_session_id (sample_host mode), mr_request_id = lit ''req-1'', mr_uri = hh_uri (sample_host mode),
    mr_epoch = 1, mr_editor_id = 1, mr_revision = 1, mr_range_start = 2, mr_range_end = 6, mr_expected = lit ''test'',
    mr_replacement = lit ''rest'', mr_caret = 6, mr_composition = HC_Inactive,
    mr_capabilities = CAP_ALL_WITH_COMPOSITION\<rparr>"
  by (simp add: sample_request_def matching_def harness_host_new_def utf16_char_def)

lemmas host_unit_defs = utf16_slice_def host_units_def utf16_length_def utf16_char_def from_utf16_lossy_def
  decode_utf16_bmp is_high_def is_low_def

lemma sample_slices:
  "utf16_slice (sample_host mode) 2 6 = lit ''test''" "utf16_slice (sample_host mode) 0 2 = lit ''a ''"
  "utf16_slice (sample_host mode) 6 6 = []" "utf16_length (sample_host mode) = 6"
  by (simp_all add: harness_host_new_def host_unit_defs)

lemma sample_eligible: "eligibility (sample_host mode) sample_request = None"
proof -
  have "CAP_ALL_WITH_COMPOSITION AND CAP_COMPOSITION_PROOF \<noteq> 0"
    by (simp add: CAP_ALL_WITH_COMPOSITION_def CAP_COMPOSITION_PROOF_def CAP_SNAPSHOT_def CAP_COMPARE_AND_REPLACE_def
        CAP_UTF16_UNITS_def CAP_IDEMPOTENT_REQUESTS_def)
  moreover have "\<not> splits_surrogate (host_units (sample_host mode)) 2" "\<not> splits_surrogate (host_units (sample_host mode)) 6"
    by (simp_all add: harness_host_new_def host_unit_defs splits_surrogate_def)
  ultimately show ?thesis
    using sample_slices [of mode] unfolding sample_request [of mode] eligibility_def if_Some_None
    by (simp add: harness_host_new_def utf16_char_def)
qed

lemma harness_new_eq:
  "harness_new h = Some \<lparr>mh_host = h, mh_ledger = \<lparr>lg_capacity = 64, lg_order = [], lg_entries = Map.empty\<rparr>,
    mh_targets = Map.empty\<rparr>"
  by (simp add: harness_new_def ledger_new_def)

lemma sample_submit:
  assumes "transaction (sample_host mode) sample_request = (out, h)"
  shows "\<exists>m. submit (the (harness_new (sample_host mode))) sample_request = (out, m) \<and> mh_host m = h \<and>
    ledger_classify (mh_ledger (the (harness_new (sample_host mode)))) (mr_request_id sample_request)
      (canonical_request sample_request) = RD_Fresh"
proof -
  have "mr_request_id sample_request \<noteq> []" unfolding sample_request [of mode] by simp
  moreover have "validate_and_mutate (sample_host mode) sample_request = (out, h)"
    using assms unfolding validate_and_mutate_def sample_eligible by simp
  ultimately show ?thesis
    by (simp add: submit_def harness_new_eq harness_blocked_def ledger_classify_def Let_def split: prod.split)
qed

lemma sample_applied:
  "\<exists>m. submit sample_harness sample_request = (MO_Applied 2, m) \<and> mh_host m \<noteq> mh_host sample_harness \<and>
     ledger_classify (mh_ledger sample_harness) (mr_request_id sample_request) (canonical_request sample_request) = RD_Fresh"
proof -
  let ?h = "sample_host TX_Normal"
  have "replace_utf16 2 6 (lit ''rest'') ?h = (True, ?h\<lparr>hh_contents := lit ''a rest''\<rparr>)"
    by (simp add: replace_utf16_def harness_host_new_def host_unit_defs from_utf16_def)
  then have "transaction ?h sample_request = (MO_Applied 2, ?h\<lparr>hh_contents := lit ''a rest'', hh_version := 2\<rparr>)"
    using sample_slices [of TX_Normal] unfolding sample_request [of TX_Normal]
    by (simp add: transaction_def inject_change_def verify_commit_def harness_host_new_def saturating_next_def Let_def)
  from sample_submit [OF this] show ?thesis
    unfolding sample_harness_def by (auto simp: harness_new_eq harness_host_new_def)
qed

lemma indeterminate_holds_target_witness:
  "\<exists>m1 m2. submit lost_harness sample_request = (MO_Indeterminate IR_EditOutcomeLost, m1) \<and>
     harness_reconcile m1 (mr_uri sample_request) (lit ''test'') (lit ''rest'') (2, 6) = (Some HV_NotApplied, m2) \<and>
     snd (submit m2 (sample_request\<lparr>mr_request_id := lit ''req-2''\<rparr>)) = m2"
proof -
  let ?h = "sample_host TX_Lost"
  have "transaction ?h sample_request = (MO_Indeterminate IR_EditOutcomeLost, ?h)"
    using sample_slices [of TX_Lost] unfolding sample_request [of TX_Lost]
    by (simp add: transaction_def inject_change_def harness_host_new_def Let_def)
  from sample_submit [OF this] obtain m1 where m1: "submit lost_harness sample_request = (MO_Indeterminate IR_EditOutcomeLost, m1)"
    "mh_host m1 = ?h" "ledger_classify (mh_ledger lost_harness) (mr_request_id sample_request) (canonical_request sample_request) = RD_Fresh"
    unfolding lost_harness_def by blast
  obtain v m2 where m2: "harness_reconcile m1 (mr_uri sample_request) (lit ''test'') (lit ''rest'') (2, 6) = (v, m2)"
    by (rule prod.exhaust)
  have "mr_expected sample_request = lit ''test''" unfolding sample_request [of TX_Lost] by simp
  then have "mh_targets m1 (logical_target (mr_uri sample_request) (lit ''test'')) = Some TS_Indeterminate"
    using m1(1,3) by (auto simp: submit_def is_indeterminate_def Let_def split: if_splits prod.splits)
  then have "v = Some HV_NotApplied"
    using m2 m1(2) sample_slices(1) [of TX_Lost] by (auto simp: harness_reconcile_def Let_def)
  moreover have "held_run (logical_target (mr_uri sample_request) (mr_expected sample_request)) m1 m2"
    using held_run.held_reconciled [OF held_run.held, of _ m1 "mr_uri sample_request"] m2 by (metis snd_conv)
  from indeterminate_holds_target [OF m1(1,3) this, of "sample_request\<lparr>mr_request_id := lit ''req-2''\<rparr>"]
  have "snd (submit m2 (sample_request\<lparr>mr_request_id := lit ''req-2''\<rparr>)) = m2" by auto
  ultimately show ?thesis using m1(1) m2 by blast
qed

lemma applied_is_exact_splice_witness:
  "\<exists>m p q. submit sample_harness sample_request = (MO_Applied 2, m) \<and>
     hh_contents (mh_host sample_harness) = p @ lit ''test'' @ q \<and> hh_contents (mh_host m) = p @ lit ''rest'' @ q"
proof -
  obtain m where m: "submit sample_harness sample_request = (MO_Applied 2, m)"
    "ledger_classify (mh_ledger sample_harness) (mr_request_id sample_request) (canonical_request sample_request) = RD_Fresh"
    using sample_applied by blast
  have "valid_str (hh_contents (mh_host sample_harness))"
    by (simp add: sample_harness_def harness_new_def ledger_new_def harness_host_new_def is_scalar_def)
  from applied_is_exact_splice [OF this m] m(1) show ?thesis
    by (auto simp: sample_request_def matching_def harness_host_new_def utf16_char_def)
qed

lemma harness_at_most_once_witness:
  "\<exists>m1 m3. submit sample_harness sample_request = (MO_Applied 2, m1) \<and>
     submit m1 sample_request = (MO_Applied 2, m3) \<and> mh_host m3 = mh_host m1"
proof -
  obtain m1 where m1: "submit sample_harness sample_request = (MO_Applied 2, m1)" "mh_host m1 \<noteq> mh_host sample_harness"
    "ledger_classify (mh_ledger sample_harness) (mr_request_id sample_request) (canonical_request sample_request) = RD_Fresh"
    using sample_applied by blast
  have recorded: "ledger_classify (mh_ledger m1) (mr_request_id sample_request) (canonical_request sample_request) =
      RD_Duplicate (encode_mutation (MO_Applied 2))"
    using m1(1,3)
    by (auto simp: submit_def sample_harness_def harness_new_def ledger_new_def ledger_record_def record_inner_def
        ledger_push_def ledger_classify_def Let_def split: if_splits prod.splits)
  have "mr_request_id sample_request \<noteq> []"
    by (simp add: sample_request_def matching_def harness_host_new_def utf16_char_def)
  then have "submit m1 sample_request = (MO_Applied 2, m1)"
    unfolding submit_def recorded using decode_encode_mutation [of "MO_Applied 2"] by simp
  with harness_at_most_once [OF m1(1,2) harness_run.none this] m1(1) show ?thesis by blast
qed

end
