(* ===== verification/Peer.thy ===== *)
theory Peer
  imports Server
begin

text \<open>
  The peer check of the named pipe (zonkey-win, \<open>pipe_security.rs\<close>): before a connection is served,
  the user of the client's token is compared with the user of the server's own process.  What the
  token functions of the system answer is a record; \<open>EqualSid\<close> is a parameter.
\<close>

datatype pipe_security_error =
    PS_CurrentUserSidUnavailable
  | PS_RandomUnavailable
  | PS_DaclConstructionFailed
  | PS_PeerImpersonationFailed
  | PS_PeerTokenUnavailable
  | PS_PeerSidMismatch
  | PS_RevertFailed
  | PS_DaclInspectionFailed u32

text \<open>
  An opened token: the size the probe asks for, whether the query succeeds, the SID the header points
  to with its length (\<open>None\<close> is a null pointer) and whether the system finds it valid.
\<close>

record token_info =
  ti_needed :: nat
  ti_query_ok :: bool
  ti_sid :: "bytes option"
  ti_valid :: bool

definition token_user_sid :: "token_info \<Rightarrow> pipe_security_error + bytes" where
  "token_user_sid t =
     (if ti_needed t = 0 then Inl PS_CurrentUserSidUnavailable
      else if \<not> ti_query_ok t then Inl PS_CurrentUserSidUnavailable
      else (case ti_sid t of
              None \<Rightarrow> Inl PS_CurrentUserSidUnavailable
            | Some sid \<Rightarrow>
                if length sid = 0 \<or> length sid > ti_needed t then Inl PS_CurrentUserSidUnavailable
                else if \<not> ti_valid t then Inl PS_CurrentUserSidUnavailable
                else Inr sid))"

text \<open>A token that cannot be opened is \<open>None\<close>.\<close>

definition current_user_sid :: "token_info option \<Rightarrow> pipe_security_error + bytes" where
  "current_user_sid opened =
     (case opened of None \<Rightarrow> Inl PS_CurrentUserSidUnavailable | Some t \<Rightarrow> token_user_sid t)"

record peer_env =
  pe_own :: "token_info option"
  pe_impersonates :: bool
  pe_thread_token :: "token_info option"
  pe_reverts :: bool
  pe_client_pid :: "u32 option"
  pe_process_opens :: bool
  pe_process_token :: "token_info option"

definition compare_token ::
  "(bytes \<Rightarrow> bytes \<Rightarrow> bool) \<Rightarrow> token_info option \<Rightarrow> bytes \<Rightarrow> pipe_security_error + unit" where
  "compare_token equal_sid opened own =
     (case opened of
        None \<Rightarrow> Inl PS_PeerTokenUnavailable
      | Some t \<Rightarrow>
         (case token_user_sid t of
            Inl _ \<Rightarrow> Inl PS_PeerTokenUnavailable
          | Inr peer \<Rightarrow> if \<not> equal_sid peer own then Inl PS_PeerSidMismatch else Inr ()))"

definition verify_client_process_user ::
  "(bytes \<Rightarrow> bytes \<Rightarrow> bool) \<Rightarrow> peer_env \<Rightarrow> bytes \<Rightarrow> pipe_security_error + unit" where
  "verify_client_process_user equal_sid env own =
     (case pe_client_pid env of
        None \<Rightarrow> Inl PS_PeerTokenUnavailable
      | Some _ \<Rightarrow>
          if \<not> pe_process_opens env then Inl PS_PeerTokenUnavailable
          else compare_token equal_sid (pe_process_token env) own)"

text \<open>The flag says whether the thread still impersonates the client when the call returns.\<close>

definition verify_peer_is_current_user ::
  "(bytes \<Rightarrow> bytes \<Rightarrow> bool) \<Rightarrow> peer_env \<Rightarrow> (pipe_security_error + unit) \<times> bool" where
  "verify_peer_is_current_user equal_sid env =
     (case current_user_sid (pe_own env) of
        Inl e \<Rightarrow> (Inl e, False)
      | Inr own \<Rightarrow>
          (let inspected = (if pe_impersonates env then compare_token equal_sid (pe_thread_token env) own
                            else Inl PS_PeerImpersonationFailed)
           in if pe_impersonates env \<and> \<not> pe_reverts env then (Inl PS_RevertFailed, True)
              else if \<not> isl inspected then (Inr (), False)
              else (verify_client_process_user equal_sid env own, False)))"

subsection \<open>Who is served\<close>

text \<open>The SIDs the system reports for the client: of the impersonation token and of its process.\<close>

definition peer_sids :: "peer_env \<Rightarrow> bytes set" where
  "peer_sids env =
     {sid. pe_impersonates env \<and> (\<exists>t. pe_thread_token env = Some t \<and> token_user_sid t = Inr sid)} \<union>
     {sid. pe_client_pid env \<noteq> None \<and> pe_process_opens env \<and>
           (\<exists>t. pe_process_token env = Some t \<and> token_user_sid t = Inr sid)}"

lemma compare_token_ok:
  "compare_token equal_sid opened own = Inr u \<longleftrightarrow>
     (\<exists>t sid. opened = Some t \<and> token_user_sid t = Inr sid \<and> equal_sid sid own)"
  by (auto simp: compare_token_def split: option.split sum.split)

lemma process_user_ok:
  "verify_client_process_user equal_sid env own = Inr u \<longleftrightarrow>
     pe_client_pid env \<noteq> None \<and> pe_process_opens env \<and> compare_token equal_sid (pe_process_token env) own = Inr u"
  by (auto simp: verify_client_process_user_def split: option.split)

lemma not_isl_unit: "\<not> isl (x :: 'a + unit) \<longleftrightarrow> x = Inr ()"
  by (cases x) auto

lemma peer_accepted_iff:
  "(\<exists>i. verify_peer_is_current_user equal_sid env = (Inr (), i)) \<longleftrightarrow>
     (\<exists>own. current_user_sid (pe_own env) = Inr own \<and> (pe_impersonates env \<longrightarrow> pe_reverts env) \<and>
       (\<exists>sid \<in> peer_sids env. equal_sid sid own))"
proof (cases "current_user_sid (pe_own env)")
  case (Inl e)
  then show ?thesis by (simp add: verify_peer_is_current_user_def)
next
  case (Inr own)
  show ?thesis
    unfolding verify_peer_is_current_user_def Inr sum.case Let_def not_isl_unit peer_sids_def
    by (auto simp: compare_token_ok process_user_ok)
qed

text \<open>How the listener uses it: the connection carries the verdict of its check.\<close>

definition checked_connection ::
  "(bytes \<Rightarrow> bytes \<Rightarrow> bool) \<Rightarrow> peer_env \<times> connection \<Rightarrow> connection" where
  "checked_connection equal_sid c =
     (snd c)\<lparr>cn_peer_ok := \<not> isl (fst (verify_peer_is_current_user equal_sid (fst c)))\<rparr>"

lemma listener_unserved:
  "\<forall>c \<in> set cs. \<not> cn_peer_ok c \<Longrightarrow> listener session_id cs sv = (sv, [])"
  by (induction cs arbitrary: sv) auto

text \<open>
  C31. Only the current user is served: when a listener changed its state or did anything at all, then
  one of its connections came from a client whose token, as the system reports it, carries a user
  identity equal to that of the server process, and the server had stopped impersonating that
  client before it served it.
\<close>

theorem only_current_user_served:
  assumes "listener session_id (map (checked_connection equal_sid) cs) sv = (sv', effects)"
    and "sv' \<noteq> sv \<or> effects \<noteq> []"
  shows "\<exists>(env, c) \<in> set cs. \<exists>own. current_user_sid (pe_own env) = Inr own \<and>
    (\<exists>sid \<in> peer_sids env. equal_sid sid own) \<and> verify_peer_is_current_user equal_sid env = (Inr (), False)"
proof -
  obtain c where c: "c \<in> set cs" "cn_peer_ok (checked_connection equal_sid c)"
    using listener_unserved [of "map (checked_connection equal_sid) cs"] assms by fastforce
  obtain v i where v: "verify_peer_is_current_user equal_sid (fst c) = (v, i)" by (rule prod.exhaust)
  with c(2) have "v = Inr ()" by (simp add: checked_connection_def not_isl_unit)
  with v have v: "verify_peer_is_current_user equal_sid (fst c) = (Inr (), i)" by simp
  moreover have "\<not> i"
    using v by (auto simp: verify_peer_is_current_user_def Let_def split: sum.splits if_splits)
  ultimately have v: "verify_peer_is_current_user equal_sid (fst c) = (Inr (), False)" by simp
  then obtain own where "current_user_sid (pe_own (fst c)) = Inr own" "\<exists>sid \<in> peer_sids (fst c). equal_sid sid own"
    using peer_accepted_iff [of equal_sid "fst c"] by blast
  with v c(1) show ?thesis unfolding case_prod_beta by blast
qed

definition sid_token :: "bytes \<Rightarrow> token_info" where
  "sid_token sid = \<lparr>ti_needed = 40, ti_query_ok = True, ti_sid = Some sid, ti_valid = True\<rparr>"

definition same_user :: peer_env where
  "same_user = \<lparr>pe_own = Some (sid_token [1, 5]), pe_impersonates = False, pe_thread_token = None,
     pe_reverts = True, pe_client_pid = Some 7, pe_process_opens = True,
     pe_process_token = Some (sid_token [1, 5])\<rparr>"

lemma same_user_accepted: "verify_peer_is_current_user (=) same_user = (Inr (), False)"
  by (simp add: same_user_def verify_peer_is_current_user_def current_user_sid_def token_user_sid_def sid_token_def
      verify_client_process_user_def compare_token_def)

lemma only_current_user_served_witness:
  "\<exists>sv sv' own. listener (lit ''s'') (map (checked_connection (=)) [(same_user, hello_connection)]) sv =
      (sv', [EF_Sent (lit ''WELCOME|s'')]) \<and>
    current_user_sid (pe_own same_user) = Inr own \<and> (\<exists>sid \<in> peer_sids same_user. sid = own)"
proof -
  obtain sv0 where l: "listener (lit ''s'') [hello_connection] sv0 = (welcomed 4 None no_disk, [EF_Sent (lit ''WELCOME|s'')])"
    using hello_served [of 4 None no_disk] by auto
  have "map (checked_connection (=)) [(same_user, hello_connection)] = [hello_connection]"
    by (simp add: checked_connection_def same_user_accepted hello_connection_def one_frame_def)
  with l have l: "listener (lit ''s'') (map (checked_connection (=)) [(same_user, hello_connection)]) sv0 =
      (welcomed 4 None no_disk, [EF_Sent (lit ''WELCOME|s'')])" by (simp only:)
  from only_current_user_served [OF l]
  have "\<exists>own. current_user_sid (pe_own same_user) = Inr own \<and> (\<exists>sid \<in> peer_sids same_user. sid = own)" by auto
  with l show ?thesis by blast
qed

text \<open>
  The identification token is not decisive: a client that impersonates as another user is served
  when its process belongs to the current user.
\<close>

lemma foreign_identification_accepted:
  assumes "current_user_sid (pe_own env) = Inr own" and "pe_impersonates env" and "pe_reverts env"
    and "pe_thread_token env = Some t" and "token_user_sid t = Inr sid" and "\<not> equal_sid sid own"
    and "pe_client_pid env \<noteq> None" and "pe_process_opens env" and "pe_process_token env = Some t'"
    and "token_user_sid t' = Inr sid'" and "equal_sid sid' own"
  shows "verify_peer_is_current_user equal_sid env = (Inr (), False)"
  using assms by (auto simp: verify_peer_is_current_user_def compare_token_def verify_client_process_user_def)

end
