(* ===== verification/Cli.thy ===== *)
theory Cli
  imports Client Discovery
begin

text \<open>
  The command line (zonkey-cli, \<open>main.rs\<close>): the choice of the command, the parsers of its arguments
  and the operator's recovery commands, composed with the pipe client and the server's handler.
\<close>

definition parse_probe_args :: "ustr list \<Rightarrow> ustr + ustr \<times> u64" where
  "parse_probe_args arguments =
     (if length arguments < 2 \<or> arguments ! 0 \<noteq> lit ''--expected''
      then Inl (lit ''expected token is required'')
      else (let expected = arguments ! 1;
                delay = (case arguments of
                           [_, _] \<Rightarrow> Inr 0
                         | [_, _, flag, v] \<Rightarrow>
                             if flag = lit ''--delay-ms''
                             then (case parse_u64 v of
                                     None \<Rightarrow> Inl (lit ''delay must be an integer'')
                                   | Some ms \<Rightarrow> Inr ms)
                             else Inl (lit ''unsupported option'')
                         | _ \<Rightarrow> Inl (lit ''unsupported option''))
            in case delay of
                 Inl message \<Rightarrow> Inl message
               | Inr ms \<Rightarrow> if ms > 30000 then Inl (lit ''delay exceeds 30000ms'') else Inr (expected, ms)))"

definition local_or_auto :: "ustr \<Rightarrow> bool" where
  "local_or_auto name \<longleftrightarrow> name = lit ''auto'' \<or> starts_with local_pipe_prefix name"

fun scan_serve ::
  "ustr list \<Rightarrow> ustr option \<times> u64 option \<times> ustr option \<Rightarrow> ustr + ustr option \<times> u64 option \<times> ustr option" where
  "scan_serve [] found = Inr found"
| "scan_serve [argument] found = Inl (lit ''unsupported option'')"
| "scan_serve (argument # v # arguments) (pipe, seconds, handoff) =
     (if argument = lit ''--pipe'' then scan_serve arguments (Some v, seconds, handoff)
      else if argument = lit ''--max-seconds'' then
        (case parse_u64 v of
           None \<Rightarrow> Inl (lit ''max-seconds must be an integer'')
         | Some n \<Rightarrow> scan_serve arguments (pipe, Some n, handoff))
      else if argument = lit ''--handoff-token'' then
        (if v = [] \<or> \<not> list_all is_ascii_alphabetic v
         then Inl (lit ''handoff token must be non-empty ASCII letters'')
         else scan_serve arguments (pipe, seconds, Some v))
      else Inl (lit ''unsupported option''))"

definition parse_serve_args :: "ustr list \<Rightarrow> ustr + ustr \<times> u64 option \<times> ustr option" where
  "parse_serve_args arguments =
     (case scan_serve arguments (None, None, None) of
        Inl message \<Rightarrow> Inl message
      | Inr (None, _, _) \<Rightarrow> Inl (lit ''pipe name is required'')
      | Inr (Some pipe, seconds, handoff) \<Rightarrow>
          if \<not> local_or_auto pipe then Inl (lit ''pipe name must be a local named pipe path or auto'')
          else Inr (pipe, seconds, handoff))"

subsection \<open>Recovery commands\<close>

fun scan_pipe :: "ustr list \<Rightarrow> ustr option \<Rightarrow> ustr list \<Rightarrow> ustr option \<times> ustr list" where
  "scan_pipe [] pipe rest = (pipe, rest)"
| "scan_pipe [argument] pipe rest = (pipe, rest @ [argument])"
| "scan_pipe (argument # v # arguments) pipe rest =
     (if argument = lit ''--pipe'' then scan_pipe arguments (Some v) rest
      else scan_pipe (v # arguments) pipe (rest @ [argument]))"

definition recovery_line :: "ustr list \<Rightarrow> ustr + ustr" where
  "recovery_line rest =
     (case rest of
        [verb] \<Rightarrow>
          if verb = lit ''list'' then Inr (lit ''LIST'') else Inl (lit ''unknown recovery command'')
      | [verb, uri, expected, replacement, range_start, range_end] \<Rightarrow>
          if verb = lit ''block'' then
            (if parse_u64 range_start = None \<or> parse_u64 range_end = None then Inl (lit ''range must be integers'')
             else Inr (lit ''BLOCK|'' @ join_with [bar] [uri, expected, replacement, range_start, range_end]))
          else Inl (lit ''unknown recovery command'')
      | [verb, uri, expected, epoch, live] \<Rightarrow>
          if verb = lit ''reconcile'' then
            (if parse_u64 epoch = None then Inl (lit ''document epoch must be an integer'')
             else Inr (lit ''RECONCILE|'' @ join_with [bar] [uri, expected, epoch, live]))
          else Inl (lit ''unknown recovery command'')
      | [verb, uri, expected, epoch] \<Rightarrow>
          if verb = lit ''ack'' then
            (if parse_u64 epoch = None then Inl (lit ''document epoch must be an integer'')
             else Inr (lit ''ACK|'' @ join_with [bar] [uri, expected, epoch]))
          else Inl (lit ''unknown recovery command'')
      | _ \<Rightarrow> Inl (lit ''unknown recovery command''))"

definition recovery_request :: "ustr list \<Rightarrow> ustr + ustr \<times> ustr" where
  "recovery_request arguments =
     (case scan_pipe arguments None [] of
        (None, rest) \<Rightarrow> Inl (lit ''pipe name is required'')
      | (Some pipe, rest) \<Rightarrow>
          if \<not> local_or_auto pipe then Inl (lit ''pipe name must be a local named pipe path or auto'')
          else map_sum id (Pair pipe) (recovery_line rest))"

text \<open>
  The whole command: what the pipe of that name answers to the connection and to the call are
  parameters, and so is the debug form of an error.  \<open>None\<close> is a call that is still waiting.
\<close>

definition run_recovery_command ::
  "(pipe_error \<Rightarrow> ustr) \<Rightarrow> (ustr \<Rightarrow> open_answer list) \<Rightarrow> client_env \<Rightarrow> client_env \<Rightarrow> ustr list \<Rightarrow> (ustr + ustr) option" where
  "run_recovery_command debug open_pipe hello_env call_env arguments =
     (case recovery_request arguments of
        Inl message \<Rightarrow> Some (Inl message)
      | Inr (pipe, command) \<Rightarrow>
         (case connect (open_pipe pipe) hello_env of
            None \<Rightarrow> None
          | Some (Inl e) \<Rightarrow> Some (Inl (lit ''recovery command failed: '' @ debug e))
          | Some (Inr client) \<Rightarrow>
             (case recovery_command call_env client command of
                (Inl e, _) \<Rightarrow> Some (Inl (lit ''recovery command failed: '' @ debug e))
              | (Inr answer, _) \<Rightarrow> Some (Inr answer))))"

subsection \<open>The choice of the command\<close>

text \<open>What the process does; \<open>CA_Usage\<close> is the exit with code 2.\<close>

datatype cli_action =
    CA_Observe
  | CA_ObserveRaw
  | CA_Diagnose bool
  | CA_ProbeUia ustr u64
  | CA_Serve ustr "u64 option" "ustr option"
  | CA_HandoffLive ustr
  | CA_Recovery "ustr list"
  | CA_Usage ustr
  | CA_Help

definition cli_action_of :: "ustr list \<Rightarrow> cli_action" where
  "cli_action_of argv =
     (case drop 1 argv of
        [] \<Rightarrow> CA_Help
      | command # arguments \<Rightarrow>
          if command = lit ''observe'' \<or> command = lit ''observe-hook'' then CA_Observe
          else if command = lit ''observe-raw'' then CA_ObserveRaw
          else if command = lit ''diagnose'' \<or> command = lit ''observe-decisions''
            then CA_Diagnose (lit ''--show-token'' \<in> set argv)
          else if command = lit ''probe-uia-edit'' then
            (case parse_probe_args arguments of
               Inl message \<Rightarrow> CA_Usage message
             | Inr (expected, delay_ms) \<Rightarrow> CA_ProbeUia expected delay_ms)
          else if command = lit ''serve-host-validation'' then
            (case parse_serve_args arguments of
               Inl message \<Rightarrow> CA_Usage message
             | Inr (pipe, seconds, handoff) \<Rightarrow> CA_Serve pipe seconds handoff)
          else if command = lit ''handoff-live'' then
            (case parse_serve_args arguments of
               Inl message \<Rightarrow> CA_Usage message
             | Inr (pipe, _, _) \<Rightarrow> CA_HandoffLive pipe)
          else if command = lit ''recovery'' then CA_Recovery arguments
          else CA_Help)"

subsection \<open>What an operator's command does\<close>

text \<open>The commands as the operator means them.\<close>

datatype operator_command =
    OC_List
  | OC_Block ustr ustr ustr u64 u64
  | OC_Reconcile ustr ustr u64 ustr
  | OC_Ack ustr ustr u64

definition operator_command_of :: "ustr list \<Rightarrow> operator_command option" where
  "operator_command_of rest =
     (case rest of
        [verb] \<Rightarrow> if verb = lit ''list'' then Some OC_List else None
      | [verb, uri, expected, replacement, b, e] \<Rightarrow>
          if verb = lit ''block'' then
            (case (parse_u64 b, parse_u64 e) of
               (Some m, Some n) \<Rightarrow> Some (OC_Block uri expected replacement m n)
             | _ \<Rightarrow> None)
          else None
      | [verb, uri, expected, epoch, live] \<Rightarrow>
          if verb = lit ''reconcile'' then map_option (\<lambda>n. OC_Reconcile uri expected n live) (parse_u64 epoch)
          else None
      | [verb, uri, expected, epoch] \<Rightarrow>
          if verb = lit ''ack'' then map_option (OC_Ack uri expected) (parse_u64 epoch) else None
      | _ \<Rightarrow> None)"

fun run_operator ::
  "write_io \<Rightarrow> recovery_store \<Rightarrow> disk \<Rightarrow> ustr \<Rightarrow> operator_command \<Rightarrow> ustr \<times> recovery_store \<times> disk" where
  "run_operator io s d session OC_List = (list_answer s, s, d)"
| "run_operator io s d session (OC_Block uri expected replacement b e) =
     (case store_block io s d session uri expected replacement (b, e) of
        (Inl err, s', d') \<Rightarrow> (map_store_error err, s', d')
      | (Inr _, s', d') \<Rightarrow> (lit ''recovery-blocked'', s', d'))"
| "run_operator io s d session (OC_Reconcile uri expected epoch live) =
     (case store_reconcile io s d session uri expected epoch live of
        (Inl err, s', d') \<Rightarrow> (map_store_error err, s', d')
      | (Inr verdict, s', d') \<Rightarrow> (lit ''recovery-verdict:'' @ debug_verdict verdict, s', d'))"
| "run_operator io s d session (OC_Ack uri expected epoch) =
     (case store_acknowledge io s d session uri expected epoch of
        (Inl err, s', d') \<Rightarrow> (map_store_error err, s', d')
      | (Inr _, s', d') \<Rightarrow> (lit ''recovery-acked'', s', d'))"

text \<open>No separator in the fields; the live text may have it, but not at its start.\<close>

fun separable :: "operator_command \<Rightarrow> bool" where
  "separable OC_List \<longleftrightarrow> True"
| "separable (OC_Block uri expected replacement b e) \<longleftrightarrow> no_bar [uri, expected, replacement]"
| "separable (OC_Reconcile uri expected epoch live) \<longleftrightarrow> no_bar [uri, expected] \<and> (live = [] \<or> hd live \<noteq> bar)"
| "separable (OC_Ack uri expected epoch) \<longleftrightarrow> no_bar [uri, expected]"

text \<open>The server wants every text of a reconcile command to be there; the command line does not.\<close>

fun complete :: "operator_command \<Rightarrow> bool" where
  "complete (OC_Reconcile uri expected epoch live) \<longleftrightarrow> uri \<noteq> [] \<and> expected \<noteq> [] \<and> live \<noteq> []"
| "complete _ \<longleftrightarrow> True"

definition answer_operator ::
  "write_io \<Rightarrow> recovery_store \<Rightarrow> disk \<Rightarrow> ustr \<Rightarrow> operator_command \<Rightarrow> ustr \<times> recovery_store \<times> disk" where
  "answer_operator io s d session cmd =
     (if complete cmd then run_operator io s d session cmd else (lit ''recovery-error:MalformedCommand'', s, d))"

lemma split_on_none: "d \<notin> set x \<Longrightarrow> split_on d x = [x]"
  by (induction x) auto

lemma split_on_append: "d \<notin> set x \<Longrightarrow> split_on d (x @ d # y) = x # split_on d y"
  by (induction x) auto

lemma split_on_join:
  "xs \<noteq> [] \<Longrightarrow> \<forall>x \<in> set xs. d \<notin> set x \<Longrightarrow> split_on d (join_with [d] xs) = xs"
  by (induction xs rule: induct_list012) (auto simp: split_on_append split_on_none)

lemma join_split_on: "join_with [d] (split_on d s) = s"
proof (induction s)
  case (Cons c s)
  then show ?case by (cases "split_on d s"; cases "tl (split_on d s)") auto
qed simp

lemma parsed_no_bar: "parse_u64 s = Some n \<Longrightarrow> bar \<notin> set s"
  by (auto simp: parse_u64_def parse_unsigned_def Let_def is_ascii_digit_def list_all_iff split: if_splits list.splits)

lemma recovery_line_cases:
  assumes "recovery_line rest = Inr line"
  obtains "rest = [lit ''list'']" "line = lit ''LIST''" "operator_command_of rest = Some OC_List"
  | uri expected replacement b e m n where "rest = [lit ''block'', uri, expected, replacement, b, e]"
      "line = lit ''BLOCK|'' @ join_with [bar] [uri, expected, replacement, b, e]" "parse_u64 b = Some m" "parse_u64 e = Some n"
      "operator_command_of rest = Some (OC_Block uri expected replacement m n)"
  | uri expected epoch live n where "rest = [lit ''reconcile'', uri, expected, epoch, live]"
      "line = lit ''RECONCILE|'' @ join_with [bar] [uri, expected, epoch, live]" "parse_u64 epoch = Some n"
      "operator_command_of rest = Some (OC_Reconcile uri expected n live)"
  | uri expected epoch n where "rest = [lit ''ack'', uri, expected, epoch]"
      "line = lit ''ACK|'' @ join_with [bar] [uri, expected, epoch]" "parse_u64 epoch = Some n"
      "operator_command_of rest = Some (OC_Ack uri expected n)"
  using assms
  by (auto simp: recovery_line_def operator_command_of_def split: list.splits if_splits option.splits)

text \<open>What the server makes of the line, session and separator included.\<close>

lemma handled_pieces:
  assumes "split_on bar command = session # verb # args" and "check_session (sv_endpoint sv) session = Inr ()"
    and "sv_store sv = Some s" and "\<not> sv_lock_poisoned sv" and "verb \<noteq> lit ''LIST''"
    and "(if verb = lit ''BLOCK'' then block_command else if verb = lit ''RECONCILE'' then reconcile_command
          else if verb = lit ''ACK'' then ack_command else (\<lambda>io s d session args. (malformed_command, s, d)))
         io s (sv_disk sv) session args = (answer, s', d')"
  shows "handle_recovery_command io sv command = (answer, sv\<lparr>sv_store := Some s', sv_disk := d'\<rparr>)"
  using assms unfolding handle_recovery_command_def by simp

lemma command_pieces:
  "bar \<notin> set session \<Longrightarrow> bar \<notin> set verb \<Longrightarrow> split_on bar (session @ lit ''|'' @ (verb @ bar # tail)) =
     session # verb # split_on bar tail"
  by (simp add: split_on_append)

text \<open>The live text of a reconcile command may hold separators: the handler joins its pieces again.\<close>

lemma parse_reconcile_rejoins:
  assumes "uri \<noteq> []" "expected \<noteq> []" and "parse_u64 epoch = Some n" and live: "live \<noteq> []" "hd live \<noteq> bar"
  shows "parse_reconcile (uri # expected # epoch # split_on bar live) = Some (uri, expected, n, live)"
proof -
  obtain x xs where x: "split_on bar live = x # xs" by (cases "split_on bar live") auto
  have "x \<noteq> []" using x live by (cases live) (auto split: list.splits)
  moreover have "join_with [bar] (x # xs) = live" using join_split_on [of bar live] x by simp
  ultimately show ?thesis using assms(1-3) x by (cases xs) (auto simp: parse_reconcile_def)
qed

lemma parse_reconcile_incomplete:
  assumes "uri = [] \<or> expected = [] \<or> live = []"
  shows "parse_reconcile (uri # expected # epoch # split_on bar live) = None"
proof (cases "split_on bar live")
  case (Cons x xs)
  then have "live = [] \<Longrightarrow> x = []" by simp
  with Cons assms show ?thesis by (auto simp: parse_reconcile_def split: option.split)
qed (simp add: parse_reconcile_def)

lemma operator_line_handled:
  assumes line: "recovery_line rest = Inr line" and cmd: "operator_command_of rest = Some cmd" and "separable cmd"
    and session: "bar \<notin> set session" "check_session (sv_endpoint sv) session = Inr ()"
    and store: "sv_store sv = Some s" "\<not> sv_lock_poisoned sv"
    and run: "answer_operator io s (sv_disk sv) session cmd = (answer, s', d')"
  shows "handle_recovery_command io sv (session @ lit ''|'' @ line) = (answer, sv\<lparr>sv_store := Some s', sv_disk := d'\<rparr>)"
  using line
proof (cases rule: recovery_line_cases)
  case 1
  have "split_on bar (session @ lit ''|'' @ line) = [session, lit ''LIST'']"
    using session(1) 1(2) by (simp add: split_on_append)
  then show ?thesis
    using 1 cmd session(2) store run by (auto simp: handle_recovery_command_def answer_operator_def)
next
  case (2 uri expected replacement b e m n)
  have "no_bar [uri, expected, replacement, b, e]"
    using assms(3) cmd 2 parsed_no_bar by (auto simp: no_bar_def)
  then have "split_on bar (session @ lit ''|'' @ line) = session # lit ''BLOCK'' # [uri, expected, replacement, b, e]"
    using command_pieces [of session "lit ''BLOCK''" "join_with [bar] [uri, expected, replacement, b, e]"] session(1)
      split_on_join [of "[uri, expected, replacement, b, e]" bar] 2(2) by (simp add: no_bar_def)
  then show ?thesis
    using run cmd 2(3-5) by (intro handled_pieces [OF _ session(2) store]) (auto simp: block_command_def answer_operator_def)
next
  case (3 uri expected epoch live n)
  then have cmd: "cmd = OC_Reconcile uri expected n live" using cmd by simp
  have nb: "bar \<notin> set uri" "bar \<notin> set expected" "bar \<notin> set epoch" and live: "live = [] \<or> hd live \<noteq> bar"
    using assms(3) cmd parsed_no_bar [OF 3(3)] by (auto simp: no_bar_def)
  have pieces: "split_on bar (session @ lit ''|'' @ line) =
      session # lit ''RECONCILE'' # uri # expected # epoch # split_on bar live"
    using command_pieces [of session "lit ''RECONCILE''" "join_with [bar] [uri, expected, epoch, live]"] session(1) nb 3(2)
    by (simp add: split_on_append)
  have "parse_reconcile (uri # expected # epoch # split_on bar live) =
      (if complete cmd then Some (uri, expected, n, live) else None)"
    using parse_reconcile_rejoins [of uri expected epoch n live] parse_reconcile_incomplete [of uri expected live epoch] 3(3) live
    by (auto simp: cmd)
  then show ?thesis
    using run by (intro handled_pieces [OF pieces session(2) store])
      (auto simp: reconcile_command_def answer_operator_def malformed_command_def cmd split: if_splits)
next
  case (4 uri expected epoch n)
  have "no_bar [uri, expected, epoch]" using assms(3) cmd 4 parsed_no_bar by (auto simp: no_bar_def)
  then have "split_on bar (session @ lit ''|'' @ line) = session # lit ''ACK'' # [uri, expected, epoch]"
    using command_pieces [of session "lit ''ACK''" "join_with [bar] [uri, expected, epoch]"] session(1)
      split_on_join [of "[uri, expected, epoch]" bar] 4(2) by (simp add: no_bar_def)
  then show ?thesis
    using run cmd 4(3,4) by (intro handled_pieces [OF _ session(2) store]) (auto simp: ack_command_def answer_operator_def)
qed

text \<open>A call that expects a definite result gets it when the pipe works.\<close>

lemma definite_exchange:
  assumes "encode_frame payload = Inr sent" and "delivers cenv f" and "valid_str answer"
    and "encode_frame (lit ''RESULT|DEFINITE|'' @ answer) = Inr f"
  shows "exchange cenv client payload (parse_definite complaint) = (Inr answer, client)"
proof -
  have "valid_str (lit ''RESULT|DEFINITE|'' @ answer)" using assms(3) by (simp add: is_scalar_def)
  from delivers_read [OF assms(2) this assms(4)]
  have "read_frame_with_timeout cenv = Inr (lit ''RESULT|DEFINITE|'' @ answer)" .
  moreover have "client_write_frame cenv payload = Inr ()"
    using assms(1,2) by (simp add: client_write_frame_def delivers_def)
  moreover have "strip_prefix (lit ''ERROR|'') (lit ''RESULT|DEFINITE|'' @ answer) = None"
    by (simp add: strip_prefix_def)
  ultimately show ?thesis
    by (simp only: exchange_def Let_def sum.case option.case parse_definite_def strip_prefix_append)
qed

text \<open>
  C30. An operator's command line does what it says: when the arguments of \<open>recovery\<close> are accepted
  and their texts have no separator (the live text may, but not at its start), then the line the
  client sends makes the server run exactly that store operation on those texts and numbers, and
  the command prints the answer of that operation.  The one exception is a reconcile command with
  an empty uri, expected or live text: the command line accepts it, the server answers that it is
  malformed, and nothing changes.
\<close>

theorem operator_command_correct:
  assumes "recovery_request arguments = Inr (pipe, line)"
    and "operator_command_of (snd (scan_pipe arguments None [])) = Some cmd" and "separable cmd"
    and "connect (open_pipe pipe) hello_env = Some (Inr client)" and "usable client" and "bar \<notin> set (pc_session_id client)"
    and "check_session (sv_endpoint sv) (pc_session_id client) = Inr ()"
    and "sv_store sv = Some s" and "\<not> sv_lock_poisoned sv"
    and "answer_operator (fe_io_first env) s (sv_disk sv) (pc_session_id client) cmd = (answer, s', d')"
    and "encode_frame (lit ''RECOVERY|'' @ pc_session_id client @ lit ''|'' @ line) = Inr sent"
    and "encode_frame (lit ''RESULT|DEFINITE|'' @ answer) = Inr f" and "valid_str answer" and "delivers call_env f"
  shows "serve_frame env session_id sv (lit ''RECOVERY|'' @ pc_session_id client @ lit ''|'' @ line) =
      answered env (sv\<lparr>sv_store := Some s', sv_disk := d'\<rparr>) (lit ''RESULT|DEFINITE|'' @ answer) \<and>
    run_recovery_command debug open_pipe hello_env call_env arguments = Some (Inr answer)"
proof
  have line: "recovery_line (snd (scan_pipe arguments None [])) = Inr line"
    using assms(1) by (auto simp: recovery_request_def map_sum_def split: prod.splits option.splits if_splits sum.splits)
  have "handle_recovery_command (fe_io_first env) sv (pc_session_id client @ lit ''|'' @ line) =
      (answer, sv\<lparr>sv_store := Some s', sv_disk := d'\<rparr>)"
    by (rule operator_line_handled [OF line assms(2,3,6-10)])
  moreover have "strip_prefix (lit ''HELLO|'') (lit ''RECOVERY|'' @ x) = None" for x
    by (simp add: strip_prefix_def)
  ultimately show "serve_frame env session_id sv (lit ''RECOVERY|'' @ pc_session_id client @ lit ''|'' @ line) =
      answered env (sv\<lparr>sv_store := Some s', sv_disk := d'\<rparr>) (lit ''RESULT|DEFINITE|'' @ answer)"
    by (simp only: serve_frame_def strip_prefix_append option.case Let_def prod.case)
  have "recovery_command call_env client line = (Inr answer, client)"
    unfolding recovery_command_def using definite_exchange [OF assms(11,14,13,12)] assms(5) by simp
  then show "run_recovery_command debug open_pipe hello_env call_env arguments = Some (Inr answer)"
    using assms(1,4) by (simp add: run_recovery_command_def)
qed

lemma prompt_delivers: "f \<noteq> [] \<Longrightarrow> delivers (prompt_env [Some f]) f"
  unfolding delivers_def prompt_env_def client_env.simps
  by (intro conjI refl TrueI exI [of _ "[f]"] exI [of _ "[]"]) simp_all

lemma connected:
  assumes "encode_frame (lit ''WELCOME|'' @ session) = Inr f" and "valid_str session"
  shows "connect [OA_Opened] (prompt_env [Some f]) =
    Some (Inr \<lparr>pc_handle = True, pc_session_id = session, pc_broken = False\<rparr>)"
proof -
  have "f \<noteq> []" using assms(1) by (auto simp: encode_frame_Inr)
  moreover have "valid_str (lit ''WELCOME|'' @ session)" using assms(2) by (simp add: is_scalar_def)
  ultimately have "read_frame_with_timeout (prompt_env [Some f]) = Inr (lit ''WELCOME|'' @ session)"
    using delivers_read [OF prompt_delivers _ assms(1)] by blast
  moreover have "client_write_frame (prompt_env [Some f]) (lit ''HELLO|'' @ TRANSPORT_PROTOCOL_ID) = Inr ()"
    by (simp add: client_write_frame_def encode_frame_def TRANSPORT_PROTOCOL_ID_def utf8_char_def MAX_FRAME_BYTES_def prompt_env_def)
  moreover have "strip_prefix (lit ''ERROR|'') (lit ''WELCOME|'' @ session) = None" by (simp add: strip_prefix_def)
  ultimately show ?thesis
    by (simp only: connect_def open_raw_handle.simps option.case sum.case strip_prefix_append)
qed

definition ack_arguments :: "ustr list" where
  "ack_arguments = [lit ''--pipe'', local_pipe_prefix @ lit ''x'', lit ''ack'', lit ''doc'', lit ''test'', lit ''5'']"

lemma operator_command_correct_witness:
  "\<exists>hello_env call_env. run_recovery_command (\<lambda>_. []) (\<lambda>_. [OA_Opened]) hello_env call_env ack_arguments =
     Some (Inr (lit ''recovery-error:UnknownTarget''))"
proof -
  let ?c = "\<lparr>pc_handle = True, pc_session_id = lit ''s'', pc_broken = False\<rparr>"
  let ?sv = "welcomed 1 (Some (fresh_store 128)) no_disk" and ?env = "quiet_env (LO_Definite [])"
  let ?line = "lit ''ACK|doc|test|5''" and ?cmd = "OC_Ack (lit ''doc'') (lit ''test'') 5"
  let ?answer = "lit ''recovery-error:UnknownTarget''"
  have five: "parse_u64 (lit ''5'') = Some 5"
    by (simp add: parse_u64_def parse_unsigned_def USIZE_BOUND_def is_ascii_digit_def digits_value_def)
  have scan: "scan_pipe ack_arguments None [] =
      (Some (local_pipe_prefix @ lit ''x''), [lit ''ack'', lit ''doc'', lit ''test'', lit ''5''])"
    by (simp add: ack_arguments_def)
  have 1: "recovery_request ack_arguments = Inr (local_pipe_prefix @ lit ''x'', ?line)"
    unfolding recovery_request_def scan using five
    by (simp add: recovery_line_def local_or_auto_def starts_with_def)
  have 2: "operator_command_of (snd (scan_pipe ack_arguments None [])) = Some ?cmd"
    unfolding scan using five by (simp add: operator_command_of_def)
  obtain w where w: "encode_frame (lit ''WELCOME|'' @ lit ''s'') = Inr w"
    by (simp add: encode_frame_def utf8_char_def MAX_FRAME_BYTES_def)
  obtain sent where sent: "encode_frame (lit ''RECOVERY|'' @ pc_session_id ?c @ lit ''|'' @ ?line) = Inr sent"
    by (simp add: encode_frame_def utf8_char_def MAX_FRAME_BYTES_def)
  obtain f where f: "encode_frame (lit ''RESULT|DEFINITE|'' @ ?answer) = Inr f"
    by (simp add: encode_frame_def utf8_char_def MAX_FRAME_BYTES_def)
  have run: "answer_operator (fe_io_first ?env) (fresh_store 128) (sv_disk ?sv) (pc_session_id ?c) ?cmd =
      (?answer, fresh_store 128, sv_disk ?sv)"
    by (simp add: answer_operator_def store_acknowledge_def mutate_state_def fresh_store_def registry_acknowledge_def resolve_key_def)
  have "f \<noteq> []" using f by (auto simp: encode_frame_Inr)
  have "run_recovery_command (\<lambda>_. []) (\<lambda>_. [OA_Opened]) (prompt_env [Some w]) (prompt_env [Some f]) ack_arguments = Some (Inr ?answer)"
    by (rule conjunct2, rule operator_command_correct [OF 1 2 _ connected [OF w] _ _ _ _ _ run sent f _ prompt_delivers [OF \<open>f \<noteq> []\<close>]])
      (simp_all add: no_bar_def usable_def check_session_def welcomed_def is_scalar_def)
  then show ?thesis by blast
qed

text \<open>
  Separators in an argument are not refused: an acknowledgement meant for one target is carried out
  on another one.
\<close>

lemma separator_redirects_ack:
  assumes "parse_u64 n = Some m" and "parse_u64 epoch \<noteq> None" and "no_bar [uri, expected, session]"
    and "check_session (sv_endpoint sv) session = Inr ()" and "sv_store sv = Some s" and "\<not> sv_lock_poisoned sv"
  shows "\<exists>line. recovery_line [lit ''ack'', uri @ lit ''|'' @ expected, n, epoch] = Inr line \<and>
    handle_recovery_command io sv (session @ lit ''|'' @ line) =
      (case run_operator io s (sv_disk sv) session (OC_Ack uri expected m) of
         (answer, s', d') \<Rightarrow> (answer, sv\<lparr>sv_store := Some s', sv_disk := d'\<rparr>))"
proof -
  let ?line = "lit ''ACK|'' @ join_with [bar] [uri, expected, n, epoch]"
  have "recovery_line [lit ''ack'', uri @ lit ''|'' @ expected, n, epoch] = Inr ?line"
    using assms(2) by (simp add: recovery_line_def)
  moreover have "split_on bar (session @ lit ''|'' @ ?line) = session # lit ''ACK'' # uri # expected # n # split_on bar epoch"
    using command_pieces [of session "lit ''ACK''" "join_with [bar] [uri, expected, n, epoch]"] assms(3) parsed_no_bar [OF assms(1)]
    by (simp add: no_bar_def split_on_append)
  then have "handle_recovery_command io sv (session @ lit ''|'' @ ?line) =
      (case run_operator io s (sv_disk sv) session (OC_Ack uri expected m) of
         (answer, s', d') \<Rightarrow> (answer, sv\<lparr>sv_store := Some s', sv_disk := d'\<rparr>))"
    using assms(1,4-6) by (simp add: handle_recovery_command_def ack_command_def split: prod.split)
  ultimately show ?thesis by blast
qed

end
