(* ===== verification/Launch.thy ===== *)
theory Launch
  imports Endpoint Peer Cli
begin

text \<open>
  The two endpoint commands (zonkey-win, \<open>lib.rs\<close>: \<open>run_serve_host_validation\<close> and
  \<open>run_handoff_live\<close>; \<open>pipe_transport.rs\<close>: \<open>spawn_dummy_host_server_with_handoff\<close>): resolving the pipe
  name, preparing the handoff provider, opening the store, starting the listener, serving, and
  removing the discovery record.

  The discovery record and the recovery file are kept on two disks.  Console output and the wait for
  the end of the run are not modelled.
\<close>

subsection \<open>Handoff providers\<close>

fun debug_handoff_error :: "handoff_request_error \<Rightarrow> ustr" where
  "debug_handoff_error HE_NoCurrentPlan = lit ''NoCurrentPlan''"
| "debug_handoff_error HE_StaleHandoff = lit ''StaleHandoff''"
| "debug_handoff_error HE_GenerationMismatch = lit ''GenerationMismatch''"
| "debug_handoff_error HE_MalformedSpan = lit ''MalformedSpan''"
| "debug_handoff_error HE_InternalGateFailed = lit ''InternalGateFailed''"

definition serve_provider :: "bool \<Rightarrow> decision_processor \<Rightarrow> ustr + handoff_request" where
  "serve_provider poisoned p =
     (if poisoned then Inl (lit ''processor poisoned'')
      else (case current_restore_handoff p of
              None \<Rightarrow> Inl (lit ''NoCurrentPlan'')
            | Some h \<Rightarrow> map_sum debug_handoff_error id (build_host_request p h)))"

definition live_provider :: "shared_decision_state \<Rightarrow> ustr + handoff_request" where
  "live_provider s = map_sum debug_handoff_error id (current_handoff_request s)"

subsection \<open>Starting the listener\<close>

text \<open>What the system answers while an endpoint starts.\<close>

record launch_env =
  le_dir :: "ustr list option"
  le_discovery_io :: write_io
  le_pipe_random :: "ustr + bytes"
  le_pid :: u32
  le_started :: u64
  le_open :: open_env
  le_session_random :: "ustr + bytes"
  le_session_counter :: u64
  le_security :: "ustr + unit"
  le_pipe_created :: bool
  le_ready_in_time :: bool
  le_removable :: bool

text \<open>
  The thread signals readiness also when the pipe could not be created, and a thread that ends
  without a signal counts as ready too; the result then carries no listener.
\<close>

definition spawn_dummy_host_server ::
  "launch_env \<Rightarrow> nat \<Rightarrow> recovery_store option \<Rightarrow> disk \<Rightarrow> pipe_error + ustr \<times> server option" where
  "spawn_dummy_host_server env capacity recovery d =
     (case fst (next_session_id (le_session_random env) (le_session_counter env)) of
        Inl e \<Rightarrow> Inl e
      | Inr session \<Rightarrow>
         (case le_security env of
            Inl e \<Rightarrow> Inl (PI_PipeSecurity e)
          | Inr _ \<Rightarrow>
              if \<not> le_ready_in_time env then Inl PI_ConnectTimeout
              else Inr (session,
                case spawn_server capacity recovery d of
                  Inl _ \<Rightarrow> None
                | Inr sv \<Rightarrow> if le_pipe_created env then Some sv else None)))"

record started =
  st_pipe :: ustr
  st_discovery :: bool
  st_session :: ustr
  st_server :: "server option"

text \<open>The common part: the store is opened and the listener started; \<open>None\<close> is a panic.\<close>

definition start_listener ::
  "(pipe_error \<Rightarrow> ustr) \<Rightarrow> launch_env \<Rightarrow> ustr \<times> bool \<Rightarrow> disk \<Rightarrow> (ustr + started) option \<times> disk" where
  "start_listener debug env resolved d =
     (case open_default (le_open env) d of
        (None, d') \<Rightarrow> (None, d')
      | (Some store, d') \<Rightarrow>
          (Some (case spawn_dummy_host_server env 256 (Some store) d' of
                   Inl e \<Rightarrow> Inl (lit ''pipe listener failed: '' @ debug e)
                 | Inr (session, server) \<Rightarrow>
                     Inr \<lparr>st_pipe = fst resolved, st_discovery = snd resolved, st_session = session,
                          st_server = server\<rparr>), d'))"

definition resolve_pipe ::
  "(pipe_error \<Rightarrow> ustr) \<Rightarrow> launch_env \<Rightarrow> disk \<Rightarrow> ustr \<Rightarrow> (ustr + ustr \<times> bool) \<times> disk" where
  "resolve_pipe debug env dd requested =
     resolve_endpoint_pipe debug (le_dir env) (le_discovery_io env) dd (le_pipe_random env) (le_pid env)
       (le_started env) requested"

text \<open>Feeding the token of the command line; the inner \<open>None\<close> is a run without a token.\<close>

definition token_provider ::
  "unicode \<Rightarrow> ustr option \<Rightarrow> (ustr + (ustr + handoff_request) option) option" where
  "token_provider U handoff =
     (case handoff of
        None \<Rightarrow> Some (Inr None)
      | Some word \<Rightarrow>
          if word = [] \<or> \<not> list_all is_ascii_alphabetic word
          then Some (Inl (lit ''handoff token must be non-empty ASCII letters''))
          else map_option (\<lambda>p. Inr (Some (serve_provider False p))) (feed_token U (processor_new False) word 1))"

definition serve_start ::
  "unicode \<Rightarrow> (pipe_error \<Rightarrow> ustr) \<Rightarrow> launch_env \<Rightarrow> ustr \<Rightarrow> ustr option \<Rightarrow> disk \<Rightarrow> disk
    \<Rightarrow> (ustr + started \<times> (ustr + handoff_request) option) option \<times> disk \<times> disk" where
  "serve_start U debug env requested handoff dd d =
     (case resolve_pipe debug env dd requested of
        (Inl e, dd') \<Rightarrow> (Some (Inl e), dd', d)
      | (Inr resolved, dd') \<Rightarrow>
         (case token_provider U handoff of
            None \<Rightarrow> (None, dd', d)
          | Some (Inl e) \<Rightarrow> (Some (Inl e), dd', d)
          | Some (Inr provider) \<Rightarrow>
             (case start_listener debug env resolved d of
                (result, d') \<Rightarrow> (map_option (map_sum id (\<lambda>st. (st, provider))) result, dd', d'))))"

definition live_start ::
  "(pipe_error \<Rightarrow> ustr) \<Rightarrow> launch_env \<Rightarrow> ustr \<Rightarrow> disk \<Rightarrow> disk \<Rightarrow> (ustr + started) option \<times> disk \<times> disk" where
  "live_start debug env requested dd d =
     (case resolve_pipe debug env dd requested of
        (Inl e, dd') \<Rightarrow> (Some (Inl e), dd', d)
      | (Inr resolved, dd') \<Rightarrow>
         (case start_listener debug env resolved d of (result, d') \<Rightarrow> (result, dd', d')))"

subsection \<open>Serving until the shutdown\<close>

definition production_env :: "(ustr + handoff_request) option \<Rightarrow> frame_env \<Rightarrow> frame_env" where
  "production_env provider env = env\<lparr>fe_handler := composition_gate_handler, fe_handoff := provider\<rparr>"

definition production_connection :: "(ustr + handoff_request) option \<Rightarrow> connection \<Rightarrow> connection" where
  "production_connection provider c = c\<lparr>cn_envs := map (production_env provider) (cn_envs c)\<rparr>"

definition serve_started ::
  "started \<Rightarrow> (ustr + handoff_request) option \<Rightarrow> connection list \<Rightarrow> server option \<times> server_effect list" where
  "serve_started st provider connections =
     (case st_server st of
        None \<Rightarrow> (None, [])
      | Some sv \<Rightarrow>
         (case listener (st_session st) (map (production_connection provider) connections) sv of
            (sv', effects) \<Rightarrow> (Some sv', effects)))"

definition end_discovery :: "launch_env \<Rightarrow> started \<Rightarrow> disk \<Rightarrow> disk" where
  "end_discovery env st dd =
     (if st_discovery st then snd (remove_record (le_dir env) (le_removable env) dd (st_pipe st)) else dd)"

text \<open>The command: the result of a run that ended, and the discovery disk after it.\<close>

definition run_serve_host_validation ::
  "unicode \<Rightarrow> (pipe_error \<Rightarrow> ustr) \<Rightarrow> launch_env \<Rightarrow> ustr \<Rightarrow> ustr option \<Rightarrow> connection list \<Rightarrow> disk \<Rightarrow> disk
    \<Rightarrow> (ustr + server option \<times> server_effect list) option \<times> disk" where
  "run_serve_host_validation U debug env requested handoff connections dd d =
     (case serve_start U debug env requested handoff dd d of
        (None, dd', _) \<Rightarrow> (None, dd')
      | (Some (Inl e), dd', _) \<Rightarrow> (Some (Inl e), dd')
      | (Some (Inr (st, provider)), dd', _) \<Rightarrow>
          (Some (Inr (serve_started st provider connections)), end_discovery env st dd'))"

subsection \<open>The live endpoint\<close>

text \<open>
  The observer thread and the listener thread share the decision state; each event and each frame is
  one step, since both hold the lock.  A step is \<open>None\<close> when the observer panics.
\<close>

datatype live_action = LA_Input decision_input | LA_Frame frame_env ustr

fun live_step ::
  "unicode \<Rightarrow> ustr \<Rightarrow> live_action \<Rightarrow> shared_decision_state \<times> server
    \<Rightarrow> ((shared_decision_state \<times> server) \<times> server_effect list) option" where
  "live_step U session (LA_Input (DI_Event e)) (s, sv) =
     (case shared_process U s e of (None, _) \<Rightarrow> None | (Some _, s') \<Rightarrow> Some ((s', sv), []))"
| "live_step U session (LA_Input DI_Gap) (s, sv) = Some ((shared_reset s, sv), [])"
| "live_step U session (LA_Frame env payload) (s, sv) =
     (case serve_frame (production_env (Some (live_provider s)) env) session sv payload of
        (_, sv', effects) \<Rightarrow> Some ((s, sv'), effects))"

fun live_run ::
  "unicode \<Rightarrow> ustr \<Rightarrow> live_action list \<Rightarrow> shared_decision_state \<times> server
    \<Rightarrow> ((shared_decision_state \<times> server) \<times> server_effect list) option" where
  "live_run U session [] x = Some (x, [])"
| "live_run U session (a # as) x =
     (case live_step U session a x of
        None \<Rightarrow> None
      | Some (x', effects) \<Rightarrow>
          map_option (\<lambda>(x'', later). (x'', effects @ later)) (live_run U session as x'))"

fun live_inputs :: "live_action list \<Rightarrow> decision_input list" where
  "live_inputs [] = []"
| "live_inputs (LA_Input i # as) = i # live_inputs as"
| "live_inputs (LA_Frame env payload # as) = live_inputs as"

lemma live_run_inputs:
  "shared_inv s \<Longrightarrow> \<exists>s' sv' effects cs. live_run U session as (s, sv) = Some ((s', sv'), effects) \<and> shared_inv s' \<and>
     decision_steps U (sd_processor s) (live_inputs as) = Some (cs, sd_processor s')"
proof (induction as arbitrary: s sv)
  case (Cons a as)
  show ?case
  proof (cases a)
    case (LA_Frame env payload)
    obtain k sv1 e1 where f: "serve_frame (production_env (Some (live_provider s)) env) session sv payload = (k, sv1, e1)"
      by (rule prod_cases3)
    from Cons.IH [OF Cons.prems, of sv1] LA_Frame f show ?thesis by fastforce
  next
    case (LA_Input i)
    show ?thesis
    proof (cases i)
      case DI_Gap
      have inv: "shared_inv (shared_reset s)" "sd_processor (shared_reset s) = reset_decision_state (sd_processor s)"
        using Cons.prems by (simp_all add: shared_inv_def shared_reset_def reset_decision_state_step)
      from Cons.IH [OF inv(1), of sv] LA_Input DI_Gap inv(2) show ?thesis by fastforce
    next
      case (DI_Event e)
      obtain c p where p: "process_decision U (sd_processor s) e = Some (c, p)"
        "shared_process U s e = (Some c, s\<lparr>sd_processor := p\<rparr>)" "shared_inv (s\<lparr>sd_processor := p\<rparr>)"
        using shared_process_inv [OF Cons.prems] by blast
      from Cons.IH [OF p(3), of sv] LA_Input DI_Event p show ?thesis by fastforce
    qed
  qed
qed (use shared_new_inv in auto)

lemma live_provider_reachable:
  assumes "reachable U (sd_processor s)" and "shared_inv s"
  shows "live_provider s =
    (case current_restore_handoff (sd_processor s) of
       None \<Rightarrow> Inl (lit ''NoCurrentPlan'') | Some h \<Rightarrow> Inr (host_request h))"
proof (cases "current_restore_handoff (sd_processor s)")
  case (Some h)
  then have "build_host_request (sd_processor s) h = Inr (host_request h)"
    using build_host_request_iff [OF assms(1)] by simp
  with Some assms(2) show ?thesis
    by (simp add: live_provider_def current_handoff_request_def shared_inv_def)
qed (use assms(2) in \<open>simp add: live_provider_def current_handoff_request_def shared_inv_def\<close>)

lemma serve_handoff_frame:
  "serve_frame env sid sv (lit ''HANDOFF|'' @ q) = serve_handoff env sv q"
proof -
  have "strip_prefix (lit ''HELLO|'') (lit ''HANDOFF|'' @ q) = None" "strip_prefix (lit ''RECOVERY|'') (lit ''HANDOFF|'' @ q) = None"
    by (simp_all add: strip_prefix_def)
  then show ?thesis by (simp only: serve_frame_def strip_prefix_append option.case)
qed

text \<open>What the endpoint says of the plan that is stored, if any.\<close>

definition plan_answer :: "restore_plan option \<Rightarrow> ustr" where
  "plan_answer plan =
     (case plan of
        None \<Rightarrow> lit ''handoff-rejected:NoCurrentPlan''
      | Some plan \<Rightarrow> lit ''handoff:'' @ join_with [bar]
          [lit ''handoff-'' @ show_nat (unat (rp_generation plan)), rp_rendered_token plan, rp_replacement_token plan,
           show_nat (length (rp_rendered_token plan)), show_nat (length (rp_replacement_token plan)),
           show_nat (unat (rp_generation plan))])"

lemma live_query_answer:
  assumes "reachable U (sd_processor s)" and "shared_inv s" and "check_session (sv_endpoint sv) q = Inr ()"
  shows "live_step U session (LA_Frame env (lit ''HANDOFF|'' @ q)) (s, sv) =
    (case answered env sv (lit ''RESULT|DEFINITE|'' @ plan_answer (dp_last_restore_plan (sd_processor s))) of
       (_, sv', sent) \<Rightarrow> Some ((s, sv'), sent))"
proof -
  let ?p = "sd_processor s"
  have given: "(case (case current_restore_handoff ?p of
         None \<Rightarrow> Inl (lit ''NoCurrentPlan'') | Some h \<Rightarrow> Inr (host_request h)) of
       Inl e \<Rightarrow> lit ''handoff-rejected:'' @ e | Inr hr \<Rightarrow> handoff_payload hr) =
     plan_answer (dp_last_restore_plan ?p)"
  proof (cases "dp_last_restore_plan ?p")
    case None
    then show ?thesis by (simp add: current_restore_handoff_def plan_answer_def split: option.split)
  next
    case (Some plan)
    then have "plan_ok ?p plan" using reachable_inv [OF assms(1)] by (simp add: processor_inv_def)
    then have "current_plan_eligibility ?p = PE_Eligible"
      using Some plan_ok_eligible by (simp add: current_plan_eligibility_def)
    then obtain h where h: "current_restore_handoff ?p = Some h" using Some by (simp add: current_restore_handoff_def)
    show ?thesis
      unfolding h option.case sum.case host_request_of_plan [OF assms(1) h Some]
      by (simp add: Some plan_answer_def handoff_payload_def)
  qed
  note p = live_provider_reachable [OF assms(1,2)]
  have "answered (production_env provider env) sv x = answered env sv x" for provider x
    by (simp add: answered_def write_frame_def reply_def production_env_def split: sum.split)
  moreover have "isl (check_session (sv_endpoint sv) q) = False" using assms(3) by simp
  moreover have "fe_handoff (production_env (Some (live_provider s)) env) = Some (live_provider s)"
    by (simp add: production_env_def)
  ultimately show ?thesis
    unfolding live_step.simps serve_handoff_frame serve_handoff_def p
    by (simp only: if_False option.case given)
qed

text \<open>
  C27. The live endpoint hands out what the user typed and nothing else: whatever events, gaps and frames
  arrive in whatever interleaving, nothing panics, the decision state is the one that the inputs
  alone lead to, and at that point a handoff query of the session is answered with the plan that is
  stored then, written out, or with the refusal that there is none.  When the keys are as their
  constructors admit them, the replacement that is handed out is the word typed last.
\<close>

theorem live_handoff_current:
  "\<exists>s sv effects cs. live_run U session as (shared_new, sv0) = Some ((s, sv), effects) \<and>
    decision_steps U (processor_new False) (live_inputs as) = Some (cs, sd_processor s) \<and>
    (\<forall>q env. check_session (sv_endpoint sv) q = Inr () \<longrightarrow>
       live_step U session (LA_Frame env (lit ''HANDOFF|'' @ q)) (s, sv) =
         (case answered env sv (lit ''RESULT|DEFINITE|'' @ plan_answer (dp_last_restore_plan (sd_processor s))) of
            (_, sv', sent) \<Rightarrow> Some ((s, sv'), sent))) \<and>
    (list_all wf_input (live_inputs as) \<longrightarrow>
       (\<forall>plan. dp_last_restore_plan (sd_processor s) = Some plan \<longrightarrow>
          tk_ended (keys_typed (live_inputs as)) = Some (rp_replacement_token plan)))"
proof -
  obtain s sv effects cs where run: "live_run U session as (shared_new, sv0) = Some ((s, sv), effects)"
    and inv: "shared_inv s" and steps: "decision_steps U (processor_new False) (live_inputs as) = Some (cs, sd_processor s)"
    using live_run_inputs [OF shared_new_inv, of U session as sv0] by (auto simp: shared_new_def)
  then have r: "reachable U (sd_processor s)" unfolding reachable_def by blast
  have "tk_ended (keys_typed (live_inputs as)) = Some (rp_replacement_token plan)"
    if "list_all wf_input (live_inputs as)" "dp_last_restore_plan (sd_processor s) = Some plan" for plan
    using tracks_steps [OF steps processor_inv_new tracks_new that(1)] reachable_inv [OF r] that(2)
    by (auto simp: tracks_def processor_inv_def plan_ok_def keys_typed_def)
  with run steps live_query_answer [OF r inv] show ?thesis by blast
qed

lemma live_step_quiet:
  "live_step U session (LA_Input i) (s, sv) = Some (x, effects) \<Longrightarrow> \<exists>s'. x = (s', sv) \<and> effects = []"
  by (cases i) (auto split: prod.splits option.splits)

lemma live_run_quiet:
  "live_run U session (map LA_Input is) (s, sv) = Some ((s', sv'), effects) \<Longrightarrow> sv' = sv \<and> effects = []"
proof (induction "is" arbitrary: s effects)
  case (Cons i "is")
  then obtain x later where i: "live_step U session (LA_Input i) (s, sv) = Some (x, later)"
    by (auto split: option.splits)
  with Cons live_step_quiet [OF i] show ?case by (auto split: option.splits prod.splits)
qed simp

lemma live_inputs_map [simp]: "live_inputs (map LA_Input is) = is"
  by (induction "is") auto

lemma live_handoff_current_witness:
  "\<exists>s plan. live_run scalar_unicode (lit ''s'') (map LA_Input (typed_word (lit ''test'') @ [key_press OK_Space]))
      (shared_new, welcomed 1 None no_disk) = Some ((s, welcomed 1 None no_disk), []) \<and>
    rp_rendered_token plan = [116, 0xE9, 116] \<and> rp_replacement_token plan = lit ''test'' \<and>
    live_step scalar_unicode (lit ''s'') (LA_Frame (quiet_env (LO_Definite [])) (lit ''HANDOFF|'' @ lit ''s''))
      (s, welcomed 1 None no_disk) =
      (case answered (quiet_env (LO_Definite [])) (welcomed 1 None no_disk)
         (lit ''RESULT|DEFINITE|'' @ plan_answer (Some plan)) of (_, sv', sent) \<Rightarrow> Some ((s, sv'), sent)) \<and>
    tk_ended (keys_typed (typed_word (lit ''test'') @ [key_press OK_Space])) = Some (lit ''test'')"
proof -
  let ?is = "typed_word (lit ''test'') @ [key_press OK_Space]"
  let ?as = "map LA_Input ?is" and ?sv = "welcomed 1 None no_disk"
  obtain s sv' effects cs where live: "live_run scalar_unicode (lit ''s'') ?as (shared_new, ?sv) = Some ((s, sv'), effects)"
      "decision_steps scalar_unicode (processor_new False) ?is = Some (cs, sd_processor s)"
    and answer: "\<And>q env. check_session (sv_endpoint sv') q = Inr () \<Longrightarrow>
       live_step scalar_unicode (lit ''s'') (LA_Frame env (lit ''HANDOFF|'' @ q)) (s, sv') =
         (case answered env sv' (lit ''RESULT|DEFINITE|'' @ plan_answer (dp_last_restore_plan (sd_processor s))) of
            (_, sv', sent) \<Rightarrow> Some ((s, sv'), sent))"
    and ended: "\<And>plan. list_all wf_input ?is \<Longrightarrow> dp_last_restore_plan (sd_processor s) = Some plan \<Longrightarrow>
      tk_ended (keys_typed ?is) = Some (rp_replacement_token plan)"
    using live_handoff_current [of scalar_unicode "lit ''s''" ?as ?sv] unfolding live_inputs_map by blast
  have q: "sv' = ?sv" "effects = []" using live_run_quiet [OF live(1)] by auto
  have ok: "check_session (sv_endpoint ?sv) (lit ''s'') = Inr ()" by (simp add: check_session_def welcomed_def)
  obtain p where p: "decision_steps scalar_unicode (processor_new False) ?is =
      Some (replicate 4 (Some PC_Observed) @ [Some PC_BoundaryObserved], p)"
    "dp_last_restore_plan p = typed_word_plan (lit ''test'') [116, 0xE9, 116]"
    using typed_test_steps [of scalar_unicode] by blast
  have "sd_processor s = p" using live(2) p(1) by auto
  then obtain plan where plan: "dp_last_restore_plan (sd_processor s) = Some plan"
    "rp_rendered_token plan = [116, 0xE9, 116]" "rp_replacement_token plan = lit ''test''"
    using p(2) built_in_test by (auto simp: typed_word_plan_def)
  have wf: "list_all wf_input ?is"
    by (simp add: typed_word_def key_press_def is_ascii_alphabetic_def is_ascii_lowercase_def)
  show ?thesis
    using live(1) plan(2,3) ended [OF wf plan(1)] answer [of "lit ''s''" "quiet_env (LO_Definite [])", unfolded q, OF ok]
    unfolding q plan(1) by (intro exI [of _ s] exI [of _ plan]) simp
qed

subsection \<open>From the token of the command line to the host\<close>

lemma serve_provider_handoff:
  "serve_provider False p = map_sum debug_handoff_error id (current_handoff_request \<lparr>sd_processor = p, sd_poisoned = False\<rparr>)"
  by (simp add: serve_provider_def current_handoff_request_def split: option.split)

definition fed_answer :: "ustr \<Rightarrow> ustr \<Rightarrow> ustr" where
  "fed_answer w r =
     (if w \<noteq> r \<and> built_in_classify w \<noteq> None then
        lit ''handoff:'' @ join_with [bar] [lit ''handoff-1'', r, w, show_nat (length r), show_nat (length w), lit ''1'']
      else lit ''handoff-rejected:NoCurrentPlan'')"

lemma fed_provider:
  assumes "list_all is_ascii_lowercase w" and "w \<noteq> []" and "compose w = Inr r" and "length w < 2 ^ 64 - 1"
  shows "\<exists>provider. token_provider U (Some w) = Some (Inr (Some provider)) \<and>
    (case provider of Inl e \<Rightarrow> lit ''handoff-rejected:'' @ e | Inr hr \<Rightarrow> handoff_payload hr) = fed_answer w r"
proof -
  have letters: "list_all is_ascii_alphabetic w"
    using assms(1) by (auto simp: list_all_iff is_ascii_alphabetic_def)
  have "unat (1 :: u64) + length w < 2 ^ 64" using assms(4) by simp
  from fed_word_request [OF assms(1-3) _ this, of U False] obtain p where p:
    "feed_token U (processor_new False) w 1 = Some p"
    "current_handoff_request \<lparr>sd_processor = p, sd_poisoned = False\<rparr> =
      (if w \<noteq> r \<and> built_in_classify w \<noteq> None then
         Inr \<lparr>hr_request_id = lit ''handoff-1'', hr_rendered_token = r, hr_replacement_token = w,
              hr_rendered_units = length r, hr_replacement_units = length w, hr_generation = 1\<rparr>
       else Inl HE_NoCurrentPlan)"
    by auto
  have one: "show_nat 1 = lit ''1''" by (simp add: show_nat.simps)
  show ?thesis
    using letters assms(2) p one
    by (auto simp: token_provider_def serve_provider_handoff fed_answer_def handoff_payload_def)
qed

text \<open>
  C29. From the command line to the host: an endpoint started with a lower-case handoff token answers
  the handoff query of every client of its session with the request to replace the Telex rendering
  of that word by the word itself when the word is in an embedded dictionary and Telex changed it,
  and with a refusal otherwise; a client whose pipe works receives exactly that text.
\<close>

theorem served_token_reaches_host:
  assumes "serve_start U debug env requested (Some w) dd d = (Some (Inr (st, provider)), dd', d')"
    and "list_all is_ascii_lowercase w" and "w \<noteq> []" and "compose w = Inr r" and "length w < 2 ^ 64 - 1"
    and "check_session (sv_endpoint sv) (pc_session_id client) = Inr ()" and "usable client"
    and "encode_frame (lit ''HANDOFF|'' @ pc_session_id client) = Inr sent"
    and "encode_frame (lit ''RESULT|DEFINITE|'' @ fed_answer w r) = Inr f" and "valid_str (fed_answer w r)"
    and "delivers call_env f"
  shows "serve_frame (production_env provider fenv) session sv (lit ''HANDOFF|'' @ pc_session_id client) =
      answered (production_env provider fenv) sv (lit ''RESULT|DEFINITE|'' @ fed_answer w r) \<and>
    handoff_query call_env client = (Inr (fed_answer w r), client)"
proof
  obtain answer where a: "token_provider U (Some w) = Some (Inr (Some answer))"
    "(case answer of Inl e \<Rightarrow> lit ''handoff-rejected:'' @ e | Inr hr \<Rightarrow> handoff_payload hr) = fed_answer w r"
    using fed_provider [OF assms(2-5)] by blast
  then have provider: "provider = Some answer"
    using assms(1) by (auto simp: serve_start_def map_option_case map_sum_def split: prod.splits sum.splits option.splits)
  have "isl (check_session (sv_endpoint sv) (pc_session_id client)) = False" using assms(6) by simp
  then show "serve_frame (production_env provider fenv) session sv (lit ''HANDOFF|'' @ pc_session_id client) =
      answered (production_env provider fenv) sv (lit ''RESULT|DEFINITE|'' @ fed_answer w r)"
    unfolding serve_handoff_frame serve_handoff_def a(2) [symmetric]
    by (simp add: provider production_env_def)
  show "handoff_query call_env client = (Inr (fed_answer w r), client)"
    unfolding handoff_query_def using definite_exchange [OF assms(8,11,10,9)] assms(7) by simp
qed

subsection \<open>A sample start\<close>

definition good_launch :: launch_env where
  "good_launch = \<lparr>le_dir = Some [], le_discovery_io = good_io, le_pipe_random = Inr [0xab], le_pid = 7, le_started = 9,
     le_open = good_env, le_session_random = Inr [1], le_session_counter = 1, le_security = Inr (),
     le_pipe_created = True, le_ready_in_time = True, le_removable = True\<rparr>"

lemma explicit_pipe:
  "resolve_pipe debug env dd (local_pipe_prefix @ lit ''x'') = (Inr (local_pipe_prefix @ lit ''x'', False), dd)"
  by (simp add: resolve_pipe_def resolve_endpoint_pipe_def local_pipe_prefix_def starts_with_def)

lemma good_listener:
  "\<exists>st d'. start_listener debug good_launch resolved no_disk = (Some (Inr st), d') \<and> st_pipe st = fst resolved \<and>
     st_discovery st = snd resolved"
proof -
  obtain bs where o: "open_in 128 good_env no_disk = (Some (fresh_store 128), \<lparr>dk_state = Some bs, dk_temp = None\<rparr>)"
    using open_good [of 128] by auto
  then have "open_default (le_open good_launch) no_disk = (Some (fresh_store 128), \<lparr>dk_state = Some bs, dk_temp = None\<rparr>)"
    by (simp add: open_default_def MAX_RECOVERY_ENTRIES_def good_launch_def)
  then show ?thesis
    unfolding start_listener_def
    by (simp add: spawn_dummy_host_server_def next_session_id_def good_launch_def)
qed

lemma served_token_reaches_host_witness:
  "\<exists>st provider dd' d' call_env.
     serve_start scalar_unicode (\<lambda>_. []) good_launch (local_pipe_prefix @ lit ''x'') (Some (lit ''test'')) no_disk no_disk =
       (Some (Inr (st, provider)), dd', d') \<and>
     handoff_query call_env \<lparr>pc_handle = True, pc_session_id = lit ''s'', pc_broken = False\<rparr> =
       (Inr (fed_answer (lit ''test'') [116, 0xE9, 116]), \<lparr>pc_handle = True, pc_session_id = lit ''s'', pc_broken = False\<rparr>)"
proof -
  let ?c = "\<lparr>pc_handle = True, pc_session_id = lit ''s'', pc_broken = False\<rparr>"
  let ?a = "fed_answer (lit ''test'') [116, 0xE9, 116]"
  have word: "list_all is_ascii_lowercase (lit ''test'')" "lit ''test'' \<noteq> []" "length (lit ''test'') < 2 ^ 64 - 1"
    by (simp_all add: is_ascii_lowercase_def)
  obtain answer where a: "token_provider scalar_unicode (Some (lit ''test'')) = Some (Inr (Some answer))"
    using fed_provider [OF word(1,2) compose_test word(3)] by blast
  obtain st d' where "start_listener (\<lambda>_. []) good_launch (local_pipe_prefix @ lit ''x'', False) no_disk = (Some (Inr st), d')"
    using good_listener by blast
  then have s: "serve_start scalar_unicode (\<lambda>_. []) good_launch (local_pipe_prefix @ lit ''x'') (Some (lit ''test'')) no_disk no_disk =
      (Some (Inr (st, Some answer)), no_disk, d')"
    unfolding serve_start_def explicit_pipe prod.case sum.case a option.case by simp
  have shown: "?a = lit ''handoff:handoff-1|t'' @ [0xE9] @ lit ''t|test|3|4|1''"
  proof -
    have "lit ''test'' \<noteq> [116, 0xE9, 116] \<and> built_in_classify (lit ''test'') \<noteq> None" using built_in_test by simp
    moreover have "show_nat (length [116 :: nat, 0xE9, 116]) = lit ''3''" "show_nat (length (lit ''test'')) = lit ''4''"
      by (simp_all add: show_nat.simps)
    ultimately show ?thesis unfolding fed_answer_def by (simp only: if_True) simp
  qed
  have valid: "valid_str ?a" unfolding shown by (simp add: is_scalar_def)
  obtain sent where sent: "encode_frame (lit ''HANDOFF|'' @ pc_session_id ?c) = Inr sent"
    by (simp add: encode_frame_def utf8_char_def MAX_FRAME_BYTES_def)
  obtain f where f: "encode_frame (lit ''RESULT|DEFINITE|'' @ ?a) = Inr f"
    unfolding shown by (simp add: encode_frame_def utf8_char_def MAX_FRAME_BYTES_def)
  have "f \<noteq> []" using f by (auto simp: encode_frame_Inr)
  have ok: "check_session (sv_endpoint (welcomed 1 None no_disk)) (pc_session_id ?c) = Inr ()" "usable ?c"
    by (simp_all add: check_session_def welcomed_def usable_def)
  from served_token_reaches_host [OF s word(1,2) compose_test word(3) ok sent f valid prompt_delivers [OF \<open>f \<noteq> []\<close>]] s
  show ?thesis by blast
qed

subsection \<open>A start without a listener\<close>

text \<open>
  A discovery record is no proof of an endpoint: when the pipe cannot be created, or its security
  attributes cannot be built, after \<open>auto\<close> was resolved, then the discovery file names a pipe that
  nobody serves.  With failed security attributes the command reports an error and the record stays
  behind; with a failed pipe it reports success, serves nothing, and the record goes away only at
  the shutdown.
\<close>

lemma discovery_without_endpoint:
  assumes "serve_start U debug env (lit ''auto'') handoff dd d = (Some result, dd', d')"
    and "resolve_pipe debug env dd (lit ''auto'') = (Inr (name, True), dd1)"
    and "\<not> le_pipe_created env \<or> le_security env = Inl e"
  shows "read_record (le_dir env) dd' = Some \<lparr>er_protocol = ENDPOINT_PROTOCOL, er_pipe = name, er_pid = le_pid env,
      er_started_unix_ms = le_started env\<rparr> \<and>
    (case result of
       Inl _ \<Rightarrow> snd (run_serve_host_validation U debug env (lit ''auto'') handoff connections dd d) = dd'
     | Inr (st, provider) \<Rightarrow> st_pipe st = name \<and> le_security env = Inr () \<and>
         run_serve_host_validation U debug env (lit ''auto'') handoff connections dd d =
           (Some (Inr (None, [])), end_discovery env st dd'))"
proof -
  have dd': "dd' = dd1"
    using assms(1,2) by (auto simp: serve_start_def split: option.splits sum.splits prod.splits)
  have "read_record (le_dir env) dd' = Some \<lparr>er_protocol = ENDPOINT_PROTOCOL, er_pipe = name, er_pid = le_pid env,
      er_started_unix_ms = le_started env\<rparr>"
    using resolved_record [OF assms(2) [unfolded resolve_pipe_def]] dd' by simp
  moreover have "st_pipe st = name \<and> le_security env = Inr () \<and> st_server st = None"
    if "result = Inr (st, provider)" for st provider
    using assms that
    by (auto simp: serve_start_def start_listener_def spawn_dummy_host_server_def
        split: option.splits sum.splits prod.splits if_splits)
  ultimately show ?thesis
    using assms(1) by (auto simp: run_serve_host_validation_def serve_started_def split: sum.split prod.split)
qed

lemma discovery_without_endpoint_witness:
  "\<exists>dd st d'. serve_start scalar_unicode (\<lambda>_. []) (good_launch\<lparr>le_pipe_created := False\<rparr>) (lit ''auto'') None no_disk no_disk =
      (Some (Inr (st, None)), dd, d') \<and>
    run_serve_host_validation scalar_unicode (\<lambda>_. []) (good_launch\<lparr>le_pipe_created := False\<rparr>) (lit ''auto'') None
      [hello_connection] no_disk no_disk =
      (Some (Inr (None, [])), end_discovery (good_launch\<lparr>le_pipe_created := False\<rparr>) st dd) \<and>
    read_record (Some []) dd \<noteq> None"
proof -
  let ?env = "good_launch\<lparr>le_pipe_created := False\<rparr>"
  obtain dd where r: "resolve_pipe (\<lambda>_. []) ?env no_disk (lit ''auto'') = (Inr (local_pipe_prefix @ lit ''zonkey-svc-ab'', True), dd)"
    using sample_resolution [of "\<lambda>_. []"] by (auto simp: resolve_pipe_def good_launch_def)
  obtain st0 d' where "start_listener (\<lambda>_. []) good_launch (local_pipe_prefix @ lit ''zonkey-svc-ab'', True) no_disk =
      (Some (Inr st0), d')"
    using good_listener by blast
  then obtain st where "start_listener (\<lambda>_. []) ?env (local_pipe_prefix @ lit ''zonkey-svc-ab'', True) no_disk = (Some (Inr st), d')"
    by (auto simp: start_listener_def spawn_dummy_host_server_def good_launch_def next_session_id_def
        split: option.splits prod.splits sum.splits)
  then have s: "serve_start scalar_unicode (\<lambda>_. []) ?env (lit ''auto'') None no_disk no_disk = (Some (Inr (st, None)), dd, d')"
    unfolding serve_start_def r prod.case sum.case token_provider_def option.case by simp
  have "\<not> le_pipe_created ?env \<or> le_security ?env = Inl []" by simp
  from discovery_without_endpoint [OF s r this, of "[hello_connection]"] s show ?thesis
    by (intro exI [of _ dd] exI [of _ st] exI [of _ d']) (simp add: good_launch_def)
qed

end
