(* ===== verification/ReadOnly.thy ===== *)
theory ReadOnly
  imports Launch
begin

text \<open>
  The endpoint commands never authorise an edit: with the composition gate as their request handler,
  everything such an endpoint sends is a greeting, an error, a handoff, a recovery answer, a
  rejection or the refusal of a reused request id.
\<close>

definition rejection :: "ledger_outcome \<Rightarrow> bool" where
  "rejection out \<longleftrightarrow> (\<exists>s. out = LO_Definite (lit ''rejected:'' @ s))"

definition harmless_result :: "ustr \<Rightarrow> bool" where
  "harmless_result s \<longleftrightarrow> s = lit ''request_id_reuse'' \<or>
     (\<exists>p x. s = p @ x \<and> p \<in> {lit ''rejected:'', lit ''recovery-'', lit ''handoff:'', lit ''handoff-unavailable'', lit ''handoff-rejected:''})"

definition harmless :: "ustr \<Rightarrow> bool" where
  "harmless s \<longleftrightarrow> (\<exists>x. s = lit ''WELCOME|'' @ x \<or> s = lit ''ERROR|'' @ x \<or>
     (s = lit ''RESULT|DEFINITE|'' @ x \<and> harmless_result x))"

definition only_rejections :: "host_endpoint \<Rightarrow> bool" where
  "only_rejections h \<longleftrightarrow>
     (\<forall>rid entry. lg_entries (he_ledger h) rid = Some entry \<longrightarrow> rejection (le_outcome entry))"

definition effects_harmless :: "server_effect list \<Rightarrow> bool" where
  "effects_harmless effects \<longleftrightarrow> (\<forall>s. EF_Sent s \<in> set effects \<longrightarrow> harmless s)"

lemma effects_harmless_simps [simp]:
  "effects_harmless []"
  "effects_harmless (EF_Sent s # effects) \<longleftrightarrow> harmless s \<and> effects_harmless effects"
  "effects_harmless (EF_Executed a b c # effects) \<longleftrightarrow> effects_harmless effects"
  "effects_harmless (EF_Lost s # effects) \<longleftrightarrow> effects_harmless effects"
  "effects_harmless (xs @ ys) \<longleftrightarrow> effects_harmless xs \<and> effects_harmless ys"
  by (auto simp: effects_harmless_def)

lemma effects_harmless_reply [simp]: "effects_harmless (reply env s # effects) \<longleftrightarrow>
    (write_frame env s \<longrightarrow> harmless s) \<and> effects_harmless effects"
  by (simp add: reply_def)

lemma harmless_results:
  "harmless_result (lit ''rejected:'' @ x)" "harmless_result (lit ''recovery-'' @ x)" "harmless_result (lit ''handoff:'' @ x)"
  "harmless_result (lit ''handoff-rejected:'' @ x)" "harmless_result (lit ''handoff-unavailable'')"
  "harmless_result (lit ''request_id_reuse'')"
  unfolding harmless_result_def by blast+

lemma harmless_prefixed:
  "harmless (lit ''WELCOME|'' @ x)" "harmless (lit ''ERROR|'' @ x)"
  "harmless_result x \<Longrightarrow> harmless (lit ''RESULT|DEFINITE|'' @ x)"
  unfolding harmless_def by blast+

lemma rejection_harmless: "rejection out \<Longrightarrow> harmless (outcome_payload out)"
  unfolding rejection_def outcome_payload_def using harmless_prefixed(3) [OF harmless_results(1)] by auto

lemma reuse_harmless: "harmless (outcome_payload request_id_reuse)"
  unfolding request_id_reuse_def outcome_payload_def ledger_outcome.case
  by (rule harmless_prefixed(3) [OF harmless_results(6)])

lemma gate_rejects: "rejection (composition_gate_handler rid mode canonical)"
proof -
  have "rejection (LO_Definite (lit ''rejected:'' @ x))" for x unfolding rejection_def by blast
  from this [of "lit ''ExecutionNotImplemented''"] this [of "lit ''CompositionActive''"] this [of "lit ''CompositionUnknown''"]
  show ?thesis by (simp add: composition_gate_handler_def composition_gate_outcome_def)
qed

lemma applied_not_harmless: "\<not> harmless_result (lit ''applied'' @ x)"
proof
  assume "harmless_result (lit ''applied'' @ x)"
  then have "lit ''applied'' @ x = lit ''request_id_reuse'' \<or> (\<exists>p y. lit ''applied'' @ x = p @ y \<and> hd p \<in> {chr CHR ''r'', chr CHR ''h''} \<and> p \<noteq> [])"
    unfolding harmless_result_def by fastforce
  then show False by (auto simp: Cons_eq_append_conv)
qed

lemma edit_claims_not_harmless:
  "\<not> harmless (lit ''RESULT|AMBIGUOUS|'' @ x)" "\<not> harmless (lit ''RESULT|DEFINITE|applied'' @ x)"
proof -
  show "\<not> harmless (lit ''RESULT|AMBIGUOUS|'' @ x)" by (simp add: harmless_def)
  have "lit ''RESULT|DEFINITE|applied'' @ x = lit ''RESULT|DEFINITE|'' @ (lit ''applied'' @ x)" by simp
  moreover have "\<not> harmless (lit ''RESULT|DEFINITE|'' @ y)" if "\<not> harmless_result y" for y
    using that by (simp add: harmless_def)
  ultimately show "\<not> harmless (lit ''RESULT|DEFINITE|applied'' @ x)"
    using applied_not_harmless [of x] by metis
qed

subsection \<open>The ledger holds rejections only\<close>

lemma record_inner_rejections:
  assumes "\<forall>rid entry. lg_entries l rid = Some entry \<longrightarrow> rejection (le_outcome entry)" and "rejection out"
    and "record_inner l rid c out b = (r, l')"
  shows "\<forall>rid entry. lg_entries l' rid = Some entry \<longrightarrow> rejection (le_outcome entry)"
  using assms
  by (auto simp: record_inner_def ledger_push_def Let_def split: if_splits option.splits)

lemma record_rejections:
  assumes "only_rejections h" and "rejection out"
  shows "only_rejections (snd (endpoint_record h rid c out))"
    and "only_rejections (snd (endpoint_record_with_recovery h rid c out))"
  using assms record_inner_rejections [of "he_ledger h" out rid c]
  by (auto simp: only_rejections_def endpoint_record_def ledger_record_def endpoint_record_with_recovery_def
      ledger_record_with_recovery_def split: prod.split)

lemma hello_rejections: "only_rejections h \<Longrightarrow> only_rejections (snd (accept_hello h protocol session))"
  by (auto simp: only_rejections_def accept_hello_def invalidate_all_def Let_def)

lemma classified_rejection:
  "only_rejections h \<Longrightarrow> classify_request h rid c = RD_Duplicate out \<Longrightarrow> rejection out"
  by (auto simp: only_rejections_def classify_request_def ledger_classify_def split: option.splits if_splits)

subsection \<open>Answers\<close>

text \<open>Every recovery answer starts with \<open>recovery-\<close>.\<close>

definition recovery_answer :: "ustr \<Rightarrow> bool" where
  "recovery_answer s \<longleftrightarrow> take 9 s = lit ''recovery-''"

lemma recovery_literal: "recovery_answer (lit ''recovery-'' @ x)"
  by (simp add: recovery_answer_def)

lemmas recovery_numerals [simp] = recovery_literal [simplified]

lemma recovery_answer_harmless: "recovery_answer s \<Longrightarrow> harmless_result s"
  unfolding recovery_answer_def using harmless_results(2) by (metis append_take_drop_id)

lemma store_error_answer [simp]: "recovery_answer (map_store_error e)"
  by (cases e) simp_all

lemma malformed_answer [simp]: "recovery_answer malformed_command"
  by (simp add: malformed_command_def)

lemma list_recovery_answer [simp]: "recovery_answer (list_answer s)"
  by (simp add: list_answer_def Let_def split: sum.split)

lemma command_recovery_answers [simp]:
  "recovery_answer (fst (block_command io s d session args))"
  "recovery_answer (fst (reconcile_command io s d session args))"
  "recovery_answer (fst (ack_command io s d session args))"
  by (simp_all add: block_command_def reconcile_command_def ack_command_def
      split: list.split option.split prod.split sum.split)

lemma handled_recovery_answer: "recovery_answer (fst (handle_recovery_command io sv command))"
proof (cases "split_on bar command")
  case (Cons session rest)
  have run: "recovery_answer (fst ((if verb = lit ''BLOCK'' then block_command
      else if verb = lit ''RECONCILE'' then reconcile_command else if verb = lit ''ACK'' then ack_command
      else (\<lambda>io s d session args. (malformed_command, s, d))) io s d session args))" for verb s d args
    by (simp only: if_distribR) simp
  have "recovery_answer (lit ''recovery-error:SessionMismatch'')" "recovery_answer (lit ''recovery-error:RecoveryUnavailable'')"
    "recovery_answer (lit ''recovery-error:RegistryLocked'')"
    by simp_all
  with run show ?thesis
    unfolding handle_recovery_command_def Cons list.case Let_def case_prod_beta
    by (cases rest; cases "sv_store sv") (simp_all only: list.case option.case fst_conv list_recovery_answer malformed_answer
        simp_thms split: if_split)
qed (simp add: handle_recovery_command_def)

subsection \<open>Every frame\<close>

definition read_only_step :: "bool \<times> server \<times> server_effect list \<Rightarrow> bool" where
  "read_only_step r \<longleftrightarrow> only_rejections (sv_endpoint (fst (snd r))) \<and> effects_harmless (snd (snd r))"

lemma answered_read_only:
  "only_rejections (sv_endpoint sv) \<Longrightarrow> harmless s \<Longrightarrow> read_only_step (answered env sv s)"
  by (simp add: read_only_step_def answered_def)

lemma hello_read_only:
  assumes "only_rejections (sv_endpoint sv)"
  shows "read_only_step (serve_hello env sid sv protocol)"
proof -
  obtain r h where h: "accept_hello (sv_endpoint sv) protocol sid = (r, h)" by (rule prod.exhaust)
  have "only_rejections h" using hello_rejections [OF assms, of protocol sid] h by simp
  moreover have "harmless (lit ''ERROR|protocol_mismatch'')"
    using harmless_prefixed(2) [of "lit ''protocol_mismatch''"] by simp
  ultimately show ?thesis
    unfolding serve_hello_def h
    by (cases r) (auto simp: read_only_step_def answered_def harmless_prefixed(1) simp del: list.map)
qed

lemma mismatch_harmless: "harmless (lit ''ERROR|session_mismatch'')"
  using harmless_prefixed(2) [of "lit ''session_mismatch''"] by simp

lemma handoff_read_only:
  assumes "only_rejections (sv_endpoint sv)"
  shows "read_only_step (serve_handoff env sv q)"
proof -
  have "harmless_result (case fe_handoff env of None \<Rightarrow> lit ''handoff-unavailable''
      | Some (Inl e) \<Rightarrow> lit ''handoff-rejected:'' @ e | Some (Inr hr) \<Rightarrow> handoff_payload hr)"
    unfolding handoff_payload_def using harmless_results(3-5) by (auto split: option.split sum.split simp del: list.map)
  then show ?thesis
    unfolding serve_handoff_def by (simp only: answered_read_only [OF assms] mismatch_harmless harmless_prefixed(3) split: if_split) simp
qed

lemma request_read_only:
  assumes "only_rejections (sv_endpoint sv)" and "fe_handler env = composition_gate_handler"
  shows "read_only_step (serve_request env sv body)"
proof (cases "parse_request body")
  case None
  then show ?thesis using assms(1) by (simp add: serve_request_def read_only_step_def)
next
  case (Some q)
  obtain session rid mode c where q: "q = (session, rid, mode, c)" by (rule prod_cases4)
  note rec = record_rejections(1) [OF assms(1) gate_rejects]
  have dup: "harmless (outcome_payload out)" if "classify_request (sv_endpoint sv) rid c = RD_Duplicate out" for out
    by (rule rejection_harmless, rule classified_rejection [OF assms(1) that])
  show ?thesis
    unfolding serve_request_def Some q option.case prod.case
    by (cases "classify_request (sv_endpoint sv) rid c")
      (auto simp: assms(2) Let_def answered_def read_only_step_def dup assms(1) rec reuse_harmless mismatch_harmless
        rejection_harmless [OF gate_rejects] case_prod_beta simp del: list.map)
qed

lemma rejection_literals:
  "rejection (LO_Definite (lit ''rejected:RecoveryUnavailable''))" "rejection (LO_Definite (lit ''rejected:TargetBlocked''))"
  "rejection (LO_Definite (lit ''rejected:RecoveryPreflightFailed''))"
  by (simp_all add: rejection_def)

lemma execute_read_only:
  assumes "only_rejections (sv_endpoint sv)" and "fe_handler env = composition_gate_handler"
    and "execute_descriptor_request env sv rd mode c = (out, sv', effects)"
  shows "rejection out \<and> only_rejections (sv_endpoint sv') \<and> effects_harmless effects"
  using assms(3) record_rejections(2) [OF assms(1) gate_rejects] gate_rejects rejection_literals assms(1)
  unfolding execute_descriptor_request_def assms(2)
  by (auto simp: Let_def case_prod_beta split: option.splits if_splits sum.splits prod.splits simp del: list.map)

lemma descriptor_read_only:
  assumes "only_rejections (sv_endpoint sv)" and "fe_handler env = composition_gate_handler"
  shows "read_only_step (serve_descriptor_request env sv body)"
proof (cases "parse_descriptor_request body")
  case None
  then show ?thesis using assms(1) by (simp add: serve_descriptor_request_def read_only_step_def)
next
  case (Some q)
  obtain session rd mode c where q: "q = (session, rd, mode, c)" by (rule prod_cases4)
  have dup: "harmless (outcome_payload out)"
    if "classify_request (sv_endpoint sv) (rd_request_id rd) c = RD_Duplicate out" for out
    by (rule rejection_harmless, rule classified_rejection [OF assms(1) that])
  obtain out sv1 effects where x: "execute_descriptor_request env sv rd mode c = (out, sv1, effects)" by (rule prod_cases3)
  note ex = execute_read_only [OF assms x]
  show ?thesis
    unfolding serve_descriptor_request_def Some q option.case prod.case x
    by (cases "classify_request (sv_endpoint sv) (rd_request_id rd) c")
      (auto simp: Let_def read_only_step_def dup assms(1) reuse_harmless mismatch_harmless ex rejection_harmless
        simp del: list.map)
qed

lemma frame_read_only:
  assumes "only_rejections (sv_endpoint sv)" and "fe_handler env = composition_gate_handler"
  shows "read_only_step (serve_frame env sid sv payload)"
proof -
  have "read_only_step (case handle_recovery_command (fe_io_first env) sv command of
      (answer, sv') \<Rightarrow> answered env sv' (lit ''RESULT|DEFINITE|'' @ answer))" for command
    using handled_recovery_answer [of "fe_io_first env" sv command]
      assms(1)
    by (auto simp only: case_prod_beta recovery_keeps_endpoint intro!: answered_read_only harmless_prefixed(3) recovery_answer_harmless)
  then show ?thesis
    unfolding serve_frame_def Let_def
    using hello_read_only [OF assms(1)] handoff_read_only [OF assms(1)] request_read_only [OF assms] descriptor_read_only [OF assms]
    by (auto simp: read_only_step_def [of "(False, sv, [])"] assms(1) split: option.split simp del: list.map)
qed

subsection \<open>Connections and the listener\<close>

lemma connection_read_only:
  "only_rejections (sv_endpoint sv) \<Longrightarrow> \<forall>env \<in> set envs. fe_handler env = composition_gate_handler \<Longrightarrow>
    only_rejections (sv_endpoint (fst (serve_connection sid envs answers buffer sv))) \<and>
    effects_harmless (snd (serve_connection sid envs answers buffer sv))"
proof (induction envs arbitrary: answers buffer sv)
  case (Cons env envs)
  show ?case
  proof (cases "read_frame_stop_aware answers buffer")
    case (Some r)
    obtain x b as where r: "r = (x, b, as)" by (rule prod_cases3)
    show ?thesis
    proof (cases x)
      case (SR_Frame payload)
      obtain k sv' effects where f: "serve_frame env sid sv payload = (k, sv', effects)" by (rule prod_cases3)
      have "only_rejections (sv_endpoint sv') \<and> effects_harmless effects"
        using frame_read_only [OF Cons.prems(1), of env sid payload] Cons.prems(2) f by (simp add: read_only_step_def)
      with Cons.IH [of sv' as b] Cons.prems(2) Some r SR_Frame f show ?thesis
        by (auto simp: case_prod_beta)
    qed (use Cons.prems(1) Some r in auto)
  qed (use Cons.prems(1) in auto)
qed simp

lemma listener_read_only:
  "only_rejections (sv_endpoint sv) \<Longrightarrow> \<forall>c \<in> set cs. \<forall>env \<in> set (cn_envs c). fe_handler env = composition_gate_handler \<Longrightarrow>
    only_rejections (sv_endpoint (fst (listener sid cs sv))) \<and> effects_harmless (snd (listener sid cs sv))"
proof (induction cs arbitrary: sv)
  case (Cons c cs)
  obtain sv' effects where
    c: "(if cn_peer_ok c then serve_connection sid (cn_envs c) (cn_answers c) [] sv else (sv, [])) = (sv', effects)"
    by (rule prod.exhaust)
  have "only_rejections (sv_endpoint sv') \<and> effects_harmless effects"
    using connection_read_only [OF Cons.prems(1), of "cn_envs c" sid "cn_answers c" "[]"] Cons.prems c
    by (auto split: if_splits)
  with Cons.IH [of sv'] Cons.prems(2) show ?case unfolding listener.simps c by (auto simp: case_prod_beta)
qed simp

lemma started_read_only:
  "start_listener debug env resolved d = (Some (Inr st), d') \<Longrightarrow> st_server st = Some sv \<Longrightarrow> only_rejections (sv_endpoint sv)"
  by (auto simp: start_listener_def spawn_dummy_host_server_def spawn_server_def endpoint_new_def ledger_new_def
      only_rejections_def map_sum_def split: option.splits sum.splits prod.splits if_splits)

text \<open>
  C28. The validation endpoint never authorises an edit: however it was started, whatever its clients send
  in whatever pieces and whatever the disks do, every frame it sends is a greeting, an error, a
  handoff or the refusal of one, a recovery answer, a rejection, or the refusal of a reused id; no
  client is ever told that an edit was applied or that its outcome is uncertain.
\<close>

theorem endpoint_never_authorizes:
  assumes "run_serve_host_validation U debug env requested handoff connections dd d = (Some (Inr (server, effects)), dd')"
    and "EF_Sent s \<in> set effects"
  shows "harmless s \<and> \<not> (\<exists>x. s = lit ''RESULT|DEFINITE|applied'' @ x \<or> s = lit ''RESULT|AMBIGUOUS|'' @ x)"
proof
  obtain st provider ddx d' where st: "serve_start U debug env requested handoff dd d = (Some (Inr (st, provider)), ddx, d')"
    and run: "serve_started st provider connections = (server, effects)"
    using assms(1) by (auto simp: run_serve_host_validation_def split: option.splits sum.splits prod.splits)
  obtain resolved where l: "start_listener debug env resolved d = (Some (Inr st), d')"
    using st by (auto simp: serve_start_def map_option_case map_sum_def split: option.splits sum.splits prod.splits)
  have "effects_harmless effects"
  proof (cases "st_server st")
    case (Some sv)
    with listener_read_only [OF started_read_only [OF l Some], of "map (production_connection provider) connections" "st_session st"] run
    show ?thesis by (auto simp: serve_started_def production_connection_def production_env_def case_prod_beta)
  qed (use run in \<open>simp add: serve_started_def\<close>)
  then show h: "harmless s" using assms(2) by (simp add: effects_harmless_def)
  show "\<not> (\<exists>x. s = lit ''RESULT|DEFINITE|applied'' @ x \<or> s = lit ''RESULT|AMBIGUOUS|'' @ x)"
    using h edit_claims_not_harmless by blast
qed

subsection \<open>A sample run\<close>

lemma sample_hello:
  assumes "spawn_server 256 (Some (fresh_store 128)) d = Inr sv0"
  shows "\<exists>sv. listener (lit ''sess-1-01'') [production_connection None hello_connection] sv0 =
    (sv, [EF_Sent (lit ''WELCOME|sess-1-01'')])"
proof -
  let ?env = "production_env None (quiet_env (LO_Definite []))" and ?s = "lit ''HELLO|'' @ TRANSPORT_PROTOCOL_ID"
  have sv0: "he_session_id (sv_endpoint sv0) = None" "he_protocol_id (sv_endpoint sv0) = TRANSPORT_PROTOCOL_ID"
    using assms by (auto simp: spawn_server_def endpoint_new_def ledger_new_def)
  have valid: "valid_str ?s" by (simp add: TRANSPORT_PROTOCOL_ID_def is_scalar_def)
  obtain f where f: "encode_frame ?s = Inr f"
    by (simp add: encode_frame_def TRANSPORT_PROTOCOL_ID_def MAX_FRAME_BYTES_def utf8_char_def)
  have w: "write_frame ?env (lit ''WELCOME|sess-1-01'')"
    by (simp add: write_frame_def encode_frame_def utf8_char_def MAX_FRAME_BYTES_def quiet_env_def production_env_def)
  have "\<exists>sv. serve_frame ?env (lit ''sess-1-01'') sv0 ?s = (True, sv, [EF_Sent (lit ''WELCOME|sess-1-01'')])"
    unfolding serve_frame_def strip_prefix_append option.case
    using w sv0 by (simp add: serve_hello_def accept_hello_def TRANSPORT_PROTOCOL_ID_def answered_def reply_def)
  then obtain sv where "serve_frame ?env (lit ''sess-1-01'') sv0 ?s = (True, sv, [EF_Sent (lit ''WELCOME|sess-1-01'')])" by blast
  from one_frame_served [OF valid f this] have
    "listener (lit ''sess-1-01'') [one_frame ?env ?s] sv0 = (sv, [EF_Sent (lit ''WELCOME|sess-1-01'')])" .
  moreover have "production_connection None hello_connection = one_frame ?env ?s"
    by (simp add: production_connection_def hello_connection_def one_frame_def)
  ultimately show ?thesis by (metis (no_types))
qed

lemma endpoint_never_authorizes_witness:
  "\<exists>server dd'. run_serve_host_validation scalar_unicode (\<lambda>_. []) good_launch (local_pipe_prefix @ lit ''x'') None
      [hello_connection] no_disk no_disk = (Some (Inr (server, [EF_Sent (lit ''WELCOME|sess-1-01'')])), dd') \<and>
    harmless (lit ''WELCOME|sess-1-01'')"
proof -
  obtain bs where "open_in 128 good_env no_disk = (Some (fresh_store 128), \<lparr>dk_state = Some bs, dk_temp = None\<rparr>)"
    using open_good [of 128] by auto
  then have o: "open_default (le_open good_launch) no_disk = (Some (fresh_store 128), \<lparr>dk_state = Some bs, dk_temp = None\<rparr>)"
    by (simp add: open_default_def MAX_RECOVERY_ENTRIES_def good_launch_def)
  obtain sv0 where sv0: "spawn_server 256 (Some (fresh_store 128)) \<lparr>dk_state = Some bs, dk_temp = None\<rparr> = Inr sv0"
    by (simp add: spawn_server_def endpoint_new_def ledger_new_def)
  have "show_nat 1 = lit ''1''" by (simp add: show_nat.simps)
  then have "fst (next_session_id (Inr [1]) 1) = Inr (lit ''sess-1-01'')"
    by (simp add: next_session_id_def hex_digit_def)
  then have "spawn_dummy_host_server good_launch 256 (Some (fresh_store 128)) \<lparr>dk_state = Some bs, dk_temp = None\<rparr> =
      Inr (lit ''sess-1-01'', Some sv0)"
    by (simp add: spawn_dummy_host_server_def good_launch_def sv0)
  then have l: "start_listener (\<lambda>_. []) good_launch resolved no_disk =
      (Some (Inr \<lparr>st_pipe = fst resolved, st_discovery = snd resolved, st_session = lit ''sess-1-01'', st_server = Some sv0\<rparr>),
       \<lparr>dk_state = Some bs, dk_temp = None\<rparr>)" for resolved
    unfolding start_listener_def o by simp
  obtain sv where sv: "listener (lit ''sess-1-01'') [production_connection None hello_connection] sv0 =
      (sv, [EF_Sent (lit ''WELCOME|sess-1-01'')])"
    using sample_hello [OF sv0] by blast
  have one: "map (production_connection None) [hello_connection] = [production_connection None hello_connection]" by simp
  have r: "run_serve_host_validation scalar_unicode (\<lambda>_. []) good_launch (local_pipe_prefix @ lit ''x'') None
      [hello_connection] no_disk no_disk = (Some (Inr (Some sv, [EF_Sent (lit ''WELCOME|sess-1-01'')])), no_disk)"
    unfolding run_serve_host_validation_def serve_start_def explicit_pipe token_provider_def prod.case sum.case option.case l
      map_option_case map_sum.simps
    by (simp only: prod.case sum.case option.case serve_started_def started.simps one sv end_discovery_def snd_conv if_False id_apply)
  from endpoint_never_authorizes [OF r, of "lit ''WELCOME|sess-1-01''"] r show ?thesis by simp
qed

end
