(* ===== verification/Uia.thy ===== *)
theory Uia
  imports Utf
begin

text \<open>
  The UI Automation probes (zonkey-win): the check of the text before the caret of a focused edit
  control (\<open>uia.rs\<close>) and the bounded walk over an editor's element tree (\<open>vscode_capability.rs\<close>).
  What UI Automation answers to each call is a field of an environment, \<open>None\<close> or \<open>False\<close> for an
  error; an element tree is a finite tree of such answers.
\<close>

subsection \<open>The focused edit control\<close>

datatype uia_probe_error =
    UP_ComInitialization
  | UP_ProviderUnavailable
  | UP_UnsupportedControl
  | UP_SecureControl
  | UP_SelectionUnavailable
  | UP_AmbiguousRange
  | UP_TextMismatch
  | UP_UnknownEvidence

record uia_evidence =
  uv_identity_available :: bool
  uv_caret_selection_available :: bool
  uv_selection_empty :: bool
  uv_exact_preceding_text :: bool
  uv_candidate_text_units :: nat

text \<open>
  \<open>ue_moved n\<close> is what the provider reports when the start of the range is moved by \<open>n\<close> characters,
  \<open>ue_text n\<close> the text of the moved range.
\<close>

record uia_env =
  ue_com :: bool
  ue_automation :: bool
  ue_focused :: bool
  ue_is_edit_type :: "bool option"
  ue_class :: "ustr option"
  ue_password :: "bool option"
  ue_pattern :: bool
  ue_selection :: bool
  ue_selection_count :: "int option"
  ue_selected :: bool
  ue_selection_length :: "int option"
  ue_clone :: bool
  ue_moved :: "int \<Rightarrow> int option"
  ue_text :: "int \<Rightarrow> ustr option"

definition inspect_element :: "uia_env \<Rightarrow> ustr \<Rightarrow> uia_probe_error + uia_evidence" where
  "inspect_element env rendered =
     (case ue_is_edit_type env of
        None \<Rightarrow> Inl UP_UnknownEvidence
      | Some is_edit \<Rightarrow> if \<not> is_edit then Inl UP_UnsupportedControl else
     (case ue_class env of
        None \<Rightarrow> Inl UP_UnknownEvidence
      | Some class_name \<Rightarrow> if class_name \<noteq> lit ''Edit'' then Inl UP_UnsupportedControl else
     (case ue_password env of
        None \<Rightarrow> Inl UP_UnknownEvidence
      | Some password \<Rightarrow> if password then Inl UP_SecureControl else
     (if \<not> ue_pattern env then Inl UP_ProviderUnavailable
      else if \<not> ue_selection env then Inl UP_SelectionUnavailable else
     (case ue_selection_count env of
        None \<Rightarrow> Inl UP_SelectionUnavailable
      | Some n \<Rightarrow> if n \<noteq> 1 then Inl UP_AmbiguousRange
          else if \<not> ue_selected env then Inl UP_SelectionUnavailable else
     (case ue_selection_length env of
        None \<Rightarrow> Inl UP_SelectionUnavailable
      | Some selection_len \<Rightarrow> if selection_len \<noteq> 0 then Inl UP_SelectionUnavailable
          else if \<not> ue_clone env then Inl UP_AmbiguousRange
          else if length rendered \<ge> 2 ^ 31 then Inl UP_AmbiguousRange else
     (let count = int (length rendered) in
      case ue_moved env (- count) of
        None \<Rightarrow> Inl UP_AmbiguousRange
      | Some moved \<Rightarrow> if moved \<noteq> count then Inl UP_AmbiguousRange else
     (case ue_text env count of
        None \<Rightarrow> Inl UP_TextMismatch
      | Some actual \<Rightarrow> if actual \<noteq> rendered then Inl UP_TextMismatch
          else Inr \<lparr>uv_identity_available = True, uv_caret_selection_available = True,
                 uv_selection_empty = True, uv_exact_preceding_text = True,
                 uv_candidate_text_units = length rendered\<rparr>))))))))"

definition probe_inner :: "uia_env \<Rightarrow> ustr \<Rightarrow> uia_probe_error + uia_evidence" where
  "probe_inner env rendered =
     (if \<not> ue_automation env then Inl UP_ProviderUnavailable
      else if \<not> ue_focused env then Inl UP_ProviderUnavailable
      else inspect_element env rendered)"

definition probe_focused_edit :: "uia_env \<Rightarrow> ustr \<Rightarrow> uia_probe_error + uia_evidence" where
  "probe_focused_edit env rendered =
     (if rendered = [] then Inl UP_AmbiguousRange
      else if \<not> ue_com env then Inl UP_ComInitialization
      else probe_inner env rendered)"

text \<open>What the command \<open>probe-uia-edit\<close> prints: a verdict, the size of the token, never its text.\<close>

fun debug_uia_error :: "uia_probe_error \<Rightarrow> ustr" where
  "debug_uia_error UP_ComInitialization = lit ''ComInitialization''"
| "debug_uia_error UP_ProviderUnavailable = lit ''ProviderUnavailable''"
| "debug_uia_error UP_UnsupportedControl = lit ''UnsupportedControl''"
| "debug_uia_error UP_SecureControl = lit ''SecureControl''"
| "debug_uia_error UP_SelectionUnavailable = lit ''SelectionUnavailable''"
| "debug_uia_error UP_AmbiguousRange = lit ''AmbiguousRange''"
| "debug_uia_error UP_TextMismatch = lit ''TextMismatch''"
| "debug_uia_error UP_UnknownEvidence = lit ''UnknownEvidence''"

definition uia_probe_lines :: "uia_env \<Rightarrow> ustr \<Rightarrow> ustr list" where
  "uia_probe_lines env expected =
     (case probe_focused_edit env expected of
        Inr evidence \<Rightarrow>
          [lit ''uia_probe=pass'', lit ''control=standard-edit'', lit ''selection=empty'',
           lit ''text_match='' @ (if uv_exact_preceding_text evidence then lit ''yes'' else lit ''no''),
           lit ''candidate_units='' @ show_nat (uv_candidate_text_units evidence)]
      | Inl reason \<Rightarrow> [lit ''uia_probe=reject reason='' @ debug_uia_error reason])"

lemma inspect_element_evidence:
  "inspect_element env rendered = Inr v \<Longrightarrow> uv_exact_preceding_text v \<and> uv_candidate_text_units v = length rendered"
  by (auto simp: inspect_element_def Let_def split: option.splits if_splits)

text \<open>
  Two tokens of the same length print the same unless one passes and the other does not, or they fail
  at different steps.
\<close>

lemma uia_probe_lines_redacted:
  assumes "length expected = length expected'"
    and "map_sum id (\<lambda>_. ()) (probe_focused_edit env expected) = map_sum id (\<lambda>_. ()) (probe_focused_edit env' expected')"
  shows "uia_probe_lines env expected = uia_probe_lines env' expected'"
proof (cases "probe_focused_edit env expected")
  case (Inl e)
  with assms(2) show ?thesis
    by (cases "probe_focused_edit env' expected'") (simp_all add: uia_probe_lines_def)
next
  case (Inr v)
  then obtain v' where v: "probe_focused_edit env' expected' = Inr v'"
    using assms(2) by (cases "probe_focused_edit env' expected'") simp_all
  have "inspect_element env expected = Inr v" "inspect_element env' expected' = Inr v'"
    using Inr v by (auto simp: probe_focused_edit_def probe_inner_def split: if_splits)
  then show ?thesis
    using inspect_element_evidence assms(1) Inr v by (simp add: uia_probe_lines_def)
qed

text \<open>What the probe says of a control that is not known to be a plain edit control.\<close>

definition unsuitable :: "uia_env \<Rightarrow> bool" where
  "unsuitable env \<longleftrightarrow> ue_is_edit_type env \<noteq> Some True \<or> ue_class env \<noteq> Some (lit ''Edit'') \<or> ue_password env \<noteq> Some False"

definition refusal :: "bool option \<Rightarrow> ustr option \<Rightarrow> bool option \<Rightarrow> uia_probe_error" where
  "refusal edit class_name password =
     (if edit = None then UP_UnknownEvidence else if edit = Some False then UP_UnsupportedControl
      else if class_name = None then UP_UnknownEvidence else if class_name \<noteq> Some (lit ''Edit'') then UP_UnsupportedControl
      else if password = None then UP_UnknownEvidence else UP_SecureControl)"

lemma inspect_unsuitable:
  assumes "unsuitable env"
  shows "inspect_element env rendered = Inl (refusal (ue_is_edit_type env) (ue_class env) (ue_password env))"
proof -
  consider "ue_is_edit_type env = None" | "ue_is_edit_type env = Some False"
    | "ue_is_edit_type env = Some True" "ue_class env = None"
    | x where "ue_is_edit_type env = Some True" "ue_class env = Some x" "x \<noteq> lit ''Edit''"
    | "ue_is_edit_type env = Some True" "ue_class env = Some (lit ''Edit'')" "ue_password env \<noteq> Some False"
    using assms unfolding unsuitable_def by (metis (full_types) not_Some_eq)
  then show ?thesis
  proof cases
    case 5
    then show ?thesis by (cases "ue_password env") (simp_all add: inspect_element_def refusal_def)
  qed (simp_all add: inspect_element_def refusal_def)
qed

text \<open>
  C33. The probe of the focused edit control accepts on complete evidence only, and looks at text only
  where it may.  For all answers of the system, it passes if and only if every call succeeded, the
  control is an edit control of class Edit and no password field, there is exactly one selection and
  it is empty, the start of its range moved back by as many characters as the non-empty token has, and
  the text of that range is the token.  Unless the control is known to be such an edit control
  and no password field, the verdict does not depend on anything that is read through its text
  pattern; a password field is reported as secure.  What a pass prints depends on the length of the
  token only.
\<close>

theorem uia_probe_exact:
  "(probe_focused_edit env rendered = Inr evidence \<longleftrightarrow>
      rendered \<noteq> [] \<and> length rendered < 2 ^ 31 \<and> ue_com env \<and> ue_automation env \<and> ue_focused env \<and>
      ue_is_edit_type env = Some True \<and> ue_class env = Some (lit ''Edit'') \<and> ue_password env = Some False \<and>
      ue_pattern env \<and> ue_selection env \<and> ue_selection_count env = Some 1 \<and> ue_selected env \<and>
      ue_selection_length env = Some 0 \<and> ue_clone env \<and>
      ue_moved env (- int (length rendered)) = Some (int (length rendered)) \<and>
      ue_text env (int (length rendered)) = Some rendered \<and>
      evidence = \<lparr>uv_identity_available = True, uv_caret_selection_available = True, uv_selection_empty = True,
        uv_exact_preceding_text = True, uv_candidate_text_units = length rendered\<rparr>) \<and>
   (ue_is_edit_type env \<noteq> Some True \<or> ue_class env \<noteq> Some (lit ''Edit'') \<or> ue_password env \<noteq> Some False \<longrightarrow>
      probe_focused_edit (env\<lparr>ue_pattern := pattern, ue_selection := selection, ue_selection_count := count,
        ue_selected := selected, ue_selection_length := len, ue_clone := clone, ue_moved := moved, ue_text := txt\<rparr>) rendered =
      probe_focused_edit env rendered) \<and>
   (rendered \<noteq> [] \<and> ue_com env \<and> ue_automation env \<and> ue_focused env \<and> ue_is_edit_type env = Some True \<and>
      ue_class env = Some (lit ''Edit'') \<and> ue_password env = Some True \<longrightarrow>
      probe_focused_edit env rendered = Inl UP_SecureControl) \<and>
   (probe_focused_edit env rendered = Inr evidence \<longrightarrow>
      uia_probe_lines env rendered =
        [lit ''uia_probe=pass'', lit ''control=standard-edit'', lit ''selection=empty'', lit ''text_match=yes'',
         lit ''candidate_units='' @ show_nat (length rendered)])"
proof (intro conjI impI)
  show exact: "probe_focused_edit env rendered = Inr evidence \<longleftrightarrow>
      rendered \<noteq> [] \<and> length rendered < 2 ^ 31 \<and> ue_com env \<and> ue_automation env \<and> ue_focused env \<and>
      ue_is_edit_type env = Some True \<and> ue_class env = Some (lit ''Edit'') \<and> ue_password env = Some False \<and>
      ue_pattern env \<and> ue_selection env \<and> ue_selection_count env = Some 1 \<and> ue_selected env \<and>
      ue_selection_length env = Some 0 \<and> ue_clone env \<and>
      ue_moved env (- int (length rendered)) = Some (int (length rendered)) \<and>
      ue_text env (int (length rendered)) = Some rendered \<and>
      evidence = \<lparr>uv_identity_available = True, uv_caret_selection_available = True, uv_selection_empty = True,
        uv_exact_preceding_text = True, uv_candidate_text_units = length rendered\<rparr>"
    by (auto simp: probe_focused_edit_def probe_inner_def inspect_element_def Let_def split: option.splits if_splits)
  show "uia_probe_lines env rendered =
        [lit ''uia_probe=pass'', lit ''control=standard-edit'', lit ''selection=empty'', lit ''text_match=yes'',
         lit ''candidate_units='' @ show_nat (length rendered)]"
    if p: "probe_focused_edit env rendered = Inr evidence"
    using p exact by (simp add: uia_probe_lines_def)
next
  assume "ue_is_edit_type env \<noteq> Some True \<or> ue_class env \<noteq> Some (lit ''Edit'') \<or> ue_password env \<noteq> Some False"
  then have u: "unsuitable env" by (simp add: unsuitable_def)
  let ?env = "env\<lparr>ue_pattern := pattern, ue_selection := selection, ue_selection_count := count,
        ue_selected := selected, ue_selection_length := len, ue_clone := clone, ue_moved := moved, ue_text := txt\<rparr>"
  have "unsuitable ?env" using u by (simp add: unsuitable_def)
  from inspect_unsuitable [OF this] inspect_unsuitable [OF u]
  have "inspect_element ?env rendered = inspect_element env rendered" by simp
  then show "probe_focused_edit ?env rendered = probe_focused_edit env rendered"
    by (simp add: probe_focused_edit_def probe_inner_def)
next
  assume a: "rendered \<noteq> [] \<and> ue_com env \<and> ue_automation env \<and> ue_focused env \<and> ue_is_edit_type env = Some True \<and>
      ue_class env = Some (lit ''Edit'') \<and> ue_password env = Some True"
  then have "unsuitable env" by (simp add: unsuitable_def)
  from inspect_unsuitable [OF this, of rendered] a
  show "probe_focused_edit env rendered = Inl UP_SecureControl"
    by (simp add: probe_focused_edit_def probe_inner_def refusal_def)
qed

lemma uia_probe_exact_witness:
  "\<exists>env. ue_text env 4 = Some (lit ''test'') \<and>
     probe_focused_edit env (lit ''test'') = Inr \<lparr>uv_identity_available = True, uv_caret_selection_available = True,
       uv_selection_empty = True, uv_exact_preceding_text = True, uv_candidate_text_units = 4\<rparr> \<and>
     probe_focused_edit (env\<lparr>ue_password := Some True\<rparr>) (lit ''test'') = Inl UP_SecureControl \<and>
     probe_focused_edit (env\<lparr>ue_password := Some True, ue_text := (\<lambda>_. None)\<rparr>) (lit ''test'') = Inl UP_SecureControl"
proof -
  let ?env = "\<lparr>ue_com = True, ue_automation = True, ue_focused = True, ue_is_edit_type = Some True,
      ue_class = Some (lit ''Edit''), ue_password = Some False, ue_pattern = True, ue_selection = True,
      ue_selection_count = Some 1, ue_selected = True, ue_selection_length = Some 0, ue_clone = True,
      ue_moved = (\<lambda>n. Some (- n)), ue_text = (\<lambda>_. Some (lit ''test''))\<rparr>"
  let ?p = "?env\<lparr>ue_password := Some True\<rparr>"
  have "probe_focused_edit ?env (lit ''test'') = Inr \<lparr>uv_identity_available = True, uv_caret_selection_available = True,
       uv_selection_empty = True, uv_exact_preceding_text = True, uv_candidate_text_units = 4\<rparr>"
    by (rule uia_probe_exact [THEN conjunct1, THEN iffD2]) simp
  moreover have "probe_focused_edit ?p (lit ''test'') = Inl UP_SecureControl"
    by (rule uia_probe_exact [THEN conjunct2, THEN conjunct2, THEN conjunct1, THEN mp]) simp
  moreover have "probe_focused_edit (?p\<lparr>ue_text := (\<lambda>_. None)\<rparr>) (lit ''test'') = Inl UP_SecureControl"
    by (rule uia_probe_exact [THEN conjunct2, THEN conjunct2, THEN conjunct1, THEN mp]) simp
  ultimately show ?thesis by (intro exI [of _ ?env]) simp
qed

end
