(* ===== verification/Capability.thy ===== *)
theory Capability
  imports Utf
begin

text \<open>
  The read-only capability probe of an editor window (zonkey-win, \<open>vscode_capability.rs\<close>): finding the
  window, and a walk over its element tree with a budget for depth, visited elements and reports.
  The windows and elements are what the system shows; a call that fails ends the list of siblings.
\<close>

definition TOP_CLASS :: ustr where
  "TOP_CLASS = lit ''Chrome_WidgetWin_1''"

definition HOST_CLASS :: ustr where
  "HOST_CLASS = lit ''Chrome_RenderWidgetHostHWND''"

definition TITLE_MARKER :: ustr where
  "TITLE_MARKER = lit ''zonkey-uia-probe''"

definition MAX_DEPTH :: nat where
  "MAX_DEPTH = 8"

definition MAX_VISITED :: nat where
  "MAX_VISITED = 400"

definition MAX_REPORTS :: nat where
  "MAX_REPORTS = 6"

datatype composition_probe = CP_ReturnedRange | CP_NoActiveComposition | CP_Erred int

record element_report =
  ep_depth :: nat
  ep_control_type :: int
  ep_is_document_control :: bool
  ep_element_class :: ustr
  ep_automation_id :: "ustr option"
  ep_text_pattern :: bool
  ep_text_pattern2_measured :: bool
  ep_text_edit_pattern :: bool
  ep_active_composition :: "composition_probe option"

text \<open>
  An element: the answers to the property queries, whether it has the text pattern, and for the text
  edit pattern what \<open>GetActiveComposition\<close> answers (\<open>Inr\<close> a range, \<open>Inl\<close> an error code).
\<close>

record ui_element =
  ui_control_type :: "int option"
  ui_class_name :: "ustr option"
  ui_automation_id :: "ustr option"
  ui_text_pattern :: bool
  ui_text_edit :: "(int + unit) option"

datatype ui_tree = UI_Node (ui_root: ui_element) (ui_children: "ui_tree list")

definition sanitize_automation_id :: "ustr \<Rightarrow> ustr option" where
  "sanitize_automation_id raw =
     (if ulen raw \<le> 64 \<and>
         list_all (\<lambda>c. is_ascii_alphanumeric c \<or> c = chr CHR ''_'' \<or> c = chr CHR ''-'' \<or> c = chr CHR ''.'') raw
      then Some raw else None)"

text \<open>\<open>document\<close> is the constant \<open>UIA_DocumentControlTypeId\<close> of the Windows API.\<close>

definition measure_element :: "int \<Rightarrow> ui_element \<Rightarrow> nat \<Rightarrow> element_report" where
  "measure_element document e depth =
     (let control_type = (case ui_control_type e of Some v \<Rightarrow> v | None \<Rightarrow> - 1);
          (text_edit, composition) =
            (case ui_text_edit e of
               Some (Inr _) \<Rightarrow> (True, Some CP_ReturnedRange)
             | Some (Inl code) \<Rightarrow> (True, Some (if code = 0 then CP_NoActiveComposition else CP_Erred code))
             | None \<Rightarrow> (False, None))
      in \<lparr>ep_depth = depth, ep_control_type = control_type,
          ep_is_document_control = (control_type = document),
          ep_element_class = (case ui_class_name e of Some s \<Rightarrow> s | None \<Rightarrow> []),
          ep_automation_id = Option.bind (ui_automation_id e) sanitize_automation_id,
          ep_text_pattern = ui_text_pattern e, ep_text_pattern2_measured = False,
          ep_text_edit_pattern = text_edit, ep_active_composition = composition\<rparr>)"

record walk_state =
  ws_visited :: nat
  ws_reports :: "element_report list"

definition visit :: "int \<Rightarrow> ui_element \<Rightarrow> nat \<Rightarrow> walk_state \<Rightarrow> walk_state" where
  "visit document e depth st =
     (let report = measure_element document e depth
      in st\<lparr>ws_visited := ws_visited st + 1,
            ws_reports := (if ep_is_document_control report \<or> ep_text_edit_pattern report
                           then ws_reports st @ [report] else ws_reports st)\<rparr>)"

text \<open>The loop over the siblings checks the number of reports after each child.\<close>

fun walk :: "int \<Rightarrow> ui_tree \<Rightarrow> nat \<Rightarrow> walk_state \<Rightarrow> walk_state"
  and walk_siblings :: "int \<Rightarrow> ui_tree list \<Rightarrow> nat \<Rightarrow> walk_state \<Rightarrow> walk_state" where
  "walk document (UI_Node e children) depth st =
     (if depth > MAX_DEPTH \<or> ws_visited st \<ge> MAX_VISITED \<or> length (ws_reports st) \<ge> MAX_REPORTS then st
      else walk_siblings document children (depth + 1) (visit document e depth st))"
| "walk_siblings document [] depth st = st"
| "walk_siblings document (child # later) depth st =
     (let st' = walk document child depth st
      in if length (ws_reports st') \<ge> MAX_REPORTS then st' else walk_siblings document later depth st')"

text \<open>Windows, with the units the system wrote into the buffers and the lengths it returned.\<close>

datatype window = Window (wn_visible: bool) (wn_class: "int \<times> u16 list") (wn_title: "int \<times> u16 list")
  (wn_children: "window list") (wn_element: "ui_tree option")

definition buffer_text :: "nat \<Rightarrow> int \<times> u16 list \<Rightarrow> ustr" where
  "buffer_text room answer = from_utf16_lossy (take (min (nat (fst answer)) room) (snd answer))"

definition window_class :: "window \<Rightarrow> ustr" where
  "window_class w = buffer_text 64 (wn_class w)"

definition window_title :: "window \<Rightarrow> ustr" where
  "window_title w = buffer_text 256 (wn_title w)"

definition top_windows :: "window list \<Rightarrow> window list" where
  "top_windows ws =
     filter (\<lambda>w. wn_visible w \<and> window_class w = TOP_CLASS \<and> contains_sub TITLE_MARKER (window_title w)) ws"

definition host_windows :: "window list \<Rightarrow> window list" where
  "host_windows ws = filter (\<lambda>w. window_class w = HOST_CLASS) ws"

record probe_outcome =
  po_top_window_class :: ustr
  po_editor_host_class :: ustr
  po_visited :: nat
  po_reports :: "element_report list"

text \<open>
  \<open>automation\<close> and \<open>walker\<close> say whether COM could create the two objects; the texts of the errors are
  those of the source without the system's own message.
\<close>

definition probe_editor :: "int \<Rightarrow> bool \<Rightarrow> bool \<Rightarrow> window list \<Rightarrow> ustr + probe_outcome" where
  "probe_editor document automation walker desktop =
     (if \<not> automation then Inl (lit ''automation unavailable: '')
      else (case top_windows desktop of
              [] \<Rightarrow> Inl (lit ''no visible VS Code window titled with the probe file'')
            | top_window # _ \<Rightarrow>
               (case host_windows (wn_children top_window) of
                  [] \<Rightarrow> Inl (lit ''no Chrome_RenderWidgetHostHWND child window'')
                | host # _ \<Rightarrow>
                   (case wn_element host of
                      None \<Rightarrow> Inl (lit ''element from handle: '')
                    | Some element \<Rightarrow>
                        if \<not> walker then Inl (lit ''control view walker unavailable: '')
                        else (let st = walk document element 0 \<lparr>ws_visited = 0, ws_reports = []\<rparr>
                              in Inr \<lparr>po_top_window_class = TOP_CLASS, po_editor_host_class = HOST_CLASS,
                                   po_visited = ws_visited st, po_reports = ws_reports st\<rparr>)))))"

definition run_probe :: "int \<Rightarrow> bool \<Rightarrow> bool \<Rightarrow> bool \<Rightarrow> window list \<Rightarrow> ustr + probe_outcome" where
  "run_probe document com automation walker desktop =
     (if \<not> com then Inl (lit ''COM initialization failed'') else probe_editor document automation walker desktop)"

subsection \<open>The budget\<close>

text \<open>The elements of a tree with their depth.\<close>

fun elements_at :: "ui_tree \<Rightarrow> nat \<Rightarrow> (ui_element \<times> nat) list"
  and sibling_elements :: "ui_tree list \<Rightarrow> nat \<Rightarrow> (ui_element \<times> nat) list" where
  "elements_at (UI_Node e children) depth = (e, depth) # sibling_elements children (depth + 1)"
| "sibling_elements [] depth = []"
| "sibling_elements (child # later) depth = elements_at child depth @ sibling_elements later depth"

definition within_budget :: "int \<Rightarrow> (ui_element \<times> nat) set \<Rightarrow> walk_state \<Rightarrow> bool" where
  "within_budget document es st \<longleftrightarrow> ws_visited st \<le> MAX_VISITED \<and> length (ws_reports st) \<le> MAX_REPORTS \<and>
     length (ws_reports st) \<le> ws_visited st \<and>
     (\<forall>report \<in> set (ws_reports st). ep_depth report \<le> MAX_DEPTH \<and>
        (ep_is_document_control report \<or> ep_text_edit_pattern report) \<and>
        (\<exists>(e, depth) \<in> es. report = measure_element document e depth))"

lemma within_budget_mono: "within_budget document es st \<Longrightarrow> es \<subseteq> es' \<Longrightarrow> within_budget document es' st"
  by (fastforce simp: within_budget_def)

lemma visit_within:
  assumes "within_budget document es st" and "depth \<le> MAX_DEPTH" and "ws_visited st < MAX_VISITED"
    and "length (ws_reports st) < MAX_REPORTS"
  shows "within_budget document (insert (e, depth) es) (visit document e depth st)"
proof -
  have "ep_depth (measure_element document e depth) = depth"
    by (simp add: measure_element_def Let_def split: option.split sum.split)
  with assms show ?thesis by (fastforce simp: within_budget_def visit_def Let_def)
qed

lemma walk_within:
  "within_budget document es st \<Longrightarrow> within_budget document (es \<union> set (elements_at t depth)) (walk document t depth st)"
  "within_budget document es st \<Longrightarrow> within_budget document (es \<union> set (sibling_elements ts depth)) (walk_siblings document ts depth st)"
proof (induction document t depth st and document ts depth st arbitrary: es and es rule: walk_walk_siblings.induct)
  case (1 document e children depth st)
  show ?case
  proof (cases "depth > MAX_DEPTH \<or> ws_visited st \<ge> MAX_VISITED \<or> length (ws_reports st) \<ge> MAX_REPORTS")
    case True
    with "1.prems" show ?thesis by (auto intro: within_budget_mono)
  next
    case False
    with "1.IH" [OF False visit_within [OF "1.prems"]] show ?thesis by (simp add: insert_commute)
  qed
next
  case (3 document child later depth st)
  note c = "3.IH"(1) [OF "3.prems"]
  show ?case
    using c "3.IH"(2) [OF refl _ c] within_budget_mono [OF c] by (auto simp: Let_def Un_assoc)
qed (simp add: within_budget_mono)

subsection \<open>What a small tree shows\<close>

definition candidate :: "int \<Rightarrow> ui_element \<times> nat \<Rightarrow> bool" where
  "candidate document x \<longleftrightarrow>
     (let report = measure_element document (fst x) (snd x) in ep_is_document_control report \<or> ep_text_edit_pattern report)"

definition reports_of :: "int \<Rightarrow> (ui_element \<times> nat) list \<Rightarrow> element_report list" where
  "reports_of document xs = map (\<lambda>(e, depth). measure_element document e depth) (filter (candidate document) xs)"

definition fits :: "int \<Rightarrow> (ui_element \<times> nat) list \<Rightarrow> walk_state \<Rightarrow> bool" where
  "fits document xs st \<longleftrightarrow> ws_visited st + length xs \<le> MAX_VISITED \<and>
     length (ws_reports st) + length (reports_of document xs) < MAX_REPORTS \<and> (\<forall>x \<in> set xs. snd x \<le> MAX_DEPTH)"

definition seen :: "int \<Rightarrow> (ui_element \<times> nat) list \<Rightarrow> walk_state \<Rightarrow> walk_state" where
  "seen document xs st =
     st\<lparr>ws_visited := ws_visited st + length xs, ws_reports := ws_reports st @ reports_of document xs\<rparr>"

lemma seen_append: "seen document (xs @ ys) st = seen document ys (seen document xs st)"
  by (simp add: seen_def reports_of_def)

lemma fits_append: "fits document (xs @ ys) st \<longleftrightarrow> fits document xs st \<and> fits document ys (seen document xs st)"
  by (auto simp: fits_def seen_def reports_of_def)

lemma visit_seen: "visit document e depth st = seen document [(e, depth)] st"
  by (simp add: visit_def seen_def reports_of_def candidate_def Let_def)

lemma walk_seen:
  "fits document (elements_at t depth) st \<Longrightarrow> walk document t depth st = seen document (elements_at t depth) st"
  "fits document (sibling_elements ts depth) st \<Longrightarrow>
     walk_siblings document ts depth st = seen document (sibling_elements ts depth) st"
proof (induction document t depth st and document ts depth st rule: walk_walk_siblings.induct)
  case (1 document e children depth st)
  have split: "fits document ([(e, depth)] @ sibling_elements children (depth + 1)) st" using "1.prems" by simp
  have "depth \<le> MAX_DEPTH" "Suc (ws_visited st) \<le> MAX_VISITED" "length (ws_reports st) < MAX_REPORTS"
    using "1.prems" by (simp_all add: fits_def)
  then have go: "\<not> (depth > MAX_DEPTH \<or> ws_visited st \<ge> MAX_VISITED \<or> length (ws_reports st) \<ge> MAX_REPORTS)"
    by linarith
  have "fits document (sibling_elements children (depth + 1)) (visit document e depth st)"
    using split unfolding fits_append visit_seen by blast
  note ih = "1.IH" [OF go this]
  have "walk document (UI_Node e children) depth st = walk_siblings document children (depth + 1) (visit document e depth st)"
    using go by simp
  also have "\<dots> = seen document ([(e, depth)] @ sibling_elements children (depth + 1)) st"
    unfolding ih seen_append by (simp only: visit_seen)
  finally show ?case by simp
next
  case (2 document depth st)
  show ?case by (simp add: seen_def reports_of_def)
next
  case (3 document child later depth st)
  have f: "fits document (elements_at child depth) st"
    "fits document (sibling_elements later depth) (seen document (elements_at child depth) st)"
    using "3.prems" by (simp_all add: fits_append)
  note c = "3.IH"(1) [OF f(1)]
  have go: "\<not> length (ws_reports (walk document child depth st)) \<ge> MAX_REPORTS"
    unfolding c using f(2) by (auto simp: fits_def)
  from "3.IH"(2) [OF refl go] f(2) show ?case using go by (simp add: c Let_def seen_append)
qed

text \<open>
  C34. The capability probe stays within its budget and is exact inside it: it visits at most 400
  elements and reports at most 6, none deeper than 8, each one the measurement of a document or text
  edit element of the first editor host below the first matching window; and when that tree fits the
  budget, every element is visited and every such element is reported, in tree order.
\<close>

theorem probe_within_budget:
  assumes "run_probe document com automation walker desktop = Inr out"
  shows "\<exists>w host element ws hosts. top_windows desktop = w # ws \<and> host_windows (wn_children w) = host # hosts \<and>
    wn_element host = Some element \<and>
    within_budget document (set (elements_at element 0)) \<lparr>ws_visited = po_visited out, ws_reports = po_reports out\<rparr> \<and>
    (fits document (elements_at element 0) \<lparr>ws_visited = 0, ws_reports = []\<rparr> \<longrightarrow>
       po_visited out = length (elements_at element 0) \<and> po_reports out = reports_of document (elements_at element 0))"
proof -
  let ?st = "\<lparr>ws_visited = 0, ws_reports = []\<rparr>"
  obtain w ws host hosts element where t: "top_windows desktop = w # ws" "host_windows (wn_children w) = host # hosts"
    "wn_element host = Some element"
    "out = \<lparr>po_top_window_class = TOP_CLASS, po_editor_host_class = HOST_CLASS,
       po_visited = ws_visited (walk document element 0 ?st), po_reports = ws_reports (walk document element 0 ?st)\<rparr>"
    using assms by (auto simp: run_probe_def probe_editor_def Let_def split: if_splits list.splits option.splits)
  have "within_budget document {} ?st" by (simp add: within_budget_def)
  from walk_within(1) [OF this, of element 0]
  have "within_budget document (set (elements_at element 0)) \<lparr>ws_visited = po_visited out, ws_reports = po_reports out\<rparr>"
    unfolding t(4) by (simp add: within_budget_def)
  moreover have "po_visited out = length (elements_at element 0) \<and> po_reports out = reports_of document (elements_at element 0)"
    if "fits document (elements_at element 0) ?st"
    using walk_seen(1) [OF that] unfolding t(4) by (simp add: seen_def)
  ultimately show ?thesis using t(1-3) by blast
qed

definition sample_element :: "int \<Rightarrow> (int + unit) option \<Rightarrow> ui_element" where
  "sample_element kind edit = \<lparr>ui_control_type = Some kind, ui_class_name = Some (lit ''Chrome''),
     ui_automation_id = Some (lit ''root 1''), ui_text_pattern = True, ui_text_edit = edit\<rparr>"

definition sample_window :: "ustr \<Rightarrow> ustr \<Rightarrow> window list \<Rightarrow> ui_tree option \<Rightarrow> window" where
  "sample_window class_name title children element =
     Window True (int (length class_name), utf16 class_name) (int (length title), utf16 title) children element"

definition sample_desktop :: "window list" where
  "sample_desktop = [sample_window TOP_CLASS (lit ''a zonkey-uia-probe.txt'')
     [sample_window HOST_CLASS [] []
       (Some (UI_Node (sample_element 1 None) [UI_Node (sample_element 7 None) [], UI_Node (sample_element 2 (Some (Inl 0))) []]))] None]"

lemma utf16_ascii: "is_ascii_str s \<Longrightarrow> length (utf16 s) = length s"
  by (induction s) (auto simp: utf16_char_def is_ascii_def)

lemma sample_window_texts:
  assumes "is_ascii_str class_name" and "is_ascii_str title" and "length class_name \<le> 64" and "length title \<le> 256"
  shows "window_class (sample_window class_name title ws e) = class_name" and "window_title (sample_window class_name title ws e) = title"
  using assms utf16_ascii [of class_name] utf16_ascii [of title] from_utf16_lossy_utf16 ascii_str_valid
  by (simp_all add: window_class_def window_title_def buffer_text_def sample_window_def)

lemma probe_within_budget_witness:
  "\<exists>out. run_probe 7 True True True sample_desktop = Inr out \<and> po_visited out = 3 \<and>
     map ep_depth (po_reports out) = [1, 1] \<and> map ep_automation_id (po_reports out) = [None, None]"
proof -
  let ?t = "UI_Node (sample_element 1 None) [UI_Node (sample_element 7 None) [], UI_Node (sample_element 2 (Some (Inl 0))) []]"
  let ?host = "sample_window HOST_CLASS [] [] (Some ?t)"
  let ?w = "sample_window TOP_CLASS (lit ''a zonkey-uia-probe.txt'') [?host] None"
  have ascii: "is_ascii_str TOP_CLASS" "is_ascii_str HOST_CLASS" "is_ascii_str (lit ''a zonkey-uia-probe.txt'')"
    by (simp_all add: TOP_CLASS_def HOST_CLASS_def is_ascii_def)
  have lengths: "length TOP_CLASS \<le> 64" "length HOST_CLASS \<le> 64" "length (lit ''a zonkey-uia-probe.txt'') \<le> 256"
    by (simp_all add: TOP_CLASS_def HOST_CLASS_def)
  note w = sample_window_texts [OF ascii(1,3) lengths(1,3), of "[?host]" None]
  note h = sample_window_texts [OF ascii(2) _ lengths(2), of "[]" "[]" "Some ?t", simplified]
  have "contains_sub TITLE_MARKER (lit ''a zonkey-uia-probe.txt'')" by (simp add: TITLE_MARKER_def starts_with_def)
  moreover have "wn_visible ?w" by (simp add: sample_window_def)
  ultimately have tops: "top_windows sample_desktop = [?w]"
    unfolding sample_desktop_def top_windows_def by (simp only: filter.simps w simp_thms if_True)
  have hosts: "host_windows (wn_children ?w) = [?host]"
    using h by (simp add: host_windows_def sample_window_def)
  have element: "wn_element ?host = Some ?t" by (simp add: sample_window_def)
  obtain out where out: "run_probe 7 True True True sample_desktop = Inr out"
    unfolding run_probe_def probe_editor_def tops list.case hosts element option.case Let_def by simp
  have els: "elements_at ?t 0 = [(sample_element 1 None, 0), (sample_element 7 None, 1), (sample_element 2 (Some (Inl 0)), 1)]"
    by simp
  have reports: "reports_of 7 (elements_at ?t 0) =
      [measure_element 7 (sample_element 7 None) 1, measure_element 7 (sample_element 2 (Some (Inl 0))) 1]"
    unfolding els by (simp add: reports_of_def candidate_def measure_element_def sample_element_def Let_def)
  have "fits 7 (elements_at ?t 0) \<lparr>ws_visited = 0, ws_reports = []\<rparr>"
    unfolding fits_def reports by (simp add: MAX_VISITED_def MAX_REPORTS_def MAX_DEPTH_def)
  then have "po_visited out = length (elements_at ?t 0) \<and> po_reports out = reports_of 7 (elements_at ?t 0)"
    using probe_within_budget [OF out] tops hosts element by auto
  with out reports show ?thesis
    by (simp add: measure_element_def sample_element_def sanitize_automation_id_def is_ascii_alphanumeric_def char_class_defs Let_def)
qed

end
