(* ===== verification/Surface.thy ===== *)
theory Surface
  imports Processor Guard
begin

text \<open>
  The controlled text surface (zonkey-service, \<open>lib.rs\<close>, module \<open>controlled_surface\<close>): a text with caret,
  selection and safety states under a revision, captured as evidence, validated against a handoff
  and edited by compare-and-replace.  Positions count characters and are \<open>u32\<close>; \<open>None\<close> is a panic.
\<close>

type_synonym text_unit = u32
type_synonym surface_id = u64

datatype surface_selection = SS_None | SS_Range text_unit text_unit

datatype surface_composition = SC_Inactive | SC_Active | SC_Unknown

datatype surface_secure = SX_KnownNonSecure | SX_Secure | SX_Unknown

datatype surface_session = SN_SupportedLocal | SN_UnsupportedRemote | SN_Unknown

datatype controlled_validation_error =
    CV_TargetIdentityMismatch
  | CV_RevisionMismatch
  | CV_TextMismatch
  | CV_CaretMismatch
  | CV_SelectionNotEmpty
  | CV_CompositionActive
  | CV_CompositionUnknown
  | CV_SecureTarget
  | CV_SecureUnknown
  | CV_UnsupportedSession
  | CV_SessionUnknown
  | CV_OperationUnitsUnproven
  | CV_RangeInvalid
  | CV_RevisionOverflow

record evidence_snapshot =
  es_surface_id :: surface_id
  es_revision :: u64
  es_contents :: ustr
  es_range :: "text_unit \<times> text_unit"
  es_caret :: text_unit
  es_selection :: surface_selection
  es_operation_units_proven :: bool
  es_composition :: surface_composition
  es_secure :: surface_secure
  es_session :: surface_session

record controlled_surface =
  su_surface_id :: surface_id
  su_contents :: ustr
  su_caret :: text_unit
  su_selection :: surface_selection
  su_operation_units_proven :: bool
  su_composition :: surface_composition
  su_secure :: surface_secure
  su_session :: surface_session
  su_revision :: u64

definition surface_new :: "surface_id \<Rightarrow> ustr \<Rightarrow> controlled_surface" where
  "surface_new i s =
     \<lparr>su_surface_id = i, su_contents = s, su_caret = 0, su_selection = SS_None,
      su_operation_units_proven = True, su_composition = SC_Inactive, su_secure = SX_KnownNonSecure,
      su_session = SN_SupportedLocal, su_revision = 1\<rparr>"

definition surface_units :: "controlled_surface \<Rightarrow> text_unit" where
  "surface_units s = (if length (su_contents s) < 2 ^ 32 then of_nat (length (su_contents s)) else - 1)"

text \<open>\<open>bump\<close> with what the caller does afterwards: an overflow leaves the surface as it was.\<close>

definition surface_bump ::
  "(controlled_surface \<Rightarrow> controlled_surface) \<Rightarrow> controlled_surface
    \<Rightarrow> (controlled_validation_error + unit) \<times> controlled_surface" where
  "surface_bump change s =
     (if su_revision s = - 1 then (Inl CV_RevisionOverflow, s)
      else (Inr (), change (s\<lparr>su_revision := su_revision s + 1\<rparr>)))"

definition set_caret :: "text_unit \<Rightarrow> controlled_surface \<Rightarrow> (controlled_validation_error + unit) \<times> controlled_surface" where
  "set_caret caret s =
     (if caret > surface_units s then (Inl CV_RangeInvalid, s)
      else surface_bump (\<lambda>s. s\<lparr>su_caret := caret, su_selection := SS_None\<rparr>) s)"

definition set_selection ::
  "surface_selection \<Rightarrow> controlled_surface \<Rightarrow> (controlled_validation_error + unit) \<times> controlled_surface" where
  "set_selection selection s =
     (if (case selection of SS_None \<Rightarrow> False | SS_Range b e \<Rightarrow> b > e \<or> e > surface_units s)
      then (Inl CV_RangeInvalid, s)
      else surface_bump (\<lambda>s. s\<lparr>su_selection := selection\<rparr>) s)"

definition replace_contents ::
  "ustr \<Rightarrow> controlled_surface \<Rightarrow> (controlled_validation_error + unit) \<times> controlled_surface" where
  "replace_contents x s =
     surface_bump (\<lambda>s. let s = s\<lparr>su_contents := x\<rparr>
       in s\<lparr>su_caret := (if su_caret s > surface_units s then surface_units s else su_caret s), su_selection := SS_None\<rparr>) s"

definition set_surface_id where
  "set_surface_id i = surface_bump (\<lambda>s. s\<lparr>su_surface_id := i\<rparr>)"

definition set_composition where
  "set_composition v = surface_bump (\<lambda>s. s\<lparr>su_composition := v\<rparr>)"

definition set_secure where
  "set_secure v = surface_bump (\<lambda>s. s\<lparr>su_secure := v\<rparr>)"

definition set_session where
  "set_session v = surface_bump (\<lambda>s. s\<lparr>su_session := v\<rparr>)"

definition set_operation_units_proven where
  "set_operation_units_proven v = surface_bump (\<lambda>s. s\<lparr>su_operation_units_proven := v\<rparr>)"

definition surface_capture :: "controlled_surface \<Rightarrow> ustr \<Rightarrow> controlled_validation_error + evidence_snapshot" where
  "surface_capture s expected =
     (if length expected \<ge> 2 ^ 32 then Inl CV_RangeInvalid
      else let n = (of_nat (length expected) :: text_unit)
      in if n > su_caret s then Inl CV_RangeInvalid
      else let b = su_caret s - n;
               actual = take (unat n) (drop (unat b) (su_contents s))
      in if actual \<noteq> expected then Inl CV_TextMismatch
      else Inr \<lparr>es_surface_id = su_surface_id s, es_revision = su_revision s, es_contents = actual,
             es_range = (b, su_caret s), es_caret = su_caret s, es_selection = su_selection s,
             es_operation_units_proven = su_operation_units_proven s, es_composition = su_composition s,
             es_secure = su_secure s, es_session = su_session s\<rparr>)"

definition surface_validate ::
  "controlled_surface \<Rightarrow> restore_plan_handoff \<Rightarrow> evidence_snapshot \<Rightarrow> controlled_validation_error + unit" where
  "surface_validate s h snap =
     (if es_surface_id snap \<noteq> su_surface_id s then Inl CV_TargetIdentityMismatch
      else if es_revision snap \<noteq> su_revision s then Inl CV_RevisionMismatch
      else if es_caret snap \<noteq> su_caret s then Inl CV_CaretMismatch
      else if snd (es_range snap) \<noteq> su_caret s \<or> es_contents snap \<noteq> ho_rendered_token h then Inl CV_TextMismatch
      else if su_selection s \<noteq> SS_None then Inl CV_SelectionNotEmpty
      else if su_composition s = SC_Active then Inl CV_CompositionActive
      else if su_composition s = SC_Unknown then Inl CV_CompositionUnknown
      else if su_secure s = SX_Secure then Inl CV_SecureTarget
      else if su_secure s = SX_Unknown then Inl CV_SecureUnknown
      else if su_session s = SN_UnsupportedRemote then Inl CV_UnsupportedSession
      else if su_session s = SN_Unknown then Inl CV_SessionUnknown
      else if \<not> su_operation_units_proven s then Inl CV_OperationUnitsUnproven
      else Inr ())"

definition splice_contents ::
  "evidence_snapshot \<Rightarrow> ustr \<Rightarrow> controlled_surface \<Rightarrow> ((controlled_validation_error + unit) \<times> controlled_surface) option" where
  "splice_contents snap replacement s =
     (let (b, e) = es_range snap; cs = su_contents s
      in if unat b > length cs \<or> unat e > length cs then None
      else let s = s\<lparr>su_contents := take (unat b) cs @ replacement @ drop (unat e) cs\<rparr>
      in Some (if length replacement \<ge> 2 ^ 32 \<or> unat b + length replacement \<ge> 2 ^ 32 then (Inl CV_RangeInvalid, s)
           else (Inr (), s\<lparr>su_caret := b + of_nat (length replacement), su_selection := SS_None\<rparr>)))"

definition compare_revision_and_replace ::
  "restore_plan_handoff \<Rightarrow> evidence_snapshot \<Rightarrow> ustr \<Rightarrow> controlled_surface
    \<Rightarrow> ((controlled_validation_error + unit) \<times> controlled_surface) option" where
  "compare_revision_and_replace h snap replacement s =
     (case surface_validate s h snap of
        Inl e \<Rightarrow> Some (Inl e, s)
      | Inr _ \<Rightarrow>
         (case surface_bump id s of
            (Inl e, s') \<Rightarrow> Some (Inl e, s')
          | (Inr _, s') \<Rightarrow> splice_contents snap replacement s'))"

subsection \<open>The operations as steps\<close>

datatype surface_op =
    SU_SetCaret text_unit
  | SU_SetSelection surface_selection
  | SU_ReplaceText ustr
  | SU_SetSurfaceId surface_id
  | SU_SetComposition surface_composition
  | SU_SetSecure surface_secure
  | SU_SetSession surface_session
  | SU_SetUnitsProven bool
  | SU_CompareAndReplace restore_plan_handoff evidence_snapshot ustr

fun surface_step ::
  "surface_op \<Rightarrow> controlled_surface \<Rightarrow> ((controlled_validation_error + unit) \<times> controlled_surface) option" where
  "surface_step (SU_SetCaret c) s = Some (set_caret c s)"
| "surface_step (SU_SetSelection v) s = Some (set_selection v s)"
| "surface_step (SU_ReplaceText x) s = Some (replace_contents x s)"
| "surface_step (SU_SetSurfaceId i) s = Some (set_surface_id i s)"
| "surface_step (SU_SetComposition v) s = Some (set_composition v s)"
| "surface_step (SU_SetSecure v) s = Some (set_secure v s)"
| "surface_step (SU_SetSession v) s = Some (set_session v s)"
| "surface_step (SU_SetUnitsProven v) s = Some (set_operation_units_proven v s)"
| "surface_step (SU_CompareAndReplace h snap x) s = compare_revision_and_replace h snap x s"

definition surface_moves :: "controlled_surface \<Rightarrow> controlled_surface \<Rightarrow> bool" where
  "surface_moves s s' \<longleftrightarrow> (\<exists>op r. surface_step op s = Some (r, s'))"

lemmas surface_setters = set_caret_def set_selection_def replace_contents_def set_surface_id_def set_composition_def
  set_secure_def set_session_def set_operation_units_proven_def

lemma splice_revision: "splice_contents snap x s = Some (r, s') \<Longrightarrow> su_revision s' = su_revision s"
  by (auto simp: splice_contents_def Let_def split: prod.splits if_splits)

lemma replace_cases:
  assumes "compare_revision_and_replace h snap x s = Some (r, s')"
  shows "s' = s \<and> r \<noteq> Inr () \<or>
    surface_validate s h snap = Inr () \<and> su_revision s < su_revision s' \<and>
    splice_contents snap x (s\<lparr>su_revision := su_revision s + 1\<rparr>) = Some (r, s')"
  using assms u64_less_next [of "su_revision s"] splice_revision
  by (fastforce simp: compare_revision_and_replace_def surface_bump_def split: sum.splits if_splits)

fun_cases surface_stepE: "surface_step op s = Some (r, s')"

lemma surface_step_strict: "surface_moves s s' \<Longrightarrow> s' = s \<or> su_revision s < su_revision s'"
proof -
  assume "surface_moves s s'"
  then obtain op r where op: "surface_step op s = Some (r, s')" unfolding surface_moves_def by blast
  from op show ?thesis
    by (elim surface_stepE)
      (auto simp: surface_setters surface_bump_def Let_def u64_less_next split: if_splits
        dest: replace_cases [OF sym])
qed

lemma validated_revision: "surface_validate s h snap = Inr u \<Longrightarrow> es_revision snap = su_revision s"
  by (auto simp: surface_validate_def split: if_splits)

definition surface_submit ::
  "restore_plan_handoff \<times> evidence_snapshot \<times> ustr \<Rightarrow> controlled_surface \<Rightarrow> controlled_surface" where
  "surface_submit q s =
     (case compare_revision_and_replace (fst q) (fst (snd q)) (snd (snd q)) s of None \<Rightarrow> s | Some (_, s') \<Rightarrow> s')"

interpretation surface: strict_revision_guard su_contents su_revision "\<lambda>q. es_revision (fst (snd q))" surface_submit surface_moves
proof unfold_locales
  fix q s
  assume a: "su_contents (surface_submit q s) \<noteq> su_contents s"
  obtain r s' where r: "compare_revision_and_replace (fst q) (fst (snd q)) (snd (snd q)) s = Some (r, s')" "surface_submit q s = s'"
    using a by (auto simp: surface_submit_def split: option.splits)
  with a replace_cases [OF r(1)] validated_revision
  show "es_revision (fst (snd q)) = su_revision s \<and> su_revision s < su_revision (surface_submit q s)" by auto
next
  fix s s' assume "surface_moves s s'"
  from surface_step_strict [OF this] show "su_revision s \<le> su_revision s'" "s' = s \<or> su_revision s < su_revision s'" by auto
qed

subsection \<open>Captured evidence\<close>

text \<open>The caret stays inside a text whose length fits the unit.\<close>

definition surface_ok :: "controlled_surface \<Rightarrow> bool" where
  "surface_ok s \<longleftrightarrow> length (su_contents s) < 2 ^ 32 \<and> unat (su_caret s) \<le> length (su_contents s)"

lemma unat_units: "length (su_contents s) < 2 ^ 32 \<Longrightarrow> unat (surface_units s) = length (su_contents s)"
  by (simp add: surface_units_def unat_of_nat take_bit_nat_eq_self)

lemma captured:
  assumes "surface_ok s" and "surface_capture s expected = Inr snap"
  shows "\<exists>p q. su_contents s = p @ expected @ q \<and> length (p @ expected) = unat (su_caret s) \<and>
    unat (fst (es_range snap)) = length p \<and> unat (snd (es_range snap)) = length (p @ expected) \<and>
    es_revision snap = su_revision s \<and> es_contents snap = expected"
proof -
  let ?n = "of_nat (length expected) :: text_unit"
  have n: "length expected < 2 ^ 32" "\<not> ?n > su_caret s"
    and t: "take (unat ?n) (drop (unat (su_caret s - ?n)) (su_contents s)) = expected"
    and snap: "es_range snap = (su_caret s - ?n, su_caret s)" "es_revision snap = su_revision s" "es_contents snap = expected"
    using assms(2) by (auto simp: surface_capture_def Let_def split: if_splits)
  have un: "unat ?n = length expected" using n(1) by (simp add: unat_of_nat take_bit_nat_eq_self)
  have le: "length expected \<le> unat (su_caret s)" using n(2) un by (simp add: not_less word_le_nat_alt)
  have b: "unat (su_caret s - ?n) = unat (su_caret s) - length expected"
    using n(2) un by (simp add: not_less unat_sub)
  let ?p = "take (unat (su_caret s) - length expected) (su_contents s)"
  have "su_contents s = ?p @ expected @ drop (unat (su_caret s)) (su_contents s)"
    using t le unfolding un b
    by (metis append_assoc append_take_drop_id le_add_diff_inverse2 take_add)
  moreover have "length ?p = unat (su_caret s) - length expected" using assms(1) by (auto simp: surface_ok_def min_def)
  ultimately show ?thesis using snap b le by (intro exI [of _ ?p] exI) auto
qed

lemma validated_safe:
  assumes "surface_validate s h snap = Inr u"
  shows "su_selection s = SS_None \<and> su_composition s = SC_Inactive \<and> su_secure s = SX_KnownNonSecure \<and>
    su_session s = SN_SupportedLocal \<and> es_contents snap = ho_rendered_token h"
  using assms surface_composition.exhaust [of "su_composition s"] surface_secure.exhaust [of "su_secure s"]
    surface_session.exhaust [of "su_session s"]
  by (auto simp: surface_validate_def split: if_splits)

lemma splice_captured:
  assumes "su_contents s = p @ expected @ q" and "unat (fst (es_range snap)) = length p"
    and "unat (snd (es_range snap)) = length (p @ expected)"
  shows "\<exists>r s'. splice_contents snap x s = Some (r, s') \<and> su_contents s' = p @ x @ q \<and>
    (r = Inr () \<longrightarrow> unat (su_caret s') = length (p @ x))"
proof -
  obtain b e where r: "es_range snap = (b, e)" by (rule prod.exhaust)
  have "unat (b + of_nat (length x)) = unat b + length x" if "unat b + length x < 2 ^ 32"
    using that by (simp add: unat_word_ariths unat_of_nat)
  with assms r show ?thesis by (auto simp: splice_contents_def Let_def)
qed

text \<open>
  C32. Captured evidence authorises one exact edit of an unchanged surface: whatever happens to the
  surface between the capture and the compare-and-replace, the call does not panic; it touches the
  text only when nothing at all has happened since the capture and the surface is safe; then the
  captured text before the caret is replaced and nothing else; and the same evidence can never
  edit the text again.
\<close>

theorem capture_then_replace:
  assumes "surface_ok s0" and "surface_capture s0 expected = Inr snap" and "surface_moves\<^sup>*\<^sup>* s0 s"
  shows "\<exists>r s'. compare_revision_and_replace h snap x s = Some (r, s') \<and>
    (s' = s \<and> r \<noteq> Inr () \<or>
     s = s0 \<and> su_selection s = SS_None \<and> su_composition s = SC_Inactive \<and> su_secure s = SX_KnownNonSecure \<and>
     su_session s = SN_SupportedLocal \<and> ho_rendered_token h = expected \<and>
     (\<exists>p q. su_contents s = p @ expected @ q \<and> length (p @ expected) = unat (su_caret s) \<and>
        su_contents s' = p @ x @ q \<and> (r = Inr () \<longrightarrow> unat (su_caret s') = length (p @ x))) \<and>
     (\<forall>s''. surface_moves\<^sup>*\<^sup>* s' s'' \<longrightarrow> su_contents (surface_submit (h, snap, x) s'') = su_contents s''))"
proof (cases "surface_validate s h snap")
  case (Inl e)
  then show ?thesis by (simp add: compare_revision_and_replace_def)
next
  case (Inr u)
  obtain p q where c: "su_contents s0 = p @ expected @ q" "length (p @ expected) = unat (su_caret s0)"
    "unat (fst (es_range snap)) = length p" "unat (snd (es_range snap)) = length (p @ expected)"
    "es_revision snap = su_revision s0" "es_contents snap = expected"
    using captured [OF assms(1,2)] by blast
  have s: "s = s0" using surface.same_revision [OF assms(3)] validated_revision [OF Inr] c(5) by simp
  show ?thesis
  proof (cases "su_revision s = - 1")
    case True
    with Inr show ?thesis by (simp add: compare_revision_and_replace_def surface_bump_def)
  next
    case False
    let ?s1 = "s\<lparr>su_revision := su_revision s + 1\<rparr>"
    obtain r s' where r: "splice_contents snap x ?s1 = Some (r, s')" "su_contents s' = p @ x @ q"
      "r = Inr () \<longrightarrow> unat (su_caret s') = length (p @ x)"
      using splice_captured [of ?s1 p expected q snap x] c(1,3,4) s by auto
    have cr: "compare_revision_and_replace h snap x s = Some (r, s')"
      using Inr False r(1) by (simp add: compare_revision_and_replace_def surface_bump_def)
    have "es_revision snap < su_revision s'"
      using splice_revision [OF r(1)] c(5) s u64_less_next [OF False] by simp
    then have again: "\<forall>s''. surface_moves\<^sup>*\<^sup>* s' s'' \<longrightarrow> su_contents (surface_submit (h, snap, x) s'') = su_contents s''"
      using surface.steps_monotone surface.stale_refused [of "(h, snap, x)"] by fastforce
    have ex: "\<exists>p q. su_contents s = p @ expected @ q \<and> length (p @ expected) = unat (su_caret s) \<and>
        su_contents s' = p @ x @ q \<and> (r = Inr () \<longrightarrow> unat (su_caret s') = length (p @ x))"
      using c(1,2) s r(2,3) by blast
    have safe: "su_selection s = SS_None" "su_composition s = SC_Inactive" "su_secure s = SX_KnownNonSecure"
      "su_session s = SN_SupportedLocal" "ho_rendered_token h = expected"
      using validated_safe [OF Inr] c(6) by simp_all
    show ?thesis
      by (intro exI [of _ r] exI [of _ s'] conjI, rule cr, intro disjI2 conjI) (rule s safe ex again)+
  qed
qed

definition sample_surface :: controlled_surface where
  "sample_surface = (surface_new 7 (lit ''a test''))\<lparr>su_caret := 6\<rparr>"

definition sample_handoff :: restore_plan_handoff where
  "sample_handoff = \<lparr>ho_rendered_token = lit ''test'', ho_replacement_token = lit ''rest'', ho_rendered_units_to_replace = 4,
     ho_replacement_units = 4, ho_reason = DR_ExactTechnicalDictionary, ho_generation = 1, ho_simulation_only = True\<rparr>"

lemma capture_then_replace_witness:
  "\<exists>snap s'. surface_capture sample_surface (lit ''test'') = Inr snap \<and>
     compare_revision_and_replace sample_handoff snap (lit ''rest'') sample_surface = Some (Inr (), s') \<and>
     su_contents s' = lit ''a rest'' \<and>
     su_contents (surface_submit (sample_handoff, snap, lit ''rest'') s') = su_contents s'"
proof -
  have ok: "surface_ok sample_surface" by (simp add: surface_ok_def sample_surface_def surface_new_def)
  obtain snap where snap: "surface_capture sample_surface (lit ''test'') = Inr snap"
    by (simp add: surface_capture_def sample_surface_def surface_new_def Let_def)
  obtain s' where s': "compare_revision_and_replace sample_handoff snap (lit ''rest'') sample_surface = Some (Inr (), s')"
    "su_contents s' = lit ''a rest''"
    using snap
    by (auto simp: surface_capture_def sample_surface_def surface_new_def Let_def compare_revision_and_replace_def
        surface_validate_def surface_bump_def splice_contents_def sample_handoff_def)
  from capture_then_replace [OF ok snap rtranclp.rtrancl_refl, of sample_handoff "lit ''rest''"] s'
  have "su_contents (surface_submit (sample_handoff, snap, lit ''rest'') s') = su_contents s'" by auto
  with snap s' show ?thesis by blast
qed

end
