(* ===== verification/DummyHost.thy ===== *)
theory DummyHost
  imports Guard Utf
begin

text \<open>
  The in-process host (zonkey-service, \<open>lib.rs\<close>, module \<open>dummy_host\<close>): a document with revision, a
  fixed order of checks for one compare-and-replace request, and a table of the results by request
  id that a restart empties.  \<open>None\<close> is a panic.
\<close>

definition PROTOCOL_ID :: ustr where
  "PROTOCOL_ID = lit ''zonkey.inproc-host/1''"

definition UNIT_SCHEMA :: u16 where
  "UNIT_SCHEMA = 1"

record target_identity =
  td_document_id :: u64
  td_control_id :: u64

record text_range =
  tr_unit_schema :: u16
  tr_start :: u32
  tr_end :: u32

datatype host_selection = HL_Empty | HL_Range u32 u32

datatype host_secure = HX_KnownNonSecure | HX_Secure | HX_Unknown

datatype host_composition = HM_Inactive | HM_Active | HM_Unknown

datatype host_session = HV_SupportedLocal | HV_UnsupportedRemote | HV_Unknown

record host_capabilities =
  hk_flags :: u8
  hk_unit_schema :: u16

definition ALL_CAPABILITIES :: host_capabilities where
  "ALL_CAPABILITIES = \<lparr>hk_flags = 15, hk_unit_schema = UNIT_SCHEMA\<rparr>"

datatype request_id = RequestId (request_number: u64)

text \<open>The derived \<open>Ord\<close> by which the table of results is ordered.\<close>

instantiation request_id :: linorder
begin

definition less_eq_request_id :: "request_id \<Rightarrow> request_id \<Rightarrow> bool" where
  "less_eq_request_id i j \<longleftrightarrow> request_number i \<le> request_number j"

definition less_request_id :: "request_id \<Rightarrow> request_id \<Rightarrow> bool" where
  "less_request_id i j \<longleftrightarrow> request_number i < request_number j"

instance
  by standard (auto simp: less_eq_request_id_def less_request_id_def intro: request_id.expand)

end

datatype host_indeterminate = HI_InjectedAmbiguousCommit

datatype host_reject =
    HR_MalformedRequest
  | HR_ProtocolMismatch
  | HR_AuthenticationFailed
  | HR_HostIdentityMismatch
  | HR_SessionMismatch
  | HR_TargetIdentityMismatch
  | HR_RevisionMismatch
  | HR_TextMismatch
  | HR_RangeMismatch
  | HR_UnitMismatch
  | HR_CaretMismatch
  | HR_SelectionNotEmpty
  | HR_SecureTarget
  | HR_SecureUnknown
  | HR_CompositionActive
  | HR_CompositionUnknown
  | HR_UnsupportedSession
  | HR_SessionUnknown
  | HR_CapabilityMismatch
  | HR_RequestIdReuse
  | HR_RevisionOverflow

datatype host_result = HO_Applied u64 | HO_Rejected host_reject | HO_Indeterminate host_indeterminate

record cas_request =
  cr_protocol_id :: ustr
  cr_authenticated :: bool
  cr_host_id :: u64
  cr_session_id :: u64
  cr_request_id :: request_id
  cr_identity :: target_identity
  cr_revision :: u64
  cr_expected_range :: text_range
  cr_expected_text :: ustr
  cr_replacement :: ustr
  cr_caret :: u32
  cr_selection :: host_selection
  cr_secure :: host_secure
  cr_composition :: host_composition
  cr_session :: host_session
  cr_capabilities :: host_capabilities
  cr_force_indeterminate :: bool

record cached_result =
  ca_request :: cas_request
  ca_result :: host_result

record host_snapshot =
  sn_host_id :: u64
  sn_session_id :: u64
  sn_identity :: target_identity
  sn_revision :: u64
  sn_unit_schema :: u16
  sn_contents :: ustr
  sn_caret :: u32
  sn_selection :: host_selection
  sn_secure :: host_secure
  sn_composition :: host_composition
  sn_session :: host_session
  sn_capabilities :: host_capabilities

record dummy_host = host_snapshot +
  dh_request_results :: "request_id \<Rightarrow> cached_result option"

definition dummy_host_new :: "u64 \<Rightarrow> u64 \<Rightarrow> u64 \<Rightarrow> u64 \<Rightarrow> ustr \<Rightarrow> dummy_host" where
  "dummy_host_new host_id session_id document_id control_id s =
     \<lparr>sn_host_id = host_id, sn_session_id = session_id,
      sn_identity = \<lparr>td_document_id = document_id, td_control_id = control_id\<rparr>, sn_revision = 1,
      sn_unit_schema = UNIT_SCHEMA, sn_contents = s, sn_caret = 0, sn_selection = HL_Empty,
      sn_secure = HX_KnownNonSecure, sn_composition = HM_Inactive, sn_session = HV_SupportedLocal,
      sn_capabilities = ALL_CAPABILITIES, dh_request_results = Map.empty\<rparr>"

definition host_text_units :: "dummy_host \<Rightarrow> u32" where
  "host_text_units h = (if length (sn_contents h) < 2 ^ 32 then of_nat (length (sn_contents h)) else - 1)"

definition dummy_host_snapshot :: "dummy_host \<Rightarrow> host_snapshot" where
  "dummy_host_snapshot h = host_snapshot.truncate h"

definition dummy_host_request :: "dummy_host \<Rightarrow> request_id \<Rightarrow> text_range \<Rightarrow> ustr \<Rightarrow> ustr \<Rightarrow> cas_request" where
  "dummy_host_request h rid rng expected replacement =
     \<lparr>cr_protocol_id = PROTOCOL_ID, cr_authenticated = True, cr_host_id = sn_host_id h, cr_session_id = sn_session_id h,
      cr_request_id = rid, cr_identity = sn_identity h, cr_revision = sn_revision h, cr_expected_range = rng,
      cr_expected_text = expected, cr_replacement = replacement, cr_caret = sn_caret h, cr_selection = sn_selection h,
      cr_secure = sn_secure h, cr_composition = sn_composition h, cr_session = sn_session h,
      cr_capabilities = sn_capabilities h, cr_force_indeterminate = False\<rparr>"

definition host_bump :: "(dummy_host \<Rightarrow> dummy_host) \<Rightarrow> dummy_host \<Rightarrow> (host_reject + unit) \<times> dummy_host" where
  "host_bump change h =
     (if sn_revision h = - 1 then (Inl HR_RevisionOverflow, h)
      else (Inr (), change (h\<lparr>sn_revision := sn_revision h + 1\<rparr>)))"

definition host_set_secure where
  "host_set_secure v = host_bump (\<lambda>h. h\<lparr>sn_secure := v\<rparr>)"

definition host_set_composition where
  "host_set_composition v = host_bump (\<lambda>h. h\<lparr>sn_composition := v\<rparr>)"

definition host_set_session where
  "host_set_session v = host_bump (\<lambda>h. h\<lparr>sn_session := v\<rparr>)"

definition host_set_selection :: "host_selection \<Rightarrow> dummy_host \<Rightarrow> (host_reject + unit) \<times> dummy_host" where
  "host_set_selection v h =
     (if (case v of HL_Empty \<Rightarrow> False | HL_Range b e \<Rightarrow> b > e \<or> e > host_text_units h) then (Inl HR_RangeMismatch, h)
      else host_bump (\<lambda>h. h\<lparr>sn_selection := v\<rparr>) h)"

definition host_restart :: "dummy_host \<Rightarrow> (host_reject + unit) \<times> dummy_host" where
  "host_restart h =
     (if sn_session_id h = - 1 then (Inl HR_RevisionOverflow, h)
      else if sn_revision h = - 1 then (Inl HR_RevisionOverflow, h)
      else (Inr (), h\<lparr>sn_session_id := sn_session_id h + 1, sn_revision := sn_revision h + 1,
                 dh_request_results := Map.empty\<rparr>))"

subsection \<open>The checks\<close>

definition host_checks :: "dummy_host \<Rightarrow> cas_request \<Rightarrow> host_reject option" where
  "host_checks h r =
     (let rng = cr_expected_range r in
      if cr_protocol_id r \<noteq> PROTOCOL_ID then Some HR_ProtocolMismatch
      else if \<not> cr_authenticated r then Some HR_AuthenticationFailed
      else if cr_host_id r \<noteq> sn_host_id h then Some HR_HostIdentityMismatch
      else if cr_session_id r \<noteq> sn_session_id h then Some HR_SessionMismatch
      else if cr_identity r \<noteq> sn_identity h then Some HR_TargetIdentityMismatch
      else if cr_capabilities r \<noteq> sn_capabilities h then Some HR_CapabilityMismatch
      else if tr_unit_schema rng \<noteq> sn_unit_schema h then Some HR_UnitMismatch
      else if cr_revision r \<noteq> sn_revision h then Some HR_RevisionMismatch
      else if tr_start rng > tr_end rng \<or> tr_end rng > host_text_units h then Some HR_RangeMismatch
      else if cr_caret r \<noteq> sn_caret h \<or> tr_end rng \<noteq> cr_caret r then Some HR_CaretMismatch
      else if cr_selection r \<noteq> HL_Empty \<or> sn_selection h \<noteq> HL_Empty then Some HR_SelectionNotEmpty
      else if cr_selection r \<noteq> sn_selection h then Some HR_SelectionNotEmpty
      else if cr_secure r \<noteq> sn_secure h then Some HR_SecureTarget
      else if sn_secure h = HX_Secure then Some HR_SecureTarget
      else if sn_secure h = HX_Unknown then Some HR_SecureUnknown
      else if cr_composition r \<noteq> sn_composition h then Some HR_CompositionActive
      else if sn_composition h = HM_Active then Some HR_CompositionActive
      else if sn_composition h = HM_Unknown then Some HR_CompositionUnknown
      else if cr_session r \<noteq> sn_session h then Some HR_SessionMismatch
      else if sn_session h = HV_UnsupportedRemote then Some HR_UnsupportedSession
      else if sn_session h = HV_Unknown then Some HR_SessionUnknown
      else None)"

definition host_apply :: "dummy_host \<Rightarrow> cas_request \<Rightarrow> (host_result \<times> dummy_host) option" where
  "host_apply h r =
     (let b = unat (tr_start (cr_expected_range r)); e = unat (tr_end (cr_expected_range r)); cs = sn_contents h
      in if b > e \<or> e > length cs then None
      else if take (e - b) (drop b cs) \<noteq> cr_expected_text r then Some (HO_Rejected HR_TextMismatch, h)
      else if length (cr_replacement r) \<ge> 2 ^ 32 then Some (HO_Rejected HR_RangeMismatch, h)
      else if sn_revision h = - 1 then Some (HO_Rejected HR_RevisionOverflow, h)
      else if b + length (cr_replacement r) \<ge> 2 ^ 32 then Some (HO_Rejected HR_RangeMismatch, h)
      else Some (if cr_force_indeterminate r then HO_Indeterminate HI_InjectedAmbiguousCommit
                 else HO_Applied (sn_revision h + 1),
             h\<lparr>sn_contents := take b cs @ cr_replacement r @ drop e cs,
               sn_caret := tr_start (cr_expected_range r) + of_nat (length (cr_replacement r)),
               sn_selection := HL_Empty, sn_revision := sn_revision h + 1\<rparr>))"

definition validate_and_apply :: "dummy_host \<Rightarrow> cas_request \<Rightarrow> (host_result \<times> dummy_host) option" where
  "validate_and_apply h r =
     (case host_checks h r of Some reason \<Rightarrow> Some (HO_Rejected reason, h) | None \<Rightarrow> host_apply h r)"

definition compare_and_replace :: "dummy_host \<Rightarrow> cas_request \<Rightarrow> (host_result \<times> dummy_host) option" where
  "compare_and_replace h r =
     (if request_number (cr_request_id r) = 0 then Some (HO_Rejected HR_MalformedRequest, h)
      else (case dh_request_results h (cr_request_id r) of
              Some cached \<Rightarrow>
                Some (if ca_request cached = r then ca_result cached else HO_Rejected HR_RequestIdReuse, h)
            | None \<Rightarrow>
               (case validate_and_apply h r of
                  None \<Rightarrow> None
                | Some (result, h') \<Rightarrow> Some (result,
                    h'\<lparr>dh_request_results := (dh_request_results h')(cr_request_id r \<mapsto>
                        \<lparr>ca_request = r, ca_result = result\<rparr>)\<rparr>))))"

subsection \<open>No panic\<close>

lemma host_checks_None:
  "host_checks h r = None \<Longrightarrow>
    cr_revision r = sn_revision h \<and> cr_session_id r = sn_session_id h \<and> cr_authenticated r \<and>
    tr_start (cr_expected_range r) \<le> tr_end (cr_expected_range r) \<and>
    tr_end (cr_expected_range r) \<le> host_text_units h \<and> tr_end (cr_expected_range r) = sn_caret h \<and>
    sn_selection h = HL_Empty \<and> sn_secure h \<notin> {HX_Secure, HX_Unknown} \<and> sn_composition h \<notin> {HM_Active, HM_Unknown} \<and>
    sn_session h \<notin> {HV_UnsupportedRemote, HV_Unknown}"
  unfolding host_checks_def Let_def if_Some_None by auto

lemma host_range_ok:
  assumes "w \<le> host_text_units h"
  shows "unat w \<le> length (sn_contents h)"
proof (cases "length (sn_contents h) < 2 ^ 32")
  case True
  then have "unat (host_text_units h) = length (sn_contents h)"
    by (simp add: host_text_units_def unat_of_nat take_bit_nat_eq_self)
  with assms show ?thesis by (simp add: word_le_nat_alt)
next
  case False
  moreover have "unat w < 2 ^ 32" using unsigned_less [of w, where ?'a = nat] by simp
  ultimately show ?thesis by simp
qed

lemma host_checked:
  assumes "host_checks h r = None"
  shows "cr_revision r = sn_revision h" "cr_session_id r = sn_session_id h"
    "unat (tr_start (cr_expected_range r)) \<le> unat (tr_end (cr_expected_range r))"
    "unat (tr_end (cr_expected_range r)) \<le> length (sn_contents h)" "tr_end (cr_expected_range r) = sn_caret h"
    "sn_selection h = HL_Empty" "sn_secure h = HX_KnownNonSecure" "sn_composition h = HM_Inactive"
    "sn_session h = HV_SupportedLocal"
  using host_checks_None [OF assms] host_range_ok [of "tr_end (cr_expected_range r)" h]
    host_secure.exhaust [of "sn_secure h"] host_composition.exhaust [of "sn_composition h"]
    host_session.exhaust [of "sn_session h"]
  unfolding word_le_nat_alt by blast+

lemma validate_total: "\<exists>result h'. validate_and_apply h r = Some (result, h')"
proof (cases "host_checks h r")
  case None
  from host_checked(3,4) [OF None] None show ?thesis by (simp add: validate_and_apply_def host_apply_def Let_def)
qed (simp add: validate_and_apply_def)

lemma compare_total: "\<exists>result h'. compare_and_replace h r = Some (result, h')"
  using validate_total [of h r] by (auto simp: compare_and_replace_def split: option.split)

subsection \<open>What a request changes\<close>

lemma validate_cases:
  assumes "validate_and_apply h r = Some (result, h')"
  shows "h' = h \<and> (\<exists>reason. result = HO_Rejected reason) \<or>
    host_checks h r = None \<and> sn_revision h \<noteq> - 1 \<and> sn_revision h' = sn_revision h + 1 \<and> sn_session_id h' = sn_session_id h \<and>
    dh_request_results h' = dh_request_results h \<and>
    result = (if cr_force_indeterminate r then HO_Indeterminate HI_InjectedAmbiguousCommit else HO_Applied (sn_revision h + 1)) \<and>
    (\<exists>p q. sn_contents h = p @ cr_expected_text r @ q \<and> length (p @ cr_expected_text r) = unat (sn_caret h) \<and>
       sn_contents h' = p @ cr_replacement r @ q \<and> unat (sn_caret h') = length (p @ cr_replacement r))"
proof (cases "host_checks h r")
  case None
  let ?rng = "cr_expected_range r" and ?cs = "sn_contents h"
  let ?b = "unat (tr_start ?rng)" and ?e = "unat (tr_end ?rng)"
  let ?p = "take ?b ?cs" and ?q = "drop ?e ?cs" and ?caret = "tr_start ?rng + of_nat (length (cr_replacement r))"
  let ?h' = "h\<lparr>sn_contents := ?p @ cr_replacement r @ ?q, sn_caret := ?caret, sn_selection := HL_Empty,
    sn_revision := sn_revision h + 1\<rparr>"
  note c = host_checked [OF None]
  have "h' = h \<and> (\<exists>reason. result = HO_Rejected reason) \<or>
      take (?e - ?b) (drop ?b ?cs) = cr_expected_text r \<and> sn_revision h \<noteq> - 1 \<and>
      ?b + length (cr_replacement r) < 2 ^ 32 \<and> h' = ?h' \<and>
      result = (if cr_force_indeterminate r then HO_Indeterminate HI_InjectedAmbiguousCommit else HO_Applied (sn_revision h + 1))"
    using assms None c(3,4) by (auto simp: validate_and_apply_def host_apply_def Let_def split: if_splits)
  then show ?thesis
  proof
    assume a: "take (?e - ?b) (drop ?b ?cs) = cr_expected_text r \<and> sn_revision h \<noteq> - 1 \<and>
      ?b + length (cr_replacement r) < 2 ^ 32 \<and> h' = ?h' \<and>
      result = (if cr_force_indeterminate r then HO_Indeterminate HI_InjectedAmbiguousCommit else HO_Applied (sn_revision h + 1))"
    then have "?cs = ?p @ cr_expected_text r @ ?q"
      using c(3) by (metis append_assoc append_take_drop_id le_add_diff_inverse take_add)
    moreover have "length (?p @ cr_expected_text r) = unat (sn_caret h)"
      using a c(3-5) by (metis le_add_diff_inverse length_take min.absorb2 take_add)
    moreover have "unat ?caret = ?b + length (cr_replacement r)" "length ?p = ?b"
      using a c(3,4) by (simp_all add: unat_word_ariths unat_of_nat)
    ultimately show ?thesis using a None by (intro disjI2 conjI exI [of _ ?p] exI [of _ ?q]) simp_all
  qed simp
qed (use assms in \<open>auto simp: validate_and_apply_def\<close>)

lemma compare_cases:
  assumes "compare_and_replace h r = Some (result, h')"
  obtains "h' = h"
  | h1 where "request_number (cr_request_id r) \<noteq> 0" "dh_request_results h (cr_request_id r) = None" "validate_and_apply h r = Some (result, h1)"
      "h' = h1\<lparr>dh_request_results := (dh_request_results h1)(cr_request_id r \<mapsto> \<lparr>ca_request = r, ca_result = result\<rparr>)\<rparr>"
  using assms by (auto simp: compare_and_replace_def split: if_splits option.splits)

subsection \<open>The operations as steps\<close>

datatype host_op =
    HT_SetSecure host_secure
  | HT_SetComposition host_composition
  | HT_SetSession host_session
  | HT_SetSelection host_selection
  | HT_Restart
  | HT_CompareAndReplace cas_request

fun host_step :: "host_op \<Rightarrow> dummy_host \<Rightarrow> dummy_host" where
  "host_step (HT_SetSecure v) h = snd (host_set_secure v h)"
| "host_step (HT_SetComposition v) h = snd (host_set_composition v h)"
| "host_step (HT_SetSession v) h = snd (host_set_session v h)"
| "host_step (HT_SetSelection v) h = snd (host_set_selection v h)"
| "host_step HT_Restart h = snd (host_restart h)"
| "host_step (HT_CompareAndReplace r) h = (case compare_and_replace h r of None \<Rightarrow> h | Some (_, h') \<Rightarrow> h')"

definition host_moves :: "dummy_host \<Rightarrow> dummy_host \<Rightarrow> bool" where
  "host_moves h h' \<longleftrightarrow> (\<exists>op. h' = host_step op h)"

lemma compare_move:
  assumes "compare_and_replace h r = Some (result, h')"
  shows "sn_revision h \<le> sn_revision h' \<and> sn_session_id h' = sn_session_id h \<and> dh_request_results h \<subseteq>\<^sub>m dh_request_results h' \<and>
    (sn_contents h' \<noteq> sn_contents h \<longrightarrow> cr_revision r = sn_revision h \<and> sn_revision h < sn_revision h')"
  using assms
proof (cases rule: compare_cases)
  case 1
  then show ?thesis by simp
next
  case (2 h1)
  have "h1 = h \<or> sn_revision h < sn_revision h1 \<and> sn_session_id h1 = sn_session_id h \<and>
      dh_request_results h1 = dh_request_results h \<and> cr_revision r = sn_revision h"
    using validate_cases [OF 2(3)] host_checked(1) [of h r] u64_less_next [of "sn_revision h"] by auto
  with 2(2,4) show ?thesis by (auto simp: map_le_def order_less_imp_le)
qed

lemma host_move:
  assumes "host_moves h h'"
  shows "sn_revision h \<le> sn_revision h' \<and>
    (sn_session_id h' = sn_session_id h \<and> dh_request_results h \<subseteq>\<^sub>m dh_request_results h' \<or> sn_session_id h < sn_session_id h')"
proof -
  obtain op where op: "h' = host_step op h" using assms unfolding host_moves_def by blast
  show ?thesis
  proof (cases op)
    case (HT_CompareAndReplace r)
    obtain result h1 where "compare_and_replace h r = Some (result, h1)" using compare_total by blast
    with op HT_CompareAndReplace compare_move [OF this] show ?thesis by simp
  qed (use op u64_less_next in \<open>auto simp: host_set_secure_def host_set_composition_def host_set_session_def
      host_set_selection_def host_bump_def host_restart_def order_less_imp_le\<close>)
qed

definition host_submit :: "cas_request \<Rightarrow> dummy_host \<Rightarrow> dummy_host" where
  "host_submit r = host_step (HT_CompareAndReplace r)"

interpretation inproc: revision_guard sn_contents sn_revision cr_revision host_submit host_moves
proof unfold_locales
  fix r h
  assume a: "sn_contents (host_submit r h) \<noteq> sn_contents h"
  obtain result h1 where "compare_and_replace h r = Some (result, h1)" using compare_total by blast
  with a compare_move [OF this] show "cr_revision r = sn_revision h \<and> sn_revision h < sn_revision (host_submit r h)"
    by (auto simp: host_submit_def)
qed (use host_move in blast)

lemma host_run:
  "host_moves\<^sup>*\<^sup>* h h' \<Longrightarrow>
     sn_session_id h' = sn_session_id h \<and> dh_request_results h \<subseteq>\<^sub>m dh_request_results h' \<or> sn_session_id h < sn_session_id h'"
proof (induction rule: rtranclp_induct)
  case (step h1 h2)
  with host_move [OF step(2)] show ?case by (auto intro: map_le_trans)
qed simp

text \<open>
  The in-process host executes a request at most once and remembers what it said: the call never
  panics; submitted again in the same session, after anything else, the request gets the same result
  and changes nothing; and a request that changed the text never changes it again, not even after
  restarts that empty the table.
\<close>

lemma dummy_host_once:
  assumes "compare_and_replace h r = Some (result, h1)" and "host_moves\<^sup>*\<^sup>* h1 h2"
  shows "\<exists>out h3. compare_and_replace h2 r = Some (out, h3) \<and>
    (sn_session_id h2 = sn_session_id h1 \<longrightarrow> out = result \<and> h3 = h2) \<and>
    (sn_contents h1 \<noteq> sn_contents h \<longrightarrow> sn_contents h3 = sn_contents h2)"
proof -
  obtain out h3 where o: "compare_and_replace h2 r = Some (out, h3)" using compare_total by blast
  have "out = result \<and> h3 = h2" if "sn_session_id h2 = sn_session_id h1"
  proof (cases "request_number (cr_request_id r) = 0")
    case True
    with o assms(1) show ?thesis by (simp add: compare_and_replace_def)
  next
    case False
    obtain c where c: "dh_request_results h1 (cr_request_id r) = Some c"
      "result = (if ca_request c = r then ca_result c else HO_Rejected HR_RequestIdReuse)"
    proof (cases "dh_request_results h (cr_request_id r)")
      case None
      with assms(1) False show thesis
        by (intro that [of "\<lparr>ca_request = r, ca_result = result\<rparr>"]) (auto simp: compare_and_replace_def split: option.splits)
    next
      case (Some c)
      with assms(1) False show thesis by (intro that [of c]) (auto simp: compare_and_replace_def)
    qed
    then have "dh_request_results h2 (cr_request_id r) = Some c"
      using host_run [OF assms(2)] that by (fastforce simp: map_le_def dom_def)
    with o c False show ?thesis by (auto simp: compare_and_replace_def)
  qed
  moreover have "sn_contents h3 = sn_contents h2" if "sn_contents h1 \<noteq> sn_contents h"
    using inproc.at_most_once [of r h h2] that assms o by (simp add: host_submit_def)
  ultimately show ?thesis using o by blast
qed

text \<open>
  An applied request is one exact edit of the text it was made for: the expected text stood right
  before the caret, just that piece is replaced, the caret ends behind the replacement, the revision
  was the requested one and advances by one, and the target was empty-selected, non-secure, without
  composition and local; a rejection changes nothing but the table.
\<close>

lemma dummy_host_exact:
  assumes "compare_and_replace h r = Some (result, h')" and "request_number (cr_request_id r) \<noteq> 0"
    and "dh_request_results h (cr_request_id r) = None"
  shows "case result of
      HO_Rejected reason \<Rightarrow> sn_contents h' = sn_contents h \<and> sn_revision h' = sn_revision h \<and> sn_caret h' = sn_caret h
    | _ \<Rightarrow> (result = HO_Applied (sn_revision h') \<longleftrightarrow> \<not> cr_force_indeterminate r) \<and>
        cr_revision r = sn_revision h \<and> sn_revision h' = sn_revision h + 1 \<and> cr_session_id r = sn_session_id h \<and>
        sn_selection h = HL_Empty \<and> sn_secure h = HX_KnownNonSecure \<and> sn_composition h = HM_Inactive \<and>
        sn_session h = HV_SupportedLocal \<and>
        (\<exists>p q. sn_contents h = p @ cr_expected_text r @ q \<and> length (p @ cr_expected_text r) = unat (sn_caret h) \<and>
           sn_contents h' = p @ cr_replacement r @ q \<and> unat (sn_caret h') = length (p @ cr_replacement r))"
proof -
  obtain h1 where v: "validate_and_apply h r = Some (result, h1)"
    "h' = h1\<lparr>dh_request_results := (dh_request_results h1)(cr_request_id r \<mapsto> \<lparr>ca_request = r, ca_result = result\<rparr>)\<rparr>"
    using assms validate_total [of h r] by (auto simp: compare_and_replace_def)
  from validate_cases [OF v(1)] host_checked [of h r] v(2) show ?thesis
    by (auto split: host_result.split if_splits)
qed

definition sample_dummy :: dummy_host where
  "sample_dummy = (dummy_host_new 1 2 3 4 (lit ''a test''))\<lparr>sn_caret := 6\<rparr>"

definition sample_cas :: cas_request where
  "sample_cas = dummy_host_request sample_dummy (RequestId 9) \<lparr>tr_unit_schema = UNIT_SCHEMA, tr_start = 2, tr_end = 6\<rparr> (lit ''test'') (lit ''rest'')"

lemma sample_cas_applied:
  "\<exists>h1. compare_and_replace sample_dummy sample_cas = Some (HO_Applied 2, h1) \<and> sn_contents h1 = lit ''a rest'' \<and>
     request_number (cr_request_id sample_cas) \<noteq> 0 \<and> dh_request_results sample_dummy (cr_request_id sample_cas) = None"
  by (simp add: compare_and_replace_def sample_dummy_def sample_cas_def dummy_host_request_def dummy_host_new_def
      validate_and_apply_def host_checks_def host_apply_def host_text_units_def Let_def)

lemma dummy_host_once_witness:
  "\<exists>h1 out h3. compare_and_replace sample_dummy sample_cas = Some (HO_Applied 2, h1) \<and>
     compare_and_replace (host_step HT_Restart h1) sample_cas = Some (out, h3) \<and> sn_contents h3 = lit ''a rest''"
proof -
  obtain h1 where h1: "compare_and_replace sample_dummy sample_cas = Some (HO_Applied 2, h1)" "sn_contents h1 = lit ''a rest''"
    using sample_cas_applied by blast
  have "host_moves h1 (host_step HT_Restart h1)" unfolding host_moves_def by blast
  then have run: "host_moves\<^sup>*\<^sup>* h1 (host_step HT_Restart h1)" by (rule r_into_rtranclp)
  have texts: "sn_contents (host_step HT_Restart h1) = lit ''a rest''" "sn_contents h1 \<noteq> sn_contents sample_dummy"
    using h1(2) by (simp_all add: host_restart_def sample_dummy_def dummy_host_new_def)
  from dummy_host_once [OF h1(1) run] texts h1(1) show ?thesis by metis
qed

lemma dummy_host_exact_witness:
  "\<exists>h1. compare_and_replace sample_dummy sample_cas = Some (HO_Applied 2, h1) \<and> sn_revision h1 = sn_revision sample_dummy + 1"
proof -
  obtain h1 where h1: "compare_and_replace sample_dummy sample_cas = Some (HO_Applied 2, h1)"
    "request_number (cr_request_id sample_cas) \<noteq> 0" "dh_request_results sample_dummy (cr_request_id sample_cas) = None"
    using sample_cas_applied by blast
  from dummy_host_exact [OF h1] h1(1) show ?thesis by auto
qed

end
