(* ===== verification/Console.thy ===== *)
theory Console
  imports RawInput
begin

text \<open>
  The observe commands (zonkey-win, \<open>native.rs\<close>: \<open>run_observe\<close>, \<open>run_observe_with_processor\<close>; \<open>raw.rs\<close>:
  \<open>run_observe_raw\<close>): installing the stop handler and the source, running the service over it with a
  processor, and everything printed to the console.  The main theorem is a two-run property: what is
  printed depends on the category of each key only.
\<close>

subsection \<open>The printing processors\<close>

definition kind_name :: "key_event_kind \<Rightarrow> ustr" where
  "kind_name kind =
     (case kind of
        KE_KeyDown \<Rightarrow> lit ''down''
      | KE_KeyUp \<Rightarrow> lit ''up''
      | KE_SystemKeyDown \<Rightarrow> lit ''sysdown''
      | KE_SystemKeyUp \<Rightarrow> lit ''sysup'')"

definition injected_name :: "injection_origin \<Rightarrow> ustr" where
  "injected_name origin =
     (case origin of
        IO_PhysicalOrUnmarked \<Rightarrow> lit ''no''
      | IO_Unknown \<Rightarrow> lit ''no''
      | IO_MarkedInjected \<Rightarrow> lit ''yes''
      | IO_LowerIntegrityInjected \<Rightarrow> lit ''yes'')"

definition key_category :: "observed_key \<Rightarrow> ustr" where
  "key_category k =
     (if letter_value k \<noteq> None then lit ''letter''
      else if digit_value k \<noteq> None then lit ''digit''
      else if punctuation_value k \<noteq> None then lit ''punctuation''
      else if modifier_value k \<noteq> None then lit ''modifier''
      else lit ''other'')"

definition modifiers_text :: "modifier_state \<Rightarrow> ustr" where
  "modifiers_text m =
     (let s = (if ms_shift m then lit ''SHIFT '' else []) @ (if ms_control m then lit ''CTRL '' else []) @
              (if ms_alt m then lit ''ALT '' else []) @ (if ms_meta m then lit ''META '' else [])
      in if s = [] then lit ''none'' else s)"

definition event_line :: "observed_input_event \<Rightarrow> ustr" where
  "event_line e =
     lit ''seq='' @ show_nat (unat (event_number e)) @ lit '' kind='' @ kind_name (oe_kind e) @
     lit '' key='' @ key_category (oe_key e) @ lit '' mods='' @ modifiers_text (oe_modifiers e) @
     lit '' injected='' @ injected_name (oe_injection_origin e)"

text \<open>The state of a printing processor is what it has printed.\<close>

definition diagnostic_processor :: "ustr list event_processor" where
  "diagnostic_processor =
     \<lparr>reset_after_discontinuity = (\<lambda>out. out @ [lit ''discontinuity=true'']),
      process_event = (\<lambda>out e. Some (PC_Observed, out @ [event_line e]))\<rparr>"

definition raw_processor :: "ustr list event_processor" where
  "raw_processor =
     \<lparr>reset_after_discontinuity = id, process_event = (\<lambda>out e. Some (PC_Observed, out @ [event_line e]))\<rparr>"

fun status_name :: "observer_status \<Rightarrow> ustr" where
  "status_name OS_Starting = lit ''Starting''"
| "status_name OS_Running = lit ''Running''"
| "status_name OS_Stopping = lit ''Stopping''"
| "status_name OS_Stopped = lit ''Stopped''"
| "status_name OS_Failed = lit ''Failed''"

definition counts_text :: "(ustr \<times> u64) list \<Rightarrow> ustr" where
  "counts_text counts = concat (map (\<lambda>(name, n). lit '' '' @ name @ lit ''='' @ show_nat (unat n)) counts)"

subsection \<open>The hook observer\<close>

text \<open>
  The service reads the source together with the messages its thread will receive.  A thread that
  has no further message waits for ever: it is \<open>None\<close>, and so is the run that ends in it.
\<close>

type_synonym hook_thread = "(hook \<times> source_turn list) option"

definition hook_source :: "hook_thread event_source" where
  "hook_source t =
     (case t of
        None \<Rightarrow> (Inr None, None)
      | Some (hk, turns) \<Rightarrow>
         (case next_event turns hk of
            None \<Rightarrow> (Inr None, None)
          | Some (r, hk', later) \<Rightarrow> (r, Some (hk', later))))"

record observe_env =
  ov_thread_id :: u32
  ov_handler_ok :: bool
  ov_lock_ok :: bool
  ov_module_ok :: bool
  ov_hook_ok :: bool
  ov_turns :: "source_turn list"
  ov_final_lock_ok :: bool

record observe_statics =
  vs_thread_id :: u32
  vs_handler :: bool
  vs_hook :: hook

record 'p session_end =
  se_report :: aggregate_report
  se_status :: observer_status
  se_dropped :: u64
  se_counters :: hook_counters
  se_processor :: 'p

text \<open>Ctrl+C and Ctrl+Break are handled; the quit message goes to the thread that observes, if there is one.\<close>

definition console_handler :: "u32 \<Rightarrow> u32 \<Rightarrow> u32 option \<times> bool" where
  "console_handler control thread_id =
     (if control \<in> {0, 1} then (if thread_id \<noteq> 0 then Some thread_id else None, True) else (None, False))"

text \<open>The part common to the two hook commands; \<open>None\<close> is a panic or a run that still waits.\<close>

definition observe_session ::
  "'p event_processor \<Rightarrow> 'p \<Rightarrow> observe_env \<Rightarrow> observe_statics
    \<Rightarrow> ((ustr + 'p session_end) \<times> observe_statics) option" where
  "observe_session P p env sx =
     (let sx = sx\<lparr>vs_thread_id := ov_thread_id env\<rparr> in
      if \<not> ov_handler_ok env then Some (Inl (lit ''failed to install console stop handler''), sx)
      else (let sx = sx\<lparr>vs_handler := True\<rparr> in
        case source_new (ov_lock_ok env) (ov_module_ok env) (ov_hook_ok env) (vs_hook sx) of
          (Inl _, hk) \<Rightarrow>
            Some (Inl (lit ''failed to install keyboard hook''),
                  sx\<lparr>vs_hook := hk, vs_thread_id := 0, vs_handler := False\<rparr>)
        | (Inr _, hk) \<Rightarrow>
           (case queue_default of
              None \<Rightarrow> None
            | Some queue \<Rightarrow>
               (case run hook_source P (service_new queue) (Some (hk, ov_turns env)) p of
                  None \<Rightarrow> None
                | Some (_, _, None, _) \<Rightarrow> None
                | Some (report, service, Some (hk', _), p') \<Rightarrow>
                    Some (Inr \<lparr>se_report = report, se_status = os_status service,
                               se_dropped = dropped_events (ov_final_lock_ok env) hk',
                               se_counters = hk_counters hk', se_processor = p'\<rparr>,
                          sx\<lparr>vs_hook := (if ov_final_lock_ok env then source_drop hk' else hk'), vs_thread_id := 0, vs_handler := False\<rparr>)))))"

definition session_result :: "'p session_end \<Rightarrow> ustr + unit" where
  "session_result e =
     (if se_dropped e = - 1 \<or> se_status e = OS_Failed then Inl (lit ''observe source failed'') else Inr ())"

definition observe_banner :: "ustr list" where
  "observe_banner =
     [lit ''ZonKey observe-only Windows spike'', lit ''observer_thread_started'',
      lit ''hook=installed message_loop=running'', lit ''Press Ctrl+C to stop'']"

definition observe_stopped_line :: "'p session_end \<Rightarrow> ustr" where
  "observe_stopped_line e =
     lit ''stopped status='' @ status_name (se_status e) @
     counts_text
       [(lit ''callbacks'', hc_callback_invocations (se_counters e)),
        (lit ''supported_messages'', hc_supported_messages (se_counters e)),
        (lit ''mapping_attempts'', hc_mapping_attempts (se_counters e)),
        (lit ''mapping_success'', hc_mapping_success (se_counters e)),
        (lit ''mapping_rejected'', hc_mapping_rejected (se_counters e)),
        (lit ''bridge_enqueued'', hc_bridge_enqueued (se_counters e)),
        (lit ''bridge_full_drops'', hc_bridge_full_drops (se_counters e)),
        (lit ''bridge_lock_drops'', hc_bridge_lock_drops (se_counters e)),
        (lit ''received'', ar_received (se_report e)), (lit ''accepted'', ar_accepted (se_report e)),
        (lit ''dropped'', ar_dropped (se_report e)), (lit ''processed'', ar_processed (se_report e))]"

text \<open>The command: its result and what it printed.\<close>

definition run_observe ::
  "observe_env \<Rightarrow> observe_statics \<Rightarrow> ((ustr + unit) \<times> ustr list \<times> observe_statics) option" where
  "run_observe env sx =
     (case observe_session diagnostic_processor [] env sx of
        None \<Rightarrow> None
      | Some (Inl message, sx') \<Rightarrow> Some (Inl message, [], sx')
      | Some (Inr e, sx') \<Rightarrow>
          Some (session_result e, observe_banner @ se_processor e @ [observe_stopped_line e], sx'))"

definition diagnostic_banner :: "ustr list" where
  "diagnostic_banner =
     [lit ''ZonKey observe-only diagnostic mode'', lit ''observer_thread_started'',
      lit ''hook=installed message_loop=running'', lit ''Press Ctrl+C to stop'']"

definition diagnostic_stopped_line :: "'p session_end \<Rightarrow> ustr" where
  "diagnostic_stopped_line e =
     lit ''stopped status='' @ status_name (se_status e) @
     counts_text
       [(lit ''received'', ar_received (se_report e)), (lit ''accepted'', ar_accepted (se_report e)),
        (lit ''dropped'', ar_dropped (se_report e)), (lit ''processed'', ar_processed (se_report e)),
        (lit ''discontinuities'', ar_discontinuities (se_report e)),
        (lit ''source_failures'', ar_source_failures (se_report e)),
        (lit ''unsupported_events'', ar_unsupported_events (se_report e))]"

text \<open>With a processor of the caller, whose own output stands between the banner and the last line.\<close>

definition run_observe_with_processor ::
  "'p event_processor \<Rightarrow> 'p \<Rightarrow> observe_env \<Rightarrow> observe_statics
    \<Rightarrow> ((ustr + unit) \<times> (ustr list \<times> 'p \<times> ustr) option \<times> observe_statics) option" where
  "run_observe_with_processor P p env sx =
     (case observe_session P p env sx of
        None \<Rightarrow> None
      | Some (Inl message, sx') \<Rightarrow> Some (Inl message, None, sx')
      | Some (Inr e, sx') \<Rightarrow>
          Some (session_result e, Some (diagnostic_banner, se_processor e, diagnostic_stopped_line e), sx'))"

subsection \<open>The Raw Input observer\<close>

type_synonym raw_thread = "(raw_observer \<times> (bool \<times> raw_thread_message) list) option"

definition raw_source :: "raw_thread event_source" where
  "raw_source t =
     (case t of
        None \<Rightarrow> (Inr None, None)
      | Some (ob, turns) \<Rightarrow>
         (case raw_next_event turns ob of
            None \<Rightarrow> (Inr None, None)
          | Some (r, ob', later) \<Rightarrow> (r, Some (ob', later))))"

record raw_env =
  re_thread_id :: u32
  re_handler_ok :: bool
  re_window_ok :: bool
  re_lock_ok :: bool
  re_turns :: "(bool \<times> raw_thread_message) list"
  re_final_lock_ok :: bool

record raw_statics =
  rs_thread_id :: u32
  rs_handler :: bool
  rs_observer :: raw_observer

definition raw_counters_zero :: raw_counters where
  "raw_counters_zero =
     \<lparr>rc_messages = 0, rc_keyboard_packets = 0, rc_mapping_attempts = 0, rc_mapping_success = 0,
      rc_mapping_rejected = 0, rc_bridge_enqueued = 0, rc_bridge_full_drops = 0\<rparr>"

text \<open>\<open>RawWindowGuard::drop\<close>: the window is destroyed and, if the lock is not poisoned, the bridge closed.\<close>

definition raw_source_drop :: "bool \<Rightarrow> raw_observer \<Rightarrow> raw_observer" where
  "raw_source_drop lock_ok ob =
     (if lock_ok then ob\<lparr>ro_bridge := (ro_bridge ob)\<lparr>rb_active := False, rb_events := []\<rparr>\<rparr> else ob)"

definition raw_banner :: "ustr list" where
  "raw_banner =
     [lit ''ZonKey observe-only Raw Input spike'',
      lit ''raw_registration=keyboard input_sink=true message_loop=running'', lit ''Press Ctrl+C to stop'']"

definition raw_stopped_line :: "observer_status \<Rightarrow> raw_counters \<Rightarrow> aggregate_report \<Rightarrow> ustr" where
  "raw_stopped_line status n report =
     lit ''stopped status='' @ status_name status @
     counts_text
       [(lit ''raw_messages'', rc_messages n), (lit ''raw_keyboard_packets'', rc_keyboard_packets n),
        (lit ''mapping_attempts'', rc_mapping_attempts n), (lit ''mapping_success'', rc_mapping_success n),
        (lit ''mapping_rejected'', rc_mapping_rejected n), (lit ''bridge_enqueued'', rc_bridge_enqueued n),
        (lit ''bridge_full_drops'', rc_bridge_full_drops n), (lit ''received'', ar_received report),
        (lit ''processed'', ar_processed report)]"

definition run_observe_raw ::
  "raw_env \<Rightarrow> raw_statics \<Rightarrow> ((ustr + unit) \<times> ustr list \<times> raw_statics) option" where
  "run_observe_raw env sx =
     (let sx = sx\<lparr>rs_observer := (rs_observer sx)\<lparr>ro_counters := raw_counters_zero\<rparr>, rs_thread_id := re_thread_id env\<rparr> in
      if \<not> re_handler_ok env then Some (Inl (lit ''failed to install raw stop handler''), [], sx)
      else (let sx = sx\<lparr>rs_handler := True\<rparr> in
        case raw_source_new (re_window_ok env) (re_lock_ok env) (rs_observer sx) of
          (Inl _, ob) \<Rightarrow>
            Some (Inl (lit ''failed to install Raw Input observer''), [],
                  sx\<lparr>rs_observer := ob, rs_thread_id := 0, rs_handler := False\<rparr>)
        | (Inr _, ob) \<Rightarrow>
           (case queue_default of
              None \<Rightarrow> None
            | Some queue \<Rightarrow>
               (case run raw_source raw_processor (service_new queue) (Some (ob, re_turns env)) [] of
                  None \<Rightarrow> None
                | Some (_, _, None, _) \<Rightarrow> None
                | Some (report, service, Some (ob', _), out) \<Rightarrow>
                    Some (if os_status service = OS_Failed then Inl (lit ''Raw Input observer failed'') else Inr (),
                          raw_banner @ out @ [raw_stopped_line (os_status service) (ro_counters ob') report],
                          sx\<lparr>rs_observer := raw_source_drop (re_final_lock_ok env) ob', rs_thread_id := 0,
                             rs_handler := False\<rparr>)))))"


subsection \<open>Sources that run in lockstep\<close>

text \<open>Two events of one shape differ in which key of a category it was.\<close>

definition same_shape :: "observed_input_event \<Rightarrow> observed_input_event \<Rightarrow> bool" where
  "same_shape e e' \<longleftrightarrow> key_category (oe_key e) = key_category (oe_key e') \<and> oe_kind e = oe_kind e' \<and>
     oe_modifiers e = oe_modifiers e' \<and> oe_injection_origin e = oe_injection_origin e' \<and>
     oe_sequence e = oe_sequence e'"

lemma same_shape_line: "same_shape e e' \<Longrightarrow> event_line e = event_line e'"
  by (simp add: same_shape_def event_line_def event_number_def)

locale lockstep_sources =
  fixes src :: "'s event_source"
    and alike :: "'s \<Rightarrow> 's \<Rightarrow> bool"
    and left :: "'s \<Rightarrow> nat"
  assumes lockstep: "alike s t \<Longrightarrow> rel_prod (rel_sum (=) (rel_option same_shape)) alike (src s) (src t)"
    and progress: "src s = (Inr (Some e), s') \<Longrightarrow> left s' < left s"
begin

lemma yields_alike:
  "alike s t \<Longrightarrow> \<exists>es es' failure s' t'. source_yields src s es failure s' \<and> source_yields src t es' failure t' \<and>
     list_all2 same_shape es es' \<and> alike s' t'"
proof (induction "left s" arbitrary: s t rule: less_induct)
  case less
  obtain r r' s' t' where st: "src s = (r, s')" "src t = (r', t')" "alike s' t'"
    and r: "rel_sum (=) (rel_option same_shape) r r'"
    using lockstep [OF less.prems] by (metis rel_prod_inject surj_pair)
  show ?case
  proof (cases "\<exists>e. r = Inr (Some e)")
    case True
    then obtain e e' where e: "r = Inr (Some e)" "r' = Inr (Some e')" "same_shape e e'"
      using r by (auto elim!: rel_sum.cases option.rel_cases)
    obtain es es' failure s'' t'' where y: "source_yields src s' es failure s''" "source_yields src t' es' failure t''"
      "list_all2 same_shape es es'" "alike s'' t''"
      using less.hyps [OF _ st(3)] progress st(1) e(1) by blast
    show ?thesis
      by (rule exI [of _ "e # es"], rule exI [of _ "e' # es'"], rule exI [of _ failure], rule exI [of _ s''],
          rule exI [of _ t'']) (use st e y in simp)
  next
    case False
    obtain failure where "r = (case failure of None \<Rightarrow> Inr None | Some e \<Rightarrow> Inl e)"
      using False by (metis not_Some_eq old.sum.exhaust option.case(1,2))
    moreover have "r' = r" using r False by (auto elim!: rel_sum.cases option.rel_cases)
    ultimately show ?thesis using st
      by (intro exI [of _ "[]"] exI [of _ failure] exI [of _ s'] exI [of _ t']) simp
  qed
qed

lemma run_alike:
  assumes "alike s t" and "idle service" and "\<not> os_stop_requested service" and "os_status service = OS_Starting"
    and shapes: "\<And>es es'. list_all2 same_shape es es' \<Longrightarrow>
      \<exists>cs p'. process_all P p es = Some (cs, p') \<and> process_all P p es' = Some (cs, p')"
  shows "\<exists>report service' p' s' t'. run src P service s p = Some (report, service', s', p') \<and>
    run src P service t p = Some (report, service', t', p') \<and> alike s' t'"
proof -
  obtain es es' failure s' t' where y: "source_yields src s es failure s'" "source_yields src t es' failure t'"
    "list_all2 same_shape es es'" "alike s' t'"
    using yields_alike [OF assms(1)] by blast
  obtain cs p' where c: "process_all P p es = Some (cs, p')" "process_all P p es' = Some (cs, p')"
    using shapes [OF y(3)] by blast
  have i: "idle (service\<lparr>os_status := OS_Running\<rparr>)" "\<not> os_stop_requested (service\<lparr>os_status := OS_Running\<rparr>)"
    using assms(2,3) by (simp_all add: idle_def)
  note l = list_all2_lengthD [OF y(3)]
  from observe_loop_finite [OF y(1) i c(1), unfolded l] observe_loop_finite [OF y(2) i c(2)] assms(4) y(4)
  show ?thesis by (simp add: run_def)
qed

end

text \<open>
  Two virtual keys are alike when they are the same or of one category, other than a modifier; two
  threads are alike when they differ in alike keys only.
\<close>

definition vk_category :: "u32 \<Rightarrow> ustr" where
  "vk_category vk = (case map_key vk of None \<Rightarrow> [] | Some k \<Rightarrow> key_category k)"

definition vk_alike :: "u32 \<Rightarrow> u32 \<Rightarrow> bool" where
  "vk_alike vk vk' \<longleftrightarrow> vk = vk' \<or> vk_category vk = vk_category vk' \<and> vk_category vk \<noteq> lit ''modifier''"

definition native_alike :: "native_keyboard_event \<Rightarrow> native_keyboard_event \<Rightarrow> bool" where
  "native_alike a b \<longleftrightarrow> (\<exists>vk. vk_alike (nk_virtual_key a) vk \<and> b = a\<lparr>nk_virtual_key := vk\<rparr>)"

definition call_alike :: "hook_call \<Rightarrow> hook_call \<Rightarrow> bool" where
  "call_alike c d \<longleftrightarrow> (\<exists>vk. vk_alike (ca_virtual_key c) vk \<and> d = c\<lparr>ca_virtual_key := vk\<rparr>)"

definition turn_alike :: "source_turn \<Rightarrow> source_turn \<Rightarrow> bool" where
  "turn_alike a b \<longleftrightarrow> st_lock_free a = st_lock_free b \<and> list_all2 call_alike (st_calls a) (st_calls b) \<and>
     st_message a = st_message b"

definition bridge_alike :: "bridge_state \<Rightarrow> bridge_state \<Rightarrow> bool" where
  "bridge_alike b b' \<longleftrightarrow> list_all2 native_alike (br_events b) (br_events b') \<and> br_sequence b' = br_sequence b \<and>
     br_dropped b' = br_dropped b \<and> br_active b' = br_active b"

definition hook_alike :: "hook \<Rightarrow> hook \<Rightarrow> bool" where
  "hook_alike hk hk' \<longleftrightarrow> bridge_alike (hk_bridge hk) (hk_bridge hk') \<and> hk_counters hk' = hk_counters hk \<and>
     hk_source hk' = hk_source hk"

definition thread_alike :: "hook_thread \<Rightarrow> hook_thread \<Rightarrow> bool" where
  "thread_alike = rel_option (rel_prod hook_alike (list_all2 turn_alike))"

lemma modifier_vk:
  "vk \<in> {0x10, 0xa0, 0xa1, 0x11, 0xa2, 0xa3, 0x12, 0xa4, 0xa5, 0x5b, 0x5c} \<Longrightarrow> vk_category vk = lit ''modifier''"
  by (elim insertE emptyE) (simp_all add: vk_category_def map_key_def key_category_def key_query_defs)

lemma tracker_ignores:
  assumes "vk_category vk \<noteq> lit ''modifier''"
  shows "tracker_observe t vk kind = t"
proof -
  have "vk \<notin> {0x10, 0xa0, 0xa1, 0x11, 0xa2, 0xa3, 0x12, 0xa4, 0xa5, 0x5b, 0x5c}" using modifier_vk assms by blast
  then show ?thesis by (simp add: tracker_observe_def)
qed

lemma vk_alike_tracker: "vk_alike vk vk' \<Longrightarrow> tracker_observe t vk' kind = tracker_observe t vk kind"
  unfolding vk_alike_def using tracker_ignores [of vk t kind] tracker_ignores [of vk' t kind] by auto

lemma vk_alike_key:
  "vk_alike vk vk' \<Longrightarrow> map_key vk = Some k \<Longrightarrow> map_key vk' = Some k' \<Longrightarrow> key_category k = key_category k'"
  by (auto simp: vk_alike_def vk_category_def)

lemma map_native_alike:
  assumes "native_alike a b"
  shows "map_native_event a t = None \<and> map_native_event b t = None \<or>
    (\<exists>e e' t'. map_native_event a t = Some (e, t') \<and> map_native_event b t = Some (e', t') \<and> same_shape e e')"
proof -
  obtain vk where vk: "vk_alike (nk_virtual_key a) vk" "b = a\<lparr>nk_virtual_key := vk\<rparr>"
    using assms by (auto simp: native_alike_def)
  obtain k k' where k: "map_key (nk_virtual_key a) = Some k" "map_key vk = Some k'"
    using map_key_total by blast
  show ?thesis
    using k vk_alike_key [OF vk(1) k] vk_alike_tracker [OF vk(1)]
    by (auto simp: vk(2) map_native_event_def same_shape_def Let_def split: option.split)
qed

lemma capture_alike:
  assumes "bridge_alike b b'" and "vk_alike vk vk'"
  shows "\<exists>c c' n' w. capture_event m vk f b n = (c, n', w) \<and> capture_event m vk' f b' n = (c', n', w) \<and>
    bridge_alike c c'"
proof -
  have "native_alike \<lparr>nk_message = m, nk_virtual_key = vk, nk_flags = f, nk_sequence = q\<rparr>
      \<lparr>nk_message = m, nk_virtual_key = vk', nk_flags = f, nk_sequence = q\<rparr>" for q
    using assms(2) by (auto simp: native_alike_def)
  moreover have "length (br_events b') = length (br_events b)"
    using assms(1) by (auto simp: bridge_alike_def dest: list_all2_lengthD)
  ultimately show ?thesis
    using assms(1) by (auto simp: bridge_alike_def capture_event_def bridge_push_def Let_def list_all2_appendI)
qed

lemma callback_alike:
  assumes "hook_alike hk hk'" and "call_alike c d"
  shows "hook_alike (fst (low_level_keyboard_proc c hk)) (fst (low_level_keyboard_proc d hk'))"
proof -
  obtain vk where v: "vk_alike (ca_virtual_key c) vk" "d = c\<lparr>ca_virtual_key := vk\<rparr>"
    using assms(2) by (auto simp: call_alike_def)
  have h: "bridge_alike (hk_bridge hk) (hk_bridge hk')" "hk_counters hk' = hk_counters hk"
    "hk_source hk' = hk_source hk" "br_active (hk_bridge hk') = br_active (hk_bridge hk)"
    using assms(1) by (simp_all add: hook_alike_def bridge_alike_def)
  show ?thesis
  proof (cases "ca_code c \<ge> 0 \<and> ca_has_data c \<and> ca_lock_free c \<and> br_active (hk_bridge hk) \<and> ca_message c \<noteq> None")
    case True
    then obtain m where m: "ca_message c = Some m" by auto
    let ?n = "count_message m ((hk_counters hk)\<lparr>hc_callback_invocations := hc_callback_invocations (hk_counters hk) + 1\<rparr>)"
    obtain b b' n w where "capture_event m (ca_virtual_key c) (ca_flags c) (hk_bridge hk) ?n = (b, n, w)"
      "capture_event m vk (ca_flags c) (hk_bridge hk') ?n = (b', n, w)" "bridge_alike b b'"
      using capture_alike [OF h(1) v(1)] by blast
    with True m h show ?thesis by (simp add: v(2) low_level_keyboard_proc_def hook_alike_def Let_def)
  next
    case False
    with h show ?thesis
      by (cases "ca_message c") (auto simp: v(2) low_level_keyboard_proc_def hook_alike_def Let_def)
  qed
qed

lemma calls_alike:
  "list_all2 call_alike cs ds \<Longrightarrow> hook_alike hk hk' \<Longrightarrow> hook_alike (run_calls cs hk) (run_calls ds hk')"
proof (induction cs ds arbitrary: hk hk' rule: list_all2_induct)
  case (Cons c cs d ds)
  from Cons.IH [OF callback_alike [OF Cons.prems Cons.hyps(1)]] show ?case by (simp add: run_calls_def)
qed (simp add: run_calls_def)

lemma hook_alike_source:
  "hook_alike hk hk' \<Longrightarrow> hk_source hk' = hk_source hk \<and>
     hook_alike (hk\<lparr>hk_source := x\<rparr>) (hk'\<lparr>hk_source := x\<rparr>) \<and>
     hook_alike (stop_accepting_events hk) (stop_accepting_events hk')"
  by (auto simp: hook_alike_def bridge_alike_def stop_accepting_events_def)

lemma mapped_alike:
  assumes "hook_alike hk hk'"
  shows "\<exists>r r' hk1 hk1'. next_mapped_event free hk = (r, hk1) \<and> next_mapped_event free hk' = (r', hk1') \<and>
    hook_alike hk1 hk1' \<and> rel_option same_shape r r'"
proof (cases "free \<and> br_events (hk_bridge hk) \<noteq> []")
  case True
  then obtain a as b bs where b: "br_events (hk_bridge hk) = a # as" "br_events (hk_bridge hk') = b # bs"
    "native_alike a b" "list_all2 native_alike as bs"
    using assms by (cases "br_events (hk_bridge hk)") (auto simp: hook_alike_def bridge_alike_def list_all2_Cons1)
  from map_native_alike [OF b(3), of "ws_tracker (hk_source hk)"] show ?thesis
    using b True assms by (auto simp: next_mapped_event_def hook_alike_def bridge_alike_def Let_def)
next
  case False
  with assms show ?thesis
    by (cases free) (auto simp: next_mapped_event_def hook_alike_def bridge_alike_def Let_def)
qed

definition answer_alike where
  "answer_alike thread turns = rel_option (rel_prod (rel_sum (=) (rel_option same_shape)) (rel_prod thread (list_all2 turns)))"

lemma stopped_alike:
  assumes "hook_alike k k'"
  shows "hook_alike (stop_accepting_events (k\<lparr>hk_source := x\<rparr>)) (stop_accepting_events (k'\<lparr>hk_source := x\<rparr>))"
    and "hook_alike ((stop_accepting_events k)\<lparr>hk_source := x\<rparr>) ((stop_accepting_events k')\<lparr>hk_source := x\<rparr>)"
  using hook_alike_source hook_alike_source [OF assms] by blast+

lemma next_event_loop_alike:
  "list_all2 turn_alike ts ts' \<Longrightarrow> hook_alike hk hk' \<Longrightarrow>
     answer_alike hook_alike turn_alike (next_event_loop ts hk) (next_event_loop ts' hk')"
proof (induction ts ts' arbitrary: hk hk' rule: list_all2_induct)
  case Nil
  then show ?case by (simp add: answer_alike_def)
next
  case (Cons t ts t' ts')
  obtain r r' k k' where m: "next_mapped_event (st_lock_free t) hk = (r, k)"
    "next_mapped_event (st_lock_free t) hk' = (r', k')" "hook_alike k k'" "rel_option same_shape r r'"
    using mapped_alike [OF Cons.prems] by metis
  have t: "st_lock_free t' = st_lock_free t" "st_message t' = st_message t" "list_all2 call_alike (st_calls t) (st_calls t')"
    using Cons.hyps(1) by (simp_all add: turn_alike_def)
  show ?case
  proof (cases r)
    case (Some e)
    with m t Cons.hyps(2) show ?thesis by (auto simp: answer_alike_def option_rel_Some1)
  next
    case None
    then have r': "r' = None" using m(4) by simp
    note src = hook_alike_source [OF m(3)]
    note c = calls_alike [OF t(3) m(3)]
    note csrc = hook_alike_source [OF c]
    show ?thesis
    proof (cases "ws_shutdown_requested (hk_source k)")
      case True
      with m(1,2) t None r' src Cons.hyps(2) show ?thesis by (simp add: answer_alike_def)
    next
      case False
      show ?thesis
      proof (cases "st_message t")
        case TM_Failed
        with stopped_alike(1) [OF c] m(1,2) t None r' src csrc False Cons.hyps(2) show ?thesis by (simp add: answer_alike_def Let_def)
      next
        case TM_Quit
        from Cons.IH [OF stopped_alike(2) [OF c]] show ?thesis using TM_Quit m(1,2) t None r' src csrc False
          by (simp add: Let_def)
      next
        case TM_Other
        from Cons.IH [OF c] show ?thesis using TM_Other m(1,2) t None r' src False by (simp add: Let_def)
      qed
    qed
  qed
qed

lemma next_event_loop_shorter: "next_event_loop ts hk = Some (r, hk', later) \<Longrightarrow> length later < length ts"
proof (induction ts hk rule: next_event_loop.induct)
  case (2 turn turns hk)
  obtain x k where x: "next_mapped_event (st_lock_free turn) hk = (x, k)" by (rule prod.exhaust)
  with 2 show ?case
    by (cases x; cases "ws_shutdown_requested (hk_source k)"; cases "st_message turn")
      (fastforce simp: Let_def less_Suc_eq)+
qed simp

definition thread_left :: "('h \<times> 'm list) option \<Rightarrow> nat" where
  "thread_left t = (case t of None \<Rightarrow> 0 | Some (_, turns) \<Rightarrow> length turns)"

interpretation hook_threads: lockstep_sources hook_source thread_alike thread_left
proof unfold_locales
  fix s t :: hook_thread assume a: "thread_alike s t"
  show "rel_prod (rel_sum (=) (rel_option same_shape)) thread_alike (hook_source s) (hook_source t)"
  proof (cases s)
    case None
    with a show ?thesis by (simp add: thread_alike_def hook_source_def)
  next
    case (Some x)
    obtain hk ts hk' ts' where st: "s = Some (hk, ts)" "t = Some (hk', ts')" "hook_alike hk hk'" "list_all2 turn_alike ts ts'"
      using a Some by (cases x) (auto simp: thread_alike_def option_rel_Some1)
    have w: "ws_stopped (hk_source hk') = ws_stopped (hk_source hk)" using st(3) by (simp add: hook_alike_def)
    have "answer_alike hook_alike turn_alike (next_event ts hk) (next_event ts' hk')"
      using next_event_loop_alike [OF st(4,3)] st(3,4) by (simp add: next_event_def w answer_alike_def)
    then show ?thesis
      by (auto simp: st(1,2) hook_source_def thread_alike_def answer_alike_def elim!: option.rel_cases)
  qed
next
  fix s e and s' :: hook_thread assume "hook_source s = (Inr (Some e), s')"
  then show "thread_left s' < thread_left s"
    using next_event_loop_shorter
    by (auto simp: hook_source_def thread_left_def next_event_def split: option.splits if_splits)
qed

subsection \<open>What the console shows\<close>

lemma printed:
  "process_all diagnostic_processor out es = Some (replicate (length es) PC_Observed, out @ map event_line es)"
  "process_all raw_processor out es = Some (replicate (length es) PC_Observed, out @ map event_line es)"
  by (induction es arbitrary: out) (simp_all add: diagnostic_processor_def raw_processor_def)

lemma lines_alike: "list_all2 same_shape es es' \<Longrightarrow> length es = length es' \<and> map event_line es = map event_line es'"
  by (induction rule: list_all2_induct) (simp_all add: same_shape_line)

lemma fresh_service:
  obtains queue where "queue_default = Some queue" "idle (service_new queue)"
    "\<not> os_stop_requested (service_new queue)" "os_status (service_new queue) = OS_Starting"
proof -
  obtain queue where "queue_default = Some queue" "queue_inv queue" using queue_default_exists by blast
  then show thesis
    by (intro that [of queue])
      (auto simp: idle_def service_new_def queue_default_def queue_new_def split: if_splits)
qed

definition env_alike :: "observe_env \<Rightarrow> observe_env \<Rightarrow> bool" where
  "env_alike env env' \<longleftrightarrow>
     (\<exists>turns. list_all2 turn_alike (ov_turns env) turns \<and> env' = env\<lparr>ov_turns := turns\<rparr>)"

lemma source_new_bridge: "source_new lo mo ho hk = (Inr u, hk') \<Longrightarrow> bridge_alike (hk_bridge hk') (hk_bridge hk')"
  by (auto simp: source_new_def bridge_alike_def bridge_new_def Let_def split: if_splits)

lemma session_alike:
  assumes "env_alike env env'"
  shows "rel_option (rel_prod (=) (\<lambda>_ _. True))
    (observe_session diagnostic_processor [] env sx) (observe_session diagnostic_processor [] env' sx)"
proof -
  obtain turns where t: "list_all2 turn_alike (ov_turns env) turns" "env' = env\<lparr>ov_turns := turns\<rparr>"
    using assms by (auto simp: env_alike_def)
  obtain queue where q: "queue_default = Some queue" "idle (service_new queue)"
    "\<not> os_stop_requested (service_new queue)" "os_status (service_new queue) = OS_Starting"
    by (rule fresh_service)
  show ?thesis
  proof (cases "ov_handler_ok env")
    case True
    obtain r hk where n: "source_new (ov_lock_ok env) (ov_module_ok env) (ov_hook_ok env) (vs_hook sx) = (r, hk)"
      by (rule prod.exhaust)
    show ?thesis
    proof (cases r)
      case (Inr u)
      have "thread_alike (Some (hk, ov_turns env)) (Some (hk, turns))"
        using t(1) source_new_bridge [OF n [unfolded Inr]] by (simp add: thread_alike_def hook_alike_def)
      from hook_threads.run_alike [OF this q(2-4), of diagnostic_processor "[]"] lines_alike
      obtain report service p' s' t' where r:
        "run hook_source diagnostic_processor (service_new queue) (Some (hk, ov_turns env)) [] = Some (report, service, s', p')"
        "run hook_source diagnostic_processor (service_new queue) (Some (hk, turns)) [] = Some (report, service, t', p')"
        "thread_alike s' t'"
        by (force simp: printed)
      have "s' = None \<and> t' = None \<or>
          (\<exists>k ts k' ts'. s' = Some (k, ts) \<and> t' = Some (k', ts') \<and> hook_alike k k')"
        using r(3) by (auto simp: thread_alike_def elim!: option.rel_cases)
      then show ?thesis
      proof (elim disjE exE conjE)
        fix k ts k' ts' assume k: "s' = Some (k, ts)" "t' = Some (k', ts')" "hook_alike k k'"
        then have "hk_counters k' = hk_counters k" "dropped_events lock_ok k' = dropped_events lock_ok k" for lock_ok
          by (simp_all add: hook_alike_def bridge_alike_def dropped_events_def)
        with True n Inr k show ?thesis by (simp add: t(2) observe_session_def Let_def q(1) r(1,2))
      qed (use True n Inr in \<open>simp add: t(2) observe_session_def Let_def q(1) r(1,2)\<close>)
    qed (use True n in \<open>simp add: t(2) observe_session_def Let_def\<close>)
  qed (simp add: t(2) observe_session_def Let_def)
qed

definition printed_by :: "((ustr + unit) \<times> ustr list \<times> 's) option \<Rightarrow> ((ustr + unit) \<times> ustr list) option" where
  "printed_by = map_option (\<lambda>(r, out, _). (r, out))"

lemma observe_alike:
  "env_alike env env' \<Longrightarrow> printed_by (run_observe env sx) = printed_by (run_observe env' sx)"
  using session_alike [of env env' sx]
  by (auto simp: run_observe_def printed_by_def split: option.split sum.split elim!: option.rel_cases)

subsection \<open>The same of the Raw Input observer\<close>

definition packet_alike :: "window_message \<Rightarrow> window_message \<Rightarrow> bool" where
  "packet_alike a b \<longleftrightarrow>
     (\<exists>vk. vk_alike (ucast (wm_virtual_key a)) (ucast vk) \<and> b = a\<lparr>wm_virtual_key := vk\<rparr>)"

fun message_alike :: "raw_thread_message \<Rightarrow> raw_thread_message \<Rightarrow> bool" where
  "message_alike (RM_Dispatched a) (RM_Dispatched b) = packet_alike a b"
| "message_alike a b = (a = b)"

definition raw_turn_alike :: "bool \<times> raw_thread_message \<Rightarrow> bool \<times> raw_thread_message \<Rightarrow> bool" where
  "raw_turn_alike = rel_prod (=) message_alike"

definition raw_event_alike :: "raw_keyboard_event \<Rightarrow> raw_keyboard_event \<Rightarrow> bool" where
  "raw_event_alike a b \<longleftrightarrow> (\<exists>vk. vk_alike (rk_virtual_key a) vk \<and> b = a\<lparr>rk_virtual_key := vk\<rparr>)"

definition raw_alike :: "raw_observer \<Rightarrow> raw_observer \<Rightarrow> bool" where
  "raw_alike ob ob' \<longleftrightarrow> list_all2 raw_event_alike (rb_events (ro_bridge ob)) (rb_events (ro_bridge ob')) \<and>
     rb_sequence (ro_bridge ob') = rb_sequence (ro_bridge ob) \<and> rb_active (ro_bridge ob') = rb_active (ro_bridge ob) \<and>
     ro_counters ob' = ro_counters ob \<and> ro_source ob' = ro_source ob"

definition raw_thread_alike :: "raw_thread \<Rightarrow> raw_thread \<Rightarrow> bool" where
  "raw_thread_alike = rel_option (rel_prod raw_alike (list_all2 raw_turn_alike))"

lemma map_raw_alike:
  assumes "raw_event_alike a b"
  shows "map_raw_event a t = None \<and> map_raw_event b t = None \<or>
    (\<exists>e e' t'. map_raw_event a t = Some (e, t') \<and> map_raw_event b t = Some (e', t') \<and> same_shape e e')"
  unfolding map_raw_event_def using assms
  by (intro map_native_alike) (auto simp: raw_event_alike_def native_alike_def)

lemma window_alike:
  assumes "raw_alike ob ob'" and "packet_alike m m'"
  shows "raw_alike (raw_window_proc m ob) (raw_window_proc m' ob')"
proof -
  obtain vk where v: "vk_alike (ucast (wm_virtual_key m)) (ucast vk)" "m' = m\<lparr>wm_virtual_key := vk\<rparr>"
    using assms(2) by (auto simp: packet_alike_def)
  have "raw_event_alike \<lparr>rk_virtual_key = ucast (wm_virtual_key m), rk_flags = f, rk_message = k, rk_sequence = q\<rparr>
      \<lparr>rk_virtual_key = ucast vk, rk_flags = f, rk_message = k, rk_sequence = q\<rparr>" for f k q
    using v(1) by (auto simp: raw_event_alike_def)
  moreover have "length (rb_events (ro_bridge ob')) = length (rb_events (ro_bridge ob))"
    using assms(1) by (auto simp: raw_alike_def dest: list_all2_lengthD)
  ultimately show ?thesis
    using assms(1)
    by (auto simp: v(2) raw_alike_def raw_window_proc_def raw_capture_def raw_push_def Let_def list_all2_appendI)
qed

lemma raw_alike_source:
  "raw_alike ob ob' \<Longrightarrow> ro_source ob' = ro_source ob \<and>
     raw_alike (ob\<lparr>ro_source := x\<rparr>) (ob'\<lparr>ro_source := x\<rparr>) \<and>
     raw_alike (raw_stop_accepting_events ob) (raw_stop_accepting_events ob')"
  by (auto simp: raw_alike_def raw_stop_accepting_events_def)

lemma raw_mapped_alike:
  assumes "raw_alike ob ob'"
  shows "\<exists>r r' ob1 ob1'. raw_next_mapped_event free ob = (r, ob1) \<and> raw_next_mapped_event free ob' = (r', ob1') \<and>
    raw_alike ob1 ob1' \<and> rel_option same_shape r r'"
proof (cases "free \<and> rb_events (ro_bridge ob) \<noteq> []")
  case True
  then obtain a as b bs where b: "rb_events (ro_bridge ob) = a # as" "rb_events (ro_bridge ob') = b # bs"
    "raw_event_alike a b" "list_all2 raw_event_alike as bs"
    using assms by (cases "rb_events (ro_bridge ob)") (auto simp: raw_alike_def list_all2_Cons1)
  from map_raw_alike [OF b(3), of "ri_tracker (ro_source ob)"] show ?thesis
    using b True assms by (auto simp: raw_next_mapped_event_def raw_alike_def Let_def)
next
  case False
  with assms show ?thesis
    by (cases free) (auto simp: raw_next_mapped_event_def raw_alike_def Let_def)
qed

lemma raw_stopped_alike:
  assumes "raw_alike k k'"
  shows "raw_alike (raw_stop_accepting_events (k\<lparr>ro_source := x\<rparr>)) (raw_stop_accepting_events (k'\<lparr>ro_source := x\<rparr>))"
    and "raw_alike ((raw_stop_accepting_events k)\<lparr>ro_source := x\<rparr>) ((raw_stop_accepting_events k')\<lparr>ro_source := x\<rparr>)"
  using raw_alike_source raw_alike_source [OF assms] by blast+

lemma raw_next_event_loop_alike:
  "list_all2 raw_turn_alike ts ts' \<Longrightarrow> raw_alike ob ob' \<Longrightarrow>
     answer_alike raw_alike raw_turn_alike (raw_next_event_loop ts ob) (raw_next_event_loop ts' ob')"
proof (induction ts ts' arbitrary: ob ob' rule: list_all2_induct)
  case Nil
  then show ?case by (simp add: answer_alike_def)
next
  case (Cons t ts t' ts')
  obtain free m m' where t: "t = (free, m)" "t' = (free, m')" "message_alike m m'"
    using Cons.hyps(1) by (cases t; cases t') (auto simp: raw_turn_alike_def)
  obtain r r' k k' where n: "raw_next_mapped_event free ob = (r, k)"
    "raw_next_mapped_event free ob' = (r', k')" "raw_alike k k'" "rel_option same_shape r r'"
    using raw_mapped_alike [OF Cons.prems] by metis
  note src = raw_alike_source [OF n(3)]
  show ?case
  proof (cases r)
    case (Some e)
    with n t Cons.hyps(2) show ?thesis by (auto simp: answer_alike_def option_rel_Some1)
  next
    case None
    then have r': "r' = None" using n(4) by simp
    show ?thesis
    proof (cases "ri_shutdown_requested (ro_source k)")
      case True
      with n(1,2) t None r' src Cons.hyps(2) show ?thesis by (simp add: answer_alike_def)
    next
      case False
      show ?thesis
      proof (cases m)
        case RM_Failed
        then have "m' = RM_Failed" using t(3) by (cases m') auto
        with raw_stopped_alike(1) [OF n(3)] show ?thesis using RM_Failed n(1,2) t None r' src False Cons.hyps(2) by (simp add: answer_alike_def)
      next
        case RM_Quit
        then have "m' = RM_Quit" using t(3) by (cases m') auto
        with Cons.IH [OF raw_stopped_alike(2) [OF n(3)]] show ?thesis using RM_Quit n(1,2) t None r' src False by simp
      next
        case (RM_Dispatched a)
        then obtain b where b: "m' = RM_Dispatched b" "packet_alike a b" using t(3) by (cases m') auto
        from Cons.IH [OF window_alike [OF n(3) b(2)]] show ?thesis
          using RM_Dispatched b n(1,2) t None r' src False by simp
      qed
    qed
  qed
qed

lemma raw_next_event_loop_shorter: "raw_next_event_loop ts ob = Some (r, ob', later) \<Longrightarrow> length later < length ts"
proof (induction ts ob rule: raw_next_event_loop.induct)
  case (2 free message turns ob)
  obtain x k where x: "raw_next_mapped_event free ob = (x, k)" by (rule prod.exhaust)
  with 2 show ?case
    by (cases x; cases "ri_shutdown_requested (ro_source k)"; cases message) (fastforce simp: less_Suc_eq)+
qed simp

interpretation raw_threads: lockstep_sources raw_source raw_thread_alike thread_left
proof unfold_locales
  fix s t :: raw_thread assume a: "raw_thread_alike s t"
  show "rel_prod (rel_sum (=) (rel_option same_shape)) raw_thread_alike (raw_source s) (raw_source t)"
  proof (cases s)
    case None
    with a show ?thesis by (simp add: raw_thread_alike_def raw_source_def)
  next
    case (Some x)
    obtain ob ts ob' ts' where st: "s = Some (ob, ts)" "t = Some (ob', ts')" "raw_alike ob ob'" "list_all2 raw_turn_alike ts ts'"
      using a Some by (cases x) (auto simp: raw_thread_alike_def option_rel_Some1)
    have w: "ri_stopped (ro_source ob') = ri_stopped (ro_source ob)" using st(3) by (simp add: raw_alike_def)
    have "answer_alike raw_alike raw_turn_alike (raw_next_event ts ob) (raw_next_event ts' ob')"
      using raw_next_event_loop_alike [OF st(4,3)] st(3,4) by (simp add: raw_next_event_def w answer_alike_def)
    then show ?thesis
      by (auto simp: st(1,2) raw_source_def raw_thread_alike_def answer_alike_def elim!: option.rel_cases)
  qed
next
  fix s e and s' :: raw_thread assume "raw_source s = (Inr (Some e), s')"
  then show "thread_left s' < thread_left s"
    using raw_next_event_loop_shorter
    by (auto simp: raw_source_def thread_left_def raw_next_event_def split: option.splits if_splits)
qed

definition raw_env_alike :: "raw_env \<Rightarrow> raw_env \<Rightarrow> bool" where
  "raw_env_alike env env' \<longleftrightarrow>
     (\<exists>turns. list_all2 raw_turn_alike (re_turns env) turns \<and> env' = env\<lparr>re_turns := turns\<rparr>)"

text \<open>A source that could not take the lock keeps what the bridge held, which is the same in both runs.\<close>

lemma raw_alike_refl: "raw_alike ob ob"
proof -
  have "raw_event_alike e e" for e
    unfolding raw_event_alike_def vk_alike_def by (rule exI [of _ "rk_virtual_key e"]) simp
  then show ?thesis by (simp add: raw_alike_def list_all2_refl)
qed

lemma raw_observe_alike:
  assumes "raw_env_alike env env'"
  shows "printed_by (run_observe_raw env sx) = printed_by (run_observe_raw env' sx)"
proof -
  obtain turns where t: "list_all2 raw_turn_alike (re_turns env) turns" "env' = env\<lparr>re_turns := turns\<rparr>"
    using assms by (auto simp: raw_env_alike_def)
  obtain queue where q: "queue_default = Some queue" "idle (service_new queue)"
    "\<not> os_stop_requested (service_new queue)" "os_status (service_new queue) = OS_Starting"
    by (rule fresh_service)
  show ?thesis
  proof (cases "re_handler_ok env")
    case True
    obtain r ob where n: "raw_source_new (re_window_ok env) (re_lock_ok env)
        ((rs_observer sx)\<lparr>ro_counters := raw_counters_zero\<rparr>) = (r, ob)"
      by (rule prod.exhaust)
    show ?thesis
    proof (cases r)
      case (Inr u)
      have "raw_thread_alike (Some (ob, re_turns env)) (Some (ob, turns))"
        using t(1) by (simp add: raw_thread_alike_def raw_alike_refl)
      from raw_threads.run_alike [OF this q(2-4), of raw_processor "[]"] lines_alike
      obtain report service p' s' t' where r:
        "run raw_source raw_processor (service_new queue) (Some (ob, re_turns env)) [] = Some (report, service, s', p')"
        "run raw_source raw_processor (service_new queue) (Some (ob, turns)) [] = Some (report, service, t', p')"
        "raw_thread_alike s' t'"
        by (force simp: printed)
      have "s' = None \<and> t' = None \<or>
          (\<exists>k ts k' ts'. s' = Some (k, ts) \<and> t' = Some (k', ts') \<and> ro_counters k' = ro_counters k)"
        using r(3) by (auto simp: raw_thread_alike_def raw_alike_def elim!: option.rel_cases)
      then show ?thesis
        using True n Inr
        by (elim disjE exE conjE) (simp_all add: t(2) run_observe_raw_def printed_by_def Let_def q(1) r(1,2))
    qed (use True n in \<open>simp add: t(2) run_observe_raw_def printed_by_def Let_def\<close>)
  qed (simp add: t(2) run_observe_raw_def printed_by_def Let_def)
qed

text \<open>
  C37. The observe commands print categories only.  Two runs in the same environment, over the same
  messages in the same order, in which each key of one is replaced by any key of its category in the
  other (a letter by a letter, a digit by a digit, a punctuation mark by a punctuation mark, any other
  key that is not a modifier by such a key) end with the same result and print the same lines, from
  the banner to the counters of the last line; in the hook observer and in the Raw Input observer.
\<close>

theorem console_shows_categories:
  assumes "env_alike env env'" and "raw_env_alike raw raw'"
  shows "printed_by (run_observe env sx) = printed_by (run_observe env' sx) \<and>
    printed_by (run_observe_raw raw ry) = printed_by (run_observe_raw raw' ry)"
  using observe_alike [OF assms(1)] raw_observe_alike [OF assms(2)] by simp

definition typed_turns :: "u32 \<Rightarrow> source_turn list" where
  "typed_turns vk =
     [\<lparr>st_lock_free = True, st_calls = [key_call 0x100 vk], st_message = TM_Other\<rparr>,
      \<lparr>st_lock_free = True, st_calls = [], st_message = TM_Other\<rparr>,
      \<lparr>st_lock_free = True, st_calls = [], st_message = TM_Quit\<rparr>,
      \<lparr>st_lock_free = True, st_calls = [], st_message = TM_Other\<rparr>]"

definition typed_env :: "u32 \<Rightarrow> observe_env" where
  "typed_env vk =
     \<lparr>ov_thread_id = 7, ov_handler_ok = True, ov_lock_ok = True, ov_module_ok = True, ov_hook_ok = True,
      ov_turns = typed_turns vk, ov_final_lock_ok = True\<rparr>"

definition packet :: "u16 \<Rightarrow> window_message" where
  "packet vk =
     \<lparr>wm_is_input = True, wm_size_ok = True, wm_is_keyboard = True, wm_virtual_key = vk, wm_flags = 0,
      wm_keyboard_message = 0x100, wm_lock_free = True\<rparr>"

definition raw_typed_env :: "u16 \<Rightarrow> raw_env" where
  "raw_typed_env vk =
     \<lparr>re_thread_id = 7, re_handler_ok = True, re_window_ok = True, re_lock_ok = True,
      re_turns = [(True, RM_Dispatched (packet vk)), (True, RM_Quit), (True, RM_Quit), (True, RM_Quit)],
      re_final_lock_ok = True\<rparr>"

definition idle_statics :: observe_statics where
  "idle_statics = \<lparr>vs_thread_id = 0, vs_handler = False, vs_hook = idle_hook\<rparr>"

definition idle_raw :: raw_statics where
  "idle_raw = \<lparr>rs_thread_id = 0, rs_handler = False, rs_observer = \<lparr>ro_bridge = raw_bridge_new,
     ro_counters = raw_counters_zero, ro_source = \<lparr>ri_tracker = tracker_default, ri_stopped = True, ri_shutdown_requested = False\<rparr>\<rparr>\<rparr>"

lemma console_shows_categories_witness:
  "printed_by (run_observe (typed_env 0x41) idle_statics) = printed_by (run_observe (typed_env 0x5a) idle_statics) \<and>
   printed_by (run_observe_raw (raw_typed_env 0x30) idle_raw) = printed_by (run_observe_raw (raw_typed_env 0x39) idle_raw)"
proof (rule console_shows_categories)
  have "vk_alike 0x41 0x5a"
    by (simp add: vk_alike_def vk_category_def map_key_def key_letter_def is_ascii_alphabetic_def is_ascii_uppercase_def
        is_ascii_lowercase_def key_category_def key_query_defs)
  then have "call_alike (key_call 0x100 0x41) (key_call 0x100 0x5a)" by (auto simp: call_alike_def key_call_def)
  then show "env_alike (typed_env 0x41) (typed_env 0x5a)"
    by (auto simp: env_alike_def typed_env_def typed_turns_def turn_alike_def)
  have "vk_alike 0x30 0x39"
    by (simp add: vk_alike_def vk_category_def map_key_def key_digit_def key_category_def key_query_defs)
  then have "packet_alike (packet 0x30) (packet 0x39)"
    unfolding packet_alike_def by (intro exI [of _ "0x39"]) (simp add: packet_def)
  then show "raw_env_alike (raw_typed_env 0x30) (raw_typed_env 0x39)"
    by (auto simp: raw_env_alike_def raw_typed_env_def raw_turn_alike_def)
qed

end
