(* ===== verification/Simulation.thy ===== *)
theory Simulation
  imports Service
begin

text \<open>
  A processor that does what another one does and keeps something besides, such as what it has printed:
  the contract of the first gives the contract of the second.
\<close>

locale simulated_processor = event_processor_contract P inv admissible
  for P :: "'p event_processor" and inv :: "'p \<Rightarrow> bool" and admissible :: "observed_input_event \<Rightarrow> bool" +
  fixes Q :: "'q event_processor"
    and view :: "'q \<Rightarrow> 'p"
  assumes reset_view: "view (reset_after_discontinuity Q q) = reset_after_discontinuity P (view q)"
    and process_view: "map_option (map_prod id view) (process_event Q q e) = process_event P (view q) e"
begin

lemma process_view_cases:
  assumes "process_event P (view q) e = Some (c, p)"
  obtains q' where "process_event Q q e = Some (c, q')" "view q' = p"
  using assms process_view [of q e] by (cases "process_event Q q e") auto

lemma process_all_view: "map_option (map_prod id view) (process_all Q q es) = process_all P (view q) es"
proof (induction es arbitrary: q)
  case (Cons e es)
  show ?case
  proof (cases "process_event Q q e")
    case None
    then show ?thesis using process_view [of q e] by simp
  next
    case (Some x)
    obtain c q1 where x: "x = (c, q1)" by (rule prod.exhaust)
    have "process_event P (view q) e = Some (c, view q1)" using process_view [of q e] Some x by simp
    then show ?thesis using Some x by (cases "process_all Q q1 es") (auto simp flip: Cons.IH)
  qed
qed simp

end

sublocale simulated_processor \<subseteq> simulated: event_processor_contract Q "\<lambda>q. inv (view q)" admissible
proof
  fix q assume "inv (view q)"
  then show "inv (view (reset_after_discontinuity Q q))" using reset_inv by (simp add: reset_view)
next
  fix q e assume "inv (view q)" "admissible e"
  then obtain c p where "process_event P (view q) e = Some (c, p)" "inv p" using process_inv by blast
  then show "\<exists>c q'. process_event Q q e = Some (c, q') \<and> inv (view q')" by (auto elim: process_view_cases)
qed

end
