(* ===== verification/Report.thy ===== *)
theory Report
  imports Processor Simulation
begin

text \<open>
  What the decision processor prints (zonkey-service, \<open>lib.rs\<close>, \<open>DiagnosticDecisionProcessor\<close>).  The debug
  form of a character is a parameter, since it depends on the Unicode tables; a string is quoted and
  escaped by characters.
\<close>

definition debug_str :: "(scalar \<Rightarrow> ustr) \<Rightarrow> ustr \<Rightarrow> ustr" where
  "debug_str escape s = [34] @ concat (map (\<lambda>c. if c = 39 then [39] else escape c) s) @ [34]"

definition debug_char :: "(scalar \<Rightarrow> ustr) \<Rightarrow> scalar \<Rightarrow> ustr" where
  "debug_char escape c = [39] @ (if c = 34 then [34] else escape c) @ [39]"

fun debug_boundary :: "(scalar \<Rightarrow> ustr) \<Rightarrow> token_boundary \<Rightarrow> ustr" where
  "debug_boundary escape TB_Space = lit ''Space''"
| "debug_boundary escape TB_Enter = lit ''Enter''"
| "debug_boundary escape TB_Tab = lit ''Tab''"
| "debug_boundary escape (TB_Punctuation c) = lit ''Punctuation('' @ debug_char escape c @ lit '')''"
| "debug_boundary escape TB_CursorMove = lit ''CursorMove''"
| "debug_boundary escape TB_FocusLoss = lit ''FocusLoss''"
| "debug_boundary escape TB_Unknown = lit ''Unknown''"

fun debug_decision :: "diagnostic_decision \<Rightarrow> ustr" where
  "debug_decision DD_Keep = lit ''Keep''"
| "debug_decision DD_RestoreCandidate = lit ''RestoreCandidate''"
| "debug_decision DD_Ambiguous = lit ''Ambiguous''"
| "debug_decision DD_Unsupported = lit ''Unsupported''"

text \<open>The lines of one evaluated token; the plan of a candidate holds the rendering and the replacement.\<close>

definition boundary_lines ::
  "(scalar \<Rightarrow> ustr) \<Rightarrow> bool \<Rightarrow> ustr \<Rightarrow> ustr \<Rightarrow> ustr \<Rightarrow> token_boundary \<Rightarrow> diagnostic_decision \<Rightarrow> ustr list" where
  "boundary_lines escape show_token raw rend replacement b decision =
     (if show_token then
        lit ''decision='' @ debug_decision decision @ lit '' token='' @ debug_str escape raw @
        lit '' rendered_len='' @ show_nat (ulen rend) @ lit '' boundary='' @ debug_boundary escape b
      else
        lit ''decision='' @ debug_decision decision @ lit '' token_len='' @ show_nat (ulen raw) @
        lit '' rendered_len='' @ show_nat (ulen rend) @ lit '' boundary='' @ debug_boundary escape b) #
     (if decision = DD_RestoreCandidate then
        [lit ''restore_plan=yes eligibility=simulation-current'',
         if show_token then
           lit ''restore_plan=yes rendered='' @ debug_str escape rend @ lit '' replacement='' @ debug_str escape replacement
         else
           lit ''restore_plan=yes replace_len='' @ show_nat (length rend) @
           lit '' replacement_len='' @ show_nat (length replacement)]
      else [lit ''restore_plan=no eligibility=no-plan''])"

text \<open>A candidate without a generation returns before anything is printed.\<close>

definition evaluate_boundary_lines ::
  "unicode \<Rightarrow> (scalar \<Rightarrow> ustr) \<Rightarrow> decision_processor \<Rightarrow> token_boundary \<Rightarrow> ustr list" where
  "evaluate_boundary_lines U escape p b =
     (let raw = raw_ascii (token (dp_telex p));
          rend = rendered (token (dp_telex p));
          evidence = classifier_classify U built_in_classify
            \<lparr>rq_raw = raw, rq_rendered = rend, rq_boundary = b, rq_context = dp_context p\<rparr>;
          lines = boundary_lines escape (dp_show_token p) raw rend
      in if raw = [] \<and> rend = [] then []
         else case po_decision (decide U evidence (dp_context p) rend) of
                RD_RestoreEnglish replacement _ _ \<Rightarrow>
                  if fst (allocate_plan_generation p) = None then [] else lines replacement b DD_RestoreCandidate
              | RD_Ambiguous _ _ \<Rightarrow> lines [] b DD_Ambiguous
              | RD_KeepVietnamese _ \<Rightarrow>
                  lines [] b (if evidence = LE_Unsupported then DD_Unsupported else DD_Keep))"

definition decision_lines ::
  "unicode \<Rightarrow> (scalar \<Rightarrow> ustr) \<Rightarrow> decision_processor \<Rightarrow> observed_input_event \<Rightarrow> ustr list" where
  "decision_lines U escape p event =
     (if oe_injection_origin event \<in> {IO_MarkedInjected, IO_LowerIntegrityInjected}
      then [lit ''decision=Ignored reason=injected'']
      else case update_shortcut_state p event of (is_modifier, p) \<Rightarrow>
        if is_modifier \<or> is_key_up (oe_kind event) \<or> shortcut_active p event \<or> modifier_value (oe_key event) \<noteq> None \<or>
           is_escape (oe_key event) \<or> is_backspace (oe_key event) then []
        else (case boundary_for event of
                None \<Rightarrow> []
              | Some b \<Rightarrow> evaluate_boundary_lines U escape p b))"

text \<open>The processor together with what it has printed.\<close>

definition printing_processor ::
  "unicode \<Rightarrow> (scalar \<Rightarrow> ustr) \<Rightarrow> (decision_processor \<times> ustr list) event_processor" where
  "printing_processor U escape =
     \<lparr>reset_after_discontinuity =
        (\<lambda>(p, out). (reset_decision_state p, out @ [lit ''discontinuity=true decision_state=reset''])),
      process_event =
        (\<lambda>(p, out) event. map_option (\<lambda>(c, p'). (c, p', out @ decision_lines U escape p event)) (process_decision U p event))\<rparr>"

lemma printing_view:
  "fst (reset_after_discontinuity (printing_processor U escape) q) = reset_after_discontinuity (decision_event_processor U) (fst q)"
  "map_option (map_prod id fst) (process_event (printing_processor U escape) q e) =
     process_event (decision_event_processor U) (fst q) e"
  by (cases q; cases "process_decision U (fst q) e"; auto simp: printing_processor_def decision_event_processor_def)+

interpretation printing: simulated_processor "decision_event_processor U" processor_inv "\<lambda>_. True"
  "printing_processor U escape" fst
  by unfold_locales (rule printing_view)+










end
