(* ===== verification/Session.thy ===== *)
theory Session
  imports Console Report
begin

text \<open>
  A session of the hook observer ends: once the stop message is pending, the source delivers what the
  bridge holds and stops, the service returns and the command cleans up (zonkey-win, \<open>native.rs\<close>).
\<close>

definition quitting :: "source_turn list \<Rightarrow> bool" where
  "quitting turns \<longleftrightarrow> (\<forall>turn \<in> set turns. st_message turn = TM_Quit)"

text \<open>
  How many turns the source needs while the stop message is pending: one for each queued event and one
  to stop; before the message is read, up to 256 more events may come with it.
\<close>

definition need :: "hook \<Rightarrow> nat" where
  "need hk = length (br_events (hk_bridge hk)) + (if ws_shutdown_requested (hk_source hk) then 1 else 258)"

definition ready :: "hook \<Rightarrow> source_turn list \<Rightarrow> bool" where
  "ready hk turns \<longleftrightarrow> quitting turns \<and> need hk \<le> length turns \<or>
     (\<exists>before after. turns = before @ after \<and> quitting after \<and> 514 \<le> length after)"

lemma callback_bound:
  "length (br_events (hk_bridge hk)) \<le> 256 \<Longrightarrow>
     length (br_events (hk_bridge (fst (low_level_keyboard_proc c hk)))) \<le> 256"
  by (auto simp: low_level_keyboard_proc_def capture_event_def bridge_push_def BRIDGE_CAPACITY_def Let_def
      split: option.split)

lemma calls_bound:
  "length (br_events (hk_bridge hk)) \<le> 256 \<Longrightarrow> length (br_events (hk_bridge (run_calls cs hk))) \<le> 256"
proof (induction cs arbitrary: hk)
  case (Cons c cs)
  from Cons.IH [OF callback_bound [OF Cons.prems]] show ?case by (simp add: run_calls_def)
qed (simp add: run_calls_def)

lemma mapped_shrinks:
  "next_mapped_event free hk = (r, hk') \<Longrightarrow>
     ws_shutdown_requested (hk_source hk') = ws_shutdown_requested (hk_source hk) \<and>
     length (br_events (hk_bridge hk')) + (if r = None then 0 else 1) \<le> length (br_events (hk_bridge hk))"
  by (auto simp: next_mapped_event_def Let_def split: if_splits list.splits option.splits)

lemma ready_cases:
  assumes "ready hk (turn # turns)" and "length (br_events (hk_bridge hk)) \<le> 256"
  shows "st_message turn = TM_Quit \<and> quitting turns \<and> need hk \<le> Suc (length turns) \<or> (\<forall>hk'. ready hk' turns)"
  using assms unfolding ready_def
  by (auto simp: quitting_def need_def Cons_eq_append_conv)

lemma next_event_loop_ready:
  "ready hk turns \<Longrightarrow> length (br_events (hk_bridge hk)) \<le> 256 \<Longrightarrow>
     \<exists>r hk' later. next_event_loop turns hk = Some (r, hk', later) \<and> length (br_events (hk_bridge hk')) \<le> 256 \<and>
       (\<forall>e. r = Inr (Some e) \<longrightarrow> ready hk' later)"
proof (induction turns arbitrary: hk)
  case Nil
  then show ?case by (simp add: ready_def need_def split: if_splits)
next
  case (Cons turn turns)
  obtain x k where x: "next_mapped_event (st_lock_free turn) hk = (x, k)" by (rule prod.exhaust)
  note m = mapped_shrinks [OF x]
  have lk: "length (br_events (hk_bridge k)) \<le> 256" using m Cons.prems(2) by linarith
  show ?case
  proof (cases x)
    case (Some e)
    then have "need k < need hk" using m by (simp add: need_def)
    with ready_cases [OF Cons.prems] have "ready k turns" by (auto simp: ready_def)
    with Some x lk show ?thesis by simp
  next
    case None
    note b = calls_bound [OF lk, of "st_calls turn"]
    show ?thesis
    proof (cases "ws_shutdown_requested (hk_source k)")
      case True
      with None x lk show ?thesis by simp
    next
      case False
      let ?q = "(stop_accepting_events (run_calls (st_calls turn) k))
        \<lparr>hk_source := (hk_source (run_calls (st_calls turn) k))\<lparr>ws_shutdown_requested := True\<rparr>\<rparr>"
      have q: "length (br_events (hk_bridge ?q)) \<le> 256" "need ?q \<le> 257"
        using b by (simp_all add: stop_accepting_events_def need_def)
      have "257 \<le> length turns" if "need hk \<le> Suc (length turns)" using that False m by (simp add: need_def)
      then have r: "ready ?q turns" using ready_cases [OF Cons.prems] q(2) by (auto simp: ready_def)
      show ?thesis
      proof (cases "st_message turn")
        case TM_Failed
        with None x b False show ?thesis by (simp add: Let_def stop_accepting_events_def)
      next
        case TM_Quit
        with Cons.IH [OF r q(1)] None x False show ?thesis by (simp add: Let_def)
      next
        case TM_Other
        then have "ready (run_calls (st_calls turn) k) turns" using ready_cases [OF Cons.prems] by auto
        from Cons.IH [OF this b] TM_Other None x False show ?thesis by (simp add: Let_def)
      qed
    qed
  qed
qed

lemma source_ends:
  assumes "ready hk turns" and "length (br_events (hk_bridge hk)) \<le> 256" and "hook_run hk0 es0 hk"
  shows "\<exists>es failure hk' later. source_yields hook_source (Some (hk, turns)) es failure (Some (hk', later)) \<and>
    hook_run hk0 (es0 @ es) hk'"
  using assms
proof (induction "length turns" arbitrary: hk turns es0 rule: less_induct)
  case less
  show ?case
  proof (cases "ws_stopped (hk_source hk)")
    case True
    then show ?thesis using less.prems(3)
      by (intro exI [of _ "[]"] exI [of _ None] exI [of _ hk] exI [of _ turns]) (simp add: hook_source_def next_event_def)
  next
    case False
    obtain r hk' later where n: "next_event_loop turns hk = Some (r, hk', later)"
      "length (br_events (hk_bridge hk')) \<le> 256" "\<forall>e. r = Inr (Some e) \<longrightarrow> ready hk' later"
      using next_event_loop_ready [OF less.prems(1,2)] by blast
    then have s: "hook_source (Some (hk, turns)) = (r, Some (hk', later))"
      using False by (simp add: hook_source_def next_event_def)
    note run = next_event_loop_run [OF n(1) less.prems(3)]
    show ?thesis
    proof (cases "\<exists>e. r = Inr (Some e)")
      case True
      then obtain e where e: "r = Inr (Some e)" by blast
      obtain es failure hk'' later' where y: "source_yields hook_source (Some (hk', later)) es failure (Some (hk'', later'))"
        "hook_run hk0 ((es0 @ [e]) @ es) hk''"
        using less.hyps [OF next_event_loop_shorter [OF n(1)], of hk' "es0 @ [e]"] n(2,3) run e by auto
      with s e show ?thesis
        by (intro exI [of _ "e # es"] exI [of _ failure] exI [of _ hk''] exI [of _ later']) simp
    next
      case False
      then obtain failure where f: "r = (case failure of None \<Rightarrow> Inr None | Some e \<Rightarrow> Inl e)"
        by (metis not_Some_eq old.sum.exhaust option.case(1,2))
      then have "hook_run hk0 es0 hk'" using run by (cases failure) auto
      with s f show ?thesis
        by (intro exI [of _ "[]"] exI [of _ failure] exI [of _ hk'] exI [of _ later]) simp
    qed
  qed
qed

text \<open>Whatever processor keeps its contract, the session returns with the source empty and closed.\<close>

definition session_closed :: "observe_statics \<Rightarrow> bool" where
  "session_closed sx \<longleftrightarrow> \<not> vs_handler sx \<and> vs_thread_id sx = 0 \<and>
     \<not> br_active (hk_bridge (vs_hook sx)) \<and> br_events (hk_bridge (vs_hook sx)) = []"

context event_processor_contract
begin

lemma session_ends:
  assumes "ov_handler_ok env" and "source_new (ov_lock_ok env) (ov_module_ok env) (ov_hook_ok env) (vs_hook sx) = (Inr (), hk0)"
    and "ov_turns env = before @ pending" and "quitting pending" and "514 \<le> length pending"
    and "ov_final_lock_ok env" and "inv p" and "\<And>e. admissible e"
  shows "\<exists>result line sx' es cs p' hk1.
    run_observe_with_processor P p env sx = Some (result, Some (diagnostic_banner, p', line), sx') \<and>
    hook_run hk0 es hk1 \<and> process_all P p es = Some (cs, p') \<and> inv p' \<and> session_closed sx'"
proof -
  obtain queue where q: "queue_default = Some queue" "idle (service_new queue)"
    "\<not> os_stop_requested (service_new queue)" "os_status (service_new queue) = OS_Starting"
    by (rule fresh_service)
  have e: "br_events (hk_bridge hk0) = []"
    using assms(2) by (auto simp: source_new_def bridge_new_def Let_def split: if_splits)
  have "ready hk0 (ov_turns env)" using assms(3-5) by (auto simp: ready_def)
  from source_ends [OF this _ bridge_run.started] e
  obtain es failure hk1 later where y: "source_yields hook_source (Some (hk0, ov_turns env)) es failure (Some (hk1, later))"
    "hook_run hk0 es hk1" by auto
  obtain cs p' where c: "process_all P p es = Some (cs, p')" "inv p'"
    using process_all_inv [OF assms(7), of es] assms(8) by (auto simp: list_all_iff)
  have i: "idle ((service_new queue)\<lparr>os_status := OS_Running\<rparr>)" "\<not> os_stop_requested ((service_new queue)\<lparr>os_status := OS_Running\<rparr>)"
    using q(2,3) by (simp_all add: idle_def)
  obtain report service where "run hook_source P (service_new queue) (Some (hk0, ov_turns env)) p =
      Some (report, service, Some (hk1, later), p')"
    using observe_loop_finite [OF y(1) i c(1)] q(4) by (simp add: run_def)
  then show ?thesis
    using assms(1,2,6) y(2) c
    by (simp add: run_observe_with_processor_def observe_session_def Let_def q(1) source_drop_def session_closed_def) blast
qed

end

text \<open>
  C38. A diagnose session ends when it is asked to and cleans up: if the stop handler and the hook could
  be installed and, after any messages whatever, the stop message is pending (514 readings are always
  enough: 256 queued events before it is read, one reading of it, 256 queued after it, one to stop),
  the command returns; the decision processor has processed exactly the events the hook delivered, in
  order and without a reset, keeps its invariant and has printed what it prints for those events;
  the stop handler is removed, no thread is named for it, and the bridge is empty and closed.
\<close>

theorem session_ends_clean:
  assumes "ov_handler_ok env" and "source_new (ov_lock_ok env) (ov_module_ok env) (ov_hook_ok env) (vs_hook sx) = (Inr (), hk0)"
    and "ov_turns env = before @ pending" and "quitting pending" and "514 \<le> length pending"
    and "ov_final_lock_ok env" and "processor_inv p"
  shows "\<exists>result out line sx' es cs p' hk1.
    run_observe_with_processor (printing_processor U escape) (p, []) env sx =
      Some (result, Some (diagnostic_banner, (p', out), line), sx') \<and>
    hook_run hk0 es hk1 \<and> process_all (printing_processor U escape) (p, []) es = Some (cs, (p', out)) \<and>
    process_all (decision_event_processor U) p es = Some (cs, p') \<and> processor_inv p' \<and> session_closed sx'"
proof -
  obtain result line sx' es cs q hk1 where q:
    "run_observe_with_processor (printing_processor U escape) (p, []) env sx = Some (result, Some (diagnostic_banner, q, line), sx')"
    "hook_run hk0 es hk1" "process_all (printing_processor U escape) (p, []) es = Some (cs, q)"
    "processor_inv (fst q)" "session_closed sx'"
    using printing.simulated.session_ends [OF assms(1-6), of "(p, [])" U escape] assms(7) by auto
  then show ?thesis
    using printing.process_all_view [of U escape "(p, [])" es] by (cases q) force
qed

definition quit_turn :: source_turn where
  "quit_turn = \<lparr>st_lock_free = True, st_calls = [key_call 0x100 0x41], st_message = TM_Quit\<rparr>"

lemma session_ends_clean_witness:
  "\<exists>result line sx' out p'. run_observe_with_processor (printing_processor scalar_unicode (\<lambda>c. [c])) (processor_new False, [])
      ((typed_env 0x41)\<lparr>ov_turns := typed_turns 0x41 @ replicate 514 quit_turn\<rparr>) idle_statics =
      Some (result, Some (diagnostic_banner, (p', out), line), sx') \<and> session_closed sx'"
proof -
  let ?env = "(typed_env 0x41)\<lparr>ov_turns := typed_turns 0x41 @ replicate 514 quit_turn\<rparr>"
  obtain hk0 where n: "source_new True True True idle_hook = (Inr (), hk0)"
    by (simp add: source_new_def idle_hook_def bridge_new_def Let_def)
  have "ov_handler_ok ?env" "ov_final_lock_ok ?env" "ov_turns ?env = typed_turns 0x41 @ replicate 514 quit_turn"
    "quitting (replicate 514 quit_turn)" "514 \<le> length (replicate 514 quit_turn)"
    "source_new (ov_lock_ok ?env) (ov_module_ok ?env) (ov_hook_ok ?env) (vs_hook idle_statics) = (Inr (), hk0)"
    using n by (simp_all only: typed_env_def idle_statics_def quitting_def quit_turn_def observe_env.simps
        observe_statics.simps length_replicate set_replicate_conv_if source_turn.simps split: if_splits) simp_all
  from session_ends_clean [OF this(1,6,3,4,5,2) processor_inv_new] show ?thesis by blast
qed

end
