(* ===== verification/Dacl.thy ===== *)
theory Dacl
  imports Peer
begin

text \<open>
  The access-control list of the pipe (zonkey-win, \<open>pipe_security.rs\<close>: \<open>current_user_only\<close> and the
  inspection \<open>inspect_current_user_only_dacl\<close>).  The list functions of the system are parameters; what
  is relied on of \<open>SetEntriesInAclW\<close> is the hypothesis \<open>grants_each\<close>.
\<close>

definition GENERIC_ALL :: u32 where
  "GENERIC_ALL = 0x10000000"

record explicit_access =
  xa_permissions :: u32
  xa_grant :: bool
  xa_inherited :: bool
  xa_trustee :: bytes

datatype ace = AC_Allowed u32 bytes | AC_Denied u32 bytes | AC_Other

record security_attributes =
  sa_dacl_present :: bool
  sa_dacl :: "ace list"
  sa_dacl_defaulted :: bool
  sa_inherit_handle :: bool

record descriptor_env =
  dn_set_entries :: "explicit_access list \<Rightarrow> ace list option"
  dn_initialize_ok :: bool
  dn_set_dacl_ok :: bool

definition current_user_only ::
  "token_info option \<Rightarrow> descriptor_env \<Rightarrow> pipe_security_error + security_attributes" where
  "current_user_only own_token env =
     (case current_user_sid own_token of
        Inl e \<Rightarrow> Inl e
      | Inr sid \<Rightarrow>
         (case dn_set_entries env
             [\<lparr>xa_permissions = GENERIC_ALL, xa_grant = True, xa_inherited = False, xa_trustee = sid\<rparr>] of
            None \<Rightarrow> Inl PS_DaclConstructionFailed
          | Some acl \<Rightarrow>
              if \<not> dn_initialize_ok env then Inl PS_DaclConstructionFailed
              else if \<not> dn_set_dacl_ok env then Inl PS_DaclConstructionFailed
              else Inr \<lparr>sa_dacl_present = True, sa_dacl = acl, sa_dacl_defaulted = False,
                        sa_inherit_handle = False\<rparr>))"

record dacl_facts =
  df_ace_count :: nat
  df_current_user_only :: bool
  df_has_deny_ace :: bool

text \<open>
  What the system answers about a handle: the size of its descriptor, the query (or its error code),
  whether it has a list, the number of entries and each entry.
\<close>

record dacl_query =
  dq_needed :: u32
  dq_query :: "u32 + unit"
  dq_has_dacl :: bool
  dq_count :: "nat option"
  dq_entry :: "nat \<Rightarrow> ace option"

definition inspect_ace ::
  "(bytes \<Rightarrow> bytes \<Rightarrow> bool) \<Rightarrow> bytes \<Rightarrow> ace option \<Rightarrow> dacl_facts \<Rightarrow> dacl_facts" where
  "inspect_ace equal_sid own entry facts =
     (case entry of
        None \<Rightarrow> facts\<lparr>df_current_user_only := False\<rparr>
      | Some (AC_Allowed _ sid) \<Rightarrow>
          if \<not> equal_sid sid own then facts\<lparr>df_current_user_only := False\<rparr> else facts
      | Some (AC_Denied _ _) \<Rightarrow> facts\<lparr>df_current_user_only := False, df_has_deny_ace := True\<rparr>
      | Some AC_Other \<Rightarrow> facts\<lparr>df_current_user_only := False\<rparr>)"

definition inspect_current_user_only_dacl ::
  "(bytes \<Rightarrow> bytes \<Rightarrow> bool) \<Rightarrow> token_info option \<Rightarrow> dacl_query \<Rightarrow> pipe_security_error + dacl_facts" where
  "inspect_current_user_only_dacl equal_sid own_token q =
     (case current_user_sid own_token of
        Inl e \<Rightarrow> Inl e
      | Inr own \<Rightarrow>
          if dq_needed q = 0 then Inl (PS_DaclInspectionFailed 0)
          else (case dq_query q of
                  Inl code \<Rightarrow> Inl (PS_DaclInspectionFailed (code AND 0xFFFF))
                | Inr _ \<Rightarrow>
                    if \<not> dq_has_dacl q then Inl (PS_DaclInspectionFailed 0)
                    else Inr (case dq_count q of
                           None \<Rightarrow> \<lparr>df_ace_count = 0, df_current_user_only = False, df_has_deny_ace = False\<rparr>
                         | Some n \<Rightarrow>
                             foldl (\<lambda>facts i. inspect_ace equal_sid own (dq_entry q i) facts)
                               \<lparr>df_ace_count = n, df_current_user_only = True, df_has_deny_ace = False\<rparr> [0..<n])))"

subsection \<open>What the inspection decides\<close>

text \<open>The system reports the entries of a list.\<close>

definition query_of :: "security_attributes \<Rightarrow> dacl_query" where
  "query_of a =
     \<lparr>dq_needed = 1, dq_query = Inr (), dq_has_dacl = sa_dacl_present a, dq_count = Some (length (sa_dacl a)),
      dq_entry = (\<lambda>i. if i < length (sa_dacl a) then Some (sa_dacl a ! i) else None)\<rparr>"

definition own_entry :: "(bytes \<Rightarrow> bytes \<Rightarrow> bool) \<Rightarrow> bytes \<Rightarrow> ace \<Rightarrow> bool" where
  "own_entry equal_sid own a \<longleftrightarrow> (\<exists>m sid. a = AC_Allowed m sid \<and> equal_sid sid own)"

definition deny_entry :: "ace \<Rightarrow> bool" where
  "deny_entry a \<longleftrightarrow> (\<exists>m sid. a = AC_Denied m sid)"

lemma inspect_entries:
  "foldl (\<lambda>facts a. inspect_ace equal_sid own (Some a) facts) facts acl =
     facts\<lparr>df_current_user_only := df_current_user_only facts \<and> list_all (own_entry equal_sid own) acl,
       df_has_deny_ace := df_has_deny_ace facts \<or> list_ex deny_entry acl\<rparr>"
  by (induction acl arbitrary: facts) (auto simp: inspect_ace_def own_entry_def deny_entry_def split: ace.split)

lemma inspect_indices:
  "foldl (\<lambda>facts i. f (if i < length acl then Some (acl ! i) else None) facts) facts [0..<length acl] =
     foldl (\<lambda>facts a. f (Some a) facts) facts acl"
proof -
  have "foldl (\<lambda>facts i. f (if i < length acl then Some (acl ! i) else None) facts) facts [0..<length acl] =
      foldl (\<lambda>facts i. f (Some (acl ! i)) facts) facts [0..<length acl]"
    by (intro foldl_cong) auto
  also have "\<dots> = foldl (\<lambda>facts a. f (Some a) facts) facts (map ((!) acl) [0..<length acl])"
    by (simp add: foldl_map)
  finally show ?thesis by (simp add: map_nth)
qed

lemma inspection_exact:
  assumes "current_user_sid own_token = Inr own" and "sa_dacl_present a"
  shows "inspect_current_user_only_dacl equal_sid own_token (query_of a) =
    Inr \<lparr>df_ace_count = length (sa_dacl a), df_current_user_only = list_all (own_entry equal_sid own) (sa_dacl a),
         df_has_deny_ace = list_ex deny_entry (sa_dacl a)\<rparr>"
  using assms inspect_indices [of "inspect_ace equal_sid own" "sa_dacl a"]
  by (simp add: inspect_current_user_only_dacl_def query_of_def inspect_entries)

subsection \<open>Who is granted access\<close>

text \<open>
  Access as the system decides it: the first entry for one of the user's identities that mentions the
  right decides, and without such an entry there is none.
\<close>

fun dacl_grants :: "ace list \<Rightarrow> bytes set \<Rightarrow> nat \<Rightarrow> bool" where
  "dacl_grants [] sids right = False"
| "dacl_grants (AC_Allowed m sid # acl) sids right = (sid \<in> sids \<and> bit m right \<or> dacl_grants acl sids right)"
| "dacl_grants (AC_Denied m sid # acl) sids right = (\<not> (sid \<in> sids \<and> bit m right) \<and> dacl_grants acl sids right)"
| "dacl_grants (AC_Other # acl) sids right = dacl_grants acl sids right"

lemma grants_own:
  "list_all (own_entry equal_sid own) acl \<Longrightarrow> dacl_grants acl sids right \<Longrightarrow> \<exists>sid \<in> sids. equal_sid sid own"
  by (induction acl sids right rule: dacl_grants.induct) (auto simp: own_entry_def)

text \<open>\<open>SetEntriesInAclW\<close> without an old list: one allowing entry for each granting one, in their order.\<close>

definition grants_each :: "descriptor_env \<Rightarrow> bool" where
  "grants_each env \<longleftrightarrow> (\<forall>entries acl. list_all xa_grant entries \<longrightarrow> dn_set_entries env entries = Some acl \<longrightarrow>
     acl = map (\<lambda>x. AC_Allowed (xa_permissions x) (xa_trustee x)) entries)"

text \<open>
  C40. The pipe admits the current user only: whenever the security attributes can be built, their
  list is present, not defaulted and not inherited; nobody is granted any right by it without an
  identity equal to the user of the server process; and the inspection of a pipe created with
  them reports one entry, for the current user only, and no deny entry.
\<close>

theorem pipe_dacl_admits_owner_only:
  assumes "grants_each env" and "\<And>sid. equal_sid sid sid" and "current_user_only own_token env = Inr a"
  shows "\<exists>own. current_user_sid own_token = Inr own \<and> sa_dacl_present a \<and> \<not> sa_dacl_defaulted a \<and> \<not> sa_inherit_handle a \<and>
    {sids. \<exists>right. dacl_grants (sa_dacl a) sids right} \<subseteq> {sids. \<exists>sid \<in> sids. equal_sid sid own} \<and>
    inspect_current_user_only_dacl equal_sid own_token (query_of a) =
      Inr \<lparr>df_ace_count = 1, df_current_user_only = True, df_has_deny_ace = False\<rparr>"
proof -
  obtain own where own: "current_user_sid own_token = Inr own"
    using assms(3) by (cases "current_user_sid own_token") (auto simp: current_user_only_def)
  let ?entry = "\<lparr>xa_permissions = GENERIC_ALL, xa_grant = True, xa_inherited = False, xa_trustee = own\<rparr>"
  have a: "sa_dacl_present a" "\<not> sa_dacl_defaulted a" "\<not> sa_inherit_handle a"
    and "dn_set_entries env [?entry] = Some (sa_dacl a)"
    using assms(3) own by (auto simp: current_user_only_def split: option.splits if_splits)
  then have acl: "sa_dacl a = [AC_Allowed GENERIC_ALL own]"
    using assms(1) [unfolded grants_each_def, rule_format, of "[?entry]"] by simp
  have l: "list_all (own_entry equal_sid own) (sa_dacl a)" "\<not> list_ex deny_entry (sa_dacl a)"
    using assms(2) by (simp_all add: acl own_entry_def deny_entry_def)
  from inspection_exact [OF own a(1), of equal_sid] l acl grants_own [OF l(1)] own a show ?thesis by auto
qed

definition honest_env :: descriptor_env where
  "honest_env =
     \<lparr>dn_set_entries = (\<lambda>entries. Some (map (\<lambda>x. AC_Allowed (xa_permissions x) (xa_trustee x)) entries)),
      dn_initialize_ok = True, dn_set_dacl_ok = True\<rparr>"

lemma pipe_dacl_admits_owner_only_witness:
  "\<exists>a. current_user_only (Some (sid_token [1, 5])) honest_env = Inr a \<and> sa_dacl_present a \<and>
     \<not> (\<exists>right. dacl_grants (sa_dacl a) {[1, 6], [1, 1]} right)"
proof -
  obtain a where a: "current_user_only (Some (sid_token [1, 5])) honest_env = Inr a"
    by (simp add: current_user_only_def honest_env_def current_user_sid_def token_user_sid_def sid_token_def)
  have "grants_each honest_env" by (simp add: grants_each_def honest_env_def)
  from pipe_dacl_admits_owner_only [OF this _ a, of "(=)"]
  have "sa_dacl_present a" "{sids. \<exists>right. dacl_grants (sa_dacl a) sids right} \<subseteq> {sids. [1, 5] \<in> sids}"
    by (auto simp: current_user_sid_def token_user_sid_def sid_token_def)
  moreover have "{[1, 6], [1, 1]} \<notin> {sids :: bytes set. [1, 5] \<in> sids}" by simp
  ultimately show ?thesis using a by blast
qed

end
