(* ===== verification/Corpus.thy ===== *)
theory Corpus
  imports Policy
begin

text \<open>
  The regression corpus of the repository (\<open>tests/corpus\<close>) and the two test programs that run it:
  \<open>zonkey-telex/tests/corpus.rs\<close> for the engine and \<open>zonkey-policy/tests/corpus.rs\<close> for the
  classifier and the policy.  This theory holds their fixtures, the loader with its validation, the
  runner that types the keys of a fixture into a document, and the assertions; the rows of the
  corpus are in \<open>Corpus_Data\<close>.  Reading directories and files and the JSON parser (the crates
  serde and serde\_json) are parameters.

  The general theorem is about any document typed through the engine: applying every edit plan to
  the whole document shows each word composed, whatever was typed and erased.
\<close>

subsection \<open>Typing a document\<close>

text \<open>
  What the user should see: finished words and their separators, then the word being typed.  A
  separator finishes the word, a backspace takes one key of the unfinished word back.
\<close>

definition BACKSPACE_KEY :: scalar where
  "BACKSPACE_KEY = 8"

fun typed_key :: "ustr \<times> ustr \<Rightarrow> scalar \<Rightarrow> ustr \<times> ustr" where
  "typed_key (finished, word) c =
     (if c = BACKSPACE_KEY then (finished, butlast word)
      else if boundary_from_char c \<noteq> None then (finished @ foldl compose_step [] word @ [c], [])
      else (finished, word @ [c]))"

definition typed_text :: "ustr \<Rightarrow> ustr" where
  "typed_text keys = (let (finished, word) = foldl typed_key ([], []) keys in finished @ foldl compose_step [] word)"

text \<open>
  The runner's loop: every key goes to the engine, whose edit plans are applied to the whole visible
  text; a committed boundary is typed as it is.  \<open>None\<close> is a panic of the engine.
\<close>

fun run_keys ::
  "unicode \<Rightarrow> telex_engine \<Rightarrow> ustr \<Rightarrow> ustr \<Rightarrow> (unsupported_behavior + ustr) option" where
  "run_keys U engine visible [] = Some (Inr visible)"
| "run_keys U engine visible (character # cs) =
     (case engine_process U engine (if character = BACKSPACE_KEY then EE_Backspace else EE_Character character) of
        None \<Rightarrow> None
      | Some (Inl error, _) \<Rightarrow> Some (Inl error)
      | Some (Inr action, engine') \<Rightarrow>
          run_keys U engine'
            (case action of
               EA_Apply plan \<Rightarrow> apply_edit_plan U visible plan
             | EA_Commit _ \<Rightarrow> visible @ [character]
             | EA_Noop \<Rightarrow> visible
             | EA_Reset \<Rightarrow> visible) cs)"

text \<open>
  ASCII other than the carriage return and the precomposed letters are graphemes of their own,
  whatever stands beside them: no rule of UAX 29 joins two of them (CR LF is the only pair in ASCII,
  and no precomposed letter extends or prepends).
\<close>

definition simple_scalar :: "scalar \<Rightarrow> bool" where
  "simple_scalar c \<longleftrightarrow> telex_letter c \<and> c \<noteq> 13"

definition simple_graphemes :: "unicode \<Rightarrow> bool" where
  "simple_graphemes U \<longleftrightarrow>
     segmentation U \<and> (\<forall>s. list_all simple_scalar s \<longrightarrow> graphemes U s = map (\<lambda>c. [c]) s)"

lemma simple_graphemes_scalar: "simple_graphemes scalar_unicode"
  by (simp add: simple_graphemes_def) (simp add: scalar_unicode_def)

lemma simple_ascii: "is_ascii c \<Longrightarrow> c \<noteq> 13 \<Longrightarrow> simple_scalar c"
  by (simp add: simple_scalar_def telex_letter_def)

lemma return_no_letter: "13 \<notin> set (concat VOWELS)"
  by (simp add: VOWELS_def)

text \<open>Composition only writes letters and keys, so it stays within these scalars.\<close>

lemma simple_composed:
  assumes "is_ascii_str word" and "13 \<notin> set word"
  shows "list_all simple_scalar (foldl compose_step [] word)"
proof -
  have encoded: "simple_scalar (encode_vowel s t)" for s t
    using decode_vowel_in_table [of "encode_vowel s t"] return_no_letter
    by (auto simp: simple_scalar_def)
  have step: "list_all simple_scalar (compose_step out c)" if "list_all simple_scalar out" "is_ascii c" "c \<noteq> 13" for out c
    using that encoded
    by (intro compose_step_closed) (auto simp: simple_scalar_def telex_letter_def D_STROKE_def is_ascii_def)
  have "list_all simple_scalar (foldl compose_step out word)" if "list_all simple_scalar out" for out
    using that assms by (induction word arbitrary: out) (auto intro: step)
  then show ?thesis by simp
qed

text \<open>An edit plan of the word leaves the finished text alone.\<close>

lemma plan_behind_finished:
  assumes "simple_graphemes U" and "list_all simple_scalar finished" and "list_all simple_scalar old"
  shows "apply_edit_plan U (finished @ old) (edit_plan_between U old new) = finished @ new"
  using assms by (intro apply_edit_plan_behind) (auto simp: simple_graphemes_def)

text \<open>The runner's state while a word is typed.\<close>

definition typing :: "ustr \<Rightarrow> ustr \<Rightarrow> telex_engine \<Rightarrow> bool" where
  "typing finished word engine \<longleftrightarrow>
     token engine = \<lparr>raw_ascii = word, rendered = foldl compose_step [] word\<rparr> \<and>
     engine_inv engine \<and> is_ascii_str word \<and> 13 \<notin> set word \<and> list_all simple_scalar finished"

lemma typing_new: "typing [] [] engine_new"
  using engine_inv_new by (simp add: typing_def engine_new_def token_new_def)

lemma run_keys_typed:
  assumes U: "simple_graphemes U" and "is_ascii_str keys" and "13 \<notin> set keys" and "typing finished word engine"
  shows "run_keys U engine (finished @ foldl compose_step [] word) keys =
    Some (Inr (let (finished', word') = foldl typed_key (finished, word) keys in finished' @ foldl compose_step [] word'))"
  using assms(2-)
proof (induction keys arbitrary: finished word engine)
  case (Cons c keys)
  have k: "is_ascii_str keys" "13 \<notin> set keys" "is_ascii c" "c \<noteq> 13" using Cons.prems(1,2) by auto
  have t: "token engine = \<lparr>raw_ascii = word, rendered = foldl compose_step [] word\<rparr>" "engine_inv engine"
    "is_ascii_str word" "13 \<notin> set word" "list_all simple_scalar finished"
    using Cons.prems(3) by (auto simp: typing_def)
  have shown: "list_all simple_scalar (foldl compose_step [] word)" by (rule simple_composed [OF t(3,4)])
  note plan = plan_behind_finished [OF U t(5) shown]
  show ?case
  proof (cases "c = BACKSPACE_KEY")
    case True
    define engine' where "engine' = engine\<lparr>token := \<lparr>raw_ascii = butlast word, rendered = foldl compose_step [] (butlast word)\<rparr>\<rparr>"
    have "engine_inv engine'" if "word \<noteq> []"
      using engine_inv_backspace [OF t(2), of U] process_backspace_cases [OF t(2), of U] that
      by (auto simp: t(1) engine'_def)
    moreover have "is_ascii_str (butlast word)" "13 \<notin> set (butlast word)"
      using t(3,4) by (auto simp: is_ascii_str_def list_all_iff dest: in_set_butlastD)
    ultimately have "typing finished (butlast word) engine'" if "word \<noteq> []"
      using t(5) that by (simp add: typing_def engine'_def)
    then show ?thesis
      using Cons.IH [OF k(1,2), of finished "butlast word" engine'] Cons.IH [OF k(1,2) Cons.prems(3)] True plan
      by (cases "word = []") (auto simp: engine_process_def process_backspace_cases [OF t(2)] t(1) engine'_def)
  next
    case False
    note typed = False
    show ?thesis
    proof (cases "boundary_from_char c")
      case None
      define engine' where "engine' = engine\<lparr>token := \<lparr>raw_ascii = word @ [c], rendered = foldl compose_step [] (word @ [c])\<rparr>\<rparr>"
      have p: "process_character U engine c =
          (Inr (EA_Apply (edit_plan_between U (foldl compose_step [] word) (foldl compose_step [] (word @ [c])))), engine')"
        using k(3) None process_character_cases [OF t(2), of U c] by (simp add: t(1) engine'_def)
      then have "typing finished (word @ [c]) engine'"
        using engine_inv_character [OF t(2), of U c] p t(3-5) k(3,4) by (simp add: typing_def engine'_def is_ascii_str_def)
      then show ?thesis
        using Cons.IH [OF k(1,2), of finished "word @ [c]" engine'] None typed plan
        by (simp add: engine_process_def p)
    next
      case (Some b)
      obtain engine' where p: "process_character U engine c = (Inr (EA_Commit b), engine')"
        and e: "token engine' = \<lparr>raw_ascii = [], rendered = []\<rparr>" "engine_inv engine'"
        using Some boundary_from_char_commits [OF Some] fst_process_boundary [of engine b]
          process_boundary_clears [of engine b] engine_inv_boundary [of engine b]
        by (cases "process_boundary engine b") (auto simp: process_character_def token_clear_def t(1))
      have "typing (finished @ foldl compose_step [] word @ [c]) [] engine'"
        using e t(5) shown simple_ascii [OF k(3,4)] by (simp add: typing_def)
      then show ?thesis
        using Cons.IH [OF k(1,2), of "finished @ foldl compose_step [] word @ [c]" "[]" engine'] Some typed
        by (simp add: engine_process_def p)
    qed
  qed
qed (simp add: typed_text_def)

text \<open>
  C35. A document typed through the engine shows what it should: for any ASCII keys without carriage
  return, backspaces included, applying every edit plan of the engine to the whole visible document
  and typing the separators yields the finished words, each as the composition of the keys that were
  not taken back, with their separators, and the composition of the unfinished word.
\<close>

theorem typed_document_shown:
  assumes "simple_graphemes U" and "is_ascii_str keys" and "13 \<notin> set keys"
  shows "run_keys U engine_new [] keys = Some (Inr (typed_text keys))"
  using run_keys_typed [OF assms typing_new] by (simp add: typed_text_def)

lemma typed_document_shown_witness:
  "run_keys scalar_unicode engine_new [] (lit ''as i'') = Some (Inr (typed_text (lit ''as i''))) \<and>
   typed_text (lit ''as i'') = [0xE1, 32, 105]"
  using typed_document_shown [OF simple_graphemes_scalar, of "lit ''as i''"]
  by (simp add: is_ascii_def typed_text_def BACKSPACE_KEY_def boundary_from_char_def is_ascii_punctuation_def
      compose_step_def try_shape_transform_def try_tone_def requested_tone_def rposition_def decode_vowel_def
      encode_vowel_def VOWELS_def SHAPES_def tone_of_column_def shape_rule_def)

subsection \<open>Fixtures\<close>

record expected_edit_plan =
  xp_delete_graphemes :: nat
  xp_insert_text :: ustr

record fixture =
  fx_schema_version :: u32
  fx_name :: ustr
  fx_raw_keys :: ustr
  fx_context :: ustr
  fx_expected_text :: ustr
  fx_decision :: ustr
  fx_status :: ustr
  fx_explanation :: ustr
  fx_reason :: ustr
  fx_telex_rendered :: "ustr option"
  fx_expected_edit_plan :: "expected_edit_plan option"
  fx_boundary :: "ustr option"

text \<open>A path is the text that \<open>display\<close> shows for it; errors are the texts of the source.\<close>

definition fixture_location :: "ustr \<Rightarrow> nat \<Rightarrow> ustr" where
  "fixture_location path line_number = path @ lit '':'' @ show_nat line_number"

definition fixture_fields :: "fixture \<Rightarrow> (ustr \<times> ustr) list" where
  "fixture_fields f =
     [(lit ''name'', fx_name f), (lit ''context'', fx_context f), (lit ''decision'', fx_decision f),
      (lit ''status'', fx_status f), (lit ''explanation'', fx_explanation f), (lit ''reason'', fx_reason f)]"

definition validate_fixture :: "ustr \<Rightarrow> nat \<Rightarrow> fixture \<Rightarrow> ustr + unit" where
  "validate_fixture path line_number f =
     (let location = fixture_location path line_number in
      if fx_schema_version f \<noteq> 1
        then Inl (location @ lit '': unsupported schema_version '' @ show_nat (unat (fx_schema_version f)) @
          lit ''; expected 1'')
      else (case List.find (\<lambda>(field, value). trim_ws value = []) (fixture_fields f) of
          Some (field, _) \<Rightarrow> Inl (location @ lit '': field `'' @ field @ lit ''` must not be empty'')
        | None \<Rightarrow>
            if fx_status f \<notin> {lit ''active'', lit ''planned'', lit ''ignored''}
              then Inl (location @ lit '': status `'' @ fx_status f @ lit ''` must be active, planned, or ignored'')
            else if fx_status f = lit ''ignored'' \<and> \<not> contains_sub (lit ''reason:'') (fx_explanation f)
              then Inl (location @ lit '': ignored fixture explanation must contain `reason:`'')
            else Inr ()))"

text \<open>\<open>json\<close> is the parser of serde\_json for a fixture, with the text of its error.\<close>

definition parse_fixture :: "(ustr \<Rightarrow> ustr + fixture) \<Rightarrow> ustr \<Rightarrow> nat \<Rightarrow> ustr \<Rightarrow> ustr + fixture" where
  "parse_fixture json path line_number line =
     (case json line of
        Inl error \<Rightarrow> Inl (fixture_location path line_number @ lit '': invalid corpus JSON: '' @ error)
      | Inr f \<Rightarrow>
          (case validate_fixture path line_number f of
             Inl error \<Rightarrow> Inl error
           | Inr _ \<Rightarrow> Inr f))"

subsection \<open>Loading\<close>

text \<open>
  Both test programs go through the lines of a file in the same way and stop at the first error; they
  differ in how a line is parsed.  The line numbers start at one and count blank lines.
\<close>

fun load_lines :: "(nat \<Rightarrow> ustr \<Rightarrow> ustr + fixture) \<Rightarrow> ustr \<Rightarrow> nat \<Rightarrow> ustr list
    \<Rightarrow> ustr + (ustr \<times> nat \<times> fixture) list" where
  "load_lines parse_line path index [] = Inr []"
| "load_lines parse_line path index (line # lines) =
     (if trim_ws line = [] then load_lines parse_line path (index + 1) lines
      else (case parse_line (index + 1) line of
          Inl error \<Rightarrow> Inl error
        | Inr f \<Rightarrow> map_sum id (\<lambda>fs. (path, index + 1, f) # fs) (load_lines parse_line path (index + 1) lines)))"

text \<open>\<open>read_to_string\<close> gives the content of a path or the text of its error.\<close>

fun load_paths :: "(ustr \<Rightarrow> nat \<Rightarrow> ustr \<Rightarrow> ustr + fixture) \<Rightarrow> (ustr \<Rightarrow> ustr + ustr) \<Rightarrow> ustr list
    \<Rightarrow> ustr + (ustr \<times> nat \<times> fixture) list" where
  "load_paths parse_line read_to_string [] = Inr []"
| "load_paths parse_line read_to_string (path # paths) =
     (case read_to_string path of
        Inl error \<Rightarrow> Inl (lit ''cannot read '' @ path @ lit '': '' @ error)
      | Inr content \<Rightarrow>
          (case load_lines (parse_line path) path 0 (lines_of content) of
             Inl error \<Rightarrow> Inl error
           | Inr fixtures \<Rightarrow> map_sum id (\<lambda>fs. fixtures @ fs) (load_paths parse_line read_to_string paths)))"

text \<open>\<open>collect\<close> into a \<open>Result\<close>: the first error, or all values.\<close>

fun collect_results :: "('e + 'a) list \<Rightarrow> 'e + 'a list" where
  "collect_results [] = Inr []"
| "collect_results (Inl e # rs) = Inl e"
| "collect_results (Inr x # rs) = map_sum id (\<lambda>xs. x # xs) (collect_results rs)"

text \<open>
  \<open>listing\<close> is what \<open>read_dir\<close> yields, \<open>extension\<close> is \<open>Path::extension\<close>, and \<open>sort_paths\<close> the sort of
  paths; the corpus directory is passed for the error text.
\<close>

record corpus_io =
  ci_listing :: "ustr + (ustr + ustr) list"
  ci_extension :: "ustr \<Rightarrow> ustr option"
  ci_sort_paths :: "ustr list \<Rightarrow> ustr list"
  ci_read_to_string :: "ustr \<Rightarrow> ustr + ustr"
  ci_json :: "ustr \<Rightarrow> ustr + fixture"

definition load_corpus :: "corpus_io \<Rightarrow> ustr \<Rightarrow> ustr + (ustr \<times> nat \<times> fixture) list" where
  "load_corpus io directory =
     (case ci_listing io of
        Inl error \<Rightarrow> Inl (lit ''cannot read corpus directory '' @ directory @ lit '': '' @ error)
      | Inr entries \<Rightarrow>
          (case collect_results (map (map_sum (\<lambda>error. lit ''cannot read corpus entry: '' @ error) id) entries) of
             Inl error \<Rightarrow> Inl error
           | Inr paths \<Rightarrow>
               load_paths (parse_fixture (ci_json io)) (ci_read_to_string io)
                 (ci_sort_paths io (filter (\<lambda>path. ci_extension io path = Some (lit ''jsonl'')) paths))))"

text \<open>The loader of the second program panics (\<open>None\<close>) on every error and validates nothing.\<close>

definition load_policy_corpus :: "corpus_io \<Rightarrow> (ustr \<times> nat \<times> fixture) list option" where
  "load_policy_corpus io =
     (case ci_listing io of
        Inl _ \<Rightarrow> None
      | Inr entries \<Rightarrow>
          (case collect_results entries of
             Inl _ \<Rightarrow> None
           | Inr paths \<Rightarrow>
               (case load_paths (\<lambda>path line_number line. ci_json io line) (ci_read_to_string io)
                   (ci_sort_paths io (filter (\<lambda>path. ci_extension io path = Some (lit ''jsonl'')) paths)) of
                  Inl _ \<Rightarrow> None
                | Inr fixtures \<Rightarrow> Some fixtures)))"

subsection \<open>The test of the engine\<close>

definition run_fixture :: "unicode \<Rightarrow> fixture \<Rightarrow> ((ustr \<times> unsupported_behavior) + ustr) option" where
  "run_fixture U f = map_option (map_sum (\<lambda>error. (fx_name f, error)) id) (run_keys U engine_new [] (fx_raw_keys f))"

definition engine_fixture :: "fixture \<Rightarrow> bool" where
  "engine_fixture f \<longleftrightarrow> fx_status f = lit ''active'' \<and> fx_reason f = lit ''M1Engine''"

definition engine_corpus_test :: "unicode \<Rightarrow> fixture list \<Rightarrow> bool" where
  "engine_corpus_test U fixtures \<longleftrightarrow>
     150 \<le> length fixtures \<and>
     list_all (\<lambda>f. run_fixture U f = Some (Inr (fx_expected_text f))) (filter engine_fixture fixtures) \<and>
     100 \<le> length (filter engine_fixture fixtures)"

subsection \<open>The test of the classifier and the policy\<close>

text \<open>\<open>None\<close> is the panic on an unsupported value.\<close>

definition corpus_context :: "ustr \<Rightarrow> input_context option" where
  "corpus_context v =
     (if v = lit ''writing'' then Some IC_Writing
      else if v = lit ''technical-editor'' then Some IC_TechnicalEditor
      else if v = lit ''terminal'' then Some IC_Terminal
      else if v = lit ''secure'' then Some IC_Secure
      else if v = lit ''remote'' then Some IC_Remote
      else if v = lit ''unknown'' then Some IC_Unknown
      else None)"

definition corpus_boundary :: "ustr option \<Rightarrow> token_boundary option" where
  "corpus_boundary v =
     (let name = case_option (lit ''Space'') id v in
      if name = lit ''Space'' then Some TB_Space
      else if name = lit ''Enter'' then Some TB_Enter
      else if name = lit ''Tab'' then Some TB_Tab
      else if name = lit ''Punctuation(.)'' then Some (TB_Punctuation (chr CHR ''.''))
      else None)"

definition corpus_reason :: "ustr \<Rightarrow> decision_reason option" where
  "corpus_reason v =
     (if v = lit ''ExactEnglishDictionary'' then Some DR_ExactEnglishDictionary
      else if v = lit ''ExactTechnicalDictionary'' then Some DR_ExactTechnicalDictionary
      else if v = lit ''ExactProductDictionary'' then Some DR_ExactProductDictionary
      else if v = lit ''UserAllowList'' then Some DR_UserAllowList
      else if v = lit ''NeverTransformPattern'' then Some DR_NeverTransformPattern
      else if v = lit ''VietnameseCandidate'' then Some DR_VietnameseCandidate
      else if v = lit ''ContextBlocked'' then Some DR_ContextBlocked
      else if v = lit ''InsufficientConfidence'' then Some DR_InsufficientConfidence
      else if v = lit ''UnsupportedInput'' then Some DR_UnsupportedInput
      else None)"

fun decision_parts :: "recovery_decision \<Rightarrow> ustr \<times> decision_reason" where
  "decision_parts (RD_KeepVietnamese reason) = (lit ''KeepVietnamese'', reason)"
| "decision_parts (RD_RestoreEnglish _ _ reason) = (lit ''RestoreEnglish'', reason)"
| "decision_parts (RD_Ambiguous _ reason) = (lit ''Ambiguous'', reason)"

definition policy_fixture :: "fixture \<Rightarrow> bool" where
  "policy_fixture f \<longleftrightarrow> fx_status f = lit ''active'' \<and> fx_reason f \<noteq> lit ''M1Engine''"

definition exact_fixture :: "fixture \<Rightarrow> bool" where
  "exact_fixture f \<longleftrightarrow> starts_with (lit ''Exact'') (fx_reason f)"

text \<open>The body of the loop for an active fixture; false where an assertion fails or a step panics.\<close>

definition policy_fixture_ok :: "unicode \<Rightarrow> fixture \<Rightarrow> bool" where
  "policy_fixture_ok U f =
     (case fx_telex_rendered f of
        None \<Rightarrow> False
      | Some text \<Rightarrow>
          (exact_fixture f \<longrightarrow> compose (fx_raw_keys f) = Inr text \<and> text \<noteq> fx_raw_keys f) \<and>
          (case corpus_boundary (fx_boundary f) of
             None \<Rightarrow> False
           | Some token_boundary \<Rightarrow>
               (case corpus_context (fx_context f) of
                  None \<Rightarrow> False
                | Some context \<Rightarrow>
                    (let evidence = classifier_classify U built_in_classify
                           \<lparr>rq_raw = fx_raw_keys f, rq_rendered = text, rq_boundary = token_boundary, rq_context = context\<rparr>;
                         outcome = decide U evidence context text;
                         (actual_decision, actual_reason) = decision_parts (po_decision outcome);
                         visible = (case po_edit_plan outcome of None \<Rightarrow> text | Some plan \<Rightarrow> apply_edit_plan U text plan)
                     in actual_decision = fx_decision f \<and> Some actual_reason = corpus_reason (fx_reason f) \<and>
                        visible = fx_expected_text f \<and>
                        (case fx_expected_edit_plan f of
                           None \<Rightarrow> True
                         | Some x \<Rightarrow> po_edit_plan outcome =
                             Some \<lparr>delete_graphemes = xp_delete_graphemes x, insert_text = xp_insert_text x\<rparr>)))))"

definition policy_count :: "ustr \<Rightarrow> fixture list \<Rightarrow> nat" where
  "policy_count reason fixtures = length (filter (\<lambda>f. fx_reason f = reason) fixtures)"

definition policy_corpus_test :: "unicode \<Rightarrow> fixture list \<Rightarrow> bool" where
  "policy_corpus_test U fixtures \<longleftrightarrow>
     list_all (\<lambda>f. fx_schema_version f = 1 \<and> trim_ws (fx_name f) \<noteq> [] \<and> trim_ws (fx_explanation f) \<noteq> []) fixtures \<and>
     list_all (policy_fixture_ok U) (filter policy_fixture fixtures) \<and>
     180 \<le> length (filter policy_fixture fixtures) \<and>
     50 \<le> length (filter exact_fixture (filter policy_fixture fixtures)) \<and>
     40 \<le> policy_count (lit ''VietnameseCandidate'') (filter policy_fixture fixtures) \<and>
     50 \<le> policy_count (lit ''NeverTransformPattern'') (filter policy_fixture fixtures) \<and>
     20 \<le> policy_count (lit ''ContextBlocked'') (filter policy_fixture fixtures) \<and>
     20 \<le> policy_count (lit ''InsufficientConfidence'') (filter policy_fixture fixtures)"

subsection \<open>What the loader guarantees\<close>

text \<open>Every loaded fixture was validated at its place, and every error of a line names its place.\<close>

definition loaded_from :: "(ustr \<Rightarrow> ustr + fixture) \<Rightarrow> ustr \<Rightarrow> nat \<Rightarrow> ustr list \<Rightarrow> ustr \<times> nat \<times> fixture \<Rightarrow> bool" where
  "loaded_from json path n ls entry \<longleftrightarrow>
     (\<exists>k f. k < length ls \<and> entry = (path, n + k + 1, f) \<and> json (ls ! k) = Inr f \<and>
        validate_fixture path (n + k + 1) f = Inr ())"

lemma loaded_from_later: "loaded_from json path (n + 1) ls entry \<Longrightarrow> loaded_from json path n (l # ls) entry"
  unfolding loaded_from_def by (elim exE conjE, rule_tac x = "Suc k" in exI) auto

lemma loaded_from_here:
  "json l = Inr f \<Longrightarrow> validate_fixture path (n + 1) f = Inr () \<Longrightarrow> loaded_from json path n (l # ls) (path, n + 1, f)"
  unfolding loaded_from_def by (rule exI [of _ 0]) auto

lemma load_lines_validated:
  "load_lines (parse_fixture json path) path n ls = Inr fs \<Longrightarrow> list_all (loaded_from json path n ls) fs"
proof (induction ls arbitrary: n fs)
  case (Cons l ls)
  have later: "list_all (loaded_from json path n (l # ls)) gs"
    if "load_lines (parse_fixture json path) path (n + 1) ls = Inr gs" for gs
    using Cons.IH [OF that] loaded_from_later by (auto simp: list_all_iff)
  show ?case
  proof (cases "trim_ws l = []")
    case True
    with Cons.prems later show ?thesis by simp
  next
    case False
    then obtain f gs where f: "parse_fixture json path (n + 1) l = Inr f" "fs = (path, n + 1, f) # gs"
      and "load_lines (parse_fixture json path) path (n + 1) ls = Inr gs"
      using Cons.prems by (cases "load_lines (parse_fixture json path) path (n + 1) ls") (auto split: sum.splits)
    moreover have "json l = Inr f" "validate_fixture path (n + 1) f = Inr ()"
      using f(1) by (auto simp: parse_fixture_def split: sum.splits)
    ultimately show ?thesis using later loaded_from_here by simp
  qed
qed simp

lemma load_paths_validated:
  "load_paths (parse_fixture json) reads ps = Inr fs \<Longrightarrow>
     list_all (\<lambda>(path, line, f). validate_fixture path line f = Inr ()) fs"
proof (induction ps arbitrary: fs)
  case (Cons p ps)
  obtain content loaded more where "load_lines (parse_fixture json p) p 0 (lines_of content) = Inr loaded"
    "load_paths (parse_fixture json) reads ps = Inr more" "fs = loaded @ more"
    using Cons.prems by (cases "load_paths (parse_fixture json) reads ps") (auto split: sum.splits)
  with Cons.IH load_lines_validated [of json p 0 "lines_of content" loaded] show ?case
    by (auto simp: list_all_iff loaded_from_def)
qed simp

lemma load_corpus_validated:
  "load_corpus io directory = Inr fs \<Longrightarrow> list_all (\<lambda>(path, line, f). validate_fixture path line f = Inr ()) fs"
  by (auto simp: load_corpus_def intro: load_paths_validated split: sum.splits)

text \<open>The second test of the program: malformed data is reported with an actionable location.\<close>

lemma malformed_data_has_location:
  assumes "json line = Inl error"
  shows "\<exists>e. parse_fixture json (lit ''tests/corpus/broken.jsonl'') 7 line = Inl e \<and>
    contains_sub (lit ''tests/corpus/broken.jsonl:7'') e \<and> contains_sub (lit ''invalid corpus JSON'') e"
proof -
  have c: "contains_sub p (a @ p @ b)" for p a b :: ustr
  proof (induction a)
    case Nil
    then show ?case by (cases p; cases b) (simp_all add: starts_with_def)
  qed simp
  have "parse_fixture json (lit ''tests/corpus/broken.jsonl'') 7 line =
      Inl (lit ''tests/corpus/broken.jsonl:7'' @ lit '': '' @ lit ''invalid corpus JSON'' @ lit '': '' @ error)"
    using assms by (simp add: parse_fixture_def fixture_location_def show_nat.simps)
  then show ?thesis
    using c [of "lit ''tests/corpus/broken.jsonl:7''" "[]"]
      c [of "lit ''invalid corpus JSON''" "lit ''tests/corpus/broken.jsonl:7'' @ lit '': ''"]
    by (simp del: list.map)
qed

end
