(* ===== verification/Corpus_Check.thy ===== *)
theory Corpus_Check
  imports Corpus_Data
begin

text \<open>
  The model passes both test programs of the corpus, row by row.  The rows are evaluated by the
  simplifier file by file: for the engine through the theorem about typed documents, for the policy
  with one concrete Unicode table, of which the result does not depend.
\<close>

text \<open>The texts that name contexts, boundaries, reasons and statuses, read without spelling them out.\<close>

lemma row_texts:
  "corpus_context (lit ''remote'') = Some IC_Remote"
  "corpus_context (lit ''secure'') = Some IC_Secure"
  "corpus_context (lit ''technical-editor'') = Some IC_TechnicalEditor"
  "corpus_context (lit ''terminal'') = Some IC_Terminal"
  "corpus_context (lit ''unknown'') = Some IC_Unknown"
  "corpus_context (lit ''writing'') = Some IC_Writing"
  "corpus_boundary (Some (lit ''Space'')) = Some TB_Space"
  "corpus_boundary (Some (lit ''Punctuation(.)'')) = Some (TB_Punctuation 46)"
  "corpus_reason (lit ''ContextBlocked'') = Some DR_ContextBlocked"
  "(lit ''ContextBlocked'' = lit ''M1Engine'') = False"
  "starts_with (lit ''Exact'') (lit ''ContextBlocked'') = False"
  "corpus_reason (lit ''ExactEnglishDictionary'') = Some DR_ExactEnglishDictionary"
  "(lit ''ExactEnglishDictionary'' = lit ''M1Engine'') = False"
  "starts_with (lit ''Exact'') (lit ''ExactEnglishDictionary'') = True"
  "corpus_reason (lit ''ExactProductDictionary'') = Some DR_ExactProductDictionary"
  "(lit ''ExactProductDictionary'' = lit ''M1Engine'') = False"
  "starts_with (lit ''Exact'') (lit ''ExactProductDictionary'') = True"
  "corpus_reason (lit ''ExactTechnicalDictionary'') = Some DR_ExactTechnicalDictionary"
  "(lit ''ExactTechnicalDictionary'' = lit ''M1Engine'') = False"
  "starts_with (lit ''Exact'') (lit ''ExactTechnicalDictionary'') = True"
  "corpus_reason (lit ''InsufficientConfidence'') = Some DR_InsufficientConfidence"
  "(lit ''InsufficientConfidence'' = lit ''M1Engine'') = False"
  "starts_with (lit ''Exact'') (lit ''InsufficientConfidence'') = False"
  "corpus_reason (lit ''NeverTransformPattern'') = Some DR_NeverTransformPattern"
  "(lit ''NeverTransformPattern'' = lit ''M1Engine'') = False"
  "starts_with (lit ''Exact'') (lit ''NeverTransformPattern'') = False"
  "corpus_reason (lit ''VietnameseCandidate'') = Some DR_VietnameseCandidate"
  "(lit ''VietnameseCandidate'' = lit ''M1Engine'') = False"
  "starts_with (lit ''Exact'') (lit ''VietnameseCandidate'') = False"
  "(trim_ws (lit ''Ambiguous'') = []) = False"
  "(trim_ws (lit ''BackspaceRecompose'') = []) = False"
  "(trim_ws (lit ''Boundary'') = []) = False"
  "(trim_ws (lit ''ContextBlocked'') = []) = False"
  "(trim_ws (lit ''ExactEnglishDictionary'') = []) = False"
  "(trim_ws (lit ''ExactProductDictionary'') = []) = False"
  "(trim_ws (lit ''ExactTechnicalDictionary'') = []) = False"
  "(trim_ws (lit ''InsufficientConfidence'') = []) = False"
  "(trim_ws (lit ''KeepVietnamese'') = []) = False"
  "(trim_ws (lit ''M1Engine'') = []) = False"
  "(trim_ws (lit ''NeverTransform'') = []) = False"
  "(trim_ws (lit ''NeverTransformPattern'') = []) = False"
  "(trim_ws (lit ''RenderTelex'') = []) = False"
  "(trim_ws (lit ''RestoreEnglish'') = []) = False"
  "(trim_ws (lit ''VietnameseCandidate'') = []) = False"
  "(trim_ws (lit ''active'') = []) = False"
  "(trim_ws (lit ''planned'') = []) = False"
  "(trim_ws (lit ''remote'') = []) = False"
  "(trim_ws (lit ''secure'') = []) = False"
  "(trim_ws (lit ''technical-editor'') = []) = False"
  "(trim_ws (lit ''terminal'') = []) = False"
  "(trim_ws (lit ''unknown'') = []) = False"
  "(trim_ws (lit ''writing'') = []) = False"
  "starts_with (lit ''Exact'') (lit ''M1Engine'') = False"
  "(lit ''active'' = lit ''planned'') = False"
  "(lit ''planned'' = lit ''active'') = False"
  by (simp_all add: corpus_context_def corpus_boundary_def corpus_reason_def starts_with_def trim_ws_def is_whitespace_def)

subsection \<open>Evaluation of the engine\<close>

text \<open>The table, letter by letter, and what composing a key needs.\<close>

lemma vowel_letters:
  "decode_vowel 97 = Some (VS_A, T_None)" "decode_vowel 0xE0 = Some (VS_A, T_Grave)"
  "decode_vowel 0xE1 = Some (VS_A, T_Acute)" "decode_vowel 0x1EA3 = Some (VS_A, T_Hook)"
  "decode_vowel 0xE3 = Some (VS_A, T_Tilde)" "decode_vowel 0x1EA1 = Some (VS_A, T_Dot)"
  "decode_vowel 0x103 = Some (VS_Abreve, T_None)" "decode_vowel 0x1EB1 = Some (VS_Abreve, T_Grave)"
  "decode_vowel 0x1EAF = Some (VS_Abreve, T_Acute)" "decode_vowel 0x1EB3 = Some (VS_Abreve, T_Hook)"
  "decode_vowel 0x1EB5 = Some (VS_Abreve, T_Tilde)" "decode_vowel 0x1EB7 = Some (VS_Abreve, T_Dot)"
  "decode_vowel 0xE2 = Some (VS_Acirc, T_None)" "decode_vowel 0x1EA7 = Some (VS_Acirc, T_Grave)"
  "decode_vowel 0x1EA5 = Some (VS_Acirc, T_Acute)" "decode_vowel 0x1EA9 = Some (VS_Acirc, T_Hook)"
  "decode_vowel 0x1EAB = Some (VS_Acirc, T_Tilde)" "decode_vowel 0x1EAD = Some (VS_Acirc, T_Dot)"
  "decode_vowel 101 = Some (VS_E, T_None)" "decode_vowel 0xE8 = Some (VS_E, T_Grave)"
  "decode_vowel 0xE9 = Some (VS_E, T_Acute)" "decode_vowel 0x1EBB = Some (VS_E, T_Hook)"
  "decode_vowel 0x1EBD = Some (VS_E, T_Tilde)" "decode_vowel 0x1EB9 = Some (VS_E, T_Dot)"
  "decode_vowel 0xEA = Some (VS_Ecirc, T_None)" "decode_vowel 0x1EC1 = Some (VS_Ecirc, T_Grave)"
  "decode_vowel 0x1EBF = Some (VS_Ecirc, T_Acute)" "decode_vowel 0x1EC3 = Some (VS_Ecirc, T_Hook)"
  "decode_vowel 0x1EC5 = Some (VS_Ecirc, T_Tilde)" "decode_vowel 0x1EC7 = Some (VS_Ecirc, T_Dot)"
  "decode_vowel 105 = Some (VS_I, T_None)" "decode_vowel 0xEC = Some (VS_I, T_Grave)"
  "decode_vowel 0xED = Some (VS_I, T_Acute)" "decode_vowel 0x1EC9 = Some (VS_I, T_Hook)"
  "decode_vowel 0x129 = Some (VS_I, T_Tilde)" "decode_vowel 0x1ECB = Some (VS_I, T_Dot)"
  "decode_vowel 111 = Some (VS_O, T_None)" "decode_vowel 0xF2 = Some (VS_O, T_Grave)"
  "decode_vowel 0xF3 = Some (VS_O, T_Acute)" "decode_vowel 0x1ECF = Some (VS_O, T_Hook)"
  "decode_vowel 0xF5 = Some (VS_O, T_Tilde)" "decode_vowel 0x1ECD = Some (VS_O, T_Dot)"
  "decode_vowel 0xF4 = Some (VS_Ocirc, T_None)" "decode_vowel 0x1ED3 = Some (VS_Ocirc, T_Grave)"
  "decode_vowel 0x1ED1 = Some (VS_Ocirc, T_Acute)" "decode_vowel 0x1ED5 = Some (VS_Ocirc, T_Hook)"
  "decode_vowel 0x1ED7 = Some (VS_Ocirc, T_Tilde)" "decode_vowel 0x1ED9 = Some (VS_Ocirc, T_Dot)"
  "decode_vowel 0x1A1 = Some (VS_Ohorn, T_None)" "decode_vowel 0x1EDD = Some (VS_Ohorn, T_Grave)"
  "decode_vowel 0x1EDB = Some (VS_Ohorn, T_Acute)" "decode_vowel 0x1EDF = Some (VS_Ohorn, T_Hook)"
  "decode_vowel 0x1EE1 = Some (VS_Ohorn, T_Tilde)" "decode_vowel 0x1EE3 = Some (VS_Ohorn, T_Dot)"
  "decode_vowel 117 = Some (VS_U, T_None)" "decode_vowel 0xF9 = Some (VS_U, T_Grave)"
  "decode_vowel 0xFA = Some (VS_U, T_Acute)" "decode_vowel 0x1EE7 = Some (VS_U, T_Hook)"
  "decode_vowel 0x169 = Some (VS_U, T_Tilde)" "decode_vowel 0x1EE5 = Some (VS_U, T_Dot)"
  "decode_vowel 0x1B0 = Some (VS_Uhorn, T_None)" "decode_vowel 0x1EEB = Some (VS_Uhorn, T_Grave)"
  "decode_vowel 0x1EE9 = Some (VS_Uhorn, T_Acute)" "decode_vowel 0x1EED = Some (VS_Uhorn, T_Hook)"
  "decode_vowel 0x1EEF = Some (VS_Uhorn, T_Tilde)" "decode_vowel 0x1EF1 = Some (VS_Uhorn, T_Dot)"
  "decode_vowel 121 = Some (VS_Y, T_None)" "decode_vowel 0x1EF3 = Some (VS_Y, T_Grave)"
  "decode_vowel 0xFD = Some (VS_Y, T_Acute)" "decode_vowel 0x1EF7 = Some (VS_Y, T_Hook)"
  "decode_vowel 0x1EF9 = Some (VS_Y, T_Tilde)" "decode_vowel 0x1EF5 = Some (VS_Y, T_Dot)"
  by (simp_all add: decode_vowel_def VOWELS_def SHAPES_def tone_of_column_def)

lemma consonants:
  "c < 128 \<Longrightarrow> c \<noteq> 97 \<Longrightarrow> c \<noteq> 101 \<Longrightarrow> c \<noteq> 105 \<Longrightarrow> c \<noteq> 111 \<Longrightarrow> c \<noteq> 117 \<Longrightarrow> c \<noteq> 121 \<Longrightarrow> decode_vowel c = None"
  "decode_vowel 0x111 = None"
  by (simp_all add: decode_vowel_def VOWELS_def SHAPES_def tone_of_column_def)

lemmas telex_eval = vowel_letters consonants encode_vowel_def VOWELS_def SHAPES_def compose_step_def
  try_shape_transform_def try_tone_def rposition_def requested_tone_def shape_rule_def D_STROKE_def Let_def

lemmas typing_eval = telex_eval typed_text_def BACKSPACE_KEY_def boundary_from_char_def is_ascii_punctuation_def

text \<open>A row of the engine passes when its keys are in the scope of the theorem and compose to its text.\<close>

definition typed_ok :: "ustr \<Rightarrow> ustr \<Rightarrow> bool" where
  "typed_ok keys shown \<longleftrightarrow> is_ascii_str keys \<and> 13 \<notin> set keys \<and> typed_text keys = shown"

definition engine_row_ok :: "fixture \<Rightarrow> bool" where
  "engine_row_ok f \<longleftrightarrow> (engine_fixture f \<longrightarrow> typed_ok (fx_raw_keys f) (fx_expected_text f))"

lemma engine_row [simp]:
  "engine_row_ok (fixture_row n raw c shown d st e re t b) \<longleftrightarrow>
     (st = lit ''active'' \<and> re = lit ''M1Engine'' \<longrightarrow> typed_ok raw shown)"
  by (simp add: engine_row_ok_def engine_fixture_def fixture_row_def)

lemma engine_row_passes:
  assumes "simple_graphemes U" and "engine_row_ok f" and "engine_fixture f"
  shows "run_fixture U f = Some (Inr (fx_expected_text f))"
  using assms run_keys_typed [OF assms(1) _ _ typing_new, of "fx_raw_keys f"]
  by (simp add: run_fixture_def engine_row_ok_def typed_ok_def typed_text_def)

lemma engine_corpus_01_telex_vowels_a: "list_all engine_row_ok corpus_01_telex_vowels_a"
  unfolding corpus_01_telex_vowels_a_def list.pred_inject engine_row
  by (simp only: row_texts list.pred_inject refl simp_thms) (simp add: typed_ok_def is_ascii_def typing_eval)

lemma engine_corpus_01_telex_vowels_b: "list_all engine_row_ok corpus_01_telex_vowels_b"
  unfolding corpus_01_telex_vowels_b_def list.pred_inject engine_row
  by (simp only: row_texts list.pred_inject refl simp_thms) (simp add: typed_ok_def is_ascii_def typing_eval)

lemma engine_corpus_02_telex_tones_a: "list_all engine_row_ok corpus_02_telex_tones_a"
  unfolding corpus_02_telex_tones_a_def list.pred_inject engine_row
  by (simp only: row_texts list.pred_inject refl simp_thms) (simp add: typed_ok_def is_ascii_def typing_eval)

lemma engine_corpus_02_telex_tones_b: "list_all engine_row_ok corpus_02_telex_tones_b"
  unfolding corpus_02_telex_tones_b_def list.pred_inject engine_row
  by (simp only: row_texts list.pred_inject refl simp_thms) (simp add: typed_ok_def is_ascii_def typing_eval)

lemma engine_corpus_02_telex_tones_c: "list_all engine_row_ok corpus_02_telex_tones_c"
  unfolding corpus_02_telex_tones_c_def list.pred_inject engine_row
  by (simp only: row_texts list.pred_inject refl simp_thms) (simp add: typed_ok_def is_ascii_def typing_eval)

lemma engine_corpus_03_telex_backspace: "list_all engine_row_ok corpus_03_telex_backspace"
  unfolding corpus_03_telex_backspace_def list.pred_inject engine_row
  by (simp only: row_texts list.pred_inject refl simp_thms) (simp add: typed_ok_def is_ascii_def typing_eval)

lemma engine_corpus_04_vietnamese_negative: "list_all engine_row_ok corpus_04_vietnamese_negative"
  unfolding corpus_04_vietnamese_negative_def list.pred_inject engine_row
  by (simp only: row_texts list.pred_inject refl simp_thms) (simp add: typed_ok_def is_ascii_def typing_eval)

lemma engine_corpus_05_english_it_recovery_future: "list_all engine_row_ok corpus_05_english_it_recovery_future"
  unfolding corpus_05_english_it_recovery_future_def list.pred_inject engine_row
  by (simp only: row_texts list.pred_inject refl simp_thms)

lemma engine_corpus_06_never_transform: "list_all engine_row_ok corpus_06_never_transform"
  unfolding corpus_06_never_transform_def list.pred_inject engine_row
  by (simp only: row_texts list.pred_inject refl simp_thms)

lemma engine_corpus_07_boundaries: "list_all engine_row_ok corpus_07_boundaries"
  unfolding corpus_07_boundaries_def list.pred_inject engine_row
  by (simp only: row_texts list.pred_inject refl simp_thms) (simp add: typed_ok_def is_ascii_def typing_eval)

lemma engine_corpus_08_context_policy_future: "list_all engine_row_ok corpus_08_context_policy_future"
  unfolding corpus_08_context_policy_future_def list.pred_inject engine_row
  by (simp only: row_texts list.pred_inject refl simp_thms)

lemma engine_corpus_09_m2_exact_dictionary_a: "list_all engine_row_ok corpus_09_m2_exact_dictionary_a"
  unfolding corpus_09_m2_exact_dictionary_a_def list.pred_inject engine_row
  by (simp only: row_texts list.pred_inject refl simp_thms)

lemma engine_corpus_09_m2_exact_dictionary_b: "list_all engine_row_ok corpus_09_m2_exact_dictionary_b"
  unfolding corpus_09_m2_exact_dictionary_b_def list.pred_inject engine_row
  by (simp only: row_texts list.pred_inject refl simp_thms)

lemma engine_corpus_09_m2_exact_dictionary_c: "list_all engine_row_ok corpus_09_m2_exact_dictionary_c"
  unfolding corpus_09_m2_exact_dictionary_c_def list.pred_inject engine_row
  by (simp only: row_texts list.pred_inject refl simp_thms)

lemma engine_corpus_10_m2_vietnamese_negative_a: "list_all engine_row_ok corpus_10_m2_vietnamese_negative_a"
  unfolding corpus_10_m2_vietnamese_negative_a_def list.pred_inject engine_row
  by (simp only: row_texts list.pred_inject refl simp_thms)

lemma engine_corpus_10_m2_vietnamese_negative_b: "list_all engine_row_ok corpus_10_m2_vietnamese_negative_b"
  unfolding corpus_10_m2_vietnamese_negative_b_def list.pred_inject engine_row
  by (simp only: row_texts list.pred_inject refl simp_thms)

lemma engine_corpus_11_m2_never_transform_a: "list_all engine_row_ok corpus_11_m2_never_transform_a"
  unfolding corpus_11_m2_never_transform_a_def list.pred_inject engine_row
  by (simp only: row_texts list.pred_inject refl simp_thms)

lemma engine_corpus_11_m2_never_transform_b: "list_all engine_row_ok corpus_11_m2_never_transform_b"
  unfolding corpus_11_m2_never_transform_b_def list.pred_inject engine_row
  by (simp only: row_texts list.pred_inject refl simp_thms)

lemma engine_corpus_11_m2_never_transform_c: "list_all engine_row_ok corpus_11_m2_never_transform_c"
  unfolding corpus_11_m2_never_transform_c_def list.pred_inject engine_row
  by (simp only: row_texts list.pred_inject refl simp_thms)

lemma engine_corpus_12_m2_context_policy_a: "list_all engine_row_ok corpus_12_m2_context_policy_a"
  unfolding corpus_12_m2_context_policy_a_def list.pred_inject engine_row
  by (simp only: row_texts list.pred_inject refl simp_thms)

lemma engine_corpus_12_m2_context_policy_b: "list_all engine_row_ok corpus_12_m2_context_policy_b"
  unfolding corpus_12_m2_context_policy_b_def list.pred_inject engine_row
  by (simp only: row_texts list.pred_inject refl simp_thms)

lemma engine_corpus_13_m2_ambiguous: "list_all engine_row_ok corpus_13_m2_ambiguous"
  unfolding corpus_13_m2_ambiguous_def list.pred_inject engine_row
  by (simp only: row_texts list.pred_inject refl simp_thms)

lemma engine_corpus_initial: "list_all engine_row_ok corpus_initial"
  unfolding corpus_initial_def list.pred_inject engine_row
  by (simp only: row_texts list.pred_inject refl simp_thms) (simp add: typed_ok_def is_ascii_def typing_eval)

subsection \<open>Evaluation of the policy\<close>

text \<open>
  For ASCII keys the outcome does not depend on the Unicode table, and a plan is applied to the very
  text it starts from, so that its effect is the candidate.
\<close>

definition policy_row_ok :: "fixture \<Rightarrow> bool" where
  "policy_row_ok f \<longleftrightarrow> (policy_fixture f \<longrightarrow>
     is_ascii_str (fx_raw_keys f) \<and> fx_expected_edit_plan f = None \<and> policy_fixture_ok scalar_unicode f)"

lemma visible_outcome:
  "segmentation U \<Longrightarrow>
     (case po_edit_plan (decide U ev ctx r) of None \<Rightarrow> r | Some plan \<Rightarrow> apply_edit_plan U r plan) =
     (case po_decision (decide U ev ctx r) of RD_RestoreEnglish w c d \<Rightarrow> w | _ \<Rightarrow> r)"
  using apply_edit_plan_between [of U r] by (cases ev; cases ctx; simp add: decide_def keep_def)

lemma decision_any_table: "po_decision (decide U ev ctx r) = po_decision (decide V ev ctx r)"
  by (cases ev; cases ctx; simp add: decide_def keep_def)

lemma evidence_any_table:
  "is_ascii_str (rq_raw rq) \<Longrightarrow> classifier_classify U dict rq = classifier_classify V dict rq"
  using classify_never_transform_ascii [of "rq_raw rq" U V] by (simp add: classifier_classify_def)

lemma policy_row_passes:
  assumes "segmentation U" and row: "policy_row_ok f" and "policy_fixture f"
  shows "policy_fixture_ok U f"
proof -
  have ok: "is_ascii_str (fx_raw_keys f)" "fx_expected_edit_plan f = None" "policy_fixture_ok scalar_unicode f"
    using row assms(3) by (auto simp: policy_row_ok_def)
  have e: "classifier_classify U built_in_classify \<lparr>rq_raw = fx_raw_keys f, rq_rendered = shown, rq_boundary = b, rq_context = c\<rparr> =
      classifier_classify scalar_unicode built_in_classify
        \<lparr>rq_raw = fx_raw_keys f, rq_rendered = shown, rq_boundary = b, rq_context = c\<rparr>" for shown b c
    by (rule evidence_any_table) (simp add: ok(1))
  show ?thesis
    using ok(2,3) unfolding policy_fixture_ok_def Let_def e visible_outcome [OF assms(1)]
      visible_outcome [OF segmentation_scalar_unicode] decision_any_table [of U _ _ _ scalar_unicode]
    by (simp split: option.splits prod.splits)
qed

text \<open>The result of a row, without the plan.\<close>

definition decides :: "ustr \<Rightarrow> ustr \<Rightarrow> token_boundary \<Rightarrow> input_context \<Rightarrow> ustr \<Rightarrow> decision_reason \<Rightarrow> ustr \<Rightarrow> bool" where
  "decides raw text b context decision reason visible \<longleftrightarrow>
     (let d = po_decision (decide scalar_unicode
            (classifier_classify scalar_unicode built_in_classify
               \<lparr>rq_raw = raw, rq_rendered = text, rq_boundary = b, rq_context = context\<rparr>) context text)
      in decision_parts d = (decision, reason) \<and>
         (case d of RD_RestoreEnglish w c r \<Rightarrow> w | _ \<Rightarrow> text) = visible)"

lemma policy_row [simp]:
  "policy_row_ok (fixture_row n raw c shown d st e re t b) \<longleftrightarrow>
     (st = lit ''active'' \<and> re \<noteq> lit ''M1Engine'' \<longrightarrow>
        is_ascii_str raw \<and>
        (case (t, corpus_boundary b, corpus_context c, corpus_reason re) of
           (Some text, Some tb, Some context, Some reason) \<Rightarrow>
             (starts_with (lit ''Exact'') re \<longrightarrow> compose raw = Inr text \<and> text \<noteq> raw) \<and>
             decides raw text tb context d reason shown
         | _ \<Rightarrow> False))"
  unfolding policy_row_ok_def policy_fixture_def policy_fixture_ok_def Let_def
    visible_outcome [OF segmentation_scalar_unicode]
  by (auto simp: fixture_row_def exact_fixture_def decides_def Let_def split: option.splits prod.splits)

lemmas pattern_eval = classify_never_transform_def looks_like_domain_def looks_like_email_def
  looks_like_windows_path_def looks_like_ipv4_def looks_like_ipv6_def looks_like_semver_def
  looks_like_uuid_def looks_like_hex_or_hash_def has_internal_uppercase_def looks_like_secret_def
  is_alphabetic_def char_class_defs is_whitespace_def starts_with_def strip_prefix_def
  to_ascii_lowercase_def utf8_char_def ulen_def parse_unsigned_def digits_value_def Let_def

text \<open>The words of the three dictionaries, as scalars.\<close>

lemma products_words: "dictionary_words products_lines =
    [[101, 115, 120, 105], [102, 105, 114, 101, 102, 111, 120], [102, 111, 114, 116, 105, 103, 97, 116, 101],
     [112, 102, 115, 101, 110, 115, 101], [114, 101, 100, 105, 115], [116, 97, 117, 114, 105],
     [118, 99, 101, 110, 116, 101, 114], [118, 109, 119, 97, 114, 101]]"
  by (simp add: dictionary_words_def products_lines_def trim_ws_def starts_with_def is_whitespace_def)

lemma it_common_words: "dictionary_words it_common_lines =
    [[99, 101, 114, 116, 105, 102, 105, 99, 97, 116, 101], [99, 108, 117, 115, 116, 101, 114],
     [99, 111, 109, 112, 105, 108, 101, 114], [99, 111, 110, 102, 105, 103], [100, 97, 116, 97, 98, 97, 115, 101],
     [100, 104, 99, 112], [100, 110, 115], [101, 110, 100, 112, 111, 105, 110, 116],
     [102, 105, 114, 101, 119, 97, 108, 108], [102, 113, 100, 110], [104, 111, 115, 116, 110, 97, 109, 101],
     [105, 105, 115], [107, 101, 114, 110, 101, 108], [110, 101, 116, 119, 111, 114, 107],
     [111, 112, 101, 110, 115, 115, 108], [112, 107, 105], [112, 111, 119, 101, 114, 115, 104, 101, 108, 108],
     [114, 100, 112], [114, 101, 103, 105, 115, 116, 114, 121], [114, 111, 117, 116, 101, 114],
     [115, 101, 114, 118, 105, 99, 101], [115, 116, 111, 114, 97, 103, 101], [116, 101, 114, 109, 105, 110, 97, 108],
     [118, 105, 114, 116, 117, 97, 108], [118, 108, 97, 110], [120, 114, 100, 112]]"
  by (simp add: dictionary_words_def it_common_lines_def trim_ws_def starts_with_def is_whitespace_def)

lemma en_common_words: "dictionary_words en_common_lines =
    [[98, 114, 111, 119, 115, 101, 114], [98, 117, 102, 102, 101, 114], [99, 108, 105, 101, 110, 116],
     [99, 117, 115, 116, 111, 109], [100, 101, 102, 97, 117, 108, 116], [100, 111, 119, 110, 108, 111, 97, 100],
     [100, 114, 105, 118, 101, 114], [101, 114, 114, 111, 114], [102, 101, 97, 116, 117, 114, 101],
     [102, 111, 108, 100, 101, 114], [102, 111, 114, 109, 97, 116], [105, 110, 115, 116, 97, 108, 108],
     [105, 110, 118, 101, 110, 116, 111, 114, 121], [108, 105, 98, 114, 97, 114, 121], [108, 111, 103, 103, 101, 114],
     [109, 101, 109, 111, 114, 121], [109, 101, 114, 103, 101], [109, 111, 110, 105, 116, 111, 114],
     [112, 97, 114, 115, 101, 114], [112, 97, 115, 115, 119, 111, 114, 100], [112, 114, 111, 102, 105, 108, 101],
     [112, 117, 108, 108], [112, 117, 115, 104], [114, 101, 102, 114, 101, 115, 104],
     [114, 101, 108, 101, 97, 115, 101], [114, 101, 113, 117, 101, 115, 116], [114, 101, 115, 101, 116],
     [114, 101, 115, 112, 111, 110, 115, 101], [114, 101, 115, 116, 111, 114, 101], [114, 101, 115, 117, 109, 101],
     [114, 111, 111, 116], [115, 101, 99, 114, 101, 116], [115, 101, 114, 118, 101, 114],
     [115, 101, 115, 115, 105, 111, 110], [115, 101, 116, 116, 105, 110, 103, 115], [115, 111, 117, 114, 99, 101],
     [115, 116, 97, 116, 117, 115], [115, 121, 115, 116, 101, 109], [116, 97, 114, 103, 101, 116],
     [116, 101, 115, 116], [116, 101, 115, 116, 105, 110, 103], [117, 112, 103, 114, 97, 100, 101],
     [117, 115, 101, 114, 110, 97, 109, 101], [118, 101, 114, 115, 105, 111, 110], [119, 97, 114, 110, 105, 110, 103]]"
  by (simp add: dictionary_words_def en_common_lines_def trim_ws_def starts_with_def is_whitespace_def)

lemmas words_eval = built_in_classify_words products_words it_common_words en_common_words

lemmas policy_eval = classifier_classify_def decide_def keep_def permits_candidate_def confidence_defs
  DEFAULT_AUTO_RECOVERY_THRESHOLD_def TECHNICAL_EDITOR_THRESHOLD_def is_vietnamese_candidate_def vietnamese_letter_def VIETNAMESE_RANGES_def

lemma not_lower_case: "classify_never_transform U [97, 98, 99, 49, 50, 51] = None"
  by (simp add: pattern_eval)

lemmas word_eval = lowercase_unprotected is_ascii_lowercase_def not_lower_case words_eval compose_ascii telex_eval is_ascii_def
  to_ascii_lowercase_def is_ascii_uppercase_def

lemma policy_corpus_01_telex_vowels_a: "list_all policy_row_ok corpus_01_telex_vowels_a"
  unfolding corpus_01_telex_vowels_a_def list.pred_inject policy_row
  by simp

lemma policy_corpus_01_telex_vowels_b: "list_all policy_row_ok corpus_01_telex_vowels_b"
  unfolding corpus_01_telex_vowels_b_def list.pred_inject policy_row
  by simp

lemma policy_corpus_02_telex_tones_a: "list_all policy_row_ok corpus_02_telex_tones_a"
  unfolding corpus_02_telex_tones_a_def list.pred_inject policy_row
  by simp

lemma policy_corpus_02_telex_tones_b: "list_all policy_row_ok corpus_02_telex_tones_b"
  unfolding corpus_02_telex_tones_b_def list.pred_inject policy_row
  by simp

lemma policy_corpus_02_telex_tones_c: "list_all policy_row_ok corpus_02_telex_tones_c"
  unfolding corpus_02_telex_tones_c_def list.pred_inject policy_row
  by simp

lemma policy_corpus_03_telex_backspace: "list_all policy_row_ok corpus_03_telex_backspace"
  unfolding corpus_03_telex_backspace_def list.pred_inject policy_row
  by simp

lemma policy_corpus_04_vietnamese_negative: "list_all policy_row_ok corpus_04_vietnamese_negative"
  unfolding corpus_04_vietnamese_negative_def list.pred_inject policy_row
  by simp

lemma policy_corpus_05_english_it_recovery_future: "list_all policy_row_ok corpus_05_english_it_recovery_future"
  unfolding corpus_05_english_it_recovery_future_def list.pred_inject policy_row
  by simp

lemma policy_corpus_06_never_transform: "list_all policy_row_ok corpus_06_never_transform"
  unfolding corpus_06_never_transform_def list.pred_inject policy_row
  by simp

lemma policy_corpus_07_boundaries: "list_all policy_row_ok corpus_07_boundaries"
  unfolding corpus_07_boundaries_def list.pred_inject policy_row
  by simp

lemma policy_corpus_08_context_policy_future: "list_all policy_row_ok corpus_08_context_policy_future"
  unfolding corpus_08_context_policy_future_def list.pred_inject policy_row
  by simp

lemma policy_corpus_09_m2_exact_dictionary_a: "list_all policy_row_ok corpus_09_m2_exact_dictionary_a"
  unfolding corpus_09_m2_exact_dictionary_a_def list.pred_inject policy_row
  by (simp only: row_texts refl simp_thms prod.case option.case)
    (simp add: decides_def policy_eval word_eval)

lemma policy_corpus_09_m2_exact_dictionary_b: "list_all policy_row_ok corpus_09_m2_exact_dictionary_b"
  unfolding corpus_09_m2_exact_dictionary_b_def list.pred_inject policy_row
  by (simp only: row_texts refl simp_thms prod.case option.case)
    (simp add: decides_def policy_eval word_eval)

lemma policy_corpus_09_m2_exact_dictionary_c: "list_all policy_row_ok corpus_09_m2_exact_dictionary_c"
  unfolding corpus_09_m2_exact_dictionary_c_def list.pred_inject policy_row
  by (simp only: row_texts refl simp_thms prod.case option.case)
    (simp add: decides_def policy_eval word_eval)

lemma policy_corpus_10_m2_vietnamese_negative_a: "list_all policy_row_ok corpus_10_m2_vietnamese_negative_a"
  unfolding corpus_10_m2_vietnamese_negative_a_def list.pred_inject policy_row
  by (simp only: row_texts refl simp_thms prod.case option.case)
    (simp add: decides_def policy_eval word_eval)

lemma policy_corpus_10_m2_vietnamese_negative_b: "list_all policy_row_ok corpus_10_m2_vietnamese_negative_b"
  unfolding corpus_10_m2_vietnamese_negative_b_def list.pred_inject policy_row
  by (simp only: row_texts refl simp_thms prod.case option.case)
    (simp add: decides_def policy_eval word_eval)

lemma policy_corpus_11_m2_never_transform_a: "list_all policy_row_ok corpus_11_m2_never_transform_a"
  unfolding corpus_11_m2_never_transform_a_def list.pred_inject policy_row
  by (simp only: row_texts refl simp_thms prod.case option.case)
    (simp add: decides_def policy_eval pattern_eval)

lemma policy_corpus_11_m2_never_transform_b: "list_all policy_row_ok corpus_11_m2_never_transform_b"
  unfolding corpus_11_m2_never_transform_b_def list.pred_inject policy_row
  by (simp only: row_texts refl simp_thms prod.case option.case)
    (simp add: decides_def policy_eval pattern_eval)

lemma policy_corpus_11_m2_never_transform_c: "list_all policy_row_ok corpus_11_m2_never_transform_c"
  unfolding corpus_11_m2_never_transform_c_def list.pred_inject policy_row
  by (simp only: row_texts refl simp_thms prod.case option.case)
    (simp add: decides_def policy_eval pattern_eval)

lemma policy_corpus_12_m2_context_policy_a: "list_all policy_row_ok corpus_12_m2_context_policy_a"
  unfolding corpus_12_m2_context_policy_a_def list.pred_inject policy_row
  by (simp only: row_texts refl simp_thms prod.case option.case)
    (simp add: decides_def policy_eval word_eval)

lemma policy_corpus_12_m2_context_policy_b: "list_all policy_row_ok corpus_12_m2_context_policy_b"
  unfolding corpus_12_m2_context_policy_b_def list.pred_inject policy_row
  by (simp only: row_texts refl simp_thms prod.case option.case)
    (simp add: decides_def policy_eval word_eval)

lemma policy_corpus_13_m2_ambiguous: "list_all policy_row_ok corpus_13_m2_ambiguous"
  unfolding corpus_13_m2_ambiguous_def list.pred_inject policy_row
  by (simp only: row_texts refl simp_thms prod.case option.case)
    (simp add: decides_def policy_eval word_eval)

lemma policy_corpus_initial: "list_all policy_row_ok corpus_initial"
  unfolding corpus_initial_def list.pred_inject policy_row
  by simp

subsection \<open>Validity and counts\<close>

text \<open>What the loader of the first program and the first assertions of the second one ask of a row.\<close>

definition valid_row :: "fixture \<Rightarrow> bool" where
  "valid_row f \<longleftrightarrow> fx_schema_version f = 1 \<and> list_all (\<lambda>(field, value). trim_ws value \<noteq> []) (fixture_fields f) \<and>
     (fx_status f = lit ''active'' \<or> fx_status f = lit ''planned'')"

lemma valid_row_validated:
  "valid_row f \<Longrightarrow> validate_fixture path n f = Inr () \<and> fx_schema_version f = 1 \<and> trim_ws (fx_name f) \<noteq> [] \<and>
     trim_ws (fx_explanation f) \<noteq> []"
  by (auto simp: valid_row_def validate_fixture_def fixture_fields_def Let_def)

lemma valid_fixture_row:
  "valid_row (fixture_row n raw c shown d st e re t b) \<longleftrightarrow>
     trim_ws n \<noteq> [] \<and> trim_ws c \<noteq> [] \<and> trim_ws d \<noteq> [] \<and> trim_ws st \<noteq> [] \<and> trim_ws e \<noteq> [] \<and> trim_ws re \<noteq> [] \<and>
     (st = lit ''active'' \<or> st = lit ''planned'')"
  by (simp add: valid_row_def fixture_fields_def fixture_row_def)

text \<open>A text with a visible first character is not blank.\<close>

lemma trim_visible: "\<not> is_whitespace c \<Longrightarrow> (trim_ws (c # s) = []) = False"
  by (induction s rule: rev_induct) (auto simp: trim_ws_def dropWhile_append)

lemma explanations:
  "(trim_ws tone_mapping = []) = False"
  "(trim_ws dictionary_match = []) = False"
  "(trim_ws structured_token = []) = False"
  "(trim_ws vietnamese_untouched = []) = False"
  "(trim_ws shape_or_literal = []) = False"
  "(trim_ws backspace_recomposes = []) = False"
  "(trim_ws single_vowel_kept = []) = False"
  "(trim_ws no_dictionary_yet = []) = False"
  "(trim_ws no_patterns_yet = []) = False"
  "(trim_ws boundary_preserved = []) = False"
  "(trim_ws context_vetoes = []) = False"
  "(trim_ws no_evidence = []) = False"
  "(trim_ws no_context_yet = []) = False"
  "(trim_ws product_match = []) = False"
  "(trim_ws technical_grade = []) = False"
  "(trim_ws secret_token = []) = False"
  by (simp_all add: explanation_defs trim_visible is_whitespace_def)

text \<open>
  The numbers the programs count: rows, active rows of the engine, active rows of the policy, those with
  an exact reason, and those with each of the four other reasons that are counted.
\<close>

definition corpus_counts :: "fixture list \<Rightarrow> nat list" where
  "corpus_counts fs =
     [length fs, length (filter engine_fixture fs), length (filter policy_fixture fs),
      length (filter exact_fixture (filter policy_fixture fs)),
      policy_count (lit ''VietnameseCandidate'') (filter policy_fixture fs),
      policy_count (lit ''NeverTransformPattern'') (filter policy_fixture fs),
      policy_count (lit ''ContextBlocked'') (filter policy_fixture fs),
      policy_count (lit ''InsufficientConfidence'') (filter policy_fixture fs)]"

lemma fixture_row_tests:
  "engine_fixture (fixture_row n raw c shown d st e re t b) \<longleftrightarrow> st = lit ''active'' \<and> re = lit ''M1Engine''"
  "policy_fixture (fixture_row n raw c shown d st e re t b) \<longleftrightarrow> st = lit ''active'' \<and> re \<noteq> lit ''M1Engine''"
  "exact_fixture (fixture_row n raw c shown d st e re t b) \<longleftrightarrow> starts_with (lit ''Exact'') re"
  "fx_reason (fixture_row n raw c shown d st e re t b) = re"
  by (simp_all add: engine_fixture_def policy_fixture_def exact_fixture_def fixture_row_def)

text \<open>A row contributes by its status and reason only.\<close>

definition kind_counts :: "ustr \<Rightarrow> ustr \<Rightarrow> nat list" where
  "kind_counts st re =
     (let active = st = lit ''active''; policy = active \<and> re \<noteq> lit ''M1Engine'' in
      map of_bool [True, active \<and> re = lit ''M1Engine'', policy, policy \<and> starts_with (lit ''Exact'') re,
        policy \<and> re = lit ''VietnameseCandidate'', policy \<and> re = lit ''NeverTransformPattern'',
        policy \<and> re = lit ''ContextBlocked'', policy \<and> re = lit ''InsufficientConfidence''])"

lemma corpus_counts_row:
  "corpus_counts (fixture_row n raw c shown d st e re t b # fs) = map2 (+) (kind_counts st re) (corpus_counts fs)"
  "corpus_counts [] = [0, 0, 0, 0, 0, 0, 0, 0]"
  by (simp_all add: corpus_counts_def policy_count_def kind_counts_def fixture_row_tests Let_def)

lemma kinds:
  "kind_counts (lit ''active'') (lit ''ContextBlocked'') = [1, 0, 1, 0, 0, 0, 1, 0]"
  "kind_counts (lit ''active'') (lit ''ExactEnglishDictionary'') = [1, 0, 1, 1, 0, 0, 0, 0]"
  "kind_counts (lit ''active'') (lit ''ExactProductDictionary'') = [1, 0, 1, 1, 0, 0, 0, 0]"
  "kind_counts (lit ''active'') (lit ''ExactTechnicalDictionary'') = [1, 0, 1, 1, 0, 0, 0, 0]"
  "kind_counts (lit ''active'') (lit ''InsufficientConfidence'') = [1, 0, 1, 0, 0, 0, 0, 1]"
  "kind_counts (lit ''active'') (lit ''M1Engine'') = [1, 1, 0, 0, 0, 0, 0, 0]"
  "kind_counts (lit ''active'') (lit ''NeverTransformPattern'') = [1, 0, 1, 0, 0, 1, 0, 0]"
  "kind_counts (lit ''active'') (lit ''VietnameseCandidate'') = [1, 0, 1, 0, 1, 0, 0, 0]"
  "kind_counts (lit ''planned'') (lit ''M1Engine'') = [1, 0, 0, 0, 0, 0, 0, 0]"
  by (simp_all add: kind_counts_def starts_with_def Let_def)

lemma valid_corpus_01_telex_vowels_a: "list_all valid_row corpus_01_telex_vowels_a"
  unfolding corpus_01_telex_vowels_a_def list.pred_inject valid_fixture_row
  by (simp only: row_texts explanations refl simp_thms) (simp add: trim_visible is_whitespace_def)

lemma count_corpus_01_telex_vowels_a: "corpus_counts corpus_01_telex_vowels_a = [15, 15, 0, 0, 0, 0, 0, 0]"
  unfolding corpus_01_telex_vowels_a_def by (simp only: corpus_counts_row kinds) simp

lemma valid_corpus_01_telex_vowels_b: "list_all valid_row corpus_01_telex_vowels_b"
  unfolding corpus_01_telex_vowels_b_def list.pred_inject valid_fixture_row
  by (simp only: row_texts explanations refl simp_thms) (simp add: trim_visible is_whitespace_def)

lemma count_corpus_01_telex_vowels_b: "corpus_counts corpus_01_telex_vowels_b = [15, 15, 0, 0, 0, 0, 0, 0]"
  unfolding corpus_01_telex_vowels_b_def by (simp only: corpus_counts_row kinds) simp

lemma valid_corpus_02_telex_tones_a: "list_all valid_row corpus_02_telex_tones_a"
  unfolding corpus_02_telex_tones_a_def list.pred_inject valid_fixture_row
  by (simp only: row_texts explanations refl simp_thms) (simp add: trim_visible is_whitespace_def)

lemma count_corpus_02_telex_tones_a: "corpus_counts corpus_02_telex_tones_a = [20, 20, 0, 0, 0, 0, 0, 0]"
  unfolding corpus_02_telex_tones_a_def by (simp only: corpus_counts_row kinds) simp

lemma valid_corpus_02_telex_tones_b: "list_all valid_row corpus_02_telex_tones_b"
  unfolding corpus_02_telex_tones_b_def list.pred_inject valid_fixture_row
  by (simp only: row_texts explanations refl simp_thms) (simp add: trim_visible is_whitespace_def)

lemma count_corpus_02_telex_tones_b: "corpus_counts corpus_02_telex_tones_b = [20, 20, 0, 0, 0, 0, 0, 0]"
  unfolding corpus_02_telex_tones_b_def by (simp only: corpus_counts_row kinds) simp

lemma valid_corpus_02_telex_tones_c: "list_all valid_row corpus_02_telex_tones_c"
  unfolding corpus_02_telex_tones_c_def list.pred_inject valid_fixture_row
  by (simp only: row_texts explanations refl simp_thms) (simp add: trim_visible is_whitespace_def)

lemma count_corpus_02_telex_tones_c: "corpus_counts corpus_02_telex_tones_c = [20, 20, 0, 0, 0, 0, 0, 0]"
  unfolding corpus_02_telex_tones_c_def by (simp only: corpus_counts_row kinds) simp

lemma valid_corpus_03_telex_backspace: "list_all valid_row corpus_03_telex_backspace"
  unfolding corpus_03_telex_backspace_def list.pred_inject valid_fixture_row
  by (simp only: row_texts explanations refl simp_thms) (simp add: trim_visible is_whitespace_def)

lemma count_corpus_03_telex_backspace: "corpus_counts corpus_03_telex_backspace = [20, 20, 0, 0, 0, 0, 0, 0]"
  unfolding corpus_03_telex_backspace_def by (simp only: corpus_counts_row kinds) simp

lemma valid_corpus_04_vietnamese_negative: "list_all valid_row corpus_04_vietnamese_negative"
  unfolding corpus_04_vietnamese_negative_def list.pred_inject valid_fixture_row
  by (simp only: row_texts explanations refl simp_thms) (simp add: trim_visible is_whitespace_def)

lemma count_corpus_04_vietnamese_negative: "corpus_counts corpus_04_vietnamese_negative = [20, 20, 0, 0, 0, 0, 0, 0]"
  unfolding corpus_04_vietnamese_negative_def by (simp only: corpus_counts_row kinds) simp

lemma valid_corpus_05_english_it_recovery_future: "list_all valid_row corpus_05_english_it_recovery_future"
  unfolding corpus_05_english_it_recovery_future_def list.pred_inject valid_fixture_row
  by (simp only: row_texts explanations refl simp_thms) (simp add: trim_visible is_whitespace_def)

lemma count_corpus_05_english_it_recovery_future: "corpus_counts corpus_05_english_it_recovery_future = [20, 0, 0, 0, 0, 0, 0, 0]"
  unfolding corpus_05_english_it_recovery_future_def by (simp only: corpus_counts_row kinds) simp

lemma valid_corpus_06_never_transform: "list_all valid_row corpus_06_never_transform"
  unfolding corpus_06_never_transform_def list.pred_inject valid_fixture_row
  by (simp only: row_texts explanations refl simp_thms) (simp add: trim_visible is_whitespace_def)

lemma count_corpus_06_never_transform: "corpus_counts corpus_06_never_transform = [20, 0, 0, 0, 0, 0, 0, 0]"
  unfolding corpus_06_never_transform_def by (simp only: corpus_counts_row kinds) simp

lemma valid_corpus_07_boundaries: "list_all valid_row corpus_07_boundaries"
  unfolding corpus_07_boundaries_def list.pred_inject valid_fixture_row
  by (simp only: row_texts explanations refl simp_thms) (simp add: trim_visible is_whitespace_def)

lemma count_corpus_07_boundaries: "corpus_counts corpus_07_boundaries = [20, 20, 0, 0, 0, 0, 0, 0]"
  unfolding corpus_07_boundaries_def by (simp only: corpus_counts_row kinds) simp

lemma valid_corpus_08_context_policy_future: "list_all valid_row corpus_08_context_policy_future"
  unfolding corpus_08_context_policy_future_def list.pred_inject valid_fixture_row
  by (simp only: row_texts explanations refl simp_thms) (simp add: trim_visible is_whitespace_def)

lemma count_corpus_08_context_policy_future: "corpus_counts corpus_08_context_policy_future = [15, 0, 0, 0, 0, 0, 0, 0]"
  unfolding corpus_08_context_policy_future_def by (simp only: corpus_counts_row kinds) simp

lemma valid_corpus_09_m2_exact_dictionary_a: "list_all valid_row corpus_09_m2_exact_dictionary_a"
  unfolding corpus_09_m2_exact_dictionary_a_def list.pred_inject valid_fixture_row
  by (simp only: row_texts explanations refl simp_thms) (simp add: trim_visible is_whitespace_def)

lemma count_corpus_09_m2_exact_dictionary_a: "corpus_counts corpus_09_m2_exact_dictionary_a = [21, 0, 21, 21, 0, 0, 0, 0]"
  unfolding corpus_09_m2_exact_dictionary_a_def by (simp only: corpus_counts_row kinds) simp

lemma valid_corpus_09_m2_exact_dictionary_b: "list_all valid_row corpus_09_m2_exact_dictionary_b"
  unfolding corpus_09_m2_exact_dictionary_b_def list.pred_inject valid_fixture_row
  by (simp only: row_texts explanations refl simp_thms) (simp add: trim_visible is_whitespace_def)

lemma count_corpus_09_m2_exact_dictionary_b: "corpus_counts corpus_09_m2_exact_dictionary_b = [21, 0, 21, 21, 0, 0, 0, 0]"
  unfolding corpus_09_m2_exact_dictionary_b_def by (simp only: corpus_counts_row kinds) simp

lemma valid_corpus_09_m2_exact_dictionary_c: "list_all valid_row corpus_09_m2_exact_dictionary_c"
  unfolding corpus_09_m2_exact_dictionary_c_def list.pred_inject valid_fixture_row
  by (simp only: row_texts explanations refl simp_thms) (simp add: trim_visible is_whitespace_def)

lemma count_corpus_09_m2_exact_dictionary_c: "corpus_counts corpus_09_m2_exact_dictionary_c = [21, 0, 21, 21, 0, 0, 0, 0]"
  unfolding corpus_09_m2_exact_dictionary_c_def by (simp only: corpus_counts_row kinds) simp

lemma valid_corpus_10_m2_vietnamese_negative_a: "list_all valid_row corpus_10_m2_vietnamese_negative_a"
  unfolding corpus_10_m2_vietnamese_negative_a_def list.pred_inject valid_fixture_row
  by (simp only: row_texts explanations refl simp_thms) (simp add: trim_visible is_whitespace_def)

lemma count_corpus_10_m2_vietnamese_negative_a: "corpus_counts corpus_10_m2_vietnamese_negative_a = [20, 0, 20, 0, 20, 0, 0, 0]"
  unfolding corpus_10_m2_vietnamese_negative_a_def by (simp only: corpus_counts_row kinds) simp

lemma valid_corpus_10_m2_vietnamese_negative_b: "list_all valid_row corpus_10_m2_vietnamese_negative_b"
  unfolding corpus_10_m2_vietnamese_negative_b_def list.pred_inject valid_fixture_row
  by (simp only: row_texts explanations refl simp_thms) (simp add: trim_visible is_whitespace_def)

lemma count_corpus_10_m2_vietnamese_negative_b: "corpus_counts corpus_10_m2_vietnamese_negative_b = [20, 0, 20, 0, 20, 0, 0, 0]"
  unfolding corpus_10_m2_vietnamese_negative_b_def by (simp only: corpus_counts_row kinds) simp

lemma valid_corpus_11_m2_never_transform_a: "list_all valid_row corpus_11_m2_never_transform_a"
  unfolding corpus_11_m2_never_transform_a_def list.pred_inject valid_fixture_row
  by (simp only: row_texts explanations refl simp_thms) (simp add: trim_visible is_whitespace_def)

lemma count_corpus_11_m2_never_transform_a: "corpus_counts corpus_11_m2_never_transform_a = [19, 0, 19, 0, 0, 19, 0, 0]"
  unfolding corpus_11_m2_never_transform_a_def by (simp only: corpus_counts_row kinds) simp

lemma valid_corpus_11_m2_never_transform_b: "list_all valid_row corpus_11_m2_never_transform_b"
  unfolding corpus_11_m2_never_transform_b_def list.pred_inject valid_fixture_row
  by (simp only: row_texts explanations refl simp_thms) (simp add: trim_visible is_whitespace_def)

lemma count_corpus_11_m2_never_transform_b: "corpus_counts corpus_11_m2_never_transform_b = [19, 0, 19, 0, 0, 19, 0, 0]"
  unfolding corpus_11_m2_never_transform_b_def by (simp only: corpus_counts_row kinds) simp

lemma valid_corpus_11_m2_never_transform_c: "list_all valid_row corpus_11_m2_never_transform_c"
  unfolding corpus_11_m2_never_transform_c_def list.pred_inject valid_fixture_row
  by (simp only: row_texts explanations refl simp_thms) (simp add: trim_visible is_whitespace_def)

lemma count_corpus_11_m2_never_transform_c: "corpus_counts corpus_11_m2_never_transform_c = [18, 0, 18, 0, 0, 18, 0, 0]"
  unfolding corpus_11_m2_never_transform_c_def by (simp only: corpus_counts_row kinds) simp

lemma valid_corpus_12_m2_context_policy_a: "list_all valid_row corpus_12_m2_context_policy_a"
  unfolding corpus_12_m2_context_policy_a_def list.pred_inject valid_fixture_row
  by (simp only: row_texts explanations refl simp_thms) (simp add: trim_visible is_whitespace_def)

lemma count_corpus_12_m2_context_policy_a: "corpus_counts corpus_12_m2_context_policy_a = [13, 0, 13, 0, 0, 0, 13, 0]"
  unfolding corpus_12_m2_context_policy_a_def by (simp only: corpus_counts_row kinds) simp

lemma valid_corpus_12_m2_context_policy_b: "list_all valid_row corpus_12_m2_context_policy_b"
  unfolding corpus_12_m2_context_policy_b_def list.pred_inject valid_fixture_row
  by (simp only: row_texts explanations refl simp_thms) (simp add: trim_visible is_whitespace_def)

lemma count_corpus_12_m2_context_policy_b: "corpus_counts corpus_12_m2_context_policy_b = [12, 0, 12, 0, 0, 0, 7, 5]"
  unfolding corpus_12_m2_context_policy_b_def by (simp only: corpus_counts_row kinds) simp

lemma valid_corpus_13_m2_ambiguous: "list_all valid_row corpus_13_m2_ambiguous"
  unfolding corpus_13_m2_ambiguous_def list.pred_inject valid_fixture_row
  by (simp only: row_texts explanations refl simp_thms) (simp add: trim_visible is_whitespace_def)

lemma count_corpus_13_m2_ambiguous: "corpus_counts corpus_13_m2_ambiguous = [21, 0, 21, 0, 0, 0, 0, 21]"
  unfolding corpus_13_m2_ambiguous_def by (simp only: corpus_counts_row kinds) simp

lemma valid_corpus_initial: "list_all valid_row corpus_initial"
  unfolding corpus_initial_def list.pred_inject valid_fixture_row
  by (simp only: row_texts explanations refl simp_thms) (simp add: trim_visible is_whitespace_def)

lemma count_corpus_initial: "corpus_counts corpus_initial = [1, 1, 0, 0, 0, 0, 0, 0]"
  unfolding corpus_initial_def by (simp only: corpus_counts_row kinds) simp

lemmas engine_rows =
  engine_corpus_01_telex_vowels_a engine_corpus_01_telex_vowels_b engine_corpus_02_telex_tones_a
  engine_corpus_02_telex_tones_b engine_corpus_02_telex_tones_c engine_corpus_03_telex_backspace
  engine_corpus_04_vietnamese_negative engine_corpus_05_english_it_recovery_future engine_corpus_06_never_transform
  engine_corpus_07_boundaries engine_corpus_08_context_policy_future engine_corpus_09_m2_exact_dictionary_a
  engine_corpus_09_m2_exact_dictionary_b engine_corpus_09_m2_exact_dictionary_c engine_corpus_10_m2_vietnamese_negative_a
  engine_corpus_10_m2_vietnamese_negative_b engine_corpus_11_m2_never_transform_a engine_corpus_11_m2_never_transform_b
  engine_corpus_11_m2_never_transform_c engine_corpus_12_m2_context_policy_a engine_corpus_12_m2_context_policy_b
  engine_corpus_13_m2_ambiguous engine_corpus_initial

lemmas policy_rows =
  policy_corpus_01_telex_vowels_a policy_corpus_01_telex_vowels_b policy_corpus_02_telex_tones_a
  policy_corpus_02_telex_tones_b policy_corpus_02_telex_tones_c policy_corpus_03_telex_backspace
  policy_corpus_04_vietnamese_negative policy_corpus_05_english_it_recovery_future policy_corpus_06_never_transform
  policy_corpus_07_boundaries policy_corpus_08_context_policy_future policy_corpus_09_m2_exact_dictionary_a
  policy_corpus_09_m2_exact_dictionary_b policy_corpus_09_m2_exact_dictionary_c policy_corpus_10_m2_vietnamese_negative_a
  policy_corpus_10_m2_vietnamese_negative_b policy_corpus_11_m2_never_transform_a policy_corpus_11_m2_never_transform_b
  policy_corpus_11_m2_never_transform_c policy_corpus_12_m2_context_policy_a policy_corpus_12_m2_context_policy_b
  policy_corpus_13_m2_ambiguous policy_corpus_initial

lemmas valid_rows =
  valid_corpus_01_telex_vowels_a valid_corpus_01_telex_vowels_b valid_corpus_02_telex_tones_a
  valid_corpus_02_telex_tones_b valid_corpus_02_telex_tones_c valid_corpus_03_telex_backspace
  valid_corpus_04_vietnamese_negative valid_corpus_05_english_it_recovery_future valid_corpus_06_never_transform
  valid_corpus_07_boundaries valid_corpus_08_context_policy_future valid_corpus_09_m2_exact_dictionary_a
  valid_corpus_09_m2_exact_dictionary_b valid_corpus_09_m2_exact_dictionary_c valid_corpus_10_m2_vietnamese_negative_a
  valid_corpus_10_m2_vietnamese_negative_b valid_corpus_11_m2_never_transform_a valid_corpus_11_m2_never_transform_b
  valid_corpus_11_m2_never_transform_c valid_corpus_12_m2_context_policy_a valid_corpus_12_m2_context_policy_b
  valid_corpus_13_m2_ambiguous valid_corpus_initial

lemmas row_counts =
  count_corpus_01_telex_vowels_a count_corpus_01_telex_vowels_b count_corpus_02_telex_tones_a
  count_corpus_02_telex_tones_b count_corpus_02_telex_tones_c count_corpus_03_telex_backspace
  count_corpus_04_vietnamese_negative count_corpus_05_english_it_recovery_future count_corpus_06_never_transform
  count_corpus_07_boundaries count_corpus_08_context_policy_future count_corpus_09_m2_exact_dictionary_a
  count_corpus_09_m2_exact_dictionary_b count_corpus_09_m2_exact_dictionary_c count_corpus_10_m2_vietnamese_negative_a
  count_corpus_10_m2_vietnamese_negative_b count_corpus_11_m2_never_transform_a count_corpus_11_m2_never_transform_b
  count_corpus_11_m2_never_transform_c count_corpus_12_m2_context_policy_a count_corpus_12_m2_context_policy_b
  count_corpus_13_m2_ambiguous count_corpus_initial


lemma corpus_rows:
  "list_all engine_row_ok corpus" "list_all policy_row_ok corpus" "list_all valid_row corpus"
  by (simp_all only: corpus_def list_all_append engine_rows policy_rows valid_rows simp_thms)

lemma corpus_counts_append:
  "corpus_counts (fs @ gs) = map2 (+) (corpus_counts fs) (corpus_counts gs)"
  by (simp add: corpus_counts_def policy_count_def)

lemma corpus_total: "corpus_counts corpus = [411, 151, 205, 63, 40, 56, 20, 26]"
  unfolding corpus_def by (simp only: corpus_counts_append row_counts) simp

text \<open>
  C36. The model passes the whole regression corpus of the repository: for every Unicode table in which
  the scalars of the corpus are graphemes of their own, each of its 411 rows is valid, typing the keys
  of each active row of the engine into a document shows exactly the expected text, and the classifier
  and the policy give each active row of theirs the expected decision, reason and visible text; the
  numbers of rows that the two test programs demand are reached.
\<close>

theorem corpus_passes:
  assumes "simple_graphemes U"
  shows "list_all (\<lambda>f. validate_fixture path n f = Inr ()) corpus \<and>
    engine_corpus_test U corpus \<and> policy_corpus_test U corpus"
proof -
  have "segmentation U" using assms by (simp add: simple_graphemes_def)
  then show ?thesis
    using corpus_rows corpus_total engine_row_passes [OF assms] policy_row_passes [of U] valid_row_validated
    by (auto simp: engine_corpus_test_def policy_corpus_test_def corpus_counts_def list_all_iff)
qed

lemma corpus_passes_witness:
  "engine_corpus_test scalar_unicode corpus \<and> policy_corpus_test scalar_unicode corpus"
  using corpus_passes [OF simple_graphemes_scalar] by blast

end
