(* ===== verification/Scenario.thy ===== *)
theory Scenario
  imports Prelude "HOL-Library.State_Monad"
begin

text \<open>
  Unit tests as state transformers: a test runs operations of a component on its state and checks
  what they return.  The state is paired with the verdict so far; \<open>passes\<close> is the verdict of a test
  from an initial state.  A failed \<open>unwrap\<close> or \<open>expect\<close> of the source is a failed check.
\<close>

type_synonym ('s, 'a) scenario = "('s \<times> bool, 'a) state"

definition check :: "bool \<Rightarrow> ('s, unit) scenario" where
  "check b = State (\<lambda>(s, ok). ((), s, ok \<and> b))"

definition perform :: "('s \<Rightarrow> 'a \<times> 's) \<Rightarrow> ('s, 'a) scenario" where
  "perform f = State (\<lambda>(s, ok). case f s of (a, s') \<Rightarrow> (a, s', ok))"

definition observe :: "('s \<Rightarrow> 'a) \<Rightarrow> ('s, 'a) scenario" where
  "observe f = State (\<lambda>(s, ok). (f s, s, ok))"

definition alter :: "('s \<Rightarrow> 's) \<Rightarrow> ('s, unit) scenario" where
  "alter f = State (\<lambda>(s, ok). ((), f s, ok))"

definition unwrap :: "'a option \<Rightarrow> ('s, 'a) scenario" where
  "unwrap x = State (\<lambda>(s, ok). (the x, s, ok \<and> x \<noteq> None))"

definition assert_eq :: "('s \<Rightarrow> 'a \<times> 's) \<Rightarrow> 'a \<Rightarrow> ('s, unit) scenario" where
  "assert_eq f expected = do { result \<leftarrow> perform f; check (result = expected) }"

definition passes :: "'s option \<Rightarrow> ('s, unit) scenario \<Rightarrow> bool" where
  "passes initial test = (case initial of None \<Rightarrow> False | Some s \<Rightarrow> snd (snd (run_state test (s, True))))"

lemma scenario_steps [simp]:
  "run_state (check b) (s, ok) = ((), s, ok \<and> b)"
  "run_state (perform f) (s, ok) = (case f s of (a, s') \<Rightarrow> (a, s', ok))"
  "run_state (observe g) (s, ok) = (g s, s, ok)"
  "run_state (alter h) (s, ok) = ((), h s, ok)"
  "run_state (unwrap (Some x)) (s, ok) = (x, s, ok)"
  by (simp_all add: check_def perform_def observe_def alter_def unwrap_def)

lemma run_assert_eq [simp]:
  "run_state (assert_eq f expected) (s, ok) = (case f s of (a, s') \<Rightarrow> ((), s', ok \<and> a = expected))"
  by (simp add: assert_eq_def split: prod.splits)

text \<open>Steps compose: a step whose result is known continues with it.\<close>

lemma passes_bind:
  "run_state m (s, True) = (a, s', True) \<Longrightarrow> passes (Some s) (State_Monad.bind m k) = passes (Some s') (k a)"
  by (simp add: passes_def)

lemma passes_steps:
  "passes (Some s) (State_Monad.bind (check True) k) = passes (Some s) (k ())"
  "passes (Some s) (State_Monad.bind (observe g) k') = passes (Some s) (k' (g s))"
  "passes (Some s) (State_Monad.bind (alter h) k) = passes (Some (h s)) (k ())"
  "passes (Some s) (State_Monad.bind (unwrap (Some x)) k'') = passes (Some s) (k'' x)"
  "passes (Some s) (check b) = b"
  by (simp_all add: passes_def)

lemma passes_perform:
  "f s = (a, s') \<Longrightarrow> passes (Some s) (State_Monad.bind (perform f) k) = passes (Some s') (k a)"
  by (simp add: passes_def)

lemma passes_assert:
  "f s = (a, s') \<Longrightarrow> passes (Some s) (State_Monad.bind (assert_eq f a) k) = passes (Some s') (k ())"
  "f s = (a, s') \<Longrightarrow> passes (Some s) (assert_eq f a) = True"
  by (simp_all add: passes_def)

end
