(* ===== verification/Harness_Tests.thy ===== *)
theory Harness_Tests
  imports Harness Scenario
begin

text \<open>
  The unit tests of the mutation harness (\<open>zonkey-service/src/mutation_harness_tests.rs\<close>), each a
  scenario under its own name, and the proof that the model passes them: one exact splice, a rejection
  for every mismatch, races inside the transaction, lost outcomes, reconciliation and acknowledgement.
\<close>

subsection \<open>Steps\<close>

definition harness_test :: "ustr \<Rightarrow> (mutation_harness, unit) scenario \<Rightarrow> bool" where
  "harness_test s test = passes (harness_new (harness_host_new s)) test"

definition matching_request :: "ustr \<Rightarrow> ustr \<Rightarrow> (mutation_harness, mutation_request) scenario" where
  "matching_request expected replacement =
     do { h \<leftarrow> observe mh_host; unwrap (matching h expected replacement) }"

definition on_host :: "(harness_host \<Rightarrow> harness_host) \<Rightarrow> (mutation_harness, unit) scenario" where
  "on_host f = alter (\<lambda>m. m\<lparr>mh_host := f (mh_host m)\<rparr>)"

definition submits :: "mutation_request \<Rightarrow> mutation_outcome \<Rightarrow> (mutation_harness, unit) scenario" where
  "submits request expected = assert_eq (\<lambda>m. submit m request) expected"

definition reconciles ::
  "ustr \<Rightarrow> ustr \<Rightarrow> ustr \<Rightarrow> nat \<times> nat \<Rightarrow> reconciliation_verdict option \<Rightarrow> (mutation_harness, unit) scenario" where
  "reconciles uri expected replacement rng verdict =
     assert_eq (\<lambda>m. harness_reconcile m uri expected replacement rng) verdict"

definition acknowledges :: "ustr \<Rightarrow> ustr \<Rightarrow> bool \<Rightarrow> (mutation_harness, unit) scenario" where
  "acknowledges uri expected answer = assert_eq (\<lambda>m. owner_ack m uri expected) answer"

definition reads_text :: "ustr \<Rightarrow> (mutation_harness, unit) scenario" where
  "reads_text s = do { m \<leftarrow> observe id; check (hh_contents (mh_host m) = s) }"

definition has_version :: "u64 \<Rightarrow> (mutation_harness, unit) scenario" where
  "has_version v = do { m \<leftarrow> observe id; check (hh_version (mh_host m) = v) }"

subsection \<open>The tests\<close>

definition happy_path_applies_exactly_once_with_exact_text :: bool where
  "happy_path_applies_exactly_once_with_exact_text \<longleftrightarrow>
     harness_test (lit ''resume'') (do {
       request \<leftarrow> matching_request (lit ''resume'') (lit ''restored'');
       submits request (MO_Applied 2);
       reads_text (lit ''restored'');
       has_version 2
     }) \<and>
     harness_test (0x1F600 # lit ''resume'') (do {
       request \<leftarrow> matching_request (lit ''resume'') (lit ''restored'');
       submits request (MO_Applied 2);
       reads_text (0x1F600 # lit ''restored'')
     })"

definition mismatch_case ::
  "(harness_host \<Rightarrow> harness_host) \<Rightarrow> (mutation_request \<Rightarrow> mutation_request) \<Rightarrow> reject_reason \<Rightarrow> u64 \<Rightarrow> bool" where
  "mismatch_case mutate_host mutate_request reason expected_version =
     harness_test (lit ''resume'') (do {
       request \<leftarrow> matching_request (lit ''resume'') (lit ''restored'');
       on_host mutate_host;
       submits (mutate_request request) (MO_Rejected reason);
       reads_text (lit ''resume'');
       has_version expected_version
     })"

definition eligibility_rejects_every_major_mismatch_without_mutation :: bool where
  "eligibility_rejects_every_major_mismatch_without_mutation \<longleftrightarrow>
     mismatch_case id (\<lambda>r. r\<lparr>mr_protocol_id := lit ''other/1''\<rparr>) RR_ProtocolMismatch 1 \<and>
     mismatch_case id (\<lambda>r. r\<lparr>mr_host_id := lit ''other-host''\<rparr>) RR_HostIdentityMismatch 1 \<and>
     mismatch_case id (\<lambda>r. r\<lparr>mr_session_id := lit ''other''\<rparr>) RR_SessionMismatch 1 \<and>
     mismatch_case id (\<lambda>r. r\<lparr>mr_epoch := 99\<rparr>) RR_TargetIdentityMismatch 1 \<and>
     mismatch_case id (\<lambda>r. r\<lparr>mr_caret := 5\<rparr>) RR_CaretMismatch 1 \<and>
     mismatch_case (\<lambda>h. h\<lparr>hh_selection_span := 2\<rparr>) id RR_SelectionNotEmpty 1 \<and>
     mismatch_case id (\<lambda>r. r\<lparr>mr_range_start := mr_range_end r + 1\<rparr>) RR_RangeMismatch 1 \<and>
     mismatch_case id (\<lambda>r. r\<lparr>mr_expected := lit ''other''\<rparr>) RR_TextMismatch 1 \<and>
     mismatch_case (\<lambda>h. h\<lparr>hh_version := hh_version h + 1\<rparr>) id RR_RevisionMismatch 2 \<and>
     mismatch_case (\<lambda>h. h\<lparr>hh_secure := HS_Secure\<rparr>) id RR_SecureTarget 1 \<and>
     mismatch_case (\<lambda>h. h\<lparr>hh_secure := HS_Unknown\<rparr>) id RR_SecureUnknown 1 \<and>
     mismatch_case (\<lambda>h. h\<lparr>hh_session_state := HN_UnsupportedRemote\<rparr>) id RR_UnsupportedSession 1 \<and>
     mismatch_case (\<lambda>h. h\<lparr>hh_session_state := HN_Unknown\<rparr>) id RR_SessionUnknown 1 \<and>
     mismatch_case id (\<lambda>r. r\<lparr>mr_capabilities := mr_capabilities r AND NOT CAP_SNAPSHOT\<rparr>) RR_CapabilityMismatch 1"

definition composition_case :: "harness_composition \<Rightarrow> reject_reason \<Rightarrow> bool" where
  "composition_case state reason =
     harness_test (lit ''resume'') (do {
       on_host (\<lambda>h. h\<lparr>hh_composition := state\<rparr>);
       request \<leftarrow> matching_request (lit ''resume'') (lit ''restored'');
       submits request (MO_Rejected reason);
       reads_text (lit ''resume'')
     })"

definition composition_unknown_and_active_reject :: bool where
  "composition_unknown_and_active_reject \<longleftrightarrow>
     composition_case HC_Unknown RR_CompositionUnknown \<and> composition_case HC_Active RR_CompositionActive"

definition inactive_without_composition_proof_capability_rejects :: bool where
  "inactive_without_composition_proof_capability_rejects \<longleftrightarrow>
     harness_test (lit ''resume'') (do {
       on_host (\<lambda>h. h\<lparr>hh_composition := HC_Inactive\<rparr>);
       on_host (\<lambda>h. h\<lparr>hh_capabilities := CAP_ALL_WITH_COMPOSITION AND NOT CAP_COMPOSITION_PROOF\<rparr>);
       request \<leftarrow> matching_request (lit ''resume'') (lit ''restored'');
       submits request (MO_Rejected RR_CompositionUnknown);
       reads_text (lit ''resume'')
     })"

definition text_mismatch_inside_transaction_is_fail_closed :: bool where
  "text_mismatch_inside_transaction_is_fail_closed \<longleftrightarrow>
     harness_test (lit ''resume'') (do {
       on_host (\<lambda>h. h\<lparr>hh_pre_transaction_change := Some (0, 6, lit ''other!'')\<rparr>);
       request \<leftarrow> matching_request (lit ''resume'') (lit ''restored'');
       submits request (MO_Indeterminate IR_AmbiguousCommit);
       reads_text (lit ''other!'');
       has_version 2
     })"

definition range_surrogate_split_rejects :: bool where
  "range_surrogate_split_rejects \<longleftrightarrow>
     harness_test (0x1F600 # lit ''resume'') (do {
       request \<leftarrow> matching_request (lit ''resume'') (lit ''restored'');
       submits (request\<lparr>mr_range_start := 1\<rparr>) (MO_Rejected RR_RangeMismatch);
       reads_text (0x1F600 # lit ''resume'')
     })"

definition duplicate_applied_request_does_not_reapply :: bool where
  "duplicate_applied_request_does_not_reapply \<longleftrightarrow>
     harness_test (lit ''resume'') (do {
       request \<leftarrow> matching_request (lit ''resume'') (lit ''restored'');
       submits request (MO_Applied 2);
       submits request (MO_Applied 2);
       reads_text (lit ''restored'');
       has_version 2
     })"

definition conflicting_request_id_reuse_rejects :: bool where
  "conflicting_request_id_reuse_rejects \<longleftrightarrow>
     harness_test (lit ''resume'') (do {
       request \<leftarrow> matching_request (lit ''resume'') (lit ''restored'');
       submits request (MO_Applied 2);
       submits (request\<lparr>mr_replacement := lit ''other''\<rparr>) (MO_Rejected RR_RequestIdReuse)
     })"

definition empty_request_id_is_invalid :: bool where
  "empty_request_id_is_invalid \<longleftrightarrow>
     harness_test (lit ''resume'') (do {
       request \<leftarrow> matching_request (lit ''resume'') (lit ''restored'');
       submits (request\<lparr>mr_request_id := []\<rparr>) (MO_Rejected RR_RequestIdInvalid)
     })"

definition refused_transaction_rejects_without_mutation :: bool where
  "refused_transaction_rejects_without_mutation \<longleftrightarrow>
     harness_test (lit ''resume'') (do {
       on_host (\<lambda>h. h\<lparr>hh_transaction_mode := TX_Refuse\<rparr>);
       request \<leftarrow> matching_request (lit ''resume'') (lit ''restored'');
       submits (request\<lparr>mr_request_id := lit ''req-2''\<rparr>) (MO_Rejected RR_EditTransactionRefused);
       reads_text (lit ''resume'');
       has_version 1
     })"

definition lost_outcome_is_indeterminate_and_replays_as_recorded :: bool where
  "lost_outcome_is_indeterminate_and_replays_as_recorded \<longleftrightarrow>
     harness_test (lit ''resume'') (do {
       on_host (\<lambda>h. h\<lparr>hh_transaction_mode := TX_Lost\<rparr>);
       request \<leftarrow> matching_request (lit ''resume'') (lit ''restored'');
       submits request (MO_Indeterminate IR_EditOutcomeLost);
       reads_text (lit ''resume'');
       submits request (MO_Indeterminate IR_EditOutcomeLost);
       reads_text (lit ''resume'');
       has_version 1
     })"

definition commit_then_lost_response_reconciles_as_applied_acknowledged :: bool where
  "commit_then_lost_response_reconciles_as_applied_acknowledged \<longleftrightarrow>
     harness_test (lit ''resume'') (do {
       on_host (\<lambda>h. h\<lparr>hh_transaction_mode := TX_LostAfterCommit\<rparr>);
       request \<leftarrow> matching_request (lit ''resume'') (lit ''restored'');
       submits request (MO_Indeterminate IR_EditOutcomeLost);
       reads_text (lit ''restored'');
       on_host (\<lambda>h. h\<lparr>hh_transaction_mode := TX_Normal\<rparr>);
       on_host (\<lambda>h. h\<lparr>hh_caret := 8\<rparr>);
       other \<leftarrow> matching_request (lit ''resume'') (lit ''other'');
       fresh \<leftarrow> unwrap (Some (other\<lparr>mr_request_id := lit ''req-2''\<rparr>));
       submits fresh MO_BlockedPendingReconciliation;
       reconciles (mr_uri request) (lit ''resume'') (lit ''restored'') (0, 8) (Some HV_AppliedAcknowledged);
       submits fresh MO_BlockedPendingReconciliation;
       acknowledges (mr_uri request) (lit ''resume'') True;
       submits fresh (MO_Rejected RR_TextMismatch)
     })"

definition lost_before_commit_reconciles_as_not_applied :: bool where
  "lost_before_commit_reconciles_as_not_applied \<longleftrightarrow>
     harness_test (lit ''resume'') (do {
       on_host (\<lambda>h. h\<lparr>hh_transaction_mode := TX_Lost\<rparr>);
       request \<leftarrow> matching_request (lit ''resume'') (lit ''restored'');
       submits request (MO_Indeterminate IR_EditOutcomeLost);
       reconciles (mr_uri request) (lit ''resume'') (lit ''restored'') (0, 6) (Some HV_NotApplied);
       acknowledges (mr_uri request) (lit ''resume'') True;
       on_host (\<lambda>h. h\<lparr>hh_transaction_mode := TX_Normal\<rparr>);
       fresh \<leftarrow> matching_request (lit ''resume'') (lit ''restored'');
       submits (fresh\<lparr>mr_request_id := lit ''req-2''\<rparr>) (MO_Applied 2)
     })"

definition contradictory_live_state_reconciles_as_conflict :: bool where
  "contradictory_live_state_reconciles_as_conflict \<longleftrightarrow>
     harness_test (lit ''resume'') (do {
       on_host (\<lambda>h. h\<lparr>hh_transaction_mode := TX_LostAfterCommit\<rparr>);
       on_host (\<lambda>h. h\<lparr>hh_post_commit_change := Some (0, 8, lit ''mangled!'')\<rparr>);
       request \<leftarrow> matching_request (lit ''resume'') (lit ''restored'');
       submits request (MO_Indeterminate IR_AmbiguousCommit);
       reconciles (mr_uri request) (lit ''resume'') (lit ''restored'') (0, 8) (Some HV_ConflictHumanReview);
       acknowledges (mr_uri request) (lit ''resume'') True
     })"

definition blocked_target_requires_reconciliation_then_ack :: bool where
  "blocked_target_requires_reconciliation_then_ack \<longleftrightarrow>
     harness_test (lit ''resume'') (do {
       on_host (\<lambda>h. h\<lparr>hh_transaction_mode := TX_Lost\<rparr>);
       request \<leftarrow> matching_request (lit ''resume'') (lit ''restored'');
       submits request (MO_Indeterminate IR_EditOutcomeLost);
       again \<leftarrow> matching_request (lit ''resume'') (lit ''restored'');
       fresh \<leftarrow> unwrap (Some (again\<lparr>mr_request_id := lit ''req-2''\<rparr>));
       submits fresh MO_BlockedPendingReconciliation;
       acknowledges (mr_uri request) (lit ''resume'') False;
       reconciles (mr_uri request) (lit ''resume'') (lit ''restored'') (0, 6) (Some HV_NotApplied);
       submits fresh MO_BlockedPendingReconciliation;
       acknowledges (mr_uri request) (lit ''resume'') True;
       on_host (\<lambda>h. h\<lparr>hh_transaction_mode := TX_Normal\<rparr>);
       submits fresh (MO_Applied 2)
     })"

definition revision_overflow_fails_closed :: bool where
  "revision_overflow_fails_closed \<longleftrightarrow>
     harness_test (lit ''resume'') (do {
       on_host (\<lambda>h. h\<lparr>hh_version := - 1\<rparr>);
       request \<leftarrow> matching_request (lit ''resume'') (lit ''restored'');
       submits (request\<lparr>mr_revision := - 1\<rparr>) (MO_Rejected RR_RevisionOverflow);
       reads_text (lit ''resume'')
     })"

definition no_partial_mutation_happens_on_any_rejection :: bool where
  "no_partial_mutation_happens_on_any_rejection \<longleftrightarrow>
     harness_test (lit ''resume'') (do {
       stale \<leftarrow> matching_request (lit ''resume'') (lit ''restored'');
       submits (stale\<lparr>mr_revision := 0\<rparr>) (MO_Rejected RR_RevisionMismatch);
       on_host (\<lambda>h. h\<lparr>hh_transaction_mode := TX_Refuse\<rparr>);
       request \<leftarrow> matching_request (lit ''resume'') (lit ''restored'');
       submits (request\<lparr>mr_request_id := lit ''req-2''\<rparr>) (MO_Rejected RR_EditTransactionRefused);
       reads_text (lit ''resume'');
       has_version 1
     })"

subsection \<open>The model passes\<close>

lemmas step_eval = harness_test_def matching_request_def on_host_def submits_def reconciles_def
  acknowledges_def reads_text_def has_version_def passes_def harness_new_eq

lemmas harness_eval = harness_host_new_def matching_def submit_def harness_blocked_def ledger_classify_def
  validate_and_mutate_def is_indeterminate_def ledger_record_def record_inner_def ledger_push_def
  eligibility_def transaction_def inject_change_def verify_commit_def replace_utf16_def saturating_next_def
  harness_reconcile_def owner_ack_def host_unit_defs from_utf16_def splits_surrogate_def Let_def

lemmas capability_eval = CAP_ALL_WITH_COMPOSITION_def CAP_COMPOSITION_PROOF_def CAP_SNAPSHOT_def
  CAP_COMPARE_AND_REPLACE_def CAP_UTF16_UNITS_def CAP_IDEMPOTENT_REQUESTS_def

lemma passes_happy_path_applies_exactly_once_with_exact_text: happy_path_applies_exactly_once_with_exact_text
  unfolding happy_path_applies_exactly_once_with_exact_text_def
  by (simp add: step_eval harness_eval capability_eval)

lemma passes_eligibility_rejects_every_major_mismatch_without_mutation: eligibility_rejects_every_major_mismatch_without_mutation
  unfolding eligibility_rejects_every_major_mismatch_without_mutation_def mismatch_case_def
  by (simp add: step_eval harness_eval capability_eval MUTATION_PROTOCOL_ID_def)

lemma passes_composition_unknown_and_active_reject: composition_unknown_and_active_reject
  unfolding composition_unknown_and_active_reject_def composition_case_def
  by (simp add: step_eval harness_eval capability_eval)

lemma passes_inactive_without_composition_proof_capability_rejects: inactive_without_composition_proof_capability_rejects
  unfolding inactive_without_composition_proof_capability_rejects_def
  by (simp add: step_eval harness_eval capability_eval)

lemma passes_text_mismatch_inside_transaction_is_fail_closed: text_mismatch_inside_transaction_is_fail_closed
  unfolding text_mismatch_inside_transaction_is_fail_closed_def
  by (simp add: step_eval harness_eval capability_eval)

lemma passes_range_surrogate_split_rejects: range_surrogate_split_rejects
  unfolding range_surrogate_split_rejects_def
  by (simp add: step_eval harness_eval capability_eval)

lemma passes_duplicate_applied_request_does_not_reapply: duplicate_applied_request_does_not_reapply
  unfolding duplicate_applied_request_does_not_reapply_def
  by (simp add: step_eval harness_eval capability_eval decode_encode_mutation
      del: encode_mutation.simps decode_mutation.simps)

lemma passes_conflicting_request_id_reuse_rejects: conflicting_request_id_reuse_rejects
  unfolding conflicting_request_id_reuse_rejects_def
  by (simp add: step_eval harness_eval capability_eval decode_encode_mutation canonical_request_def
      del: encode_mutation.simps decode_mutation.simps)

lemma passes_empty_request_id_is_invalid: empty_request_id_is_invalid
  unfolding empty_request_id_is_invalid_def
  by (simp add: step_eval harness_eval capability_eval)

lemma passes_refused_transaction_rejects_without_mutation: refused_transaction_rejects_without_mutation
  unfolding refused_transaction_rejects_without_mutation_def
  by (simp add: step_eval harness_eval capability_eval)

lemma passes_lost_outcome_is_indeterminate_and_replays_as_recorded: lost_outcome_is_indeterminate_and_replays_as_recorded
  unfolding lost_outcome_is_indeterminate_and_replays_as_recorded_def
  by (simp add: step_eval harness_eval capability_eval decode_encode_mutation
      del: encode_mutation.simps decode_mutation.simps)

lemma passes_commit_then_lost_response_reconciles_as_applied_acknowledged: commit_then_lost_response_reconciles_as_applied_acknowledged
  unfolding commit_then_lost_response_reconciles_as_applied_acknowledged_def
  by (simp add: step_eval harness_eval capability_eval)

lemma passes_lost_before_commit_reconciles_as_not_applied: lost_before_commit_reconciles_as_not_applied
  unfolding lost_before_commit_reconciles_as_not_applied_def
  by (simp add: step_eval harness_eval capability_eval)

lemma passes_contradictory_live_state_reconciles_as_conflict: contradictory_live_state_reconciles_as_conflict
  unfolding contradictory_live_state_reconciles_as_conflict_def
  by (simp add: step_eval harness_eval capability_eval)

lemma passes_blocked_target_requires_reconciliation_then_ack: blocked_target_requires_reconciliation_then_ack
  unfolding blocked_target_requires_reconciliation_then_ack_def
  by (simp add: step_eval harness_eval capability_eval)

lemma passes_revision_overflow_fails_closed: revision_overflow_fails_closed
  unfolding revision_overflow_fails_closed_def
  by (simp add: step_eval harness_eval capability_eval)

lemma passes_no_partial_mutation_happens_on_any_rejection: no_partial_mutation_happens_on_any_rejection
  unfolding no_partial_mutation_happens_on_any_rejection_def
  by (simp add: step_eval harness_eval capability_eval)

end
