(* ===== verification/Transport_Tests.thy ===== *)
theory Transport_Tests
  imports Registry Scenario
begin

text \<open>
  Unit tests of the host transport (\<open>zonkey-service/src/transport.rs\<close>): framing, the request
  ledger, the host endpoint and the recovery registry, each under its own name, and the proof that the
  model passes them.  The tests of the shared decision state are in the theory \<open>Decision_Tests\<close>.
\<close>

subsection \<open>The host endpoint\<close>

definition established :: "host_endpoint option" where
  "established =
     (case endpoint_new 4 of
        Inl _ \<Rightarrow> None
      | Inr h \<Rightarrow>
          (case accept_hello h TRANSPORT_PROTOCOL_ID (lit ''session-1'') of
             (Inl _, _) \<Rightarrow> None
           | (Inr _, h') \<Rightarrow> Some h'))"

definition classifies :: "string \<Rightarrow> string \<Rightarrow> request_disposition \<Rightarrow> (host_endpoint, unit) scenario" where
  "classifies request_id canonical expected =
     do { d \<leftarrow> observe (\<lambda>h. classify_request h (lit request_id) (lit canonical)); check (d = expected) }"

definition records :: "string \<Rightarrow> string \<Rightarrow> ledger_outcome \<Rightarrow> (host_endpoint, record_outcome) scenario" where
  "records request_id canonical out = perform (\<lambda>h. endpoint_record h (lit request_id) (lit canonical) out)"

definition hello_answers ::
  "ustr \<Rightarrow> string \<Rightarrow> transport_error + bool \<Rightarrow> (host_endpoint, unit) scenario" where
  "hello_answers protocol session expected =
     assert_eq (\<lambda>h. accept_hello h protocol (lit session)) expected"

definition session_checks :: "string \<Rightarrow> transport_error + unit \<Rightarrow> (host_endpoint, unit) scenario" where
  "session_checks session expected =
     do { r \<leftarrow> observe (\<lambda>h. check_session h (lit session)); check (r = expected) }"

definition definite :: "string \<Rightarrow> ledger_outcome" where
  "definite s = LO_Definite (lit s)"

definition duplicate_exact_request_replays_recorded_outcome :: bool where
  "duplicate_exact_request_replays_recorded_outcome \<longleftrightarrow>
     passes established (do {
       classifies ''req-1'' ''{a:1}'' RD_Fresh;
       records ''req-1'' ''{a:1}'' (definite ''applied'');
       classifies ''req-1'' ''{a:1}'' (RD_Duplicate (definite ''applied''))
     })"

definition conflicting_request_id_reuse_reports_conflict :: bool where
  "conflicting_request_id_reuse_reports_conflict \<longleftrightarrow>
     passes established (do {
       records ''req-1'' ''{a:1}'' (definite ''applied'');
       classifies ''req-1'' ''{a:2}'' RD_Conflict;
       outcome \<leftarrow> records ''req-1'' ''{a:2}'' (definite ''other'');
       check (outcome = RO_AlreadyPresent)
     })"

definition session_restart_invalidates_history :: bool where
  "session_restart_invalidates_history \<longleftrightarrow>
     passes established (do {
       records ''req-1'' ''{a:1}'' (definite ''applied'');
       hello_answers TRANSPORT_PROTOCOL_ID ''session-2'' (Inr True);
       entries \<leftarrow> observe (\<lambda>h. ledger_len (he_ledger h));
       check (entries = 0);
       classifies ''req-1'' ''{a:1}'' RD_Fresh;
       session_checks ''session-1'' (Inl TE_SessionMismatch);
       session_checks ''session-2'' (Inr ())
     })"

definition same_session_hello_is_not_a_restart :: bool where
  "same_session_hello_is_not_a_restart \<longleftrightarrow>
     passes established (do {
       records ''req-1'' ''{a:1}'' (definite ''applied'');
       hello_answers TRANSPORT_PROTOCOL_ID ''session-1'' (Inr False);
       entries \<leftarrow> observe (\<lambda>h. ledger_len (he_ledger h));
       check (entries = 1)
     })"

definition unestablished :: "host_endpoint option" where
  "unestablished = (case endpoint_new 4 of Inl _ \<Rightarrow> None | Inr h \<Rightarrow> Some h)"

definition protocol_mismatch_rejects_hello_without_state_change :: bool where
  "protocol_mismatch_rejects_hello_without_state_change \<longleftrightarrow>
     passes unestablished (do {
       hello_answers (lit ''zonkey.host-transport/0'') ''session-1'' (Inl TE_ProtocolMismatch);
       session \<leftarrow> observe he_session_id;
       check (session = None);
       session_checks ''session-1'' (Inl TE_NotEstablished)
     })"

definition invalid_hello_identifiers_fail_closed :: bool where
  "invalid_hello_identifiers_fail_closed \<longleftrightarrow>
     passes unestablished (do {
       hello_answers (lit '''') ''session-1'' (Inl TE_InvalidHello);
       hello_answers TRANSPORT_PROTOCOL_ID '''' (Inl TE_InvalidHello)
     })"

definition session_mismatch_and_unestablished_requests_reject :: bool where
  "session_mismatch_and_unestablished_requests_reject \<longleftrightarrow>
     passes unestablished (session_checks ''session-1'' (Inl TE_NotEstablished)) \<and>
     passes established (session_checks ''other'' (Inl TE_SessionMismatch))"

definition connection_loss_maps_to_ambiguous_and_never_retries :: bool where
  "connection_loss_maps_to_ambiguous_and_never_retries \<longleftrightarrow>
     passes established (do {
       records ''req-1'' ''{a:1}'' ambiguous_loss_outcome;
       classifies ''req-1'' ''{a:1}'' (RD_Duplicate ambiguous_loss_outcome)
     })"

definition ambiguous_outcome_keeps_conflict_semantics :: bool where
  "ambiguous_outcome_keeps_conflict_semantics \<longleftrightarrow>
     passes established (do {
       records ''req-1'' ''{a:1}'' ambiguous_loss_outcome;
       classifies ''req-1'' ''{a:2}'' RD_Conflict
     })"

definition composition_gate_fails_closed_for_every_state :: bool where
  "composition_gate_fails_closed_for_every_state \<longleftrightarrow>
     composition_gate_outcome (lit ''Unknown'') = definite ''rejected:CompositionUnknown'' \<and>
     composition_gate_outcome (lit ''Active'') = definite ''rejected:CompositionActive'' \<and>
     composition_gate_outcome (lit ''Inactive'') = definite ''rejected:ExecutionNotImplemented'' \<and>
     composition_gate_outcome (lit ''anything-else'') = definite ''rejected:CompositionUnknown''"

text \<open>The closure \<open>send\<close> of the test; the counter of executions is part of the state.\<close>

definition send_once :: "string \<Rightarrow> host_endpoint \<times> nat \<Rightarrow> ledger_outcome \<times> host_endpoint \<times> nat" where
  "send_once request_id = (\<lambda>(h, executions).
     let (out, executions') =
           (case classify_request h (lit request_id) (lit ''{canonical}'') of
              RD_Duplicate recorded \<Rightarrow> (recorded, executions)
            | RD_Conflict \<Rightarrow> (definite ''request_id_reuse'', executions)
            | RD_Fresh \<Rightarrow> (definite ''applied'', executions + 1));
         (_, h') = endpoint_record h (lit request_id) (lit ''{canonical}'') out
     in (out, h', executions'))"

definition request_pipeline_executes_exactly_once_per_id :: bool where
  "request_pipeline_executes_exactly_once_per_id \<longleftrightarrow>
     passes (map_option (\<lambda>h. (h, 0)) established) (do {
       assert_eq (send_once ''req-1'') (definite ''applied'');
       assert_eq (send_once ''req-1'') (definite ''applied'');
       executions \<leftarrow> observe snd;
       check (executions = 1)
     })"

lemmas endpoint_scenario = passes_def established_def unestablished_def endpoint_new_def ledger_new_def
  accept_hello_def classifies_def records_def hello_answers_def session_checks_def definite_def
  classify_request_def ledger_classify_def endpoint_record_def ledger_record_def record_inner_def
  ledger_push_def check_session_def invalidate_all_def ledger_len_def

lemma endpoint_tests:
  duplicate_exact_request_replays_recorded_outcome conflicting_request_id_reuse_reports_conflict
  session_restart_invalidates_history same_session_hello_is_not_a_restart
  protocol_mismatch_rejects_hello_without_state_change invalid_hello_identifiers_fail_closed
  session_mismatch_and_unestablished_requests_reject connection_loss_maps_to_ambiguous_and_never_retries
  ambiguous_outcome_keeps_conflict_semantics composition_gate_fails_closed_for_every_state
  request_pipeline_executes_exactly_once_per_id
  by (simp_all add: duplicate_exact_request_replays_recorded_outcome_def
      conflicting_request_id_reuse_reports_conflict_def session_restart_invalidates_history_def
      same_session_hello_is_not_a_restart_def protocol_mismatch_rejects_hello_without_state_change_def
      invalid_hello_identifiers_fail_closed_def session_mismatch_and_unestablished_requests_reject_def
      connection_loss_maps_to_ambiguous_and_never_retries_def
      ambiguous_outcome_keeps_conflict_semantics_def composition_gate_fails_closed_for_every_state_def
      composition_gate_outcome_def request_pipeline_executes_exactly_once_per_id_def send_once_def
      endpoint_scenario TRANSPORT_PROTOCOL_ID_def)

subsection \<open>The request ledger\<close>

definition ledger_of :: "nat \<Rightarrow> request_ledger option" where
  "ledger_of capacity = (case ledger_new capacity of Inl _ \<Rightarrow> None | Inr l \<Rightarrow> Some l)"

definition ledger_records ::
  "string \<Rightarrow> string \<Rightarrow> ledger_outcome \<Rightarrow> record_outcome \<Rightarrow> (request_ledger, unit) scenario" where
  "ledger_records request_id canonical out expected =
     assert_eq (\<lambda>l. ledger_record l (lit request_id) (lit canonical) out) expected"

definition ledger_records_backed ::
  "string \<Rightarrow> string \<Rightarrow> ledger_outcome \<Rightarrow> record_outcome \<Rightarrow> (request_ledger, unit) scenario" where
  "ledger_records_backed request_id canonical out expected =
     assert_eq (\<lambda>l. ledger_record_with_recovery l (lit request_id) (lit canonical) out) expected"

definition ledger_classifies :: "string \<Rightarrow> string \<Rightarrow> request_disposition \<Rightarrow> (request_ledger, unit) scenario" where
  "ledger_classifies request_id canonical expected =
     do { d \<leftarrow> observe (\<lambda>l. ledger_classify l (lit request_id) (lit canonical)); check (d = expected) }"

definition ledger_holds :: "nat \<Rightarrow> (request_ledger, unit) scenario" where
  "ledger_holds n = do { entries \<leftarrow> observe ledger_len; check (entries = n) }"

definition fifo_eviction_is_deterministic :: bool where
  "fifo_eviction_is_deterministic \<longleftrightarrow>
     passes (ledger_of 2) (do {
       ledger_records ''a'' ''ca'' (definite ''1'') RO_Inserted;
       ledger_records ''b'' ''cb'' (definite ''2'') RO_Inserted;
       ledger_records ''c'' ''cc'' (definite ''3'') (RO_Evicted (lit ''a''));
       ledger_classifies ''a'' ''ca'' RD_Fresh;
       ledger_classifies ''b'' ''cb'' (RD_Duplicate (definite ''2''));
       ledger_classifies ''c'' ''cc'' (RD_Duplicate (definite ''3''));
       ledger_holds 2
     })"

definition ambiguous_ledger_entries_are_pinned_and_saturation_fails_closed :: bool where
  "ambiguous_ledger_entries_are_pinned_and_saturation_fails_closed \<longleftrightarrow>
     passes (ledger_of 2) (do {
       ledger_records ''amb-1'' ''c1'' ambiguous_loss_outcome RO_Inserted;
       ledger_records ''def-1'' ''c2'' (definite ''applied'') RO_Inserted;
       ledger_records ''def-2'' ''c3'' (definite ''applied'') (RO_Evicted (lit ''def-1''));
       ledger_classifies ''amb-1'' ''c1'' (RD_Duplicate ambiguous_loss_outcome);
       ledger_records ''amb-2'' ''c4'' ambiguous_loss_outcome (RO_Evicted (lit ''def-2''));
       ledger_holds 2;
       ledger_records ''amb-3'' ''c5'' ambiguous_loss_outcome RO_RejectedLedgerFull;
       ledger_holds 2;
       ledger_classifies ''amb-1'' ''c1'' (RD_Duplicate ambiguous_loss_outcome);
       ledger_classifies ''amb-3'' ''c5'' RD_Fresh
     })"

definition recovery_backed_ambiguous_entries_evict_while_unbacked_stay_pinned :: bool where
  "recovery_backed_ambiguous_entries_evict_while_unbacked_stay_pinned \<longleftrightarrow>
     passes (ledger_of 2) (do {
       ledger_records_backed ''back-1'' ''c1'' ambiguous_loss_outcome RO_Inserted;
       ledger_records_backed ''back-2'' ''c2'' ambiguous_loss_outcome RO_Inserted;
       ledger_records ''def-1'' ''c3'' (definite ''applied'') (RO_Evicted (lit ''back-1''));
       ledger_holds 2
     }) \<and>
     passes (ledger_of 1) (do {
       ledger_records ''free-1'' ''c1'' ambiguous_loss_outcome RO_Inserted;
       ledger_records ''def-1'' ''c2'' (definite ''x'') RO_RejectedLedgerFull;
       ledger_records_backed ''def-2'' ''c3'' (definite ''x'') RO_RejectedLedgerFull;
       ledger_holds 1
     })"

definition zero_ledger_capacity_is_rejected :: bool where
  "zero_ledger_capacity_is_rejected \<longleftrightarrow>
     ledger_new 0 = Inl LedgerCapacityError \<and> endpoint_new 0 = Inl LedgerCapacityError"

lemmas ledger_scenario = endpoint_scenario ledger_of_def ledger_records_def ledger_records_backed_def
  ledger_record_with_recovery_def ledger_classifies_def ledger_holds_def evictable_def is_ambiguous_def
  ambiguous_loss_outcome_def remove_nth_def Let_def

lemma ledger_tests:
  fifo_eviction_is_deterministic ambiguous_ledger_entries_are_pinned_and_saturation_fails_closed
  recovery_backed_ambiguous_entries_evict_while_unbacked_stay_pinned zero_ledger_capacity_is_rejected
  by (simp_all add: fifo_eviction_is_deterministic_def zero_ledger_capacity_is_rejected_def
      ambiguous_ledger_entries_are_pinned_and_saturation_fails_closed_def
      recovery_backed_ambiguous_entries_evict_while_unbacked_stay_pinned_def ledger_scenario)

subsection \<open>Frames\<close>

definition malformed_frames_fail_closed :: bool where
  "malformed_frames_fail_closed \<longleftrightarrow>
     encode_frame (lit '''') = Inl FE_EmptyFrame \<and>
     fst (decode_frame [0, 0, 0, 0]) = Inl FE_EmptyFrame \<and>
     fst (decode_frame (le_bytes 4 2 @ [0xd8, 0x00])) = Inl FE_InvalidUtf8"

definition oversized_frames_fail_closed :: bool where
  "oversized_frames_fail_closed \<longleftrightarrow>
     encode_frame (replicate (MAX_FRAME_BYTES + 1) (chr CHR ''x'')) = Inl FE_OversizedFrame \<and>
     fst (decode_frame (le_bytes 4 (MAX_FRAME_BYTES + 1) @ [0x78])) = Inl FE_OversizedFrame"

text \<open>The payload of the test; 34 is the quotation mark.\<close>

definition hello_payload :: ustr where
  "hello_payload = lit ''{'' @ [34] @ lit ''hello'' @ [34] @ lit '':'' @ [34] @ lit ''zonkey'' @ [34] @ lit ''}''"

definition frames_roundtrip_and_stream_incrementally :: bool where
  "frames_roundtrip_and_stream_incrementally \<longleftrightarrow>
     (case encode_frame hello_payload of
        Inl _ \<Rightarrow> False
      | Inr frame \<Rightarrow>
          passes (Some frame) (do {
            assert_eq decode_frame (Inr (Some hello_payload));
            assert_eq decode_frame (Inr None)
          }) \<and>
          fst (decode_frame (take (length frame - 1) frame)) = Inr None)"

lemma frame_tests:
  malformed_frames_fail_closed oversized_frames_fail_closed frames_roundtrip_and_stream_incrementally
proof -
  have four: "(4 :: nat) = Suc (Suc (Suc (Suc 0)))" by simp
  have b: "le_bytes 4 2 = [2, 0, 0, 0]" unfolding four by (simp add: byte_of_def)
  have "from_utf8 [0xd8, 0x00] = None" by (simp add: from_utf8.simps is_cont_def)
  then show malformed_frames_fail_closed
    by (simp add: malformed_frames_fail_closed_def encode_frame_def decode_frame_def frame_constants Let_def b)
  have "ulen (replicate (MAX_FRAME_BYTES + 1) (chr CHR ''x'')) = MAX_FRAME_BYTES + 1"
    by (subst ulen_ascii) (simp_all add: is_ascii_str_def list_all_iff is_ascii_def)
  then show oversized_frames_fail_closed
    by (simp add: oversized_frames_fail_closed_def encode_frame_def decode_frame_def frame_constants Let_def
        from_le_bytes)
  have v: "valid_str hello_payload"
    by (intro ascii_str_valid) (simp add: hello_payload_def is_ascii_str_def is_ascii_def)
  have "ulen hello_payload = 18"
    by (subst ulen_ascii) (simp_all add: hello_payload_def is_ascii_str_def is_ascii_def)
  then obtain frame where e: "encode_frame hello_payload = Inr frame" "0 < length frame"
    by (auto simp: encode_frame_def MAX_FRAME_BYTES_def hello_payload_def)
  have "decode_frame (frame @ []) = (Inr (Some hello_payload), [])"
    by (rule decode_encode_frame [OF v e(1)])
  with e decode_frame_prefix [OF e(1), of "length frame - 1"]
  show frames_roundtrip_and_stream_incrementally
    by (simp add: frames_roundtrip_and_stream_incrementally_def passes_def decode_frame_def FRAME_HEADER_BYTES_def)
qed

subsection \<open>The recovery registry\<close>

definition registry_of :: "nat \<Rightarrow> recovery_registry option" where
  "registry_of capacity = (case registry_new capacity of Inl _ \<Rightarrow> None | Inr g \<Rightarrow> Some g)"

definition target_blocks ::
  "string \<Rightarrow> string \<Rightarrow> string \<Rightarrow> string \<Rightarrow> u64 \<times> u64 \<Rightarrow> u64 \<Rightarrow> recovery_error + unit
    \<Rightarrow> (recovery_registry, unit) scenario" where
  "target_blocks session uri expected replacement rng epoch answer =
     assert_eq (\<lambda>g. registry_block g (lit session) (lit uri) (lit expected) (lit replacement) rng epoch) answer"

definition target_reconciles ::
  "string \<Rightarrow> string \<Rightarrow> string \<Rightarrow> u64 \<Rightarrow> string \<Rightarrow> recovery_error + recovery_verdict
    \<Rightarrow> (recovery_registry, unit) scenario" where
  "target_reconciles session uri expected epoch live answer =
     assert_eq (\<lambda>g. registry_reconcile g (lit session) (lit uri) (lit expected) epoch (lit live)) answer"

definition target_acks ::
  "string \<Rightarrow> string \<Rightarrow> string \<Rightarrow> u64 \<Rightarrow> recovery_error + unit \<Rightarrow> (recovery_registry, unit) scenario" where
  "target_acks session uri expected epoch answer =
     assert_eq (\<lambda>g. registry_acknowledge g (lit session) (lit uri) (lit expected) epoch) answer"

definition targets_listed :: "nat \<Rightarrow> (recovery_registry, unit) scenario" where
  "targets_listed n = do { targets \<leftarrow> observe registry_list; check (length targets = n) }"

definition first_session :: "string \<Rightarrow> (recovery_registry, unit) scenario" where
  "first_session session =
     do { targets \<leftarrow> observe registry_list; check (map bt_session_id (take 1 targets) = [lit session]) }"

definition recovery_registry_full_lifecycle :: bool where
  "recovery_registry_full_lifecycle \<longleftrightarrow>
     passes (registry_of 4) (do {
       targets_listed 0;
       target_blocks ''sess-1'' ''file:///a'' ''resume'' ''restored'' (0, 6) 0 (Inr ());
       targets_listed 1;
       target_acks ''sess-1'' ''file:///a'' ''resume'' 0 (Inl RE_AckBeforeReconcile);
       target_reconciles ''sess-1'' ''file:///a'' ''resume'' 0 ''restored'' (Inr RV_AppliedAcknowledged);
       target_reconciles ''sess-1'' ''file:///a'' ''resume'' 0 ''restored'' (Inr RV_AppliedAcknowledged);
       target_acks ''sess-1'' ''file:///a'' ''resume'' 0 (Inr ());
       targets_listed 0;
       target_acks ''sess-1'' ''file:///a'' ''resume'' 0 (Inl RE_UnknownTarget)
     })"

definition recovery_registry_not_applied_and_conflict_verdicts :: bool where
  "recovery_registry_not_applied_and_conflict_verdicts \<longleftrightarrow>
     passes (registry_of 4) (do {
       target_blocks ''sess-1'' ''file:///a'' ''resume'' ''restored'' (0, 6) 0 (Inr ());
       target_reconciles ''sess-1'' ''file:///a'' ''resume'' 0 ''resume'' (Inr RV_NotApplied);
       target_acks ''sess-1'' ''file:///a'' ''resume'' 0 (Inr ());
       target_blocks ''sess-1'' ''file:///b'' ''resume'' ''restored'' (0, 6) 0 (Inr ());
       target_reconciles ''sess-1'' ''file:///b'' ''resume'' 0 ''mangled!'' (Inr RV_ConflictHumanReview);
       targets_listed 1;
       target_acks ''sess-1'' ''file:///b'' ''resume'' 0 (Inr ());
       targets_listed 0
     })"

definition recovery_registry_rejects_wrong_session_and_unknown_targets :: bool where
  "recovery_registry_rejects_wrong_session_and_unknown_targets \<longleftrightarrow>
     passes (registry_of 4) (do {
       target_blocks ''sess-1'' ''file:///a'' ''resume'' ''restored'' (0, 6) 0 (Inr ());
       target_reconciles ''sess-2'' ''file:///a'' ''resume'' 0 ''restored'' (Inl RE_SessionMismatch);
       target_acks ''sess-2'' ''file:///a'' ''resume'' 0 (Inl RE_SessionMismatch);
       target_reconciles ''sess-1'' ''file:///missing'' ''resume'' 0 ''x'' (Inl RE_UnknownTarget)
     })"

definition recovery_registry_full_of_unresolved_rejects_new_blocks :: bool where
  "recovery_registry_full_of_unresolved_rejects_new_blocks \<longleftrightarrow>
     passes (registry_of 2) (do {
       target_blocks ''sess-1'' ''file:///a'' ''t1'' ''r1'' (0, 2) 0 (Inr ());
       target_blocks ''sess-1'' ''file:///b'' ''t2'' ''r2'' (0, 2) 0 (Inr ());
       target_blocks ''sess-1'' ''file:///c'' ''t3'' ''r3'' (0, 2) 0 (Inl RE_RegistryFull);
       targets_listed 2;
       target_reconciles ''sess-1'' ''file:///a'' ''t1'' 0 ''r1'' (Inr RV_AppliedAcknowledged);
       target_acks ''sess-1'' ''file:///a'' ''t1'' 0 (Inr ());
       target_blocks ''sess-1'' ''file:///c'' ''t3'' ''r3'' (0, 2) 0 (Inr ())
     })"

definition hashed_text_without_salt_fails_closed :: bool where
  "hashed_text_without_salt_fails_closed \<longleftrightarrow>
     \<not> text_matches (RT_Hashed (replicate 32 9)) None (lit ''anything'') \<and>
     text_matches (RT_Plain (lit ''resume'')) None (lit ''resume'') \<and>
     \<not> text_matches (RT_Plain (lit ''resume'')) None (lit ''other'')"

lemmas registry_scenario = passes_def registry_of_def registry_new_def target_blocks_def
  target_reconciles_def target_acks_def targets_listed_def first_session_def registry_block_def
  registry_reconcile_def registry_acknowledge_def registry_list_def map_filter_simps resolve_key_def
  registry_key_def bind_target_def rebind_allowed_def readback_verdict_def text_matches_def Let_def

lemma registry_tests:
  recovery_registry_full_lifecycle recovery_registry_not_applied_and_conflict_verdicts
  recovery_registry_rejects_wrong_session_and_unknown_targets
  recovery_registry_full_of_unresolved_rejects_new_blocks hashed_text_without_salt_fails_closed
  by (simp_all add: recovery_registry_full_lifecycle_def recovery_registry_not_applied_and_conflict_verdicts_def
      recovery_registry_rejects_wrong_session_and_unknown_targets_def
      recovery_registry_full_of_unresolved_rejects_new_blocks_def hashed_text_without_salt_fails_closed_def
      registry_scenario)

subsection \<open>Restored targets\<close>

text \<open>A record of the state file for the texts \<open>resume\<close> and \<open>restored\<close>.\<close>

definition hashed_record :: "bytes \<Rightarrow> string \<Rightarrow> recovery_verdict option \<Rightarrow> u64 \<Rightarrow> u64 \<Rightarrow> string \<Rightarrow> persisted_target" where
  "hashed_record salt uri verdict generation epoch request_id =
     \<lparr>pt_uri = lit uri, pt_range = (0, 6), pt_expected_hash = salted_hash salt (lit ''resume''),
      pt_replacement_hash = salted_hash salt (lit ''restored''), pt_kind = PK_Blocked verdict,
      pt_generation = generation, pt_document_epoch = epoch, pt_request_id = lit request_id\<rparr>"

definition restored_registry :: "bytes \<Rightarrow> persisted_target list \<Rightarrow> recovery_registry option" where
  "restored_registry salt recs = (case registry_restore 4 salt recs of Inl _ \<Rightarrow> None | Inr g \<Rightarrow> Some g)"

definition restored_case :: "string \<Rightarrow> recovery_verdict \<Rightarrow> bool" where
  "restored_case live verdict \<longleftrightarrow>
     (let salt = replicate SALT_BYTES 0xAB in
      passes (restored_registry salt [hashed_record salt ''file:///a'' None 1 0 ''operator'']) (do {
        targets_listed 1;
        first_session '''';
        targets \<leftarrow> observe registry_list;
        check (map (\<lambda>t. text_display (bt_expected t)) (take 1 targets) = [lit ''<hashed>'']);
        target_reconciles ''sess-new'' ''file:///a'' ''resume'' 0 live (Inr verdict);
        first_session ''sess-new'';
        target_reconciles ''sess-other'' ''file:///a'' ''resume'' 0 live (Inl RE_SessionMismatch);
        target_acks ''sess-new'' ''file:///a'' ''resume'' 0 (Inr ());
        targets_listed 0
      }))"

definition restored_targets_rebind_reconcile_by_hash_and_ack :: bool where
  "restored_targets_rebind_reconcile_by_hash_and_ack \<longleftrightarrow>
     restored_case ''restored'' RV_AppliedAcknowledged \<and> restored_case ''resume'' RV_NotApplied \<and>
     restored_case ''mangled!'' RV_ConflictHumanReview"

definition restored_verdict_survives_and_ack_rebinds_without_reconcile :: bool where
  "restored_verdict_survives_and_ack_rebinds_without_reconcile \<longleftrightarrow>
     (let salt = replicate SALT_BYTES 1 in
      passes (restored_registry salt
          [hashed_record salt ''file:///a'' (Some RV_ConflictHumanReview) 2 0 ''operator'']) (do {
        target_reconciles ''sess-new'' ''file:///a'' ''resume'' 0 ''whatever'' (Inr RV_ConflictHumanReview);
        target_acks ''sess-new'' ''file:///a'' ''resume'' 0 (Inr ());
        targets_listed 0
      }))"

definition epoch_bound_restored_target_rebinds_only_on_exact_epoch :: bool where
  "epoch_bound_restored_target_rebinds_only_on_exact_epoch \<longleftrightarrow>
     (let salt = replicate SALT_BYTES 0xCD in
      passes (restored_registry salt [hashed_record salt ''file:///doc'' None 1 5 ''req-orig'']) (do {
        target_reconciles ''sess-new'' ''file:///doc'' ''resume'' 0 ''restored'' (Inl RE_EpochMismatch);
        target_reconciles ''sess-new'' ''file:///doc'' ''resume'' 4 ''restored'' (Inl RE_EpochMismatch);
        target_reconciles ''sess-new'' ''file:///doc'' ''resume'' 6 ''restored'' (Inl RE_EpochMismatch);
        first_session '''';
        blocked \<leftarrow> observe (\<lambda>g. is_blocked g (lit ''file:///doc'') (lit ''resume''));
        check blocked;
        target_acks ''sess-new'' ''file:///doc'' ''resume'' 0 (Inl RE_EpochMismatch);
        target_reconciles ''sess-new'' ''file:///doc'' ''resume'' 5 ''restored'' (Inr RV_AppliedAcknowledged);
        first_session ''sess-new'';
        target_acks ''sess-new'' ''file:///doc'' ''resume'' 5 (Inr ());
        targets_listed 0
      }))"

definition epoch_free_restored_target_keeps_previous_rebind_semantics :: bool where
  "epoch_free_restored_target_keeps_previous_rebind_semantics \<longleftrightarrow>
     (let salt = replicate SALT_BYTES 0xCE in
      passes (restored_registry salt [hashed_record salt ''file:///doc'' None 1 0 ''operator''])
        (target_reconciles ''sess-new'' ''file:///doc'' ''resume'' 0 ''resume'' (Inr RV_NotApplied)))"

text \<open>
  Telling the three texts of the tests apart needs that their salted hashes differ, which is the only
  fact about SHA-256 used.
\<close>

definition hashes_differ :: "u8 \<Rightarrow> bool" where
  "hashes_differ b \<longleftrightarrow>
     distinct (map (\<lambda>s. salted_hash (replicate SALT_BYTES b) (lit s)) [''restored'', ''resume'', ''mangled!''])"

lemmas restored_scenario = restored_case_def hashed_record_def restored_registry_def registry_restore_def
  restore_record_def restored_key_def restored_target_def text_display_def is_blocked_def

lemma hashes_differD:
  assumes "hashes_differ b" and "set [x, y] \<subseteq> {''restored'', ''resume'', ''mangled!''}" and "x \<noteq> y"
  shows "salted_hash (replicate SALT_BYTES b) (lit x) \<noteq> salted_hash (replicate SALT_BYTES b) (lit y)"
  using assms by (auto simp: hashes_differ_def)

lemma text_is_no_hash: "length w \<noteq> 64 \<Longrightarrow> (w = hex (salted_hash salt s)) = False"
  by auto

lemmas restored_eval = restored_scenario registry_scenario text_is_no_hash

lemma restored_tests:
  "hashes_differ 0xAB \<Longrightarrow> restored_targets_rebind_reconcile_by_hash_and_ack"
  "restored_verdict_survives_and_ack_rebinds_without_reconcile"
  "epoch_bound_restored_target_rebinds_only_on_exact_epoch"
  "hashes_differ 0xCE \<Longrightarrow> epoch_free_restored_target_keeps_previous_rebind_semantics"
proof -
  show restored_targets_rebind_reconcile_by_hash_and_ack if "hashes_differ 0xAB"
    using hashes_differD [OF that, of "''restored''" "''resume''"]
      hashes_differD [OF that, of "''resume''" "''restored''"]
      hashes_differD [OF that, of "''resume''" "''mangled!''"]
      hashes_differD [OF that, of "''restored''" "''mangled!''"]
      hashes_differD [OF that, of "''mangled!''" "''resume''"]
      hashes_differD [OF that, of "''mangled!''" "''restored''"]
    by (simp add: restored_targets_rebind_reconcile_by_hash_and_ack_def restored_eval)
  show epoch_free_restored_target_keeps_previous_rebind_semantics if "hashes_differ 0xCE"
    using hashes_differD [OF that, of "''resume''" "''restored''"]
    by (simp add: epoch_free_restored_target_keeps_previous_rebind_semantics_def restored_eval)
qed (simp_all add: restored_verdict_survives_and_ack_rebinds_without_reconcile_def
      epoch_bound_restored_target_rebinds_only_on_exact_epoch_def restored_eval)

end
