(* ===== verification/Decision_Tests.thy ===== *)
theory Decision_Tests
  imports Handoff Scenario
begin

text \<open>
  Unit tests of the decision processor (\<open>zonkey-service/src/lib.rs\<close>) and of the host requests and
  the shared decision state made from it (\<open>transport.rs\<close>), each under its own name, and the proof
  that the model passes them.  The lemmas of the first part run a typed word in one step; with the
  verdicts and plans of the words the tests type, a test is a short calculation.
\<close>

subsection \<open>Typing words\<close>

lemma feed_letters_word:
  assumes "dp_telex p = engine_new" and "no_shortcut p" and "list_all is_ascii_lowercase w" and "w \<noteq> []"
    and "compose w = Inr r" and "seq \<noteq> 0" and "unat seq + length w < 2 ^ 64"
  shows "feed_letters U p w seq =
    Some (p\<lparr>dp_last_restore_plan := None, dp_telex := \<lparr>token = \<lparr>raw_ascii = w, rendered = r\<rparr>\<rparr>\<rparr>,
      seq + of_nat (length w))"
proof -
  have a: "list_all is_ascii_alphabetic w"
    using assms(3) by (auto simp: list_all_iff is_ascii_alphabetic_def)
  have "r = foldl compose_step [] w"
    using assms(5) compose_facts(4) [OF assms(5)] by (simp add: compose_ascii)
  then show ?thesis
    using typed_word_steps [OF _ assms(2-4), of U] assms(1)
    by (auto simp: feed_letters_steps [OF a assms(6,7)] engine_inv_new)
      (simp_all add: engine_new_def token_new_def)
qed

lemma space_after_word:
  assumes "dp_telex p = \<lparr>token = \<lparr>raw_ascii = w, rendered = r\<rparr>\<rparr>" and "no_shortcut p"
    and "list_all is_ascii_lowercase w" and "w \<noteq> []" and "compose w = Inr r"
    and "dp_context p = IC_Writing" and "dp_next_plan_generation p = Some g"
  shows "process_decision U p (fed_event OK_Space s) = Some (PC_BoundaryObserved, after_word w r g p)"
  by (simp add: process_fed_event space_pressed [OF assms(2)] word_at_boundary [OF assms(3-5,1,6,7)])

lemma feed_token_word:
  assumes "dp_telex p = engine_new" and "no_shortcut p" and "list_all is_ascii_lowercase w" and "w \<noteq> []"
    and "compose w = Inr r" and "seq \<noteq> 0" and "unat seq + length w < 2 ^ 64"
    and "dp_context p = IC_Writing" and "dp_next_plan_generation p = Some g"
  shows "feed_token U p w seq = Some (after_word w r g p)"
proof -
  let ?q = "p\<lparr>dp_last_restore_plan := None, dp_telex := \<lparr>token = \<lparr>raw_ascii = w, rendered = r\<rparr>\<rparr>\<rparr>"
  have "unat (seq + of_nat (length w)) = unat seq + length w"
    using assms(7) by (simp add: unat_word_ariths take_bit_eq_mod unat_of_nat)
  then have "seq + of_nat (length w) \<noteq> 0"
    using assms(6) by (metis add_is_0 unat_0 unat_0_iff)
  moreover have "process_decision U ?q (fed_event OK_Space s) = Some (PC_BoundaryObserved, after_word w r g ?q)" for s
    by (rule space_after_word) (use assms in \<open>simp_all add: no_shortcut_def\<close>)
  moreover have "after_word w r g ?q = after_word w r g p" by (cases p) (simp add: after_word_def)
  ultimately show ?thesis
    by (simp add: feed_token_def feed_letters_word [OF assms(1-7)] event_sequence_new_def)
qed

declare feed_letters.simps [simp del]

subsection \<open>The words of the tests\<close>

lemmas word_compose = compose_def compose_step_def try_shape_transform_def try_tone_def requested_tone_def
  rposition_def decode_vowel_def encode_vowel_def VOWELS_def SHAPES_def tone_of_column_def shape_rule_def
  is_ascii_def D_STROKE_def Let_def

lemma compose_words:
  "compose (lit ''resume'') = Inr [114, 0xE9, 117, 109, 101]"
  "compose (lit ''config'') = Inr [99, 0xF2, 110, 105, 103]"
  "compose (lit ''refresh'') = Inr [114, 0x1EBF, 104]"
  "compose (lit ''dungf'') = Inr [100, 0xF9, 110, 103]"
  "compose (lit ''hello'') = Inr (lit ''hello'')"
  "compose (lit ''abcd'') = Inr (lit ''abcd'')"
  by (simp_all add: word_compose)

lemmas word_classify = built_in_classify_words dictionary_words_def products_lines_def it_common_lines_def
  en_common_lines_def to_ascii_lowercase_def is_ascii_uppercase_def

lemma classify_words:
  "built_in_classify (lit ''resume'') = Some DC_English"
  "built_in_classify (lit ''config'') = Some DC_Technical"
  "built_in_classify (lit ''refresh'') = Some DC_English"
  "built_in_classify (lit ''dungf'') = None"
  "built_in_classify (lit ''hello'') = None"
  "built_in_classify (lit ''abcd'') = None"
  by (simp_all add: word_classify)

lemma typed_plans:
  "typed_word_plan (lit ''resume'') [114, 0xE9, 117, 109, 101] =
     Some \<lparr>rp_original_token = lit ''resume'', rp_rendered_token = [114, 0xE9, 117, 109, 101],
       rp_replacement_token = lit ''resume'', rp_rendered_units_to_replace = 5, rp_replacement_units = 6,
       rp_reason = DR_ExactEnglishDictionary, rp_execution_allowed = False, rp_generation = 1\<rparr>"
  "typed_word_plan (lit ''config'') [99, 0xF2, 110, 105, 103] =
     Some \<lparr>rp_original_token = lit ''config'', rp_rendered_token = [99, 0xF2, 110, 105, 103],
       rp_replacement_token = lit ''config'', rp_rendered_units_to_replace = 5, rp_replacement_units = 6,
       rp_reason = DR_ExactTechnicalDictionary, rp_execution_allowed = False, rp_generation = 1\<rparr>"
  "typed_word_plan (lit ''refresh'') [114, 0x1EBF, 104] =
     Some \<lparr>rp_original_token = lit ''refresh'', rp_rendered_token = [114, 0x1EBF, 104],
       rp_replacement_token = lit ''refresh'', rp_rendered_units_to_replace = 3, rp_replacement_units = 7,
       rp_reason = DR_ExactEnglishDictionary, rp_execution_allowed = False, rp_generation = 1\<rparr>"
  "typed_word_plan (lit ''dungf'') [100, 0xF9, 110, 103] = None"
  "typed_word_plan (lit ''hello'') (lit ''hello'') = None"
  "typed_word_plan (lit ''abcd'') (lit ''abcd'') = None"
  using classify_words by (simp_all add: typed_word_plan_def)

lemma typed_verdicts:
  "typed_word_verdict (lit ''resume'') [114, 0xE9, 117, 109, 101] = DD_RestoreCandidate"
  "typed_word_verdict (lit ''config'') [99, 0xF2, 110, 105, 103] = DD_RestoreCandidate"
  "typed_word_verdict (lit ''refresh'') [114, 0x1EBF, 104] = DD_RestoreCandidate"
  "typed_word_verdict (lit ''dungf'') [100, 0xF9, 110, 103] = DD_Keep"
  "typed_word_verdict (lit ''hello'') (lit ''hello'') = DD_Ambiguous"
  "typed_word_verdict (lit ''abcd'') (lit ''abcd'') = DD_Ambiguous"
  using classify_words by (simp_all add: typed_word_verdict_def is_ascii_str_def is_ascii_def)

lemmas word_letters = compose_words [THEN feed_letters_word [rotated 4], simplified]
lemmas word_boundaries = compose_words [THEN word_at_boundary [rotated 2], simplified]
lemmas word_tokens = compose_words [THEN feed_token_word [rotated 4], simplified]

subsection \<open>Host requests\<close>

definition processor_with :: "unicode \<Rightarrow> string \<Rightarrow> decision_processor option" where
  "processor_with U word = feed_token U (processor_new False) (lit word) 1"

definition valid_restore_candidate_creates_request_with_deterministic_id :: "unicode \<Rightarrow> bool" where
  "valid_restore_candidate_creates_request_with_deterministic_id U \<longleftrightarrow>
     passes (processor_with U ''resume'') (do {
       p \<leftarrow> observe id;
       handoff \<leftarrow> unwrap (current_restore_handoff p);
       check (case build_host_request p handoff of
          Inl _ \<Rightarrow> False
        | Inr req \<Rightarrow>
            hr_request_id req = lit ''handoff-'' @ show_nat (unat (ho_generation handoff)) \<and>
            hr_rendered_token req = ho_rendered_token handoff \<and>
            hr_replacement_token req = ho_replacement_token handoff \<and>
            hr_rendered_units req = length (hr_rendered_token req) \<and>
            hr_replacement_units req = length (hr_replacement_token req) \<and>
            hr_generation req = ho_generation handoff \<and>
            map_sum id hr_request_id (build_host_request p handoff) = Inr (hr_request_id req))
     })"

definition no_request_for :: "unicode \<Rightarrow> string \<Rightarrow> bool" where
  "no_request_for U word \<longleftrightarrow>
     passes (processor_with U word) (do {
       p \<leftarrow> observe id;
       check (build_host_request p
         \<lparr>ho_rendered_token = lit word, ho_replacement_token = lit word,
          ho_rendered_units_to_replace = length word, ho_replacement_units = length word,
          ho_reason = DR_ExactEnglishDictionary, ho_generation = 1, ho_simulation_only = True\<rparr> =
         Inl HE_NoCurrentPlan)
     })"

definition keep_and_ambiguous_create_no_request :: "unicode \<Rightarrow> bool" where
  "keep_and_ambiguous_create_no_request U \<longleftrightarrow> no_request_for U ''dungf'' \<and> no_request_for U ''hello''"

definition stale_handoff_after_replacement_rejects :: "unicode \<Rightarrow> bool" where
  "stale_handoff_after_replacement_rejects U \<longleftrightarrow>
     passes (processor_with U ''resume'') (do {
       p \<leftarrow> observe id;
       stale \<leftarrow> unwrap (current_restore_handoff p);
       q \<leftarrow> unwrap (feed_token U p (lit ''config'') 10);
       check (build_host_request q stale = Inl HE_GenerationMismatch)
     })"

text \<open>The tests that submit a changed copy of the current handoff.\<close>

definition changed_handoff ::
  "unicode \<Rightarrow> (restore_plan_handoff \<Rightarrow> restore_plan_handoff) \<Rightarrow> handoff_request_error \<Rightarrow> bool" where
  "changed_handoff U change err \<longleftrightarrow>
     passes (processor_with U ''resume'') (do {
       p \<leftarrow> observe id;
       submitted \<leftarrow> unwrap (current_restore_handoff p);
       check (build_host_request p (change submitted) = Inl err)
     })"

definition generation_mismatch_rejects :: "unicode \<Rightarrow> bool" where
  "generation_mismatch_rejects U \<longleftrightarrow>
     changed_handoff U (\<lambda>h. h\<lparr>ho_generation := ho_generation h + 1\<rparr>) HE_GenerationMismatch"

definition malformed_span_rejects :: "unicode \<Rightarrow> bool" where
  "malformed_span_rejects U \<longleftrightarrow>
     changed_handoff U (\<lambda>h. h\<lparr>ho_rendered_units_to_replace := ho_rendered_units_to_replace h + 1\<rparr>) HE_MalformedSpan"

definition simulation_invariant_failure_maps_to_gate_failure :: "unicode \<Rightarrow> bool" where
  "simulation_invariant_failure_maps_to_gate_failure U \<longleftrightarrow>
     changed_handoff U (\<lambda>h. h\<lparr>ho_simulation_only := False\<rparr>) HE_InternalGateFailed"

lemmas idle_eval = processor_new_def no_shortcut_def is_ascii_lowercase_def

lemmas plan_eval = after_word_def typed_plans [simplified] typed_verdicts [simplified] current_restore_handoff_def
  current_plan_eligibility_def validate_restore_plan_def

lemmas gate_eval = build_host_request_def evaluate_internal_execution_gate_def revalidate_restore_handoff_def
  host_request_def

lemma host_request_tests:
  "valid_restore_candidate_creates_request_with_deterministic_id U" "keep_and_ambiguous_create_no_request U"
  "stale_handoff_after_replacement_rejects U" "generation_mismatch_rejects U" "malformed_span_rejects U"
  "simulation_invariant_failure_maps_to_gate_failure U"
  by (simp_all add: valid_restore_candidate_creates_request_with_deterministic_id_def
      keep_and_ambiguous_create_no_request_def stale_handoff_after_replacement_rejects_def no_request_for_def
      generation_mismatch_rejects_def malformed_span_rejects_def changed_handoff_def
      simulation_invariant_failure_maps_to_gate_failure_def processor_with_def passes_def
      word_tokens idle_eval plan_eval gate_eval)

subsection \<open>The shared decision state\<close>

definition key_event ::
  "u64 \<Rightarrow> observed_key \<Rightarrow> key_event_kind \<Rightarrow> modifier_state \<Rightarrow> injection_origin \<Rightarrow> observed_input_event option" where
  "key_event seq key kind mods origin =
     (case event_sequence_new seq of
        Inl _ \<Rightarrow> None
      | Inr s \<Rightarrow> Some \<lparr>oe_key = key, oe_kind = kind, oe_modifiers = mods, oe_injection_origin = origin,
                      oe_sequence = s\<rparr>)"

definition live_event :: "u64 \<Rightarrow> observed_key \<Rightarrow> injection_origin \<Rightarrow> observed_input_event option" where
  "live_event seq key origin = key_event seq key KE_KeyDown modifier_state_new origin"

definition letter_key :: "scalar \<Rightarrow> observed_key option" where
  "letter_key c = (case key_letter c of Inl _ \<Rightarrow> None | Inr key \<Rightarrow> Some key)"

text \<open>\<open>None\<close> is a panic.\<close>

definition live_process ::
  "unicode \<Rightarrow> observed_input_event option \<Rightarrow> shared_decision_state \<Rightarrow> shared_decision_state option" where
  "live_process U event s =
     Option.bind event (\<lambda>e. case shared_process U s e of (None, _) \<Rightarrow> None | (Some _, s') \<Rightarrow> Some s')"

definition live_key ::
  "unicode \<Rightarrow> injection_origin \<Rightarrow> u64 \<Rightarrow> observed_key option \<Rightarrow> shared_decision_state
    \<Rightarrow> shared_decision_state option" where
  "live_key U origin seq key s = Option.bind key (\<lambda>k. live_process U (live_event seq k origin) s)"

fun live_letters ::
  "unicode \<Rightarrow> injection_origin \<Rightarrow> u64 \<Rightarrow> ustr \<Rightarrow> shared_decision_state
    \<Rightarrow> (shared_decision_state \<times> u64) option" where
  "live_letters U origin seq [] s = Some (s, seq)"
| "live_letters U origin seq (c # cs) s =
     Option.bind (live_key U origin seq (letter_key c) s) (live_letters U origin (seq + 1) cs)"

definition live_space :: "unicode \<Rightarrow> u64 \<Rightarrow> shared_decision_state \<Rightarrow> shared_decision_state option" where
  "live_space U seq s = live_key U IO_PhysicalOrUnmarked seq (Some OK_Space) s"

definition feed_live_token ::
  "unicode \<Rightarrow> shared_decision_state \<Rightarrow> string \<Rightarrow> u64 \<Rightarrow> shared_decision_state option" where
  "feed_live_token U s word start =
     Option.bind (live_letters U IO_PhysicalOrUnmarked start (lit word) s) (\<lambda>(s', seq). live_space U seq s')"

definition step_to :: "('s \<Rightarrow> 's option) \<Rightarrow> ('s, unit) scenario" where
  "step_to f = do { s \<leftarrow> observe id; s' \<leftarrow> unwrap (f s); alter (\<lambda>_. s') }"

definition has_request :: "(handoff_request_error + handoff_request \<Rightarrow> bool) \<Rightarrow> (shared_decision_state, unit) scenario" where
  "has_request P = do { r \<leftarrow> observe current_handoff_request; check (P r) }"

definition request_id_is :: "string \<Rightarrow> handoff_request_error + handoff_request \<Rightarrow> bool" where
  "request_id_is i r \<longleftrightarrow> map_sum id hr_request_id r = Inr (lit i)"

definition live_wiring_maps_current_restore_candidate :: "unicode \<Rightarrow> bool" where
  "live_wiring_maps_current_restore_candidate U \<longleftrightarrow>
     passes (Some shared_new) (do {
       s \<leftarrow> observe id;
       typed \<leftarrow> unwrap (live_letters U IO_PhysicalOrUnmarked 1 (lit ''resume'') s);
       alter (\<lambda>_. fst typed);
       has_request (\<lambda>r. r = Inl HE_NoCurrentPlan);
       step_to (live_space U (snd typed));
       has_request (\<lambda>r. request_id_is ''handoff-1'' r);
       has_request (\<lambda>r. case r of
           Inl _ \<Rightarrow> False
         | Inr q \<Rightarrow> hr_rendered_token q \<noteq> [] \<and> hr_replacement_token q \<noteq> [] \<and>
             hr_rendered_units q = length (hr_rendered_token q))
     })"

definition live_writing_second_candidate_advances_generation_deterministically :: "unicode \<Rightarrow> bool" where
  "live_writing_second_candidate_advances_generation_deterministically U \<longleftrightarrow>
     passes (Some shared_new) (do {
       step_to (\<lambda>s. feed_live_token U s ''resume'' 1);
       has_request (request_id_is ''handoff-1'');
       step_to (\<lambda>s. feed_live_token U s ''config'' 10);
       has_request (request_id_is ''handoff-2'')
     })"

definition no_live_request_for :: "unicode \<Rightarrow> string \<Rightarrow> bool" where
  "no_live_request_for U word \<longleftrightarrow>
     passes (Some shared_new) (do {
       step_to (\<lambda>s. feed_live_token U s word 1);
       has_request (\<lambda>r. r = Inl HE_NoCurrentPlan)
     })"

definition live_keep_and_ambiguous_produce_no_request :: "unicode \<Rightarrow> bool" where
  "live_keep_and_ambiguous_produce_no_request U \<longleftrightarrow>
     no_live_request_for U ''dungf'' \<and> no_live_request_for U ''hello''"

definition live_injected_events_do_not_produce_request :: "unicode \<Rightarrow> bool" where
  "live_injected_events_do_not_produce_request U \<longleftrightarrow>
     passes (Some shared_new) (do {
       s \<leftarrow> observe id;
       typed \<leftarrow> unwrap (live_letters U IO_MarkedInjected 1 (lit ''resume'') s);
       alter (\<lambda>_. fst typed);
       step_to (live_space U (snd typed));
       has_request (\<lambda>r. r = Inl HE_NoCurrentPlan)
     })"

definition live_shortcut_modifier_keys_do_not_mutate_token :: "unicode \<Rightarrow> bool" where
  "live_shortcut_modifier_keys_do_not_mutate_token U \<longleftrightarrow>
     passes (Some shared_new) (do {
       step_to (live_key U IO_PhysicalOrUnmarked 1 (letter_key (chr CHR ''r'')));
       step_to (\<lambda>s. Option.bind (letter_key (chr CHR ''r'')) (\<lambda>k. live_process U
         (key_event 2 k KE_KeyDown (with_control modifier_state_new True) IO_PhysicalOrUnmarked) s));
       step_to (\<lambda>s. map_option fst (live_letters U IO_PhysicalOrUnmarked 3 (lit ''esume'') s));
       step_to (live_space U 8);
       has_request (request_id_is ''handoff-1'')
     })"

definition live_discontinuity_resets_lifecycle :: "unicode \<Rightarrow> bool" where
  "live_discontinuity_resets_lifecycle U \<longleftrightarrow>
     passes (Some shared_new) (do {
       step_to (\<lambda>s. feed_live_token U s ''resume'' 1);
       has_request (\<lambda>r. \<not> isl r);
       alter shared_reset;
       has_request (\<lambda>r. r = Inl HE_NoCurrentPlan)
     })"

text \<open>Unmarked keys reach the processor as they do in \<open>feed_letters\<close>.\<close>

lemma live_key_event:
  "\<not> sd_poisoned s \<Longrightarrow> seq \<noteq> 0 \<Longrightarrow>
     live_key U IO_PhysicalOrUnmarked seq (Some k) s =
       map_option (\<lambda>(_, p). s\<lparr>sd_processor := p\<rparr>) (process_decision U (sd_processor s) (fed_event k (EventSequence seq)))"
  by (simp add: live_key_def live_process_def live_event_def key_event_def event_sequence_new_def
      fed_event_def shared_process_def split: option.splits)

lemma live_letters_feed:
  assumes "list_all is_ascii_alphabetic w" and "\<not> sd_poisoned s" and "seq \<noteq> 0"
    and "unat seq + length w < 2 ^ 64"
  shows "live_letters U IO_PhysicalOrUnmarked seq w s =
    map_option (\<lambda>(p, n). (s\<lparr>sd_processor := p\<rparr>, n)) (feed_letters U (sd_processor s) w seq)"
  using assms
proof (induction w arbitrary: s seq)
  case (Cons c w)
  have n: "unat (seq + 1) = unat seq + 1" using Cons.prems(4) by (intro next_sequence) simp
  then have "seq + 1 \<noteq> 0" by (metis add_is_0 one_neq_zero unat_0)
  moreover have "unat (seq + 1) + length w < 2 ^ 64" using Cons.prems(4) n by simp
  ultimately have ih: "live_letters U IO_PhysicalOrUnmarked (seq + 1) w (s\<lparr>sd_processor := p\<rparr>) =
      map_option (\<lambda>(p, n). (s\<lparr>sd_processor := p\<rparr>, n)) (feed_letters U p w (seq + 1))" for p
    using Cons.IH [of "s\<lparr>sd_processor := p\<rparr>"] Cons.prems(1,2) by simp
  show ?case
    using Cons.prems
    by (simp add: letter_key_def key_letter_def live_key_event event_sequence_new_def ih feed_letters.simps
        split: option.split prod.split)
qed (simp add: feed_letters.simps)

lemmas live_eval = passes_def step_to_def has_request_def request_id_is_def feed_live_token_def live_space_def
  shared_new_def current_handoff_request_def show_nat.simps

lemmas word_eval = word_letters word_boundaries word_tokens process_fed_event space_pressed idle_eval plan_eval
  gate_eval is_ascii_alphabetic_def is_ascii_uppercase_def

text \<open>A key in a concrete state.\<close>

lemmas press_eval = process_decision_def update_shortcut_state_def key_query_defs is_key_up_def boundary_for_def
  shortcut_active_def key_character_def modifier_state_new_def evaluate_boundary_def boundary_processed_eq
  engine_new_def token_new_def

text \<open>A key pressed with a shortcut modifier changes nothing.\<close>

lemma shortcut_ignored:
  "oe_injection_origin e = IO_PhysicalOrUnmarked \<Longrightarrow> modifier_value (oe_key e) = None \<Longrightarrow> shortcut_active p e \<Longrightarrow>
     process_decision U p e = Some (PC_Ignored, p)"
  by (simp add: process_decision_def update_shortcut_state_def)

text \<open>A letter after a token whose rendering is known.\<close>

lemmas letter_eval = process_letter engine_inv_def boundary_from_char_def is_ascii_punctuation_def char_class_defs
  invalidate_restore_plan_def word_compose

lemmas event_eval = live_process_def live_event_def key_event_def event_sequence_new_def letter_key_def
  key_letter_def shared_process_def

lemma live_tests:
  "live_wiring_maps_current_restore_candidate U"
  "live_writing_second_candidate_advances_generation_deterministically U"
  "live_keep_and_ambiguous_produce_no_request U" "live_discontinuity_resets_lifecycle U"
  by (simp_all del: live_letters.simps
      add: live_wiring_maps_current_restore_candidate_def
      live_writing_second_candidate_advances_generation_deterministically_def no_live_request_for_def
      live_keep_and_ambiguous_produce_no_request_def live_discontinuity_resets_lifecycle_def
      live_letters_feed live_key_event shared_reset_def reset_decision_state_def reset_token_def
      live_eval word_eval)

lemma live_injected_test: "live_injected_events_do_not_produce_request U"
  by (simp add: live_injected_events_do_not_produce_request_def live_eval live_key_def event_eval
      idle_eval press_eval plan_eval is_ascii_alphabetic_def)

lemma live_shortcut_test: "live_shortcut_modifier_keys_do_not_mutate_token U"
  by (simp add: live_shortcut_modifier_keys_do_not_mutate_token_def live_eval live_key_event event_eval
      shortcut_ignored shortcut_active_def modifier_value_def with_control_def word_eval letter_eval engine_new_def token_new_def)

subsection \<open>The decision processor\<close>

text \<open>The loops that press letter keys are \<open>types\<close>; a single event is \<open>presses\<close>.\<close>

definition types :: "unicode \<Rightarrow> string \<Rightarrow> u64 \<Rightarrow> (decision_processor, unit) scenario" where
  "types U word seq =
     do { p \<leftarrow> observe id; typed \<leftarrow> unwrap (feed_letters U p (lit word) seq); alter (\<lambda>_. fst typed) }"

definition processes ::
  "unicode \<Rightarrow> observed_input_event option \<Rightarrow> (decision_processor, processor_classification) scenario" where
  "processes U event =
     do { e \<leftarrow> unwrap event;
          p \<leftarrow> observe id;
          result \<leftarrow> unwrap (process_decision U p e);
          alter (\<lambda>_. snd result);
          unwrap (Some (fst result)) }"

definition presses :: "unicode \<Rightarrow> u64 \<Rightarrow> observed_key \<Rightarrow> (decision_processor, processor_classification) scenario" where
  "presses U seq key = processes U (key_event seq key KE_KeyDown modifier_state_new IO_PhysicalOrUnmarked)"

definition presses_letter :: "unicode \<Rightarrow> u64 \<Rightarrow> scalar \<Rightarrow> (decision_processor, processor_classification) scenario" where
  "presses_letter U seq c = do { key \<leftarrow> unwrap (letter_key c); presses U seq key }"

fun types_observed :: "unicode \<Rightarrow> ustr \<Rightarrow> u64 \<Rightarrow> (decision_processor, unit) scenario" where
  "types_observed U [] seq = check True"
| "types_observed U (c # cs) seq =
     do { result \<leftarrow> presses_letter U seq c; check (result = PC_Observed); types_observed U cs (seq + 1) }"

definition plan_satisfies :: "(restore_plan option \<Rightarrow> bool) \<Rightarrow> (decision_processor, unit) scenario" where
  "plan_satisfies P = do { plan \<leftarrow> observe dp_last_restore_plan; check (P plan) }"

definition decided :: "diagnostic_decision option \<Rightarrow> (decision_processor, unit) scenario" where
  "decided d = do { decision \<leftarrow> observe dp_last_decision; check (decision = d) }"

definition eligibility_is :: "plan_eligibility \<Rightarrow> (decision_processor, unit) scenario" where
  "eligibility_is e = do { eligibility \<leftarrow> observe current_plan_eligibility; check (eligibility = e) }"

definition completed :: "u64 \<Rightarrow> (decision_processor, unit) scenario" where
  "completed n = do { tokens \<leftarrow> observe dp_completed_tokens; check (tokens = n) }"

definition processor_test :: "(decision_processor, unit) scenario \<Rightarrow> bool" where
  "processor_test test \<longleftrightarrow> passes (Some (processor_new False)) test"

definition diagnostic_processor_evaluates_english_and_telex_tokens :: "unicode \<Rightarrow> bool" where
  "diagnostic_processor_evaluates_english_and_telex_tokens U \<longleftrightarrow>
     processor_test (do {
       types_observed U (lit ''resume'') 1;
       result \<leftarrow> presses U 7 OK_Space;
       check (result = PC_BoundaryObserved);
       completed 1;
       decided (Some DD_RestoreCandidate);
       plan_satisfies (\<lambda>plan. case plan of
           None \<Rightarrow> False
         | Some plan \<Rightarrow> rp_original_token plan = lit ''resume'' \<and> rp_replacement_token plan = lit ''resume'' \<and>
             rp_rendered_token plan \<noteq> [] \<and> \<not> rp_execution_allowed plan);
       eligibility_is PE_Eligible;
       types U ''dungf'' 7;
       presses U 12 OK_Enter;
       completed 2;
       plan_satisfies (\<lambda>plan. plan = None);
       eligibility_is (PE_Ineligible PI_NoCurrentPlan)
     })"

definition diagnostic_restore_plan_is_only_for_restore_candidates :: "unicode \<Rightarrow> bool" where
  "diagnostic_restore_plan_is_only_for_restore_candidates U \<longleftrightarrow>
     processor_test (do {
       eligibility_is (PE_Ineligible PI_NoCurrentPlan);
       types U ''dungf'' 1;
       presses U 6 OK_Space;
       decided (Some DD_Keep);
       plan_satisfies (\<lambda>plan. plan = None);
       types U ''hello'' 7;
       presses U 12 OK_Space;
       decided (Some DD_Ambiguous);
       plan_satisfies (\<lambda>plan. plan = None);
       result \<leftarrow> presses U 13 OK_Other;
       check (result = PC_Unsupported);
       plan_satisfies (\<lambda>plan. plan = None);
       presses U 14 OK_Enter;
       plan_satisfies (\<lambda>plan. plan = None)
     })"

definition types_resume :: "unicode \<Rightarrow> (decision_processor, unit) scenario" where
  "types_resume U = do { types U ''resume'' 1; presses U 7 OK_Space; check True }"

definition discontinuity_clears_restore_plan :: "unicode \<Rightarrow> bool" where
  "discontinuity_clears_restore_plan U \<longleftrightarrow>
     processor_test (do {
       types_resume U;
       plan_satisfies (\<lambda>plan. plan \<noteq> None);
       alter reset_decision_state;
       plan_satisfies (\<lambda>plan. plan = None);
       eligibility_is (PE_Ineligible PI_NoCurrentPlan)
     })"

definition validator_rejects_inconsistent_internal_span :: "unicode \<Rightarrow> bool" where
  "validator_rejects_inconsistent_internal_span U \<longleftrightarrow>
     processor_test (do {
       types_resume U;
       last \<leftarrow> observe dp_last_restore_plan;
       plan \<leftarrow> unwrap last;
       check (validate_restore_plan (Some (plan\<lparr>rp_rendered_token := rp_rendered_token plan @ [chr CHR ''x'']\<rparr>)) =
         PE_Ineligible PI_InternalSpanInconsistent)
     })"

definition current_handoff :: "(decision_processor, restore_plan_handoff) scenario" where
  "current_handoff = do { handoff \<leftarrow> observe current_restore_handoff; unwrap handoff }"

definition revalidates :: "restore_plan_handoff \<Rightarrow> handoff_revalidation \<Rightarrow> (decision_processor, unit) scenario" where
  "revalidates h expected = do { result \<leftarrow> observe (\<lambda>p. revalidate_restore_handoff p h); check (result = expected) }"

definition eligible_plan_creates_immutable_handoff_snapshot :: "unicode \<Rightarrow> bool" where
  "eligible_plan_creates_immutable_handoff_snapshot U \<longleftrightarrow>
     processor_test (do {
       types_resume U;
       h \<leftarrow> current_handoff;
       check (ho_replacement_token h = lit ''resume'' \<and> ho_rendered_units_to_replace h = 5 \<and>
         ho_replacement_units h = 6 \<and> ho_simulation_only h);
       revalidates h HR_Current;
       revalidates (h\<lparr>ho_rendered_token := ho_rendered_token h @ [chr CHR ''x'']\<rparr>) (HR_Stale HS_MalformedSnapshot);
       presses_letter U 8 (chr CHR ''h'');
       now \<leftarrow> observe current_restore_handoff;
       check (now = None);
       revalidates h (HR_Stale HS_NoCurrentPlan);
       check (ho_replacement_token h = lit ''resume'')
     })"

definition handoff_after :: "unicode \<Rightarrow> string \<Rightarrow> restore_plan_handoff option" where
  "handoff_after U word =
     Option.bind (feed_token U (processor_new False) (lit word) 1) current_restore_handoff"

definition new_candidate_has_a_new_current_handoff :: "unicode \<Rightarrow> bool" where
  "new_candidate_has_a_new_current_handoff U \<longleftrightarrow>
     (case (handoff_after U ''resume'', handoff_after U ''config'') of
        (Some a, Some b) \<Rightarrow>
          ho_replacement_token a = lit ''resume'' \<and> ho_replacement_token b = lit ''config'' \<and> a \<noteq> b
      | _ \<Rightarrow> False)"

definition same_content_after_invalidation_has_new_generation :: "unicode \<Rightarrow> bool" where
  "same_content_after_invalidation_has_new_generation U \<longleftrightarrow>
     processor_test (do {
       types_resume U;
       a \<leftarrow> current_handoff;
       presses_letter U 8 (chr CHR ''h'');
       revalidates a (HR_Stale HS_NoCurrentPlan);
       presses U 9 OK_Escape;
       types U ''resume'' 10;
       presses U 16 OK_Space;
       b \<leftarrow> current_handoff;
       check (ho_generation a < ho_generation b);
       revalidates b HR_Current;
       revalidates a (HR_Stale HS_DifferentGeneration)
     })"

definition internal_gate_composes_current_evidence_and_rejects_stale :: "unicode \<Rightarrow> bool" where
  "internal_gate_composes_current_evidence_and_rejects_stale U \<longleftrightarrow>
     processor_test (do {
       types_resume U;
       h \<leftarrow> current_handoff;
       gate \<leftarrow> observe (\<lambda>p. evaluate_internal_execution_gate p h);
       check (gate = G_PassedForExternalValidation);
       presses_letter U 8 (chr CHR ''h'');
       gate \<leftarrow> observe (\<lambda>p. evaluate_internal_execution_gate p h);
       check (gate = G_Rejected GR_PlanIneligible)
     })"

definition internal_gate_rejects_no_plan_and_malformed_handoff :: bool where
  "internal_gate_rejects_no_plan_and_malformed_handoff \<longleftrightarrow>
     evaluate_internal_execution_gate (processor_new False)
       \<lparr>ho_rendered_token = [], ho_replacement_token = [], ho_rendered_units_to_replace = 0,
        ho_replacement_units = 0, ho_reason = DR_ExactEnglishDictionary, ho_generation = 0,
        ho_simulation_only = True\<rparr> = G_Rejected GR_PlanIneligible"

definition semantic_input_invalidates_previous_restore_plan :: "unicode \<Rightarrow> bool" where
  "semantic_input_invalidates_previous_restore_plan U \<longleftrightarrow>
     processor_test (do {
       types_resume U;
       plan_satisfies (\<lambda>plan. plan \<noteq> None);
       presses_letter U 8 (chr CHR ''h'');
       plan_satisfies (\<lambda>plan. plan = None)
     })"

definition later_keep_or_ambiguous_decision_clears_previous_plan :: "unicode \<Rightarrow> bool" where
  "later_keep_or_ambiguous_decision_clears_previous_plan U \<longleftrightarrow>
     processor_test (do {
       types_resume U;
       plan_satisfies (\<lambda>plan. plan \<noteq> None);
       types U ''dungf'' 8;
       presses U 13 OK_Space;
       decided (Some DD_Keep);
       plan_satisfies (\<lambda>plan. plan = None);
       types U ''resume'' 14;
       presses U 20 OK_Space;
       plan_satisfies (\<lambda>plan. plan \<noteq> None);
       types U ''hello'' 21;
       presses U 26 OK_Space;
       decided (Some DD_Ambiguous);
       plan_satisfies (\<lambda>plan. plan = None)
     })"

definition original_is :: "string \<Rightarrow> (decision_processor, unit) scenario" where
  "original_is word = plan_satisfies (\<lambda>plan. map_option rp_original_token plan = Some (lit word))"

definition new_restore_candidate_replaces_previous_plan_and_transitions_do_not :: "unicode \<Rightarrow> bool" where
  "new_restore_candidate_replaces_previous_plan_and_transitions_do_not U \<longleftrightarrow>
     processor_test (do {
       types_resume U;
       original_is ''resume'';
       processes U (Option.bind (letter_key (chr CHR ''A''))
         (\<lambda>k. key_event 8 k KE_KeyUp modifier_state_new IO_PhysicalOrUnmarked));
       processes U (key_event 9 (OK_Modifier MK_Shift) KE_KeyDown
         (with_shift modifier_state_new True) IO_PhysicalOrUnmarked);
       original_is ''resume'';
       types U ''refresh'' 10;
       presses U 17 OK_Space;
       original_is ''refresh''
     })"

definition injected_event_does_not_create_or_clear_plan :: "unicode \<Rightarrow> bool" where
  "injected_event_does_not_create_or_clear_plan U \<longleftrightarrow>
     processor_test (do {
       types_resume U;
       plan_satisfies (\<lambda>plan. plan \<noteq> None);
       processes U (Option.bind (letter_key (chr CHR ''x''))
         (\<lambda>k. key_event 8 k KE_KeyDown modifier_state_new IO_MarkedInjected));
       plan_satisfies (\<lambda>plan. plan \<noteq> None)
     })"

definition answers_with ::
  "unicode \<Rightarrow> observed_input_event option \<Rightarrow> processor_classification \<Rightarrow> (decision_processor, unit) scenario" where
  "answers_with U event expected = do { result \<leftarrow> processes U event; check (result = expected) }"

definition diagnostic_processor_handles_backspace_shortcuts_shift_keyup_and_injection :: "unicode \<Rightarrow> bool" where
  "diagnostic_processor_handles_backspace_shortcuts_shift_keyup_and_injection U \<longleftrightarrow>
     (let shifted = with_shift modifier_state_new True;
          control = with_control modifier_state_new True;
          letter = (\<lambda>c s kind mods origin. Option.bind (letter_key c) (\<lambda>k. key_event s k kind mods origin))
      in processor_test (do {
        answers_with U (letter (chr CHR ''A'') 1 KE_KeyDown shifted IO_PhysicalOrUnmarked) PC_Observed;
        answers_with U (letter (chr CHR ''A'') 2 KE_KeyUp shifted IO_PhysicalOrUnmarked) PC_Ignored;
        answers_with U (key_event 3 OK_Backspace KE_KeyDown shifted IO_PhysicalOrUnmarked) PC_Observed;
        answers_with U (letter (chr CHR ''C'') 4 KE_KeyDown control IO_PhysicalOrUnmarked) PC_Ignored;
        answers_with U (letter (chr CHR ''B'') 5 KE_KeyDown modifier_state_new IO_MarkedInjected) PC_Ignored;
        injected \<leftarrow> observe dp_injected_events;
        check (injected = 1);
        alter reset_decision_state;
        resets \<leftarrow> observe dp_resets;
        check (resets = 1);
        completed 0
      }))"

definition diagnostic_processor_ignores_repeated_empty_boundaries :: "unicode \<Rightarrow> bool" where
  "diagnostic_processor_ignores_repeated_empty_boundaries U \<longleftrightarrow>
     processor_test (do {
       answers_with U (live_event 1 OK_Enter IO_PhysicalOrUnmarked) PC_BoundaryObserved;
       answers_with U (live_event 1 OK_Space IO_PhysicalOrUnmarked) PC_BoundaryObserved;
       answers_with U (live_event 1 OK_Tab IO_PhysicalOrUnmarked) PC_BoundaryObserved;
       answers_with U (case key_punctuation (chr CHR ''.'') of
           Inl _ \<Rightarrow> None
         | Inr key \<Rightarrow> live_event 1 key IO_PhysicalOrUnmarked) PC_BoundaryObserved;
       completed 0;
       decided None
     })"

definition presses_modifier ::
  "unicode \<Rightarrow> u64 \<Rightarrow> modifier_key \<Rightarrow> key_event_kind \<Rightarrow> modifier_state
    \<Rightarrow> (decision_processor, processor_classification) scenario" where
  "presses_modifier U seq m kind mods = processes U (key_event seq (OK_Modifier m) kind mods IO_PhysicalOrUnmarked)"

definition lengths_are :: "nat \<times> nat \<Rightarrow> (decision_processor, unit) scenario" where
  "lengths_are expected = do { lengths \<leftarrow> observe dp_last_token_lengths; check (lengths = Some expected) }"

definition diagnostic_processor_shortcuts_preserve_token_state :: "unicode \<Rightarrow> bool" where
  "diagnostic_processor_shortcuts_preserve_token_state U \<longleftrightarrow>
     processor_test (do {
       types U ''ab'' 1;
       presses_modifier U 3 MK_Control KE_KeyDown (with_control modifier_state_new True);
       presses_letter U 4 (chr CHR ''X'');
       processes U (Option.bind (letter_key (chr CHR ''X''))
         (\<lambda>k. key_event 5 k KE_KeyUp modifier_state_new IO_PhysicalOrUnmarked));
       presses_modifier U 6 MK_Control KE_KeyUp modifier_state_new;
       types U ''cd'' 7;
       presses U 9 OK_Space;
       lengths_are (4, 4);
       types U ''ab'' 10;
       presses_modifier U 12 MK_Alt KE_KeyDown (with_alt modifier_state_new True);
       presses_letter U 13 (chr CHR ''A'');
       presses_modifier U 14 MK_Alt KE_KeyUp modifier_state_new;
       presses_letter U 15 (chr CHR ''c'');
       presses_letter U 16 (chr CHR ''d'');
       presses U 17 OK_Space;
       lengths_are (4, 4)
     })"

definition diagnostic_processor_backspace_recomposes_hellp_to_hello :: "unicode \<Rightarrow> bool" where
  "diagnostic_processor_backspace_recomposes_hellp_to_hello U \<longleftrightarrow>
     processor_test (do {
       types U ''hellp'' 1;
       presses U 6 OK_Backspace;
       presses_letter U 7 (chr CHR ''o'');
       presses U 8 OK_Space;
       lengths_are (5, 5)
     })"

lemmas processor_scenario = processor_test_def passes_def types_def processes_def presses_def presses_letter_def
  plan_satisfies_def decided_def eligibility_is_def completed_def types_resume_def current_handoff_def
  revalidates_def original_is_def answers_with_def presses_modifier_def lengths_are_def event_eval

text \<open>The keys other than letters, in a state without a shortcut modifier.\<close>

lemma fed_keyE:
  "\<lparr>oe_key = k, oe_kind = KE_KeyDown, oe_modifiers = modifier_state_new,
     oe_injection_origin = IO_PhysicalOrUnmarked, oe_sequence = EventSequence s\<rparr> = fed_event k (EventSequence s)"
  by (simp add: fed_event_def)

lemma process_enter:
  "no_shortcut p \<Longrightarrow> process_decision U p (sample_event\<lparr>oe_key := OK_Enter\<rparr>) = evaluate_boundary U p TB_Enter"
  by (simp add: process_decision_def sample_event_def modifier_state_new_def update_shortcut_state_def
      key_query_defs is_key_up_def boundary_for_def shortcut_active_def no_shortcut_def)

lemma process_escape:
  "no_shortcut p \<Longrightarrow> process_decision U p (sample_event\<lparr>oe_key := OK_Escape\<rparr>) =
     Some (PC_Ignored, p\<lparr>dp_telex := engine_new, dp_last_restore_plan := None\<rparr>)"
  by (simp add: process_decision_def sample_event_def modifier_state_new_def update_shortcut_state_def
      key_query_defs is_key_up_def shortcut_active_def no_shortcut_def reset_token_def)

lemma process_other:
  "no_shortcut p \<Longrightarrow> process_decision U p (sample_event\<lparr>oe_key := OK_Other\<rparr>) =
     Some (PC_Unsupported, p\<lparr>dp_telex := engine_new, dp_last_restore_plan := None\<rparr>)"
  by (simp add: process_decision_def sample_event_def modifier_state_new_def update_shortcut_state_def
      key_query_defs is_key_up_def boundary_for_def key_character_def shortcut_active_def no_shortcut_def
      reset_token_def)

lemma empty_boundary:
  "raw_ascii (token (dp_telex p)) = [] \<Longrightarrow> rendered (token (dp_telex p)) = [] \<Longrightarrow>
     evaluate_boundary U p b = Some (PC_BoundaryObserved, p\<lparr>dp_last_restore_plan := None, dp_telex := engine_new\<rparr>)"
  by (simp add: evaluate_boundary_def boundary_processed_eq)

lemmas key_eval = empty_boundary utf8_char_def saturating_inc_def fed_keyE process_fed_event space_pressed process_enter process_escape process_other
  letter_eval word_eval engine_new_def token_new_def

lemma plan_tests:
  "diagnostic_restore_plan_is_only_for_restore_candidates U" "discontinuity_clears_restore_plan U"
  "validator_rejects_inconsistent_internal_span U" "eligible_plan_creates_immutable_handoff_snapshot U"
  by (simp_all add: diagnostic_restore_plan_is_only_for_restore_candidates_def
      discontinuity_clears_restore_plan_def validator_rejects_inconsistent_internal_span_def
      eligible_plan_creates_immutable_handoff_snapshot_def reset_decision_state_def reset_token_def
      processor_scenario key_eval)

lemma plan_tests_2:
  "new_candidate_has_a_new_current_handoff U" "internal_gate_rejects_no_plan_and_malformed_handoff"
  "semantic_input_invalidates_previous_restore_plan U"
  "later_keep_or_ambiguous_decision_clears_previous_plan U"
  by (simp_all add: new_candidate_has_a_new_current_handoff_def handoff_after_def
      internal_gate_rejects_no_plan_and_malformed_handoff_def
      semantic_input_invalidates_previous_restore_plan_def
      later_keep_or_ambiguous_decision_clears_previous_plan_def processor_scenario key_eval)

lemma plan_tests_3:
  "same_content_after_invalidation_has_new_generation U"
  "internal_gate_composes_current_evidence_and_rejects_stale U"
  by (simp_all add: same_content_after_invalidation_has_new_generation_def
      internal_gate_composes_current_evidence_and_rejects_stale_def processor_scenario key_eval)

lemma plan_test_tokens: "diagnostic_processor_evaluates_english_and_telex_tokens U"
  by (simp add: diagnostic_processor_evaluates_english_and_telex_tokens_def processor_scenario key_eval)

text \<open>Events that leave a plan alone.\<close>

lemma key_up_ignored:
  "oe_injection_origin e = IO_PhysicalOrUnmarked \<Longrightarrow> modifier_value (oe_key e) = None \<Longrightarrow>
     is_key_up (oe_kind e) \<Longrightarrow> process_decision U p e = Some (PC_Ignored, p)"
  by (simp add: process_decision_def update_shortcut_state_def)

lemma modifier_pressed:
  "oe_injection_origin e = IO_PhysicalOrUnmarked \<Longrightarrow> oe_key e = OK_Modifier m \<Longrightarrow>
     process_decision U p e = Some (PC_Ignored, snd (update_shortcut_state p e))"
  by (simp add: process_decision_def update_shortcut_state_def modifier_value_def Let_def)

lemma injected_ignored:
  "oe_injection_origin e = IO_MarkedInjected \<Longrightarrow>
     process_decision U p e = Some (PC_Ignored, p\<lparr>dp_injected_events := saturating_inc (dp_injected_events p)\<rparr>)"
  by (simp add: process_decision_def)

lemmas ignored_eval = shortcut_ignored key_up_ignored modifier_pressed injected_ignored is_key_up_def
  shortcut_active_def modifier_value_def update_shortcut_state_def with_control_def with_alt_def with_shift_def

lemma transition_tests:
  "new_restore_candidate_replaces_previous_plan_and_transitions_do_not U"
  "injected_event_does_not_create_or_clear_plan U"
  by (simp_all add: new_restore_candidate_replaces_previous_plan_and_transitions_do_not_def
      injected_event_does_not_create_or_clear_plan_def processor_scenario ignored_eval key_eval)

lemma shortcut_held:
  "\<not> no_shortcut p \<Longrightarrow> modifier_value k = None \<Longrightarrow>
     process_decision U p (sample_event\<lparr>oe_key := k\<rparr>) = Some (PC_Ignored, p)"
  by (simp add: process_decision_def update_shortcut_state_def shortcut_active_def no_shortcut_def sample_event_def)

lemma process_backspace_key:
  "no_shortcut p \<Longrightarrow> process_decision U p (sample_event\<lparr>oe_key := OK_Backspace\<rparr>) =
     map_option (\<lambda>(_, p'). (PC_Observed, p')) (feed_engine U (invalidate_restore_plan p) EE_Backspace)"
  by (simp add: process_decision_def sample_event_def modifier_state_new_def update_shortcut_state_def
      key_query_defs is_key_up_def shortcut_active_def no_shortcut_def)

lemmas backspace_eval = process_backspace_key feed_engine_def engine_process_def process_backspace_def pop_raw_def
  replace_rendered_def

lemma boundary_tests:
  "diagnostic_processor_ignores_repeated_empty_boundaries U"
  by (simp add: diagnostic_processor_ignores_repeated_empty_boundaries_def key_punctuation_def
      processor_scenario idle_eval press_eval char_class_defs)

lemma backspace_test: "diagnostic_processor_backspace_recomposes_hellp_to_hello U"
  by (simp add: diagnostic_processor_backspace_recomposes_hellp_to_hello_def processor_scenario backspace_eval
      feed_letters.simps key_eval)

lemma shortcut_test: "diagnostic_processor_shortcuts_preserve_token_state U"
  by (simp add: diagnostic_processor_shortcuts_preserve_token_state_def processor_scenario ignored_eval
      shortcut_held feed_letters.simps key_eval)

lemma key_handling_test: "diagnostic_processor_handles_backspace_shortcuts_shift_keyup_and_injection U"
  by (simp add: diagnostic_processor_handles_backspace_shortcuts_shift_keyup_and_injection_def processor_scenario
      reset_decision_state_def reset_token_def ignored_eval press_eval backspace_eval process_character_def push_raw_def
      idle_eval letter_eval saturating_inc_def)

end
