(* ===== verification/Service_Tests.thy ===== *)
theory Service_Tests
  imports Service Scenario
begin

text \<open>
  Unit tests of the observe queue and the observe service (\<open>zonkey-service/src/lib.rs\<close>), each under
  its own name, with the mock sources and processors they use, and the proof that the model passes
  them.  The sequence numbers of the tests are not zero, so the constructor's \<open>expect\<close> holds.
\<close>

definition numbered :: "u64 \<Rightarrow> observed_input_event" where
  "numbered sequence =
     \<lparr>oe_key = OK_Letter (chr CHR ''a''), oe_kind = KE_KeyDown, oe_modifiers = modifier_state_new,
      oe_injection_origin = IO_PhysicalOrUnmarked, oe_sequence = EventSequence sequence\<rparr>"

lemma numbered_valid:
  "sequence \<noteq> 0 \<Longrightarrow> key_letter (chr CHR ''a'') = Inr (oe_key (numbered sequence)) \<and>
     event_sequence_new sequence = Inr (oe_sequence (numbered sequence))"
  by (simp add: numbered_def key_letter_def event_sequence_new_def char_class_defs)

subsection \<open>The queue\<close>

definition queue_of :: "nat \<Rightarrow> observe_queue option" where
  "queue_of capacity = (case queue_new capacity of Inl _ \<Rightarrow> None | Inr q \<Rightarrow> Some q)"

definition enqueues :: "u64 \<Rightarrow> (observe_queue, enqueue_outcome) scenario" where
  "enqueues sequence = perform (\<lambda>q. try_enqueue q (numbered sequence))"

definition enqueues_as :: "u64 \<Rightarrow> enqueue_outcome \<Rightarrow> (observe_queue, unit) scenario" where
  "enqueues_as sequence expected = assert_eq (\<lambda>q. try_enqueue q (numbered sequence)) expected"

definition dequeues :: "(dequeued_event \<Rightarrow> bool) \<Rightarrow> (observe_queue, unit) scenario" where
  "dequeues P = do { result \<leftarrow> perform try_dequeue;
                     check (case result of DO_Event value \<Rightarrow> P value | DO_Empty \<Rightarrow> False) }"

definition is_number :: "u64 \<Rightarrow> dequeued_event \<Rightarrow> bool" where
  "is_number n value \<longleftrightarrow> sequence_get (oe_sequence (de_event value)) = n"

definition queue_has_default_capacity_and_rejects_zero :: bool where
  "queue_has_default_capacity_and_rejects_zero \<longleftrightarrow>
     DEFAULT_OBSERVE_QUEUE_CAPACITY = 256 \<and> queue_new 0 = Inl QueueCapacityError \<and>
     map_option (\<lambda>q. qs_capacity (stats q)) queue_default = Some 256"

definition queue_accepts_fifo_and_empty_is_explicit :: bool where
  "queue_accepts_fifo_and_empty_is_explicit \<longleftrightarrow>
     passes (queue_of 2) (do {
       enqueues_as 1 EO_Enqueued;
       enqueues_as 2 EO_Enqueued;
       dequeues (is_number 1);
       dequeues (is_number 2);
       assert_eq try_dequeue DO_Empty
     })"

definition full_queue_drops_newest_and_preserves_older_events :: bool where
  "full_queue_drops_newest_and_preserves_older_events \<longleftrightarrow>
     passes (queue_of 2) (do {
       enqueues 1;
       enqueues 2;
       enqueues_as 3 EO_DroppedFull;
       enqueues_as 4 EO_DroppedFull;
       now \<leftarrow> observe stats;
       check (qs_dropped_events now = 2 \<and> qs_queued now = 2);
       dequeues (\<lambda>value. is_number 1 value \<and> de_discontinuity value);
       dequeues (\<lambda>value. is_number 2 value \<and> \<not> de_discontinuity value);
       now \<leftarrow> observe stats;
       check (\<not> qs_discontinuity_pending now)
     })"

definition second_overflow_is_a_new_discontinuity_episode :: bool where
  "second_overflow_is_a_new_discontinuity_episode \<longleftrightarrow>
     passes (queue_of 1) (do {
       enqueues 1;
       enqueues_as 2 EO_DroppedFull;
       dequeues de_discontinuity;
       enqueues 3;
       enqueues_as 4 EO_DroppedFull;
       dequeues de_discontinuity;
       now \<leftarrow> observe stats;
       check (qs_dropped_events now = 2)
     })"

lemmas queue_scenario = passes_def queue_of_def queue_new_def enqueues_def enqueues_as_def dequeues_def
  is_number_def numbered_def try_enqueue_def try_dequeue_def saturating_inc_def stats_def

lemma queue_tests:
  queue_has_default_capacity_and_rejects_zero queue_accepts_fifo_and_empty_is_explicit
  full_queue_drops_newest_and_preserves_older_events second_overflow_is_a_new_discontinuity_episode
  by (simp_all add: queue_has_default_capacity_and_rejects_zero_def DEFAULT_OBSERVE_QUEUE_CAPACITY_def
      queue_default_def queue_accepts_fifo_and_empty_is_explicit_def
      full_queue_drops_newest_and_preserves_older_events_def
      second_overflow_is_a_new_discontinuity_episode_def queue_scenario)

subsection \<open>Mock sources and processors\<close>

type_synonym mock_response = "observer_error + observed_input_event option"

fun mock_source :: "mock_response list event_source" where
  "mock_source [] = (Inr None, [])"
| "mock_source (response # responses) = (response, responses)"

fun mock_platform_adapter :: "observed_input_event list event_source" where
  "mock_platform_adapter [] = (Inr None, [])"
| "mock_platform_adapter (event # events) = (Inr (Some event), events)"

definition counting_failing_adapter :: "(mock_response list \<times> nat) event_source" where
  "counting_failing_adapter = (\<lambda>(responses, polls).
     case mock_source responses of (response, responses') \<Rightarrow> (response, responses', polls + 1))"

record mock_processor =
  mp_processed :: "u64 list"
  mp_resets :: nat

definition mock_new :: mock_processor where
  "mock_new = \<lparr>mp_processed = [], mp_resets = 0\<rparr>"

definition mock_event_processor :: "mock_processor event_processor" where
  "mock_event_processor =
     \<lparr>reset_after_discontinuity = (\<lambda>m. m\<lparr>mp_resets := mp_resets m + 1\<rparr>),
      process_event = (\<lambda>m e. Some (PC_Observed,
        m\<lparr>mp_processed := mp_processed m @ [sequence_get (oe_sequence e)]\<rparr>))\<rparr>"

definition boundary_processor :: "unit event_processor" where
  "boundary_processor =
     \<lparr>reset_after_discontinuity = id, process_event = (\<lambda>m e. Some (PC_BoundaryObserved, m))\<rparr>"

subsection \<open>The service\<close>

type_synonym ('s, 'p) service_state = "observe_service \<times> 's \<times> 'p"

definition runs ::
  "'s event_source \<Rightarrow> 'p event_processor \<Rightarrow> (('s, 'p) service_state, aggregate_report) scenario" where
  "runs next_event P =
     do { state \<leftarrow> observe id;
          result \<leftarrow> unwrap (case state of (s, src, p) \<Rightarrow> run next_event P s src p);
          alter (\<lambda>_. snd result);
          unwrap (Some (fst result)) }"

definition service_of :: "observe_queue option \<Rightarrow> 's \<Rightarrow> 'p \<Rightarrow> ('s, 'p) service_state option" where
  "service_of queue src p = map_option (\<lambda>q. (service_new q, src, p)) queue"

definition stop_requested :: "(('s, 'p) service_state, unit) scenario" where
  "stop_requested = alter (\<lambda>(s, rest). (request_stop s, rest))"

definition status_is :: "observer_status \<Rightarrow> (('s, 'p) service_state, unit) scenario" where
  "status_is st = do { status \<leftarrow> observe (\<lambda>(s, _). os_status s); check (status = st) }"

definition queued_is :: "nat \<Rightarrow> (('s, 'p) service_state, unit) scenario" where
  "queued_is n = do { queued \<leftarrow> observe (\<lambda>(s, _). qs_queued (queue_stats_of s)); check (queued = n) }"

definition processed_is :: "u64 list \<Rightarrow> (('s, mock_processor) service_state, unit) scenario" where
  "processed_is ns = do { processed \<leftarrow> observe (\<lambda>(_, _, m). mp_processed m); check (processed = ns) }"

definition polls_are :: "nat \<Rightarrow> (('r \<times> nat, 'p) service_state, unit) scenario" where
  "polls_are n = do { polls \<leftarrow> observe (\<lambda>(_, (_, polls), _). polls); check (polls = n) }"

definition yields :: "u64 \<Rightarrow> mock_response" where
  "yields sequence = Inr (Some (numbered sequence))"

definition service_processes_finite_source_in_order_and_exhausts_cleanly :: bool where
  "service_processes_finite_source_in_order_and_exhausts_cleanly \<longleftrightarrow>
     passes (service_of (queue_of 4) [yields 1, yields 2, Inr None] mock_new) (do {
       report \<leftarrow> runs mock_source mock_event_processor;
       status_is OS_Stopped;
       processed_is [1, 2];
       check (ar_received report = 2 \<and> ar_accepted report = 2 \<and> ar_processed report = 2)
     })"

definition live_source_is_processed_continuously_without_capacity_overflow :: bool where
  "live_source_is_processed_continuously_without_capacity_overflow \<longleftrightarrow>
     passes (service_of queue_default (map (\<lambda>n. yields (of_nat n)) [1..<601] @ [Inr None]) mock_new) (do {
       report \<leftarrow> runs mock_source mock_event_processor;
       check (ar_received report = 600 \<and> ar_accepted report = 600 \<and> ar_dropped report = 0 \<and>
         ar_processed report = 600);
       processed_is (map of_nat [1..<601]);
       queued_is 0
     })"

definition mock_platform_adapter_feeds_validated_events_to_service_fifo :: bool where
  "mock_platform_adapter_feeds_validated_events_to_service_fifo \<longleftrightarrow>
     passes (service_of (queue_of 3) [numbered 7, numbered 8, numbered 9] mock_new) (do {
       report \<leftarrow> runs mock_platform_adapter mock_event_processor;
       check (ar_received report = 3 \<and> ar_accepted report = 3 \<and> ar_dropped report = 0 \<and>
         ar_processed report = 3);
       processed_is [7, 8, 9]
     })"

definition invalid_event_inputs_are_rejected_before_adapter_boundary :: bool where
  "invalid_event_inputs_are_rejected_before_adapter_boundary \<longleftrightarrow>
     isl (key_letter 0xE9) \<and> isl (event_sequence_new 0)"

definition queue_with :: "nat \<Rightarrow> u64 list \<Rightarrow> observe_queue option" where
  "queue_with capacity ns =
     (case queue_of capacity of
        None \<Rightarrow> None
      | Some q \<Rightarrow> Some (foldl (\<lambda>q n. snd (try_enqueue q (numbered n))) q ns))"

definition source_failure_is_terminal_without_repoll_or_queue_drain :: bool where
  "source_failure_is_terminal_without_repoll_or_queue_drain \<longleftrightarrow>
     passes (service_of (queue_with 4 [1, 2]) ([yields 10, Inl OE_EventSourceClosed], 0) mock_new) (do {
       first \<leftarrow> runs counting_failing_adapter mock_event_processor;
       polls_are 2;
       status_is OS_Failed;
       check (ar_received first = 1 \<and> ar_accepted first = 1 \<and> ar_source_failures first = 1 \<and>
         ar_processed first = 1);
       queued_is 2;
       processed_is [1];
       second \<leftarrow> runs counting_failing_adapter mock_event_processor;
       polls_are 2;
       status_is OS_Failed;
       check (second = first);
       queued_is 2;
       processed_is [1]
     })"

definition source_exhaustion_stops_after_fifo_drain_without_repoll :: bool where
  "source_exhaustion_stops_after_fifo_drain_without_repoll \<longleftrightarrow>
     passes (service_of (queue_of 4) ([yields 20, yields 21, Inr None, yields 22], 0) mock_new) (do {
       first \<leftarrow> runs counting_failing_adapter mock_event_processor;
       polls_are 3;
       status_is OS_Stopped;
       check (ar_received first = 2 \<and> ar_accepted first = 2 \<and> ar_processed first = 2 \<and>
         ar_dropped first = 0 \<and> ar_discontinuities first = 0);
       processed_is [20, 21];
       queued_is 0;
       second \<leftarrow> runs counting_failing_adapter mock_event_processor;
       polls_are 3;
       status_is OS_Stopped;
       check (second = first);
       processed_is [20, 21];
       queued_is 0
     })"

definition service_source_error_fails_and_retains_counters :: bool where
  "service_source_error_fails_and_retains_counters \<longleftrightarrow>
     passes (service_of (queue_of 4) [yields 1, Inl OE_EventSourceClosed] mock_new) (do {
       report \<leftarrow> runs mock_source mock_event_processor;
       status_is OS_Failed;
       check (ar_received report = 1 \<and> ar_accepted report = 1 \<and> ar_source_failures report = 1);
       processed_is [1]
     })"

definition service_reports_overflow_and_resets_before_affected_event :: bool where
  "service_reports_overflow_and_resets_before_affected_event \<longleftrightarrow>
     passes (service_of (queue_of 2) [yields 1, yields 2, yields 3, Inr None] mock_new) (do {
       report \<leftarrow> runs mock_source mock_event_processor;
       check (ar_dropped report = 0 \<and> ar_discontinuities report = 0);
       resets \<leftarrow> observe (\<lambda>(_, _, m). mp_resets m);
       check (resets = 0);
       processed_is [1, 2, 3]
     })"

definition stop_is_idempotent_and_graceful_drain_is_exact :: bool where
  "stop_is_idempotent_and_graceful_drain_is_exact \<longleftrightarrow>
     passes (service_of (queue_of 4) [yields 1, yields 2, Inr None] mock_new) (do {
       stop_requested;
       stop_requested;
       report \<leftarrow> runs mock_source mock_event_processor;
       stop_requested;
       status_is OS_Stopped;
       processed_is [];
       check (ar_received report = 0);
       again \<leftarrow> runs mock_source mock_event_processor;
       check (again = report)
     })"

definition explicit_stop_does_not_poll_source_and_drains_existing_queue_once :: bool where
  "explicit_stop_does_not_poll_source_and_drains_existing_queue_once \<longleftrightarrow>
     passes (service_of (queue_with 2 [1, 2]) [yields 3, Inr None] mock_new) (do {
       stop_requested;
       stop_requested;
       report \<leftarrow> runs mock_source mock_event_processor;
       status_is OS_Stopped;
       check (ar_received report = 0 \<and> ar_processed report = 2);
       processed_is [1, 2];
       again \<leftarrow> runs mock_source mock_event_processor;
       check (again = report)
     })"

definition processor_classifications_are_aggregate_only :: bool where
  "processor_classifications_are_aggregate_only \<longleftrightarrow>
     passes (service_of queue_default [yields 1, Inr None] ()) (do {
       report \<leftarrow> runs mock_source boundary_processor;
       check (ar_processed report = 1 \<and> ar_unsupported_events report = 0 \<and> ar_invalid_events report = 0)
     })"

lemma run_runs:
  "run N P s src p = Some (r, state) \<Longrightarrow> run_state (runs N P) ((s, src, p), ok) = (r, state, ok)"
  by (simp add: runs_def)

lemmas service_scenario = queue_scenario service_of_def service_new_def report_default_def run_runs
  stop_requested_def request_stop_def status_is_def queued_is_def queue_stats_of_def processed_is_def
  polls_are_def yields_def queue_with_def mock_new_def mock_event_processor_def boundary_processor_def
  counting_failing_adapter_def

lemmas run_eval = run_def observe_loop.simps drain.simps process_one_def receive_def finish_gracefully_def
  map_report_def count_class_def Let_def

lemma service_tests:
  service_processes_finite_source_in_order_and_exhausts_cleanly
  mock_platform_adapter_feeds_validated_events_to_service_fifo
  invalid_event_inputs_are_rejected_before_adapter_boundary
  source_failure_is_terminal_without_repoll_or_queue_drain
  by (simp_all add: service_processes_finite_source_in_order_and_exhausts_cleanly_def
      mock_platform_adapter_feeds_validated_events_to_service_fifo_def
      invalid_event_inputs_are_rejected_before_adapter_boundary_def key_letter_def event_sequence_new_def
      char_class_defs source_failure_is_terminal_without_repoll_or_queue_drain_def service_scenario run_eval)

lemma service_tests_2:
  source_exhaustion_stops_after_fifo_drain_without_repoll
  service_source_error_fails_and_retains_counters
  service_reports_overflow_and_resets_before_affected_event
  stop_is_idempotent_and_graceful_drain_is_exact
  explicit_stop_does_not_poll_source_and_drains_existing_queue_once
  processor_classifications_are_aggregate_only
  by (simp_all add: source_exhaustion_stops_after_fifo_drain_without_repoll_def
      service_source_error_fails_and_retains_counters_def
      service_reports_overflow_and_resets_before_affected_event_def
      stop_is_idempotent_and_graceful_drain_is_exact_def
      explicit_stop_does_not_poll_source_and_drains_existing_queue_once_def
      processor_classifications_are_aggregate_only_def queue_default_def DEFAULT_OBSERVE_QUEUE_CAPACITY_def
      service_scenario run_eval)

text \<open>A source longer than the queue, by the law of finite sources.\<close>

lemma mock_source_yields:
  "source_yields mock_source (map (\<lambda>e. Inr (Some e)) es @ [Inr None]) es None []"
  by (induction es) simp_all

lemma mock_processes_all:
  "process_all mock_event_processor m es = Some (replicate (length es) PC_Observed,
     m\<lparr>mp_processed := mp_processed m @ map (\<lambda>e. sequence_get (oe_sequence e)) es\<rparr>)"
  by (induction es arbitrary: m) (simp_all add: mock_event_processor_def)

lemma live_source_test: live_source_is_processed_continuously_without_capacity_overflow
proof -
  let ?es = "map (\<lambda>n. numbered (of_nat n)) [1..<601]"
  obtain q where q: "queue_default = Some q" "oq_events q = []" "idle (service_new q)"
    by (auto simp: queue_default_def queue_new_def DEFAULT_OBSERVE_QUEUE_CAPACITY_def service_new_def idle_def
        queue_inv_def)
  have "class_count c (replicate n PC_Observed) = 0" if "c \<noteq> PC_Observed" for c n
    using that by (induction n) (simp_all add: class_count_def)
  then obtain s where "run mock_source mock_event_processor (service_new q)
      (map (\<lambda>e. Inr (Some e)) ?es @ [Inr None]) mock_new =
      Some (os_report s, s, [], mock_new\<lparr>mp_processed := map of_nat [1..<601]\<rparr>)"
    and "os_queue s = q" and "os_report s = (report_default\<lparr>ar_received := 600, ar_accepted := 600, ar_processed := 600\<rparr>)"
    using run_finite_source [OF mock_source_yields q(3) _ _ mock_processes_all, of ?es mock_new]
    by (auto simp: service_new_def mock_new_def numbered_def comp_def add_counts_def report_default_def)
  then show ?thesis
    unfolding live_source_is_processed_continuously_without_capacity_overflow_def service_of_def q(1) option.map
    using q(2) by (simp add: passes_def run_runs yields_def processed_is_def queued_is_def queue_stats_of_def
        stats_def mock_new_def comp_def report_default_def del: upt_Suc)
qed

end
