(* ===== verification/Surface_Tests.thy ===== *)
theory Surface_Tests
  imports Surface DummyHost Decision_Tests
begin

text \<open>
  Unit tests of the controlled surface and of the in-process dummy host (\<open>zonkey-service/src/lib.rs\<close>,
  modules \<open>controlled_surface\<close> and \<open>dummy_host\<close>), each a scenario under its own name, and the proof that
  the model passes them.
\<close>

subsection \<open>The controlled surface\<close>

definition handoff_of :: "ustr \<Rightarrow> restore_plan_handoff" where
  "handoff_of shown =
     \<lparr>ho_rendered_token = shown, ho_replacement_token = lit ''resume'',
      ho_rendered_units_to_replace = length shown, ho_replacement_units = 6,
      ho_reason = DR_ExactEnglishDictionary, ho_generation = 1, ho_simulation_only = True\<rparr>"

text \<open>An operation whose result the test unwraps.\<close>

definition succeeds :: "('s \<Rightarrow> ('e + 'a) \<times> 's) \<Rightarrow> ('s, unit) scenario" where
  "succeeds f = do { result \<leftarrow> perform f; check (\<not> isl result) }"

definition captures :: "ustr \<Rightarrow> (controlled_surface, evidence_snapshot) scenario" where
  "captures expected =
     do { result \<leftarrow> observe (\<lambda>s. surface_capture s expected);
          unwrap (case result of Inl _ \<Rightarrow> None | Inr snap \<Rightarrow> Some snap) }"

definition validates ::
  "restore_plan_handoff \<Rightarrow> evidence_snapshot \<Rightarrow> controlled_validation_error + unit
    \<Rightarrow> (controlled_surface, unit) scenario" where
  "validates h snap expected = do { result \<leftarrow> observe (\<lambda>s. surface_validate s h snap); check (result = expected) }"

definition replaces ::
  "restore_plan_handoff \<Rightarrow> evidence_snapshot \<Rightarrow> ustr
    \<Rightarrow> (controlled_surface, controlled_validation_error + unit) scenario" where
  "replaces h snap replacement =
     do { s \<leftarrow> observe id;
          result \<leftarrow> unwrap (compare_revision_and_replace h snap replacement s);
          alter (\<lambda>_. snd result);
          unwrap (Some (fst result)) }"

definition shows_text :: "ustr \<Rightarrow> (controlled_surface, unit) scenario" where
  "shows_text x = do { contents \<leftarrow> observe su_contents; check (contents = x) }"

definition at_caret :: "surface_id \<Rightarrow> ustr \<Rightarrow> (controlled_surface, unit) scenario \<Rightarrow> bool" where
  "at_caret i x test \<longleftrightarrow> passes (Some (surface_new i x)) (do { succeeds (set_caret 6); test })"

text \<open>The text of two of the tests, as it stands in the file: six characters.\<close>

definition accented :: ustr where
  "accented = [114, 0xC3, 0xA9] @ lit ''ume''"

definition real_service_handoff_binds_to_controlled_surface_and_race :: "unicode \<Rightarrow> bool" where
  "real_service_handoff_binds_to_controlled_surface_and_race U \<longleftrightarrow>
     (case handoff_after U ''resume'' of
        None \<Rightarrow> False
      | Some h \<Rightarrow>
          ho_rendered_units_to_replace h < 2 ^ 32 \<and>
          passes (Some (surface_new 7 (ho_rendered_token h))) (do {
            succeeds (set_caret (of_nat (ho_rendered_units_to_replace h)));
            snap \<leftarrow> captures (ho_rendered_token h);
            validates h snap (Inr ());
            succeeds (set_secure SX_Secure);
            validates h snap (Inl CV_RevisionMismatch);
            shows_text (ho_rendered_token h)
          }))"

definition controlled_surface_validates_exact_unicode_range :: bool where
  "controlled_surface_validates_exact_unicode_range \<longleftrightarrow>
     at_caret 1 accented (do {
       snap \<leftarrow> captures accented;
       check (es_contents snap = accented \<and> fst (es_range snap) = 0)
     })"

definition controlled_surface_rejects_selection_and_unknown_states :: bool where
  "controlled_surface_rejects_selection_and_unknown_states \<longleftrightarrow>
     at_caret 1 (lit ''resume'') (do {
       snap \<leftarrow> captures (lit ''resume'');
       succeeds (set_selection (SS_Range 0 1));
       validates (handoff_of (lit ''resume'')) snap (Inl CV_RevisionMismatch);
       perform (set_selection SS_None);
       succeeds (set_composition SC_Unknown);
       snap \<leftarrow> captures (lit ''resume'');
       validates (handoff_of (lit ''resume'')) snap (Inl CV_CompositionUnknown)
     })"

definition compare_replace_is_atomic_and_rejects_stale_snapshot :: bool where
  "compare_replace_is_atomic_and_rejects_stale_snapshot \<longleftrightarrow>
     at_caret 1 (lit ''resume'') (do {
       snap \<leftarrow> captures (lit ''resume'');
       succeeds (replace_contents (lit ''resume''));
       result \<leftarrow> replaces (handoff_of (lit ''resume'')) snap (lit ''x'');
       check (result = Inl CV_RevisionMismatch);
       shows_text (lit ''resume'')
     })"

definition compare_replace_happy_path_updates_once :: bool where
  "compare_replace_happy_path_updates_once \<longleftrightarrow>
     at_caret 1 accented (do {
       snap \<leftarrow> captures accented;
       rev \<leftarrow> observe su_revision;
       result \<leftarrow> replaces (handoff_of accented) snap (lit ''resume'');
       check (\<not> isl result);
       shows_text (lit ''resume'');
       now \<leftarrow> observe su_revision;
       check (now = rev + 1)
     })"

text \<open>\<open>revision_overflow_fails_closed\<close> of the module \<open>controlled_surface\<close>.\<close>

definition surface_revision_overflow_fails_closed :: bool where
  "surface_revision_overflow_fails_closed \<longleftrightarrow>
     passes (Some (surface_new 1 (lit ''x''))) (do {
       alter (\<lambda>s. s\<lparr>su_revision := - 1\<rparr>);
       assert_eq (set_caret 0) (Inl CV_RevisionOverflow)
     })"

definition identical_surfaces_do_not_share_identity :: bool where
  "identical_surfaces_do_not_share_identity \<longleftrightarrow>
     (case surface_capture (snd (set_caret 6 (surface_new 1 (lit ''resume'')))) (lit ''resume'') of
        Inl _ \<Rightarrow> False
      | Inr snap \<Rightarrow>
          \<not> isl (fst (set_caret 6 (surface_new 1 (lit ''resume'')))) \<and>
          at_caret 2 (lit ''resume'') (validates (handoff_of (lit ''resume'')) snap (Inl CV_TargetIdentityMismatch)))"

lemmas surface_scenario = passes_def at_caret_def succeeds_def captures_def validates_def replaces_def
  shows_text_def handoff_of_def accented_def surface_new_def set_caret_def set_selection_def replace_contents_def
  set_composition_def set_secure_def surface_bump_def surface_units_def surface_capture_def surface_validate_def
  compare_revision_and_replace_def splice_contents_def Let_def

lemma surface_tests:
  controlled_surface_validates_exact_unicode_range controlled_surface_rejects_selection_and_unknown_states
  compare_replace_is_atomic_and_rejects_stale_snapshot compare_replace_happy_path_updates_once
  surface_revision_overflow_fails_closed identical_surfaces_do_not_share_identity
  by (simp_all add: controlled_surface_validates_exact_unicode_range_def
      controlled_surface_rejects_selection_and_unknown_states_def
      compare_replace_is_atomic_and_rejects_stale_snapshot_def compare_replace_happy_path_updates_once_def
      surface_revision_overflow_fails_closed_def identical_surfaces_do_not_share_identity_def surface_scenario)

lemma surface_race_test: "real_service_handoff_binds_to_controlled_surface_and_race U"
  by (simp add: real_service_handoff_binds_to_controlled_surface_and_race_def handoff_after_def word_eval
      surface_scenario)

subsection \<open>The dummy host\<close>

definition test_host :: dummy_host where
  "test_host = (dummy_host_new 1 10 20 30 (lit ''resume''))\<lparr>sn_caret := 6\<rparr>"

definition test_request :: "u64 \<Rightarrow> dummy_host \<Rightarrow> cas_request" where
  "test_request i h = dummy_host_request h (RequestId i)
     \<lparr>tr_unit_schema = UNIT_SCHEMA, tr_start = 0, tr_end = 6\<rparr> (lit ''resume'') (lit ''restored'')"

definition answers_cas :: "cas_request \<Rightarrow> (dummy_host, host_result) scenario" where
  "answers_cas r =
     do { h \<leftarrow> observe id;
          result \<leftarrow> unwrap (compare_and_replace h r);
          alter (\<lambda>_. snd result);
          unwrap (Some (fst result)) }"

text \<open>Submit a changed request made from the host as it is now.\<close>

definition submits_changed :: "u64 \<Rightarrow> (cas_request \<Rightarrow> cas_request) \<Rightarrow> host_result \<Rightarrow> (dummy_host, unit) scenario" where
  "submits_changed i change expected =
     do { r \<leftarrow> observe (test_request i); result \<leftarrow> answers_cas (change r); check (result = expected) }"

definition same_snapshot :: "host_snapshot \<Rightarrow> (dummy_host, unit) scenario" where
  "same_snapshot earlier = do { now \<leftarrow> observe dummy_host_snapshot; check (now = earlier) }"

definition host_test :: "(dummy_host, unit) scenario \<Rightarrow> bool" where
  "host_test test \<longleftrightarrow> passes (Some test_host) test"

definition successful_apply_is_atomic_and_advances_revision :: bool where
  "successful_apply_is_atomic_and_advances_revision \<longleftrightarrow>
     host_test (do {
       earlier \<leftarrow> observe dummy_host_snapshot;
       submits_changed 1 id (HO_Applied 2);
       h \<leftarrow> observe id;
       check (sn_contents h = lit ''restored'' \<and> sn_revision h = sn_revision earlier + 1 \<and> sn_caret h = 8 \<and>
         sn_selection h = HL_Empty)
     })"

definition stale_revision_rejects_without_partial_mutation :: bool where
  "stale_revision_rejects_without_partial_mutation \<longleftrightarrow>
     host_test (do {
       earlier \<leftarrow> observe dummy_host_snapshot;
       submits_changed 1 (\<lambda>r. r\<lparr>cr_revision := 0\<rparr>) (HO_Rejected HR_RevisionMismatch);
       same_snapshot earlier
     })"

definition wrong_document_control_and_session_reject :: bool where
  "wrong_document_control_and_session_reject \<longleftrightarrow>
     host_test (do {
       submits_changed 1 (\<lambda>r. r\<lparr>cr_identity := (cr_identity r)\<lparr>td_document_id := 99\<rparr>\<rparr>)
         (HO_Rejected HR_TargetIdentityMismatch);
       submits_changed 2 (\<lambda>r. r\<lparr>cr_identity := (cr_identity r)\<lparr>td_control_id := 99\<rparr>\<rparr>)
         (HO_Rejected HR_TargetIdentityMismatch);
       submits_changed 3 (\<lambda>r. r\<lparr>cr_session_id := 11\<rparr>) (HO_Rejected HR_SessionMismatch)
     })"

definition text_and_range_mismatch_reject_without_mutation :: bool where
  "text_and_range_mismatch_reject_without_mutation \<longleftrightarrow>
     host_test (do {
       earlier \<leftarrow> observe dummy_host_snapshot;
       submits_changed 1 (\<lambda>r. r\<lparr>cr_expected_text := lit ''resume!''\<rparr>) (HO_Rejected HR_TextMismatch);
       submits_changed 2 (\<lambda>r. r\<lparr>cr_expected_range := (cr_expected_range r)\<lparr>tr_end := 5\<rparr>\<rparr>)
         (HO_Rejected HR_CaretMismatch);
       same_snapshot earlier
     })"

definition unit_protocol_and_capability_mismatch_reject :: bool where
  "unit_protocol_and_capability_mismatch_reject \<longleftrightarrow>
     host_test (do {
       submits_changed 1 (\<lambda>r. r\<lparr>cr_expected_range := (cr_expected_range r)\<lparr>tr_unit_schema := 2\<rparr>\<rparr>)
         (HO_Rejected HR_UnitMismatch);
       submits_changed 2 (\<lambda>r. r\<lparr>cr_protocol_id := lit ''zonkey.inproc-host/0''\<rparr>) (HO_Rejected HR_ProtocolMismatch);
       submits_changed 3
         (\<lambda>r. r\<lparr>cr_capabilities := (cr_capabilities r)\<lparr>hk_flags := hk_flags (cr_capabilities r) AND NOT 1\<rparr>\<rparr>)
         (HO_Rejected HR_CapabilityMismatch)
     })"

text \<open>One block of the test of unsafe states: change the state of a fresh host, then submit.\<close>

definition unsafe_state :: "(dummy_host \<Rightarrow> (host_reject + unit) \<times> dummy_host) \<Rightarrow> host_reject \<Rightarrow> bool" where
  "unsafe_state change reason \<longleftrightarrow>
     host_test (do { succeeds change; submits_changed 1 id (HO_Rejected reason) })"

definition secure_composition_and_session_states_reject :: bool where
  "secure_composition_and_session_states_reject \<longleftrightarrow>
     unsafe_state (host_set_secure HX_Secure) HR_SecureTarget \<and>
     unsafe_state (host_set_secure HX_Unknown) HR_SecureUnknown \<and>
     unsafe_state (host_set_composition HM_Active) HR_CompositionActive \<and>
     unsafe_state (host_set_composition HM_Unknown) HR_CompositionUnknown \<and>
     unsafe_state (host_set_session HV_UnsupportedRemote) HR_UnsupportedSession \<and>
     unsafe_state (host_set_session HV_Unknown) HR_SessionUnknown"

definition duplicate_exact_request_is_idempotent_and_conflicting_reuse_rejects :: bool where
  "duplicate_exact_request_is_idempotent_and_conflicting_reuse_rejects \<longleftrightarrow>
     host_test (do {
       original \<leftarrow> observe (test_request 1);
       first \<leftarrow> answers_cas original;
       second \<leftarrow> answers_cas original;
       check (first = HO_Applied 2 \<and> second = first);
       h \<leftarrow> observe id;
       check (sn_contents h = lit ''restored'');
       submits_changed 1 (\<lambda>r. r\<lparr>cr_revision := 2, cr_expected_text := lit ''restored'',
           cr_expected_range := (cr_expected_range r)\<lparr>tr_end := 8\<rparr>, cr_caret := 8\<rparr>)
         (HO_Rejected HR_RequestIdReuse)
     })"

definition restart_invalidates_old_session_requests :: bool where
  "restart_invalidates_old_session_requests \<longleftrightarrow>
     host_test (do {
       old \<leftarrow> observe (test_request 1);
       succeeds host_restart;
       session \<leftarrow> observe sn_session_id;
       check (session = 11);
       result \<leftarrow> answers_cas old;
       check (result = HO_Rejected HR_SessionMismatch)
     })"

definition malformed_request_and_overflow_fail_closed :: bool where
  "malformed_request_and_overflow_fail_closed \<longleftrightarrow>
     host_test (do {
       malformed \<leftarrow> observe (test_request 0);
       result \<leftarrow> answers_cas malformed;
       check (result = HO_Rejected HR_MalformedRequest);
       earlier \<leftarrow> observe dummy_host_snapshot;
       result \<leftarrow> answers_cas (malformed\<lparr>cr_request_id := RequestId 1,
         cr_expected_range := (cr_expected_range malformed)\<lparr>tr_start := 7, tr_end := 6\<rparr>\<rparr>);
       check (result = HO_Rejected HR_RangeMismatch);
       same_snapshot earlier;
       alter (\<lambda>h. h\<lparr>sn_revision := - 1\<rparr>);
       earlier \<leftarrow> observe dummy_host_snapshot;
       submits_changed 2 id (HO_Rejected HR_RevisionOverflow);
       same_snapshot earlier
     })"

definition indeterminate_result_is_cached_without_automatic_retry :: bool where
  "indeterminate_result_is_cached_without_automatic_retry \<longleftrightarrow>
     host_test (do {
       r \<leftarrow> observe (\<lambda>h. (test_request 1 h)\<lparr>cr_force_indeterminate := True\<rparr>);
       result \<leftarrow> answers_cas r;
       check (result = HO_Indeterminate HI_InjectedAmbiguousCommit);
       h \<leftarrow> observe id;
       check (sn_contents h = lit ''restored'' \<and> sn_revision h = 2);
       again \<leftarrow> answers_cas r;
       check (again = result);
       h \<leftarrow> observe id;
       check (sn_revision h = 2)
     })"

definition non_empty_selection_rejects_without_mutation :: bool where
  "non_empty_selection_rejects_without_mutation \<longleftrightarrow>
     host_test (do {
       succeeds (host_set_selection (HL_Range 0 1));
       earlier \<leftarrow> observe dummy_host_snapshot;
       submits_changed 1 id (HO_Rejected HR_SelectionNotEmpty);
       same_snapshot earlier
     })"

lemma run_answers_cas:
  "compare_and_replace h r = Some (result, h') \<Longrightarrow> run_state (answers_cas r) (h, ok) = (result, h', ok)"
  by (simp add: answers_cas_def)

lemmas host_scenario = passes_def host_test_def test_host_def test_request_def run_answers_cas submits_changed_def
  same_snapshot_def unsafe_state_def succeeds_def dummy_host_new_def dummy_host_request_def dummy_host_snapshot_def
  host_snapshot.defs

lemmas host_eval = compare_and_replace_def validate_and_apply_def host_checks_def host_apply_def host_text_units_def
  host_set_secure_def host_set_composition_def host_set_session_def host_set_selection_def host_bump_def
  host_restart_def ALL_CAPABILITIES_def UNIT_SCHEMA_def Let_def

lemma host_tests:
  successful_apply_is_atomic_and_advances_revision stale_revision_rejects_without_partial_mutation
  wrong_document_control_and_session_reject text_and_range_mismatch_reject_without_mutation
  by (simp_all add: successful_apply_is_atomic_and_advances_revision_def
      stale_revision_rejects_without_partial_mutation_def wrong_document_control_and_session_reject_def
      text_and_range_mismatch_reject_without_mutation_def host_scenario host_eval)

lemma host_tests_2:
  unit_protocol_and_capability_mismatch_reject secure_composition_and_session_states_reject
  duplicate_exact_request_is_idempotent_and_conflicting_reuse_rejects
  restart_invalidates_old_session_requests
  by (simp_all add: unit_protocol_and_capability_mismatch_reject_def PROTOCOL_ID_def
      secure_composition_and_session_states_reject_def
      duplicate_exact_request_is_idempotent_and_conflicting_reuse_rejects_def
      restart_invalidates_old_session_requests_def host_scenario host_eval)

lemma host_tests_3:
  malformed_request_and_overflow_fail_closed indeterminate_result_is_cached_without_automatic_retry
  non_empty_selection_rejects_without_mutation
  by (simp_all add: malformed_request_and_overflow_fail_closed_def
      indeterminate_result_is_cached_without_automatic_retry_def non_empty_selection_rejects_without_mutation_def
      host_scenario host_eval)

end
