(* ===== verification/Codec_Tests.thy ===== *)
theory Codec_Tests
  imports Codec Scenario
begin

text \<open>
  Unit tests of the recovery state codec (\<open>zonkey-service/src/recovery_codec.rs\<close>), each under its own
  name, and the proof that the model passes them; the checksum and the hash function on published test
  values.  Left out are the tests that compare SHA-256 values of different salts or search the encoded
  file for the texts that it hashes.
\<close>

unbundle bit_operations_syntax

subsection \<open>The decoder on files with an intact header\<close>

definition header_words :: "bytes \<Rightarrow> u32 \<Rightarrow> u32 \<Rightarrow> bytes" where
  "header_words salt count len =
     RECOVERY_STATE_MAGIC @ push_u32 RECOVERY_STATE_VERSION @ salt @ push_u32 count @ push_u32 len"

lemma file_header_words: "file_header salt n m = header_words salt (of_nat n) (of_nat m)"
  by (simp add: file_header_def header_words_def)

lemma length_header_words [simp]: "length salt = SALT_BYTES \<Longrightarrow> length (header_words salt count len) = 36"
  by (simp add: header_words_def SALT_BYTES_def)

text \<open>What the decoder answers before it looks at the records.\<close>

lemma decode_refuses:
  assumes salt: "length salt = SALT_BYTES" and bs: "bs = header_words salt count len @ rest"
    and max: "length bs \<le> MAX_RECOVERY_STATE_BYTES"
  shows "MAX_RECOVERY_ENTRIES < unat count \<Longrightarrow> decode_state bs = Inl CE_TooManyEntries"
    and "unat count \<le> MAX_RECOVERY_ENTRIES \<Longrightarrow> length rest \<noteq> unat len + 4 \<Longrightarrow> decode_state bs = Inl CE_Malformed"
    and "unat count \<le> MAX_RECOVERY_ENTRIES \<Longrightarrow> rest = payload @ push_u32 c \<Longrightarrow> length payload = unat len \<Longrightarrow>
      crc32 (header_words salt count len @ payload) \<noteq> c \<Longrightarrow> decode_state bs = Inl CE_ChecksumMismatch"
proof -
  let ?m = RECOVERY_STATE_MAGIC and ?v = "push_u32 RECOVERY_STATE_VERSION"
  have r1: "read_fixed 8 bs 0 = Inr (?m, 8)"
    using read_in(1) [of ?m 8 bs "[]"] by (simp add: bs header_words_def)
  have r2: "read_u32 bs 8 = Inr (RECOVERY_STATE_VERSION, 12)"
    using read_u32_in [of bs ?m RECOVERY_STATE_VERSION] by (simp add: bs header_words_def)
  have r3: "read_fixed SALT_BYTES bs 12 = Inr (salt, 28)"
    using read_in(1) [OF salt, of bs "?m @ ?v"] by (simp add: bs header_words_def SALT_BYTES_def)
  have r4: "read_u32 bs 28 = Inr (count, 32)"
    using read_u32_in [of bs "?m @ ?v @ salt" count] salt by (simp add: bs header_words_def SALT_BYTES_def)
  have r5: "read_u32 bs 32 = Inr (len, 36)"
    using read_u32_in [of bs "?m @ ?v @ salt @ push_u32 count" len] salt
    by (simp add: bs header_words_def SALT_BYTES_def)
  have l: "length bs = 36 + length rest" using salt by (simp add: bs)
  show "MAX_RECOVERY_ENTRIES < unat count \<Longrightarrow> decode_state bs = Inl CE_TooManyEntries"
    using max by (simp add: decode_state_def r1 r2 r3 r4)
  show "unat count \<le> MAX_RECOVERY_ENTRIES \<Longrightarrow> length rest \<noteq> unat len + 4 \<Longrightarrow> decode_state bs = Inl CE_Malformed"
    using max by (simp add: decode_state_def r1 r2 r3 r4 r5 l)
  assume "unat count \<le> MAX_RECOVERY_ENTRIES" and rest: "rest = payload @ push_u32 c"
    and p: "length payload = unat len" and crc: "crc32 (header_words salt count len @ payload) \<noteq> c"
  have "read_u32 bs (36 + unat len) = Inr (c, 40 + unat len)"
    using read_u32_in [of bs "header_words salt count len @ payload" c] salt p by (simp add: bs rest)
  moreover have "take (36 + unat len) bs = header_words salt count len @ payload" using salt p by (simp add: bs rest)
  ultimately show "decode_state bs = Inl CE_ChecksumMismatch"
    using max p crc \<open>unat count \<le> MAX_RECOVERY_ENTRIES\<close>
    by (simp add: decode_state_def r1 r2 r3 r4 r5 l rest Let_def)
qed

text \<open>Every proper prefix of an encoded file is refused.\<close>

lemma decode_truncated:
  assumes salt: "length salt = SALT_BYTES" and f: "encode_state salt rs = Inr file" and k: "k < length file"
  shows "decode_state (take k file) \<in> {Inl CE_Truncated, Inl CE_Malformed}"
proof -
  obtain payload where p: "length rs \<le> MAX_RECOVERY_ENTRIES" "length payload < 2 ^ 32"
    "file = header_words salt (of_nat (length rs)) (of_nat (length payload)) @ payload @
       push_u32 (crc32 (header_words salt (of_nat (length rs)) (of_nat (length payload)) @ payload))"
    "length file \<le> MAX_RECOVERY_STATE_BYTES"
    using f by (auto simp: encode_state_Inr file_header_words)
  let ?h = "header_words salt (of_nat (length rs)) (of_nat (length payload))"
  have l: "length (take k file) = k" "length file = 40 + length payload" using k salt p(3) by simp_all
  show ?thesis
  proof (cases "36 \<le> k")
    case True
    have "take k file = ?h @ take (k - 36) (drop 36 file)" using True salt p(3) by simp
    moreover have "length (take (k - 36) (drop 36 file)) = k - 36" using k by simp
    moreover have "unat (of_nat (length rs) :: u32) = length rs" "unat (of_nat (length payload) :: u32) = length payload"
      using p(1,2) by (simp_all add: unat_of_nat_u32 MAX_RECOVERY_ENTRIES_def)
    ultimately show ?thesis
      using decode_refuses(2) [OF salt, of "take k file" "of_nat (length rs)" "of_nat (length payload)"] p(1,4) l k True
      by simp
  next
    case False
    have pre: "read_fixed n (take k file) i =
        (if i + n \<le> k then Inr (take n (drop i file), i + n) else Inl CE_Truncated)" for n i
      using k by (simp add: read_fixed_def take_drop min_def add.commute)
    have "\<exists>rest. file = RECOVERY_STATE_MAGIC @ push_u32 RECOVERY_STATE_VERSION @ salt @ push_u32 (of_nat (length rs)) @ rest"
      using p(3) by (simp add: header_words_def)
    then obtain rest where
      "file = RECOVERY_STATE_MAGIC @ push_u32 RECOVERY_STATE_VERSION @ salt @ push_u32 (of_nat (length rs)) @ rest" ..
    then have d: "take 8 file = RECOVERY_STATE_MAGIC" "take 4 (drop 8 file) = push_u32 RECOVERY_STATE_VERSION"
      "take 4 (drop 28 file) = push_u32 (of_nat (length rs))"
      using salt by (simp_all add: SALT_BYTES_def)
    have "unat (of_nat (length rs) :: u32) \<le> MAX_RECOVERY_ENTRIES"
      using p(1) by (simp add: unat_of_nat_u32 MAX_RECOVERY_ENTRIES_def)
    then show ?thesis
      using False k p(4) d
      by (simp add: decode_state_def read_u32_def pre SALT_BYTES_def from_le_push)
  qed
qed

subsection \<open>Checksum and hash on published values\<close>

definition crc32_matches_standard_check_value :: bool where
  "crc32_matches_standard_check_value \<longleftrightarrow>
     crc32 (map (\<lambda>c. byte_of (of_char c)) ''123456789'') = 0xCBF43926 \<and> crc32 [] = 0"

lemma crc_byte_steps:
  "crc_byte crc b = crc_bit (crc_bit (crc_bit (crc_bit (crc_bit (crc_bit (crc_bit (crc_bit (crc XOR ucast b))))))))"
  by (simp add: crc_byte_def numeral_eq_Suc)

lemma crc_test: crc32_matches_standard_check_value
  by (simp add: crc32_matches_standard_check_value_def crc32_def crc_byte_steps crc_bit_def crc_poly_def byte_of_def)

subsection \<open>Samples\<close>

definition sample :: "recovery_verdict option \<Rightarrow> persisted_target" where
  "sample verdict =
     (let salt = replicate SALT_BYTES 7 in
      \<lparr>pt_uri = lit ''file:///doc/a.txt'', pt_range = (0, 6),
       pt_expected_hash = salted_hash salt (lit ''resume''), pt_replacement_hash = salted_hash salt (lit ''restored''),
       pt_kind = PK_Blocked verdict, pt_generation = 3, pt_document_epoch = 7, pt_request_id = lit ''req-1''\<rparr>)"

definition pending_sample :: persisted_target where
  "pending_sample =
     (let salt = replicate SALT_BYTES 7 in
      \<lparr>pt_uri = lit ''file:///doc/b.txt'', pt_range = (2, 8),
       pt_expected_hash = salted_hash salt (lit ''resume''), pt_replacement_hash = salted_hash salt (lit ''restored''),
       pt_kind = PK_Pending, pt_generation = 4, pt_document_epoch = 0, pt_request_id = lit ''req-pending-9''\<rparr>)"

definition encodes :: "u8 \<Rightarrow> persisted_target list \<Rightarrow> (bytes \<Rightarrow> bytes \<Rightarrow> bool) \<Rightarrow> bool" where
  "encodes b records test =
     (case encode_state (replicate SALT_BYTES b) records of
        Inl _ \<Rightarrow> False | Inr file \<Rightarrow> test (replicate SALT_BYTES b) file)"

definition clean_roundtrip_for_all_verdict_states :: bool where
  "clean_roundtrip_for_all_verdict_states \<longleftrightarrow>
     list_all (\<lambda>verdict. encodes 9 [sample verdict] (\<lambda>salt file. decode_state file = Inr (salt, [sample verdict])))
       [None, Some RV_AppliedAcknowledged, Some RV_NotApplied, Some RV_ConflictHumanReview]"

definition pending_records_roundtrip :: bool where
  "pending_records_roundtrip \<longleftrightarrow>
     encodes 11 [pending_sample, sample None]
       (\<lambda>salt file. decode_state file = Inr (salt, [pending_sample, sample None]))"

definition encoding_is_deterministic_within_salt :: bool where
  "encoding_is_deterministic_within_salt \<longleftrightarrow>
     encodes 1 [sample None] (\<lambda>salt first.
       encode_state salt [sample None] = Inr first \<and>
       encodes 2 [sample None] (\<lambda>_ other. first \<noteq> other))"

definition truncated_file_fails_closed :: bool where
  "truncated_file_fails_closed \<longleftrightarrow>
     encodes 4 [sample None] (\<lambda>_ file.
       list_all (\<lambda>cut. decode_state (take cut file) \<in> {Inl CE_Truncated, Inl CE_Malformed}) [1, 10, length file - 1])"

definition bad_magic_version_and_checksum_fail_closed :: bool where
  "bad_magic_version_and_checksum_fail_closed \<longleftrightarrow>
     encodes 5 [sample None] (\<lambda>_ file.
       decode_state (file[0 := byte_of 0x58]) = Inl CE_BadMagic \<and>
       decode_state (file[8 := 0xFF]) = Inl CE_UnknownVersion \<and>
       decode_state (file[length file - 1 := last file XOR 1]) = Inl CE_ChecksumMismatch \<and>
       decode_state (file[20 := file ! 20 XOR 1]) = Inl CE_ChecksumMismatch)"

definition oversized_count_and_file_fail_closed :: bool where
  "oversized_count_and_file_fail_closed \<longleftrightarrow>
     encodes 6 [] (\<lambda>_ file.
       (let count_offset = 8 + 4 + SALT_BYTES;
            file' = file[count_offset := 0xFF, count_offset + 1 := 0xFF, count_offset + 2 := 0xFF,
                         count_offset + 3 := 0x7F]
        in decode_state (file' @ push_u32 (crc32 file')) = Inl CE_TooManyEntries) \<and>
       decode_state (take (length file - 4) file @ replicate MAX_RECOVERY_STATE_BYTES 0) = Inl CE_OversizedFile)"

definition payload_length_mismatch_fails_closed :: bool where
  "payload_length_mismatch_fails_closed \<longleftrightarrow>
     encodes 8 [sample None] (\<lambda>_ file.
       (let len_offset = 8 + 4 + SALT_BYTES + 4;
            file' = file[len_offset := file ! len_offset XOR 0x10]
        in decode_state (take (length file' - 4) file' @ push_u32 (crc32 file')) = Inl CE_Malformed))"

definition encode_caps_entries_and_uri :: bool where
  "encode_caps_entries_and_uri \<longleftrightarrow>
     (let salt = replicate SALT_BYTES 2 in
      encode_state salt (replicate (MAX_RECOVERY_ENTRIES + 1) (sample None)) = Inl CE_EncodeOverflow \<and>
      encode_state salt [(sample None)\<lparr>pt_uri := replicate (MAX_URI_BYTES + 1) (chr CHR ''x'')\<rparr>] =
        Inl CE_EncodeOverflow)"

subsection \<open>The samples encode\<close>

definition sample_records :: "persisted_target list set" where
  "sample_records = {[], [pending_sample, sample None]} \<union> {[sample v] | v. True}"

lemmas record_eval = encode_record_def sample_def pending_sample_def utf8_char_def MAX_URI_BYTES_def
  MAX_REQUEST_ID_BYTES_def Let_def

lemma samples_encode:
  assumes "rs \<in> sample_records"
  shows "\<exists>p. encode_records rs = Inr p \<and> length p < 65536"
  using assms
  by (auto simp: sample_records_def record_eval kind_bytes_def split: option.split)

lemma sample_file:
  assumes "rs \<in> sample_records"
  obtains p where "length p < 65536" and "length rs \<le> 2"
    and "encode_state (replicate SALT_BYTES b) rs =
      Inr (header_words (replicate SALT_BYTES b) (of_nat (length rs)) (of_nat (length p)) @ p @
        push_u32 (crc32 (header_words (replicate SALT_BYTES b) (of_nat (length rs)) (of_nat (length p)) @ p)))"
proof -
  obtain p where p: "encode_records rs = Inr p" "length p < 65536" using samples_encode [OF assms] by blast
  moreover have "length rs \<le> 2" using assms by (auto simp: sample_records_def)
  ultimately show thesis
    by (intro that [of p]) (simp_all add: encode_state_Inr file_header_words MAX_RECOVERY_ENTRIES_def
        MAX_RECOVERY_STATE_BYTES_def)
qed

lemma samples_wf: "rs \<in> sample_records \<Longrightarrow> list_all wf_target rs"
  by (auto simp: sample_records_def wf_target_def sample_def pending_sample_def Let_def is_scalar_def)

lemma encodes_sample:
  assumes "rs \<in> sample_records"
    and "\<And>file. encode_state (replicate SALT_BYTES b) rs = Inr file \<Longrightarrow> P (replicate SALT_BYTES b) file"
  shows "encodes b rs P"
proof -
  obtain stored where "encode_state (replicate SALT_BYTES b) rs = Inr stored"
    by (rule sample_file [OF assms(1), of b]) blast
  then show ?thesis using assms(2) by (simp add: encodes_def)
qed

lemma samples_in [simp]:
  "[sample v] \<in> sample_records" "[pending_sample, sample None] \<in> sample_records" "[] \<in> sample_records"
  unfolding sample_records_def by blast+

subsection \<open>The tests pass\<close>

lemma roundtrip_tests: clean_roundtrip_for_all_verdict_states pending_records_roundtrip
proof -
  have "encodes b rs (\<lambda>salt file. decode_state file = Inr (salt, rs))" if "rs \<in> sample_records" for b rs
    by (rule encodes_sample [OF that]) (rule decode_encode_state [OF _ samples_wf [OF that]], simp_all)
  then show clean_roundtrip_for_all_verdict_states pending_records_roundtrip
    by (simp_all add: clean_roundtrip_for_all_verdict_states_def pending_records_roundtrip_def)
qed

lemma deterministic_test: encoding_is_deterministic_within_salt
  unfolding encoding_is_deterministic_within_salt_def
proof (intro encodes_sample samples_in conjI)
  fix first other
  assume f: "encode_state (replicate SALT_BYTES 1) [sample None] = Inr first"
    and o: "encode_state (replicate SALT_BYTES 2) [sample None] = Inr other"
  have "decode_state first = Inr (replicate SALT_BYTES 1, [sample None])"
    "decode_state other = Inr (replicate SALT_BYTES 2, [sample None])"
    by (rule decode_encode_state [OF _ samples_wf f]; simp) (rule decode_encode_state [OF _ samples_wf o]; simp)
  then show "first \<noteq> other" by (auto simp: SALT_BYTES_def)
qed

lemma truncated_test: truncated_file_fails_closed
  unfolding truncated_file_fails_closed_def
proof (rule encodes_sample [OF samples_in(1)])
  fix stored
  assume f: "encode_state (replicate SALT_BYTES 4) [sample None] = Inr stored"
  have "36 < length stored"
    by (rule sample_file [OF samples_in(1) [of None], of 4]) (use f in simp)
  then show "list_all (\<lambda>cut. decode_state (take cut stored) \<in> {Inl CE_Truncated, Inl CE_Malformed}) [1, 10, length stored - 1]"
    using decode_truncated [OF _ f] by simp
qed

lemma caps_test: encode_caps_entries_and_uri
proof -
  have "ulen (replicate (MAX_URI_BYTES + 1) (chr CHR ''x'')) = MAX_URI_BYTES + 1"
    by (subst ulen_ascii) (simp_all add: is_ascii_str_def list_all_iff is_ascii_def)
  then show ?thesis by (simp add: encode_caps_entries_and_uri_def encode_state_def encode_record_def Let_def)
qed

subsection \<open>Damaged files\<close>

lemma xor_changes: "(b :: u8) XOR 1 \<noteq> b" "b XOR 0x10 \<noteq> b"
proof -
  have "b XOR k \<noteq> b" if "k \<noteq> 0" for k
  proof
    assume "b XOR k = b"
    then have "b XOR (b XOR k) = b XOR b" by simp
    then show False using that by simp
  qed
  then show "b XOR 1 \<noteq> b" "b XOR 0x10 \<noteq> b" by simp_all
qed

lemma four_bytes:
  assumes "length xs = 4"
  obtains a b c d where "xs = [a, b, c, d]"
  using assms by (auto simp: numeral_eq_Suc length_Suc_conv)

lemma header_updates:
  assumes "length salt = SALT_BYTES"
  shows "(header_words salt n m)[20 := x] = header_words (salt[8 := x]) n m"
    and "(header_words salt n m)[32 := x] = header_words salt n (of_nat (from_le ((push_u32 m)[0 := x])))"
    and "(header_words salt n m)[28 := a, 29 := b, 30 := c, 31 := d] = header_words salt (of_nat (from_le [a, b, c, d])) m"
proof -
  obtain e f g h where "push_u32 n = [e, f, g, h]" using four_bytes [OF push_lengths(2) [of n]] by blast
  then show "(header_words salt n m)[28 := a, 29 := b, 30 := c, 31 := d] = header_words salt (of_nat (from_le [a, b, c, d])) m"
    using assms push_from_le(2) [of "[a, b, c, d]"] by (auto simp: header_words_def list_update_append SALT_BYTES_def)
qed (use assms in \<open>simp_all add: header_words_def list_update_append SALT_BYTES_def push_from_le\<close>)

text \<open>The damages of the tests, on the file of one sample.\<close>

lemma damaged_files:
  assumes "rs \<in> sample_records" and f: "encode_state (replicate SALT_BYTES k) rs = Inr stored"
  shows "decode_state (stored[0 := byte_of 0x58]) = Inl CE_BadMagic"
    and "decode_state (stored[8 := 0xFF]) = Inl CE_UnknownVersion"
    and "decode_state (stored[length stored - 1 := last stored XOR 1]) = Inl CE_ChecksumMismatch"
    and "decode_state (stored[20 := stored ! 20 XOR 1]) = Inl CE_ChecksumMismatch"
proof -
  let ?s = "replicate SALT_BYTES k :: bytes"
  obtain p where p: "length p < 65536" "length rs \<le> 2"
    and stored: "stored = header_words ?s (of_nat (length rs)) (of_nat (length p)) @ p @
        push_u32 (crc32 (header_words ?s (of_nat (length rs)) (of_nat (length p)) @ p))"
    by (rule sample_file [OF assms(1), of k]) (use f in auto)
  let ?h = "header_words ?s (of_nat (length rs)) (of_nat (length p))"
  have l: "length ?h = 36" "length stored = 40 + length p" "length stored \<le> MAX_RECOVERY_STATE_BYTES"
    using p(1) by (simp_all add: stored MAX_RECOVERY_STATE_BYTES_def)
  have n: "unat (of_nat (length rs) :: u32) \<le> MAX_RECOVERY_ENTRIES" "unat (of_nat (length p) :: u32) = length p"
    using p(1,2) by (simp_all add: unat_of_nat_u32 MAX_RECOVERY_ENTRIES_def)
  have h: "\<exists>rest. stored = RECOVERY_STATE_MAGIC @ push_u32 RECOVERY_STATE_VERSION @ rest"
    by (simp add: stored header_words_def)
  then obtain rest where r: "stored = RECOVERY_STATE_MAGIC @ push_u32 RECOVERY_STATE_VERSION @ rest" ..
  have "RECOVERY_STATE_MAGIC[0 := byte_of 0x58] \<noteq> RECOVERY_STATE_MAGIC"
    by (simp add: RECOVERY_STATE_MAGIC_def byte_of_def)
  then show "decode_state (stored[0 := byte_of 0x58]) = Inl CE_BadMagic"
    using l by (simp add: decode_state_def read_fixed_def r list_update_append)
  have four: "(4 :: nat) = Suc (Suc (Suc (Suc 0)))" by simp
  have "push_u32 RECOVERY_STATE_VERSION = [2, 0, 0, 0]"
    unfolding push_u32_def RECOVERY_STATE_VERSION_def four by (simp add: byte_of_def)
  then have "(push_u32 RECOVERY_STATE_VERSION)[0 := 0xFF] = [0xFF, 0, 0, 0]" by simp
  then show "decode_state (stored[8 := 0xFF]) = Inl CE_UnknownVersion"
    using l by (simp add: decode_state_def read_u32_def read_fixed_def r list_update_append
        RECOVERY_STATE_VERSION_def)
  obtain a b c d where c: "push_u32 (crc32 (?h @ p)) = [a, b, c, d]" using four_bytes [OF push_lengths(2)] by blast
  have w: "push_u32 (of_nat (from_le [a, b, c, d XOR 1])) = [a, b, c, d XOR 1]" by (rule push_from_le) simp
  have "of_nat (from_le [a, b, c, d XOR 1]) \<noteq> crc32 (?h @ p)"
    using c w xor_changes(1) [of d] by (metis list.inject)
  moreover have "stored[length stored - 1 := last stored XOR 1] = ?h @ p @ [a, b, c, d XOR 1]"
    using l by (simp add: stored c list_update_append)
  ultimately show "decode_state (stored[length stored - 1 := last stored XOR 1]) = Inl CE_ChecksumMismatch"
    using decode_refuses(3) [OF _ _ _ n(1), of ?s "?h @ p @ [a, b, c, d XOR 1]" _ _ p] n(2) l w
    by (metis (no_types, lifting) append.assoc length_append length_list_update length_replicate)
  have u: "stored[20 := stored ! 20 XOR 1] = (?h @ p)[20 := (?h @ p) ! 20 XOR 1] @ push_u32 (crc32 (?h @ p))"
    using l by (simp add: stored list_update_append nth_append)
  have v: "(?h @ p)[20 := x] = header_words (?s[8 := x]) (of_nat (length rs)) (of_nat (length p)) @ p" for x
    using l header_updates(1) [of ?s] by (simp add: list_update_append)
  have "crc32 ((?h @ p)[20 := (?h @ p) ! 20 XOR 1]) \<noteq> crc32 (?h @ p)"
    using l xor_changes(1) by (intro crc32_single_byte) simp_all
  then show "decode_state (stored[20 := stored ! 20 XOR 1]) = Inl CE_ChecksumMismatch"
    unfolding u v using l(3) n
    by (intro decode_refuses(3) [where salt = "?s[8 := (?h @ p) ! 20 XOR 1]" and payload = p])
      (simp_all add: MAX_RECOVERY_STATE_BYTES_def stored SALT_BYTES_def)
qed

lemma damage_tests: bad_magic_version_and_checksum_fail_closed
  unfolding bad_magic_version_and_checksum_fail_closed_def
  by (rule encodes_sample [OF samples_in(1)]) (simp add: damaged_files [OF samples_in(1)] damaged_files(3) [OF samples_in(1), simplified])

lemma payload_length_test: payload_length_mismatch_fails_closed
  unfolding payload_length_mismatch_fails_closed_def
proof (rule encodes_sample [OF samples_in(1)])
  fix stored
  assume f: "encode_state (replicate SALT_BYTES 8) [sample None] = Inr stored"
  let ?s = "replicate SALT_BYTES 8 :: bytes"
  obtain p where p: "length p < 65536"
    and stored: "stored = header_words ?s 1 (of_nat (length p)) @ p @
        push_u32 (crc32 (header_words ?s 1 (of_nat (length p)) @ p))"
    by (rule sample_file [OF samples_in(1) [of None], of 8]) (use f in auto)
  obtain a b c d where w: "push_u32 (of_nat (length p)) = [a, b, c, d]" using four_bytes [OF push_lengths(2)] by blast
  let ?len = "of_nat (from_le [a XOR 0x10, b, c, d]) :: u32"
  have at: "header_words ?s 1 (of_nat (length p)) ! 32 = a"
    by (simp add: header_words_def nth_append SALT_BYTES_def w)
  have "push_u32 ?len = [a XOR 0x10, b, c, d]" by (rule push_from_le) simp
  then have "?len \<noteq> of_nat (length p)" using w xor_changes(2) [of a] by auto
  moreover have "unat (of_nat (length p) :: u32) = length p" using p by (simp add: unat_of_nat_u32)
  ultimately have n: "unat ?len \<noteq> length p" by (metis unsigned_word_eqI)
  let ?file = "stored[32 := stored ! 32 XOR 0x10]"
  have changed: "?file = header_words ?s 1 ?len @ p @ push_u32 (crc32 (header_words ?s 1 (of_nat (length p)) @ p))"
    using header_updates(2) [of ?s 1 "of_nat (length p)" "a XOR 0x10"]
    by (simp add: stored list_update_append nth_append at w)
  then have "take (length ?file - 4) ?file = header_words ?s 1 ?len @ p" by simp
  then have "decode_state (take (length ?file - 4) ?file @ push_u32 (crc32 ?file)) = Inl CE_Malformed"
    using n p by (simp only: append.assoc)
      (rule decode_refuses(2) [OF _ refl], simp_all add: MAX_RECOVERY_STATE_BYTES_def MAX_RECOVERY_ENTRIES_def)
  then show "let len_offset = 8 + 4 + SALT_BYTES + 4; file' = stored[len_offset := stored ! len_offset XOR 0x10]
      in decode_state (take (length file' - 4) file' @ push_u32 (crc32 file')) = Inl CE_Malformed"
    by (simp add: SALT_BYTES_def Let_def)
qed

lemma oversized_test: oversized_count_and_file_fail_closed
  unfolding oversized_count_and_file_fail_closed_def
proof (rule encodes_sample [OF samples_in(3)])
  fix stored
  assume f: "encode_state (replicate SALT_BYTES 6) [] = Inr stored"
  let ?s = "replicate SALT_BYTES 6 :: bytes"
  have stored: "stored = header_words ?s 0 0 @ push_u32 (crc32 (header_words ?s 0 0))"
    using f by (simp add: encode_state_Inr file_header_words)
  let ?file = "stored[28 := 0xFF, 29 := 0xFF, 30 := 0xFF, 31 := 0x7F]"
  have changed: "?file = header_words ?s (of_nat (from_le [0xFF, 0xFF, 0xFF, 0x7F])) 0 @ push_u32 (crc32 (header_words ?s 0 0))"
    using header_updates(3) [of ?s 0 0 "0xFF" "0xFF" "0xFF" "0x7F"] by (simp add: stored list_update_append)
  have "decode_state (?file @ push_u32 (crc32 ?file)) = Inl CE_TooManyEntries"
    unfolding changed append.assoc
    by (rule decode_refuses(1) [OF _ refl]) (simp_all add: MAX_RECOVERY_STATE_BYTES_def MAX_RECOVERY_ENTRIES_def)
  moreover have "decode_state (take (length stored - 4) stored @ replicate MAX_RECOVERY_STATE_BYTES 0) = Inl CE_OversizedFile"
    by (simp add: decode_state_def stored)
  ultimately show "(let count_offset = 8 + 4 + SALT_BYTES;
        file' = stored[count_offset := 0xFF, count_offset + 1 := 0xFF, count_offset + 2 := 0xFF, count_offset + 3 := 0x7F]
      in decode_state (file' @ push_u32 (crc32 file')) = Inl CE_TooManyEntries) \<and>
      decode_state (take (length stored - 4) stored @ replicate MAX_RECOVERY_STATE_BYTES 0) = Inl CE_OversizedFile"
    by (simp add: SALT_BYTES_def Let_def)
qed

end
