(* ===== verification/Hash_Vector.thy ===== *)
theory Hash_Vector
  imports Hashing
begin

text \<open>
  The model of SHA-256 on the published test vector \<open>abc\<close>, one of the three of the unit test
  \<open>sha256_matches_nist_vectors\<close> (\<open>zonkey-service/src/recovery_codec.rs\<close>): the message schedule and the
  64 rounds are calculated in the kernel, sixteen at a time.
\<close>

definition abc_block :: bytes where
  "abc_block =
     [97, 98, 99, 0x80, 0, 0, 0, 0, 0, 0, 0, 0, 0, 0, 0, 0, 0, 0, 0, 0, 0, 0, 0, 0, 0, 0, 0, 0, 0, 0, 0, 0,
      0, 0, 0, 0, 0, 0, 0, 0, 0, 0, 0, 0, 0, 0, 0, 0, 0, 0, 0, 0, 0, 0, 0, 0, 0, 0, 0, 0, 0, 0, 0, 24]"

definition abc_schedule :: "u32 list" where
  "abc_schedule =
     [0x61626380, 0, 0, 0, 0, 0, 0, 0, 0, 0, 0, 0, 0, 0, 0, 0x18, 0x61626380, 0xf0000, 0x7da86405,
     0x600003c6, 0x3e9d7b78, 0x183fc00, 0x12dcbfdb, 0xe2e2c38e, 0xc8215c1a, 0xb73679a2, 0xe5bc3909,
     0x32663c5b, 0x9d209d67, 0xec8726cb, 0x702138a4, 0xd3b7973b, 0x93f5997f, 0x3b68ba73, 0xaff4ffc1,
     0xf10a5c62, 0xa8b3996, 0x72af830a, 0x9409e33e, 0x24641522, 0x9f47bf94, 0xf0a64f5a, 0x3e246a79,
     0x27333ba3, 0xc4763f2, 0x840abf27, 0x7a290d5d, 0x65c43da, 0xfb3e89cb, 0xcc7617db, 0xb9e66c34,
     0xa9993667, 0x84badedd, 0xc21462bc, 0x1487472c, 0xb20f7a99, 0xef57b9cd, 0xebe6b238, 0x9fe3095e,
     0x78bc8d4b, 0xa43fcf15, 0x668b2ff8, 0xeeaba2cc, 0x12b1edeb]"

text \<open>Rotation on numbers, reduced to 32 bits.\<close>

lemma rotr_nat: "rotr n w = drop_bit n w OR of_nat (unat w * 2 ^ (32 - n) mod 4294967296)"
proof -
  have "unat (push_bit m w) = unat w * 2 ^ m mod 4294967296" for m
    by (simp only: unsigned_push_bit_eq) (simp add: take_bit_eq_mod push_bit_eq_mult)
  moreover have "push_bit m w = of_nat (unat (push_bit m w))" for m
    by (simp add: word_unat_eq_iff unsigned_of_nat)
  ultimately have "push_bit m w = of_nat (unat w * 2 ^ m mod 4294967296)" for m
    by (simp only:)
  then show ?thesis by (simp add: rotr_def)
qed

lemma sixteen:
  "[n..<n + 16] = [n, n + 1, n + 2, n + 3, n + 4, n + 5, n + 6, n + 7, n + 8, n + 9, n + 10, n + 11, n + 12,
     n + 13, n + 14, n + 15]"
  by (simp add: upt_conv_Cons numeral_eq_Suc)

subsection \<open>The message schedule\<close>

definition schedule_step :: "u32 list \<Rightarrow> nat \<Rightarrow> u32 list" where
  "schedule_step w i = w @ [schedule_word w i]"

lemma schedule_16:
  "foldl schedule_step
     [0x61626380, 0, 0, 0, 0, 0, 0, 0, 0, 0, 0, 0, 0, 0, 0, 0x18] [16..<32] =
     [0x61626380, 0, 0, 0, 0, 0, 0, 0, 0, 0, 0, 0, 0, 0, 0, 0x18, 0x61626380, 0xf0000, 0x7da86405,
     0x600003c6, 0x3e9d7b78, 0x183fc00, 0x12dcbfdb, 0xe2e2c38e, 0xc8215c1a, 0xb73679a2, 0xe5bc3909,
     0x32663c5b, 0x9d209d67, 0xec8726cb, 0x702138a4, 0xd3b7973b]"
  using sixteen [of 16] by (simp add: schedule_step_def schedule_word_def rotr_nat Let_def)

lemma schedule_32:
  "foldl schedule_step
     [0x61626380, 0, 0, 0, 0, 0, 0, 0, 0, 0, 0, 0, 0, 0, 0, 0x18, 0x61626380, 0xf0000, 0x7da86405,
     0x600003c6, 0x3e9d7b78, 0x183fc00, 0x12dcbfdb, 0xe2e2c38e, 0xc8215c1a, 0xb73679a2, 0xe5bc3909,
     0x32663c5b, 0x9d209d67, 0xec8726cb, 0x702138a4, 0xd3b7973b] [32..<48] =
     [0x61626380, 0, 0, 0, 0, 0, 0, 0, 0, 0, 0, 0, 0, 0, 0, 0x18, 0x61626380, 0xf0000, 0x7da86405,
     0x600003c6, 0x3e9d7b78, 0x183fc00, 0x12dcbfdb, 0xe2e2c38e, 0xc8215c1a, 0xb73679a2, 0xe5bc3909,
     0x32663c5b, 0x9d209d67, 0xec8726cb, 0x702138a4, 0xd3b7973b, 0x93f5997f, 0x3b68ba73, 0xaff4ffc1,
     0xf10a5c62, 0xa8b3996, 0x72af830a, 0x9409e33e, 0x24641522, 0x9f47bf94, 0xf0a64f5a, 0x3e246a79,
     0x27333ba3, 0xc4763f2, 0x840abf27, 0x7a290d5d, 0x65c43da]"
  using sixteen [of 32] by (simp add: schedule_step_def schedule_word_def rotr_nat Let_def)

lemma schedule_48:
  "foldl schedule_step
     [0x61626380, 0, 0, 0, 0, 0, 0, 0, 0, 0, 0, 0, 0, 0, 0, 0x18, 0x61626380, 0xf0000, 0x7da86405,
     0x600003c6, 0x3e9d7b78, 0x183fc00, 0x12dcbfdb, 0xe2e2c38e, 0xc8215c1a, 0xb73679a2, 0xe5bc3909,
     0x32663c5b, 0x9d209d67, 0xec8726cb, 0x702138a4, 0xd3b7973b, 0x93f5997f, 0x3b68ba73, 0xaff4ffc1,
     0xf10a5c62, 0xa8b3996, 0x72af830a, 0x9409e33e, 0x24641522, 0x9f47bf94, 0xf0a64f5a, 0x3e246a79,
     0x27333ba3, 0xc4763f2, 0x840abf27, 0x7a290d5d, 0x65c43da] [48..<64] =
     [0x61626380, 0, 0, 0, 0, 0, 0, 0, 0, 0, 0, 0, 0, 0, 0, 0x18, 0x61626380, 0xf0000, 0x7da86405,
     0x600003c6, 0x3e9d7b78, 0x183fc00, 0x12dcbfdb, 0xe2e2c38e, 0xc8215c1a, 0xb73679a2, 0xe5bc3909,
     0x32663c5b, 0x9d209d67, 0xec8726cb, 0x702138a4, 0xd3b7973b, 0x93f5997f, 0x3b68ba73, 0xaff4ffc1,
     0xf10a5c62, 0xa8b3996, 0x72af830a, 0x9409e33e, 0x24641522, 0x9f47bf94, 0xf0a64f5a, 0x3e246a79,
     0x27333ba3, 0xc4763f2, 0x840abf27, 0x7a290d5d, 0x65c43da, 0xfb3e89cb, 0xcc7617db, 0xb9e66c34,
     0xa9993667, 0x84badedd, 0xc21462bc, 0x1487472c, 0xb20f7a99, 0xef57b9cd, 0xebe6b238, 0x9fe3095e,
     0x78bc8d4b, 0xa43fcf15, 0x668b2ff8, 0xeeaba2cc, 0x12b1edeb]"
  using sixteen [of 48] by (simp add: schedule_step_def schedule_word_def rotr_nat Let_def)

subsection \<open>The rounds\<close>

lemmas round_eval = abc_schedule_def rotr_nat Let_def sha_K_def grouped_def

lemma rounds_0:
  "foldl (sha_round abc_schedule)
     (Regs 0x6a09e667 0xbb67ae85 0x3c6ef372 0xa54ff53a 0x510e527f 0x9b05688c 0x1f83d9ab 0x5be0cd19) [0..<16] =
     (Regs 0xb0fa238e 0xc0645fde 0xd932eb16 0x87912990 0x7590dcd 0xb92f20c 0x745a48de 0x1e578218)"
  using sixteen [of 0] by (simp add: round_eval)

lemma rounds_16:
  "foldl (sha_round abc_schedule)
     (Regs 0xb0fa238e 0xc0645fde 0xd932eb16 0x87912990 0x7590dcd 0xb92f20c 0x745a48de 0x1e578218) [16..<32] =
     (Regs 0x73b33bf5 0xea992a22 0xa0060b30 0x363482c9 0xba591112 0x109ab3a 0xade79437 0x6112a3b7)"
  using sixteen [of 16] by (simp add: round_eval)

lemma rounds_32:
  "foldl (sha_round abc_schedule)
     (Regs 0x73b33bf5 0xea992a22 0xa0060b30 0x363482c9 0xba591112 0x109ab3a 0xade79437 0x6112a3b7) [32..<48] =
     (Regs 0x4172328d 0xa14c14b0 0x72ab4b91 0x26628815 0xfecf0bc6 0xd57b94a9 0xb7755da1 0xa80f11f0)"
  using sixteen [of 32] by (simp add: round_eval)

lemma rounds_48:
  "foldl (sha_round abc_schedule)
     (Regs 0x4172328d 0xa14c14b0 0x72ab4b91 0x26628815 0xfecf0bc6 0xd57b94a9 0xb7755da1 0xa80f11f0) [48..<64] =
     (Regs 0x506e3058 0xd39a2165 0x4d24d6c 0xb85e2ce9 0x5ef50f24 0xfb121210 0x948d25b6 0x961f4894)"
  using sixteen [of 48] by (simp add: round_eval)

subsection \<open>The hash\<close>

lemma upt_split: "i \<le> j \<Longrightarrow> j \<le> k \<Longrightarrow> [i..<k] = [i..<j] @ [j..<k]"
  by (metis le_add_diff_inverse upt_add_eq_append)

lemma chunks_four:
  "chunks_exact 4 (a # b # c # d # xs) = [a, b, c, d] # chunks_exact 4 xs" "chunks_exact 4 [] = []"
  by (subst chunks_exact.simps, simp)+

lemma abc_schedule_eq: "message_schedule abc_block = abc_schedule"
proof -
  have "map from_be32 (chunks_exact 4 abc_block) =
      [0x61626380, 0, 0, 0, 0, 0, 0, 0, 0, 0, 0, 0, 0, 0, 0, 0x18]"
    by (simp add: abc_block_def chunks_four from_be32_def)
  then show ?thesis
    using schedule_16 schedule_32 schedule_48
    by (simp add: message_schedule_def abc_schedule_def upt_split [of 16 32 64] upt_split [of 32 48 64]
        flip: schedule_step_def)
qed

lemma fifty_two_zeros:
  "replicate 52 (0 :: 8 word) =
    [0, 0, 0, 0, 0, 0, 0, 0, 0, 0, 0, 0, 0, 0, 0, 0, 0, 0, 0, 0, 0, 0, 0, 0, 0, 0, 0, 0,
     0, 0, 0, 0, 0, 0, 0, 0, 0, 0, 0, 0, 0, 0, 0, 0, 0, 0, 0, 0, 0, 0, 0, 0]"
proof -
  have "replicate 52 (0 :: 8 word) = concat (replicate 4 (replicate 13 0))"
    by (simp add: eval_nat_numeral flip: replicate_add)
  also have "replicate 13 (0 :: 8 word) = [0, 0, 0, 0, 0, 0, 0, 0, 0, 0, 0, 0, 0]"
    by (simp add: eval_nat_numeral)
  finally show ?thesis by (simp add: eval_nat_numeral)
qed

lemma length_be_24: "be_bytes64 24 = [0, 0, 0, 0, 0, 0, 0, 24]"
  by (simp add: be_bytes64_def upt_conv_Cons)

lemma abc_padded: "sha_pad [97, 98, 99] = abc_block"
proof -
  obtain k where k: "k < 64" "pad_zeros [97, 98, 99, 0x80] = [97, 98, 99, 0x80] @ replicate k 0"
    and "length (pad_zeros [97, 98, 99, 0x80]) mod 64 = 56"
    using pad_zeros_spec by blast
  then have padded: "(4 + k) mod 64 = 56" by simp
  have "k = 52"
  proof (cases "4 + k < 64")
    case True
    with padded show ?thesis by simp
  next
    case False
    with k(1) have "(4 + k) mod 64 = k - 60" by (simp add: le_mod_geq)
    with k(1) padded show ?thesis by simp
  qed
  then show ?thesis
    using k(2) by (simp add: sha_pad_def abc_block_def fifty_two_zeros length_be_24)
qed

lemma sha256_abc:
  "hex (sha256 [97, 98, 99]) = lit ''ba7816bf8f01cfea414140de5dae2223b00361a396177a9cb410ff61f20015ad''"
proof -
  have "chunks_exact 64 abc_block = [abc_block]"
    by (subst chunks_exact.simps, subst chunks_exact.simps) (simp add: abc_block_def)
  moreover have "sha_block sha_init abc_block = 
     [0xba7816bf, 0x8f01cfea, 0x414140de, 0x5dae2223, 0xb00361a3, 0x96177a9c, 0xb410ff61, 0xf20015ad]"
    using rounds_0 rounds_16 rounds_32 rounds_48
    by (simp add: sha_block_def abc_schedule_eq upt_split [of 0 16 64] upt_split [of 16 32 64] upt_split [of 32 48 64]
        sha_init_def grouped_def regs_of_def)
  ultimately show ?thesis
    by (simp add: sha256_def abc_padded be_bytes32_def hex_digit_def hex_def)
qed

end
