(* ===== verification/Spec2Isabelle.thy ===== *)
theory Spec2Isabelle
  imports Observe Telex Detect Policy Boundary Queue Service Processor Framing Ledger Handoff Codec Registry Store
    Wire Server Endpoint Client Native NativeEdit Hook RawInput Discovery Harness
    Peer Cli Launch ReadOnly Uia Capability Surface DummyHost
    Console Session Report Dacl Corpus_Check
    Harness_Tests Core_Tests Transport_Tests Decision_Tests Service_Tests Surface_Tests Codec_Tests Hash_Vector
begin

text \<open>
  A verification library for ZonKey, a Windows helper that watches Vietnamese Telex typing,
  recognises English words that the input method has mangled and offers their recovery to a host
  editor.  All sources named below are under \<open>src/crates/\<close>.

  \<^bold>\<open>The program and its data flow.\<close>  Observed key events (\<open>zonkey-types\<close>) enter a bounded queue and
  are processed by the observe loop (\<open>zonkey-service/src/lib.rs\<close>).  The decision processor mirrors
  the typed token with the Telex engine (\<open>zonkey-telex\<close>, \<open>zonkey-token\<close>), classifies it at a word
  boundary (\<open>zonkey-detect\<close>), applies the recovery policy (\<open>zonkey-policy\<close>) and may publish a
  restore plan.  A host request is built from the plan that is current; it travels in length-prefixed
  frames over a named pipe (\<open>zonkey-win/src/pipe_transport.rs\<close>) to an endpoint with a replay ledger
  (\<open>zonkey-service/src/transport.rs\<close>).  What has an uncertain outcome is recorded in a durable store
  (\<open>zonkey-win/src/recovery_store.rs\<close>, \<open>recovery_codec.rs\<close>) and blocks its target until the operator
  reconciles and acknowledges it.

  \<^bold>\<open>Theories, in the order of that flow.\<close>
  \<^item> \<open>Prelude\<close>, \<open>Utf\<close>: Rust characters as scalar values (nat), strings as lists of them, bytes as 8-bit
    words; the string functions of the standard library that the sources call; UTF-8 and UTF-16.
  \<^item> \<open>Types\<close>, \<open>Observe\<close>: the shared value types and the observation types of \<open>zonkey-types\<close>.
  \<^item> \<open>Token\<close>, \<open>Telex\<close>: the token state, minimal edit plans and the Telex engine.  The lemmas show that
    a plan transforms the old rendering into the new one and that the engine keeps the screen right.
  \<^item> \<open>Detect\<close>, \<open>Policy\<close>: protected patterns, the shipped dictionaries, the classifier and the default-deny
    policy.
  \<^item> \<open>Boundary\<close>, \<open>Queue\<close>, \<open>Service\<close>, \<open>Processor\<close>: UTF-16 boundary validation, the drop-newest queue (refining an
    abstract queue), the run loop with its accounting, and the decision processor with restore plans,
    handoffs and the internal gate.  A plan restores exactly the keys that were typed, which are read off
    the events by a specification of their own (\<open>keys_typed\<close>).
  \<^item> \<open>Framing\<close>, \<open>Ledger\<close>, \<open>Handoff\<close>: frames, the replay ledger and session handshake, host requests and the
    mutex-guarded decision state.
  \<^item> \<open>Hashing\<close>, \<open>Codec\<close>, \<open>Registry\<close>: SHA-256, CRC-32 and the recovery file format, bit-exact; the registry of
    blocked targets.
  \<^item> \<open>Store\<close>: the write-through store.  The lemmas show that memory and state file agree after every
    operation and that no restart looks clean.
  \<^item> \<open>Wire\<close>, \<open>Server\<close>, \<open>Endpoint\<close>: the payloads and frame readers of the pipe, the connection handler and
    listener, and their composition with the store.
  \<^item> \<open>Client\<close>: the pipe client with its reader thread (\<open>PipeHostClient\<close> of \<open>pipe_transport.rs\<close>).  A call either
    returns what the server recorded or is lost, and a lost call is final: the client is not used again.
  \<^item> \<open>Native\<close>, \<open>NativeEdit\<close>: virtual-key mapping and modifier tracking (\<open>zonkey-win/src/lib.rs\<close>) and the
    two-sample probe of a standard edit control (\<open>native_edit.rs\<close>).
  \<^item> \<open>Hook\<close>, \<open>RawInput\<close>: the bridge between a window callback and the observe loop (\<open>native.rs\<close>, \<open>raw.rs\<close>): events
    are delivered in order with increasing sequence numbers, and all losses are counted.
  \<^item> \<open>Console\<close>, \<open>Session\<close>, \<open>Report\<close>, \<open>Simulation\<close>: the observe commands (\<open>native.rs\<close>, \<open>raw.rs\<close>) with everything they
    print.  Two runs whose keys differ within their categories print the same; a session that is asked to
    stop ends within a bounded number of readings and cleans up; without the option to show tokens the
    diagnostic output (\<open>zonkey-service/src/lib.rs\<close>) reveals sizes and a category only.
  \<^item> \<open>Discovery\<close>: the discovery record and its life cycle (\<open>endpoint_discovery.rs\<close>).
  \<^item> \<open>Peer\<close>, \<open>Dacl\<close>: who may talk to the pipe (\<open>pipe_security.rs\<close>): the comparison of the client's user with the
    server's, and the access-control list with its inspection.
  \<^item> \<open>Cli\<close>, \<open>Launch\<close>, \<open>ReadOnly\<close>: the command line (\<open>zonkey-cli/src/main.rs\<close>) and the two endpoint commands
    (\<open>zonkey-win/src/lib.rs\<close>): operator commands reach the store as meant, a token of the command line
    reaches the host, a live endpoint hands out what is current, and no endpoint ever authorizes an edit.
  \<^item> \<open>Uia\<close>, \<open>Capability\<close>: the UI Automation probe of an edit control (\<open>uia.rs\<close>), which passes on complete
    evidence only and never looks at the text of a password field, and the bounded walk over an
    editor's element tree (\<open>vscode_capability.rs\<close>).
  \<^item> \<open>Harness\<close>: the cooperating host of the mutation contract (\<open>zonkey-service/src/mutation_harness.rs\<close>): an
    applied request is one exact splice, a request edits at most once, an uncertain target is held.
  \<^item> \<open>Corpus\<close>, \<open>Corpus_Data\<close>, \<open>Corpus_Check\<close>: the two test programs of the regression corpus
    (\<open>zonkey-telex/tests/corpus.rs\<close>, \<open>zonkey-policy/tests/corpus.rs\<close>) and all its rows.  A document typed through
    the engine shows each word composed, and the model passes both programs row by row.
  \<^item> \<open>Scenario\<close> and the theories \<open>Core_Tests\<close>, \<open>Transport_Tests\<close>, \<open>Decision_Tests\<close>, \<open>Service_Tests\<close>,
    \<open>Surface_Tests\<close>, \<open>Harness_Tests\<close>, \<open>Codec_Tests\<close>: the unit tests of the platform-independent crates as
    scenarios over the model, each under its own name, with the proof that the model passes it.  \<open>Hash_Vector\<close>
    calculates the SHA-256 test vector \<open>abc\<close> in the kernel.
  \<^item> \<open>Guard\<close>, \<open>Surface\<close>, \<open>DummyHost\<close>: the contract of a revision-guarded editor, and the controlled surface and
    the in-process host of \<open>zonkey-service/src/lib.rs\<close> (test builds) that keep it, as the harness does.

  \<^bold>\<open>Conventions.\<close>  A struct is a record, an enum a datatype with the variants in source order; a fallible
  function returns a sum or an option; a panic (\<open>expect\<close>, index out of range) is \<open>None\<close>.  Counters kept in
  64 bits are words (wrapping or saturating as the code does); lengths and indices that only live in
  memory are nat.  The operating system is a parameter: the answers of each write, of opening a
  store, of each pipe read and of the request handler are fields of records or lists that the
  theorems quantify over.  Grapheme segmentation (crate \<open>unicode-segmentation\<close>) is a parameter with
  named hypotheses (for the corpus, that the letters it uses are graphemes of their own), and so are \<open>EqualSid\<close>, \<open>SetEntriesInAclW\<close> and the escaped form of a character.
  Interfaces between components are locales, each interpreted on the definitions of the code: bounded
  queue, event processor (and its simulation by a processor that prints), dictionary provider, replay
  ledger, state codec and write-through store, numbered bridge (hook and Raw Input), sources in
  lockstep (both again), revision guard (harness, in-process host, controlled surface).

  \<^bold>\<open>Termination and fuel.\<close>  The observe loop over an endless source is a partial function and its
  return over a finite source is proved.  Frame readers and window threads recurse over the list of
  answers they get; a list that runs out stands for a reader that is still waiting, and such a run has
  no result.  Once the stop message is pending, 514 readings are proved to be enough for a session to
  return: 256 events may be queued before the message is read and 256 after it.

  \<^bold>\<open>What the theorems found.\<close>  Reading failures replace the recovery file by an empty one; a full
  registry drops a promoted intent; a saturated ledger and a failed promotion each let an uncertain
  request run again; an intent left pending under a request id stands for a later request that reuses the id,
  which is then executed uncovered; a key lost at the full bridge of the keyboard hook leaves no mark in the typed
  word; an endpoint command reports success, and leaves a discovery record, for a pipe that could not
  be created; a client that identifies as another user is served when its process belongs to the
  current one; an operator command with a separator in an argument names another target, and one with an
  empty text is accepted by the command line and refused by the server.  These are
  theorems of the library.

  \<^bold>\<open>Not modelled.\<close>  The creation of windows, hooks, pipes, threads and handles, which are calls of the
  operating system whose answers are parameters here; the usage texts and error streams of the
  command line; the waiting times; grapheme segmentation and the JSON parser, which are crates outside the
  sources.  Of the unit tests, those of \<open>zonkey-win\<close> and of the command line (they open pipes, windows and
  files), those that only copy or compare a value, the segmentation of single graphemes, and the
  remaining comparisons of SHA-256 values.
\<close>

end
